(* ===== verification/Prelude.thy ===== *)
theory Prelude
  imports Main "HOL-Library.AList" "HOL-Library.Char_ord" "HOL-Library.List_Lexorder"
begin

text \<open>
  Shared vocabulary of the development: insertion-ordered tables (JavaScript \<open>Map\<close>s,
  objects and SQLite tables keyed by one column), bounded rings, stable sorting by a
  JavaScript comparator and the splitting rules for results that may be an error.

  A text of the program is a HOL \<open>string\<close> holding its UTF-8 bytes. Lone surrogates, which
  no well-formed text contains, are not represented.
\<close>

named_theorems table_simps \<open>lookups after insertions and deletions in a table\<close>
named_theorems ring_simps \<open>contents and length of bounded rings\<close>

subsection \<open>Insertion-ordered tables\<close>

text \<open>
  A table is an association list in insertion order. \<open>AList.update\<close> keeps the position of
  a key that is present and appends a new one, as \<open>Map.set\<close>, property assignment and
  \<open>INSERT ... ON CONFLICT DO UPDATE\<close> do.
\<close>

type_synonym ('k, 'v) table = "('k \<times> 'v) list"

abbreviation put :: "'k \<Rightarrow> 'v \<Rightarrow> ('k, 'v) table \<Rightarrow> ('k, 'v) table" where
  "put \<equiv> AList.update"

abbreviation del :: "'k \<Rightarrow> ('k, 'v) table \<Rightarrow> ('k, 'v) table" where
  "del \<equiv> AList.delete"

definition has :: "'k \<Rightarrow> ('k, 'v) table \<Rightarrow> bool" where
  "has k t \<longleftrightarrow> map_of t k \<noteq> None"

definition keys_ok :: "('k, 'v) table \<Rightarrow> bool" where
  "keys_ok t \<longleftrightarrow> distinct (map fst t)"

lemma map_of_put [table_simps, simp]: "map_of (put k v t) k' = (if k' = k then Some v else map_of t k')"
  by (simp add: update_conv')

lemma map_of_del [table_simps, simp]: "map_of (del k t) k' = (if k' = k then None else map_of t k')"
  by (simp add: delete_conv')

lemma has_put [table_simps, simp]: "has k' (put k v t) \<longleftrightarrow> k' = k \<or> has k' t"
  by (simp add: has_def)

lemma has_del [table_simps, simp]: "has k' (del k t) \<longleftrightarrow> k' \<noteq> k \<and> has k' t"
  by (simp add: has_def)

lemma has_Nil [table_simps, simp]: "\<not> has k []"
  by (simp add: has_def)

lemma has_iff_key: "has k t \<longleftrightarrow> k \<in> fst ` set t"
  by (simp add: has_def map_of_eq_None_iff)

lemma keys_ok_Nil [simp]: "keys_ok []"
  by (simp add: keys_ok_def)

lemma keys_ok_distinct: "keys_ok t \<Longrightarrow> distinct t"
  by (simp add: keys_ok_def distinct_map)

lemma keys_ok_put [simp]: "keys_ok t \<Longrightarrow> keys_ok (put k v t)"
  by (simp add: keys_ok_def distinct_update)

lemma keys_ok_del [simp]: "keys_ok t \<Longrightarrow> keys_ok (del k t)"
  by (simp add: keys_ok_def distinct_delete)

lemma keys_ok_snoc [simp]: "keys_ok (t @ [(k, v)]) \<longleftrightarrow> keys_ok t \<and> \<not> has k t"
  by (auto simp: keys_ok_def has_iff_key)

lemma map_of_snoc [table_simps]:
  "map_of (t @ [(k, v)]) k' = (case map_of t k' of Some w \<Rightarrow> Some w | None \<Rightarrow> if k' = k then Some v else None)"
  by (auto simp: map_add_def split: option.split)

lemma put_append: "\<not> has k t \<Longrightarrow> put k v t = t @ [(k, v)]"
  by (induction t) (auto simp: has_def split: if_splits)

text \<open>Object spread: \<open>{ ...base, ...extra }\<close>.\<close>

definition spread :: "('k, 'v) table \<Rightarrow> ('k, 'v) table \<Rightarrow> ('k, 'v) table" where
  "spread base extra = fold (\<lambda>(k, v). put k v) extra base"

lemma keys_ok_spread [simp]: "keys_ok base \<Longrightarrow> keys_ok (spread base extra)"
  unfolding spread_def by (induction extra arbitrary: base) auto

lemma map_of_spread_distinct [table_simps]:
  "keys_ok extra \<Longrightarrow>
   map_of (spread base extra) k = (case map_of extra k of Some v \<Rightarrow> Some v | None \<Rightarrow> map_of base k)"
  unfolding spread_def
proof (induction extra arbitrary: base)
  case Nil
  then show ?case by simp
next
  case (Cons kv extra)
  obtain k' v where kv: "kv = (k', v)" by (cases kv)
  from Cons.prems kv have ok: "keys_ok extra" and fresh: "map_of extra k' = None"
    by (simp_all add: keys_ok_def map_of_eq_None_iff)
  show ?case
    using Cons.IH [OF ok, of "put k' v base"] fresh kv by (auto split: option.splits)
qed

text \<open>\<open>for (const key of keys) delete values[key]\<close>.\<close>

definition del_all :: "'k list \<Rightarrow> ('k, 'v) table \<Rightarrow> ('k, 'v) table" where
  "del_all ks t = fold del ks t"

lemma map_of_del_all [table_simps]:
  "map_of (del_all ks t) k = (if k \<in> set ks then None else map_of t k)"
  unfolding del_all_def by (induction ks arbitrary: t) auto

lemma keys_ok_del_all [simp]: "keys_ok t \<Longrightarrow> keys_ok (del_all ks t)"
  unfolding del_all_def by (induction ks arbitrary: t) auto

text \<open>\<open>for (const key of keys) table[key] = value\<close>.\<close>

definition put_all :: "'k list \<Rightarrow> 'v \<Rightarrow> ('k, 'v) table \<Rightarrow> ('k, 'v) table" where
  "put_all ks v t = fold (\<lambda>k. put k v) ks t"

lemma map_of_put_all [table_simps]:
  "map_of (put_all ks v t) k = (if k \<in> set ks then Some v else map_of t k)"
  unfolding put_all_def by (induction ks arbitrary: t) auto

lemma keys_ok_put_all [simp]: "keys_ok t \<Longrightarrow> keys_ok (put_all ks v t)"
  unfolding put_all_def by (induction ks arbitrary: t) auto

subsection \<open>Bounded rings\<close>

text \<open>\<open>ring.push(item); if (ring.length > n) ring.splice(0, ring.length - n)\<close>.\<close>

definition ring_push :: "nat \<Rightarrow> 'a list \<Rightarrow> 'a \<Rightarrow> 'a list" where
  "ring_push n xs x = drop (length (xs @ [x]) - n) (xs @ [x])"

lemma length_ring_push [ring_simps]: "length (ring_push n xs x) = min n (Suc (length xs))"
  by (simp add: ring_push_def)

lemma set_ring_push [ring_simps]: "set (ring_push n xs x) \<subseteq> insert x (set xs)"
  using set_drop_subset [of "length (xs @ [x]) - n" "xs @ [x]"] by (auto simp: ring_push_def)

lemma ring_push_small [ring_simps]: "Suc (length xs) \<le> n \<Longrightarrow> ring_push n xs x = xs @ [x]"
  by (simp add: ring_push_def)

lemma ring_push_full [ring_simps]: "length xs = n \<Longrightarrow> 0 < n \<Longrightarrow> ring_push n xs x = tl xs @ [x]"
  by (cases xs) (simp_all add: ring_push_def)

lemma ring_push_last [ring_simps]: "0 < n \<Longrightarrow> ring_push n xs x \<noteq> [] \<and> last (ring_push n xs x) = x"
  by (auto simp: ring_push_def last_drop)

lemma sorted_wrt_ring_push:
  assumes "sorted_wrt R xs" and "\<forall>y \<in> set xs. R y x"
  shows "sorted_wrt R (ring_push n xs x)"
proof -
  have "sorted_wrt R (xs @ [x])"
    using assms by (simp add: sorted_wrt_append)
  then show ?thesis
    unfolding ring_push_def by (rule sorted_wrt_drop)
qed

subsection \<open>Stable sorting by a comparator\<close>

text \<open>
  \<open>Array.prototype.sort\<close> is stable. With a comparator that is a total preorder every stable
  sort gives the same list, so an insertion sort models it; \<open>le a b\<close> is
  \<open>compare(a, b) <= 0\<close>.
\<close>

fun insort_le :: "('a \<Rightarrow> 'a \<Rightarrow> bool) \<Rightarrow> 'a \<Rightarrow> 'a list \<Rightarrow> 'a list" where
  "insort_le le x [] = [x]"
| "insort_le le x (y # ys) = (if le x y then x # y # ys else y # insort_le le x ys)"

definition sort_le :: "('a \<Rightarrow> 'a \<Rightarrow> bool) \<Rightarrow> 'a list \<Rightarrow> 'a list" where
  "sort_le le xs = foldr (insort_le le) xs []"

lemma set_insort_le [simp]: "set (insort_le le x xs) = insert x (set xs)"
  by (induction xs) auto

lemma set_sort_le [simp]: "set (sort_le le xs) = set xs"
  unfolding sort_le_def by (induction xs) auto

lemma length_sort_le [simp]: "length (sort_le le xs) = length xs"
proof -
  have ins: "length (insort_le le x ys) = Suc (length ys)" for x ys
    by (induction ys) auto
  show ?thesis
    unfolding sort_le_def by (induction xs) (auto simp: ins)
qed

lemma map_insort_le:
  "(\<And>a b. le' (f a) (f b) = le a b) \<Longrightarrow> map f (insort_le le x xs) = insort_le le' (f x) (map f xs)"
  by (induction xs) auto

lemma map_sort_le:
  assumes "\<And>a b. le' (f a) (f b) = le a b"
  shows "map f (sort_le le xs) = sort_le le' (map f xs)"
  unfolding sort_le_def
  by (induction xs) (simp_all add: map_insort_le [of le' f le, OF assms])

lemma sorted_insort_le:
  assumes "sorted_wrt le xs" and "\<And>a b. le a b \<or> le b a" and "\<And>a b c. le a b \<Longrightarrow> le b c \<Longrightarrow> le a c"
  shows "sorted_wrt le (insort_le le x xs)"
  using assms(1)
proof (induction xs)
  case Nil
  then show ?case by simp
next
  case (Cons y ys)
  show ?case
  proof (cases "le x y")
    case True
    with Cons.prems assms(3) show ?thesis by auto
  next
    case False
    with assms(2) have "le y x" by blast
    with False Cons show ?thesis by auto
  qed
qed

lemma sorted_sort_le:
  assumes "\<And>a b. le a b \<or> le b a" and "\<And>a b c. le a b \<Longrightarrow> le b c \<Longrightarrow> le a c"
  shows "sorted_wrt le (sort_le le xs)"
proof -
  have "sorted_wrt le (foldr (insort_le le) xs [])"
  proof (induction xs)
    case Nil
    show ?case by simp
  next
    case (Cons x xs)
    then show ?case
      using sorted_insort_le [where le = le and xs = "foldr (insort_le le) xs []" and x = x, OF _ assms]
      by simp
  qed
  then show ?thesis by (simp add: sort_le_def)
qed

lemma distinct_insort_le: "distinct (insort_le le x xs) \<longleftrightarrow> x \<notin> set xs \<and> distinct xs"
  by (induction xs) auto

lemma distinct_sort_le [simp]: "distinct (sort_le le xs) \<longleftrightarrow> distinct xs"
  unfolding sort_le_def
  using set_sort_le [of le, unfolded sort_le_def]
  by (induction xs) (simp_all add: distinct_insort_le)

text \<open>Two sorted permutations of the same distinct elements agree when the order is antisymmetric on them.\<close>

lemma sorted_wrt_unique:
  assumes "sorted_wrt le xs" "sorted_wrt le ys" "set xs = set ys" "distinct xs" "distinct ys"
    and anti: "\<And>a b. a \<in> set xs \<Longrightarrow> b \<in> set xs \<Longrightarrow> le a b \<Longrightarrow> le b a \<Longrightarrow> a = b"
  shows "xs = ys"
  using assms
proof (induction xs arbitrary: ys)
  case Nil
  then show ?case by simp
next
  case (Cons x xs)
  then obtain y ys' where ys: "ys = y # ys'"
    by (cases ys) auto
  have "x = y"
  proof (rule ccontr)
    assume ne: "x \<noteq> y"
    with Cons.prems(3) ys have "x \<in> set ys'" "y \<in> set xs" by auto
    with Cons.prems(1,2) ys have "le y x" "le x y" by auto
    with Cons.prems(6) [of x y] \<open>y \<in> set xs\<close> ne show False by auto
  qed
  moreover have "xs = ys'"
  proof (rule Cons.IH)
    show "set xs = set ys'"
      using Cons.prems(3,4,5) ys \<open>x = y\<close> by auto
  next
    show "\<And>a b. a \<in> set xs \<Longrightarrow> b \<in> set xs \<Longrightarrow> le a b \<Longrightarrow> le b a \<Longrightarrow> a = b"
      using Cons.prems(6) by simp
  qed (use Cons.prems(1-5) ys in simp_all)
  ultimately show ?case using ys by simp
qed

subsection \<open>Results that may be an error\<close>

lemma sum_split_Inr: "(case r of Inl e \<Rightarrow> Inl e | Inr a \<Rightarrow> f a) = Inr b \<longleftrightarrow> (\<exists>a. r = Inr a \<and> f a = Inr b)"
  by (cases r) auto

text \<open>Run a fallible step over a list, stopping at the first error.\<close>

fun fold_err :: "('a \<Rightarrow> 's \<Rightarrow> 'e + 's) \<Rightarrow> 'a list \<Rightarrow> 's \<Rightarrow> 'e + 's" where
  "fold_err f [] s = Inr s"
| "fold_err f (x # xs) s = (case f x s of Inl e \<Rightarrow> Inl e | Inr s' \<Rightarrow> fold_err f xs s')"

lemma fold_err_invariant:
  assumes "fold_err f xs s = Inr s'" and "P s"
    and "\<And>x s s'. x \<in> set xs \<Longrightarrow> P s \<Longrightarrow> f x s = Inr s' \<Longrightarrow> P s'"
  shows "P s'"
  using assms
proof (induction xs arbitrary: s)
  case Nil
  then show ?case by simp
next
  case (Cons x xs)
  from Cons.prems(1) obtain u where u: "f x s = Inr u" "fold_err f xs u = Inr s'"
    by (auto split: sum.splits)
  with Cons.prems have "P u" by auto
  with u(2) show ?case
    by (rule Cons.IH) (use Cons.prems(3) in auto)
qed

text \<open>Map a fallible function over a list, reporting the first error.\<close>

fun map_err :: "('a \<Rightarrow> 'e + 'b) \<Rightarrow> 'a list \<Rightarrow> 'e + 'b list" where
  "map_err f [] = Inr []"
| "map_err f (x # xs) =
     (case f x of Inl e \<Rightarrow> Inl e
      | Inr y \<Rightarrow> (case map_err f xs of Inl e \<Rightarrow> Inl e | Inr ys \<Rightarrow> Inr (y # ys)))"

lemma map_err_cong [fundef_cong]:
  "xs = ys \<Longrightarrow> (\<And>x. x \<in> set ys \<Longrightarrow> f x = g x) \<Longrightarrow> map_err f xs = map_err g ys"
  by (induction xs arbitrary: ys) (auto split: sum.split)

lemma map_err_Inr: "map_err f xs = Inr ys \<longleftrightarrow> list_all2 (\<lambda>x y. f x = Inr y) xs ys"
proof (induction xs arbitrary: ys)
  case Nil
  then show ?case by auto
next
  case (Cons x xs)
  show ?case
  proof (cases "map_err f xs")
    case (Inl e)
    with Cons.IH have "\<not> list_all2 (\<lambda>x y. f x = Inr y) xs zs" for zs
      by (metis sum.distinct(1))
    with Inl show ?thesis by (cases ys) (auto split: sum.splits)
  next
    case (Inr zs)
    then have "list_all2 (\<lambda>x y. f x = Inr y) xs us \<longleftrightarrow> us = zs" for us
      using Cons.IH [of us] by auto
    with Inr show ?thesis by (cases ys) (auto split: sum.splits)
  qed
qed

end
