(* ===== verification/Json.thy ===== *)
theory Json
  imports Prelude
begin

text \<open>
  JSON values and their encodings, after \<^verbatim>\<open>packages/protocol/src/json.ts\<close>.

  A finite number is kept as the text \<open>JSON.stringify\<close> prints for it (\<open>Number::toString\<close>
  determines the number up to the sign of zero). An object is the list of its members in
  \<open>Object.entries\<close> order. \<open>localeCompare\<close> is implementation defined (it depends on the locale
  data of the JavaScript engine), so it is the parameter \<open>lc\<close> of \<open>canonicalJson\<close>.
\<close>

subsection \<open>Values\<close>

datatype json =
    JNull
  | JBool bool
  | JNum string
  | JStr string
  | JArr "json list"
  | JObj "(string \<times> json) list"

text \<open>What reaches the code as \<open>unknown\<close>: JSON-like data with \<open>undefined\<close> and foreign values in it.\<close>

datatype unk =
    UUndef
  | UNull
  | UBool bool
  | UNum string
  | UNonFinite
  | UStr string
  | UArr "unk list"
  | UObj "(string \<times> unk) list"
  | UOther

datatype json_error = ZodError | WireTypeError

type_synonym collation = "string \<Rightarrow> string \<Rightarrow> int"

subsection \<open>JSON text\<close>

definition hex_digit :: "nat \<Rightarrow> char" where
  "hex_digit n = ''0123456789abcdef'' ! (n mod 16)"

definition json_escape :: "char \<Rightarrow> string" where
  "json_escape c =
     (let n = of_char c :: nat in
      if n = 34 then [CHR 0x5C, CHR 0x22]
      else if n = 92 then [CHR 0x5C, CHR 0x5C]
      else if n = 8 then [CHR 0x5C, CHR ''b'']
      else if n = 9 then [CHR 0x5C, CHR ''t'']
      else if n = 10 then [CHR 0x5C, CHR ''n'']
      else if n = 12 then [CHR 0x5C, CHR ''f'']
      else if n = 13 then [CHR 0x5C, CHR ''r'']
      else if n < 32 then [CHR 0x5C, CHR ''u'', CHR ''0'', CHR ''0'', hex_digit (n div 16), hex_digit n]
      else [c])"

definition json_quote :: "string \<Rightarrow> string" where
  "json_quote s = CHR 0x22 # concat (map json_escape s) @ [CHR 0x22]"

fun join :: "string \<Rightarrow> string list \<Rightarrow> string" where
  "join sep [] = []"
| "join sep [x] = x"
| "join sep (x # xs) = x @ sep @ join sep xs"

definition json_bool :: "bool \<Rightarrow> string" where
  "json_bool b = (if b then ''true'' else ''false'')"

text \<open>\<open>JSON.stringify\<close> of a JSON value: members in their own order.\<close>

fun json_text :: "json \<Rightarrow> string" where
  "json_text JNull = ''null''"
| "json_text (JBool b) = json_bool b"
| "json_text (JNum t) = t"
| "json_text (JStr s) = json_quote s"
| "json_text (JArr vs) = ''['' @ join '','' (map json_text vs) @ '']''"
| "json_text (JObj ms) =
     ''{'' @ join '','' (map (\<lambda>m. json_quote (fst m) @ '':'' @ json_text (snd m)) ms) @ ''}''"

text \<open>\<open>canonicalJson\<close>: the same text with the members of every object sorted by \<open>localeCompare\<close>.\<close>

definition key_le :: "collation \<Rightarrow> (string \<times> 'a) \<Rightarrow> (string \<times> 'a) \<Rightarrow> bool" where
  "key_le lc a b \<longleftrightarrow> lc (fst a) (fst b) \<le> 0"

fun canonicalJson :: "collation \<Rightarrow> json \<Rightarrow> string" where
  "canonicalJson lc JNull = ''null''"
| "canonicalJson lc (JBool b) = json_bool b"
| "canonicalJson lc (JNum t) = t"
| "canonicalJson lc (JStr s) = json_quote s"
| "canonicalJson lc (JArr vs) = ''['' @ join '','' (map (canonicalJson lc) vs) @ '']''"
| "canonicalJson lc (JObj ms) =
     ''{'' @ join '','' (map (\<lambda>m. json_quote (fst m) @ '':'' @ canonicalJson lc (snd m))
                            (sort_le (key_le lc) ms)) @ ''}''"

subsection \<open>Undefined members and parsing\<close>

text \<open>
  \<open>omitUndefinedObjectMembers\<close> copies members by assignment into a fresh object; assigning
  \<open>__proto__\<close> runs the prototype setter and creates no member.
\<close>

fun omitUndefinedObjectMembers :: "unk \<Rightarrow> unk" where
  "omitUndefinedObjectMembers (UArr vs) = UArr (map omitUndefinedObjectMembers vs)"
| "omitUndefinedObjectMembers (UObj ms) =
     UObj (map (\<lambda>m. (fst m, omitUndefinedObjectMembers (snd m)))
               (filter (\<lambda>m. snd m \<noteq> UUndef \<and> fst m \<noteq> ''__proto__'') ms))"
| "omitUndefinedObjectMembers v = v"

text \<open>\<open>jsonValueSchema.parse\<close>: a union of primitives, arrays and string-keyed records.\<close>

fun toJsonValue :: "unk \<Rightarrow> json_error + json" where
  "toJsonValue UNull = Inr JNull"
| "toJsonValue (UBool b) = Inr (JBool b)"
| "toJsonValue (UNum t) = Inr (JNum t)"
| "toJsonValue (UStr s) = Inr (JStr s)"
| "toJsonValue (UArr vs) =
     (case map_err toJsonValue vs of Inl e \<Rightarrow> Inl e | Inr js \<Rightarrow> Inr (JArr js))"
| "toJsonValue (UObj ms) =
     (case map_err (\<lambda>m. case toJsonValue (snd m) of Inl e \<Rightarrow> Inl e | Inr j \<Rightarrow> Inr (fst m, j)) ms of
        Inl e \<Rightarrow> Inl e | Inr js \<Rightarrow> Inr (JObj js))"
| "toJsonValue _ = Inl ZodError"

definition canonicalProtocolRecordJson :: "collation \<Rightarrow> unk \<Rightarrow> json_error + string" where
  "canonicalProtocolRecordJson lc v =
     (case toJsonValue (omitUndefinedObjectMembers v) of
        Inl e \<Rightarrow> Inl e | Inr j \<Rightarrow> Inr (canonicalJson lc j))"

subsection \<open>The wire byte bound\<close>

definition string_bound :: "string \<Rightarrow> nat" where
  "string_bound s = max 16 (max (length s + 6) (length (json_quote s)))"

fun jsonWireByteUpperBound :: "unk \<Rightarrow> json_error + nat" where
  "jsonWireByteUpperBound UNull = Inr 16"
| "jsonWireByteUpperBound (UBool b) = Inr 16"
| "jsonWireByteUpperBound (UNum t) = Inr (max 16 (length t))"
| "jsonWireByteUpperBound (UStr s) = Inr (string_bound s)"
| "jsonWireByteUpperBound (UArr vs) =
     (case map_err jsonWireByteUpperBound vs of
        Inl e \<Rightarrow> Inl e
      | Inr ns \<Rightarrow> Inr (16 + sum_list (map (\<lambda>n. 1 + n) ns)))"
| "jsonWireByteUpperBound (UObj ms) =
     (case map_err (\<lambda>m. case jsonWireByteUpperBound (snd m) of
                          Inl e \<Rightarrow> Inl e
                        | Inr n \<Rightarrow> Inr (string_bound (fst m) + 2 + n))
             (filter (\<lambda>m. snd m \<noteq> UUndef) ms) of
        Inl e \<Rightarrow> Inl e
      | Inr ns \<Rightarrow> Inr (16 + sum_list ns))"
| "jsonWireByteUpperBound _ = Inl WireTypeError"

end
