(* ===== verification/Canonical_Json.thy ===== *)
theory Canonical_Json
  imports Json
begin

text \<open>
  What the two encodings of \<^verbatim>\<open>json.ts\<close> guarantee. JSON text is unambiguous, so
  \<open>canonicalJson\<close> decides equality up to member order; the wire bound covers the JSON text,
  the MessagePack encoding and sixteen bytes per value.
\<close>

subsection \<open>Well-formed values\<close>

definition num_chars :: string where
  "num_chars = ''0123456789+-.eE''"

definition num_ok :: "string \<Rightarrow> bool" where
  "num_ok t \<longleftrightarrow> t \<noteq> [] \<and> list_all (\<lambda>c. c \<in> set num_chars) t"

fun wf_json :: "json \<Rightarrow> bool" where
  "wf_json (JNum t) = num_ok t"
| "wf_json (JArr vs) = list_all wf_json vs"
| "wf_json (JObj ms) = (keys_ok ms \<and> list_all (\<lambda>m. wf_json (snd m)) ms)"
| "wf_json _ = True"

text \<open>Equality of JSON values up to the order of object members.\<close>

fun json_eq :: "json \<Rightarrow> json \<Rightarrow> bool" where
  "json_eq (JArr vs) (JArr ws) = list_all2 json_eq vs ws"
| "json_eq (JObj ms) (JObj ns) =
     (length ms = length ns \<and>
      list_all (\<lambda>m. case map_of ns (fst m) of None \<Rightarrow> False | Some w \<Rightarrow> json_eq (snd m) w) ms)"
| "json_eq v w = (v = w)"

text \<open>\<open>sort_members\<close> sorts every object as \<open>canonicalJson\<close> does and prints nothing.\<close>

fun sort_members :: "collation \<Rightarrow> json \<Rightarrow> json" where
  "sort_members lc (JArr vs) = JArr (map (sort_members lc) vs)"
| "sort_members lc (JObj ms) =
     JObj (map (\<lambda>m. (fst m, sort_members lc (snd m))) (sort_le (key_le lc) ms))"
| "sort_members lc v = v"

lemma join_map_snd: "map f (map g xs) = map (\<lambda>x. f (g x)) xs"
  by simp

lemma canonicalJson_text: "canonicalJson lc v = json_text (sort_members lc v)"
proof (induction lc v rule: canonicalJson.induct)
  case (5 lc vs)
  then show ?case by (simp add: comp_def cong: map_cong)
next
  case (6 lc ms)
  have "map (\<lambda>m. json_quote (fst m) @ '':'' @ canonicalJson lc (snd m)) (sort_le (key_le lc) ms) =
        map (\<lambda>m. json_quote (fst m) @ '':'' @ json_text (sort_members lc (snd m))) (sort_le (key_le lc) ms)"
    by (rule map_cong [OF refl]) (use 6 in auto)
  then show ?case
    by (simp only: canonicalJson.simps sort_members.simps json_text.simps map_map comp_def fst_conv snd_conv)
qed simp_all

subsection \<open>JSON text is unambiguous\<close>

definition stop :: "string \<Rightarrow> bool" where
  "stop r \<longleftrightarrow> r = [] \<or> hd r \<notin> set num_chars"

lemma stop_Cons [simp]: "stop (c # r) \<longleftrightarrow> c \<notin> set num_chars"
  by (simp add: stop_def)

lemma hex_digit_inj: "i < 16 \<Longrightarrow> j < 16 \<Longrightarrow> hex_digit i = hex_digit j \<Longrightarrow> i = j"
proof -
  have "distinct (map hex_digit [0..<16])" by code_simp
  then show "i < 16 \<Longrightarrow> j < 16 \<Longrightarrow> hex_digit i = hex_digit j \<Longrightarrow> i = j"
    by (auto simp: distinct_map inj_on_def)
qed

lemma hex_digit_mod: "hex_digit (n mod 16) = hex_digit n"
  by (simp add: hex_digit_def)

lemma hex_pair_inj:
  assumes "n < 32" "m < 32" "hex_digit (n div 16) = hex_digit (m div 16)" "hex_digit n = hex_digit m"
  shows "n = m"
proof -
  have "n div 16 = m div 16" by (rule hex_digit_inj) (use assms in auto)
  moreover have "n mod 16 = m mod 16"
    by (rule hex_digit_inj) (use assms in \<open>auto simp: hex_digit_mod\<close>)
  ultimately show ?thesis by (metis div_mult_mod_eq)
qed

definition escape_tail :: "nat \<Rightarrow> string" where
  "escape_tail n =
     (if n = 34 then [CHR 0x22] else if n = 92 then [CHR 0x5C]
      else if n = 8 then [CHR ''b''] else if n = 9 then [CHR ''t'']
      else if n = 10 then [CHR ''n''] else if n = 12 then [CHR ''f'']
      else if n = 13 then [CHR ''r'']
      else [CHR ''u'', CHR ''0'', CHR ''0'', hex_digit (n div 16), hex_digit n])"

definition escaped :: "nat \<Rightarrow> bool" where
  "escaped n \<longleftrightarrow> n = 34 \<or> n = 92 \<or> n < 32"

lemma json_escape_cases:
  "json_escape c =
     (if escaped (of_char c) then CHR 0x5C # escape_tail (of_char c) else [c])"
  by (simp add: json_escape_def escape_tail_def escaped_def Let_def)

lemma escape_tail_prefix:
  "escaped n \<Longrightarrow> escaped m \<Longrightarrow> escape_tail n @ r = escape_tail m @ s \<Longrightarrow> n = m \<and> r = s"
  by (simp add: escape_tail_def escaped_def split: if_splits) (auto dest: hex_pair_inj)

lemma json_escape_prefix:
  assumes eq: "json_escape c @ r = json_escape d @ s"
  shows "c = d \<and> r = s"
proof (cases "escaped (of_char c)"; cases "escaped (of_char d)")
  assume a: "escaped (of_char c)" "escaped (of_char d)"
  with eq have "escape_tail (of_char c) @ r = escape_tail (of_char d) @ s"
    by (simp add: json_escape_cases)
  with a have "(of_char c :: nat) = of_char d \<and> r = s" by (rule escape_tail_prefix)
  then show ?thesis by simp
next
  assume a: "escaped (of_char c)" "\<not> escaped (of_char d)"
  with eq have "d = CHR 0x5C" by (simp add: json_escape_cases)
  with a(2) show ?thesis by (simp add: escaped_def)
next
  assume a: "\<not> escaped (of_char c)" "escaped (of_char d)"
  with eq have "c = CHR 0x5C" by (simp add: json_escape_cases)
  with a(1) show ?thesis by (simp add: escaped_def)
qed (use eq in \<open>simp_all add: json_escape_cases\<close>)

lemma json_escape_no_quote: "json_escape c @ r \<noteq> CHR 0x22 # s"
proof
  assume "json_escape c @ r = CHR 0x22 # s"
  then have "c = CHR 0x22" "\<not> escaped (of_char c)"
    by (simp_all add: json_escape_cases split: if_splits)
  then show False by (simp add: escaped_def)
qed

lemma json_escapes_inj:
  "concat (map json_escape s) @ CHR 0x22 # r = concat (map json_escape t) @ CHR 0x22 # u
   \<Longrightarrow> s = t \<and> r = u"
proof (induction s arbitrary: t)
  case Nil
  then show ?case
    using json_escape_no_quote by (cases t) (simp_all, metis)
next
  case (Cons c s)
  show ?case
  proof (cases t)
    case Nil
    with Cons.prems show ?thesis
      using json_escape_no_quote [of c "concat (map json_escape s) @ CHR 0x22 # r" u] by simp
  next
    case (Cons d t')
    with Cons.prems have "json_escape c @ (concat (map json_escape s) @ CHR 0x22 # r) =
        json_escape d @ (concat (map json_escape t') @ CHR 0x22 # u)"
      by simp
    then have "c = d" "concat (map json_escape s) @ CHR 0x22 # r = concat (map json_escape t') @ CHR 0x22 # u"
      using json_escape_prefix by blast+
    with Cons.IH Cons show ?thesis by simp
  qed
qed

lemma json_quote_inj: "json_quote s @ r = json_quote t @ u \<longleftrightarrow> s = t \<and> r = u"
  unfolding json_quote_def using json_escapes_inj [of s r t u] by auto

lemma num_prefix:
  assumes "num_ok s" "num_ok t" "s @ r = t @ u" "stop r" "stop u"
  shows "s = t \<and> r = u"
proof -
  have tw: "takeWhile (\<lambda>c. c \<in> set num_chars) (x @ y) = x" if "num_ok x" "stop y" for x y
    using that by (cases y) (auto simp: num_ok_def stop_def list_all_iff takeWhile_append)
  from assms tw have "s = t" by metis
  with assms show ?thesis by simp
qed

definition unambiguous :: "('a \<Rightarrow> bool) \<Rightarrow> ('a \<Rightarrow> string) \<Rightarrow> 'a \<Rightarrow> bool" where
  "unambiguous ok p x \<longleftrightarrow>
     (\<forall>y r s. ok y \<longrightarrow> stop r \<longrightarrow> stop s \<longrightarrow> p x @ r = p y @ s \<longrightarrow> x = y \<and> r = s)"

lemma unambiguousD:
  "unambiguous ok p x \<Longrightarrow> ok y \<Longrightarrow> stop r \<Longrightarrow> stop s \<Longrightarrow> p x @ r = p y @ s \<Longrightarrow> x = y \<and> r = s"
  unfolding unambiguous_def by blast

definition tail_join :: "('a \<Rightarrow> string) \<Rightarrow> 'a list \<Rightarrow> string" where
  "tail_join p xs = concat (map (\<lambda>x. '','' @ p x) xs)"

lemma join_tail: "join '','' (map p (x # xs)) = p x @ tail_join p xs"
proof (induction xs arbitrary: x)
  case Nil
  then show ?case by (simp add: tail_join_def)
next
  case (Cons y ys)
  then show ?case by (simp add: tail_join_def)
qed

lemma stop_tail_join:
  assumes "c \<notin> set num_chars"
  shows "stop (tail_join p xs @ c # r)"
  using assms by (cases xs) (auto simp: tail_join_def num_chars_def)

lemma tail_join_inj:
  assumes "\<forall>x \<in> set xs. unambiguous ok p x" "\<forall>y \<in> set ys. ok y"
    and c: "c \<noteq> CHR '',''" "c \<notin> set num_chars"
    and eq: "tail_join p xs @ c # r = tail_join p ys @ c # s"
  shows "xs = ys \<and> r = s"
  using assms(1,2) eq
proof (induction xs arbitrary: ys)
  case Nil
  with c show ?case by (cases ys) (auto simp: tail_join_def)
next
  case (Cons x xs)
  show ?case
  proof (cases ys)
    case Nil
    with Cons.prems c show ?thesis by (auto simp: tail_join_def)
  next
    case (Cons y ys')
    with Cons.prems(3) have "p x @ (tail_join p xs @ c # r) = p y @ (tail_join p ys' @ c # s)"
      by (simp add: tail_join_def)
    then have "x = y \<and> tail_join p xs @ c # r = tail_join p ys' @ c # s"
      by (intro unambiguousD [of ok p x y]) (use Cons.prems Cons c stop_tail_join in auto)
    with Cons.IH Cons.prems Cons show ?thesis by auto
  qed
qed

lemma join_inj:
  assumes amb: "\<forall>x \<in> set xs. unambiguous ok p x" "\<forall>y \<in> set ys. ok y"
    and c: "c \<noteq> CHR '',''" "c \<notin> set num_chars"
    and start: "\<And>z q. z \<in> set xs \<union> set ys \<Longrightarrow> p z @ q \<noteq> [] \<and> hd (p z @ q) \<noteq> c"
    and eq: "join '','' (map p xs) @ c # r = join '','' (map p ys) @ c # s"
  shows "xs = ys \<and> r = s"
proof (cases xs; cases ys)
  assume "xs = []" "ys = []"
  with eq show ?thesis by simp
next
  fix y ys' assume a: "xs = []" "ys = y # ys'"
  with eq have "c # r = p y @ (tail_join p ys' @ c # s)"
    unfolding a by (simp only: join_tail) simp
  then have "hd (p y @ (tail_join p ys' @ c # s)) = c"
    by (metis list.sel(1))
  with start [of y "tail_join p ys' @ c # s"] a show ?thesis by simp
next
  fix x xs' assume a: "xs = x # xs'" "ys = []"
  with eq have "p x @ (tail_join p xs' @ c # r) = c # s"
    unfolding a by (simp only: join_tail) simp
  then have "hd (p x @ (tail_join p xs' @ c # r)) = c"
    by (metis list.sel(1))
  with start [of x "tail_join p xs' @ c # r"] a show ?thesis by simp
next
  fix x xs' y ys' assume a: "xs = x # xs'" "ys = y # ys'"
  with eq have "p x @ (tail_join p xs' @ c # r) = p y @ (tail_join p ys' @ c # s)"
    unfolding a by (simp only: join_tail) simp
  then have 1: "x = y \<and> tail_join p xs' @ c # r = tail_join p ys' @ c # s"
    by (intro unambiguousD [of ok p x y]) (use amb a c stop_tail_join in auto)
  then have "xs' = ys' \<and> r = s"
    by (intro tail_join_inj [of xs' ok p ys' c]) (use amb a c in auto)
  with 1 a show ?thesis by simp
qed

abbreviation member_text :: "string \<times> json \<Rightarrow> string" where
  "member_text m \<equiv> json_quote (fst m) @ '':'' @ json_text (snd m)"

definition head_class :: "char \<Rightarrow> nat" where
  "head_class c =
     (if c = CHR ''n'' then 0 else if c = CHR ''t'' \<or> c = CHR ''f'' then 1
      else if c = CHR 0x22 then 3 else if c = CHR ''['' then 4 else if c = CHR ''{'' then 5
      else if c \<in> set num_chars then 2 else 6)"

fun json_tag :: "json \<Rightarrow> nat" where
  "json_tag JNull = 0"
| "json_tag (JBool b) = 1"
| "json_tag (JNum t) = 2"
| "json_tag (JStr s) = 3"
| "json_tag (JArr vs) = 4"
| "json_tag (JObj ms) = 5"

lemma num_head:
  assumes "num_ok t"
  obtains c t' where "t = c # t'" "c \<in> set num_chars"
  using assms by (cases t) (auto simp: num_ok_def)

lemma head_class_num: "c \<in> set num_chars \<Longrightarrow> head_class c = 2"
  by (auto simp: num_chars_def head_class_def)

lemma json_text_head:
  assumes "wf_json v"
  shows "json_text v @ q \<noteq> [] \<and> head_class (hd (json_text v @ q)) = json_tag v"
proof (cases v)
  case (JNum t)
  with assms have "num_ok t" by simp
  then show ?thesis using JNum by (elim num_head) (simp add: head_class_num)
qed (simp_all add: json_bool_def json_quote_def head_class_def)

lemma json_text_same_tag:
  assumes "wf_json v" "wf_json w" "json_text v @ r = json_text w @ s"
  shows "json_tag v = json_tag w"
  using json_text_head [OF assms(1), of r] json_text_head [OF assms(2), of s] assms(3) by simp

lemma json_tag_cases:
  "json_tag v = json_tag w \<Longrightarrow>
     (v = JNull \<and> w = JNull) \<or> (\<exists>a b. v = JBool a \<and> w = JBool b) \<or> (\<exists>a b. v = JNum a \<and> w = JNum b)
     \<or> (\<exists>a b. v = JStr a \<and> w = JStr b) \<or> (\<exists>a b. v = JArr a \<and> w = JArr b)
     \<or> (\<exists>a b. v = JObj a \<and> w = JObj b)"
  by (cases v; cases w) simp_all

lemma json_text_start:
  assumes "wf_json v"
  shows "json_text v @ q \<noteq> [] \<and> hd (json_text v @ q) \<noteq> CHR '']''"
  using json_text_head [OF assms, of q] by (cases v) (auto simp: head_class_def num_chars_def)

lemma json_bool_prefix: "json_bool a @ r = json_bool b @ s \<Longrightarrow> a = b \<and> r = s"
  by (cases a; cases b) (simp_all add: json_bool_def)

lemma unambiguous_array:
  assumes "\<forall>v \<in> set vs. wf_json v \<and> unambiguous wf_json json_text v" "\<forall>w \<in> set ws. wf_json w"
    and "json_text (JArr vs) @ r = json_text (JArr ws) @ s"
  shows "vs = ws \<and> r = s"
proof (rule join_inj [of vs wf_json json_text ws "CHR '']''"])
  show "join '','' (map json_text vs) @ CHR '']'' # r = join '','' (map json_text ws) @ CHR '']'' # s"
    using assms(3) by simp
  show "p \<in> set vs \<union> set ws \<Longrightarrow> json_text p @ q \<noteq> [] \<and> hd (json_text p @ q) \<noteq> CHR '']''" for p q
    using assms(1,2) json_text_start by blast
qed (use assms(1,2) in \<open>simp_all add: num_chars_def\<close>)

lemma unambiguous_member:
  assumes "unambiguous wf_json json_text (snd m)"
  shows "unambiguous (\<lambda>m. wf_json (snd m)) member_text m"
  unfolding unambiguous_def
proof (intro allI impI)
  fix n r s
  assume n: "wf_json (snd n)" "stop r" "stop s" "member_text m @ r = member_text n @ s"
  then have "json_quote (fst m) @ (CHR '':'' # json_text (snd m) @ r) =
      json_quote (fst n) @ (CHR '':'' # json_text (snd n) @ s)"
    by simp
  then have "fst m = fst n" "json_text (snd m) @ r = json_text (snd n) @ s"
    unfolding json_quote_inj by simp_all
  with unambiguousD [OF assms n(1-3)] show "m = n \<and> r = s"
    by (simp add: prod_eq_iff)
qed

lemma unambiguous_object:
  assumes "\<forall>m \<in> set ms. unambiguous wf_json json_text (snd m)" "\<forall>n \<in> set ns. wf_json (snd n)"
    and "json_text (JObj ms) @ r = json_text (JObj ns) @ s"
  shows "ms = ns \<and> r = s"
proof (rule join_inj [of ms "\<lambda>m. wf_json (snd m)" member_text ns "CHR ''}''"])
  show "join '','' (map member_text ms) @ CHR ''}'' # r = join '','' (map member_text ns) @ CHR ''}'' # s"
    using assms(3) by simp
  show "member_text p @ q \<noteq> [] \<and> hd (member_text p @ q) \<noteq> CHR ''}''" for p q
    by (simp add: json_quote_def)
qed (use assms(1,2) unambiguous_member in \<open>simp_all add: num_chars_def\<close>)

lemma json_text_unambiguous: "wf_json v \<Longrightarrow> unambiguous wf_json json_text v"
proof (induction v)
  case (JNum t)
  show ?case
    unfolding unambiguous_def
  proof (intro allI impI)
    fix y r s
    assume y: "wf_json y" "stop r" "stop s" "json_text (JNum t) @ r = json_text y @ s"
    from json_text_same_tag [OF JNum y(1) y(4)] obtain u where "y = JNum u"
      by (cases y) simp_all
    with y JNum num_prefix [of t u r s] show "JNum t = y \<and> r = s" by simp
  qed
next
  case (JArr vs)
  show ?case
    unfolding unambiguous_def
  proof (intro allI impI)
    fix y r s
    assume y: "wf_json y" "stop r" "stop s" "json_text (JArr vs) @ r = json_text y @ s"
    from json_text_same_tag [OF JArr.prems y(1) y(4)] obtain ws where ws: "y = JArr ws"
      by (cases y) simp_all
    from JArr y(1) ws have "\<forall>v \<in> set vs. wf_json v \<and> unambiguous wf_json json_text v" "\<forall>w \<in> set ws. wf_json w"
      by (auto simp: list_all_iff)
    from unambiguous_array [OF this, of r s] y(4) ws show "JArr vs = y \<and> r = s" by simp
  qed
next
  case (JObj ms)
  show ?case
    unfolding unambiguous_def
  proof (intro allI impI)
    fix y r s
    assume y: "wf_json y" "stop r" "stop s" "json_text (JObj ms) @ r = json_text y @ s"
    from json_text_same_tag [OF JObj.prems y(1) y(4)] obtain ns where ns: "y = JObj ns"
      by (cases y) simp_all
    from JObj y(1) ns have "\<forall>m \<in> set ms. unambiguous wf_json json_text (snd m)" "\<forall>n \<in> set ns. wf_json (snd n)"
      by (auto simp: list_all_iff snds.simps)
    from unambiguous_object [OF this, of r s] y(4) ns show "JObj ms = y \<and> r = s" by simp
  qed
next
  case JNull
  have "JNull = y \<and> r = s" if "wf_json y" "json_text JNull @ r = json_text y @ s" for y r s
  proof -
    from json_text_same_tag [OF JNull that] have "y = JNull" by (cases y) simp_all
    with that show ?thesis by simp
  qed
  then show ?case unfolding unambiguous_def by blast
next
  case (JBool b)
  have "JBool b = y \<and> r = s" if "wf_json y" "json_text (JBool b) @ r = json_text y @ s" for y r s
  proof -
    from json_text_same_tag [OF JBool that] obtain a where "y = JBool a" by (cases y) simp_all
    with that json_bool_prefix [of b r a s] show ?thesis by simp
  qed
  then show ?case unfolding unambiguous_def by blast
next
  case (JStr t)
  have "JStr t = y \<and> r = s" if "wf_json y" "json_text (JStr t) @ r = json_text y @ s" for y r s
  proof -
    from json_text_same_tag [OF JStr that] obtain u where "y = JStr u" by (cases y) simp_all
    with that json_quote_inj [of t r u s] show ?thesis by simp
  qed
  then show ?case unfolding unambiguous_def by blast
qed

lemma json_text_inj: "wf_json v \<Longrightarrow> wf_json w \<Longrightarrow> json_text v = json_text w \<longleftrightarrow> v = w"
  using json_text_unambiguous [of v] unambiguousD [of wf_json json_text v w "[]" "[]"]
  by (auto simp: stop_def)


subsection \<open>Canonical text decides equality up to member order\<close>

definition total_collation :: "collation \<Rightarrow> bool" where
  "total_collation lc \<longleftrightarrow>
     (\<forall>a b. lc a b \<le> 0 \<or> lc b a \<le> 0) \<and>
     (\<forall>a b c. lc a b \<le> 0 \<longrightarrow> lc b c \<le> 0 \<longrightarrow> lc a c \<le> 0) \<and>
     (\<forall>a b. lc a b \<le> 0 \<longrightarrow> lc b a \<le> 0 \<longrightarrow> a = b)"

lemma sort_key_le:
  assumes "total_collation lc"
  shows "sorted_wrt (key_le lc) (sort_le (key_le lc) ms)"
  by (rule sorted_sort_le) (use assms in \<open>auto simp: total_collation_def key_le_def\<close>)

lemma keys_ok_sort [simp]: "keys_ok (sort_le (key_le lc) ms) = keys_ok ms"
proof -
  have "map fst (sort_le (key_le lc) ms) = sort_le (\<lambda>a b. lc a b \<le> 0) (map fst ms)"
    by (rule map_sort_le) (simp add: key_le_def)
  then show ?thesis by (simp add: keys_ok_def)
qed

lemma wf_sort_members: "wf_json v \<Longrightarrow> wf_json (sort_members lc v)"
proof (induction v)
  case (JObj ms)
  then have "wf_json (sort_members lc (snd m))" if "m \<in> set ms" for m
    using that by (auto simp: list_all_iff snds.simps)
  moreover have "keys_ok (map (\<lambda>m. (fst m, sort_members lc (snd m))) (sort_le (key_le lc) ms))"
    using JObj.prems keys_ok_sort [of lc ms] by (simp add: keys_ok_def comp_def)
  ultimately show ?case by (simp add: list_all_iff)
qed (auto simp: list_all_iff)

lemma canonicalJson_inj:
  assumes "wf_json v" "wf_json w"
  shows "canonicalJson lc v = canonicalJson lc w \<longleftrightarrow> sort_members lc v = sort_members lc w"
  unfolding canonicalJson_text by (rule json_text_inj) (simp_all add: wf_sort_members assms)

lemma sorted_members_unique:
  assumes lc: "total_collation lc" and ok: "keys_ok ms" "keys_ok ns" and eq: "set ms = set ns"
  shows "sort_le (key_le lc) ms = sort_le (key_le lc) ns"
proof (rule sorted_wrt_unique [of "key_le lc"])
  show "sorted_wrt (key_le lc) (sort_le (key_le lc) ms)" "sorted_wrt (key_le lc) (sort_le (key_le lc) ns)"
    using sort_key_le [OF lc] by blast+
  show "distinct (sort_le (key_le lc) ms)" "distinct (sort_le (key_le lc) ns)"
    using ok by (simp_all add: keys_ok_distinct)
next
  fix a b assume ab: "a \<in> set (sort_le (key_le lc) ms)" "b \<in> set (sort_le (key_le lc) ms)"
    "key_le lc a b" "key_le lc b a"
  then have "fst a = fst b" using lc by (auto simp: total_collation_def key_le_def)
  moreover have "map_of ms (fst a) = Some (snd a)" "map_of ms (fst b) = Some (snd b)"
    using ab ok by (simp_all add: keys_ok_def)
  ultimately show "a = b" by (simp add: prod_eq_iff)
qed (simp add: eq)

abbreviation sorted_member :: "collation \<Rightarrow> string \<times> json \<Rightarrow> string \<times> json" where
  "sorted_member lc m \<equiv> (fst m, sort_members lc (snd m))"

lemma sort_members_obj:
  "sort_members lc (JObj ms) = JObj (sort_le (key_le lc) (map (sorted_member lc) ms))"
  by (simp add: map_sort_le [where f = "sorted_member lc" and le' = "key_le lc"] key_le_def)

lemma sort_members_obj_eq:
  assumes "total_collation lc" "keys_ok ms" "keys_ok ns"
  shows "sort_members lc (JObj ms) = sort_members lc (JObj ns) \<longleftrightarrow>
         sorted_member lc ` set ms = sorted_member lc ` set ns"
proof
  have ok: "keys_ok (map (sorted_member lc) ms)" "keys_ok (map (sorted_member lc) ns)"
    using assms by (simp_all add: keys_ok_def comp_def)
  show "sort_members lc (JObj ms) = sort_members lc (JObj ns)"
    if "sorted_member lc ` set ms = sorted_member lc ` set ns"
    unfolding sort_members_obj using sorted_members_unique [OF assms(1) ok] that by simp
  show "sorted_member lc ` set ms = sorted_member lc ` set ns"
    if "sort_members lc (JObj ms) = sort_members lc (JObj ns)"
    using arg_cong [OF that [unfolded sort_members_obj], of "\<lambda>v. case v of JObj xs \<Rightarrow> set xs | _ \<Rightarrow> {}"]
    by simp
qed

lemma same_keys:
  assumes "keys_ok ms" "keys_ok ns" "length ms = length ns" "fst ` set ms \<subseteq> fst ` set ns"
  shows "fst ` set ms = fst ` set ns"
proof (rule card_subset_eq)
  show "card (fst ` set ms) = card (fst ` set ns)"
    using assms(1-3) by (metis distinct_card keys_ok_def length_map list.set_map)
qed (use assms(4) in auto)

lemma sort_members_leaf [simp]:
  "sort_members lc w = JNull \<longleftrightarrow> w = JNull" "JNull = sort_members lc w \<longleftrightarrow> w = JNull"
  "sort_members lc w = JBool b \<longleftrightarrow> w = JBool b" "JBool b = sort_members lc w \<longleftrightarrow> w = JBool b"
  "sort_members lc w = JNum t \<longleftrightarrow> w = JNum t" "JNum t = sort_members lc w \<longleftrightarrow> w = JNum t"
  "sort_members lc w = JStr t \<longleftrightarrow> w = JStr t" "JStr t = sort_members lc w \<longleftrightarrow> w = JStr t"
  by (cases w; auto)+

lemma sort_members_json_eq:
  assumes lc: "total_collation lc"
  shows "wf_json v \<Longrightarrow> wf_json w \<Longrightarrow> sort_members lc v = sort_members lc w \<longleftrightarrow> json_eq v w"
proof (induction v w rule: json_eq.induct)
  case (1 vs ws)
  then have "\<And>x y. x \<in> set vs \<Longrightarrow> y \<in> set ws \<Longrightarrow> sort_members lc x = sort_members lc y \<longleftrightarrow> json_eq x y"
    by (simp add: list_all_iff)
  then have "map (sort_members lc) vs = map (sort_members lc) ws \<longleftrightarrow> list_all2 json_eq vs ws"
    unfolding list_eq_iff_nth_eq list_all2_conv_all_nth by auto
  then show ?case by simp
next
  case (2 ms ns)
  have ok: "keys_ok ms" "keys_ok ns" using "2.prems" by simp_all
  have IH: "sort_members lc (snd m) = sort_members lc w \<longleftrightarrow> json_eq (snd m) w"
    if "m \<in> set ms" "map_of ns (fst m) = Some w" for m w
  proof -
    have "wf_json (snd m)" "wf_json w"
      using that "2.prems" map_of_SomeD [OF that(2)] by (auto simp: list_all_iff)
    with "2.IH" that show ?thesis by blast
  qed
  have lookup: "map_of ns k = Some w \<longleftrightarrow> (k, w) \<in> set ns" for k w
    using ok(2) by (simp add: keys_ok_def)
  show ?case
    unfolding sort_members_obj_eq [OF lc ok]
  proof
    assume eq: "sorted_member lc ` set ms = sorted_member lc ` set ns"
    have inj: "card (sorted_member lc ` set xs) = length xs" if "keys_ok xs" for xs
    proof -
      have "distinct (map (sorted_member lc) xs)"
        using that keys_ok_distinct [of "map (sorted_member lc) xs"] by (simp add: keys_ok_def comp_def)
      then show ?thesis by (metis distinct_card length_map list.set_map)
    qed
    have "case map_of ns (fst m) of None \<Rightarrow> False | Some w \<Rightarrow> json_eq (snd m) w" if m: "m \<in> set ms" for m
    proof -
      from m eq have "sorted_member lc m \<in> sorted_member lc ` set ns" by blast
      then obtain n where n: "n \<in> set ns" "fst m = fst n" "sort_members lc (snd m) = sort_members lc (snd n)"
        by auto
      then have "map_of ns (fst m) = Some (snd n)" by (simp add: lookup)
      with IH m n show ?thesis by simp
    qed
    moreover have "length ms = length ns"
      using inj [OF ok(1)] inj [OF ok(2)] eq by simp
    ultimately show "json_eq (JObj ms) (JObj ns)" by (simp add: list_all_iff)
  next
    assume "json_eq (JObj ms) (JObj ns)"
    then have len: "length ms = length ns"
      and each: "\<forall>m \<in> set ms. case map_of ns (fst m) of None \<Rightarrow> False | Some w \<Rightarrow> json_eq (snd m) w"
      by (auto simp: list_all_iff)
    have fwd: "\<exists>w. map_of ns (fst m) = Some w \<and> sort_members lc (snd m) = sort_members lc w"
      if "m \<in> set ms" for m
      using each that IH by (fastforce split: option.splits)
    then have "fst ` set ms \<subseteq> fst ` set ns"
      by (metis image_subset_iff lookup fst_conv image_eqI)
    with ok len have keys: "fst ` set ms = fst ` set ns" by (intro same_keys)
    show "sorted_member lc ` set ms = sorted_member lc ` set ns"
    proof (intro set_eqI iffI)
      fix p assume "p \<in> sorted_member lc ` set ms"
      then obtain m where m: "m \<in> set ms" "p = sorted_member lc m" by blast
      from fwd [OF m(1)] obtain w where "(fst m, w) \<in> set ns" "sort_members lc (snd m) = sort_members lc w"
        by (auto simp: lookup)
      with m(2) show "p \<in> sorted_member lc ` set ns" by (intro image_eqI [of _ _ "(fst m, w)"]) simp_all
    next
      fix p assume "p \<in> sorted_member lc ` set ns"
      then obtain n where n: "n \<in> set ns" "p = sorted_member lc n" by blast
      with keys obtain m where m: "m \<in> set ms" "fst m = fst n" by (metis (no_types, lifting) image_iff)
      have "map_of ns (fst n) = Some (snd n)" using n by (simp add: lookup)
      with fwd [OF m(1)] m(2) have "sort_members lc (snd m) = sort_members lc (snd n)" by simp
      with n(2) m show "p \<in> sorted_member lc ` set ms" by (intro image_eqI [of _ _ m]) simp_all
    qed
  qed
qed auto

subsection \<open>The wire bound against the encodings it bounds\<close>

text \<open>What \<open>JSON.stringify\<close> keeps of plain data; \<open>None\<close> for data the bound must reject.\<close>

fun plain_json :: "unk \<Rightarrow> json option" where
  "plain_json UNull = Some JNull"
| "plain_json (UBool b) = Some (JBool b)"
| "plain_json (UNum t) = Some (JNum t)"
| "plain_json (UStr s) = Some (JStr s)"
| "plain_json (UArr vs) = map_option JArr (those (map plain_json vs))"
| "plain_json (UObj ms) =
     map_option JObj (those (map (\<lambda>m. map_option (Pair (fst m)) (plain_json (snd m)))
                                (filter (\<lambda>m. snd m \<noteq> UUndef) ms)))"
| "plain_json _ = None"

fun bound_of :: "json \<Rightarrow> nat" where
  "bound_of (JNum t) = max 16 (length t)"
| "bound_of (JStr s) = string_bound s"
| "bound_of (JArr vs) = 16 + sum_list (map (\<lambda>v. 1 + bound_of v) vs)"
| "bound_of (JObj ms) = 16 + sum_list (map (\<lambda>m. string_bound (fst m) + 2 + bound_of (snd m)) ms)"
| "bound_of _ = 16"

text \<open>The MessagePack sizes: one to five bytes of header, nine for a float64.\<close>

definition msgpack_str :: "string \<Rightarrow> nat" where
  "msgpack_str s =
     (let n = length s in (if n < 32 then 1 else if n < 256 then 2 else if n < 65536 then 3 else 5) + n)"

definition msgpack_header :: "nat \<Rightarrow> nat" where
  "msgpack_header n = (if n < 16 then 1 else if n < 65536 then 3 else 5)"

fun msgpack_size :: "json \<Rightarrow> nat" where
  "msgpack_size (JNum t) = 9"
| "msgpack_size (JStr s) = msgpack_str s"
| "msgpack_size (JArr vs) = msgpack_header (length vs) + sum_list (map msgpack_size vs)"
| "msgpack_size (JObj ms) =
     msgpack_header (length ms) + sum_list (map (\<lambda>m. msgpack_str (fst m) + msgpack_size (snd m)) ms)"
| "msgpack_size _ = 1"

text \<open>Every value and every member key counts.\<close>

fun json_values :: "json \<Rightarrow> nat" where
  "json_values (JArr vs) = 1 + sum_list (map json_values vs)"
| "json_values (JObj ms) = 1 + sum_list (map (\<lambda>m. 1 + json_values (snd m)) ms)"
| "json_values _ = 1"

lemma map_err_those:
  assumes "\<And>x. x \<in> set xs \<Longrightarrow> f x = (case g x of None \<Rightarrow> Inl e | Some y \<Rightarrow> Inr (h y))"
  shows "map_err f xs = (case those (map g xs) of None \<Rightarrow> Inl e | Some ys \<Rightarrow> Inr (map h ys))"
  using assms by (induction xs) (auto split: option.split)

lemma jsonWireByteUpperBound_plain:
  "jsonWireByteUpperBound v =
     (case plain_json v of None \<Rightarrow> Inl WireTypeError | Some j \<Rightarrow> Inr (bound_of j))"
proof (induction v rule: plain_json.induct)
  case (5 vs)
  have "map_err jsonWireByteUpperBound vs =
      (case those (map plain_json vs) of None \<Rightarrow> Inl WireTypeError | Some js \<Rightarrow> Inr (map bound_of js))"
    by (rule map_err_those) (rule 5)
  then show ?case by (simp add: comp_def split: option.split)
next
  case (6 ms)
  have "map_err (\<lambda>m. case jsonWireByteUpperBound (snd m) of Inl e \<Rightarrow> Inl e
                 | Inr n \<Rightarrow> Inr (string_bound (fst m) + 2 + n)) (filter (\<lambda>m. snd m \<noteq> UUndef) ms) =
      (case those (map (\<lambda>m. map_option (Pair (fst m)) (plain_json (snd m))) (filter (\<lambda>m. snd m \<noteq> UUndef) ms)) of
         None \<Rightarrow> Inl WireTypeError
       | Some js \<Rightarrow> Inr (map (\<lambda>m. string_bound (fst m) + 2 + bound_of (snd m)) js))"
    by (rule map_err_those) (use 6 in \<open>auto split: option.split\<close>)
  then show ?case by (simp add: comp_def split: option.split)
qed simp_all

lemma length_join: "length (join '','' xs) \<le> sum_list (map (\<lambda>x. 1 + length x) xs)"
  by (induction "'',''" xs rule: join.induct) auto

lemma sum_list_le: "(\<And>x. x \<in> set xs \<Longrightarrow> f x \<le> (g x :: nat)) \<Longrightarrow> sum_list (map f xs) \<le> sum_list (map g xs)"
  by (rule sum_list_mono) simp

lemma text_le_bound: "length (json_text v) \<le> bound_of v"
proof (induction v)
  case (JArr vs)
  have "length (join '','' (map json_text vs)) \<le> sum_list (map (\<lambda>v. 1 + bound_of v) vs)"
    using length_join [of "map json_text vs"] sum_list_le [of vs "\<lambda>v. 1 + length (json_text v)" "\<lambda>v. 1 + bound_of v"] JArr
    by (simp add: comp_def)
  then show ?case by simp
next
  case (JObj ms)
  have "sum_list (map (\<lambda>m. 1 + length (member_text m)) ms) \<le>
      sum_list (map (\<lambda>m. string_bound (fst m) + 2 + bound_of (snd m)) ms)"
    by (rule sum_list_le) (use JObj in \<open>force simp: string_bound_def snds.simps\<close>)
  with length_join [of "map member_text ms"] show ?case by (simp add: comp_def)
qed (simp_all add: json_bool_def string_bound_def)

lemma msgpack_str_le: "msgpack_str s \<le> string_bound s"
  by (simp add: msgpack_str_def string_bound_def Let_def le_max_iff_disj)

lemma msgpack_le_bound: "msgpack_size v \<le> bound_of v"
proof (induction v)
  case (JArr vs)
  have "sum_list (map msgpack_size vs) \<le> sum_list (map (\<lambda>v. 1 + bound_of v) vs)"
    by (rule sum_list_le) (use JArr in \<open>auto intro: le_SucI\<close>)
  then show ?case by (simp add: msgpack_header_def)
next
  case (JObj ms)
  have "sum_list (map (\<lambda>m. msgpack_str (fst m) + msgpack_size (snd m)) ms) \<le>
      sum_list (map (\<lambda>m. string_bound (fst m) + 2 + bound_of (snd m)) ms)"
  proof (rule sum_list_le)
    fix m assume "m \<in> set ms"
    then have "msgpack_size (snd m) \<le> bound_of (snd m)" by (rule JObj.IH) (rule snds.intros)
    with msgpack_str_le [of "fst m"]
    show "msgpack_str (fst m) + msgpack_size (snd m) \<le> string_bound (fst m) + 2 + bound_of (snd m)" by linarith
  qed
  then show ?case by (simp add: msgpack_header_def)
qed (simp_all add: msgpack_str_le)

lemma values_le_bound: "16 * json_values v \<le> bound_of v"
proof (induction v)
  case (JArr vs)
  have "sum_list (map (\<lambda>v. 16 * json_values v) vs) \<le> sum_list (map (\<lambda>v. 1 + bound_of v) vs)"
    by (rule sum_list_le) (use JArr in \<open>auto intro: le_SucI\<close>)
  then show ?case by (simp add: sum_list_const_mult)
next
  case (JObj ms)
  have "sum_list (map (\<lambda>m. 16 * (1 + json_values (snd m))) ms) \<le>
      sum_list (map (\<lambda>m. string_bound (fst m) + 2 + bound_of (snd m)) ms)"
    by (rule sum_list_le) (use JObj in \<open>force simp: string_bound_def snds.simps\<close>)
  then show ?case
    using sum_list_const_mult [of 16 "\<lambda>m. 1 + json_values (snd m)" ms] by simp
qed (simp_all add: string_bound_def)


subsection \<open>Code-unit order, one total collation\<close>

definition units_compare :: collation where
  "units_compare a b = (if a < b then -1 else if b < a then 1 else 0)"

lemma units_compare_le: "units_compare a b \<le> 0 \<longleftrightarrow> a \<le> b"
  by (auto simp: units_compare_def)

lemma total_units_compare: "total_collation units_compare"
  unfolding total_collation_def units_compare_le by auto

lemma json_eq_refl: "wf_json v \<Longrightarrow> json_eq v v"
  using sort_members_json_eq [OF total_units_compare, of v v] by simp

subsection \<open>Records with undefined members\<close>

fun no_proto :: "unk \<Rightarrow> bool" where
  "no_proto (UArr vs) = list_all no_proto vs"
| "no_proto (UObj ms) = list_all (\<lambda>m. fst m \<noteq> ''__proto__'' \<and> no_proto (snd m)) ms"
| "no_proto _ = True"

lemma omit_not_undef: "v \<noteq> UUndef \<Longrightarrow> omitUndefinedObjectMembers v \<noteq> UUndef"
  by (cases v) simp_all

lemma map_err_map: "map_err f (map g xs) = map_err (\<lambda>x. f (g x)) xs"
  by (induction xs) (auto split: sum.split)

lemma toJsonValue_omit:
  "no_proto v \<Longrightarrow> toJsonValue (omitUndefinedObjectMembers v) =
     (case plain_json v of None \<Rightarrow> Inl ZodError | Some j \<Rightarrow> Inr j)"
proof (induction v rule: plain_json.induct)
  case (5 vs)
  have "map_err toJsonValue (map omitUndefinedObjectMembers vs) =
      (case those (map plain_json vs) of None \<Rightarrow> Inl ZodError | Some js \<Rightarrow> Inr (map (\<lambda>j. j) js))"
    unfolding map_err_map by (rule map_err_those) (use 5 in \<open>auto simp: list_all_iff\<close>)
  then show ?case by (simp split: option.split)
next
  case (6 ms)
  have same: "filter (\<lambda>m. snd m \<noteq> UUndef \<and> fst m \<noteq> ''__proto__'') ms = filter (\<lambda>m. snd m \<noteq> UUndef) ms"
    by (rule filter_cong) (use 6 in \<open>auto simp: list_all_iff\<close>)
  have "map_err (\<lambda>m. case toJsonValue (omitUndefinedObjectMembers (snd m)) of
                 Inl e \<Rightarrow> Inl e | Inr j \<Rightarrow> Inr (fst m, j)) (filter (\<lambda>m. snd m \<noteq> UUndef) ms) =
      (case those (map (\<lambda>m. map_option (Pair (fst m)) (plain_json (snd m))) (filter (\<lambda>m. snd m \<noteq> UUndef) ms)) of
         None \<Rightarrow> Inl ZodError | Some js \<Rightarrow> Inr (map (\<lambda>j. j) js))"
    by (rule map_err_those) (use 6 in \<open>auto simp: list_all_iff split: option.split\<close>)
  then show ?case
    by (simp only: omitUndefinedObjectMembers.simps toJsonValue.simps plain_json.simps same map_err_map
        fst_conv snd_conv map_ident) (simp split: option.split)
qed simp_all

subsection \<open>Properties\<close>



text \<open>A collation that does not separate two keys makes \<open>canonicalJson\<close> depend on insertion
  order: when \<open>localeCompare\<close> returns 0 for two different keys (as ICU collation does for
  keys that differ in an ignorable control character), the same object built in two orders has
  two canonical texts.\<close>

theorem canonicalJson_order_sensitive:
  assumes "lc a b = 0" "lc b a = 0" "a \<noteq> b" "wf_json x" "wf_json y"
  shows "json_eq (JObj [(a, x), (b, y)]) (JObj [(b, y), (a, x)]) \<and>
         canonicalJson lc (JObj [(a, x), (b, y)]) \<noteq> canonicalJson lc (JObj [(b, y), (a, x)])"
proof
  show "json_eq (JObj [(a, x), (b, y)]) (JObj [(b, y), (a, x)])"
    using assms by (auto simp: json_eq_refl)
  have wf: "wf_json (JObj [(a, x), (b, y)])" "wf_json (JObj [(b, y), (a, x)])"
    using assms by (simp_all add: keys_ok_def)
  show "canonicalJson lc (JObj [(a, x), (b, y)]) \<noteq> canonicalJson lc (JObj [(b, y), (a, x)])"
    unfolding canonicalJson_inj [OF wf] using assms by (simp add: sort_le_def key_le_def)
qed

theorem canonicalJson_order_sensitive_witness:
  "canonicalJson (\<lambda>a b. 0) (JObj [(''a.x'', JNum ''1''), (''a.y'', JNum ''2'')]) \<noteq>
   canonicalJson (\<lambda>a b. 0) (JObj [(''a.y'', JNum ''2''), (''a.x'', JNum ''1'')])"
  using canonicalJson_order_sensitive
    [of "\<lambda>a b. 0" "''a.x''" "''a.y''" "JNum ''1''" "JNum ''2''"]
  by (simp add: num_ok_def num_chars_def)

text \<open>C31: the wire bound. \<open>jsonWireByteUpperBound\<close> raises its TypeError exactly on data that is not
  plain JSON, and otherwise returns a number at least as large as the JSON text, as the
  MessagePack encoding, and as sixteen bytes for every value and member key.\<close>

theorem wire_bound_covers_encodings:
  "case jsonWireByteUpperBound v of
     Inl e \<Rightarrow> e = WireTypeError \<and> plain_json v = None
   | Inr n \<Rightarrow> (\<exists>j. plain_json v = Some j \<and> length (json_text j) \<le> n \<and> msgpack_size j \<le> n \<and>
                  16 * json_values j \<le> n)"
  unfolding jsonWireByteUpperBound_plain
  using text_le_bound msgpack_le_bound values_le_bound by (cases "plain_json v") auto

text \<open>Records that differ only in \<open>undefined\<close> members compare equal: on data without a
  \<open>__proto__\<close> member, \<open>canonicalProtocolRecordJson\<close> is the canonical text of what
  \<open>JSON.stringify\<close> keeps, and it is refused exactly when an \<open>undefined\<close> array element or another
  value that is not JSON occurs.\<close>

theorem canonicalProtocolRecordJson_omits_undefined:
  assumes "no_proto v"
  shows "canonicalProtocolRecordJson lc v =
         (case plain_json v of None \<Rightarrow> Inl ZodError | Some j \<Rightarrow> Inr (canonicalJson lc j))"
  unfolding canonicalProtocolRecordJson_def toJsonValue_omit [OF assms] by (simp split: option.split)

theorem canonicalProtocolRecordJson_omits_undefined_witness:
  "canonicalProtocolRecordJson units_compare (UObj [(''a'', UNull), (''b'', UUndef)]) = Inr ''{\"a\":null}'' \<and>
   canonicalProtocolRecordJson units_compare (UArr [UUndef]) = Inl ZodError"
  using canonicalProtocolRecordJson_omits_undefined [of "UObj [(''a'', UNull), (''b'', UUndef)]" units_compare]
    canonicalProtocolRecordJson_omits_undefined [of "UArr [UUndef]" units_compare]
  by (simp add: sort_le_def json_quote_def json_escape_def)

text \<open>A \<open>__proto__\<close> member is invisible to record comparison: the member copy assigns through
  the prototype setter, so two records that differ only in it have the same canonical text.\<close>

theorem canonicalProtocolRecordJson_ignores_proto:
  "canonicalProtocolRecordJson lc (UObj ((''__proto__'', v) # ms)) =
   canonicalProtocolRecordJson lc (UObj ms)"
  by (simp add: canonicalProtocolRecordJson_def)

end
