(* ===== verification/Metadata.thy ===== *)
theory Metadata
  imports Canonical_Json
begin

text \<open>
  Session metadata: the data of \<^verbatim>\<open>packages/protocol/src/metadata.ts\<close> with its refinements, the
  optimistic overlay, and the compare-and-set rule by which the authority applies a patch
  (\<^verbatim>\<open>applyMetadataPatch\<close> of \<^verbatim>\<open>packages/control-node-core/src/catalog.ts\<close>).

  Identifiers and time stamps are texts. A schema's shape (which members exist, and their
  primitive types) is the HOL type; its \<open>superRefine\<close> rules are the \<open>valid_\<dots>\<close> predicates.
\<close>

subsection \<open>Records\<close>

record authority_ref =
  au_realmId :: string
  au_controlNodeId :: string
  au_epochId :: string

type_synonym metadata_values = "(string, json) table"

record metadata_snapshot =
  ms_revision :: nat
  ms_values :: metadata_values
  ms_keyRevisions :: "(string, nat) table"

record metadata_patch =
  mp_operationId :: string
  mp_sessionId :: string
  mp_expectedAuthority :: authority_ref
  mp_set :: "metadata_values option"
  mp_remove :: "string list option"
  mp_ifKeyRevision :: "(string, nat option) table option"

record metadata_conflict =
  mc_key :: string
  mc_expectedRevision :: "nat option"
  mc_actualRevision :: "nat option"
  mc_actualValue :: "json option"

datatype metadata_status = MQueued | MAccepted | MConflicted | MOutcomeUnknown

record metadata_operation =
  mo_operationId :: string
  mo_sessionId :: string
  mo_patch :: metadata_patch
  mo_status :: metadata_status
  mo_canonical :: metadata_snapshot
  mo_optimistic :: "metadata_snapshot option"
  mo_conflicts :: "metadata_conflict list option"
  mo_originControlNodeId :: string
  mo_authority :: authority_ref
  mo_createdAt :: string
  mo_updatedAt :: string

definition emptyMetadataSnapshot :: metadata_snapshot where
  "emptyMetadataSnapshot = \<lparr>ms_revision = 0, ms_values = [], ms_keyRevisions = []\<rparr>"

definition sameAuthority :: "authority_ref \<Rightarrow> authority_ref \<Rightarrow> bool" where
  "sameAuthority l r \<longleftrightarrow>
     au_realmId l = au_realmId r \<and> au_controlNodeId l = au_controlNodeId r \<and> au_epochId l = au_epochId r"

lemma sameAuthority_eq [simp]: "sameAuthority l r \<longleftrightarrow> l = (r :: authority_ref)"
  by (cases l; cases r) (simp add: sameAuthority_def)

subsection \<open>Metadata keys\<close>

definition ch_between :: "char \<Rightarrow> char \<Rightarrow> char \<Rightarrow> bool" where
  "ch_between lo hi c \<longleftrightarrow> lo \<le> c \<and> c \<le> hi"

definition is_lower :: "char \<Rightarrow> bool" where "is_lower c = ch_between CHR ''a'' CHR ''z'' c"
definition is_upper :: "char \<Rightarrow> bool" where "is_upper c = ch_between CHR ''A'' CHR ''Z'' c"
definition is_digit :: "char \<Rightarrow> bool" where "is_digit c = ch_between CHR ''0'' CHR ''9'' c"
definition is_alnum :: "char \<Rightarrow> bool" where "is_alnum c = (is_lower c \<or> is_upper c \<or> is_digit c)"

text \<open>
  \<open>/^[a-z][a-z0-9_-]*(?:\.[A-Za-z0-9][A-Za-z0-9._-]*)+$/\<close>: the class of the last repetition
  contains the dot, so one group takes everything that several would.
\<close>

definition key_head :: "char \<Rightarrow> bool" where
  "key_head c \<longleftrightarrow> is_lower c \<or> is_digit c \<or> c = CHR ''_'' \<or> c = CHR ''-''"

definition key_rest :: "char \<Rightarrow> bool" where
  "key_rest c \<longleftrightarrow> is_alnum c \<or> c = CHR ''.'' \<or> c = CHR ''_'' \<or> c = CHR ''-''"

definition metadataKeyPattern :: "string \<Rightarrow> bool" where
  "metadataKeyPattern s =
     (case s of [] \<Rightarrow> False
      | c # cs \<Rightarrow> is_lower c \<and>
          (case dropWhile key_head cs of
             d # e # rest \<Rightarrow> d = CHR ''.'' \<and> is_alnum e \<and> list_all key_rest rest
           | _ \<Rightarrow> False))"

definition metadataKeySchema :: "string \<Rightarrow> bool" where
  "metadataKeySchema s \<longleftrightarrow> 3 \<le> length s \<and> length s \<le> 256 \<and> metadataKeyPattern s"

subsection \<open>Refinements\<close>

text \<open>\<open>Number.MAX_SAFE_INTEGER\<close>, the bound of \<open>z.number().int()\<close>.\<close>

definition max_safe_integer :: nat where
  "max_safe_integer = 9007199254740991"

definition metadataSnapshotSchema :: "metadata_snapshot \<Rightarrow> bool" where
  "metadataSnapshotSchema s \<longleftrightarrow>
     ms_revision s \<le> max_safe_integer \<and>
     list_all (\<lambda>kv. metadataKeySchema (fst kv)) (ms_values s) \<and>
     list_all (\<lambda>kv. metadataKeySchema (fst kv) \<and> snd kv \<le> max_safe_integer) (ms_keyRevisions s)"

definition patch_set :: "metadata_patch \<Rightarrow> metadata_values" where
  "patch_set p = (case mp_set p of None \<Rightarrow> [] | Some t \<Rightarrow> t)"

definition patch_remove :: "metadata_patch \<Rightarrow> string list" where
  "patch_remove p = (case mp_remove p of None \<Rightarrow> [] | Some ks \<Rightarrow> ks)"

definition patch_expected :: "metadata_patch \<Rightarrow> (string, nat option) table" where
  "patch_expected p = (case mp_ifKeyRevision p of None \<Rightarrow> [] | Some t \<Rightarrow> t)"

lemmas patch_defs = patch_set_def patch_remove_def patch_expected_def

definition metadataPatchSchema :: "metadata_patch \<Rightarrow> bool" where
  "metadataPatchSchema p \<longleftrightarrow>
     list_all (\<lambda>kv. metadataKeySchema (fst kv)) (patch_set p) \<and>
     list_all metadataKeySchema (patch_remove p) \<and> length (patch_remove p) \<le> 1024 \<and>
     list_all (\<lambda>kv. metadataKeySchema (fst kv) \<and>
        (case snd kv of None \<Rightarrow> True | Some n \<Rightarrow> n \<le> max_safe_integer)) (patch_expected p) \<and>
     \<not> (patch_set p = [] \<and> patch_remove p = []) \<and>
     distinct (patch_remove p) \<and>
     \<not> list_ex (\<lambda>k. has k (patch_set p)) (patch_remove p)"

definition metadataOperationRecordSchema :: "metadata_operation \<Rightarrow> bool" where
  "metadataOperationRecordSchema mo \<longleftrightarrow>
     metadataPatchSchema (mo_patch mo) \<and> metadataSnapshotSchema (mo_canonical mo) \<and>
     (case mo_optimistic mo of None \<Rightarrow> True | Some s \<Rightarrow> metadataSnapshotSchema s) \<and>
     (case mo_conflicts mo of None \<Rightarrow> True | Some cs \<Rightarrow> cs \<noteq> []) \<and>
     mp_operationId (mo_patch mo) = mo_operationId mo \<and>
     mp_sessionId (mo_patch mo) = mo_sessionId mo \<and>
     sameAuthority (mp_expectedAuthority (mo_patch mo)) (mo_authority mo) \<and>
     (mo_status mo = MConflicted \<longleftrightarrow> mo_conflicts mo \<noteq> None)"

subsection \<open>Overlay and application\<close>

text \<open>\<open>optimisticMetadata\<close>: what a branch shows while its proposal is queued.\<close>

definition optimisticMetadata :: "metadata_snapshot \<Rightarrow> metadata_patch \<Rightarrow> metadata_snapshot" where
  "optimisticMetadata s p =
     s\<lparr>ms_values := del_all (patch_remove p) (spread (ms_values s) (patch_set p))\<rparr>"

text \<open>\<open>overlayMetadata\<close>: the canonical snapshot with every pending patch drawn over it.\<close>

definition overlayMetadata :: "metadata_snapshot \<Rightarrow> metadata_patch list \<Rightarrow> metadata_snapshot" where
  "overlayMetadata canonical pending =
     canonical\<lparr>ms_values :=
       fold (\<lambda>p values. del_all (patch_remove p) (spread values (patch_set p)))
            pending (ms_values canonical)\<rparr>"

datatype metadata_patch_result =
    PatchAccepted metadata_snapshot
  | PatchConflicted metadata_snapshot "metadata_conflict list"

definition patch_conflicts :: "metadata_snapshot \<Rightarrow> metadata_patch \<Rightarrow> metadata_conflict list" where
  "patch_conflicts s p =
     map (\<lambda>(k, expected). \<lparr>mc_key = k, mc_expectedRevision = expected,
            mc_actualRevision = map_of (ms_keyRevisions s) k, mc_actualValue = map_of (ms_values s) k\<rparr>)
         (filter (\<lambda>(k, expected). map_of (ms_keyRevisions s) k \<noteq> expected) (patch_expected p))"

definition applyMetadataPatch :: "metadata_snapshot \<Rightarrow> metadata_patch \<Rightarrow> metadata_patch_result" where
  "applyMetadataPatch s p =
     (let conflicts = patch_conflicts s p in
      if conflicts \<noteq> [] then PatchConflicted s conflicts
      else
        let revision = ms_revision s + 1;
            values = spread (ms_values s) (patch_set p);
            keyRevisions = put_all (map fst (patch_set p)) revision (ms_keyRevisions s)
        in PatchAccepted
             \<lparr>ms_revision = revision,
              ms_values = del_all (patch_remove p) values,
              ms_keyRevisions = put_all (patch_remove p) revision keyRevisions\<rparr>)"

subsection \<open>The well-formed snapshot\<close>

text \<open>
  Every value has a key revision, no key revision is ahead of the snapshot, and keys do not
  repeat. A key revision without a value is the tombstone of a removed key.
\<close>

definition wf_snapshot :: "metadata_snapshot \<Rightarrow> bool" where
  "wf_snapshot s \<longleftrightarrow>
     keys_ok (ms_values s) \<and> keys_ok (ms_keyRevisions s) \<and>
     (\<forall>k. has k (ms_values s) \<longrightarrow> has k (ms_keyRevisions s)) \<and>
     (\<forall>k r. map_of (ms_keyRevisions s) k = Some r \<longrightarrow> r \<le> ms_revision s)"

lemma wf_empty: "wf_snapshot emptyMetadataSnapshot"
  by (simp add: wf_snapshot_def emptyMetadataSnapshot_def)

lemma patch_conflicts_Nil:
  "patch_conflicts s p = [] \<longleftrightarrow>
     (\<forall>(k, expected) \<in> set (patch_expected p). map_of (ms_keyRevisions s) k = expected)"
  by (auto simp: patch_conflicts_def filter_empty_conv)

lemma patch_set_keys_ok:
  assumes "keys_ok (patch_set p)"
  shows "map_of (spread t (patch_set p)) k =
    (case map_of (patch_set p) k of Some v \<Rightarrow> Some v | None \<Rightarrow> map_of t k)"
  by (rule map_of_spread_distinct [OF assms])

lemma optimistic_values:
  assumes "keys_ok (patch_set p)"
  shows "map_of (ms_values (optimisticMetadata s p)) k =
     (if k \<in> set (patch_remove p) then None
      else case map_of (patch_set p) k of Some v \<Rightarrow> Some v | None \<Rightarrow> map_of (ms_values s) k)"
  by (simp add: optimisticMetadata_def map_of_del_all patch_set_keys_ok [OF assms])

lemma accepted_snapshot:
  assumes "applyMetadataPatch s p = PatchAccepted t"
  shows "ms_revision t = Suc (ms_revision s)"
    and "ms_values t = ms_values (optimisticMetadata s p)"
    and "map_of (ms_keyRevisions t) k =
      (if k \<in> set (patch_remove p) \<union> fst ` set (patch_set p) then Some (Suc (ms_revision s))
       else map_of (ms_keyRevisions s) k)"
    and "patch_conflicts s p = []"
proof -
  have t: "t = \<lparr>ms_revision = Suc (ms_revision s),
      ms_values = del_all (patch_remove p) (spread (ms_values s) (patch_set p)),
      ms_keyRevisions = put_all (patch_remove p) (Suc (ms_revision s))
        (put_all (map fst (patch_set p)) (Suc (ms_revision s)) (ms_keyRevisions s))\<rparr>"
    and none: "patch_conflicts s p = []"
    using assms by (simp_all add: applyMetadataPatch_def Let_def split: if_splits)
  show "ms_revision t = Suc (ms_revision s)" "ms_values t = ms_values (optimisticMetadata s p)"
    by (simp_all add: t optimisticMetadata_def)
  show "map_of (ms_keyRevisions t) k =
      (if k \<in> set (patch_remove p) \<union> fst ` set (patch_set p) then Some (Suc (ms_revision s))
       else map_of (ms_keyRevisions s) k)"
    by (simp add: t map_of_put_all)
  show "patch_conflicts s p = []" by (rule none)
qed

lemma conflicted_snapshot:
  assumes "applyMetadataPatch s p = PatchConflicted t cs"
  shows "t = s" "cs = patch_conflicts s p" "cs \<noteq> []"
  using assms by (auto simp: applyMetadataPatch_def Let_def split: if_splits)

lemma has_spread: "has k (spread base extra) \<longleftrightarrow> has k base \<or> k \<in> fst ` set extra"
  unfolding spread_def by (induction extra arbitrary: base) (auto simp: image_iff)

lemma has_del_all: "has k (del_all ks t) \<longleftrightarrow> k \<notin> set ks \<and> has k t"
  by (simp add: has_def map_of_del_all)

lemma wf_applyMetadataPatch:
  assumes "wf_snapshot s" "applyMetadataPatch s p = PatchAccepted t"
  shows "wf_snapshot t"
proof -
  note acc = accepted_snapshot [OF assms(2)]
  have "keys_ok (ms_values t)"
    using assms(1) by (simp add: acc(2) optimisticMetadata_def wf_snapshot_def)
  moreover have "keys_ok (ms_keyRevisions t)"
    using assms by (auto simp: applyMetadataPatch_def Let_def wf_snapshot_def split: if_splits)
  moreover have "has k (ms_keyRevisions t)" if "has k (ms_values t)" for k
  proof -
    from that have "has k (ms_values s) \<or> k \<in> fst ` set (patch_set p)"
      by (auto simp: acc(2) optimisticMetadata_def has_del_all has_spread)
    with assms(1) show ?thesis
      by (auto simp: has_def acc(3) wf_snapshot_def)
  qed
  moreover have "r \<le> ms_revision t" if "map_of (ms_keyRevisions t) k = Some r" for k r
    using that assms(1) by (auto simp: acc(1,3) wf_snapshot_def split: if_splits intro: le_SucI)
  ultimately show ?thesis by (simp add: wf_snapshot_def)
qed

lemma overlay_Nil [simp]: "overlayMetadata s [] = s"
  by (simp add: overlayMetadata_def)

lemma overlay_Cons: "overlayMetadata s (p # ps) = overlayMetadata (optimisticMetadata s p) ps"
  by (simp add: overlayMetadata_def optimisticMetadata_def)

lemma overlay_append: "overlayMetadata s (ps @ qs) = overlayMetadata (overlayMetadata s ps) qs"
  by (simp add: overlayMetadata_def)

lemma overlay_values_cong:
  "ms_values s = ms_values t \<Longrightarrow> ms_values (overlayMetadata s ps) = ms_values (overlayMetadata t ps)"
  by (simp add: overlayMetadata_def)

text \<open>Applying a list of patches at the authority, refusing at the first conflict.\<close>

fun apply_patches :: "metadata_snapshot \<Rightarrow> metadata_patch list \<Rightarrow> metadata_snapshot option" where
  "apply_patches s [] = Some s"
| "apply_patches s (p # ps) =
     (case applyMetadataPatch s p of PatchAccepted t \<Rightarrow> apply_patches t ps | PatchConflicted t cs \<Rightarrow> None)"

lemma apply_patches_overlay:
  "apply_patches s ps = Some t \<Longrightarrow>
   ms_values t = ms_values (overlayMetadata s ps) \<and> ms_revision t = ms_revision s + length ps"
proof (induction ps arbitrary: s)
  case Nil
  then show ?case by simp
next
  case (Cons p ps)
  then obtain u where u: "applyMetadataPatch s p = PatchAccepted u" "apply_patches u ps = Some t"
    by (auto split: metadata_patch_result.splits)
  with Cons.IH have "ms_values t = ms_values (overlayMetadata u ps)"
      "ms_revision t = ms_revision u + length ps"
    by blast+
  then show ?case
    using overlay_values_cong [OF accepted_snapshot(2) [OF u(1)], of ps] accepted_snapshot(1) [OF u(1)]
    by (simp add: overlay_Cons)
qed

lemma apply_patches_wf: "apply_patches s ps = Some t \<Longrightarrow> wf_snapshot s \<Longrightarrow> wf_snapshot t"
  by (induction ps arbitrary: s)
    (auto split: metadata_patch_result.splits intro: wf_applyMetadataPatch)


lemma conflict_of_patch:
  "set (map mc_key (patch_conflicts s p)) =
     {k. \<exists>e. (k, e) \<in> set (patch_expected p) \<and> map_of (ms_keyRevisions s) k \<noteq> e}"
  by (force simp: patch_conflicts_def)

lemma conflict_reports_truth:
  assumes "c \<in> set (patch_conflicts s p)"
  shows "mc_actualRevision c = map_of (ms_keyRevisions s) (mc_key c)"
    and "mc_actualValue c = map_of (ms_values s) (mc_key c)"
    and "mc_expectedRevision c \<noteq> mc_actualRevision c"
  using assms by (auto simp: patch_conflicts_def)

subsection \<open>Properties\<close>

text \<open>C27: what applying a patch at the authority does on both branches. It is accepted exactly when
  every \<open>ifKeyRevision\<close> entry names the current revision of its key; then the snapshot moves to
  the next revision, set keys hold their new values, removed keys hold none, every touched key is
  stamped with the new revision and all other keys are untouched. Otherwise the snapshot is
  unchanged and the conflicts name exactly the stale keys with their actual revision and value.\<close>

theorem applyMetadataPatch_spec:
  assumes "keys_ok (patch_set p)"
  shows "case applyMetadataPatch s p of
     PatchAccepted t \<Rightarrow>
       (\<forall>(k, e) \<in> set (patch_expected p). map_of (ms_keyRevisions s) k = e) \<and>
       ms_revision t = ms_revision s + 1 \<and>
       (\<forall>k. map_of (ms_values t) k =
          (if k \<in> set (patch_remove p) then None
           else case map_of (patch_set p) k of Some v \<Rightarrow> Some v | None \<Rightarrow> map_of (ms_values s) k)) \<and>
       (\<forall>k. map_of (ms_keyRevisions t) k =
          (if k \<in> set (patch_remove p) \<union> fst ` set (patch_set p) then Some (ms_revision s + 1)
           else map_of (ms_keyRevisions s) k))
   | PatchConflicted t cs \<Rightarrow>
       t = s \<and> cs \<noteq> [] \<and>
       set (map mc_key cs) =
         {k. \<exists>e. (k, e) \<in> set (patch_expected p) \<and> map_of (ms_keyRevisions s) k \<noteq> e} \<and>
       (\<forall>c \<in> set cs. mc_actualRevision c = map_of (ms_keyRevisions s) (mc_key c) \<and>
          mc_actualValue c = map_of (ms_values s) (mc_key c))"
proof (cases "applyMetadataPatch s p")
  case (PatchAccepted t)
  note acc = accepted_snapshot [OF PatchAccepted]
  show ?thesis
    using acc(4) by (simp add: PatchAccepted acc(1-3) optimistic_values [OF assms] patch_conflicts_Nil)
next
  case (PatchConflicted t cs)
  note con = conflicted_snapshot [OF PatchConflicted]
  show ?thesis
    unfolding PatchConflicted metadata_patch_result.case con(1,2)
    using con(2,3) conflict_of_patch conflict_reports_truth by blast
qed

definition demo_authority :: authority_ref where
  "demo_authority = \<lparr>au_realmId = ''r1'', au_controlNodeId = ''c1'', au_epochId = ''e1''\<rparr>"

definition demo_patch :: "nat option \<Rightarrow> metadata_patch" where
  "demo_patch expected =
     \<lparr>mp_operationId = ''op'', mp_sessionId = ''s1'', mp_expectedAuthority = demo_authority,
      mp_set = Some [(''agent.title'', JStr ''x'')], mp_remove = None,
      mp_ifKeyRevision = Some [(''agent.title'', expected)]\<rparr>"

theorem applyMetadataPatch_spec_witness:
  "keys_ok (patch_set (demo_patch None)) \<and>
   applyMetadataPatch emptyMetadataSnapshot (demo_patch None) =
     PatchAccepted \<lparr>ms_revision = 1, ms_values = [(''agent.title'', JStr ''x'')],
       ms_keyRevisions = [(''agent.title'', 1)]\<rparr> \<and>
   (case applyMetadataPatch emptyMetadataSnapshot (demo_patch None) of
      PatchAccepted t \<Rightarrow> ms_revision t = 1 | PatchConflicted t cs \<Rightarrow> False)"
proof -
  have ok: "keys_ok (patch_set (demo_patch None))"
    by (simp add: demo_patch_def patch_defs keys_ok_def)
  have run: "applyMetadataPatch emptyMetadataSnapshot (demo_patch None) =
     PatchAccepted \<lparr>ms_revision = 1, ms_values = [(''agent.title'', JStr ''x'')],
       ms_keyRevisions = [(''agent.title'', 1)]\<rparr>"
    by (simp add: demo_patch_def patch_defs applyMetadataPatch_def patch_conflicts_def
        emptyMetadataSnapshot_def spread_def del_all_def put_all_def)
  show ?thesis
    using ok run applyMetadataPatch_spec [OF ok, of emptyMetadataSnapshot]
    by (simp add: emptyMetadataSnapshot_def)
qed

text \<open>C32: the shape of a snapshot survives every accepted patch: keys stay unique, every value keeps
  a key revision, and no key revision runs ahead of the snapshot.\<close>

theorem applyMetadataPatch_keeps_wf:
  assumes "wf_snapshot s" "applyMetadataPatch s p = PatchAccepted t"
  shows "wf_snapshot t"
  by (rule wf_applyMetadataPatch [OF assms])

theorem applyMetadataPatch_keeps_wf_witness:
  "wf_snapshot \<lparr>ms_revision = 1, ms_values = [(''agent.title'', JStr ''x'')],
       ms_keyRevisions = [(''agent.title'', 1)]\<rparr>"
proof (rule applyMetadataPatch_keeps_wf [OF wf_empty, of "demo_patch None"])
  show "applyMetadataPatch emptyMetadataSnapshot (demo_patch None) =
     PatchAccepted \<lparr>ms_revision = 1, ms_values = [(''agent.title'', JStr ''x'')],
       ms_keyRevisions = [(''agent.title'', 1)]\<rparr>"
    by (simp add: demo_patch_def patch_defs applyMetadataPatch_def patch_conflicts_def
        emptyMetadataSnapshot_def spread_def del_all_def put_all_def)
qed

text \<open>C28: no lost update. Once a patch that touches a key has been accepted, a concurrent patch that
  was written against the key's earlier revision is refused with a conflict.\<close>

theorem compare_and_set_no_lost_update:
  assumes "wf_snapshot s" "applyMetadataPatch s p = PatchAccepted t"
    and "k \<in> set (patch_remove p) \<union> fst ` set (patch_set p)"
    and "(k, map_of (ms_keyRevisions s) k) \<in> set (patch_expected q)"
  shows "\<exists>cs. applyMetadataPatch t q = PatchConflicted t cs \<and> k \<in> set (map mc_key cs)"
proof -
  have new: "map_of (ms_keyRevisions t) k = Some (Suc (ms_revision s))"
    using accepted_snapshot(3) [OF assms(2), of k] assms(3) by simp
  have "map_of (ms_keyRevisions s) k \<noteq> Some (Suc (ms_revision s))"
    using assms(1) unfolding wf_snapshot_def by (metis Suc_n_not_le_n)
  with assms(4) new have stale: "k \<in> set (map mc_key (patch_conflicts t q))"
    unfolding conflict_of_patch by (metis (mono_tags, lifting) mem_Collect_eq)
  then have "applyMetadataPatch t q = PatchConflicted t (patch_conflicts t q)"
    by (auto simp: applyMetadataPatch_def Let_def)
  with stale show ?thesis by blast
qed

theorem compare_and_set_no_lost_update_witness:
  "\<exists>cs. applyMetadataPatch \<lparr>ms_revision = 1, ms_values = [(''agent.title'', JStr ''x'')],
       ms_keyRevisions = [(''agent.title'', 1)]\<rparr> (demo_patch None) =
     PatchConflicted \<lparr>ms_revision = 1, ms_values = [(''agent.title'', JStr ''x'')],
       ms_keyRevisions = [(''agent.title'', 1)]\<rparr> cs \<and> ''agent.title'' \<in> set (map mc_key cs)"
  by (rule compare_and_set_no_lost_update [OF wf_empty, of "demo_patch None"])
    (simp_all add: demo_patch_def patch_defs applyMetadataPatch_def patch_conflicts_def
        emptyMetadataSnapshot_def spread_def del_all_def put_all_def)

text \<open>C29: the optimistic overlay predicts the authority. If the authority accepts a queue of patches
  one after the other, the values it ends with are those the overlay showed for that queue, and
  its revision has advanced once per patch.\<close>

theorem overlay_predicts_authority:
  assumes "apply_patches s ps = Some t"
  shows "ms_values t = ms_values (overlayMetadata s ps) \<and> ms_revision t = ms_revision s + length ps"
  by (rule apply_patches_overlay [OF assms])

theorem overlay_predicts_authority_witness:
  "ms_values (overlayMetadata emptyMetadataSnapshot [demo_patch None, demo_patch (Some 1)]) =
     [(''agent.title'', JStr ''x'')]"
proof -
  have "apply_patches emptyMetadataSnapshot [demo_patch None, demo_patch (Some 1)] =
     Some \<lparr>ms_revision = 2, ms_values = [(''agent.title'', JStr ''x'')],
       ms_keyRevisions = [(''agent.title'', 2)]\<rparr>"
    by (simp add: demo_patch_def patch_defs applyMetadataPatch_def patch_conflicts_def
        emptyMetadataSnapshot_def spread_def del_all_def put_all_def)
  from overlay_predicts_authority [OF this] show ?thesis by simp
qed

end
