(* ===== verification/Record_Json.thy ===== *)
theory Record_Json
  imports Metadata
begin

text \<open>
  Comparison of protocol records. The code compares two records by their canonical JSON text
  (\<open>sameCanonicalJson\<close>, \<open>sameMetadataPatch\<close> of \<^verbatim>\<open>control-node-core/src/catalog.ts\<close>); here a record is
  turned into the JSON object it is at run time, absent optional members left out.
\<close>

subsection \<open>Numbers and members\<close>

fun nat_text :: "nat \<Rightarrow> string" where
  "nat_text n = (if n < 10 then [hex_digit n] else nat_text (n div 10) @ [hex_digit (n mod 10)])"

declare nat_text.simps [simp del]

definition JNat :: "nat \<Rightarrow> json" where
  "JNat n = JNum (nat_text n)"

definition JNullable :: "('a \<Rightarrow> json) \<Rightarrow> 'a option \<Rightarrow> json" where
  "JNullable f o' = (case o' of None \<Rightarrow> JNull | Some x \<Rightarrow> f x)"

definition optional :: "string \<Rightarrow> ('a \<Rightarrow> json) \<Rightarrow> 'a option \<Rightarrow> (string \<times> json) list" where
  "optional k f o' = (case o' of None \<Rightarrow> [] | Some x \<Rightarrow> [(k, f x)])"

definition json_table :: "('a \<Rightarrow> json) \<Rightarrow> (string, 'a) table \<Rightarrow> json" where
  "json_table f t = JObj (map (\<lambda>kv. (fst kv, f (snd kv))) t)"

lemma hex_digit_num: "n < 10 \<Longrightarrow> hex_digit n \<in> set num_chars"
proof -
  have "\<forall>n \<in> set [0..<10]. hex_digit n \<in> set num_chars" by code_simp
  then show "n < 10 \<Longrightarrow> ?thesis" by simp
qed

lemma nat_text_ok: "num_ok (nat_text n)"
proof (induction n rule: nat_text.induct)
  case (1 n)
  then show ?case
    by (subst nat_text.simps) (simp add: num_ok_def hex_digit_num)
qed

lemma nat_text_inj: "nat_text m = nat_text n \<Longrightarrow> m = n"
proof (induction m arbitrary: n rule: nat_text.induct)
  case (1 m)
  have nonempty: "nat_text k \<noteq> []" for k using nat_text_ok [of k] by (simp add: num_ok_def)
  show ?case
  proof (cases "m < 10"; cases "n < 10")
    assume "m < 10" "n < 10"
    with "1.prems" hex_digit_inj [of m n] show ?thesis
      by (simp add: nat_text.simps [of m] nat_text.simps [of n])
  next
    assume "m < 10" "\<not> n < 10"
    with "1.prems" nonempty [of "n div 10"] show ?thesis
      by (simp add: nat_text.simps [of m] nat_text.simps [of n])
  next
    assume "\<not> m < 10" "n < 10"
    with "1.prems" nonempty [of "m div 10"] show ?thesis
      by (simp add: nat_text.simps [of m] nat_text.simps [of n])
  next
    assume "\<not> m < 10" "\<not> n < 10"
    with "1.prems" have "nat_text (m div 10) = nat_text (n div 10)" "hex_digit (m mod 10) = hex_digit (n mod 10)"
      by (simp_all add: nat_text.simps [of m] nat_text.simps [of n])
    with "1.IH" \<open>\<not> m < 10\<close> have "m div 10 = n div 10" "m mod 10 = n mod 10"
      using hex_digit_inj [of "m mod 10" "n mod 10"] by simp_all
    then show ?thesis by (metis div_mult_mod_eq)
  qed
qed

lemma nat_text_eq [simp]: "nat_text m = nat_text n \<longleftrightarrow> m = n"
  using nat_text_inj by blast

lemma wf_JNat [simp]: "wf_json (JNat n)"
  by (simp add: JNat_def nat_text_ok)

lemma wf_JNullable: "(\<And>x. o' = Some x \<Longrightarrow> wf_json (f x)) \<Longrightarrow> wf_json (JNullable f o')"
  by (auto simp: JNullable_def split: option.split)

subsection \<open>Comparison\<close>

fun unk_of :: "json \<Rightarrow> unk" where
  "unk_of JNull = UNull"
| "unk_of (JBool b) = UBool b"
| "unk_of (JNum t) = UNum t"
| "unk_of (JStr s) = UStr s"
| "unk_of (JArr vs) = UArr (map unk_of vs)"
| "unk_of (JObj ms) = UObj (map (\<lambda>m. (fst m, unk_of (snd m))) ms)"

definition sameCanonicalJson :: "collation \<Rightarrow> json \<Rightarrow> json \<Rightarrow> bool" where
  "sameCanonicalJson lc l r \<longleftrightarrow>
     canonicalProtocolRecordJson lc (unk_of l) = canonicalProtocolRecordJson lc (unk_of r)"

lemma sameCanonicalJson_refl [simp, intro]: "sameCanonicalJson lc j j"
  by (simp add: sameCanonicalJson_def)

lemma sameCanonicalJson_sym: "sameCanonicalJson lc l r \<longleftrightarrow> sameCanonicalJson lc r l"
  by (auto simp: sameCanonicalJson_def)

lemma sameCanonicalJson_trans:
  "sameCanonicalJson lc a b \<Longrightarrow> sameCanonicalJson lc b c \<Longrightarrow> sameCanonicalJson lc a c"
  by (simp add: sameCanonicalJson_def)

text \<open>The members a comparison sees: all but \<open>__proto__\<close>.\<close>

fun strip_proto :: "json \<Rightarrow> json" where
  "strip_proto (JArr vs) = JArr (map strip_proto vs)"
| "strip_proto (JObj ms) =
     JObj (map (\<lambda>m. (fst m, strip_proto (snd m))) (filter (\<lambda>m. fst m \<noteq> ''__proto__'') ms))"
| "strip_proto v = v"

lemma unk_of_defined [simp]: "unk_of v \<noteq> UUndef"
  by (cases v) simp_all

lemma map_err_ok:
  assumes "\<And>x. x \<in> set xs \<Longrightarrow> f x = Inr (g x)"
  shows "map_err f xs = Inr (map g xs)"
  using assms by (induction xs) auto

lemma toJsonValue_unk: "toJsonValue (omitUndefinedObjectMembers (unk_of j)) = Inr (strip_proto j)"
proof (induction j rule: strip_proto.induct)
  case (1 vs)
  have "map_err (\<lambda>v. toJsonValue (omitUndefinedObjectMembers (unk_of v))) vs = Inr (map strip_proto vs)"
    by (rule map_err_ok) (rule 1)
  then show ?case by (simp add: map_err_map comp_def)
next
  case (2 ms)
  have f: "filter ((\<lambda>m. snd m \<noteq> UUndef \<and> fst m \<noteq> ''__proto__'') \<circ> (\<lambda>m. (fst m, unk_of (snd m)))) ms
      = filter (\<lambda>m. fst m \<noteq> ''__proto__'') ms"
    by (rule filter_cong) simp_all
  have "map_err (\<lambda>m. case toJsonValue (omitUndefinedObjectMembers (unk_of (snd m))) of
            Inl e \<Rightarrow> Inl e | Inr j \<Rightarrow> Inr (fst m, j)) (filter (\<lambda>m. fst m \<noteq> ''__proto__'') ms)
      = Inr (map (\<lambda>m. (fst m, strip_proto (snd m))) (filter (\<lambda>m. fst m \<noteq> ''__proto__'') ms))"
    by (rule map_err_ok) (use 2 in auto)
  then show ?case
    by (simp only: unk_of.simps omitUndefinedObjectMembers.simps filter_map f map_map toJsonValue.simps
        map_err_map comp_def fst_conv snd_conv strip_proto.simps) simp
qed simp_all

lemma sameCanonicalJson_iff:
  "sameCanonicalJson lc l r \<longleftrightarrow> canonicalJson lc (strip_proto l) = canonicalJson lc (strip_proto r)"
  by (simp add: sameCanonicalJson_def canonicalProtocolRecordJson_def toJsonValue_unk)

lemma wf_strip: "wf_json v \<Longrightarrow> wf_json (strip_proto v)"
proof (induction v rule: strip_proto.induct)
  case (2 ms)
  have "distinct (map fst (filter (\<lambda>m. fst m \<noteq> ''__proto__'') ms))"
    using "2.prems" by (simp add: keys_ok_def distinct_map_filter)
  with 2 show ?case by (simp add: keys_ok_def comp_def list_all_iff)
qed (simp_all add: list_all_iff)

lemma map_of_sorted_member:
  "keys_ok ms \<Longrightarrow>
   map_of (map (sorted_member lc) (sort_le (key_le lc) ms)) k = map_option (sort_members lc) (map_of ms k)"
proof -
  assume ok: "keys_ok ms"
  have "map_of (sort_le (key_le lc) ms) = map_of ms"
    by (rule map_of_eqI) (use ok in \<open>auto simp: keys_ok_def\<close>, metis keys_ok_def keys_ok_sort map_of_eq_Some_iff set_sort_le)
  moreover have "map_of (map (sorted_member lc) xs) k = map_option (sort_members lc) (map_of xs k)" for xs
    by (induction xs) auto
  ultimately show ?thesis by simp
qed

lemma map_of_strip:
  "map_of (map (\<lambda>m. (fst m, strip_proto (snd m))) (filter (\<lambda>m. fst m \<noteq> ''__proto__'') ms)) k =
   (if k = ''__proto__'' then None else map_option strip_proto (map_of ms k))"
  by (induction ms) auto

text \<open>Records that compare equal have the same members, with values that compare equal.\<close>

lemma sameCanonicalJson_member:
  assumes "sameCanonicalJson lc (JObj ms) (JObj ns)" "wf_json (JObj ms)" "wf_json (JObj ns)"
    and "k \<noteq> ''__proto__''"
  shows "rel_option (sameCanonicalJson lc) (map_of ms k) (map_of ns k)"
proof -
  let ?f = "\<lambda>xs. map (\<lambda>m. (fst m, strip_proto (snd m))) (filter (\<lambda>m. fst m \<noteq> ''__proto__'') xs)"
  have wf: "wf_json (JObj (?f ms))" "wf_json (JObj (?f ns))"
    using wf_strip [OF assms(2)] wf_strip [OF assms(3)] by simp_all
  with assms(1) have eq: "map (sorted_member lc) (sort_le (key_le lc) (?f ms)) =
      map (sorted_member lc) (sort_le (key_le lc) (?f ns))"
    using canonicalJson_inj [OF wf, of lc] by (simp add: sameCanonicalJson_iff)
  have "map_option (sort_members lc) (map_of (?f ms) k) = map_option (sort_members lc) (map_of (?f ns) k)"
    using map_of_sorted_member [of "?f ms" lc k] map_of_sorted_member [of "?f ns" lc k] wf eq by simp
  then have "map_option (\<lambda>v. sort_members lc (strip_proto v)) (map_of ms k) =
      map_option (\<lambda>v. sort_members lc (strip_proto v)) (map_of ns k)"
    using assms(4) by (simp add: map_of_strip option.map_comp comp_def)
  moreover have "wf_json v" if "map_of ms k = Some v \<or> map_of ns k = Some v" for v
    using that assms(2,3) by (auto dest!: map_of_SomeD simp: list_all_iff)
  ultimately show ?thesis
    by (cases "map_of ms k"; cases "map_of ns k")
      (auto simp: sameCanonicalJson_iff canonicalJson_text)
qed

lemma same_text [simp]: "sameCanonicalJson lc (JStr s) (JStr t) \<longleftrightarrow> s = t"
  by (auto simp: sameCanonicalJson_iff json_quote_inj [of s "[]" t "[]", simplified])

lemma same_nat [simp]: "sameCanonicalJson lc (JNat m) (JNat n) \<longleftrightarrow> m = n"
  by (auto simp: sameCanonicalJson_iff JNat_def)

subsection \<open>Records as JSON objects\<close>

definition authority_json :: "authority_ref \<Rightarrow> json" where
  "authority_json a = JObj [(''realmId'', JStr (au_realmId a)),
     (''controlNodeId'', JStr (au_controlNodeId a)), (''epochId'', JStr (au_epochId a))]"

definition snapshot_json :: "metadata_snapshot \<Rightarrow> json" where
  "snapshot_json s = JObj [(''revision'', JNat (ms_revision s)), (''values'', JObj (ms_values s)),
     (''keyRevisions'', json_table JNat (ms_keyRevisions s))]"

definition patch_json :: "metadata_patch \<Rightarrow> json" where
  "patch_json p = JObj ([(''operationId'', JStr (mp_operationId p)), (''sessionId'', JStr (mp_sessionId p)),
     (''expectedAuthority'', authority_json (mp_expectedAuthority p))] @
     optional ''set'' JObj (mp_set p) @
     optional ''remove'' (\<lambda>ks. JArr (map JStr ks)) (mp_remove p) @
     optional ''ifKeyRevision'' (json_table (JNullable JNat)) (mp_ifKeyRevision p))"

definition conflict_json :: "metadata_conflict \<Rightarrow> json" where
  "conflict_json c = JObj ([(''key'', JStr (mc_key c)),
     (''expectedRevision'', JNullable JNat (mc_expectedRevision c)),
     (''actualRevision'', JNullable JNat (mc_actualRevision c))] @
     optional ''actualValue'' id (mc_actualValue c))"

definition status_text :: "metadata_status \<Rightarrow> string" where
  "status_text st = (case st of MQueued \<Rightarrow> ''queued'' | MAccepted \<Rightarrow> ''accepted''
     | MConflicted \<Rightarrow> ''conflicted'' | MOutcomeUnknown \<Rightarrow> ''outcomeUnknown'')"

definition operation_json :: "metadata_operation \<Rightarrow> json" where
  "operation_json mo = JObj ([(''operationId'', JStr (mo_operationId mo)), (''sessionId'', JStr (mo_sessionId mo)),
     (''patch'', patch_json (mo_patch mo)), (''status'', JStr (status_text (mo_status mo))),
     (''canonical'', snapshot_json (mo_canonical mo))] @
     optional ''optimistic'' snapshot_json (mo_optimistic mo) @
     optional ''conflicts'' (\<lambda>cs. JArr (map conflict_json cs)) (mo_conflicts mo) @
     [(''originControlNodeId'', JStr (mo_originControlNodeId mo)), (''authority'', authority_json (mo_authority mo)),
      (''createdAt'', JStr (mo_createdAt mo)), (''updatedAt'', JStr (mo_updatedAt mo))])"

definition sameMetadataPatch :: "collation \<Rightarrow> metadata_patch \<Rightarrow> metadata_patch \<Rightarrow> bool" where
  "sameMetadataPatch lc l r \<longleftrightarrow> sameCanonicalJson lc (patch_json l) (patch_json r)"

definition sameOperation :: "collation \<Rightarrow> metadata_operation \<Rightarrow> metadata_operation \<Rightarrow> bool" where
  "sameOperation lc l r \<longleftrightarrow> sameCanonicalJson lc (operation_json l) (operation_json r)"

definition sameSnapshot :: "collation \<Rightarrow> metadata_snapshot \<Rightarrow> metadata_snapshot \<Rightarrow> bool" where
  "sameSnapshot lc l r \<longleftrightarrow> sameCanonicalJson lc (snapshot_json l) (snapshot_json r)"

lemma sameMetadataPatch_refl [simp, intro]: "sameMetadataPatch lc p p"
  by (simp add: sameMetadataPatch_def)

lemma sameOperation_refl [simp, intro]: "sameOperation lc p p"
  by (simp add: sameOperation_def)

lemma sameSnapshot_refl [simp, intro]: "sameSnapshot lc p p"
  by (simp add: sameSnapshot_def)

text \<open>\<open>assertSameMetadataOperationIdentity\<close> (\<open>False\<close> where the code throws \<open>PAYLOAD_MISMATCH\<close>).\<close>

definition sameMetadataOperationIdentity :: "collation \<Rightarrow> metadata_operation \<Rightarrow> metadata_operation \<Rightarrow> bool" where
  "sameMetadataOperationIdentity lc current incoming \<longleftrightarrow>
     mo_sessionId current = mo_sessionId incoming \<and>
     sameMetadataPatch lc (mo_patch current) (mo_patch incoming) \<and>
     mo_originControlNodeId current = mo_originControlNodeId incoming \<and>
     sameAuthority (mo_authority current) (mo_authority incoming)"

lemma sameIdentity_refl [simp, intro]: "sameMetadataOperationIdentity lc mo mo"
  by (simp add: sameMetadataOperationIdentity_def)

lemma sameIdentity_sym: "sameMetadataOperationIdentity lc a b \<Longrightarrow> sameMetadataOperationIdentity lc b a"
  by (auto simp: sameMetadataOperationIdentity_def sameMetadataPatch_def sameCanonicalJson_sym)

lemma sameIdentity_trans:
  "sameMetadataOperationIdentity lc a b \<Longrightarrow> sameMetadataOperationIdentity lc b c \<Longrightarrow>
   sameMetadataOperationIdentity lc a c"
  by (auto simp: sameMetadataOperationIdentity_def sameMetadataPatch_def intro: sameCanonicalJson_trans)

end
