(* ===== verification/Iso_Time.thy ===== *)
theory Iso_Time
  imports Metadata
begin

text \<open>
  \<open>Date.parse\<close> on the ISO 8601 date-times the schemas admit
  (\<open>YYYY-MM-DDTHH:MM[:SS[.fraction]]\<close> with \<open>Z\<close> or a \<open>+HH:MM\<close> offset), in milliseconds since
  the epoch; \<open>None\<close> is NaN. Fractions are cut to milliseconds.
\<close>

fun digits_value :: "nat \<Rightarrow> string \<Rightarrow> nat" where
  "digits_value acc [] = acc"
| "digits_value acc (c # cs) = digits_value (10 * acc + (of_char c - 48)) cs"

text \<open>Exactly \<open>n\<close> digits, then the rest.\<close>

definition take_digits :: "nat \<Rightarrow> string \<Rightarrow> (nat \<times> string) option" where
  "take_digits n s =
     (if length (take n s) = n \<and> list_all is_digit (take n s)
      then Some (digits_value 0 (take n s), drop n s) else None)"

definition take_char :: "char \<Rightarrow> string \<Rightarrow> string option" where
  "take_char c s = (case s of [] \<Rightarrow> None | d # r \<Rightarrow> if d = c then Some r else None)"

definition days_from_civil :: "int \<Rightarrow> int \<Rightarrow> int \<Rightarrow> int" where
  "days_from_civil y m d =
     (let y' = (if m \<le> 2 then y - 1 else y);
          era = y' div 400; yoe = y' - era * 400;
          doy = (153 * (m + (if m > 2 then -3 else 9)) + 2) div 5 + d - 1;
          doe = yoe * 365 + yoe div 4 - yoe div 100 + doy
      in era * 146097 + doe - 719468)"

definition parse_seconds :: "string \<Rightarrow> (int \<times> string) option" where
  "parse_seconds s =
     (case take_char CHR '':'' s of
        None \<Rightarrow> Some (0, s)
      | Some r \<Rightarrow>
          Option.bind (take_digits 2 r) (\<lambda>(sec, r).
            case take_char CHR ''.'' r of
              None \<Rightarrow> Some (int sec * 1000, r)
            | Some f \<Rightarrow>
                (let ds = takeWhile is_digit f in
                 if ds = [] then None
                 else Some (int sec * 1000 + int (digits_value 0 (take 3 (ds @ ''00''))),
                            dropWhile is_digit f))))"

definition parse_offset :: "string \<Rightarrow> int option" where
  "parse_offset s =
     (if s = ''Z'' then Some 0
      else case s of
        [] \<Rightarrow> None
      | c # r \<Rightarrow>
          if c = CHR ''+'' \<or> c = CHR ''-'' then
            Option.bind (take_digits 2 r) (\<lambda>(h, r).
            Option.bind (take_char CHR '':'' r) (\<lambda>r.
            Option.bind (take_digits 2 r) (\<lambda>(m, r).
              if r = [] then Some ((if c = CHR ''+'' then 1 else -1) * (int h * 60 + int m) * 60000)
              else None)))
          else None)"

definition date_parse :: "string \<Rightarrow> int option" where
  "date_parse s =
     Option.bind (take_digits 4 s) (\<lambda>(y, s).
     Option.bind (take_char CHR ''-'' s) (\<lambda>s.
     Option.bind (take_digits 2 s) (\<lambda>(mo, s).
     Option.bind (take_char CHR ''-'' s) (\<lambda>s.
     Option.bind (take_digits 2 s) (\<lambda>(d, s).
     Option.bind (take_char CHR ''T'' s) (\<lambda>s.
     Option.bind (take_digits 2 s) (\<lambda>(h, s).
     Option.bind (take_char CHR '':'' s) (\<lambda>s.
     Option.bind (take_digits 2 s) (\<lambda>(mi, s).
     Option.bind (parse_seconds s) (\<lambda>(ms, s).
     Option.bind (parse_offset s) (\<lambda>offset.
       Some ((days_from_civil (int y) (int mo) (int d) * 1440 + int h * 60 + int mi) * 60000 + ms - offset))))))))))))"

text \<open>\<open>compareOperationTimestamp\<close>: the sign of the difference, \<open>None\<close> for NaN.\<close>

definition compareOperationTimestamp :: "string \<Rightarrow> string \<Rightarrow> int option" where
  "compareOperationTimestamp l r =
     (case (date_parse l, date_parse r) of (Some a, Some b) \<Rightarrow> Some (sgn (a - b)) | _ \<Rightarrow> None)"

text \<open>A comparison with NaN is false.\<close>

definition neg_time :: "int option \<Rightarrow> bool" where
  "neg_time c = (case c of None \<Rightarrow> False | Some d \<Rightarrow> d < 0)"

definition pos_time :: "int option \<Rightarrow> bool" where
  "pos_time c = (case c of None \<Rightarrow> False | Some d \<Rightarrow> 0 < d)"

lemma compare_refl: "\<not> neg_time (compareOperationTimestamp t t) \<and> \<not> pos_time (compareOperationTimestamp t t)"
  by (auto simp: compareOperationTimestamp_def neg_time_def pos_time_def split: option.split)

lemma compare_antisym: "neg_time (compareOperationTimestamp a b) \<longleftrightarrow> pos_time (compareOperationTimestamp b a)"
  by (auto simp: compareOperationTimestamp_def neg_time_def pos_time_def sgn_if split: option.split)

lemma date_parse_epoch: "date_parse ''1970-01-01T00:00:00Z'' = Some 0"
  by code_simp

lemma date_parse_example: "date_parse ''2025-03-01T12:30:15.250+02:00'' = Some 1740825015250"
  by code_simp

end
