(* ===== verification/Lifecycle.thy ===== *)
theory Lifecycle
  imports Record_Json Iso_Time
begin

text \<open>
  Durable operation records and how a control node merges a later observation of one:
  commands, interactions, launches and archives
  (\<^verbatim>\<open>packages/protocol/src/{command,interaction,launch,archive}.ts\<close> and the \<open>merge...Record\<close>
  functions of \<^verbatim>\<open>packages/control-node-core/src/catalog.ts\<close>).
\<close>

subsection \<open>Errors of the control node\<close>

text \<open>
  The codes of \<open>ControlNodeCoreError\<close>, and the three other ways a catalog call can throw: a schema
  parse (\<open>INVALID\<close>), a violated SQLite constraint and a \<open>RangeError\<close>.
\<close>

datatype core_error =
    NOT_FOUND | CONFLICT | UNAVAILABLE | FENCED | PAYLOAD_MISMATCH | OUTCOME_UNKNOWN
  | UNSUPPORTED | CURSOR_EXPIRED | UNAUTHORIZED
  | INVALID | SQLITE_CONSTRAINT | RANGE_ERROR

subsection \<open>Commands\<close>

datatype command_state = CReceived | CStarted | CSucceeded | CFailed | COutcomeUnknown

record command_record =
  cr_commandId :: string
  cr_payloadHash :: string
  cr_sessionId :: "string option"
  cr_runtimeNodeId :: string
  cr_state :: command_state
  cr_request :: json
  cr_result :: "json option"
  cr_error :: "string option"
  cr_createdAt :: string
  cr_updatedAt :: string

definition command_state_text :: "command_state \<Rightarrow> string" where
  "command_state_text s = (case s of CReceived \<Rightarrow> ''received'' | CStarted \<Rightarrow> ''started''
     | CSucceeded \<Rightarrow> ''succeeded'' | CFailed \<Rightarrow> ''failed'' | COutcomeUnknown \<Rightarrow> ''outcomeUnknown'')"

text \<open>The record without its two time stamps, as \<open>sameCommandStateData\<close> compares it.\<close>

definition command_data :: "command_record \<Rightarrow> (string \<times> json) list" where
  "command_data r = [(''commandId'', JStr (cr_commandId r)), (''payloadHash'', JStr (cr_payloadHash r)),
     (''sessionId'', JNullable JStr (cr_sessionId r)), (''runtimeNodeId'', JStr (cr_runtimeNodeId r)),
     (''state'', JStr (command_state_text (cr_state r))), (''request'', cr_request r)] @
     optional ''result'' id (cr_result r) @ optional ''error'' JStr (cr_error r)"

definition command_json :: "command_record \<Rightarrow> json" where
  "command_json r = JObj (command_data r @
     [(''createdAt'', JStr (cr_createdAt r)), (''updatedAt'', JStr (cr_updatedAt r))])"

definition sameCommandRequest :: "collation \<Rightarrow> command_record \<Rightarrow> command_record \<Rightarrow> bool" where
  "sameCommandRequest lc l r \<longleftrightarrow>
     cr_commandId l = cr_commandId r \<and> cr_payloadHash l = cr_payloadHash r \<and>
     cr_sessionId l = cr_sessionId r \<and> cr_runtimeNodeId l = cr_runtimeNodeId r \<and>
     sameCanonicalJson lc (cr_request l) (cr_request r)"

definition isTerminalCommandState :: "command_state \<Rightarrow> bool" where
  "isTerminalCommandState s \<longleftrightarrow> s = CSucceeded \<or> s = CFailed \<or> s = COutcomeUnknown"

definition sameCommandStateData :: "collation \<Rightarrow> command_record \<Rightarrow> command_record \<Rightarrow> bool" where
  "sameCommandStateData lc l r \<longleftrightarrow> sameCanonicalJson lc (JObj (command_data l)) (JObj (command_data r))"

definition mergeCommandRecord ::
  "collation \<Rightarrow> bool \<Rightarrow> command_record \<Rightarrow> command_record \<Rightarrow> core_error + command_record" where
  "mergeCommandRecord lc allowOutcomeRecovery current incomingInput =
     (if \<not> sameCommandRequest lc current incomingInput then Inl PAYLOAD_MISMATCH
      else
        let incoming = incomingInput\<lparr>cr_createdAt := cr_createdAt current\<rparr> in
        if sameCanonicalJson lc (command_json current) (command_json incoming) then Inr current
        else case cr_state current of
          CReceived \<Rightarrow>
            if cr_state incoming = CReceived then
              (if sameCommandStateData lc current incoming then Inr current else Inl CONFLICT)
            else Inr incoming
        | CStarted \<Rightarrow>
            if cr_state incoming = CReceived then Inr current
            else if cr_state incoming = CStarted then
              (if sameCommandStateData lc current incoming then Inr current else Inl CONFLICT)
            else Inr incoming
        | COutcomeUnknown \<Rightarrow>
            if allowOutcomeRecovery \<and> (cr_state incoming = CSucceeded \<or> cr_state incoming = CFailed)
            then Inr incoming
            else if cr_state incoming = CReceived \<or> cr_state incoming = CStarted then Inr current
            else Inl CONFLICT
        | _ \<Rightarrow>
            if cr_state incoming = CReceived \<or> cr_state incoming = CStarted then Inr current
            else Inl CONFLICT)"

subsection \<open>Interactions\<close>

datatype interaction_state = IPending | IResolved | IExpired | IStale

record interaction_record =
  ir_interactionId :: string
  ir_sessionId :: string
  ir_harness :: string
  ir_runtimeEpoch :: string
  ir_nativeRequestId :: "string option"
  ir_requestType :: string
  ir_payload :: json
  ir_ephemeral :: bool
  ir_state :: interaction_state
  ir_resolution :: "json option"
  ir_createdAt :: string
  ir_expiresAt :: "string option"
  ir_resolvedAt :: "string option"

definition interaction_state_text :: "interaction_state \<Rightarrow> string" where
  "interaction_state_text s = (case s of IPending \<Rightarrow> ''pending'' | IResolved \<Rightarrow> ''resolved''
     | IExpired \<Rightarrow> ''expired'' | IStale \<Rightarrow> ''stale'')"

definition interaction_identity :: "interaction_record \<Rightarrow> (string \<times> json) list" where
  "interaction_identity r = [(''interactionId'', JStr (ir_interactionId r)), (''sessionId'', JStr (ir_sessionId r)),
     (''harness'', JStr (ir_harness r)), (''runtimeEpoch'', JStr (ir_runtimeEpoch r))] @
     optional ''nativeRequestId'' JStr (ir_nativeRequestId r) @
     [(''requestType'', JStr (ir_requestType r)), (''payload'', ir_payload r),
      (''ephemeral'', JBool (ir_ephemeral r)), (''createdAt'', JStr (ir_createdAt r)),
      (''expiresAt'', JNullable JStr (ir_expiresAt r))]"

definition interaction_json :: "interaction_record \<Rightarrow> json" where
  "interaction_json r = JObj (interaction_identity r @
     [(''state'', JStr (interaction_state_text (ir_state r)))] @
     optional ''resolution'' id (ir_resolution r) @
     [(''resolvedAt'', JNullable JStr (ir_resolvedAt r))])"

definition mergeInteractionRecord ::
  "collation \<Rightarrow> interaction_record \<Rightarrow> interaction_record \<Rightarrow> core_error + interaction_record" where
  "mergeInteractionRecord lc current incoming =
     (if \<not> sameCanonicalJson lc (JObj (interaction_identity current)) (JObj (interaction_identity incoming))
      then Inl PAYLOAD_MISMATCH
      else if sameCanonicalJson lc (interaction_json current) (interaction_json incoming) then Inr current
      else if ir_state current = IPending then
        (if ir_state incoming = IPending then Inl CONFLICT else Inr incoming)
      else if ir_state incoming = IPending then Inr current
      else Inl CONFLICT)"

subsection \<open>Launches\<close>

datatype launch_state =
  LAccepted | LPreparing | LNativeStarting | LCleanupPending | LSucceeded | LFailed | LOutcomeUnknown

record launch_profile =
  lp_profileId :: string
  lp_providerId :: string
  lp_contractVersion :: nat
  lp_requestSchemaHash :: string

record launch_request =
  lq_launchId :: string
  lq_payloadHash :: string
  lq_sessionId :: string
  lq_runtimeNodeId :: string
  lq_profile :: launch_profile
  lq_harness :: string
  lq_input :: "(string \<times> json) list"
  lq_metadata :: "metadata_values option"

record launch_result =
  ls_sessionId :: string
  ls_adapterScopeId :: string
  ls_vendorSessionId :: string
  ls_backendId :: string
  ls_bindingRevision :: nat

record launch_record = launch_request +
  lr_implementationVersion :: string
  lr_state :: launch_state
  lr_result :: "launch_result option"
  lr_statusMessage :: "string option"
  lr_error :: "string option"
  lr_createdAt :: string
  lr_updatedAt :: string

text \<open>The rules of \<open>launchRecordSchema.superRefine\<close>.\<close>

definition launchRecordSchema :: "launch_record \<Rightarrow> bool" where
  "launchRecordSchema r \<longleftrightarrow>
     (if lr_state r = LSucceeded
      then (case lr_result r of None \<Rightarrow> False | Some s \<Rightarrow> ls_sessionId s = lq_sessionId r)
      else lr_result r = None) \<and>
     (lr_state r = LFailed \<or> lr_state r = LOutcomeUnknown \<longleftrightarrow> lr_error r \<noteq> None)"

definition launch_state_text :: "launch_state \<Rightarrow> string" where
  "launch_state_text s = (case s of LAccepted \<Rightarrow> ''accepted'' | LPreparing \<Rightarrow> ''preparing''
     | LNativeStarting \<Rightarrow> ''nativeStarting'' | LCleanupPending \<Rightarrow> ''cleanupPending''
     | LSucceeded \<Rightarrow> ''succeeded'' | LFailed \<Rightarrow> ''failed'' | LOutcomeUnknown \<Rightarrow> ''outcomeUnknown'')"

definition profile_json :: "launch_profile \<Rightarrow> json" where
  "profile_json p = JObj [(''profileId'', JStr (lp_profileId p)), (''providerId'', JStr (lp_providerId p)),
     (''contractVersion'', JNat (lp_contractVersion p)), (''requestSchemaHash'', JStr (lp_requestSchemaHash p))]"

definition launch_identity :: "launch_record \<Rightarrow> (string \<times> json) list" where
  "launch_identity r = [(''launchId'', JStr (lq_launchId r)), (''payloadHash'', JStr (lq_payloadHash r)),
     (''sessionId'', JStr (lq_sessionId r)), (''runtimeNodeId'', JStr (lq_runtimeNodeId r)),
     (''profile'', profile_json (lq_profile r)), (''harness'', JStr (lq_harness r)), (''input'', JObj (lq_input r))] @
     optional ''metadata'' JObj (lq_metadata r) @
     [(''implementationVersion'', JStr (lr_implementationVersion r)), (''createdAt'', JStr (lr_createdAt r))]"

definition result_json :: "launch_result \<Rightarrow> json" where
  "result_json s = JObj [(''sessionId'', JStr (ls_sessionId s)), (''adapterScopeId'', JStr (ls_adapterScopeId s)),
     (''vendorSessionId'', JStr (ls_vendorSessionId s)), (''backendId'', JStr (ls_backendId s)),
     (''bindingRevision'', JNat (ls_bindingRevision s))]"

definition launch_json :: "launch_record \<Rightarrow> json" where
  "launch_json r = JObj (launch_identity r @
     [(''state'', JStr (launch_state_text (lr_state r)))] @
     optional ''result'' result_json (lr_result r) @
     optional ''statusMessage'' JStr (lr_statusMessage r) @
     optional ''error'' JStr (lr_error r) @ [(''updatedAt'', JStr (lr_updatedAt r))])"

definition launch_rank :: "launch_state \<Rightarrow> nat" where
  "launch_rank s = (case s of LAccepted \<Rightarrow> 0 | LPreparing \<Rightarrow> 1 | LNativeStarting \<Rightarrow> 2
     | LCleanupPending \<Rightarrow> 3 | LSucceeded \<Rightarrow> 4 | LFailed \<Rightarrow> 4 | LOutcomeUnknown \<Rightarrow> 4)"

definition launch_terminal :: "launch_state \<Rightarrow> bool" where
  "launch_terminal s \<longleftrightarrow> s = LSucceeded \<or> s = LFailed \<or> s = LOutcomeUnknown"

definition mergeLaunchRecord ::
  "collation \<Rightarrow> launch_record \<Rightarrow> launch_record \<Rightarrow> core_error + launch_record" where
  "mergeLaunchRecord lc current incomingInput =
     (let observedRecency = compareOperationTimestamp (lr_updatedAt incomingInput) (lr_updatedAt current);
          incoming = incomingInput\<lparr>lr_createdAt := lr_createdAt current,
            lr_updatedAt :=
              (if neg_time (compareOperationTimestamp (lr_updatedAt incomingInput) (lr_updatedAt current))
               then lr_updatedAt current else lr_updatedAt incomingInput)\<rparr>
      in
      if \<not> launchRecordSchema incoming then Inl INVALID
      else if \<not> sameCanonicalJson lc (JObj (launch_identity current)) (JObj (launch_identity incoming))
      then Inl PAYLOAD_MISMATCH
      else if sameCanonicalJson lc (launch_json current) (launch_json incoming) then Inr current
      else if launch_rank (lr_state incoming) < launch_rank (lr_state current) then Inr current
      else if launch_terminal (lr_state current) then Inl CONFLICT
      else if launch_rank (lr_state current) < launch_rank (lr_state incoming) then Inr incoming
      else if neg_time observedRecency then Inr current
      else Inr incoming)"

subsection \<open>Archives\<close>

datatype archive_state = AAccepted | AReleasing | ASucceeded | AFailed | AOutcomeUnknown

record archive_request =
  aq_archiveOperationId :: string
  aq_payloadHash :: string
  aq_sessionId :: string
  aq_runtimeNodeId :: string
  aq_bindingRevision :: nat
  aq_expectedAuthority :: authority_ref

record archive_record = archive_request +
  ar_authority :: authority_ref
  ar_state :: archive_state
  ar_releasedAt :: "string option"
  ar_catalogRevision :: "nat option"
  ar_error :: "string option"
  ar_createdAt :: string
  ar_updatedAt :: string

text \<open>The rules of \<open>archiveRecordSchema.superRefine\<close>.\<close>

definition archiveRecordSchema :: "archive_record \<Rightarrow> bool" where
  "archiveRecordSchema r \<longleftrightarrow>
     sameAuthority (aq_expectedAuthority r) (ar_authority r) \<and>
     (ar_state r = ASucceeded \<longleftrightarrow> ar_releasedAt r \<noteq> None) \<and>
     (ar_state r = ASucceeded \<longleftrightarrow> ar_catalogRevision r \<noteq> None) \<and>
     (ar_state r = AFailed \<or> ar_state r = AOutcomeUnknown \<longleftrightarrow> ar_error r \<noteq> None)"

definition archive_state_text :: "archive_state \<Rightarrow> string" where
  "archive_state_text s = (case s of AAccepted \<Rightarrow> ''accepted'' | AReleasing \<Rightarrow> ''releasing''
     | ASucceeded \<Rightarrow> ''succeeded'' | AFailed \<Rightarrow> ''failed'' | AOutcomeUnknown \<Rightarrow> ''outcomeUnknown'')"

definition archive_identity :: "archive_record \<Rightarrow> (string \<times> json) list" where
  "archive_identity r = [(''archiveOperationId'', JStr (aq_archiveOperationId r)),
     (''payloadHash'', JStr (aq_payloadHash r)), (''sessionId'', JStr (aq_sessionId r)),
     (''runtimeNodeId'', JStr (aq_runtimeNodeId r)), (''bindingRevision'', JNat (aq_bindingRevision r)),
     (''expectedAuthority'', authority_json (aq_expectedAuthority r)),
     (''authority'', authority_json (ar_authority r)), (''createdAt'', JStr (ar_createdAt r))]"

definition archive_json :: "archive_record \<Rightarrow> json" where
  "archive_json r = JObj (archive_identity r @
     [(''state'', JStr (archive_state_text (ar_state r))), (''releasedAt'', JNullable JStr (ar_releasedAt r))] @
     optional ''catalogRevision'' JNat (ar_catalogRevision r) @
     optional ''error'' JStr (ar_error r) @ [(''updatedAt'', JStr (ar_updatedAt r))])"

definition archive_rank :: "archive_state \<Rightarrow> nat" where
  "archive_rank s = (case s of AAccepted \<Rightarrow> 0 | AReleasing \<Rightarrow> 1
     | ASucceeded \<Rightarrow> 2 | AFailed \<Rightarrow> 2 | AOutcomeUnknown \<Rightarrow> 2)"

definition archive_terminal :: "archive_state \<Rightarrow> bool" where
  "archive_terminal s \<longleftrightarrow> s = ASucceeded \<or> s = AFailed \<or> s = AOutcomeUnknown"

definition mergeArchiveRecord ::
  "collation \<Rightarrow> archive_record \<Rightarrow> archive_record \<Rightarrow> core_error + archive_record" where
  "mergeArchiveRecord lc current incoming =
     (if \<not> sameCanonicalJson lc (JObj (archive_identity current)) (JObj (archive_identity incoming))
      then Inl PAYLOAD_MISMATCH
      else if sameCanonicalJson lc (archive_json current) (archive_json incoming) then Inr current
      else if archive_terminal (ar_state current) then Inl CONFLICT
      else
        let recency = compareOperationTimestamp (ar_updatedAt incoming) (ar_updatedAt current) in
        if archive_rank (ar_state incoming) < archive_rank (ar_state current) then
          (if pos_time recency then Inl CONFLICT else Inr current)
        else if archive_rank (ar_state current) < archive_rank (ar_state incoming) then
          (if neg_time recency then Inl CONFLICT else Inr incoming)
        else if neg_time recency then Inr current
        else Inr incoming)"

end
