(* ===== verification/Lifecycle_Merge.thy ===== *)
theory Lifecycle_Merge
  imports Lifecycle
begin

text \<open>
  What the merge functions promise a journal that receives observations of one operation late,
  twice or out of order: the contracts \<open>monotone_merge\<close> and \<open>settling_merge\<close>, the facts every
  journal has under them, and their interpretations on the merge functions of commands,
  interactions, launches and archives.
\<close>

subsection \<open>A journal entry under a sequence of observations\<close>

definition observe :: "('r \<Rightarrow> 'r \<Rightarrow> core_error + 'r) \<Rightarrow> 'r \<Rightarrow> 'r \<Rightarrow> 'r" where
  "observe merge c i = (case merge c i of Inl e \<Rightarrow> c | Inr r \<Rightarrow> r)"

text \<open>A refused observation raises in the handler of that observation and leaves the entry.\<close>

definition journal :: "('r \<Rightarrow> 'r \<Rightarrow> core_error + 'r) \<Rightarrow> 'r \<Rightarrow> 'r list \<Rightarrow> 'r" where
  "journal merge c is = foldl (observe merge) c is"

lemma journal_Nil [simp]: "journal merge c [] = c"
  by (simp add: journal_def)

lemma journal_Cons [simp]: "journal merge c (i # is) = journal merge (observe merge c i) is"
  by (simp add: journal_def)

lemma journal_append: "journal merge c (xs @ ys) = journal merge (journal merge c xs) ys"
  by (simp add: journal_def)

subsection \<open>The contracts\<close>

text \<open>
  \<open>ident\<close>: the fields that never change; \<open>rank\<close>: how far the operation got; \<open>top\<close>: settled.
\<close>

locale monotone_merge =
  fixes merge :: "'r \<Rightarrow> 'r \<Rightarrow> core_error + 'r"
    and ident :: "'r \<Rightarrow> 'r \<Rightarrow> bool"
    and rank :: "'r \<Rightarrow> nat"
    and top :: nat
  assumes ident_refl: "ident c c"
    and ident_trans: "ident a b \<Longrightarrow> ident b c \<Longrightarrow> ident a c"
    and merge_ident: "merge c i = Inr r \<Longrightarrow> ident c r"
    and merge_rank: "merge c i = Inr r \<Longrightarrow> rank c \<le> rank r"
    and merge_top: "rank c = top \<Longrightarrow> merge c i = Inr r \<Longrightarrow> r = c"
    and merge_replay: "merge c i = Inr r \<Longrightarrow> merge r i = Inr r"
begin

lemma observe_ident: "ident c (observe merge c i)"
  by (auto simp: observe_def ident_refl split: sum.split dest: merge_ident)

lemma observe_rank: "rank c \<le> rank (observe merge c i)"
  by (auto simp: observe_def split: sum.split dest: merge_rank)

lemma observe_top: "rank c = top \<Longrightarrow> observe merge c i = c"
  by (cases "merge c i") (simp_all add: observe_def merge_top)

lemma observe_twice: "observe merge (observe merge c i) i = observe merge c i"
  by (cases "merge c i") (auto simp: observe_def dest: merge_replay)

lemma journal_ident: "ident c (journal merge c is)"
  by (induction "is" arbitrary: c) (auto intro: ident_refl ident_trans observe_ident)

lemma journal_rank: "rank c \<le> rank (journal merge c is)"
  by (induction "is" arbitrary: c) (auto intro: le_trans observe_rank)

lemma journal_top: "rank c = top \<Longrightarrow> journal merge c is = c"
  by (induction "is") (simp_all add: observe_top)

lemma journal_settled: "rank (journal merge c xs) = top \<Longrightarrow> journal merge c (xs @ ys) = journal merge c xs"
  by (simp add: journal_append journal_top)

lemma journal_duplicate: "journal merge c (xs @ i # i # ys) = journal merge c (xs @ i # ys)"
  by (simp add: journal_append observe_twice)

lemma journal_invariant:
  assumes "P c" and "\<And>c i r. P c \<Longrightarrow> merge c i = Inr r \<Longrightarrow> P r"
  shows "P (journal merge c is)"
  using assms(1)
proof (induction "is" arbitrary: c)
  case (Cons i "is")
  then have "P (observe merge c i)"
    using assms(2) by (auto simp: observe_def split: sum.split)
  with Cons.IH show ?case by simp
qed simp

end

text \<open>
  A stronger contract: only an observation of a strictly higher rank is adopted, and it always
  is. \<open>ok\<close> is the well-formedness of records; \<open>adopt c i\<close> is what the entry \<open>c\<close> becomes.
\<close>

locale settling_merge =
  fixes merge :: "'r \<Rightarrow> 'r \<Rightarrow> core_error + 'r"
    and ident :: "'r \<Rightarrow> 'r \<Rightarrow> bool"
    and rank :: "'r \<Rightarrow> nat"
    and top :: nat
    and adopt :: "'r \<Rightarrow> 'r \<Rightarrow> 'r"
    and ok :: "'r \<Rightarrow> bool"
  assumes ident_reflexive: "ident c c"
    and ident_symmetric: "ident a b \<Longrightarrow> ident b a"
    and ident_transitive: "ident a b \<Longrightarrow> ident b c \<Longrightarrow> ident a c"
    and rank_top: "rank c \<le> top"
    and refuse: "\<not> ident c i \<Longrightarrow> merge c i \<noteq> Inr r"
    and advance: "merge c i = Inr r \<Longrightarrow> r = c \<or> rank c < rank i \<and> r = adopt c i"
    and fresh: "ok c \<Longrightarrow> ok i \<Longrightarrow> ident c i \<Longrightarrow> rank c < rank i \<Longrightarrow> merge c i = Inr (adopt c i)"
    and replay: "merge c i = Inr (adopt c i) \<Longrightarrow> merge (adopt c i) i = Inr (adopt c i)"
    and adopt_rank: "rank (adopt c i) = rank i"
    and adopt_ident: "ident c i \<Longrightarrow> ident c (adopt c i)"
    and adopt_adopt: "adopt (adopt c i) j = adopt c j"
    and adopt_ok: "ok c \<Longrightarrow> ok i \<Longrightarrow> ok (adopt c i)"

sublocale settling_merge \<subseteq> monotone_merge merge ident rank top
proof
  show "ident c c" for c by (rule ident_reflexive)
  show "ident a b \<Longrightarrow> ident b c \<Longrightarrow> ident a c" for a b c by (rule ident_transitive)
  show "ident c r" if m: "merge c i = Inr r" for c i r
    using advance [OF m] refuse [of c i r] m by (auto intro: ident_reflexive adopt_ident)
  show "rank c \<le> rank r" if m: "merge c i = Inr r" for c i r
    using advance [OF m] by (auto simp: adopt_rank)
  show "r = c" if "rank c = top" and m: "merge c i = Inr r" for c i r
    using advance [OF m] rank_top [of i] that(1) by auto
  show "merge r i = Inr r" if m: "merge c i = Inr r" for c i r
    using advance [OF m] m by (auto dest: replay)
qed

context settling_merge
begin

lemma observe_eq:
  "ok c \<Longrightarrow> ok i \<Longrightarrow> observe merge c i = (if ident c i \<and> rank c < rank i then adopt c i else c)"
  by (cases "merge c i") (use refuse [of c i] advance [of c i] fresh [of c i] in \<open>auto simp: observe_def\<close>)

lemma ident_adopt: "ident c i \<Longrightarrow> ident (adopt c i) j \<longleftrightarrow> ident c j"
  by (meson adopt_ident ident_symmetric ident_transitive)

lemma journal_result:
  assumes "ok c" "\<forall>i \<in> set is. ok i"
  shows "(journal merge c is = c \<and> (\<forall>j \<in> set is. ident c j \<longrightarrow> rank j \<le> rank c)) \<or>
    (\<exists>i \<in> set is. ident c i \<and> rank c < rank i \<and> journal merge c is = adopt c i \<and>
       (\<forall>j \<in> set is. ident c j \<longrightarrow> rank j \<le> rank i))"
  using assms
proof (induction "is" arbitrary: c)
  case Nil
  then show ?case by simp
next
  case (Cons x xs)
  show ?case
  proof (cases "ident c x \<and> rank c < rank x")
    case True
    then have eq: "journal merge c (x # xs) = journal merge (adopt c x) xs"
      using Cons.prems by (simp add: observe_eq)
    show ?thesis
      using Cons.IH [of "adopt c x"] Cons.prems True
      unfolding eq by (auto simp: adopt_ok adopt_rank adopt_adopt ident_adopt intro: less_imp_le)
  next
    case False
    then have eq: "journal merge c (x # xs) = journal merge c xs"
      using Cons.prems by (auto simp: observe_eq)
    show ?thesis
      using Cons.IH [of c] Cons.prems False unfolding eq by fastforce
  qed
qed

text \<open>
  Two journals that have seen the same observations, in any order and any number of times, agree
  when the highest observations do.
\<close>

lemma journals_converge:
  assumes "ok c" "\<forall>i \<in> set xs. ok i" "set xs = set ys"
    and agree: "\<And>i j. i \<in> set xs \<Longrightarrow> j \<in> set xs \<Longrightarrow> ident c i \<Longrightarrow> ident c j \<Longrightarrow> rank i = rank j \<Longrightarrow>
      \<forall>k \<in> set xs. ident c k \<longrightarrow> rank k \<le> rank i \<Longrightarrow> adopt c i = adopt c j"
  shows "journal merge c xs = journal merge c ys"
proof -
  have x: "(journal merge c xs = c \<and> (\<forall>j \<in> set xs. ident c j \<longrightarrow> rank j \<le> rank c)) \<or>
    (\<exists>i \<in> set xs. ident c i \<and> rank c < rank i \<and> journal merge c xs = adopt c i \<and>
       (\<forall>j \<in> set xs. ident c j \<longrightarrow> rank j \<le> rank i))"
    by (rule journal_result [OF assms(1,2)])
  have y: "(journal merge c ys = c \<and> (\<forall>j \<in> set xs. ident c j \<longrightarrow> rank j \<le> rank c)) \<or>
    (\<exists>i \<in> set xs. ident c i \<and> rank c < rank i \<and> journal merge c ys = adopt c i \<and>
       (\<forall>j \<in> set xs. ident c j \<longrightarrow> rank j \<le> rank i))"
    using journal_result [OF assms(1), of ys] assms(2) by (simp add: assms(3))
  from x show ?thesis
  proof
    assume c: "journal merge c xs = c \<and> (\<forall>j \<in> set xs. ident c j \<longrightarrow> rank j \<le> rank c)"
    with y have "journal merge c ys = c" by (meson leD)
    with c show ?thesis by simp
  next
    assume "\<exists>i \<in> set xs. ident c i \<and> rank c < rank i \<and> journal merge c xs = adopt c i \<and>
       (\<forall>j \<in> set xs. ident c j \<longrightarrow> rank j \<le> rank i)"
    then obtain i where i: "i \<in> set xs" "ident c i" "rank c < rank i" "journal merge c xs = adopt c i"
        "\<forall>j \<in> set xs. ident c j \<longrightarrow> rank j \<le> rank i" by blast
    with y obtain k where k: "k \<in> set xs" "ident c k" "journal merge c ys = adopt c k"
        "\<forall>j \<in> set xs. ident c j \<longrightarrow> rank j \<le> rank k" by (meson leD)
    from i k have "rank i = rank k" by (simp add: antisym)
    with i k agree [of i k] show ?thesis by simp
  qed
qed

text \<open>Redelivering anything already seen changes nothing.\<close>

lemma journal_absorbs:
  assumes "ok c" "\<forall>i \<in> set xs. ok i" "i \<in> set xs"
  shows "journal merge c (xs @ [i]) = journal merge c xs"
proof -
  have "observe merge (journal merge c xs) i = journal merge c xs"
    using journal_result [OF assms(1,2)] assms
    by (auto simp: observe_eq adopt_ok adopt_rank ident_adopt)
  then show ?thesis by (simp add: journal_append)
qed

end


subsection \<open>The merges of the catalog\<close>

text \<open>With recovery, an unknown outcome may still be settled; without, it is an outcome.\<close>

definition command_rank :: "bool \<Rightarrow> command_record \<Rightarrow> nat" where
  "command_rank recover r = (case cr_state r of CReceived \<Rightarrow> 0 | CStarted \<Rightarrow> 1
     | COutcomeUnknown \<Rightarrow> if recover then 2 else 3 | _ \<Rightarrow> 3)"

definition adopt_command :: "command_record \<Rightarrow> command_record \<Rightarrow> command_record" where
  "adopt_command c i = i\<lparr>cr_createdAt := cr_createdAt c\<rparr>"

definition command_ok :: "command_record \<Rightarrow> bool" where
  "command_ok r \<longleftrightarrow> wf_json (command_json r)"

lemma command_state_text_inj: "command_state_text s = command_state_text t \<Longrightarrow> s = t"
  by (cases s; cases t) (simp_all add: command_state_text_def)

lemma command_state_member: "map_of (command_data r) ''state'' = Some (JStr (command_state_text (cr_state r)))"
  by (simp add: command_data_def)

lemma same_command_json_state:
  assumes "sameCanonicalJson lc (command_json c) (command_json i)" "command_ok c" "command_ok i"
  shows "cr_state c = cr_state i"
  using sameCanonicalJson_member [OF assms(1) [unfolded command_json_def], of "''state''"] assms(2,3)
  by (simp add: command_ok_def command_json_def command_state_member) (auto dest: command_state_text_inj)

lemma adopt_command_ok: "command_ok i \<Longrightarrow> command_ok (adopt_command c i)"
  by (simp add: command_ok_def adopt_command_def command_json_def command_data_def keys_ok_def)

lemma mergeCommandRecord_advance:
  assumes "mergeCommandRecord lc recover c i = Inr r"
  shows "r = c \<or> command_rank recover c < command_rank recover i \<and> r = adopt_command c i"
  using assms
  by (cases "cr_state c"; cases "cr_state i")
    (auto simp: mergeCommandRecord_def command_rank_def adopt_command_def Let_def split: if_splits)

lemma mergeCommandRecord_fresh:
  assumes "command_ok c" "command_ok i" "sameCommandRequest lc c i"
    "command_rank recover c < command_rank recover i"
  shows "mergeCommandRecord lc recover c i = Inr (adopt_command c i)"
proof -
  have "cr_state (adopt_command c i) = cr_state i" by (simp add: adopt_command_def)
  moreover have "cr_state c \<noteq> cr_state i" using assms(4) by (auto simp: command_rank_def)
  ultimately have "\<not> sameCanonicalJson lc (command_json c) (command_json (adopt_command c i))"
    using same_command_json_state [of lc c "adopt_command c i"] adopt_command_ok assms(1,2) by metis
  with assms(3,4) show ?thesis
    by (cases "cr_state c"; cases "cr_state i")
      (auto simp: mergeCommandRecord_def command_rank_def adopt_command_def Let_def split: if_splits)
qed

lemma mergeCommandRecord_replay:
  "mergeCommandRecord lc recover c i = Inr (adopt_command c i) \<Longrightarrow>
   mergeCommandRecord lc recover (adopt_command c i) i = Inr (adopt_command c i)"
  by (auto simp: mergeCommandRecord_def adopt_command_def sameCommandRequest_def Let_def split: if_splits)

interpretation command_merge: settling_merge "mergeCommandRecord lc recover" "sameCommandRequest lc"
  "command_rank recover" 3 adopt_command command_ok for lc recover
proof
  show "mergeCommandRecord lc recover c i = Inr r \<Longrightarrow>
      r = c \<or> command_rank recover c < command_rank recover i \<and> r = adopt_command c i" for c i r
    by (rule mergeCommandRecord_advance)
  show "command_ok c \<Longrightarrow> command_ok i \<Longrightarrow> sameCommandRequest lc c i \<Longrightarrow>
      command_rank recover c < command_rank recover i \<Longrightarrow>
      mergeCommandRecord lc recover c i = Inr (adopt_command c i)" for c i
    by (rule mergeCommandRecord_fresh)
  show "mergeCommandRecord lc recover c i = Inr (adopt_command c i) \<Longrightarrow>
      mergeCommandRecord lc recover (adopt_command c i) i = Inr (adopt_command c i)" for c i
    by (rule mergeCommandRecord_replay)
  show "command_ok c \<Longrightarrow> command_ok i \<Longrightarrow> command_ok (adopt_command c i)" for c i
    by (rule adopt_command_ok)
qed (auto simp: sameCommandRequest_def command_rank_def adopt_command_def mergeCommandRecord_def
    sameCanonicalJson_sym intro: sameCanonicalJson_trans split: command_state.split)


text \<open>An interaction is answered once.\<close>

definition interaction_rank :: "interaction_record \<Rightarrow> nat" where
  "interaction_rank r = (if ir_state r = IPending then 0 else 1)"

definition interaction_ok :: "interaction_record \<Rightarrow> bool" where
  "interaction_ok r \<longleftrightarrow> wf_json (interaction_json r)"

definition same_interaction :: "collation \<Rightarrow> interaction_record \<Rightarrow> interaction_record \<Rightarrow> bool" where
  "same_interaction lc l r \<longleftrightarrow>
     sameCanonicalJson lc (JObj (interaction_identity l)) (JObj (interaction_identity r))"

lemma interaction_state_text_inj: "interaction_state_text s = interaction_state_text t \<Longrightarrow> s = t"
  by (cases s; cases t) (simp_all add: interaction_state_text_def)

lemma interaction_state_fresh: "map_of (interaction_identity r) ''state'' = None"
  by (simp add: interaction_identity_def optional_def split: option.split)

lemma interaction_state_member:
  "map_of (interaction_identity r @ (''state'', v) # xs) ''state'' = Some v"
  using interaction_state_fresh [of r] by (simp add: map_add_def)

lemma same_interaction_json_state:
  assumes "sameCanonicalJson lc (interaction_json c) (interaction_json i)" "interaction_ok c" "interaction_ok i"
  shows "ir_state c = ir_state i"
  using sameCanonicalJson_member [OF assms(1) [unfolded interaction_json_def], of "''state''"] assms(2,3)
  by (auto simp: interaction_ok_def interaction_json_def interaction_state_member interaction_state_fresh
      simp del: map_of_append dest: interaction_state_text_inj)

lemma mergeInteractionRecord_fresh:
  assumes "interaction_ok c" "interaction_ok i" "same_interaction lc c i" "interaction_rank c < interaction_rank i"
  shows "mergeInteractionRecord lc c i = Inr i"
  using assms same_interaction_json_state [of lc c i]
  by (auto simp: mergeInteractionRecord_def same_interaction_def interaction_rank_def split: if_splits)

interpretation interaction_merge: settling_merge "mergeInteractionRecord lc" "same_interaction lc"
  interaction_rank 1 "\<lambda>c i. i" interaction_ok for lc
proof
  show "mergeInteractionRecord lc c i = Inr r \<Longrightarrow>
      r = c \<or> interaction_rank c < interaction_rank i \<and> r = i" for c i r
    by (auto simp: mergeInteractionRecord_def interaction_rank_def split: if_splits)
  show "interaction_ok c \<Longrightarrow> interaction_ok i \<Longrightarrow> same_interaction lc c i \<Longrightarrow>
      interaction_rank c < interaction_rank i \<Longrightarrow> mergeInteractionRecord lc c i = Inr i" for c i
    by (rule mergeInteractionRecord_fresh)
qed (auto simp: same_interaction_def interaction_rank_def mergeInteractionRecord_def
    sameCanonicalJson_sym intro: sameCanonicalJson_trans)

text \<open>Launches and archives may also be refreshed at one rank, by a later time stamp.\<close>

definition same_launch :: "collation \<Rightarrow> launch_record \<Rightarrow> launch_record \<Rightarrow> bool" where
  "same_launch lc l r \<longleftrightarrow> sameCanonicalJson lc (JObj (launch_identity l)) (JObj (launch_identity r))"

definition same_archive :: "collation \<Rightarrow> archive_record \<Rightarrow> archive_record \<Rightarrow> bool" where
  "same_archive lc l r \<longleftrightarrow> sameCanonicalJson lc (JObj (archive_identity l)) (JObj (archive_identity r))"

lemmas same_record_defs = same_launch_def same_archive_def

lemma launch_terminal_rank: "launch_terminal s \<longleftrightarrow> launch_rank s = 4"
  by (cases s) (simp_all add: launch_terminal_def launch_rank_def)

lemma archive_terminal_rank: "archive_terminal s \<longleftrightarrow> archive_rank s = 2"
  by (cases s) (simp_all add: archive_terminal_def archive_rank_def)

definition adopt_launch :: "launch_record \<Rightarrow> launch_record \<Rightarrow> launch_record" where
  "adopt_launch c i = i\<lparr>lr_createdAt := lr_createdAt c,
     lr_updatedAt := (if neg_time (compareOperationTimestamp (lr_updatedAt i) (lr_updatedAt c))
                      then lr_updatedAt c else lr_updatedAt i)\<rparr>"

lemma mergeLaunchRecord_cases:
  assumes "mergeLaunchRecord lc c i = Inr r"
  shows "r = c \<or> r = adopt_launch c i \<and> launchRecordSchema r \<and> same_launch lc c r \<and>
    launch_rank (lr_state c) \<le> launch_rank (lr_state r) \<and> \<not> launch_terminal (lr_state c)"
proof (cases "r = c")
  case False
  with assms show ?thesis
    unfolding mergeLaunchRecord_def Let_def adopt_launch_def [symmetric]
    by (simp add: same_launch_def split: if_splits)
qed simp

lemma adopt_launch_again: "adopt_launch (adopt_launch c i) i = adopt_launch c i"
  by (simp add: adopt_launch_def compare_refl)

lemma mergeLaunchRecord_self:
  "launchRecordSchema (adopt_launch c i) \<Longrightarrow> mergeLaunchRecord lc (adopt_launch c i) i = Inr (adopt_launch c i)"
  unfolding mergeLaunchRecord_def Let_def adopt_launch_def [symmetric] adopt_launch_again
  by simp

lemma mergeArchiveRecord_cases:
  assumes "mergeArchiveRecord lc c i = Inr r"
  shows "r = c \<or> r = i \<and> \<not> neg_time (compareOperationTimestamp (ar_updatedAt i) (ar_updatedAt c)) \<and>
    same_archive lc c i \<and> archive_rank (ar_state c) \<le> archive_rank (ar_state i) \<and> \<not> archive_terminal (ar_state c)"
proof (cases "r = c")
  case False
  with assms show ?thesis
    unfolding mergeArchiveRecord_def Let_def by (auto simp: same_archive_def split: if_splits)
qed simp

interpretation launch_merge: monotone_merge "mergeLaunchRecord lc" "same_launch lc"
  "\<lambda>r. launch_rank (lr_state r)" 4 for lc
proof
  fix c i r assume m: "mergeLaunchRecord lc c i = Inr r"
  note cases = mergeLaunchRecord_cases [OF m]
  show "same_launch lc c r" using cases by (auto simp: same_launch_def)
  show "launch_rank (lr_state c) \<le> launch_rank (lr_state r)" using cases by auto
  show "launch_rank (lr_state c) = 4 \<Longrightarrow> r = c" using cases by (auto simp: launch_terminal_rank)
  show "mergeLaunchRecord lc r i = Inr r" using cases m mergeLaunchRecord_self by auto
qed (auto simp: same_launch_def intro: sameCanonicalJson_trans)

interpretation archive_merge: monotone_merge "mergeArchiveRecord lc" "same_archive lc"
  "\<lambda>r. archive_rank (ar_state r)" 2 for lc
proof
  fix c i r assume m: "mergeArchiveRecord lc c i = Inr r"
  note cases = mergeArchiveRecord_cases [OF m]
  show "same_archive lc c r" using cases by (auto simp: same_archive_def)
  show "archive_rank (ar_state c) \<le> archive_rank (ar_state r)" using cases by auto
  show "archive_rank (ar_state c) = 2 \<Longrightarrow> r = c" using cases by (auto simp: archive_terminal_rank)
  have "mergeArchiveRecord lc i i = Inr i" by (simp add: mergeArchiveRecord_def)
  with cases m show "mergeArchiveRecord lc r i = Inr r" by auto
qed (auto simp: same_archive_def intro: sameCanonicalJson_trans)

text \<open>Time stamps of a journal entry never go back.\<close>

definition time_le :: "string \<Rightarrow> string \<Rightarrow> bool" where
  "time_le a b \<longleftrightarrow> (case (date_parse a, date_parse b) of (Some x, Some y) \<Rightarrow> x \<le> y | _ \<Rightarrow> False)"

definition timed :: "string \<Rightarrow> bool" where
  "timed a \<longleftrightarrow> date_parse a \<noteq> None"

lemma time_le_trans: "time_le a b \<Longrightarrow> time_le b c \<Longrightarrow> time_le a c"
  by (auto simp: time_le_def split: option.splits)

lemma time_le_refl: "timed a \<Longrightarrow> time_le a a"
  by (auto simp: time_le_def timed_def split: option.split)

lemma not_neg_time_le: "timed a \<Longrightarrow> timed b \<Longrightarrow> \<not> neg_time (compareOperationTimestamp b a) \<Longrightarrow> time_le a b"
  by (auto simp: time_le_def timed_def neg_time_def compareOperationTimestamp_def sgn_if split: option.splits if_splits)

lemma mergeLaunchRecord_schema: "mergeLaunchRecord lc c i = Inr r \<Longrightarrow> launchRecordSchema c \<Longrightarrow> launchRecordSchema r"
  using mergeLaunchRecord_cases [of lc c i r] by blast

lemma mergeLaunchRecord_time:
  assumes "mergeLaunchRecord lc c i = Inr r" "timed (lr_updatedAt c)" "timed (lr_updatedAt i)"
  shows "timed (lr_updatedAt r) \<and> time_le (lr_updatedAt c) (lr_updatedAt r)"
  using mergeLaunchRecord_cases [OF assms(1)] assms(2,3)
  by (cases "r = c") (auto simp: adopt_launch_def intro: time_le_refl not_neg_time_le split: if_splits)

lemma mergeArchiveRecord_schema:
  "mergeArchiveRecord lc c i = Inr r \<Longrightarrow> archiveRecordSchema c \<Longrightarrow> archiveRecordSchema i \<Longrightarrow> archiveRecordSchema r"
  using mergeArchiveRecord_cases [of lc c i r] by blast

lemma mergeArchiveRecord_time:
  assumes "mergeArchiveRecord lc c i = Inr r" "timed (ar_updatedAt c)" "timed (ar_updatedAt i)"
  shows "timed (ar_updatedAt r) \<and> time_le (ar_updatedAt c) (ar_updatedAt r)"
  using mergeArchiveRecord_cases [OF assms(1)] assms(2,3)
  by (cases "r = c") (auto intro: time_le_refl not_neg_time_le)

lemma journal_times:
  assumes "\<And>c i r. P c \<Longrightarrow> Q i \<Longrightarrow> merge c i = Inr r \<Longrightarrow> P r \<and> time_le (upd c) (upd r)"
    and "P c" "\<forall>i \<in> set is. Q i" "\<And>c. P c \<Longrightarrow> timed (upd c)"
  shows "P (journal merge c is) \<and> time_le (upd c) (upd (journal merge c is))"
  using assms(2,3)
proof (induction "is" arbitrary: c)
  case Nil
  then show ?case using assms(4) by (simp add: time_le_refl)
next
  case (Cons i "is")
  have "P (observe merge c i) \<and> time_le (upd c) (upd (observe merge c i))"
    using assms(1) [of c i] assms(4) [of c] Cons.prems
    by (auto simp: observe_def time_le_refl split: sum.split)
  with Cons.IH [of "observe merge c i"] Cons.prems show ?case
    by (auto intro: time_le_trans)
qed


lemma interaction_journal_first:
  assumes "interaction_ok c" "\<forall>i \<in> set is. interaction_ok i" "ir_state c = IPending"
  shows "journal (mergeInteractionRecord lc) c is =
    (case filter (\<lambda>i. same_interaction lc c i \<and> ir_state i \<noteq> IPending) is of [] \<Rightarrow> c | i # _ \<Rightarrow> i)"
  using assms
proof (induction "is")
  case (Cons i "is")
  have eq: "observe (mergeInteractionRecord lc) c i =
      (if same_interaction lc c i \<and> ir_state i \<noteq> IPending then i else c)"
    using Cons.prems by (simp add: interaction_merge.observe_eq interaction_rank_def)
  show ?case
  proof (cases "same_interaction lc c i \<and> ir_state i \<noteq> IPending")
    case True
    with eq show ?thesis by (simp add: interaction_merge.journal_top interaction_rank_def)
  next
    case False
    with Cons eq show ?thesis by auto
  qed
qed simp

subsection \<open>Properties\<close>

definition demo_command :: "command_state \<Rightarrow> json option \<Rightarrow> command_record" where
  "demo_command s res = \<lparr>cr_commandId = ''cmd1'', cr_payloadHash = ''h'', cr_sessionId = Some ''s1'',
     cr_runtimeNodeId = ''rn1'', cr_state = s, cr_request = JObj [(''prompt'', JStr ''go'')],
     cr_result = res, cr_error = None, cr_createdAt = ''2025-01-01T00:00:00Z'',
     cr_updatedAt = ''2025-01-01T00:00:00Z''\<rparr>"



text \<open>whatever observations a command's journal entry receives, the request it belongs to and
  its creation time stay, it never goes back to an earlier stage, a settled outcome is never
  replaced (with recovery enabled \<open>outcomeUnknown\<close> is not settled), and an observation it has
  already taken into account changes nothing when it arrives again, however late.\<close>

theorem command_journal_safe:
  fixes lc :: collation and recover :: bool
  assumes "command_ok c" and "\<forall>i \<in> set xs. command_ok i"
  defines "r \<equiv> journal (mergeCommandRecord lc recover) c xs"
  shows "sameCommandRequest lc c r \<and> cr_createdAt r = cr_createdAt c \<and>
    command_rank recover c \<le> command_rank recover r \<and>
    (cr_state c = CSucceeded \<or> cr_state c = CFailed \<or> (cr_state c = COutcomeUnknown \<and> \<not> recover) \<longrightarrow> r = c) \<and>
    (\<forall>i \<in> set xs. journal (mergeCommandRecord lc recover) c (xs @ [i]) = r)"
proof -
  have "cr_createdAt r = cr_createdAt c"
    unfolding r_def by (rule command_merge.journal_invariant [where P = "\<lambda>x. cr_createdAt x = cr_createdAt c"])
      (auto dest!: mergeCommandRecord_advance simp: adopt_command_def)
  moreover have "r = c"
    if "cr_state c = CSucceeded \<or> cr_state c = CFailed \<or> (cr_state c = COutcomeUnknown \<and> \<not> recover)"
    unfolding r_def by (rule command_merge.journal_top) (use that in \<open>auto simp: command_rank_def\<close>)
  moreover have "journal (mergeCommandRecord lc recover) c (xs @ [i]) = r" if "i \<in> set xs" for i
    unfolding r_def by (rule command_merge.journal_absorbs) (use assms(1,2) that in auto)
  ultimately show ?thesis
    using command_merge.journal_ident [of lc c recover xs] command_merge.journal_rank [of recover c lc xs]
    by (simp add: r_def)
qed

theorem command_journal_safe_witness:
  "cr_state (journal (mergeCommandRecord (\<lambda>_ _. 0) False) (demo_command COutcomeUnknown None)
     [demo_command CSucceeded None, demo_command CStarted None]) = COutcomeUnknown"
proof -
  have "command_ok (demo_command COutcomeUnknown None)"
    "\<forall>i \<in> set [demo_command CSucceeded None, demo_command CStarted None]. command_ok i"
    by code_simp+
  from command_journal_safe [OF this, of "\<lambda>_ _. 0" False] show ?thesis
    by (simp add: demo_command_def)
qed

definition demo_interaction :: "interaction_state \<Rightarrow> json option \<Rightarrow> interaction_record" where
  "demo_interaction s res = \<lparr>ir_interactionId = ''in1'', ir_sessionId = ''s1'', ir_harness = ''codex'',
     ir_runtimeEpoch = ''e1'', ir_nativeRequestId = None, ir_requestType = ''approval'',
     ir_payload = JObj [(''cmd'', JStr ''ls'')], ir_ephemeral = False, ir_state = s, ir_resolution = res,
     ir_createdAt = ''2025-01-01T00:00:00Z'', ir_expiresAt = None, ir_resolvedAt = None\<rparr>"

text \<open>a pending interaction is answered once. After any observations the entry holds the first
  one that belongs to the interaction and is not pending (resolved, expired or stale), and the
  pending record itself when there is none; later answers are refused.\<close>

theorem interaction_first_answer_wins:
  assumes "interaction_ok c" and "\<forall>i \<in> set is. interaction_ok i" and "ir_state c = IPending"
  shows "journal (mergeInteractionRecord lc) c is =
    (case filter (\<lambda>i. same_interaction lc c i \<and> ir_state i \<noteq> IPending) is of [] \<Rightarrow> c | i # _ \<Rightarrow> i)"
  by (rule interaction_journal_first) (use assms in auto)

theorem interaction_first_answer_wins_witness:
  "journal (mergeInteractionRecord (\<lambda>_ _. 0)) (demo_interaction IPending None)
     [demo_interaction IPending None, demo_interaction IResolved (Some (JBool True)),
      demo_interaction IExpired None] = demo_interaction IResolved (Some (JBool True))"
proof -
  have ok: "interaction_ok (demo_interaction IPending None)"
    "\<forall>i \<in> set [demo_interaction IPending None, demo_interaction IResolved (Some (JBool True)),
      demo_interaction IExpired None]. interaction_ok i"
    by code_simp+
  have pending: "ir_state (demo_interaction IPending None) = IPending" by (simp add: demo_interaction_def)
  have same: "same_interaction lc (demo_interaction s v) (demo_interaction t w)" for lc s t v w
    by (simp add: same_interaction_def interaction_identity_def demo_interaction_def)
  show ?thesis
    using interaction_first_answer_wins [OF ok pending, of "\<lambda>_ _. 0"] same
    by (simp add: demo_interaction_def)
qed

definition demo_launch :: "launch_state \<Rightarrow> string \<Rightarrow> launch_record" where
  "demo_launch s upd = \<lparr>lq_launchId = ''l1'', lq_payloadHash = ''h'', lq_sessionId = ''s1'',
     lq_runtimeNodeId = ''rn1'', lq_profile = \<lparr>lp_profileId = ''p'', lp_providerId = ''pr'',
       lp_contractVersion = 1, lp_requestSchemaHash = ''x''\<rparr>, lq_harness = ''codex'',
     lq_input = [], lq_metadata = None, lr_implementationVersion = ''1'', lr_state = s,
     lr_result = (if s = LSucceeded then Some \<lparr>ls_sessionId = ''s1'', ls_adapterScopeId = ''a'',
       ls_vendorSessionId = ''v'', ls_backendId = ''b'', ls_bindingRevision = 1\<rparr> else None),
     lr_statusMessage = None, lr_error = (if s = LFailed \<or> s = LOutcomeUnknown then Some ''e'' else None),
     lr_createdAt = ''2025-01-01T00:00:00Z'', lr_updatedAt = upd\<rparr>"

text \<open>whatever observations a launch's journal entry receives, its request, profile,
  implementation version and creation time stay, it remains a valid record (a result exactly when
  it succeeded, an error exactly when it failed or is unknown), it never returns to an earlier
  stage nor to an earlier update time, a settled launch never changes, and an observation
  delivered twice in a row counts once.\<close>

theorem launch_journal_safe:
  fixes lc :: collation
  assumes "launchRecordSchema c" and "timed (lr_updatedAt c)" and "\<forall>i \<in> set is. timed (lr_updatedAt i)"
  defines "r \<equiv> journal (mergeLaunchRecord lc) c is"
  shows "same_launch lc c r \<and> launchRecordSchema r \<and>
    launch_rank (lr_state c) \<le> launch_rank (lr_state r) \<and> time_le (lr_updatedAt c) (lr_updatedAt r) \<and>
    (launch_terminal (lr_state c) \<longrightarrow> r = c) \<and>
    (\<forall>i. journal (mergeLaunchRecord lc) c (is @ [i, i]) = journal (mergeLaunchRecord lc) c (is @ [i]))"
proof -
  have "launchRecordSchema r"
    unfolding r_def by (rule launch_merge.journal_invariant [where P = launchRecordSchema])
      (use assms(1) mergeLaunchRecord_schema in auto)
  moreover have "time_le (lr_updatedAt c) (lr_updatedAt r)"
    using journal_times [where P = "\<lambda>x. timed (lr_updatedAt x)" and Q = "\<lambda>x. timed (lr_updatedAt x)"
        and upd = lr_updatedAt and merge = "mergeLaunchRecord lc"] assms mergeLaunchRecord_time
    by (auto simp: r_def)
  moreover have "launch_terminal (lr_state c) \<longrightarrow> r = c"
    by (simp add: r_def launch_terminal_rank launch_merge.journal_top)
  ultimately show ?thesis
    using launch_merge.journal_ident [of lc c "is"] launch_merge.journal_rank [of c lc "is"]
      launch_merge.journal_duplicate [of lc c "is" _ "[]"]
    by (simp add: r_def)
qed

theorem launch_journal_safe_witness:
  "lr_state (journal (mergeLaunchRecord (\<lambda>_ _. 0)) (demo_launch LSucceeded ''2025-01-01T00:00:05Z'')
     [demo_launch LFailed ''2025-01-01T00:00:09Z'', demo_launch LPreparing ''2025-01-01T00:00:01Z'']) = LSucceeded"
proof -
  have "launchRecordSchema (demo_launch LSucceeded ''2025-01-01T00:00:05Z'')"
    "timed (lr_updatedAt (demo_launch LSucceeded ''2025-01-01T00:00:05Z''))"
    "\<forall>i \<in> set [demo_launch LFailed ''2025-01-01T00:00:09Z'', demo_launch LPreparing ''2025-01-01T00:00:01Z''].
       timed (lr_updatedAt i)"
    by code_simp+
  from launch_journal_safe [OF this, of "\<lambda>_ _. 0"] show ?thesis
    by (simp add: demo_launch_def launch_terminal_def)
qed

definition demo_archive :: "archive_state \<Rightarrow> string \<Rightarrow> archive_record" where
  "demo_archive s upd = \<lparr>aq_archiveOperationId = ''a1'', aq_payloadHash = ''h'', aq_sessionId = ''s1'',
     aq_runtimeNodeId = ''rn1'', aq_bindingRevision = 1, aq_expectedAuthority = demo_authority,
     ar_authority = demo_authority, ar_state = s,
     ar_releasedAt = (if s = ASucceeded then Some upd else None),
     ar_catalogRevision = (if s = ASucceeded then Some 7 else None),
     ar_error = (if s = AFailed \<or> s = AOutcomeUnknown then Some ''e'' else None),
     ar_createdAt = ''2025-01-01T00:00:00Z'', ar_updatedAt = upd\<rparr>"

text \<open>the same for archives: identity (with the authority the archive is fenced to), validity,
  stage and update time are kept or advance, settled archives never change, and a repeated
  observation counts once.\<close>

theorem archive_journal_safe:
  fixes lc :: collation
  assumes "archiveRecordSchema c" and "timed (ar_updatedAt c)"
    and "\<forall>i \<in> set is. archiveRecordSchema i \<and> timed (ar_updatedAt i)"
  defines "r \<equiv> journal (mergeArchiveRecord lc) c is"
  shows "same_archive lc c r \<and> archiveRecordSchema r \<and>
    archive_rank (ar_state c) \<le> archive_rank (ar_state r) \<and> time_le (ar_updatedAt c) (ar_updatedAt r) \<and>
    (archive_terminal (ar_state c) \<longrightarrow> r = c) \<and>
    (\<forall>i. journal (mergeArchiveRecord lc) c (is @ [i, i]) = journal (mergeArchiveRecord lc) c (is @ [i]))"
proof -
  have "(archiveRecordSchema r \<and> timed (ar_updatedAt r)) \<and> time_le (ar_updatedAt c) (ar_updatedAt r)"
    unfolding r_def
    by (rule journal_times [where P = "\<lambda>x. archiveRecordSchema x \<and> timed (ar_updatedAt x)"
        and Q = "\<lambda>x. archiveRecordSchema x \<and> timed (ar_updatedAt x)" and upd = ar_updatedAt])
      (use assms mergeArchiveRecord_time mergeArchiveRecord_schema in blast)+
  moreover have "archive_terminal (ar_state c) \<longrightarrow> r = c"
    by (simp add: r_def archive_terminal_rank archive_merge.journal_top)
  ultimately show ?thesis
    using archive_merge.journal_ident [of lc c "is"] archive_merge.journal_rank [of c lc "is"]
      archive_merge.journal_duplicate [of lc c "is" _ "[]"]
    by (simp add: r_def)
qed

theorem archive_journal_safe_witness:
  "ar_state (journal (mergeArchiveRecord (\<lambda>_ _. 0)) (demo_archive ASucceeded ''2025-01-01T00:00:05Z'')
     [demo_archive AFailed ''2025-01-01T00:00:09Z'', demo_archive AReleasing ''2025-01-01T00:00:01Z'']) = ASucceeded"
proof -
  have "archiveRecordSchema (demo_archive ASucceeded ''2025-01-01T00:00:05Z'')"
    "timed (ar_updatedAt (demo_archive ASucceeded ''2025-01-01T00:00:05Z''))"
    "\<forall>i \<in> set [demo_archive AFailed ''2025-01-01T00:00:09Z'', demo_archive AReleasing ''2025-01-01T00:00:01Z''].
       archiveRecordSchema i \<and> timed (ar_updatedAt i)"
    by code_simp+
  from archive_journal_safe [OF this, of "\<lambda>_ _. 0"] show ?thesis
    by (simp add: demo_archive_def archive_terminal_def)
qed

end
