(* ===== verification/Control_State.thy ===== *)
theory Control_State
  imports Lifecycle
begin

text \<open>
  The state of a control node's catalog: protocol records of sessions, nodes, attachments, roles
  and receipts (\<^verbatim>\<open>packages/protocol/src/{session,control-node,runtime-node,authority,stream}.ts\<close>),
  the tables of \<^verbatim>\<open>packages/control-node-core/src/catalog.ts\<close>, and its row-level helpers
  (\<open>#put...\<close>, \<open>#projectionSource\<close>).

  One SQLite transaction is a function from the catalog to an error or a new catalog; an error
  leaves the caller with the old one, which is the rollback. A row keeps the record and the
  \<open>projection_source\<close> column; the other columns repeat fields of the record. Rows are read back
  as they were written, since every write parses the record with its schema.
\<close>

subsection \<open>Roles, attachments and receipts\<close>

datatype branch_state =
    Attached string string string string
    \<comment> \<open>parent, attachment, lineage, attachedAt\<close>
  | Detached string string string string string
    \<comment> \<open>former parent, attachment, lineage, attachedAt, detachedAt\<close>

datatype data_role =
    Authority authority_ref
  | Branch authority_ref branch_state

fun role_authority :: "data_role \<Rightarrow> authority_ref" where
  "role_authority (Authority a) = a"
| "role_authority (Branch a b) = a"

fun is_branch :: "data_role \<Rightarrow> bool" where
  "is_branch (Authority a) = False"
| "is_branch (Branch a b) = True"

fun is_attached :: "data_role \<Rightarrow> bool" where
  "is_attached (Branch a (Attached p i l t)) = True"
| "is_attached r = False"

record attachment =
  at_attachmentId :: string
  at_lineageId :: string
  at_parent :: string
  at_child :: string
  at_authority :: authority_ref
  at_attachedAt :: string

definition controlNodeAttachmentSchema :: "attachment \<Rightarrow> bool" where
  "controlNodeAttachmentSchema a \<longleftrightarrow> at_parent a \<noteq> at_child a"

record transition_audit =
  ta_actorId :: string
  ta_reason :: string
  ta_incidentId :: "string option"
  ta_evidence :: "json list"
  ta_requestedAt :: string

datatype detach_mode = Graceful nat | Forced transition_audit "string list"

record detachment_receipt =
  dr_transitionId :: string
  dr_mode :: detach_mode
  dr_child :: string
  dr_formerParent :: string
  dr_attachmentId :: string
  dr_lineageId :: string
  dr_previousAuthority :: authority_ref
  dr_detachedAt :: string

definition topologyDetachmentReceiptSchema :: "detachment_receipt \<Rightarrow> bool" where
  "topologyDetachmentReceiptSchema r \<longleftrightarrow>
     (case dr_mode r of Graceful n \<Rightarrow> True | Forced a ids \<Rightarrow> length ids \<le> 10000)"

record promotion_receipt =
  pr_transitionId :: string
  pr_controlNodeId :: string
  pr_previousAuthority :: authority_ref
  pr_authority :: authority_ref
  pr_detachmentTransitionId :: string
  pr_promotedAt :: string
  pr_audit :: "transition_audit option"

definition authorityPromotionReceiptSchema :: "promotion_receipt \<Rightarrow> bool" where
  "authorityPromotionReceiptSchema r \<longleftrightarrow>
     au_controlNodeId (pr_authority r) = pr_controlNodeId r \<and>
     au_realmId (pr_authority r) \<noteq> au_realmId (pr_previousAuthority r) \<and>
     au_epochId (pr_authority r) \<noteq> au_epochId (pr_previousAuthority r)"

datatype transition_kind = KAttached | KDetached | KForcedDetached | KPromoted

datatype transition_receipt =
    DetachReceipt detachment_receipt
  | PromoteReceipt promotion_receipt
  | AttachReceipt attachment

record role_transition =
  rt_transitionId :: string
  rt_kind :: transition_kind
  rt_before :: data_role
  rt_after :: data_role
  rt_receipt :: transition_receipt
  rt_committedAt :: string

text \<open>A role as JSON, for the comparisons by canonical text.\<close>

fun branch_json :: "branch_state \<Rightarrow> json" where
  "branch_json (Attached p i l t) = JObj [(''lifecycle'', JStr ''attached''), (''parentControlNodeId'', JStr p),
     (''attachmentId'', JStr i), (''lineageId'', JStr l), (''attachedAt'', JStr t)]"
| "branch_json (Detached p i l t d) = JObj [(''lifecycle'', JStr ''detached''),
     (''formerParentControlNodeId'', JStr p), (''attachmentId'', JStr i), (''lineageId'', JStr l),
     (''attachedAt'', JStr t), (''detachedAt'', JStr d)]"

fun role_json :: "data_role \<Rightarrow> json" where
  "role_json (Authority a) = JObj [(''role'', JStr ''authority''), (''authority'', authority_json a)]"
| "role_json (Branch a b) = JObj [(''role'', JStr ''branch''), (''authority'', authority_json a),
     (''branch'', branch_json b)]"

subsection \<open>Nodes\<close>

datatype presence = Online | Offline | Stale
datatype reachability = Reachable | Unreachable | StaleRoute

record control_node =
  cn_controlNodeId :: string
  cn_bootId :: string
  cn_feedId :: string
  cn_name :: string
  cn_endpointId :: "string option"
  cn_presence :: presence
  cn_dataRole :: data_role
  cn_connectedAt :: "string option"
  cn_lastHeartbeatAt :: "string option"
  cn_capabilities :: "string list"

definition controlNodeDescriptorSchema :: "control_node \<Rightarrow> bool" where
  "controlNodeDescriptorSchema n \<longleftrightarrow>
     (case cn_dataRole n of
        Authority a \<Rightarrow> au_controlNodeId a = cn_controlNodeId n
      | Branch a (Attached p i l t) \<Rightarrow> p \<noteq> cn_controlNodeId n
      | Branch a (Detached p i l t d) \<Rightarrow> True)"

record runtime_node =
  rn_runtimeNodeId :: string
  rn_bootId :: string
  rn_owner :: string
  rn_name :: string
  rn_endpointId :: "string option"
  rn_presence :: presence
  rn_reachability :: reachability
  rn_connectedAt :: "string option"
  rn_lastHeartbeatAt :: "string option"
  rn_allowedRoots :: "string list"
  rn_harnesses :: "json list"
  rn_launchProfiles :: "json list"

subsection \<open>Sessions\<close>

datatype availability = Active | Resumable | Unavailable
datatype runtime_status = Idle | Running | WaitingForInput | Stopped | ErrorStatus | UnknownStatus
datatype catalog_state = Open | Archived

record launch_provenance =
  pv_launchId :: string
  pv_profileId :: string
  pv_providerId :: string
  pv_backendId :: string
  pv_contractVersion :: nat
  pv_requestSchemaHash :: string
  pv_implementationVersion :: string

record session =
  se_sessionId :: string
  se_runtimeNodeId :: string
  se_harness :: string
  se_adapterScopeId :: string
  se_vendorSessionId :: string
  se_bindingRevision :: nat
  se_runtimeEpoch :: "string option"
  se_cwd :: "string option"
  se_availability :: availability
  se_runtimeStatus :: runtime_status
  se_harnessSettings :: "json option"
  se_nativeSummary :: "json option"
  se_launchProvenance :: "launch_provenance option"
  se_metadata :: metadata_snapshot
  se_createdAt :: string
  se_updatedAt :: string
  se_lastSeenAt :: "string option"
  se_lastActivityAt :: "string option"
  se_metadataAuthority :: authority_ref
  se_catalogState :: catalog_state
  se_catalogRevision :: nat
  se_archivedAt :: "string option"

definition sessionRecordSchema :: "session \<Rightarrow> bool" where
  "sessionRecordSchema s \<longleftrightarrow>
     0 < se_bindingRevision s \<and> 0 < se_catalogRevision s \<and> metadataSnapshotSchema (se_metadata s) \<and>
     \<not> (se_catalogState s = Archived \<and> se_archivedAt s = None) \<and>
     \<not> (se_catalogState s = Open \<and> se_archivedAt s \<noteq> None) \<and>
     \<not> (se_catalogState s = Archived \<and> se_availability s = Active)"

definition native_key :: "session \<Rightarrow> string \<times> string \<times> string \<times> string" where
  "native_key s = (se_runtimeNodeId s, se_harness s, se_adapterScopeId s, se_vendorSessionId s)"

record native_item =
  ni_harness :: string
  ni_adapterScopeId :: string
  ni_vendorSessionId :: string
  ni_cwd :: "string option"
  ni_availability :: availability
  ni_runtimeStatus :: runtime_status
  ni_runtimeEpoch :: "string option"
  ni_harnessSettings :: "json option"
  ni_nativeSummary :: "json option"
  ni_lastActivityAt :: "string option"

record inventory_snapshot =
  iv_runtimeNodeId :: string
  iv_generation :: string
  iv_complete :: bool
  iv_capturedAt :: string
  iv_sessions :: "native_item list"

text \<open>An inventory item is active or resumable.\<close>

definition inventorySnapshotSchema :: "inventory_snapshot \<Rightarrow> bool" where
  "inventorySnapshotSchema v \<longleftrightarrow> list_all (\<lambda>i. ni_availability i \<noteq> Unavailable) (iv_sessions v)"

subsection \<open>The control feed\<close>

datatype control_change =
    NodeUpsert control_node
  | NodePresence string presence
  | NodeAttached attachment
  | NodeDetached detachment_receipt
  | AuthorityPromoted promotion_receipt
  | RuntimeUpsert runtime_node
  | RuntimePresence string presence
  | SessionUpsert session
  | LaunchChanged launch_record
  | ArchiveChanged archive_record
  | SessionUnavailable string
  | MetadataChanged string metadata_snapshot
  | MetadataOperation metadata_operation
  | CommandChanged command_record
  | InteractionChanged interaction_record
  | InventoryCompleted string string

fun controlChangeSchema :: "control_change \<Rightarrow> bool" where
  "controlChangeSchema (NodeUpsert n) = controlNodeDescriptorSchema n"
| "controlChangeSchema (NodeAttached a) = controlNodeAttachmentSchema a"
| "controlChangeSchema (NodeDetached r) = topologyDetachmentReceiptSchema r"
| "controlChangeSchema (AuthorityPromoted r) = authorityPromotionReceiptSchema r"
| "controlChangeSchema (SessionUpsert s) = sessionRecordSchema s"
| "controlChangeSchema (LaunchChanged l) = launchRecordSchema l"
| "controlChangeSchema (ArchiveChanged a) = archiveRecordSchema a"
| "controlChangeSchema (MetadataChanged k m) = metadataSnapshotSchema m"
| "controlChangeSchema (MetadataOperation m) = metadataOperationRecordSchema m"
| "controlChangeSchema c = True"

record feed_item =
  fi_eventId :: string
  fi_feedId :: string
  fi_cursor :: nat
  fi_origin :: string
  fi_authority :: authority_ref
  fi_change :: control_change

subsection \<open>The tables\<close>

datatype binding_state = BindPending | BindBound | BindConflicted string

record lifecycle_intent =
  li_runtimeNodeId :: string
  li_sessionId :: string
  li_harness :: string
  li_vendorSessionId :: "string option"
  li_ready :: bool
  li_binding :: binding_state
  li_metadata :: "metadata_values option"
  li_applied :: bool
  li_createdAt :: string

record delivery =
  de_sequence :: nat
  de_destination :: string
  de_identity :: string
  de_operation :: metadata_operation

record peer =
  pe_role :: string
  pe_principalId :: string
  pe_scopes :: "string list"

record checkpoint =
  cp_attachmentId :: string
  cp_feedId :: string
  cp_cursor :: nat

record catalog =
  ca_controlNodeId :: string
  ca_feedId :: string
  ca_retention :: nat
  ca_role :: data_role
  ca_transitions :: "role_transition list"
  ca_desiredUpstream :: "json option"
  ca_upstreamInitialized :: bool
  ca_controlNodes :: "(string, string option \<times> control_node) table"
  ca_attachments :: "(string, bool \<times> attachment) table"
  ca_runtimeNodes :: "(string, string option \<times> runtime_node) table"
  ca_sessions :: "(string, string option \<times> session) table"
  ca_interactions :: "(string, string option \<times> interaction_record) table"
  ca_metadataOps :: "(string, string option \<times> metadata_operation) table"
  ca_outbox :: "string list"
  ca_commands :: "(string, command_record) table"
  ca_intents :: "(string, lifecycle_intent) table"
  ca_launches :: "(string, string option \<times> launch_record) table"
  ca_archives :: "(string, string option \<times> archive_record) table"
  ca_inventories :: "(string, inventory_snapshot) table"
  ca_checkpoints :: "(string, checkpoint) table"
  ca_imported :: "(string, string \<times> nat) table"
  ca_deliveries :: "delivery list"
  ca_nextDelivery :: nat
  ca_peers :: "(string, peer) table"
  ca_lastCursor :: nat
  ca_minCursor :: nat
  ca_events :: "feed_item list"
  ca_published :: nat
  ca_emitted :: "feed_item list"

text \<open>
  \<open>ca_emitted\<close> is what the listeners of \<open>onControl\<close> have received. The environment holds what
  the platform chooses: \<open>localeCompare\<close> and the UUID drawn for the event at a cursor of a feed.
\<close>

record env =
  en_lc :: collation
  en_eventId :: "string \<Rightarrow> nat \<Rightarrow> string"

subsection \<open>Rows\<close>

definition row :: "string \<Rightarrow> (string, string option \<times> 'r) table \<Rightarrow> 'r option" where
  "row k t = map_option snd (map_of t k)"

definition projection_source :: "string \<Rightarrow> (string, string option \<times> 'r) table \<Rightarrow> string option" where
  "projection_source k t = Option.bind (map_of t k) fst"

lemma row_put [simp]: "row k (put k' (p, r) t) = (if k = k' then Some r else row k t)"
  by (simp add: row_def)

lemma projection_source_put [simp]:
  "projection_source k (put k' (p, r) t) = (if k = k' then p else projection_source k t)"
  by (simp add: projection_source_def)

lemma row_Nil [simp]: "row k [] = None" "projection_source k [] = None"
  by (simp_all add: row_def projection_source_def)

lemma row_cases: "row k t = Some r \<longleftrightarrow> (\<exists>p. map_of t k = Some (p, r))"
  by (auto simp: row_def)

definition records :: "(string, string option \<times> 'r) table \<Rightarrow> 'r list" where
  "records t = map (\<lambda>kv. snd (snd kv)) t"

definition authority :: "catalog \<Rightarrow> authority_ref" where
  "authority c = role_authority (ca_role c)"

definition assertAuthority :: "authority_ref \<Rightarrow> catalog \<Rightarrow> bool" where
  "assertAuthority expected c \<longleftrightarrow> sameAuthority expected (authority c)"

definition getControlNode :: "string \<Rightarrow> catalog \<Rightarrow> control_node option" where
  "getControlNode k c = (case row k (ca_controlNodes c) of None \<Rightarrow> None
     | Some n \<Rightarrow> Some (if k = ca_controlNodeId c then n\<lparr>cn_dataRole := ca_role c\<rparr> else n))"

definition listControlNodes :: "catalog \<Rightarrow> control_node list" where
  "listControlNodes c =
     map (\<lambda>n. if cn_controlNodeId n = ca_controlNodeId c then n\<lparr>cn_dataRole := ca_role c\<rparr> else n)
         (sort_le (\<lambda>a b. cn_controlNodeId a \<le> cn_controlNodeId b) (records (ca_controlNodes c)))"

definition coverage :: "catalog \<Rightarrow> string list" where
  "coverage c = map cn_controlNodeId (listControlNodes c)"

definition getAttachment :: "string \<Rightarrow> catalog \<Rightarrow> attachment option" where
  "getAttachment child c =
     (case filter (\<lambda>kv. at_child (snd (snd kv)) = child \<and> fst (snd kv)) (ca_attachments c) of
        [] \<Rightarrow> None | kv # _ \<Rightarrow> Some (snd (snd kv)))"

definition putControlNode :: "control_node \<Rightarrow> string option \<Rightarrow> catalog \<Rightarrow> core_error + catalog" where
  "putControlNode n src c =
     (if controlNodeDescriptorSchema n
      then Inr (c\<lparr>ca_controlNodes := put (cn_controlNodeId n) (src, n) (ca_controlNodes c)\<rparr>)
      else Inl INVALID)"

definition putRuntimeNode :: "runtime_node \<Rightarrow> string option \<Rightarrow> catalog \<Rightarrow> catalog" where
  "putRuntimeNode n src c =
     c\<lparr>ca_runtimeNodes := put (rn_runtimeNodeId n) (src, n) (ca_runtimeNodes c)\<rparr>"

text \<open>\<open>UNIQUE(runtime_node_id, harness, adapter_scope_id, vendor_session_id)\<close>.\<close>

definition native_clash :: "session \<Rightarrow> catalog \<Rightarrow> bool" where
  "native_clash s c \<longleftrightarrow>
     list_ex (\<lambda>kv. fst kv \<noteq> se_sessionId s \<and> native_key (snd (snd kv)) = native_key s) (ca_sessions c)"

definition putSession :: "session \<Rightarrow> string option \<Rightarrow> catalog \<Rightarrow> core_error + catalog" where
  "putSession s src c =
     (if \<not> sessionRecordSchema s then Inl INVALID
      else if native_clash s c then Inl SQLITE_CONSTRAINT
      else Inr (c\<lparr>ca_sessions := put (se_sessionId s) (src, s) (ca_sessions c)\<rparr>))"

definition putLaunch :: "launch_record \<Rightarrow> string option \<Rightarrow> catalog \<Rightarrow> core_error + catalog" where
  "putLaunch l src c =
     (if \<not> launchRecordSchema l then Inl INVALID
      else if list_ex (\<lambda>kv. lq_sessionId (snd (snd kv)) = lq_sessionId l \<and> fst kv \<noteq> lq_launchId l) (ca_launches c)
      then Inl CONFLICT
      else Inr (c\<lparr>ca_launches := put (lq_launchId l) (src, l) (ca_launches c)\<rparr>))"

definition putArchive :: "archive_record \<Rightarrow> string option \<Rightarrow> catalog \<Rightarrow> core_error + catalog" where
  "putArchive a src c =
     (if archiveRecordSchema a
      then Inr (c\<lparr>ca_archives := put (aq_archiveOperationId a) (src, a) (ca_archives c)\<rparr>)
      else Inl INVALID)"

definition putInteraction :: "interaction_record \<Rightarrow> string option \<Rightarrow> catalog \<Rightarrow> catalog" where
  "putInteraction i src c =
     c\<lparr>ca_interactions := put (ir_interactionId i) (src, i) (ca_interactions c)\<rparr>"

definition putMetadataOperation :: "metadata_operation \<Rightarrow> string option \<Rightarrow> catalog \<Rightarrow> core_error + catalog" where
  "putMetadataOperation mo src c =
     (if metadataOperationRecordSchema mo
      then Inr (c\<lparr>ca_metadataOps := put (mo_operationId mo) (src, mo) (ca_metadataOps c)\<rparr>)
      else Inl INVALID)"

definition putCommand :: "command_record \<Rightarrow> catalog \<Rightarrow> catalog" where
  "putCommand r c = c\<lparr>ca_commands := put (cr_commandId r) r (ca_commands c)\<rparr>"

definition getSession :: "string \<Rightarrow> catalog \<Rightarrow> session option" where
  "getSession k c = row k (ca_sessions c)"

definition getMetadataOperation :: "string \<Rightarrow> catalog \<Rightarrow> metadata_operation option" where
  "getMetadataOperation k c = row k (ca_metadataOps c)"

definition getInteraction :: "string \<Rightarrow> catalog \<Rightarrow> interaction_record option" where
  "getInteraction k c = row k (ca_interactions c)"

definition getLaunch :: "string \<Rightarrow> catalog \<Rightarrow> launch_record option" where
  "getLaunch k c = row k (ca_launches c)"

definition getArchive :: "string \<Rightarrow> catalog \<Rightarrow> archive_record option" where
  "getArchive k c = row k (ca_archives c)"

definition getCommand :: "string \<Rightarrow> catalog \<Rightarrow> command_record option" where
  "getCommand k c = map_of (ca_commands c) k"

definition getRuntimeNode :: "string \<Rightarrow> catalog \<Rightarrow> runtime_node option" where
  "getRuntimeNode k c = row k (ca_runtimeNodes c)"

definition localControlNode :: "catalog \<Rightarrow> core_error + control_node" where
  "localControlNode c = (case getControlNode (ca_controlNodeId c) c of
     None \<Rightarrow> Inl NOT_FOUND | Some n \<Rightarrow> Inr (n\<lparr>cn_dataRole := ca_role c\<rparr>))"

end
