(* ===== verification/Source_Coverage.thy ===== *)
theory Source_Coverage
  imports Control_State
begin

text \<open>
  What a control node advertises of its projection: the source manifest, the coverage tree and the
  access snapshot, with every rule of their schemas
  (\<^verbatim>\<open>packages/protocol/src/{source,access-snapshot}.ts\<close>).
\<close>

subsection \<open>Manifest\<close>

record source_manifest =
  sm_sourceControlNodeId :: string
  sm_sourceBootId :: string
  sm_authority :: authority_ref
  sm_projectionRoot :: string
  sm_covered :: "string list"
  sm_feedId :: string
  sm_controlCursor :: nat
  sm_generatedAt :: string
  sm_capabilities :: "string list"

definition sourceManifestSchema :: "source_manifest \<Rightarrow> bool" where
  "sourceManifestSchema m \<longleftrightarrow>
     sm_covered m \<noteq> [] \<and>
     sm_sourceControlNodeId m = sm_projectionRoot m \<and>
     \<not> (au_controlNodeId (sm_authority m) \<noteq> sm_projectionRoot m \<and> au_controlNodeId (sm_authority m) \<in> set (sm_covered m)) \<and>
     distinct (sm_covered m) \<and>
     sm_projectionRoot m \<in> set (sm_covered m) \<and>
     sm_sourceControlNodeId m \<in> set (sm_covered m)"

subsection \<open>The coverage tree\<close>

type_synonym parents = "(string, string option) table"

definition parent_of :: "parents \<Rightarrow> string \<Rightarrow> string option" where
  "parent_of ps k = Option.bind (map_of ps k) id"

definition parent_nodes :: "parents \<Rightarrow> string set" where
  "parent_nodes ps = fst ` set ps \<union> {p. Some p \<in> snd ` set ps}"

lemma finite_parent_nodes: "finite (parent_nodes ps)"
proof -
  have "{p. Some p \<in> snd ` set ps} \<subseteq> the ` snd ` set ps" by force
  then have "finite {p. Some p \<in> snd ` set ps}" by (rule finite_subset) simp
  then show ?thesis by (simp add: parent_nodes_def)
qed

lemma parent_of_node: "parent_of ps k = Some p \<Longrightarrow> k \<in> parent_nodes ps \<and> p \<in> parent_nodes ps"
  by (auto simp: parent_of_def parent_nodes_def bind_eq_Some_conv dest!: map_of_SomeD intro: rev_image_eqI)

definition walk_measure :: "parents \<times> string \<times> string list \<times> string option \<Rightarrow> nat" where
  "walk_measure a = (case a of (ps, root, visited, current) \<Rightarrow>
     (case current of None \<Rightarrow> 0
      | Some k \<Rightarrow> if k \<in> parent_nodes ps then Suc (card (parent_nodes ps - set visited)) else 1))"

text \<open>The walk with its \<open>visited\<close> set: \<open>True\<close> when it comes to a node a second time.\<close>

function walk_cycles :: "parents \<Rightarrow> string \<Rightarrow> string list \<Rightarrow> string option \<Rightarrow> bool" where
  "walk_cycles ps root visited current =
     (case current of
        None \<Rightarrow> False
      | Some k \<Rightarrow>
          if k = root then False
          else if k \<in> set visited then True
          else walk_cycles ps root (k # visited) (parent_of ps k))"
  by pat_completeness auto

termination
proof (relation "measure walk_measure")
  fix ps :: parents and root k :: string and visited :: "string list" and current :: "string option"
  assume k: "current = Some k" "k \<notin> set visited"
  show "((ps, root, k # visited, parent_of ps k), ps, root, visited, current) \<in> measure walk_measure"
  proof (cases "parent_of ps k")
    case None
    then show ?thesis by (simp add: walk_measure_def k(1))
  next
    case (Some p)
    then have "k \<in> parent_nodes ps - set visited" "p \<in> parent_nodes ps"
      using parent_of_node k(2) by blast+
    moreover have "parent_nodes ps - set (k # visited) = parent_nodes ps - set visited - {k}" by auto
    ultimately show ?thesis
      using Some card_Diff1_less [of "parent_nodes ps - set visited" k] finite_parent_nodes [of ps]
      by (simp add: walk_measure_def k(1))
  qed
qed simp

declare walk_cycles.simps [simp del]

definition parent_edge_ok :: "source_manifest \<Rightarrow> string \<times> string option \<Rightarrow> bool" where
  "parent_edge_ok m e \<longleftrightarrow>
     (if fst e = sm_projectionRoot m then snd e = None
      else case snd e of None \<Rightarrow> False | Some p \<Rightarrow> p \<in> set (sm_covered m))"

definition sourceCoverageSnapshotSchema :: "source_manifest \<Rightarrow> parents \<Rightarrow> bool" where
  "sourceCoverageSnapshotSchema m ps \<longleftrightarrow>
     sourceManifestSchema m \<and>
     length ps = card (set (sm_covered m)) \<and> list_all (\<lambda>e. fst e \<in> set (sm_covered m)) ps \<and>
     list_all (parent_edge_ok m) ps \<and>
     \<not> list_ex (\<lambda>k. walk_cycles ps (sm_projectionRoot m) [] (Some k)) (sm_covered m)"

subsection \<open>The access snapshot\<close>

record access_snapshot =
  as_manifest :: source_manifest
  as_parents :: parents
  as_capturedAt :: string
  as_controlNodes :: "control_node list"
  as_runtimeNodes :: "runtime_node list"
  as_sessions :: "session list"
  as_interactions :: "interaction_record list"
  as_metadataOperations :: "metadata_operation list"

definition snapshot_nodes_ok :: "access_snapshot \<Rightarrow> bool" where
  "snapshot_nodes_ok s \<longleftrightarrow>
     distinct (map cn_controlNodeId (as_controlNodes s)) \<and>
     set (sm_covered (as_manifest s)) = set (map cn_controlNodeId (as_controlNodes s))"

definition serving_node_ok :: "access_snapshot \<Rightarrow> bool" where
  "serving_node_ok s \<longleftrightarrow>
     (case filter (\<lambda>n. cn_controlNodeId n = sm_sourceControlNodeId (as_manifest s)) (as_controlNodes s) of
        [] \<Rightarrow> True
      | n # _ \<Rightarrow> cn_bootId n = sm_sourceBootId (as_manifest s) \<and> cn_feedId n = sm_feedId (as_manifest s))"

definition node_edge_ok :: "access_snapshot \<Rightarrow> control_node \<Rightarrow> bool" where
  "node_edge_ok s n \<longleftrightarrow>
     sameAuthority (role_authority (cn_dataRole n)) (sm_authority (as_manifest s)) \<and>
     (if cn_controlNodeId n = sm_projectionRoot (as_manifest s)
      then (case cn_dataRole n of
              Branch a (Attached p i l t) \<Rightarrow> p \<notin> set (sm_covered (as_manifest s))
            | _ \<Rightarrow> True)
      else (case cn_dataRole n of
              Branch a (Attached p i l t) \<Rightarrow> map_of (as_parents s) (cn_controlNodeId n) = Some (Some p)
            | _ \<Rightarrow> False))"

definition snapshot_sessions_ok :: "access_snapshot \<Rightarrow> bool" where
  "snapshot_sessions_ok s \<longleftrightarrow>
     distinct (map se_sessionId (as_sessions s)) \<and>
     distinct (map native_key (as_sessions s)) \<and>
     list_all (\<lambda>x. se_runtimeNodeId x \<in> set (map rn_runtimeNodeId (as_runtimeNodes s)) \<and>
        sameAuthority (se_metadataAuthority x) (sm_authority (as_manifest s))) (as_sessions s)"

definition snapshot_interactions_ok :: "access_snapshot \<Rightarrow> bool" where
  "snapshot_interactions_ok s \<longleftrightarrow>
     distinct (map ir_interactionId (as_interactions s)) \<and>
     list_all (\<lambda>i. case filter (\<lambda>x. se_sessionId x = ir_sessionId i) (as_sessions s) of
        [] \<Rightarrow> False | x # _ \<Rightarrow> ir_harness i = se_harness x) (as_interactions s)"

definition snapshot_operations_ok :: "access_snapshot \<Rightarrow> bool" where
  "snapshot_operations_ok s \<longleftrightarrow>
     distinct (map mo_operationId (as_metadataOperations s)) \<and>
     list_all (\<lambda>mo. mo_sessionId mo \<in> set (map se_sessionId (as_sessions s))) (as_metadataOperations s)"

definition accessSnapshotSchema :: "access_snapshot \<Rightarrow> bool" where
  "accessSnapshotSchema s \<longleftrightarrow>
     sourceCoverageSnapshotSchema (as_manifest s) (as_parents s) \<and>
     list_all controlNodeDescriptorSchema (as_controlNodes s) \<and>
     list_all sessionRecordSchema (as_sessions s) \<and>
     list_all metadataOperationRecordSchema (as_metadataOperations s) \<and>
     snapshot_nodes_ok s \<and> serving_node_ok s \<and> list_all (node_edge_ok s) (as_controlNodes s) \<and>
     distinct (map rn_runtimeNodeId (as_runtimeNodes s)) \<and>
     list_all (\<lambda>r. rn_owner r \<in> set (sm_covered (as_manifest s))) (as_runtimeNodes s) \<and>
     snapshot_sessions_ok s \<and> snapshot_interactions_ok s \<and> snapshot_operations_ok s"

subsection \<open>An accepted coverage is a tree\<close>

fun ancestor :: "parents \<Rightarrow> nat \<Rightarrow> string \<Rightarrow> string option" where
  "ancestor ps 0 k = Some k"
| "ancestor ps (Suc n) k = Option.bind (parent_of ps k) (ancestor ps n)"


lemma walk_reaches_root:
  assumes "\<not> walk_cycles ps root visited current"
    and "\<And>j. j \<in> C \<Longrightarrow> j \<noteq> root \<Longrightarrow> \<exists>p \<in> C. parent_of ps j = Some p"
    and "current = Some k" "k \<in> C"
  shows "\<exists>n. ancestor ps n k = Some root"
  using assms
proof (induction ps root visited current arbitrary: k rule: walk_cycles.induct)
  case (1 ps root visited current)
  show ?case
  proof (cases "k = root")
    case True
    then have "ancestor ps 0 k = Some root" by simp
    then show ?thesis ..
  next
    case False
    with "1.prems"(2,4) obtain p where p: "p \<in> C" "parent_of ps k = Some p" by blast
    from "1.prems"(1,3) False have next': "k \<notin> set visited" "\<not> walk_cycles ps root (k # visited) (parent_of ps k)"
      by (subst (asm) walk_cycles.simps, simp split: if_splits)+
    from "1.IH" [OF "1.prems"(3) False next'(1) next'(2) "1.prems"(2) p(2) p(1)]
    obtain n where "ancestor ps n p = Some root" by auto
    then have "ancestor ps (Suc n) k = Some root" using p(2) by simp
    then show ?thesis ..
  qed
qed

definition depth_at :: "parents \<Rightarrow> string \<Rightarrow> nat \<Rightarrow> string \<Rightarrow> bool" where
  "depth_at ps root n k \<longleftrightarrow> ancestor ps n k = Some root \<and> (\<forall>m < n. ancestor ps m k \<noteq> Some root)"

lemma depth_unique: "depth_at ps root n k \<Longrightarrow> depth_at ps root m k \<Longrightarrow> n = m"
  unfolding depth_at_def by (metis linorder_less_linear)

lemma depth_exists: "ancestor ps n k = Some root \<Longrightarrow> \<exists>m. depth_at ps root m k"
  unfolding depth_at_def by (rule exI [of _ "LEAST m. ancestor ps m k = Some root"])
    (auto intro: LeastI dest: not_less_Least)

lemma walk_no_cycle:
  assumes "depth_at ps root n k" "\<And>v m. v \<in> set visited \<Longrightarrow> depth_at ps root m v \<Longrightarrow> n < m"
  shows "\<not> walk_cycles ps root visited (Some k)"
  using assms
proof (induction n arbitrary: k visited)
  case 0
  then have "k = root" by (simp add: depth_at_def)
  then show ?case by (simp add: walk_cycles.simps)
next
  case (Suc n)
  from Suc.prems(1) have "ancestor ps 0 k \<noteq> Some root" unfolding depth_at_def by blast
  then have ne: "k \<noteq> root" by simp
  have fresh: "k \<notin> set visited" using Suc.prems by blast
  from Suc.prems(1) obtain p where p: "parent_of ps k = Some p" "ancestor ps n p = Some root"
    by (auto simp: depth_at_def bind_eq_Some_conv)
  have "ancestor ps m p \<noteq> Some root" if "m < n" for m
  proof -
    have "ancestor ps (Suc m) k \<noteq> Some root" using Suc.prems(1) that by (simp add: depth_at_def del: ancestor.simps)
    with p(1) show ?thesis by simp
  qed
  with p(2) have "depth_at ps root n p" by (simp add: depth_at_def)
  then have "\<not> walk_cycles ps root (k # visited) (Some p)"
  proof (rule Suc.IH)
    fix v m assume "v \<in> set (k # visited)" "depth_at ps root m v"
    with Suc.prems depth_unique show "n < m" by (metis Suc_lessD lessI set_ConsD)
  qed
  with ne fresh p(1) show ?case by (subst walk_cycles.simps) simp
qed

lemma edges_cover:
  assumes "length ps = card (set (sm_covered m))" "list_all (\<lambda>e. fst e \<in> set (sm_covered m)) ps" "keys_ok ps"
  shows "fst ` set ps = set (sm_covered m)"
proof (rule card_seteq)
  show "fst ` set ps \<subseteq> set (sm_covered m)" using assms(2) by (auto simp: list_all_iff)
  have "card (fst ` set ps) = length ps"
    using assms(3) distinct_card [of "map fst ps"] by (simp add: keys_ok_def)
  with assms(1) show "card (set (sm_covered m)) \<le> card (fst ` set ps)" by simp
qed simp

lemma edge_parent:
  assumes "fst ` set ps = set (sm_covered m)" "list_all (parent_edge_ok m) ps" "keys_ok ps"
    and "k \<in> set (sm_covered m)" "k \<noteq> sm_projectionRoot m"
  shows "\<exists>p \<in> set (sm_covered m). parent_of ps k = Some p"
proof -
  from assms(4) have "k \<in> fst ` set ps" unfolding assms(1) .
  then obtain e where e: "e \<in> set ps" "fst e = k" by (elim imageE) simp
  with assms(2,5) obtain p where "snd e = Some p" "p \<in> set (sm_covered m)"
    by (auto simp: list_all_iff parent_edge_ok_def split: option.splits)
  moreover have "(k, snd e) \<in> set ps" using e(1) e(2) [symmetric] by simp
  ultimately show ?thesis using assms(3)
    by (intro bexI [of _ p]) (auto simp: parent_of_def keys_ok_def bind_eq_Some_conv)
qed

subsection \<open>Properties\<close>


definition demo_manifest :: "string list \<Rightarrow> source_manifest" where
  "demo_manifest ks = \<lparr>sm_sourceControlNodeId = ''r'', sm_sourceBootId = ''b'',
     sm_authority = \<lparr>au_realmId = ''r1'', au_controlNodeId = ''r'', au_epochId = ''e1''\<rparr>,
     sm_projectionRoot = ''r'', sm_covered = ks, sm_feedId = ''f'', sm_controlCursor = 0,
     sm_generatedAt = ''t'', sm_capabilities = []\<rparr>"


end
