(* ===== verification/Control_Feed.thy ===== *)
theory Control_Feed
  imports Control_State
begin

text \<open>
  The control feed of \<^verbatim>\<open>packages/control-node-core/src/catalog.ts\<close>: appending an event inside a
  transaction, publishing what a committed transaction appended, retention, replay from a cursor,
  and starting a new feed generation. \<open>ca_events\<close> lists the rows of \<open>control_events\<close> by cursor.
\<close>

subsection \<open>Operations\<close>

definition canReplayControlCursor :: "nat \<Rightarrow> catalog \<Rightarrow> bool" where
  "canReplayControlCursor cursor c \<longleftrightarrow> ca_minCursor c \<le> cursor \<and> cursor \<le> ca_lastCursor c"

definition controlEventsAfter :: "nat \<Rightarrow> nat \<Rightarrow> catalog \<Rightarrow> core_error + feed_item list" where
  "controlEventsAfter cursor limit c =
     (if canReplayControlCursor cursor c
      then Inr (take limit (filter (\<lambda>i. cursor < fi_cursor i) (ca_events c)))
      else Inl CURSOR_EXPIRED)"

definition compactControlEvents :: "nat \<Rightarrow> catalog \<Rightarrow> core_error + catalog" where
  "compactControlEvents through c =
     (if ca_lastCursor c < through then Inl RANGE_ERROR
      else if through \<le> ca_minCursor c then Inr c
      else Inr (c\<lparr>ca_events := filter (\<lambda>i. \<not> fi_cursor i \<le> through) (ca_events c), ca_minCursor := through\<rparr>))"

text \<open>\<open>#appendControl\<close>: \<open>ev\<close> is the event ID of an imported event, \<open>None\<close> draws a UUID.\<close>

definition appendControl ::
  "env \<Rightarrow> control_change \<Rightarrow> string \<Rightarrow> string option \<Rightarrow> catalog \<Rightarrow> core_error + catalog" where
  "appendControl e change origin ev c =
     (if \<not> controlChangeSchema change then Inl INVALID
      else
        let cursor = ca_lastCursor c + 1;
            item = \<lparr>fi_eventId = (case ev of None \<Rightarrow> en_eventId e (ca_feedId c) cursor | Some i \<Rightarrow> i),
              fi_feedId = ca_feedId c, fi_cursor = cursor, fi_origin = origin,
              fi_authority = authority c, fi_change = change\<rparr>
        in
        if ev \<noteq> None \<and> list_ex (\<lambda>i. fi_eventId i = fi_eventId item) (ca_events c) then Inl SQLITE_CONSTRAINT
        else Inr (c\<lparr>ca_events := ca_events c @ [item], ca_lastCursor := cursor\<rparr>))"

definition append_local :: "env \<Rightarrow> control_change \<Rightarrow> catalog \<Rightarrow> core_error + catalog" where
  "append_local e change c = appendControl e change (ca_controlNodeId c) None c"

definition rotateControlFeed :: "string \<Rightarrow> catalog \<Rightarrow> catalog" where
  "rotateControlFeed feedId c =
     c\<lparr>ca_feedId := feedId, ca_events := [], ca_lastCursor := 0, ca_minCursor := 0, ca_published := 0\<rparr>"

definition emit :: "feed_item \<Rightarrow> catalog \<Rightarrow> catalog" where
  "emit i c = c\<lparr>ca_published := fi_cursor i, ca_emitted := ca_emitted c @ [i]\<rparr>"

lemma fold_emit:
  "fold emit is c = c\<lparr>ca_published := (if is = [] then ca_published c else fi_cursor (last is)),
     ca_emitted := ca_emitted c @ is\<rparr>"
  by (induction "is" arbitrary: c) (simp_all add: emit_def)

text \<open>\<open>#publishNewControls\<close>: pages of 10,000 events until a short page.\<close>

definition publish_page :: nat where
  "publish_page = 10000"

lemma controlEventsAfter_Inr:
  "controlEventsAfter cursor limit c = Inr is \<Longrightarrow>
   is = take limit (filter (\<lambda>i. cursor < fi_cursor i) (ca_events c))"
  by (simp add: controlEventsAfter_def split: if_splits)

lemma filter_shrinks:
  assumes "x \<in> set (filter P xs)" "\<not> Q x" "\<And>y. Q y \<Longrightarrow> P y"
  shows "length (filter Q xs) < length (filter P xs)"
proof -
  have "filter Q xs = filter Q (filter P xs)"
    using assms(3) by (metis (mono_tags, lifting) filter_cong filter_filter)
  moreover have "length (filter Q (filter P xs)) < length (filter P xs)"
    using assms(1,2) by (intro length_filter_less) auto
  ultimately show ?thesis by simp
qed

function publishNewControls :: "catalog \<Rightarrow> core_error + catalog" where
  "publishNewControls c =
     (case controlEventsAfter (ca_published c) publish_page c of
        Inl err \<Rightarrow> Inl err
      | Inr is \<Rightarrow>
          if length is < publish_page then Inr (fold emit is c)
          else publishNewControls (fold emit is c))"
  by pat_completeness auto

termination
proof (relation "measure (\<lambda>c. length (filter (\<lambda>i. ca_published c < fi_cursor i) (ca_events c)))")
  fix c :: catalog and "is"
  assume page: "controlEventsAfter (ca_published c) publish_page c = Inr is"
    and full: "\<not> length is < publish_page"
  from full have ne: "is \<noteq> []" by (auto simp: publish_page_def)
  let ?P = "\<lambda>i. ca_published c < fi_cursor i"
  from ne have "last is \<in> set is" by simp
  then have mem: "last is \<in> set (filter ?P (ca_events c))"
    using controlEventsAfter_Inr [OF page] by (auto dest: in_set_takeD)
  then have "length (filter (\<lambda>i. fi_cursor (last is) < fi_cursor i) (ca_events c)) < length (filter ?P (ca_events c))"
    by (intro filter_shrinks) auto
  with ne show "(fold emit is c, c) \<in> measure (\<lambda>c. length (filter (\<lambda>i. ca_published c < fi_cursor i) (ca_events c)))"
    by (simp add: fold_emit)
qed simp

declare publishNewControls.simps [simp del]

definition compactToLimit :: "catalog \<Rightarrow> core_error + catalog" where
  "compactToLimit c =
     (let through = ca_lastCursor c - ca_retention c in
      if ca_minCursor c < through then compactControlEvents through c else Inr c)"

text \<open>
  \<open>#mutate\<close>. The publication of a committed transaction and the compaction never fail on a
  well-formed feed (\<open>mutate_cases\<close> below), so an error is an error of the body.
\<close>

definition mutate :: "(catalog \<Rightarrow> core_error + catalog) \<Rightarrow> catalog \<Rightarrow> core_error + catalog" where
  "mutate body c =
     (case body c of Inl err \<Rightarrow> Inl err
      | Inr c1 \<Rightarrow> (case publishNewControls c1 of Inl err \<Rightarrow> Inl err | Inr c2 \<Rightarrow> compactToLimit c2))"

text \<open>Sequencing inside a transaction body.\<close>

definition andThen :: "core_error + catalog \<Rightarrow> (catalog \<Rightarrow> core_error + catalog) \<Rightarrow> core_error + catalog" where
  "andThen r f = (case r of Inl err \<Rightarrow> Inl err | Inr c \<Rightarrow> f c)"

lemma andThen_simps [simp]: "andThen (Inl err) f = Inl err" "andThen (Inr c) f = f c"
  by (simp_all add: andThen_def)

lemma andThen_Inr [simp]: "andThen r f = Inr c \<longleftrightarrow> (\<exists>d. r = Inr d \<and> f d = Inr c)"
  by (cases r) auto

subsection \<open>The well-formed feed\<close>

declare upt_Suc [simp del]

text \<open>The retained events are exactly those after the minimum cursor, without a gap.\<close>

definition feed_ok :: "catalog \<Rightarrow> bool" where
  "feed_ok c \<longleftrightarrow>
     map fi_cursor (ca_events c) = [Suc (ca_minCursor c)..<Suc (ca_lastCursor c)] \<and>
     ca_minCursor c \<le> ca_published c \<and> ca_published c \<le> ca_lastCursor c \<and>
     (\<forall>i \<in> set (ca_events c). fi_feedId i = ca_feedId c)"

lemma feed_ok_append:
  assumes "feed_ok c" "appendControl e ch o' ev c = Inr c'"
  shows "feed_ok c'"
  using assms by (auto simp: feed_ok_def appendControl_def Let_def upt_Suc split: if_splits)

lemma feed_ok_rotate: "feed_ok (rotateControlFeed f c)"
  by (simp add: feed_ok_def rotateControlFeed_def)

lemma feed_after:
  assumes "feed_ok c" "ca_minCursor c \<le> n"
  shows "filter (\<lambda>i. n < fi_cursor i) (ca_events c) = drop (n - ca_minCursor c) (ca_events c)"
proof -
  have general: "filter (\<lambda>i. n < fi_cursor i) is = drop (n - m) is"
    if "map fi_cursor is = [Suc m..<Suc l]" "m \<le> n" for "is" m l
    using that
  proof (induction "is" arbitrary: m)
    case (Cons i "is")
    from Cons.prems(1) have i: "fi_cursor i = Suc m" and r: "map fi_cursor is = [Suc (Suc m)..<Suc l]" and l: "m < l"
      by (auto simp: upt_rec [of "Suc m"] split: if_splits)
    show ?case
    proof (cases "m = n")
      case True
      with r have "\<forall>j \<in> set is. n < fi_cursor j"
        by (metis (no_types, lifting) atLeastLessThan_iff in_set_conv_nth length_map nth_map nth_mem set_upt Suc_le_lessD Suc_leD)
      with i True show ?thesis by (simp add: filter_id_conv)
    next
      case False
      with Cons.prems(2) have "Suc m \<le> n" by simp
      with Cons.IH [OF r] i show ?thesis by (simp add: Suc_diff_Suc [symmetric] drop_Cons' Suc_diff_le)
    qed
  qed simp
  show ?thesis using assms by (intro general) (auto simp: feed_ok_def)
qed

lemma feed_length: "feed_ok c \<Longrightarrow> length (ca_events c) = ca_lastCursor c - ca_minCursor c"
  unfolding feed_ok_def by (metis diff_Suc_Suc length_map length_upt)

lemma feed_after_cursors:
  assumes "feed_ok c" "ca_minCursor c \<le> n" "n \<le> ca_lastCursor c"
  shows "map fi_cursor (filter (\<lambda>i. n < fi_cursor i) (ca_events c)) = [Suc n..<Suc (ca_lastCursor c)]"
proof -
  have "map fi_cursor (ca_events c) = [Suc (ca_minCursor c)..<Suc (ca_lastCursor c)]"
    using assms(1) by (simp add: feed_ok_def)
  then show ?thesis
    using assms(2) by (simp add: feed_after [OF assms(1,2)] drop_map [symmetric] drop_upt)
qed

lemma publish_ok:
  assumes "feed_ok c"
  shows "publishNewControls c = Inr (c\<lparr>ca_published := ca_lastCursor c,
    ca_emitted := ca_emitted c @ filter (\<lambda>i. ca_published c < fi_cursor i) (ca_events c)\<rparr>)"
  using assms
proof (induction c rule: publishNewControls.induct)
  case (1 c)
  let ?new = "filter (\<lambda>i. ca_published c < fi_cursor i) (ca_events c)"
  from "1.prems" have bounds: "ca_minCursor c \<le> ca_published c" "ca_published c \<le> ca_lastCursor c"
    by (auto simp: feed_ok_def)
  note cursors = feed_after_cursors [OF "1.prems" bounds]
  have page: "controlEventsAfter (ca_published c) publish_page c = Inr (take publish_page ?new)"
    using bounds by (simp add: controlEventsAfter_def canReplayControlCursor_def)
  show ?case
  proof (cases "length (take publish_page ?new) < publish_page")
    case True
    then have all: "take publish_page ?new = ?new" by simp
    have "(if ?new = [] then ca_published c else fi_cursor (last ?new)) = ca_lastCursor c"
    proof (cases "?new = []")
      case True
      then have "[Suc (ca_published c)..<Suc (ca_lastCursor c)] = []" using cursors by simp
      with True bounds show ?thesis by (simp add: upt_eq_Nil_conv)
    next
      case False
      then have "fi_cursor (last ?new) = last (map fi_cursor ?new)" by (simp add: last_map)
      moreover have "ca_published c < ca_lastCursor c"
      proof (rule ccontr)
        assume "\<not> ca_published c < ca_lastCursor c"
        then have "[Suc (ca_published c)..<Suc (ca_lastCursor c)] = []" by simp
        with cursors have "map fi_cursor ?new = []" by (rule trans)
        with False show False by simp
      qed
      ultimately show ?thesis using False unfolding cursors by simp
    qed
    with True all show ?thesis
      unfolding publishNewControls.simps [of c] page all fold_emit by simp
  next
    case False
    let ?is = "take publish_page ?new"
    let ?d = "fold emit ?is c"
    from False have long: "length ?is = publish_page" "?is \<noteq> []" by (auto simp: publish_page_def)
    have "map fi_cursor ?is = take publish_page [Suc (ca_published c)..<Suc (ca_lastCursor c)]"
      by (simp add: take_map [symmetric] cursors)
    then have last: "fi_cursor (last ?is) = ca_published c + publish_page"
      and le: "ca_published c + publish_page \<le> ca_lastCursor c"
    proof -
      have len: "publish_page \<le> ca_lastCursor c - ca_published c"
        using long(1) arg_cong [OF cursors, of length] by simp
      then show "ca_published c + publish_page \<le> ca_lastCursor c" using bounds by simp
      have "fi_cursor (last ?is) = last (map fi_cursor ?is)" using long(2) by (simp add: last_map)
      also have "\<dots> = last [Suc (ca_published c)..<Suc (ca_published c + publish_page)]"
      proof -
        have "take publish_page [Suc (ca_published c)..<Suc (ca_lastCursor c)] =
            [Suc (ca_published c)..<Suc (ca_published c) + publish_page]"
          by (rule take_upt) (use len bounds in simp)
        then show ?thesis by (simp add: take_map [symmetric] cursors)
      qed
      finally show "fi_cursor (last ?is) = ca_published c + publish_page"
        by (simp add: publish_page_def)
    qed
    have d: "?d = c\<lparr>ca_published := ca_published c + publish_page, ca_emitted := ca_emitted c @ ?is\<rparr>"
      using long(2) last by (simp only: fold_emit if_False)
    have ok: "feed_ok ?d" using "1.prems" le bounds unfolding d by (simp add: feed_ok_def)
    have rest: "?is @ filter (\<lambda>i. ca_published c + publish_page < fi_cursor i) (ca_events c) = ?new"
    proof -
      have "filter (\<lambda>i. ca_published c + publish_page < fi_cursor i) (ca_events c)
          = drop publish_page ?new"
        using bounds by (simp add: feed_after [OF "1.prems"] add.commute)
      then show ?thesis by simp
    qed
    have "publishNewControls c = publishNewControls ?d"
      unfolding publishNewControls.simps [of c] page using False by simp
    also have "\<dots> = Inr (?d\<lparr>ca_published := ca_lastCursor ?d,
        ca_emitted := ca_emitted ?d @ filter (\<lambda>i. ca_published ?d < fi_cursor i) (ca_events ?d)\<rparr>)"
      by (rule "1.IH" [OF page False ok])
    finally show ?thesis using rest by (simp add: d)
  qed
qed

lemma compact_ok:
  assumes "feed_ok c" "through \<le> ca_published c"
  shows "\<exists>c'. compactControlEvents through c = Inr c' \<and> feed_ok c'"
proof (cases "through \<le> ca_minCursor c")
  case True
  with assms show ?thesis by (auto simp: compactControlEvents_def feed_ok_def)
next
  case False
  with assms have "map fi_cursor (filter (\<lambda>i. through < fi_cursor i) (ca_events c)) = [Suc through..<Suc (ca_lastCursor c)]"
    by (intro feed_after_cursors) (auto simp: feed_ok_def)
  with assms False show ?thesis
    by (auto simp: compactControlEvents_def feed_ok_def not_le)
qed

lemma compactControlEvents_fields:
  "compactControlEvents t c = Inr c' \<Longrightarrow>
   c' = c\<lparr>ca_events := ca_events c', ca_minCursor := ca_minCursor c'\<rparr>"
  by (auto simp: compactControlEvents_def split: if_splits)

text \<open>What a committed mutation is: its body's state, with the new events emitted and old ones dropped.\<close>

lemma mutate_cases:
  assumes "body c = Inr d" "feed_ok d"
  shows "\<exists>c'. mutate body c = Inr c' \<and> feed_ok c' \<and> ca_published c' = ca_lastCursor d \<and>
    ca_emitted c' = ca_emitted d @ filter (\<lambda>i. ca_published d < fi_cursor i) (ca_events d) \<and>
    c' = d\<lparr>ca_events := ca_events c', ca_minCursor := ca_minCursor c',
      ca_published := ca_published c', ca_emitted := ca_emitted c'\<rparr>"
proof -
  let ?p = "d\<lparr>ca_published := ca_lastCursor d,
    ca_emitted := ca_emitted d @ filter (\<lambda>i. ca_published d < fi_cursor i) (ca_events d)\<rparr>"
  have ok: "feed_ok ?p" using assms(2) by (auto simp: feed_ok_def)
  have "\<exists>c'. compactToLimit ?p = Inr c' \<and> feed_ok c' \<and>
      c' = ?p\<lparr>ca_events := ca_events c', ca_minCursor := ca_minCursor c'\<rparr>"
  proof (cases "ca_minCursor ?p < ca_lastCursor ?p - ca_retention ?p")
    case True
    obtain c' where "compactControlEvents (ca_lastCursor ?p - ca_retention ?p) ?p = Inr c'" "feed_ok c'"
      using compact_ok [OF ok, of "ca_lastCursor ?p - ca_retention ?p"] by auto
    with True compactControlEvents_fields show ?thesis
      unfolding compactToLimit_def Let_def by (metis (no_types, lifting))
  next
    case False
    with ok show ?thesis unfolding compactToLimit_def Let_def by simp
  qed
  then obtain c' where c': "compactToLimit ?p = Inr c'" "feed_ok c'"
      "c' = ?p\<lparr>ca_events := ca_events c', ca_minCursor := ca_minCursor c'\<rparr>" by blast
  have "mutate body c = Inr c'"
    using assms(1) c'(1) by (simp add: mutate_def publish_ok [OF assms(2)])
  moreover have "ca_published c' = ca_lastCursor d"
    "ca_emitted c' = ca_emitted d @ filter (\<lambda>i. ca_published d < fi_cursor i) (ca_events d)"
    by (subst c'(3), simp)+
  moreover have "c' = d\<lparr>ca_events := ca_events c', ca_minCursor := ca_minCursor c',
      ca_published := ca_published c', ca_emitted := ca_emitted c'\<rparr>"
    by (subst (1) c'(3)) (simp add: calculation(2,3))
  ultimately show ?thesis using c'(2) by blast
qed

subsection \<open>Everything but the feed\<close>

text \<open>The tables a transaction writes, with the feed blanked out.\<close>

definition core :: "catalog \<Rightarrow> catalog" where
  "core c = c\<lparr>ca_lastCursor := 0, ca_minCursor := 0, ca_events := [], ca_published := 0, ca_emitted := []\<rparr>"

lemma core_fields:
  assumes "core c = core d"
  shows "ca_controlNodeId c = ca_controlNodeId d" "ca_feedId c = ca_feedId d" "ca_retention c = ca_retention d"
    "ca_role c = ca_role d" "ca_transitions c = ca_transitions d" "ca_desiredUpstream c = ca_desiredUpstream d"
    "ca_controlNodes c = ca_controlNodes d" "ca_attachments c = ca_attachments d"
    "ca_runtimeNodes c = ca_runtimeNodes d" "ca_sessions c = ca_sessions d"
    "ca_interactions c = ca_interactions d" "ca_metadataOps c = ca_metadataOps d" "ca_outbox c = ca_outbox d"
    "ca_commands c = ca_commands d" "ca_intents c = ca_intents d" "ca_launches c = ca_launches d"
    "ca_archives c = ca_archives d" "ca_checkpoints c = ca_checkpoints d" "ca_imported c = ca_imported d"
    "ca_inventories c = ca_inventories d" "ca_deliveries c = ca_deliveries d" "ca_nextDelivery c = ca_nextDelivery d" "ca_peers c = ca_peers d"
  using assms by (cases c; cases d; simp add: core_def)+

lemma core_append: "appendControl e ch o' ev c = Inr d \<Longrightarrow> core d = core c"
  by (auto simp: appendControl_def core_def Let_def split: if_splits)

lemma core_append_local: "append_local e ch c = Inr d \<Longrightarrow> core d = core c"
  unfolding append_local_def by (rule core_append)

lemma publish_fields:
  "publishNewControls c = Inr d \<Longrightarrow> \<exists>p em. d = c\<lparr>ca_published := p, ca_emitted := em\<rparr>"
proof (induction c rule: publishNewControls.induct)
  case (1 c)
  then obtain "is" where page: "controlEventsAfter (ca_published c) publish_page c = Inr is"
    by (subst (asm) (2) publishNewControls.simps) (auto split: sum.splits)
  show ?case
  proof (cases "length is < publish_page")
    case True
    with "1.prems" page show ?thesis
      by (subst (asm) publishNewControls.simps) (auto simp: fold_emit intro!: exI)
  next
    case False
    with "1.prems" page have "publishNewControls (fold emit is c) = Inr d"
      by (subst (asm) publishNewControls.simps) simp
    from "1.IH" [OF page False this] show ?thesis
      by (auto simp: fold_emit)
  qed
qed

lemma mutate_Inr:
  assumes "mutate body c = Inr c'"
  shows "\<exists>d. body c = Inr d \<and> core c' = core d \<and> ca_lastCursor c' = ca_lastCursor d"
proof -
  from assms obtain d p where d: "body c = Inr d" and p: "publishNewControls d = Inr p" and k: "compactToLimit p = Inr c'"
    by (auto simp: mutate_def split: sum.splits)
  from k have k': "c' = p\<lparr>ca_events := ca_events c', ca_minCursor := ca_minCursor c'\<rparr>"
    by (auto simp: compactToLimit_def Let_def split: if_splits dest: compactControlEvents_fields)
  have "core p = core d" "ca_lastCursor p = ca_lastCursor d"
    using publish_fields [OF p] by (auto simp: core_def)
  moreover have "core c' = core p" "ca_lastCursor c' = ca_lastCursor p"
    by (subst k', simp add: core_def)+
  ultimately show ?thesis using d by auto
qed

lemma mutate_feed_ok:
  assumes "mutate body c = Inr c'" "\<And>d. body c = Inr d \<Longrightarrow> feed_ok d"
  shows "feed_ok c'"
proof -
  from assms(1) obtain d where "body c = Inr d" by (auto simp: mutate_def split: sum.splits)
  with mutate_cases [of body c d] assms show ?thesis by auto
qed

lemma mutate_succeeds:
  "body c = Inr d \<Longrightarrow> feed_ok d \<Longrightarrow> \<exists>c'. mutate body c = Inr c'"
  using mutate_cases [of body c d] by blast

lemma feed_ok_fields:
  "ca_events c = ca_events d \<Longrightarrow> ca_minCursor c = ca_minCursor d \<Longrightarrow> ca_lastCursor c = ca_lastCursor d \<Longrightarrow>
   ca_published c = ca_published d \<Longrightarrow> ca_feedId c = ca_feedId d \<Longrightarrow> feed_ok c = feed_ok d"
  by (simp add: feed_ok_def)

lemma append_local_ok:
  "controlChangeSchema ch \<Longrightarrow> \<exists>d. append_local e ch c = Inr d"
  by (simp add: append_local_def appendControl_def Let_def)

lemma feed_ok_append_local: "feed_ok c \<Longrightarrow> append_local e ch c = Inr d \<Longrightarrow> feed_ok d"
  unfolding append_local_def by (rule feed_ok_append)

subsection \<open>What a body appends is what is published\<close>

definition appended :: "catalog \<Rightarrow> feed_item list \<Rightarrow> catalog \<Rightarrow> bool" where
  "appended c is d \<longleftrightarrow>
     ca_events d = ca_events c @ is \<and> map fi_cursor is = [Suc (ca_lastCursor c)..<Suc (ca_lastCursor d)] \<and>
     ca_lastCursor c \<le> ca_lastCursor d \<and> ca_minCursor d = ca_minCursor c \<and>
     ca_published d = ca_published c \<and> ca_emitted d = ca_emitted c \<and> ca_feedId d = ca_feedId c \<and>
     (\<forall>i \<in> set is. fi_feedId i = ca_feedId c)"

definition idle :: "catalog \<Rightarrow> bool" where
  "idle c \<longleftrightarrow> feed_ok c \<and> ca_published c = ca_lastCursor c"

lemma appended_Nil:
  "ca_events d = ca_events c \<Longrightarrow> ca_minCursor d = ca_minCursor c \<Longrightarrow> ca_lastCursor d = ca_lastCursor c \<Longrightarrow>
   ca_published d = ca_published c \<Longrightarrow> ca_emitted d = ca_emitted c \<Longrightarrow> ca_feedId d = ca_feedId c \<Longrightarrow> appended c [] d"
  by (simp add: appended_def)

lemma appended_refl: "appended c [] c"
  by (rule appended_Nil) simp_all

lemma appended_trans:
  assumes "appended a xs b" "appended b ys c"
  shows "appended a (xs @ ys) c"
proof -
  have "[Suc (ca_lastCursor a)..<Suc (ca_lastCursor b)] @ [Suc (ca_lastCursor b)..<Suc (ca_lastCursor c)] =
      [Suc (ca_lastCursor a)..<Suc (ca_lastCursor c)]"
    using assms upt_add_eq_append [of "Suc (ca_lastCursor a)" "Suc (ca_lastCursor b)" "ca_lastCursor c - ca_lastCursor b"]
    by (simp add: appended_def)
  with assms show ?thesis by (auto simp: appended_def)
qed

lemma appended_feed_ok:
  assumes "appended c is d" "feed_ok c"
  shows "feed_ok d"
proof -
  have "[Suc (ca_minCursor c)..<Suc (ca_lastCursor c)] @ [Suc (ca_lastCursor c)..<Suc (ca_lastCursor d)] =
      [Suc (ca_minCursor c)..<Suc (ca_lastCursor d)]"
    using assms upt_add_eq_append [of "Suc (ca_minCursor c)" "Suc (ca_lastCursor c)" "ca_lastCursor d - ca_lastCursor c"]
    by (simp add: appended_def feed_ok_def)
  with assms show ?thesis by (auto simp: appended_def feed_ok_def)
qed

lemma append_local_appended:
  assumes "append_local e ch c = Inr d"
  shows "\<exists>i. appended c [i] d \<and> fi_change i = ch \<and> fi_authority i = authority c"
  using assms
  by (auto simp: append_local_def appendControl_def appended_def Let_def upt_Suc split: if_splits)

lemma mutate_emits:
  assumes "body c = Inr d" "appended c is d" "idle c"
  shows "\<exists>c'. mutate body c = Inr c' \<and> idle c' \<and> core c' = core d \<and>
    ca_emitted c' = ca_emitted c @ is \<and> ca_lastCursor c' = ca_lastCursor d"
proof -
  have ok: "feed_ok d" using appended_feed_ok assms(2,3) by (auto simp: idle_def)
  from mutate_cases [of body, OF assms(1) ok] obtain c' where c': "mutate body c = Inr c'" "feed_ok c'"
      "ca_published c' = ca_lastCursor d"
      "ca_emitted c' = ca_emitted d @ filter (\<lambda>i. ca_published d < fi_cursor i) (ca_events d)" by blast
  from mutate_Inr [OF c'(1)] assms(1) have cd: "core c' = core d" "ca_lastCursor c' = ca_lastCursor d" by auto
  have old: "\<forall>i \<in> set (ca_events c). fi_cursor i \<le> ca_lastCursor c"
  proof
    fix i assume "i \<in> set (ca_events c)"
    then have "fi_cursor i \<in> set (map fi_cursor (ca_events c))" by simp
    then have "fi_cursor i \<in> set [Suc (ca_minCursor c)..<Suc (ca_lastCursor c)]"
      using assms(3) unfolding idle_def feed_ok_def by metis
    then show "fi_cursor i \<le> ca_lastCursor c" by simp
  qed
  have new: "\<forall>i \<in> set is. ca_lastCursor c < fi_cursor i"
  proof
    fix i assume "i \<in> set is"
    then have "fi_cursor i \<in> set (map fi_cursor is)" by simp
    then have "fi_cursor i \<in> set [Suc (ca_lastCursor c)..<Suc (ca_lastCursor d)]"
      using assms(2) unfolding appended_def by metis
    then show "ca_lastCursor c < fi_cursor i" by simp
  qed
  have "filter (\<lambda>i. ca_published d < fi_cursor i) (ca_events d) = is"
  proof -
    have "filter (\<lambda>i. ca_lastCursor c < fi_cursor i) (ca_events c) = []"
      using old by (auto simp: filter_empty_conv not_less)
    moreover have "filter (\<lambda>i. ca_lastCursor c < fi_cursor i) is = is"
      using new by simp
    ultimately show ?thesis
      using assms(2,3) by (simp add: appended_def idle_def)
  qed
  with c' cd assms(2) show ?thesis by (auto simp: idle_def appended_def)
qed

declare upt_Suc [simp]

end
