(* ===== verification/Control_Metadata.thy ===== *)
theory Control_Metadata
  imports Control_Feed
begin

text \<open>
  The metadata operations of a control node's catalog
  (\<^verbatim>\<open>packages/control-node-core/src/catalog.ts\<close>): proposals on a branch, the authority's
  compare-and-set commit, settlement by the parent, the outbox and the delivery intents.

  Arguments \<open>t\<close>, \<open>t'\<close>, \<open>t''\<close> are the readings of the clock in the order the code takes them.
\<close>

subsection \<open>Sessions\<close>

definition desc_text :: "string \<Rightarrow> string \<Rightarrow> string \<Rightarrow> string \<Rightarrow> bool" where
  "desc_text ta ida tb idb \<longleftrightarrow> tb < ta \<or> (ta = tb \<and> ida \<le> idb)"

definition listSessions :: "(session \<Rightarrow> bool) \<Rightarrow> catalog \<Rightarrow> session list" where
  "listSessions P c =
     filter P (sort_le (\<lambda>a b. desc_text (se_updatedAt a) (se_sessionId a) (se_updatedAt b) (se_sessionId b))
       (records (ca_sessions c)))"

definition session_source :: "string \<Rightarrow> catalog \<Rightarrow> string option" where
  "session_source k c = projection_source k (ca_sessions c)"

definition operation_source :: "string \<Rightarrow> catalog \<Rightarrow> string option" where
  "operation_source k c = projection_source k (ca_metadataOps c)"

subsection \<open>Delivery intents\<close>

text \<open>\<open>INSERT OR IGNORE\<close> under \<open>UNIQUE(kind, destination_id, identity)\<close>; every intent is of kind metadata.\<close>

definition enqueueDeliveryIntent :: "string \<Rightarrow> string \<Rightarrow> metadata_operation \<Rightarrow> catalog \<Rightarrow> catalog" where
  "enqueueDeliveryIntent dest ident mo c =
     (if list_ex (\<lambda>d. de_destination d = dest \<and> de_identity d = ident) (ca_deliveries c) then c
      else c\<lparr>ca_deliveries := ca_deliveries c @
               [\<lparr>de_sequence = ca_nextDelivery c, de_destination = dest, de_identity = ident, de_operation = mo\<rparr>],
             ca_nextDelivery := ca_nextDelivery c + 1\<rparr>)"

definition deleteMetadataDeliveryIntentsForSession :: "string \<Rightarrow> catalog \<Rightarrow> catalog" where
  "deleteMetadataDeliveryIntentsForSession sid c =
     c\<lparr>ca_deliveries := filter (\<lambda>d. case getMetadataOperation (de_identity d) c of
          None \<Rightarrow> True | Some mo \<Rightarrow> mo_sessionId mo \<noteq> sid) (ca_deliveries c)\<rparr>"

definition retireArchivedMetadataDeliveryIntents :: "catalog \<Rightarrow> catalog" where
  "retireArchivedMetadataDeliveryIntents c =
     c\<lparr>ca_deliveries := filter (\<lambda>d. case getMetadataOperation (de_identity d) c of
          None \<Rightarrow> True
        | Some mo \<Rightarrow> (case getSession (mo_sessionId mo) c of
             None \<Rightarrow> True | Some s \<Rightarrow> se_catalogState s \<noteq> Archived)) (ca_deliveries c)\<rparr>"

definition pendingMetadataDeliveries :: "nat \<Rightarrow> catalog \<Rightarrow> core_error + (nat \<times> string \<times> metadata_operation) list" where
  "pendingMetadataDeliveries limit c =
     (if limit < 1 \<or> 1000 < limit then Inl RANGE_ERROR
      else Inr (map (\<lambda>d. (de_sequence d, de_destination d, de_operation d)) (take limit (ca_deliveries c))))"

definition acknowledgeMetadataDelivery :: "nat \<Rightarrow> string \<Rightarrow> string \<Rightarrow> catalog \<Rightarrow> bool \<times> catalog" where
  "acknowledgeMetadataDelivery seq dest op c =
     (let hit = (\<lambda>d. de_sequence d = seq \<and> de_destination d = dest \<and> de_identity d = op) in
      if seq < 1 then (False, c)
      else (length (filter hit (ca_deliveries c)) = 1,
            c\<lparr>ca_deliveries := filter (\<lambda>d. \<not> hit d) (ca_deliveries c)\<rparr>))"

subsection \<open>Queries\<close>

definition pendingMetadataOutbox :: "nat \<Rightarrow> catalog \<Rightarrow> metadata_operation list" where
  "pendingMetadataOutbox limit c =
     take limit (List.map_filter (\<lambda>k. getMetadataOperation k c) (ca_outbox c))"

definition listMetadataOperations ::
  "string option \<Rightarrow> string option \<Rightarrow> metadata_status list option \<Rightarrow> nat \<Rightarrow> catalog \<Rightarrow>
   core_error + metadata_operation list" where
  "listMetadataOperations sid origin statuses limit c =
     (if limit < 1 \<or> 100000 < limit then Inl RANGE_ERROR
      else Inr (take limit (filter (\<lambda>mo.
          (case sid of None \<Rightarrow> True | Some k \<Rightarrow> mo_sessionId mo = k) \<and>
          (case origin of None \<Rightarrow> True | Some k \<Rightarrow> mo_originControlNodeId mo = k) \<and>
          (case statuses of None \<Rightarrow> True | Some ss \<Rightarrow> mo_status mo \<in> set ss))
        (sort_le (\<lambda>a b. desc_text (mo_updatedAt a) (mo_operationId a) (mo_updatedAt b) (mo_operationId b))
          (records (ca_metadataOps c))))))"

definition getMetadata :: "string \<Rightarrow> catalog \<Rightarrow> core_error + metadata_snapshot" where
  "getMetadata sid c = (case getSession sid c of None \<Rightarrow> Inl NOT_FOUND | Some s \<Rightarrow> Inr (se_metadata s))"

subsection \<open>The authority's commit\<close>

definition commit_operation ::
  "metadata_patch \<Rightarrow> metadata_snapshot \<Rightarrow> string \<Rightarrow> authority_ref \<Rightarrow> string \<Rightarrow> string \<Rightarrow> metadata_operation" where
  "commit_operation p m origin auth createdAt updatedAt =
     \<lparr>mo_operationId = mp_operationId p, mo_sessionId = mp_sessionId p, mo_patch = p,
      mo_status = (case applyMetadataPatch m p of PatchAccepted t \<Rightarrow> MAccepted | PatchConflicted t cs \<Rightarrow> MConflicted),
      mo_canonical = (case applyMetadataPatch m p of PatchAccepted t \<Rightarrow> t | PatchConflicted t cs \<Rightarrow> t),
      mo_optimistic = None,
      mo_conflicts = (case applyMetadataPatch m p of PatchAccepted t \<Rightarrow> None | PatchConflicted t cs \<Rightarrow> Some cs),
      mo_originControlNodeId = origin, mo_authority = auth, mo_createdAt = createdAt, mo_updatedAt = updatedAt\<rparr>"

definition commit_body ::
  "env \<Rightarrow> metadata_operation \<Rightarrow> session \<Rightarrow> string \<Rightarrow> catalog \<Rightarrow> core_error + catalog" where
  "commit_body e mo s t c =
     andThen (putMetadataOperation mo None c) (\<lambda>c.
     andThen (putSession (s\<lparr>se_metadata := mo_canonical mo, se_metadataAuthority := authority c, se_updatedAt := t\<rparr>)
                (session_source (se_sessionId s) c) c) (\<lambda>c.
     andThen (append_local e (MetadataChanged (se_sessionId s) (mo_canonical mo)) c) (\<lambda>c.
     andThen (append_local e (MetadataOperation mo) c) (\<lambda>c.
       Inr (if se_catalogState s = Open
            then enqueueDeliveryIntent (se_runtimeNodeId s) (mo_operationId mo) mo c else c)))))"

definition commitMetadataAtAuthority ::
  "env \<Rightarrow> metadata_patch \<Rightarrow> session \<Rightarrow> string \<Rightarrow> string \<Rightarrow> string \<Rightarrow> string \<Rightarrow> catalog \<Rightarrow>
   core_error + metadata_operation \<times> catalog" where
  "commitMetadataAtAuthority e p s origin createdAt t t' c =
     (let mo = commit_operation p (se_metadata s) origin (authority c) createdAt t in
      case mutate (commit_body e mo s t') c of Inl err \<Rightarrow> Inl err | Inr c' \<Rightarrow> Inr (mo, c'))"

subsection \<open>Submission\<close>

definition queued_operation ::
  "metadata_patch \<Rightarrow> metadata_snapshot \<Rightarrow> string \<Rightarrow> authority_ref \<Rightarrow> string \<Rightarrow> metadata_operation" where
  "queued_operation p m origin auth t =
     \<lparr>mo_operationId = mp_operationId p, mo_sessionId = mp_sessionId p, mo_patch = p, mo_status = MQueued,
      mo_canonical = m, mo_optimistic = Some (optimisticMetadata m p), mo_conflicts = None,
      mo_originControlNodeId = origin, mo_authority = auth, mo_createdAt = t, mo_updatedAt = t\<rparr>"

definition insert_outbox :: "string \<Rightarrow> catalog \<Rightarrow> core_error + catalog" where
  "insert_outbox k c =
     (if k \<in> set (ca_outbox c) then Inl SQLITE_CONSTRAINT else Inr (c\<lparr>ca_outbox := ca_outbox c @ [k]\<rparr>))"

definition insert_outbox_or_ignore :: "string \<Rightarrow> catalog \<Rightarrow> catalog" where
  "insert_outbox_or_ignore k c =
     (if k \<in> set (ca_outbox c) then c else c\<lparr>ca_outbox := ca_outbox c @ [k]\<rparr>)"

definition needs_relay :: "metadata_operation \<Rightarrow> catalog \<Rightarrow> bool" where
  "needs_relay mo c \<longleftrightarrow>
     is_branch (ca_role c) \<and> mo_status mo = MQueued \<and>
     (operation_source (mo_operationId mo) c \<noteq> None \<or> mo_operationId mo \<notin> set (ca_outbox c))"

definition submitMetadataPatch ::
  "env \<Rightarrow> metadata_patch \<Rightarrow> string \<Rightarrow> string \<Rightarrow> string \<Rightarrow> string \<Rightarrow> catalog \<Rightarrow>
   core_error + metadata_operation \<times> catalog" where
  "submitMetadataPatch e p origin t t' t'' c =
     (if \<not> metadataPatchSchema p then Inl INVALID
      else if \<not> assertAuthority (mp_expectedAuthority p) c then Inl FENCED
      else case getMetadataOperation (mp_operationId p) c of
        Some existing \<Rightarrow>
          if \<not> sameMetadataPatch (en_lc e) (mo_patch existing) p \<or> mo_originControlNodeId existing \<noteq> origin
          then Inl PAYLOAD_MISMATCH
          else if needs_relay existing c then
            (case mutate (\<lambda>c. andThen (putMetadataOperation existing None c)
                    (\<lambda>c. Inr (insert_outbox_or_ignore (mo_operationId existing) c))) c of
               Inl err \<Rightarrow> Inl err | Inr c' \<Rightarrow> Inr (existing, c'))
          else Inr (existing, c)
      | None \<Rightarrow>
          (case getSession (mp_sessionId p) c of
             None \<Rightarrow> Inl NOT_FOUND
           | Some s \<Rightarrow>
               if is_branch (ca_role c) then
                 (let mo = queued_operation p (se_metadata s) origin (authority c) t in
                  case mutate (\<lambda>c. andThen (putMetadataOperation mo None c) (\<lambda>c.
                         andThen (insert_outbox (mo_operationId mo) c) (append_local e (MetadataOperation mo)))) c of
                    Inl err \<Rightarrow> Inl err | Inr c' \<Rightarrow> Inr (mo, c'))
               else commitMetadataAtAuthority e p s origin t t' t'' c))"

definition applyMetadataAtAuthority ::
  "env \<Rightarrow> metadata_operation \<Rightarrow> string \<Rightarrow> string \<Rightarrow> catalog \<Rightarrow> core_error + metadata_operation \<times> catalog" where
  "applyMetadataAtAuthority e mo t t' c =
     (if is_branch (ca_role c) then Inl FENCED
      else if \<not> metadataOperationRecordSchema mo then Inl INVALID
      else if \<not> assertAuthority (mo_authority mo) c then Inl FENCED
      else case getMetadataOperation (mo_operationId mo) c of
        Some existing \<Rightarrow>
          if \<not> sameMetadataOperationIdentity (en_lc e) existing mo then Inl PAYLOAD_MISMATCH
          else if mo_status existing \<noteq> MQueued then Inr (existing, c)
          else (case getSession (mo_sessionId mo) c of None \<Rightarrow> Inl NOT_FOUND
             | Some s \<Rightarrow> commitMetadataAtAuthority e (mo_patch mo) s (mo_originControlNodeId mo) (mo_createdAt mo) t t' c)
      | None \<Rightarrow>
          (case getSession (mo_sessionId mo) c of None \<Rightarrow> Inl NOT_FOUND
             | Some s \<Rightarrow> commitMetadataAtAuthority e (mo_patch mo) s (mo_originControlNodeId mo) (mo_createdAt mo) t t' c))"

subsection \<open>Settlement on a branch\<close>

definition settle_body ::
  "env \<Rightarrow> metadata_operation \<Rightarrow> session \<Rightarrow> string \<Rightarrow> catalog \<Rightarrow> core_error + catalog" where
  "settle_body e mo s t c =
     (let advances = ms_revision (se_metadata s) < ms_revision (mo_canonical mo) in
      andThen (putMetadataOperation mo None c) (\<lambda>c.
      andThen (if advances
               then putSession (s\<lparr>se_metadata := mo_canonical mo, se_metadataAuthority := mo_authority mo, se_updatedAt := t\<rparr>)
                      (session_source (se_sessionId s) c) c
               else Inr c) (\<lambda>c.
      andThen (Inr (c\<lparr>ca_outbox := filter (\<lambda>k. k \<noteq> mo_operationId mo) (ca_outbox c)\<rparr>)) (\<lambda>c.
      andThen (if advances then append_local e (MetadataChanged (se_sessionId s) (mo_canonical mo)) c else Inr c) (\<lambda>c.
      andThen (append_local e (MetadataOperation mo) c) (\<lambda>c.
        Inr (if se_catalogState s = Open
             then enqueueDeliveryIntent (se_runtimeNodeId s) (mo_operationId mo) mo c else c)))))))"

definition settle_open ::
  "env \<Rightarrow> bool \<Rightarrow> metadata_operation \<Rightarrow> string \<Rightarrow> catalog \<Rightarrow> core_error + metadata_operation \<times> catalog" where
  "settle_open e admitted mo t c =
     (case getSession (mo_sessionId mo) c of
        None \<Rightarrow> Inl NOT_FOUND
      | Some s \<Rightarrow>
          if \<not> sameAuthority (se_metadataAuthority s) (mo_authority mo) then Inl FENCED
          else if \<not> admitted then Inl FENCED
          else if ms_revision (mo_canonical mo) = ms_revision (se_metadata s) \<and>
            \<not> sameSnapshot (en_lc e) (mo_canonical mo) (se_metadata s) then Inl CONFLICT
          else (case mutate (settle_body e mo s t) c of Inl err \<Rightarrow> Inl err | Inr c' \<Rightarrow> Inr (mo, c')))"

definition settleMetadataOperation ::
  "env \<Rightarrow> bool \<Rightarrow> metadata_operation \<Rightarrow> string \<Rightarrow> catalog \<Rightarrow> core_error + metadata_operation \<times> catalog" where
  "settleMetadataOperation e authenticatedParent mo t c =
     (if \<not> metadataOperationRecordSchema mo then Inl INVALID
      else if mo_status mo = MQueued then Inl CONFLICT
      else if \<not> assertAuthority (mo_authority mo) c then Inl FENCED
      else case getMetadataOperation (mo_operationId mo) c of
        Some cur \<Rightarrow>
          if \<not> sameMetadataOperationIdentity (en_lc e) cur mo then Inl PAYLOAD_MISMATCH
          else if mo_status cur \<noteq> MQueued then
            (if sameOperation (en_lc e) cur mo then Inr (cur, c) else Inl PAYLOAD_MISMATCH)
          else settle_open e True mo t c
      | None \<Rightarrow> settle_open e (authenticatedParent \<and> is_attached (ca_role c)) mo t c)"

subsection \<open>Proposals imported from a child\<close>

definition metadataImportedFromChild ::
  "collation \<Rightarrow> session option \<Rightarrow> metadata_snapshot \<Rightarrow> core_error + metadata_snapshot" where
  "metadataImportedFromChild lc current incoming =
     (case current of None \<Rightarrow> Inr incoming
      | Some s \<Rightarrow>
          if ms_revision incoming < ms_revision (se_metadata s) then Inr (se_metadata s)
          else if ms_revision incoming = ms_revision (se_metadata s) then
            (if sameSnapshot lc incoming (se_metadata s) then Inr (se_metadata s) else Inl CONFLICT)
          else Inl FENCED)"

definition mergeMetadataOperationImportedFromChild ::
  "collation \<Rightarrow> string \<Rightarrow> metadata_operation \<Rightarrow> catalog \<Rightarrow> core_error + metadata_operation" where
  "mergeMetadataOperationImportedFromChild lc source mo c =
     (if \<not> metadataOperationRecordSchema mo then Inl INVALID
      else if \<not> sameAuthority (mo_authority mo) (authority c) then Inl FENCED
      else case getMetadataOperation (mo_operationId mo) c of
        None \<Rightarrow> if mo_status mo \<noteq> MQueued then Inl FENCED else Inr mo
      | Some cur \<Rightarrow>
          if operation_source (mo_operationId mo) c \<noteq> None \<and> operation_source (mo_operationId mo) c \<noteq> Some source
          then Inl CONFLICT
          else if \<not> sameMetadataOperationIdentity lc cur mo then Inl PAYLOAD_MISMATCH
          else if mo_status cur \<noteq> MQueued then
            (if mo_status mo \<noteq> MQueued \<and> \<not> sameOperation lc cur mo then Inl CONFLICT else Inr cur)
          else if mo_status mo \<noteq> MQueued then Inl FENCED
          else Inr cur)"

definition markMetadataOutcomeUnknown :: "env \<Rightarrow> string \<Rightarrow> string \<Rightarrow> catalog \<Rightarrow> core_error + catalog" where
  "markMetadataOutcomeUnknown e k t c =
     (case getMetadataOperation k c of
        None \<Rightarrow> Inr c
      | Some mo \<Rightarrow>
          if mo_status mo \<noteq> MQueued then Inr c
          else
            let unknown = mo\<lparr>mo_status := MOutcomeUnknown, mo_optimistic := None, mo_updatedAt := t\<rparr> in
            andThen (putMetadataOperation unknown None c) (append_local e (MetadataOperation unknown)))"

end
