(* ===== verification/Control_Metadata_Facts.thy ===== *)
theory Control_Metadata_Facts
  imports Control_Metadata
begin

text \<open>
  What the metadata operations of the catalog guarantee: receipts are immutable, retries return
  the first receipt, canonical revisions never go back, and a proposal made on a branch and
  settled by its parent leaves both with the same receipt and the same canonical metadata.
\<close>

subsection \<open>Rows are filed under their own identifier\<close>

definition ids_ok :: "catalog \<Rightarrow> bool" where
  "ids_ok c \<longleftrightarrow> (\<forall>k mo. getMetadataOperation k c = Some mo \<longrightarrow> mo_operationId mo = k) \<and>
     (\<forall>k s. getSession k c = Some s \<longrightarrow> se_sessionId s = k)"

lemma ids_ok_core: "core c = core d \<Longrightarrow> ids_ok c \<longleftrightarrow> ids_ok d"
  by (simp add: ids_ok_def getMetadataOperation_def getSession_def core_fields [of c d])

lemma get_core:
  assumes "core c = core d"
  shows "getMetadataOperation k c = getMetadataOperation k d" "getSession k c = getSession k d"
    "authority c = authority d"
  by (simp_all add: getMetadataOperation_def getSession_def authority_def core_fields [OF assms])

subsection \<open>The effect of the bodies\<close>

lemma enqueue_fields [simp]:
  "ca_metadataOps (enqueueDeliveryIntent a b mo c) = ca_metadataOps c"
  "ca_sessions (enqueueDeliveryIntent a b mo c) = ca_sessions c"
  "ca_role (enqueueDeliveryIntent a b mo c) = ca_role c"
  "ca_outbox (enqueueDeliveryIntent a b mo c) = ca_outbox c"
  by (simp_all add: enqueueDeliveryIntent_def)

lemma putMetadataOperation_Inr:
  "putMetadataOperation mo src c = Inr d \<longleftrightarrow>
   metadataOperationRecordSchema mo \<and> d = c\<lparr>ca_metadataOps := put (mo_operationId mo) (src, mo) (ca_metadataOps c)\<rparr>"
  by (auto simp: putMetadataOperation_def)

lemma putSession_Inr:
  "putSession s src c = Inr d \<longleftrightarrow>
   sessionRecordSchema s \<and> \<not> native_clash s c \<and> d = c\<lparr>ca_sessions := put (se_sessionId s) (src, s) (ca_sessions c)\<rparr>"
  by (auto simp: putSession_def)

text \<open>The rows a commit, a submission on a branch and a settlement leave.\<close>

lemma commit_body_rows:
  assumes "commit_body e mo s t c = Inr d"
  shows "ca_metadataOps d = put (mo_operationId mo) (None, mo) (ca_metadataOps c)"
    and "ca_sessions d = put (se_sessionId s) (session_source (se_sessionId s) c,
      s\<lparr>se_metadata := mo_canonical mo, se_metadataAuthority := authority c, se_updatedAt := t\<rparr>) (ca_sessions c)"
    and "ca_role d = ca_role c" and "ca_outbox d = ca_outbox c"
proof -
  from assms obtain c1 c2 where
    c1: "append_local e (MetadataChanged (se_sessionId s) (mo_canonical mo))
       (c\<lparr>ca_metadataOps := put (mo_operationId mo) (None, mo) (ca_metadataOps c),
          ca_sessions := put (se_sessionId s) (session_source (se_sessionId s) c,
            s\<lparr>se_metadata := mo_canonical mo, se_metadataAuthority := authority c, se_updatedAt := t\<rparr>) (ca_sessions c)\<rparr>) = Inr c1"
    and c2: "append_local e (MetadataOperation mo) c1 = Inr c2"
    and d: "d = (if se_catalogState s = Open then enqueueDeliveryIntent (se_runtimeNodeId s) (mo_operationId mo) mo c2 else c2)"
    by (auto simp: commit_body_def putMetadataOperation_Inr putSession_Inr session_source_def authority_def)
  note f = core_fields [OF core_append_local [OF c1]] core_fields [OF core_append_local [OF c2]]
  show "ca_metadataOps d = put (mo_operationId mo) (None, mo) (ca_metadataOps c)"
    "ca_sessions d = put (se_sessionId s) (session_source (se_sessionId s) c,
      s\<lparr>se_metadata := mo_canonical mo, se_metadataAuthority := authority c, se_updatedAt := t\<rparr>) (ca_sessions c)"
    "ca_role d = ca_role c" "ca_outbox d = ca_outbox c"
    by (simp_all add: d f)
qed

lemma settle_body_rows:
  assumes "settle_body e mo s t c = Inr d"
  shows "ca_metadataOps d = put (mo_operationId mo) (None, mo) (ca_metadataOps c)"
    and "ca_sessions d = (if ms_revision (se_metadata s) < ms_revision (mo_canonical mo)
      then put (se_sessionId s) (session_source (se_sessionId s) c,
        s\<lparr>se_metadata := mo_canonical mo, se_metadataAuthority := mo_authority mo, se_updatedAt := t\<rparr>) (ca_sessions c)
      else ca_sessions c)"
    and "ca_role d = ca_role c" and "ca_outbox d = filter (\<lambda>k. k \<noteq> mo_operationId mo) (ca_outbox c)"
proof -
  let ?adv = "ms_revision (se_metadata s) < ms_revision (mo_canonical mo)"
  let ?s = "s\<lparr>se_metadata := mo_canonical mo, se_metadataAuthority := mo_authority mo, se_updatedAt := t\<rparr>"
  let ?c = "c\<lparr>ca_metadataOps := put (mo_operationId mo) (None, mo) (ca_metadataOps c),
    ca_sessions := (if ?adv then put (se_sessionId s) (session_source (se_sessionId s) c, ?s) (ca_sessions c)
                    else ca_sessions c),
    ca_outbox := filter (\<lambda>k. k \<noteq> mo_operationId mo) (ca_outbox c)\<rparr>"
  from assms obtain c1 c2 where
    c1: "(if ?adv then append_local e (MetadataChanged (se_sessionId s) (mo_canonical mo)) ?c else Inr ?c) = Inr c1"
    and c2: "append_local e (MetadataOperation mo) c1 = Inr c2"
    and d: "d = (if se_catalogState s = Open then enqueueDeliveryIntent (se_runtimeNodeId s) (mo_operationId mo) mo c2 else c2)"
    by (cases ?adv) (auto simp: settle_body_def Let_def putMetadataOperation_Inr putSession_Inr session_source_def)
  have "core c1 = core ?c" using c1 by (cases ?adv) (auto dest: core_append_local)
  note f = core_fields [OF this] core_fields [OF core_append_local [OF c2]]
  show "ca_metadataOps d = put (mo_operationId mo) (None, mo) (ca_metadataOps c)"
    "ca_sessions d = (if ?adv then put (se_sessionId s) (session_source (se_sessionId s) c, ?s) (ca_sessions c) else ca_sessions c)"
    "ca_role d = ca_role c" "ca_outbox d = filter (\<lambda>k. k \<noteq> mo_operationId mo) (ca_outbox c)"
    by (simp_all add: d f)
qed


subsection \<open>Forward change\<close>

text \<open>
  What every metadata step does to the view of clients: the role stays, settled receipts stay,
  and a session's canonical snapshot changes only to one of a higher revision.
\<close>

definition meta_forward :: "catalog \<Rightarrow> catalog \<Rightarrow> bool" where
  "meta_forward c c' \<longleftrightarrow> ca_role c' = ca_role c \<and>
     (\<forall>k mo. getMetadataOperation k c = Some mo \<and> mo_status mo \<noteq> MQueued \<longrightarrow> getMetadataOperation k c' = Some mo) \<and>
     (\<forall>k s. getSession k c = Some s \<longrightarrow> (\<exists>s'. getSession k c' = Some s' \<and>
        (se_metadata s' = se_metadata s \<or> ms_revision (se_metadata s) < ms_revision (se_metadata s'))))"

lemma meta_forward_refl: "meta_forward c c"
  by (simp add: meta_forward_def)

lemma meta_forward_trans:
  assumes "meta_forward a b" "meta_forward b c"
  shows "meta_forward a c"
proof -
  have "\<exists>u. getSession k c = Some u \<and>
      (se_metadata u = se_metadata s \<or> ms_revision (se_metadata s) < ms_revision (se_metadata u))"
    if s: "getSession k a = Some s" for k s
  proof -
    from assms(1) s obtain r where r: "getSession k b = Some r"
        "se_metadata r = se_metadata s \<or> ms_revision (se_metadata s) < ms_revision (se_metadata r)"
      unfolding meta_forward_def by blast
    from assms(2) r(1) obtain u where "getSession k c = Some u"
        "se_metadata u = se_metadata r \<or> ms_revision (se_metadata r) < ms_revision (se_metadata u)"
      unfolding meta_forward_def by blast
    with r(2) show ?thesis by auto
  qed
  with assms show ?thesis unfolding meta_forward_def by simp
qed

lemma forward_rows:
  assumes "ids_ok c" "ca_role d = ca_role c"
    and "ca_metadataOps d = put (mo_operationId mo) (src, mo) (ca_metadataOps c)"
    and "case getMetadataOperation (mo_operationId mo) c of None \<Rightarrow> True | Some cur \<Rightarrow> mo_status cur = MQueued"
    and ids: "\<And>k s. getSession k d = Some s \<Longrightarrow> se_sessionId s = k"
    and fwd: "\<And>k s. getSession k c = Some s \<Longrightarrow> \<exists>s'. getSession k d = Some s' \<and>
      (se_metadata s' = se_metadata s \<or> ms_revision (se_metadata s) < ms_revision (se_metadata s'))"
  shows "ids_ok d \<and> meta_forward c d"
proof
  have ops: "getMetadataOperation k d = (if k = mo_operationId mo then Some mo else getMetadataOperation k c)" for k
    using assms(3) by (simp add: getMetadataOperation_def)
  show "ids_ok d"
    using assms(1) ids by (auto simp: ids_ok_def ops)
  show "meta_forward c d"
    unfolding meta_forward_def using assms(2,4) fwd by (auto simp: ops)
qed

lemma session_put_cases:
  assumes "ca_sessions d = put k (src, s') (ca_sessions c)"
  shows "getSession j d = (if j = k then Some s' else getSession j c)"
  using assms by (simp add: getSession_def)

lemma commit_canonical:
  "mo_canonical (commit_operation p m origin auth t t') = m \<or>
   ms_revision m < ms_revision (mo_canonical (commit_operation p m origin auth t t'))"
  by (auto simp: commit_operation_def split: metadata_patch_result.split
      dest: accepted_snapshot(1) conflicted_snapshot(1))

lemma commit_forward:
  assumes "commitMetadataAtAuthority e p s origin t0 t t' c = Inr (mo, c')" "ids_ok c"
    and "getSession (mp_sessionId p) c = Some s"
    and "case getMetadataOperation (mp_operationId p) c of None \<Rightarrow> True | Some cur \<Rightarrow> mo_status cur = MQueued"
  shows "ids_ok c' \<and> meta_forward c c'"
proof -
  define op where "op = commit_operation p (se_metadata s) origin (authority c) t0 t"
  from assms(1) have m: "mutate (commit_body e op s t') c = Inr c'"
    by (auto simp: commitMetadataAtAuthority_def Let_def op_def split: sum.splits)
  from mutate_Inr [OF m] obtain d where d: "commit_body e op s t' c = Inr d" and cd: "core c' = core d" by blast
  have id: "mo_operationId op = mp_operationId p" "se_sessionId s = mp_sessionId p"
    using assms(2,3) by (auto simp: op_def commit_operation_def ids_ok_def)
  note rows = commit_body_rows [OF d]
  have "ids_ok d \<and> meta_forward c d"
    by (rule forward_rows [OF assms(2) rows(3) rows(1)])
      (use session_put_cases [OF rows(2)] id assms(2-4) commit_canonical [of p "se_metadata s" origin "authority c" t0 t] in
        \<open>auto simp: op_def [symmetric] ids_ok_def split: if_splits\<close>)
  with cd show ?thesis
    by (simp add: ids_ok_core [OF cd] meta_forward_def get_core [OF cd] core_fields(4) [OF cd])
qed

lemma submit_forward:
  assumes "submitMetadataPatch e p origin t t' t'' c = Inr (mo, c')" "ids_ok c"
  shows "ids_ok c' \<and> meta_forward c c'"
proof (cases "getMetadataOperation (mp_operationId p) c")
  case (Some cur)
  then have id: "mo_operationId cur = mp_operationId p" using assms(2) by (auto simp: ids_ok_def)
  show ?thesis
  proof (cases "needs_relay cur c")
    case True
    with assms(1) Some obtain d where d: "core c' = core d"
      "andThen (putMetadataOperation cur None c) (\<lambda>c. Inr (insert_outbox_or_ignore (mo_operationId cur) c)) = Inr d"
      by (auto simp: submitMetadataPatch_def split: if_splits sum.splits dest!: mutate_Inr)
    then have rows: "ca_role d = ca_role c" "ca_sessions d = ca_sessions c"
        "ca_metadataOps d = put (mo_operationId cur) (None, cur) (ca_metadataOps c)"
      by (auto simp: putMetadataOperation_Inr insert_outbox_or_ignore_def)
    have "ids_ok d \<and> meta_forward c d"
      by (rule forward_rows [OF assms(2) rows(1,3)]) (use True id Some rows(2) assms(2) in \<open>auto simp: needs_relay_def getSession_def ids_ok_def\<close>)
    with d(1) show ?thesis
      by (simp add: ids_ok_core [OF d(1)] meta_forward_def get_core [OF d(1)] core_fields(4) [OF d(1)])
  next
    case False
    with assms Some show ?thesis
      by (auto simp: submitMetadataPatch_def meta_forward_refl split: if_splits)
  qed
next
  case None
  with assms(1) obtain s where s: "getSession (mp_sessionId p) c = Some s"
    by (auto simp: submitMetadataPatch_def split: if_splits option.splits)
  show ?thesis
  proof (cases "is_branch (ca_role c)")
    case True
    let ?op = "queued_operation p (se_metadata s) origin (authority c) t"
    from True None s assms(1) obtain d where d: "core c' = core d"
      "andThen (putMetadataOperation ?op None c) (\<lambda>c. andThen (insert_outbox (mo_operationId ?op) c)
         (append_local e (MetadataOperation ?op))) = Inr d"
      by (auto simp: submitMetadataPatch_def Let_def split: if_splits sum.splits dest!: mutate_Inr)
    then have "core d = core (c\<lparr>ca_metadataOps := put (mo_operationId ?op) (None, ?op) (ca_metadataOps c),
        ca_outbox := ca_outbox c @ [mo_operationId ?op]\<rparr>)"
      by (auto simp: putMetadataOperation_Inr insert_outbox_def split: if_splits dest: core_append_local)
    note rows = core_fields [OF this]
    have "ids_ok d \<and> meta_forward c d"
      by (rule forward_rows [OF assms(2), where mo = ?op and src = None])
        (use rows None assms(2) in \<open>auto simp: queued_operation_def getSession_def ids_ok_def\<close>)
    with d(1) show ?thesis
      by (simp add: ids_ok_core [OF d(1)] meta_forward_def get_core [OF d(1)] core_fields(4) [OF d(1)])
  next
    case False
    with None s assms(1) have "commitMetadataAtAuthority e p s origin t t' t'' c = Inr (mo, c')"
      by (auto simp: submitMetadataPatch_def split: if_splits)
    from commit_forward [OF this assms(2) s] None show ?thesis by simp
  qed
qed

lemma apply_forward:
  assumes "applyMetadataAtAuthority e mo t t' c = Inr (r, c')" "ids_ok c"
  shows "ids_ok c' \<and> meta_forward c c'"
proof (cases "\<exists>cur. getMetadataOperation (mo_operationId mo) c = Some cur \<and> mo_status cur \<noteq> MQueued")
  case True
  with assms show ?thesis
    by (auto simp: applyMetadataAtAuthority_def meta_forward_refl split: if_splits)
next
  case False
  from assms(1) have valid: "metadataOperationRecordSchema mo"
    by (auto simp: applyMetadataAtAuthority_def split: if_splits)
  from False assms(1) obtain s where s: "getSession (mo_sessionId mo) c = Some s"
    and commit: "commitMetadataAtAuthority e (mo_patch mo) s (mo_originControlNodeId mo) (mo_createdAt mo) t t' c = Inr (r, c')"
    by (auto simp: applyMetadataAtAuthority_def split: if_splits option.splits)
  from valid have id: "mp_sessionId (mo_patch mo) = mo_sessionId mo" "mp_operationId (mo_patch mo) = mo_operationId mo"
    by (auto simp: metadataOperationRecordSchema_def)
  show ?thesis
    by (rule commit_forward [OF commit assms(2)]) (use s id False in \<open>auto split: option.splits\<close>)
qed

lemma settle_forward:
  assumes "settleMetadataOperation e au mo t c = Inr (r, c')" "ids_ok c"
  shows "ids_ok c' \<and> meta_forward c c'"
proof (cases "\<exists>cur. getMetadataOperation (mo_operationId mo) c = Some cur \<and> mo_status cur \<noteq> MQueued")
  case True
  with assms show ?thesis
    by (auto simp: settleMetadataOperation_def meta_forward_refl split: if_splits)
next
  case False
  with assms(1) obtain adm where "settle_open e adm mo t c = Inr (r, c')"
    by (auto simp: settleMetadataOperation_def split: if_splits option.splits)
  then obtain s where s: "getSession (mo_sessionId mo) c = Some s" and m: "mutate (settle_body e mo s t) c = Inr c'"
    by (auto simp: settle_open_def split: option.splits if_splits sum.splits)
  from mutate_Inr [OF m] obtain d where d: "settle_body e mo s t c = Inr d" and cd: "core c' = core d" by blast
  note rows = settle_body_rows [OF d]
  have id: "se_sessionId s = mo_sessionId mo" using assms(2) s by (auto simp: ids_ok_def)
  have "ids_ok d \<and> meta_forward c d"
    by (rule forward_rows [OF assms(2) rows(3,1)])
      (use rows(2) id s False assms(2) in \<open>auto simp: getSession_def ids_ok_def split: option.splits if_splits\<close>)
  with cd show ?thesis
    by (simp add: ids_ok_core [OF cd] meta_forward_def get_core [OF cd] core_fields(4) [OF cd])
qed

lemma unknown_forward:
  assumes "mutate (markMetadataOutcomeUnknown e k t) c = Inr c'" "ids_ok c"
  shows "ids_ok c' \<and> meta_forward c c'"
proof -
  from mutate_Inr [OF assms(1)] obtain d where d: "markMetadataOutcomeUnknown e k t c = Inr d" and cd: "core c' = core d" by blast
  have "ids_ok d \<and> meta_forward c d"
  proof (cases "\<exists>mo. getMetadataOperation k c = Some mo \<and> mo_status mo = MQueued")
    case True
    then obtain mo where mo: "getMetadataOperation k c = Some mo" "mo_status mo = MQueued" by blast
    let ?u = "mo\<lparr>mo_status := MOutcomeUnknown, mo_optimistic := None, mo_updatedAt := t\<rparr>"
    from d mo have "core d = core (c\<lparr>ca_metadataOps := put (mo_operationId ?u) (None, ?u) (ca_metadataOps c)\<rparr>)"
      by (auto simp: markMetadataOutcomeUnknown_def Let_def putMetadataOperation_Inr dest: core_append_local)
    note rows = core_fields [OF this]
    have "mo_operationId mo = k" using mo assms(2) by (auto simp: ids_ok_def)
    with mo show ?thesis
      by (intro forward_rows [OF assms(2), where mo = ?u and src = None])
        (use rows assms(2) in \<open>auto simp: getSession_def ids_ok_def\<close>)
  next
    case False
    with d assms(2) show ?thesis
      by (auto simp: markMetadataOutcomeUnknown_def meta_forward_refl split: option.splits if_splits)
  qed
  with cd show ?thesis
    by (simp add: ids_ok_core [OF cd] meta_forward_def get_core [OF cd] core_fields(4) [OF cd])
qed


subsection \<open>Steps\<close>

text \<open>The calls that change metadata state, in any order; \<open>Ack\<close> is the delivery acknowledgement.\<close>

inductive metadata_step :: "env \<Rightarrow> catalog \<Rightarrow> catalog \<Rightarrow> bool" for e where
  Submit: "submitMetadataPatch e p origin t t' t'' c = Inr (mo, c') \<Longrightarrow> metadata_step e c c'"
| Apply: "applyMetadataAtAuthority e mo t t' c = Inr (r, c') \<Longrightarrow> metadata_step e c c'"
| Settle: "settleMetadataOperation e au mo t c = Inr (r, c') \<Longrightarrow> metadata_step e c c'"
| Unknown: "mutate (markMetadataOutcomeUnknown e k t) c = Inr c' \<Longrightarrow> metadata_step e c c'"
| Ack: "acknowledgeMetadataDelivery seq dest op c = (b, c') \<Longrightarrow> metadata_step e c c'"

inductive metadata_steps :: "env \<Rightarrow> catalog \<Rightarrow> catalog \<Rightarrow> bool" for e where
  Done: "metadata_steps e c c"
| More: "metadata_steps e c d \<Longrightarrow> metadata_step e d c' \<Longrightarrow> metadata_steps e c c'"

inductive_cases metadata_stepE: "metadata_step e c c'"

lemma ack_rows:
  "acknowledgeMetadataDelivery seq dest op c = (b, c') \<Longrightarrow> ids_ok c \<Longrightarrow> ids_ok c' \<and> meta_forward c c'"
  by (auto simp: acknowledgeMetadataDelivery_def Let_def ids_ok_def meta_forward_def getMetadataOperation_def
      getSession_def split: if_splits)

lemma step_forward: "metadata_step e c c' \<Longrightarrow> ids_ok c \<Longrightarrow> ids_ok c' \<and> meta_forward c c'"
  by (induction rule: metadata_step.induct)
    (rule submit_forward apply_forward settle_forward unknown_forward ack_rows; assumption)+

lemma steps_forward: "metadata_steps e c c' \<Longrightarrow> ids_ok c \<Longrightarrow> ids_ok c' \<and> meta_forward c c'"
  by (induction rule: metadata_steps.induct)
    (auto intro: meta_forward_refl meta_forward_trans dest: step_forward)

text \<open>A settled receipt answers every later retry of its proposal and changes nothing.\<close>

lemma submit_retry:
  assumes "getMetadataOperation (mp_operationId p) c = Some mo" "mo_status mo \<noteq> MQueued"
    and "metadataPatchSchema p" "mp_expectedAuthority p = authority c"
    and "sameMetadataPatch (en_lc e) (mo_patch mo) p" "mo_originControlNodeId mo = origin"
  shows "submitMetadataPatch e p origin t t' t'' c = Inr (mo, c)"
  using assms by (simp add: submitMetadataPatch_def needs_relay_def assertAuthority_def)

lemma apply_retry:
  assumes "getMetadataOperation (mo_operationId mo) c = Some r" "mo_status r \<noteq> MQueued"
    and "\<not> is_branch (ca_role c)" "metadataOperationRecordSchema mo" "mo_authority mo = authority c"
    and "sameMetadataOperationIdentity (en_lc e) r mo"
  shows "applyMetadataAtAuthority e mo t t' c = Inr (r, c)"
  using assms by (simp add: applyMetadataAtAuthority_def assertAuthority_def)

subsection \<open>Snapshots stay within the schema\<close>

lemma list_all_put: "list_all P t \<Longrightarrow> P (k, v) \<Longrightarrow> list_all P (put k v t)"
  by (induction t) auto

lemma list_all_del: "list_all P t \<Longrightarrow> list_all P (del k t)"
  by (induction t) auto

lemma list_all_spread: "list_all P t \<Longrightarrow> list_all P ext \<Longrightarrow> list_all P (spread t ext)"
  unfolding spread_def by (induction ext arbitrary: t) (auto intro: list_all_put)

lemma list_all_del_all: "list_all P t \<Longrightarrow> list_all P (del_all ks t)"
  unfolding del_all_def by (induction ks arbitrary: t) (auto intro: list_all_del)

lemma list_all_put_all: "list_all P t \<Longrightarrow> (\<forall>k \<in> set ks. P (k, v)) \<Longrightarrow> list_all P (put_all ks v t)"
  unfolding put_all_def by (induction ks arbitrary: t) (auto intro: list_all_put)

lemma optimistic_schema:
  "metadataSnapshotSchema m \<Longrightarrow> metadataPatchSchema p \<Longrightarrow> metadataSnapshotSchema (optimisticMetadata m p)"
  by (auto simp: metadataSnapshotSchema_def metadataPatchSchema_def optimisticMetadata_def
      intro!: list_all_del_all list_all_spread)

lemma apply_schema:
  assumes "applyMetadataPatch m p = PatchAccepted n" "metadataSnapshotSchema m" "metadataPatchSchema p"
    and "ms_revision m < max_safe_integer"
  shows "metadataSnapshotSchema n"
proof -
  have keys: "\<forall>k \<in> set (patch_remove p). metadataKeySchema k" "\<And>k v. (k, v) \<in> set (patch_set p) \<Longrightarrow> metadataKeySchema k"
    using assms(3) by (auto simp: metadataPatchSchema_def list_all_iff)
  have "list_all (\<lambda>kv. metadataKeySchema (fst kv)) (ms_values n)"
    using optimistic_schema [OF assms(2,3)] by (simp add: accepted_snapshot(2) [OF assms(1)] metadataSnapshotSchema_def)
  moreover have "list_all (\<lambda>kv. metadataKeySchema (fst kv) \<and> snd kv \<le> max_safe_integer) (ms_keyRevisions n)"
    using assms(1,2,4) keys
    by (auto simp: applyMetadataPatch_def Let_def metadataSnapshotSchema_def split: if_splits
        intro!: list_all_put_all)
  ultimately show ?thesis
    using assms(4) by (simp add: metadataSnapshotSchema_def accepted_snapshot(1) [OF assms(1)])
qed

lemma queued_schema:
  assumes "metadataPatchSchema p" "metadataSnapshotSchema m" "mp_expectedAuthority p = auth"
  shows "metadataOperationRecordSchema (queued_operation p m origin auth t)"
  using assms optimistic_schema [OF assms(2,1)]
  by (simp add: metadataOperationRecordSchema_def queued_operation_def)

lemma commit_schema:
  assumes "metadataPatchSchema p" "metadataSnapshotSchema m" "mp_expectedAuthority p = auth"
    and "ms_revision m < max_safe_integer"
  shows "metadataOperationRecordSchema (commit_operation p m origin auth t t')"
    and "metadataSnapshotSchema (mo_canonical (commit_operation p m origin auth t t'))"
  using assms apply_schema [OF _ assms(2,1,4)]
  by (auto simp: metadataOperationRecordSchema_def commit_operation_def split: metadata_patch_result.split
      dest: conflicted_snapshot)


subsection \<open>Calls that succeed\<close>

text \<open>A catalog between two calls: everything published, every stored session valid, no native key twice.\<close>

definition catalog_ok :: "catalog \<Rightarrow> bool" where
  "catalog_ok c \<longleftrightarrow> idle c \<and> ids_ok c \<and> set (ca_outbox c) \<subseteq> fst ` set (ca_metadataOps c) \<and>
     (\<forall>k s. getSession k c = Some s \<longrightarrow> sessionRecordSchema s \<and> \<not> native_clash s c)"

lemma native_clash_cong:
  "native_key s = native_key s' \<Longrightarrow> se_sessionId s = se_sessionId s' \<Longrightarrow> ca_sessions c = ca_sessions c' \<Longrightarrow>
   native_clash s c = native_clash s' c'"
  by (simp add: native_clash_def)

lemma enqueue_appended: "appended c [] (enqueueDeliveryIntent a b mo c)"
  by (rule appended_Nil) (simp_all add: enqueueDeliveryIntent_def)

lemma putMetadataOperation_ok:
  "metadataOperationRecordSchema mo \<Longrightarrow> \<exists>d. putMetadataOperation mo src c = Inr d \<and> appended c [] d \<and>
     ca_sessions d = ca_sessions c \<and> ca_role d = ca_role c \<and> ca_outbox d = ca_outbox c"
  by (auto simp: putMetadataOperation_def intro!: appended_Nil)

lemma putSession_ok:
  "sessionRecordSchema s \<Longrightarrow> \<not> native_clash s c \<Longrightarrow> \<exists>d. putSession s src c = Inr d \<and> appended c [] d"
  by (auto simp: putSession_def intro!: appended_Nil)

lemma append_ok:
  "controlChangeSchema ch \<Longrightarrow> \<exists>d i. append_local e ch c = Inr d \<and> appended c [i] d \<and> fi_change i = ch"
  using append_local_ok [of ch e c] append_local_appended by blast

lemma with_metadata_schema:
  "sessionRecordSchema s \<Longrightarrow> metadataSnapshotSchema m \<Longrightarrow>
   sessionRecordSchema (s\<lparr>se_metadata := m, se_metadataAuthority := a, se_updatedAt := t\<rparr>)"
  by (simp add: sessionRecordSchema_def)

lemma with_metadata_key:
  "native_key (s\<lparr>se_metadata := m, se_metadataAuthority := a, se_updatedAt := t\<rparr>) = native_key s"
  by (simp add: native_key_def)

lemma commit_body_ok:
  assumes "catalog_ok c" "getSession k c = Some s" "metadataOperationRecordSchema mo"
  shows "\<exists>d is. commit_body e mo s t c = Inr d \<and> appended c is d \<and>
    map fi_change is = [MetadataChanged (se_sessionId s) (mo_canonical mo), MetadataOperation mo]"
proof -
  let ?s = "s\<lparr>se_metadata := mo_canonical mo, se_metadataAuthority := authority c, se_updatedAt := t\<rparr>"
  from assms have s: "sessionRecordSchema s" "\<not> native_clash s c" and m: "metadataSnapshotSchema (mo_canonical mo)"
    by (auto simp: catalog_ok_def metadataOperationRecordSchema_def)
  obtain c1 where c1: "putMetadataOperation mo None c = Inr c1" "appended c [] c1" "ca_sessions c1 = ca_sessions c"
      "ca_role c1 = ca_role c"
    using putMetadataOperation_ok [OF assms(3), of None c] by blast
  have "\<not> native_clash ?s c1"
    using s(2) native_clash_cong [of ?s s c1 c] c1(3) by (simp add: with_metadata_key)
  then obtain c2 where c2: "putSession ?s (session_source (se_sessionId s) c1) c1 = Inr c2" "appended c1 [] c2"
    using putSession_ok with_metadata_schema [OF s(1) m] by blast
  obtain c3 i where c3: "append_local e (MetadataChanged (se_sessionId s) (mo_canonical mo)) c2 = Inr c3"
      "appended c2 [i] c3" "fi_change i = MetadataChanged (se_sessionId s) (mo_canonical mo)"
    using append_ok [of "MetadataChanged (se_sessionId s) (mo_canonical mo)" e c2] m by auto
  obtain c4 j where c4: "append_local e (MetadataOperation mo) c3 = Inr c4"
      "appended c3 [j] c4" "fi_change j = MetadataOperation mo"
    using append_ok [of "MetadataOperation mo" e c3] assms(3) by auto
  let ?d = "if se_catalogState s = Open then enqueueDeliveryIntent (se_runtimeNodeId s) (mo_operationId mo) mo c4 else c4"
  have "commit_body e mo s t c = Inr ?d"
    using c1 c2 c3 c4 by (simp add: commit_body_def authority_def)
  moreover have "appended c4 [] ?d" using enqueue_appended appended_refl by simp
  then have "appended c [i, j] ?d"
    using appended_trans [OF c1(2) appended_trans [OF c2(2) appended_trans [OF c3(2) appended_trans [OF c4(2)]]]] by simp
  moreover have "map fi_change [i, j] = [MetadataChanged (se_sessionId s) (mo_canonical mo), MetadataOperation mo]" using c3(3) c4(3) by simp
  ultimately show ?thesis by (intro exI conjI)
qed

lemma settle_body_ok:
  assumes "catalog_ok c" "getSession k c = Some s" "metadataOperationRecordSchema mo"
  shows "\<exists>d is. settle_body e mo s t c = Inr d \<and> appended c is d \<and> map fi_change is =
    (if ms_revision (se_metadata s) < ms_revision (mo_canonical mo)
     then [MetadataChanged (se_sessionId s) (mo_canonical mo)] else []) @ [MetadataOperation mo]"
proof -
  let ?adv = "ms_revision (se_metadata s) < ms_revision (mo_canonical mo)"
  let ?s = "s\<lparr>se_metadata := mo_canonical mo, se_metadataAuthority := mo_authority mo, se_updatedAt := t\<rparr>"
  from assms have s: "sessionRecordSchema s" "\<not> native_clash s c" and m: "metadataSnapshotSchema (mo_canonical mo)"
    by (auto simp: catalog_ok_def metadataOperationRecordSchema_def)
  obtain c1 where c1: "putMetadataOperation mo None c = Inr c1" "appended c [] c1" "ca_sessions c1 = ca_sessions c"
    using putMetadataOperation_ok [OF assms(3), of None c] by blast
  have "\<not> native_clash ?s c1"
    using s(2) native_clash_cong [of ?s s c1 c] c1(3) by (simp add: with_metadata_key)
  then obtain c2 where c2: "(if ?adv then putSession ?s (session_source (se_sessionId s) c1) c1 else Inr c1) = Inr c2"
      "appended c1 [] c2"
  proof (cases ?adv)
    case True
    then show ?thesis
      using putSession_ok [of ?s c1 "session_source (se_sessionId s) c1"] with_metadata_schema [OF s(1) m]
        \<open>\<not> native_clash ?s c1\<close> that by auto
  next
    case False
    then show ?thesis using that [of c1] appended_refl by simp
  qed
  let ?c2 = "c2\<lparr>ca_outbox := filter (\<lambda>k. k \<noteq> mo_operationId mo) (ca_outbox c2)\<rparr>"
  have a2: "appended c2 [] ?c2" by (rule appended_Nil) simp_all
  obtain c3 xs where c3: "(if ?adv then append_local e (MetadataChanged (se_sessionId s) (mo_canonical mo)) ?c2 else Inr ?c2) = Inr c3"
      "appended ?c2 xs c3" "map fi_change xs = (if ?adv then [MetadataChanged (se_sessionId s) (mo_canonical mo)] else [])"
  proof (cases ?adv)
    case True
    obtain c3 i where "append_local e (MetadataChanged (se_sessionId s) (mo_canonical mo)) ?c2 = Inr c3"
      "appended ?c2 [i] c3" "fi_change i = MetadataChanged (se_sessionId s) (mo_canonical mo)"
      using append_ok [of "MetadataChanged (se_sessionId s) (mo_canonical mo)" e ?c2] m by auto
    with True show ?thesis by (intro that [of c3 "[i]"]) simp_all
  next
    case False
    then show ?thesis by (intro that [of ?c2 "[]"]) (simp_all add: appended_refl)
  qed
  obtain c4 j where c4: "append_local e (MetadataOperation mo) c3 = Inr c4"
      "appended c3 [j] c4" "fi_change j = MetadataOperation mo"
    using append_ok [of "MetadataOperation mo" e c3] assms(3) by auto
  let ?d = "if se_catalogState s = Open then enqueueDeliveryIntent (se_runtimeNodeId s) (mo_operationId mo) mo c4 else c4"
  have "settle_body e mo s t c = Inr ?d"
    using c1 c2 c3 c4 by (simp add: settle_body_def Let_def)
  moreover have "appended c4 [] ?d" using enqueue_appended appended_refl by simp
  then have "appended c (xs @ [j]) ?d"
    using appended_trans [OF c1(2) appended_trans [OF c2(2) appended_trans [OF a2 appended_trans [OF c3(2) appended_trans [OF c4(2)]]]]]
    by simp
  moreover have "map fi_change (xs @ [j]) =
    (if ?adv then [MetadataChanged (se_sessionId s) (mo_canonical mo)] else []) @ [MetadataOperation mo]" using c3(3) c4(3) by simp
  ultimately show ?thesis by (intro exI conjI)
qed

lemma commit_ok:
  fixes origin t t0 :: string
  assumes "catalog_ok c" "getSession (mp_sessionId p) c = Some s" "metadataPatchSchema p"
    and "mp_expectedAuthority p = authority c" "ms_revision (se_metadata s) < max_safe_integer"
  defines "mo \<equiv> commit_operation p (se_metadata s) origin (authority c) t0 t"
  shows "\<exists>c' is. commitMetadataAtAuthority e p s origin t0 t t' c = Inr (mo, c') \<and> idle c' \<and>
    ca_emitted c' = ca_emitted c @ is \<and>
    map fi_change is = [MetadataChanged (mp_sessionId p) (mo_canonical mo), MetadataOperation mo] \<and>
    getMetadataOperation (mp_operationId p) c' = Some mo \<and> ca_role c' = ca_role c \<and>
    getSession (mp_sessionId p) c' =
      Some (s\<lparr>se_metadata := mo_canonical mo, se_metadataAuthority := authority c, se_updatedAt := t'\<rparr>)"
proof -
  have id: "se_sessionId s = mp_sessionId p" using assms(1,2) by (auto simp: catalog_ok_def ids_ok_def)
  have "metadataSnapshotSchema (se_metadata s)"
    using assms(1,2) by (auto simp: catalog_ok_def sessionRecordSchema_def)
  then have valid: "metadataOperationRecordSchema mo"
    unfolding mo_def by (rule commit_schema(1) [OF assms(3) _ assms(4,5)])
  from commit_body_ok [OF assms(1,2) valid, of e t'] obtain d "is" where d: "commit_body e mo s t' c = Inr d"
      "appended c is d" "map fi_change is = [MetadataChanged (mp_sessionId p) (mo_canonical mo), MetadataOperation mo]"
    unfolding id by (elim exE conjE)
  have "idle c" using assms(1) by (simp add: catalog_ok_def)
  from mutate_emits [of "commit_body e mo s t'", OF d(1,2) this] obtain c' where
    c': "mutate (commit_body e mo s t') c = Inr c'" "idle c'" "core c' = core d" "ca_emitted c' = ca_emitted c @ is"
    by blast
  have mid: "mo_operationId mo = mp_operationId p" by (simp add: mo_def commit_operation_def)
  have "commitMetadataAtAuthority e p s origin t0 t t' c = Inr (mo, c')"
    using c'(1) by (simp add: commitMetadataAtAuthority_def Let_def mo_def)
  moreover have "getMetadataOperation (mp_operationId p) c' = Some mo"
    "getSession (mp_sessionId p) c' =
      Some (s\<lparr>se_metadata := mo_canonical mo, se_metadataAuthority := authority c, se_updatedAt := t'\<rparr>)"
    using commit_body_rows(1,2) [OF d(1)]
    by (simp_all add: core_fields(10,12) [OF c'(3)] getMetadataOperation_def getSession_def mid id)
  moreover have "ca_role c' = ca_role c" using commit_body_rows(3) [OF d(1)] core_fields(4) [OF c'(3)] by simp
  ultimately show ?thesis using c'(2,4) d(3) by (intro exI conjI)
qed

lemma settle_ok:
  assumes "catalog_ok c" "getSession (mo_sessionId mo) c = Some s" "metadataOperationRecordSchema mo"
    and "se_metadataAuthority s = mo_authority mo"
    and "ms_revision (mo_canonical mo) = ms_revision (se_metadata s) \<longrightarrow> sameSnapshot (en_lc e) (mo_canonical mo) (se_metadata s)"
  shows "\<exists>c'. settle_open e True mo t c = Inr (mo, c') \<and> idle c' \<and>
    getMetadataOperation (mo_operationId mo) c' = Some mo \<and> mo_operationId mo \<notin> set (ca_outbox c') \<and>
    (\<exists>s'. getSession (mo_sessionId mo) c' = Some s' \<and> se_metadata s' =
       (if ms_revision (se_metadata s) < ms_revision (mo_canonical mo) then mo_canonical mo else se_metadata s))"
proof -
  have id: "se_sessionId s = mo_sessionId mo" using assms(1,2) by (auto simp: catalog_ok_def ids_ok_def)
  from settle_body_ok [OF assms(1,2,3), of e t] obtain d "is" where d: "settle_body e mo s t c = Inr d" "appended c is d"
    by blast
  have "idle c" using assms(1) by (simp add: catalog_ok_def)
  from mutate_emits [of "settle_body e mo s t", OF d this] obtain c' where
    c': "mutate (settle_body e mo s t) c = Inr c'" "idle c'" "core c' = core d"
    by blast
  have "settle_open e True mo t c = Inr (mo, c')"
    using assms(2,4,5) c'(1) by (simp add: settle_open_def)
  moreover have "getMetadataOperation (mo_operationId mo) c' = Some mo"
    using settle_body_rows(1) [OF d(1)] by (simp add: core_fields(12) [OF c'(3)] getMetadataOperation_def)
  moreover have "mo_operationId mo \<notin> set (ca_outbox c')"
    using settle_body_rows(4) [OF d(1)] core_fields(13) [OF c'(3)] by simp
  moreover have "\<exists>s'. getSession (mo_sessionId mo) c' = Some s' \<and> se_metadata s' =
       (if ms_revision (se_metadata s) < ms_revision (mo_canonical mo) then mo_canonical mo else se_metadata s)"
    using settle_body_rows(2) [OF d(1)] assms(2) by (simp add: core_fields(10) [OF c'(3)] getSession_def id)
  ultimately show ?thesis using c'(2) by blast
qed

end
