(* ===== verification/Control_Metadata_Props.thy ===== *)
theory Control_Metadata_Props
  imports Control_Metadata_Facts
begin

text \<open>Properties of the catalog's metadata operations, with example catalogs that meet their hypotheses.\<close>

subsection \<open>Queueing on a branch\<close>

lemma queue_ok:
  fixes origin t :: string
  assumes "catalog_ok c" "is_branch (ca_role c)" "metadataPatchSchema p" "mp_expectedAuthority p = authority c"
    and "getMetadataOperation (mp_operationId p) c = None" "getSession (mp_sessionId p) c = Some s"
  defines "mo \<equiv> queued_operation p (se_metadata s) origin (authority c) t"
  shows "\<exists>c'. submitMetadataPatch e p origin t t' t'' c = Inr (mo, c') \<and> catalog_ok c' \<and>
    ca_role c' = ca_role c \<and> getMetadataOperation (mp_operationId p) c' = Some mo \<and>
    ca_outbox c' = ca_outbox c @ [mp_operationId p] \<and> ca_sessions c' = ca_sessions c"
proof -
  have m: "metadataSnapshotSchema (se_metadata s)"
    using assms(1,6) by (auto simp: catalog_ok_def sessionRecordSchema_def)
  have valid: "metadataOperationRecordSchema mo"
    unfolding mo_def by (rule queued_schema [OF assms(3) m assms(4)])
  have id: "mo_operationId mo = mp_operationId p" by (simp add: mo_def queued_operation_def)
  have fresh: "mp_operationId p \<notin> set (ca_outbox c)"
    using assms(1,5) by (auto simp: catalog_ok_def getMetadataOperation_def row_def map_of_eq_None_iff)
  let ?c1 = "c\<lparr>ca_metadataOps := put (mp_operationId p) (None, mo) (ca_metadataOps c),
    ca_outbox := ca_outbox c @ [mp_operationId p]\<rparr>"
  obtain d i where d: "append_local e (MetadataOperation mo) ?c1 = Inr d" "appended ?c1 [i] d"
    using append_ok [of "MetadataOperation mo" e ?c1] valid by auto
  let ?body = "\<lambda>c. andThen (putMetadataOperation mo None c) (\<lambda>c.
     andThen (insert_outbox (mo_operationId mo) c) (append_local e (MetadataOperation mo)))"
  have body: "?body c = Inr d"
    using d(1) fresh valid by (simp add: putMetadataOperation_def insert_outbox_def id)
  have "appended c [] ?c1" by (rule appended_Nil) simp_all
  from appended_trans [OF this d(2)] have app: "appended c [i] d" by simp
  have "idle c" using assms(1) by (simp add: catalog_ok_def)
  from mutate_emits [of ?body, OF body app this] obtain c' where
    c': "mutate ?body c = Inr c'" "idle c'" "core c' = core d" by blast
  have "core c' = core ?c1" using c'(3) core_append_local [OF d(1)] by simp
  note rows = core_fields [OF this]
  have "submitMetadataPatch e p origin t t' t'' c = Inr (mo, c')"
    using assms(2-6) c'(1) by (simp add: submitMetadataPatch_def assertAuthority_def Let_def mo_def)
  moreover have "ids_ok c'"
    using assms(1) id rows by (auto simp: catalog_ok_def ids_ok_def getMetadataOperation_def getSession_def)
  moreover have "set (ca_outbox c') \<subseteq> fst ` set (ca_metadataOps c')"
    using assms(1) by (auto simp: rows dom_update catalog_ok_def)
  moreover have "\<forall>k s. getSession k c' = Some s \<longrightarrow> sessionRecordSchema s \<and> \<not> native_clash s c'"
    using assms(1) rows by (simp add: catalog_ok_def getSession_def native_clash_def)
  ultimately show ?thesis
    using c'(2) rows by (intro exI [of _ c']) (simp add: catalog_ok_def getMetadataOperation_def)
qed


subsection \<open>Example catalogs\<close>

definition demo_session :: session where
  "demo_session = \<lparr>se_sessionId = ''s1'', se_runtimeNodeId = ''rn1'', se_harness = ''codex'',
     se_adapterScopeId = ''a'', se_vendorSessionId = ''v'', se_bindingRevision = 1, se_runtimeEpoch = None,
     se_cwd = None, se_availability = Resumable, se_runtimeStatus = Stopped, se_harnessSettings = None,
     se_nativeSummary = None, se_launchProvenance = None, se_metadata = emptyMetadataSnapshot,
     se_createdAt = ''t0'', se_updatedAt = ''t0'', se_lastSeenAt = None, se_lastActivityAt = None,
     se_metadataAuthority = demo_authority, se_catalogState = Open, se_catalogRevision = 1, se_archivedAt = None\<rparr>"

definition demo_catalog :: "data_role \<Rightarrow> catalog" where
  "demo_catalog role = \<lparr>ca_controlNodeId = ''c1'', ca_feedId = ''f1'', ca_retention = 1000, ca_role = role,
     ca_transitions = [], ca_desiredUpstream = None, ca_upstreamInitialized = False, ca_controlNodes = [],
     ca_attachments = [], ca_runtimeNodes = [], ca_sessions = [(''s1'', None, demo_session)],
     ca_interactions = [], ca_metadataOps = [], ca_outbox = [], ca_commands = [], ca_intents = [],
     ca_launches = [], ca_archives = [], ca_inventories = [], ca_checkpoints = [], ca_imported = [], ca_deliveries = [],
     ca_nextDelivery = 1, ca_peers = [], ca_lastCursor = 0, ca_minCursor = 0, ca_events = [],
     ca_published = 0, ca_emitted = []\<rparr>"

definition demo_env :: env where
  "demo_env = \<lparr>en_lc = (\<lambda>_ _. 0), en_eventId = (\<lambda>f n. f @ replicate n CHR ''x'')\<rparr>"

definition demo_branch :: data_role where
  "demo_branch = Branch demo_authority (Attached ''c0'' ''at1'' ''l1'' ''t0'')"

lemma demo_catalog_ok: "catalog_ok (demo_catalog role)"
proof -
  have key: "k = ''s1'' \<and> s = demo_session" if "getSession k (demo_catalog role) = Some s" for k s
    using that by (simp add: demo_catalog_def getSession_def row_def split: if_splits)
  have "sessionRecordSchema demo_session"
    by (simp add: sessionRecordSchema_def demo_session_def metadataSnapshotSchema_def emptyMetadataSnapshot_def)
  moreover have "\<not> native_clash demo_session (demo_catalog role)"
    by (simp add: native_clash_def demo_catalog_def demo_session_def)
  moreover have "idle (demo_catalog role)"
    by (simp add: idle_def feed_ok_def demo_catalog_def)
  moreover have "ids_ok (demo_catalog role)"
  proof -
    have "getMetadataOperation k (demo_catalog role) = None" for k
      by (simp add: getMetadataOperation_def demo_catalog_def)
    moreover have "se_sessionId s = k" if "getSession k (demo_catalog role) = Some s" for k s
      using key [OF that] by (simp add: demo_session_def)
    ultimately show ?thesis by (simp add: ids_ok_def)
  qed
  moreover have "ca_outbox (demo_catalog role) = []" by (simp add: demo_catalog_def)
  ultimately show ?thesis
    unfolding catalog_ok_def using key by (metis empty_subsetI set_empty)
qed

lemma demo_patch_ok: "metadataPatchSchema (demo_patch None)"
  by code_simp

lemma demo_rows [simp]:
  "getSession ''s1'' (demo_catalog role) = Some demo_session"
  "getMetadataOperation k (demo_catalog role) = None"
  "authority (demo_catalog role) = role_authority role"
  "ca_role (demo_catalog role) = role"
  by (simp_all add: demo_catalog_def getSession_def getMetadataOperation_def row_def authority_def)

lemma demo_fields [simp]:
  "mp_sessionId (demo_patch x) = ''s1''" "mp_expectedAuthority (demo_patch x) = demo_authority"
  "mp_operationId (demo_patch x) = ''op''" "se_metadata demo_session = emptyMetadataSnapshot"
  "se_metadataAuthority demo_session = demo_authority" "se_sessionId demo_session = ''s1''"
  by (simp_all add: demo_patch_def demo_session_def)

subsection \<open>Properties\<close>

text \<open>C5: however proposals, authority commits, settlements, forced outcomes and acknowledgements are
  interleaved, a settled receipt (accepted, conflicted or unknown) is never rewritten, the role is
  never touched, and the canonical metadata of a session never changes except to a snapshot with a
  higher revision.\<close>

theorem metadata_receipts_immutable:
  assumes "metadata_steps e c c'" and "ids_ok c"
  shows "ca_role c' = ca_role c \<and>
    (\<forall>k mo. getMetadataOperation k c = Some mo \<and> mo_status mo \<noteq> MQueued \<longrightarrow> getMetadataOperation k c' = Some mo) \<and>
    (\<forall>k s. getSession k c = Some s \<longrightarrow> (\<exists>s'. getSession k c' = Some s' \<and>
       (se_metadata s' = se_metadata s \<or> ms_revision (se_metadata s) < ms_revision (se_metadata s'))))"
  using steps_forward [OF assms] by (simp add: meta_forward_def)

theorem metadata_receipts_immutable_witness:
  "\<exists>c'. metadata_step demo_env (demo_catalog (Authority demo_authority)) c' \<and>
     ca_role c' = Authority demo_authority \<and> (\<exists>s'. getSession ''s1'' c' = Some s')"
proof -
  obtain mo c' where sub: "submitMetadataPatch demo_env (demo_patch None) ''c1'' ''t1'' ''t1'' ''t1''
      (demo_catalog (Authority demo_authority)) = Inr (mo, c')"
    using commit_ok [OF demo_catalog_ok, of "demo_patch None" "Authority demo_authority" demo_session demo_env "''c1''" "''t1''" "''t1''" "''t1''"]
    by (auto simp: submitMetadataPatch_def demo_patch_ok assertAuthority_def emptyMetadataSnapshot_def max_safe_integer_def)
  then have step: "metadata_step demo_env (demo_catalog (Authority demo_authority)) c'" by (rule Submit)
  have "ids_ok (demo_catalog (Authority demo_authority))" using demo_catalog_ok by (simp add: catalog_ok_def)
  note fwd = metadata_receipts_immutable [OF More [OF Done step] this]
  have "ca_role c' = Authority demo_authority" using fwd by simp
  moreover have "\<exists>s'. getSession ''s1'' c' = Some s'"
    using fwd [THEN conjunct2, THEN conjunct2, rule_format, OF demo_rows(1)] by (elim exE conjE) (rule exI)
  ultimately show ?thesis using step by (intro exI [of _ c'] conjI)
qed

text \<open>retries are answered with the first receipt. Once a proposal is settled, submitting it
  again, or delivering it to the authority again, at any later time and from whatever state the
  node has reached in between, returns that receipt and leaves the catalog as it is.\<close>

theorem metadata_retry_idempotent:
  assumes "getMetadataOperation (mp_operationId p) c = Some mo" and "mo_status mo \<noteq> MQueued" and "ids_ok c"
    and "mo_patch mo = p" and "metadataOperationRecordSchema mo" and "mo_authority mo = authority c"
    and "metadata_steps e c c'"
  shows "submitMetadataPatch e p (mo_originControlNodeId mo) t t' t'' c' = Inr (mo, c') \<and>
    (\<not> is_branch (ca_role c) \<longrightarrow> applyMetadataAtAuthority e mo t t' c' = Inr (mo, c'))"
proof -
  have op: "getMetadataOperation (mp_operationId p) c' = Some mo" and role: "ca_role c' = ca_role c"
    using steps_forward [OF assms(7,3)] assms(1,2) by (auto simp: meta_forward_def)
  have p: "metadataPatchSchema p" "mp_expectedAuthority p = mo_authority mo" "mo_operationId mo = mp_operationId p"
    using assms(4,5) by (auto simp: metadataOperationRecordSchema_def)
  have "submitMetadataPatch e p (mo_originControlNodeId mo) t t' t'' c' = Inr (mo, c')"
    by (rule submit_retry [OF op assms(2)]) (use p assms(4,6) role in \<open>auto simp: authority_def\<close>)
  moreover have "applyMetadataAtAuthority e mo t t' c' = Inr (mo, c')" if "\<not> is_branch (ca_role c)"
    by (rule apply_retry) (use op p assms(2,5,6) role that in \<open>auto simp: authority_def\<close>)
  ultimately show ?thesis by blast
qed

text \<open>C25: a new proposal at the authority always gets a receipt. It is accepted or conflicted as
  \<open>applyMetadataPatch\<close> decides on the session's current snapshot; the session takes the receipt's
  canonical snapshot, the receipt is stored, and the listeners of the feed receive exactly the two
  events for the new metadata and the receipt, in this order.\<close>

theorem authority_commits_proposal:
  assumes "catalog_ok c" and "\<not> is_branch (ca_role c)" and "metadataPatchSchema p"
    and "mp_expectedAuthority p = authority c" and "getMetadataOperation (mp_operationId p) c = None"
    and "getSession (mp_sessionId p) c = Some s" and "ms_revision (se_metadata s) < max_safe_integer"
  shows "\<exists>mo c' is. submitMetadataPatch e p origin t t' t'' c = Inr (mo, c') \<and>
    (mo_status mo, mo_canonical mo, mo_conflicts mo) =
      (case applyMetadataPatch (se_metadata s) p of
         PatchAccepted m \<Rightarrow> (MAccepted, m, None) | PatchConflicted m cs \<Rightarrow> (MConflicted, m, Some cs)) \<and>
    getMetadataOperation (mp_operationId p) c' = Some mo \<and>
    (\<exists>s'. getSession (mp_sessionId p) c' = Some s' \<and> se_metadata s' = mo_canonical mo) \<and>
    ca_emitted c' = ca_emitted c @ is \<and>
    map fi_change is = [MetadataChanged (mp_sessionId p) (mo_canonical mo), MetadataOperation mo]"
proof -
  let ?mo = "commit_operation p (se_metadata s) origin (authority c) t t'"
  obtain c' "is" where c': "commitMetadataAtAuthority e p s origin t t' t'' c = Inr (?mo, c')"
      "ca_emitted c' = ca_emitted c @ is"
      "map fi_change is = [MetadataChanged (mp_sessionId p) (mo_canonical ?mo), MetadataOperation ?mo]"
      "getMetadataOperation (mp_operationId p) c' = Some ?mo"
      "getSession (mp_sessionId p) c' =
        Some (s\<lparr>se_metadata := mo_canonical ?mo, se_metadataAuthority := authority c, se_updatedAt := t''\<rparr>)"
    using commit_ok [OF assms(1,6,3,4,7), of e origin t t' t''] by (elim exE conjE)
  have "submitMetadataPatch e p origin t t' t'' c = Inr (?mo, c')"
    using assms c'(1) by (simp add: submitMetadataPatch_def assertAuthority_def)
  moreover have "(mo_status ?mo, mo_canonical ?mo, mo_conflicts ?mo) =
      (case applyMetadataPatch (se_metadata s) p of
         PatchAccepted m \<Rightarrow> (MAccepted, m, None) | PatchConflicted m cs \<Rightarrow> (MConflicted, m, Some cs))"
    by (simp add: commit_operation_def split: metadata_patch_result.split)
  moreover have "\<exists>s'. getSession (mp_sessionId p) c' = Some s' \<and> se_metadata s' = mo_canonical ?mo"
    using c'(5) by simp
  ultimately show ?thesis
    using c'(2-4) by (intro exI [of _ ?mo] exI [of _ c'] exI [of _ "is"] conjI)
qed

theorem authority_commits_proposal_witness:
  "\<exists>mo c'. submitMetadataPatch demo_env (demo_patch None) ''c1'' ''t1'' ''t2'' ''t3''
     (demo_catalog (Authority demo_authority)) = Inr (mo, c') \<and> mo_status mo = MAccepted"
proof -
  have "applyMetadataPatch emptyMetadataSnapshot (demo_patch None) =
     PatchAccepted \<lparr>ms_revision = 1, ms_values = [(''agent.title'', JStr ''x'')],
       ms_keyRevisions = [(''agent.title'', 1)]\<rparr>"
    by (simp add: demo_patch_def patch_defs applyMetadataPatch_def patch_conflicts_def
        emptyMetadataSnapshot_def spread_def del_all_def put_all_def)
  with authority_commits_proposal [OF demo_catalog_ok, of "Authority demo_authority" "demo_patch None" demo_session
      demo_env "''c1''" "''t1''" "''t2''" "''t3''"]
  show ?thesis
    by (auto simp: demo_patch_ok emptyMetadataSnapshot_def max_safe_integer_def)
qed

theorem metadata_retry_idempotent_witness:
  "\<exists>mo c'. getMetadataOperation ''op'' c' = Some mo \<and>
     submitMetadataPatch demo_env (demo_patch None) ''c1'' ''t4'' ''t4'' ''t4'' c' = Inr (mo, c')"
proof -
  let ?c = "demo_catalog (Authority demo_authority)"
  let ?mo = "commit_operation (demo_patch None) emptyMetadataSnapshot ''c1'' demo_authority ''t1'' ''t1''"
  have m: "metadataSnapshotSchema emptyMetadataSnapshot" "ms_revision emptyMetadataSnapshot < max_safe_integer"
    by (simp_all add: metadataSnapshotSchema_def emptyMetadataSnapshot_def max_safe_integer_def)
  obtain c' where c': "commitMetadataAtAuthority demo_env (demo_patch None) demo_session ''c1'' ''t1'' ''t1'' ''t1'' ?c = Inr (?mo, c')"
      "getMetadataOperation ''op'' c' = Some ?mo" "ca_role c' = Authority demo_authority"
    using commit_ok [OF demo_catalog_ok, of "demo_patch None" "Authority demo_authority" demo_session demo_env "''c1''" "''t1''" "''t1''" "''t1''"]
      demo_patch_ok m(2) by auto
  have "ids_ok c'"
    using commit_forward [OF c'(1)] demo_catalog_ok by (simp add: catalog_ok_def)
  moreover have "metadataOperationRecordSchema ?mo"
    by (rule commit_schema) (use demo_patch_ok m in simp_all)
  moreover have "mo_status ?mo \<noteq> MQueued" "mo_patch ?mo = demo_patch None" "mo_authority ?mo = demo_authority"
    "mo_originControlNodeId ?mo = ''c1''"
    by (simp_all add: commit_operation_def split: metadata_patch_result.split)
  ultimately have "submitMetadataPatch demo_env (demo_patch None) ''c1'' ''t4'' ''t4'' ''t4'' c' = Inr (?mo, c')"
    using metadata_retry_idempotent [of "demo_patch None" c' ?mo demo_env c' "''t4''" "''t4''" "''t4''"] c' Done
    by (simp add: authority_def)
  with c'(2) show ?thesis by blast
qed

text \<open>C1: a proposal made on an attached branch converges. When the branch and the authority hold the
  same canonical snapshot, submitting the proposal on the branch, applying the queued record at the
  authority and settling the branch with the receipt all succeed; both nodes then hold the same
  receipt and the same canonical metadata, the proposal has left the branch's outbox, and what the
  branch showed meanwhile (the optimistic overlay) is what an accepted receipt made canonical.\<close>

theorem branch_proposal_converges:
  assumes "catalog_ok B" and "catalog_ok P" and "is_branch (ca_role B)" and "\<not> is_branch (ca_role P)"
    and "authority B = authority P" and "metadataPatchSchema p" and "mp_expectedAuthority p = authority P"
    and "getMetadataOperation (mp_operationId p) B = None" and "getMetadataOperation (mp_operationId p) P = None"
    and "getSession (mp_sessionId p) B = Some sB" and "getSession (mp_sessionId p) P = Some sP"
    and "se_metadata sB = se_metadata sP" and "se_metadataAuthority sB = authority P"
    and "ms_revision (se_metadata sP) < max_safe_integer"
  shows "\<exists>q B1 r P1 B2.
    submitMetadataPatch eB p origin t1 t1' t1'' B = Inr (q, B1) \<and>
    applyMetadataAtAuthority eP q t2 t3 P = Inr (r, P1) \<and>
    settleMetadataOperation eB True r t4 B1 = Inr (r, B2) \<and>
    getMetadataOperation (mp_operationId p) P1 = Some r \<and> getMetadataOperation (mp_operationId p) B2 = Some r \<and>
    mp_operationId p \<in> set (ca_outbox B1) \<and> mp_operationId p \<notin> set (ca_outbox B2) \<and>
    map_option se_metadata (getSession (mp_sessionId p) P1) = Some (mo_canonical r) \<and>
    map_option se_metadata (getSession (mp_sessionId p) B2) = Some (mo_canonical r) \<and>
    (mo_status r = MAccepted \<longrightarrow> map_option ms_values (mo_optimistic q) = Some (ms_values (mo_canonical r)))"
proof -
  define m where "m = se_metadata sP"
  define q where "q = queued_operation p m origin (authority P) t1"
  define r where "r = commit_operation p m origin (authority P) t1 t2"
  have mB: "se_metadata sB = m" using assms(12) by (simp add: m_def)
  obtain B1 where B1: "submitMetadataPatch eB p origin t1 t1' t1'' B = Inr (q, B1)" "catalog_ok B1"
      "ca_role B1 = ca_role B" "getMetadataOperation (mp_operationId p) B1 = Some q"
      "ca_outbox B1 = ca_outbox B @ [mp_operationId p]" "ca_sessions B1 = ca_sessions B"
    using queue_ok [OF assms(1,3,6) _ assms(8,10), of eB origin t1 t1' t1''] assms(5,7)
    unfolding mB q_def by auto
  have ms: "metadataSnapshotSchema m"
    using assms(2,11) by (auto simp: catalog_ok_def sessionRecordSchema_def m_def)
  have q: "metadataOperationRecordSchema q"
    unfolding q_def by (rule queued_schema [OF assms(6) ms assms(7)])
  have r: "metadataOperationRecordSchema r"
    unfolding r_def by (rule commit_schema(1) [OF assms(6) ms assms(7)]) (use assms(14) in \<open>simp add: m_def\<close>)
  have flds: "mo_operationId q = mp_operationId p" "mo_sessionId q = mp_sessionId p" "mo_patch q = p"
    "mo_originControlNodeId q = origin" "mo_authority q = authority P" "mo_createdAt q = t1" "mo_status q = MQueued"
    "mo_operationId r = mp_operationId p" "mo_sessionId r = mp_sessionId p" "mo_patch r = p"
    "mo_originControlNodeId r = origin" "mo_authority r = authority P" "mo_status r \<noteq> MQueued"
    by (simp_all add: q_def r_def queued_operation_def commit_operation_def split: metadata_patch_result.split)
  obtain P1 where P1: "commitMetadataAtAuthority eP p sP origin t1 t2 t3 P = Inr (r, P1)"
      "getMetadataOperation (mp_operationId p) P1 = Some r"
      "getSession (mp_sessionId p) P1 =
        Some (sP\<lparr>se_metadata := mo_canonical r, se_metadataAuthority := authority P, se_updatedAt := t3\<rparr>)"
    using commit_ok [OF assms(2,11,6,7,14), of eP origin t1 t2 t3] unfolding r_def m_def by auto
  have app: "applyMetadataAtAuthority eP q t2 t3 P = Inr (r, P1)"
    using assms(4,9,11) q flds P1(1) by (simp add: applyMetadataAtAuthority_def assertAuthority_def)
  have sB: "getSession (mo_sessionId r) B1 = Some sB"
    using assms(10) B1(6) flds by (simp add: getSession_def)
  have canon: "mo_canonical r = m \<or> ms_revision m < ms_revision (mo_canonical r)"
    unfolding r_def by (rule commit_canonical)
  then have same: "ms_revision (mo_canonical r) = ms_revision (se_metadata sB) \<longrightarrow> sameSnapshot (en_lc eB) (mo_canonical r) (se_metadata sB)"
    by (auto simp: mB)
  obtain B2 where B2: "settle_open eB True r t4 B1 = Inr (r, B2)" "getMetadataOperation (mp_operationId p) B2 = Some r"
      "mp_operationId p \<notin> set (ca_outbox B2)"
      "map_option se_metadata (getSession (mp_sessionId p) B2) = Some (mo_canonical r)"
    using settle_ok [OF B1(2) sB r _ same, of t4] assms(13) canon flds mB by auto
  have "sameMetadataOperationIdentity (en_lc eB) q r"
    using flds by (simp add: sameMetadataOperationIdentity_def)
  then have settle: "settleMetadataOperation eB True r t4 B1 = Inr (r, B2)"
    using r flds B1(3,4) B2(1) assms(5) by (simp add: settleMetadataOperation_def assertAuthority_def authority_def)
  have "mo_status r = MAccepted \<longrightarrow> map_option ms_values (mo_optimistic q) = Some (ms_values (mo_canonical r))"
    by (auto simp: r_def q_def queued_operation_def commit_operation_def accepted_snapshot(2) split: metadata_patch_result.split)
  with B1(1,5) app settle P1(2,3) B2(2-4) show ?thesis
    by (intro exI [of _ q] exI [of _ B1] exI [of _ r] exI [of _ P1] exI [of _ B2]) simp
qed

theorem branch_proposal_converges_witness:
  "\<exists>q B1 r P1 B2.
    submitMetadataPatch demo_env (demo_patch None) ''c1'' ''t1'' ''t1'' ''t1'' (demo_catalog demo_branch) = Inr (q, B1) \<and>
    applyMetadataAtAuthority demo_env q ''t2'' ''t3'' (demo_catalog (Authority demo_authority)) = Inr (r, P1) \<and>
    settleMetadataOperation demo_env True r ''t4'' B1 = Inr (r, B2) \<and>
    getMetadataOperation ''op'' B2 = getMetadataOperation ''op'' P1"
  using branch_proposal_converges [OF demo_catalog_ok demo_catalog_ok, of demo_branch "Authority demo_authority"
      "demo_patch None" demo_session demo_session demo_env "''c1''" "''t1''" "''t1''" "''t1''" demo_env "''t2''" "''t3''" "''t4''"]
  by (auto simp: demo_patch_ok demo_branch_def emptyMetadataSnapshot_def max_safe_integer_def)

end
