(* ===== verification/Control_Operations.thy ===== *)
theory Control_Operations
  imports Control_Metadata Lifecycle_Merge
begin

text \<open>
  Commands with their lifecycle binding intents, interactions, launches and archives in a control
  node's catalog (\<^verbatim>\<open>packages/control-node-core/src/catalog.ts\<close>): the public operations, each the
  transaction it runs.

  An operation that runs several transactions one after another returns the catalog it reached
  together with the error that stopped it, since the earlier ones stay committed.
\<close>

subsection \<open>Lifecycle binding intents\<close>

text \<open>A v3 lifecycle command; \<open>lc_value\<close> is the object as received, which the journal compares.\<close>

record lifecycle_command =
  lc_commandId :: string
  lc_payloadHash :: string
  lc_sessionId :: string
  lc_runtimeNodeId :: string
  lc_harness :: string
  lc_vendorSessionId :: "string option"
  lc_metadata :: "metadata_values option"
  lc_value :: json

definition assertLifecycleCommand :: "collation \<Rightarrow> command_record \<Rightarrow> lifecycle_command \<Rightarrow> bool" where
  "assertLifecycleCommand lc r input \<longleftrightarrow>
     cr_commandId r = lc_commandId input \<and> cr_payloadHash r = lc_payloadHash input \<and>
     cr_sessionId r = Some (lc_sessionId input) \<and> cr_runtimeNodeId r = lc_runtimeNodeId input \<and>
     sameCanonicalJson lc (cr_request r) (lc_value input)"

fun object_members :: "json \<Rightarrow> (string \<times> json) list option" where
  "object_members (JObj ms) = Some ms"
| "object_members v = None"

definition commandVendorSessionId :: "command_record \<Rightarrow> core_error + string" where
  "commandVendorSessionId r =
     (case Option.bind (Option.bind (cr_result r) object_members)
             (\<lambda>ms. Option.bind (map_of ms ''json'') object_members) of
        None \<Rightarrow> Inl PAYLOAD_MISMATCH
      | Some rs \<Rightarrow>
          if map_of rs ''sessionId'' \<noteq> Some (JNullable JStr (cr_sessionId r)) then Inl PAYLOAD_MISMATCH
          else case map_of rs ''vendorSessionId'' of
            Some (JStr v) \<Rightarrow> if v = [] then Inl PAYLOAD_MISMATCH else Inr v
          | _ \<Rightarrow> Inl PAYLOAD_MISMATCH)"

definition metadataValuesSchema :: "metadata_values \<Rightarrow> bool" where
  "metadataValuesSchema t \<longleftrightarrow> list_all (\<lambda>kv. metadataKeySchema (fst kv)) t"

definition intent_metadata :: "lifecycle_command \<Rightarrow> metadata_values" where
  "intent_metadata input = (case lc_metadata input of None \<Rightarrow> [] | Some t \<Rightarrow> t)"

definition stored_metadata :: "lifecycle_intent \<Rightarrow> metadata_values" where
  "stored_metadata li = (case li_metadata li of None \<Rightarrow> [] | Some t \<Rightarrow> t)"

definition write_intent ::
  "collation \<Rightarrow> lifecycle_command \<Rightarrow> string option \<Rightarrow> bool \<Rightarrow> string \<Rightarrow> catalog \<Rightarrow> core_error + catalog" where
  "write_intent lc input vendor ready t c =
     (case map_of (ca_intents c) (lc_commandId input) of
        Some cur \<Rightarrow>
          if li_runtimeNodeId cur \<noteq> lc_runtimeNodeId input \<or> li_sessionId cur \<noteq> lc_sessionId input \<or>
             li_harness cur \<noteq> lc_harness input \<or>
             \<not> sameCanonicalJson lc (JObj (stored_metadata cur)) (JObj (intent_metadata input))
          then Inl PAYLOAD_MISMATCH
          else if li_vendorSessionId cur \<noteq> None \<and> vendor \<noteq> None \<and> li_vendorSessionId cur \<noteq> vendor
          then Inl PAYLOAD_MISMATCH
          else if ready then Inr (c\<lparr>ca_intents := put (lc_commandId input)
                 (cur\<lparr>li_vendorSessionId := vendor, li_ready := True\<rparr>) (ca_intents c)\<rparr>)
          else Inr c
      | None \<Rightarrow>
          Inr (c\<lparr>ca_intents := put (lc_commandId input)
            \<lparr>li_runtimeNodeId = lc_runtimeNodeId input, li_sessionId = lc_sessionId input,
             li_harness = lc_harness input, li_vendorSessionId = vendor, li_ready = ready,
             li_binding = BindPending,
             li_metadata = (if intent_metadata input = [] then None else Some (intent_metadata input)),
             li_applied = (intent_metadata input = []), li_createdAt = t\<rparr> (ca_intents c)\<rparr>))"

definition putLifecycleIntent ::
  "collation \<Rightarrow> command_record \<Rightarrow> lifecycle_command \<Rightarrow> string \<Rightarrow> catalog \<Rightarrow> core_error + catalog" where
  "putLifecycleIntent lc r input t c =
     (if \<not> assertLifecycleCommand lc r input then Inl PAYLOAD_MISMATCH
      else if \<not> metadataValuesSchema (intent_metadata input) then Inl INVALID
      else if cr_state r = CSucceeded then
        (case commandVendorSessionId r of
           Inl err \<Rightarrow> Inl err
         | Inr v \<Rightarrow>
             if lc_vendorSessionId input \<noteq> None \<and> lc_vendorSessionId input \<noteq> Some [] \<and> lc_vendorSessionId input \<noteq> Some v
             then Inl PAYLOAD_MISMATCH
             else write_intent lc input (Some v) True t c)
      else write_intent lc input (lc_vendorSessionId input) False t c)"

definition settleLifecycleIntent :: "string \<Rightarrow> binding_state \<Rightarrow> catalog \<Rightarrow> catalog" where
  "settleLifecycleIntent k b c =
     (case map_of (ca_intents c) k of
        Some li \<Rightarrow> if li_binding li = BindPending then c\<lparr>ca_intents := put k (li\<lparr>li_binding := b\<rparr>) (ca_intents c)\<rparr> else c
      | None \<Rightarrow> c)"

definition syncLifecycleIntentForCommand :: "command_record \<Rightarrow> catalog \<Rightarrow> core_error + catalog" where
  "syncLifecycleIntentForCommand r c =
     (if cr_state r \<noteq> CSucceeded then Inr c
      else case map_of (ca_intents c) (cr_commandId r) of
        None \<Rightarrow> Inr c
      | Some li \<Rightarrow>
          (case commandVendorSessionId r of
             Inl err \<Rightarrow> Inl err
           | Inr v \<Rightarrow>
               if li_vendorSessionId li \<noteq> None \<and> li_vendorSessionId li \<noteq> Some v then Inl PAYLOAD_MISMATCH
               else
                 let c1 = c\<lparr>ca_intents := put (cr_commandId r) (li\<lparr>li_vendorSessionId := Some v, li_ready := True\<rparr>) (ca_intents c)\<rparr>
                 in Inr (case getSession (li_sessionId li) c of
                      None \<Rightarrow> c1
                    | Some s \<Rightarrow>
                        if se_runtimeNodeId s = li_runtimeNodeId li \<and> se_harness s = li_harness li \<and> se_vendorSessionId s = v
                        then settleLifecycleIntent (cr_commandId r) BindBound c1
                        else settleLifecycleIntent (cr_commandId r) (BindConflicted (se_sessionId s)) c1)))"

text \<open>Intents in \<open>created_at, command_id\<close> order.\<close>

definition intents_where :: "(lifecycle_intent \<Rightarrow> bool) \<Rightarrow> catalog \<Rightarrow> (string \<times> lifecycle_intent) list" where
  "intents_where P c =
     sort_le (\<lambda>a b. li_createdAt (snd a) < li_createdAt (snd b) \<or>
         (li_createdAt (snd a) = li_createdAt (snd b) \<and> fst a \<le> fst b))
       (filter (\<lambda>kv. P (snd kv)) (ca_intents c))"

definition settleLifecycleForSession :: "session \<Rightarrow> catalog \<Rightarrow> catalog" where
  "settleLifecycleForSession s c =
     fold (\<lambda>(k, li) c. settleLifecycleIntent k
              (if li_sessionId li = se_sessionId s then BindBound else BindConflicted (se_sessionId s)) c)
       (intents_where (\<lambda>li. li_runtimeNodeId li = se_runtimeNodeId s \<and> li_harness li = se_harness s \<and>
          li_vendorSessionId li = Some (se_vendorSessionId s) \<and> li_ready li \<and> li_binding li = BindPending) c) c"

definition hasLifecycleIntent :: "string \<Rightarrow> catalog \<Rightarrow> bool" where
  "hasLifecycleIntent k c \<longleftrightarrow> has k (ca_intents c)"

subsection \<open>Commands\<close>

definition acceptCommand ::
  "env \<Rightarrow> command_record \<Rightarrow> lifecycle_command option \<Rightarrow> string \<Rightarrow> catalog \<Rightarrow> core_error + command_record \<times> catalog" where
  "acceptCommand e r input t c =
     (if (case input of None \<Rightarrow> False | Some i \<Rightarrow> \<not> assertLifecycleCommand (en_lc e) r i) then Inl PAYLOAD_MISMATCH
      else case getCommand (cr_commandId r) c of
        Some cur \<Rightarrow>
          if \<not> sameCommandRequest (en_lc e) cur r then Inl PAYLOAD_MISMATCH
          else (case input of
              None \<Rightarrow> Inr (cur, c)
            | Some i \<Rightarrow> (case mutate (putLifecycleIntent (en_lc e) cur i t) c of
                 Inl err \<Rightarrow> Inl err | Inr c' \<Rightarrow> Inr (cur, c')))
      | None \<Rightarrow>
          (case mutate (\<lambda>c.
               andThen (Inr (putCommand r c)) (\<lambda>c.
               andThen (case input of None \<Rightarrow> Inr c | Some i \<Rightarrow> putLifecycleIntent (en_lc e) r i t c)
                 (append_local e (CommandChanged r)))) c of
             Inl err \<Rightarrow> Inl err | Inr c' \<Rightarrow> Inr (r, c')))"

definition settle_command ::
  "env \<Rightarrow> bool \<Rightarrow> command_record \<Rightarrow> catalog \<Rightarrow> core_error + command_record \<times> catalog" where
  "settle_command e recover r c =
     (case getCommand (cr_commandId r) c of
        None \<Rightarrow> Inl NOT_FOUND
      | Some cur \<Rightarrow>
          (case mergeCommandRecord (en_lc e) recover cur r of
             Inl err \<Rightarrow> Inl err
           | Inr merged \<Rightarrow>
               if sameCanonicalJson (en_lc e) (command_json cur) (command_json merged) then Inr (cur, c)
               else (case mutate (\<lambda>c. andThen (syncLifecycleIntentForCommand merged (putCommand merged c))
                                        (append_local e (CommandChanged merged))) c of
                       Inl err \<Rightarrow> Inl err | Inr c' \<Rightarrow> Inr (merged, c'))))"

definition updateCommand :: "env \<Rightarrow> command_record \<Rightarrow> catalog \<Rightarrow> core_error + command_record \<times> catalog" where
  "updateCommand e r c = settle_command e False r c"

definition recoverCommandOutcome :: "env \<Rightarrow> command_record \<Rightarrow> catalog \<Rightarrow> core_error + command_record \<times> catalog" where
  "recoverCommandOutcome e r c = settle_command e True r c"

text \<open>One submission per bound intent; \<open>ts k\<close> are the clock readings of command \<open>k\<close>'s submission.\<close>

definition pending_metadata :: "string \<Rightarrow> lifecycle_intent \<Rightarrow> bool" where
  "pending_metadata rid li \<longleftrightarrow>
     li_runtimeNodeId li = rid \<and> li_binding li = BindBound \<and> \<not> li_applied li \<and> li_metadata li \<noteq> None"

fun apply_intents ::
  "env \<Rightarrow> (string \<Rightarrow> string \<times> string \<times> string) \<Rightarrow> (string \<times> lifecycle_intent) list \<Rightarrow> catalog \<Rightarrow>
   catalog \<times> core_error option" where
  "apply_intents e ts [] c = (c, None)"
| "apply_intents e ts ((k, li) # rows) c =
     (case getSession (li_sessionId li) c of
        None \<Rightarrow> apply_intents e ts rows c
      | Some s \<Rightarrow>
          (let (t, t', t'') = ts k;
               p = \<lparr>mp_operationId = k, mp_sessionId = li_sessionId li, mp_expectedAuthority = se_metadataAuthority s,
                    mp_set = Some (case li_metadata li of None \<Rightarrow> [] | Some m \<Rightarrow> m), mp_remove = None, mp_ifKeyRevision = None\<rparr>
           in case submitMetadataPatch e p (ca_controlNodeId c) t t' t'' c of
                Inl err \<Rightarrow> (c, Some err)
              | Inr (mo, c') \<Rightarrow>
                  apply_intents e ts rows (c'\<lparr>ca_intents := (case map_of (ca_intents c') k of
                     None \<Rightarrow> ca_intents c' | Some li' \<Rightarrow> put k (li'\<lparr>li_applied := True\<rparr>) (ca_intents c'))\<rparr>)))"

definition applyPendingLifecycleMetadata ::
  "env \<Rightarrow> (string \<Rightarrow> string \<times> string \<times> string) \<Rightarrow> string \<Rightarrow> catalog \<Rightarrow> catalog \<times> core_error option" where
  "applyPendingLifecycleMetadata e ts rid c = apply_intents e ts (intents_where (pending_metadata rid) c) c"

subsection \<open>Interactions\<close>

definition listInteractions :: "string option \<Rightarrow> bool \<Rightarrow> catalog \<Rightarrow> interaction_record list" where
  "listInteractions sid pendingOnly c =
     filter (\<lambda>i. (case sid of None \<Rightarrow> True | Some k \<Rightarrow> ir_sessionId i = k) \<and> (\<not> pendingOnly \<or> ir_state i = IPending))
       (sort_le (\<lambda>a b. ir_createdAt b \<le> ir_createdAt a) (records (ca_interactions c)))"

definition store_interaction ::
  "env \<Rightarrow> interaction_record \<Rightarrow> catalog \<Rightarrow> core_error + interaction_record \<times> catalog" where
  "store_interaction e i c =
     (case mutate (\<lambda>c. append_local e (InteractionChanged i) (putInteraction i None c)) c of
        Inl err \<Rightarrow> Inl err | Inr c' \<Rightarrow> Inr (i, c'))"

definition publishInteraction ::
  "env \<Rightarrow> interaction_record \<Rightarrow> catalog \<Rightarrow> core_error + interaction_record \<times> catalog" where
  "publishInteraction e i c =
     (case getSession (ir_sessionId i) c of
        None \<Rightarrow> Inl NOT_FOUND
      | Some s \<Rightarrow>
          if se_harness s \<noteq> ir_harness i \<or> se_runtimeEpoch s \<noteq> Some (ir_runtimeEpoch i) then Inl FENCED
          else case getInteraction (ir_interactionId i) c of
            None \<Rightarrow> store_interaction e i c
          | Some cur \<Rightarrow>
              (case mergeInteractionRecord (en_lc e) cur i of
                 Inl err \<Rightarrow> Inl err
               | Inr merged \<Rightarrow>
                   if sameCanonicalJson (en_lc e) (interaction_json cur) (interaction_json merged) then Inr (cur, c)
                   else store_interaction e merged c))"

definition updateInteraction ::
  "env \<Rightarrow> interaction_record \<Rightarrow> catalog \<Rightarrow> core_error + interaction_record \<times> catalog" where
  "updateInteraction e i c =
     (case getInteraction (ir_interactionId i) c of
        None \<Rightarrow> Inl NOT_FOUND
      | Some cur \<Rightarrow>
          if (case getSession (ir_sessionId cur) c of
                None \<Rightarrow> True
              | Some s \<Rightarrow> se_harness s \<noteq> ir_harness cur \<or> se_runtimeEpoch s \<noteq> Some (ir_runtimeEpoch cur))
          then Inl FENCED
          else (case mergeInteractionRecord (en_lc e) cur i of
                 Inl err \<Rightarrow> Inl err
               | Inr merged \<Rightarrow>
                   if sameCanonicalJson (en_lc e) (interaction_json cur) (interaction_json merged) then Inr (cur, c)
                   else store_interaction e merged c))"

fun expire_each :: "env \<Rightarrow> string \<Rightarrow> interaction_record list \<Rightarrow> catalog \<Rightarrow> catalog \<times> core_error option" where
  "expire_each e at [] c = (c, None)"
| "expire_each e at (i # is) c =
     (case updateInteraction e (i\<lparr>ir_state := IExpired, ir_resolvedAt := Some at\<rparr>) c of
        Inl err \<Rightarrow> (c, Some err)
      | Inr (r, c') \<Rightarrow> expire_each e at is c')"

definition expireInteractions :: "env \<Rightarrow> string \<Rightarrow> catalog \<Rightarrow> catalog \<times> core_error option" where
  "expireInteractions e at c =
     expire_each e at (filter (\<lambda>i. case ir_expiresAt i of None \<Rightarrow> False | Some x \<Rightarrow> x \<le> at)
                        (listInteractions None True c)) c"

definition stale_interaction :: "env \<Rightarrow> string \<Rightarrow> interaction_record \<Rightarrow> catalog \<Rightarrow> core_error + catalog" where
  "stale_interaction e t i c =
     (let s = i\<lparr>ir_state := IStale, ir_resolvedAt := Some t\<rparr> in
      append_local e (InteractionChanged s) (putInteraction s None c))"

definition stalePendingInteractionsForSession :: "env \<Rightarrow> string \<Rightarrow> string \<Rightarrow> catalog \<Rightarrow> core_error + catalog" where
  "stalePendingInteractionsForSession e sid t c =
     fold_err (stale_interaction e t) (listInteractions (Some sid) True c) c"

subsection \<open>Launches and archives\<close>

definition recordLaunch ::
  "env \<Rightarrow> launch_record \<Rightarrow> string option \<Rightarrow> catalog \<Rightarrow> core_error + launch_record \<times> catalog" where
  "recordLaunch e l src c =
     (if \<not> launchRecordSchema l then Inl INVALID
      else
        case (case getLaunch (lq_launchId l) c of None \<Rightarrow> Inr l | Some cur \<Rightarrow> mergeLaunchRecord (en_lc e) cur l) of
          Inl err \<Rightarrow> Inl err
        | Inr r \<Rightarrow>
            if (case getLaunch (lq_launchId l) c of None \<Rightarrow> False
                | Some cur \<Rightarrow> sameCanonicalJson (en_lc e) (launch_json cur) (launch_json r))
            then Inr (the (getLaunch (lq_launchId l) c), c)
            else (case mutate (\<lambda>c. andThen (putLaunch r src c) (append_local e (LaunchChanged r))) c of
                    Inl err \<Rightarrow> Inl err | Inr c' \<Rightarrow> Inr (r, c')))"

definition archived_session :: "session \<Rightarrow> nat option \<Rightarrow> string \<Rightarrow> session" where
  "archived_session s revision t = s\<lparr>se_availability := Unavailable, se_runtimeStatus := Stopped, se_runtimeEpoch := None,
     se_catalogState := Archived, se_catalogRevision := (case revision of None \<Rightarrow> 0 | Some n \<Rightarrow> n),
     se_archivedAt := Some t, se_updatedAt := t\<rparr>"

definition archive_body ::
  "env \<Rightarrow> archive_record \<Rightarrow> session \<Rightarrow> string option \<Rightarrow> string \<Rightarrow> catalog \<Rightarrow> core_error + catalog" where
  "archive_body e a s src now c =
     andThen (putArchive a src c) (\<lambda>c.
     andThen (append_local e (ArchiveChanged a) c) (\<lambda>c.
       if ar_state a = ASucceeded \<and> se_catalogState s = Open then
         (let t = (case ar_releasedAt a of None \<Rightarrow> now | Some x \<Rightarrow> x);
              archived = archived_session s (ar_catalogRevision a) t in
          andThen (stalePendingInteractionsForSession e (se_sessionId s) t c) (\<lambda>c.
          andThen (putSession archived src (deleteMetadataDeliveryIntentsForSession (se_sessionId s) c))
            (append_local e (SessionUpsert archived))))
       else Inr c))"

text \<open>What \<open>recordArchive\<close> makes of a merged record before it is stored.\<close>

definition admit_archive :: "archive_record \<Rightarrow> session \<Rightarrow> catalog \<Rightarrow> core_error + archive_record" where
  "admit_archive a s c =
     (if se_runtimeNodeId s \<noteq> aq_runtimeNodeId a \<or> se_bindingRevision s \<noteq> aq_bindingRevision a then Inl FENCED
      else if ar_state a = ASucceeded \<and> se_catalogState s = Open then
        (if se_availability s = Active \<or> se_runtimeStatus s \<noteq> Stopped then Inl CONFLICT
         else
           let r = a\<lparr>ar_authority := authority c, aq_expectedAuthority := authority c,
                     ar_catalogRevision := Some (se_catalogRevision s + 1)\<rparr>
           in if archiveRecordSchema r then Inr r else Inl INVALID)
      else Inr a)"

definition recordArchive ::
  "env \<Rightarrow> archive_record \<Rightarrow> string option \<Rightarrow> string \<Rightarrow> catalog \<Rightarrow> core_error + archive_record \<times> catalog" where
  "recordArchive e a src now c =
     (let current = getArchive (aq_archiveOperationId a) c in
      if \<not> archiveRecordSchema a then Inl INVALID
      else if \<not> assertAuthority (aq_expectedAuthority a) c then Inl FENCED
      else
        case (case current of None \<Rightarrow> Inr a | Some cur \<Rightarrow> mergeArchiveRecord (en_lc e) cur a) of
          Inl err \<Rightarrow> Inl err
        | Inr merged \<Rightarrow>
            (case getSession (aq_sessionId merged) c of
               None \<Rightarrow> Inl NOT_FOUND
             | Some s \<Rightarrow>
                 (case admit_archive merged s c of
                    Inl err \<Rightarrow> Inl err
                  | Inr r \<Rightarrow>
                      (case current of
                         Some cur \<Rightarrow>
                           if sameCanonicalJson (en_lc e) (archive_json cur) (archive_json r) then
                             Inr (cur, if ar_state r = ASucceeded \<and> se_catalogState s = Archived
                                       then deleteMetadataDeliveryIntentsForSession (se_sessionId s) c else c)
                           else (case mutate (archive_body e r s src now) c of
                                   Inl err \<Rightarrow> Inl err | Inr c' \<Rightarrow> Inr (r, c'))
                       | None \<Rightarrow> (case mutate (archive_body e r s src now) c of
                                   Inl err \<Rightarrow> Inl err | Inr c' \<Rightarrow> Inr (r, c'))))))"

definition markSessionStopped :: "env \<Rightarrow> string \<Rightarrow> nat \<Rightarrow> string \<Rightarrow> catalog \<Rightarrow> core_error + session \<times> catalog" where
  "markSessionStopped e sid revision t c =
     (case getSession sid c of
        None \<Rightarrow> Inl NOT_FOUND
      | Some s \<Rightarrow>
          if se_bindingRevision s \<noteq> revision \<or> se_catalogState s \<noteq> Open then Inl FENCED
          else if se_runtimeStatus s = Stopped \<and> se_availability s \<noteq> Active then Inr (s, c)
          else
            let stopped = s\<lparr>se_availability := Resumable, se_runtimeStatus := Stopped, se_runtimeEpoch := None, se_updatedAt := t\<rparr>
            in case mutate (\<lambda>c.
                 andThen (stalePendingInteractionsForSession e (se_sessionId stopped) t c) (\<lambda>c.
                 andThen (putSession stopped (session_source (se_sessionId stopped) c) c)
                   (append_local e (SessionUpsert stopped)))) c of
                 Inl err \<Rightarrow> Inl err | Inr c' \<Rightarrow> Inr (stopped, c'))"

end
