(* ===== verification/Control_Topology.thy ===== *)
theory Control_Topology
  imports Control_Operations
begin

text \<open>
  The control-node tree (\<^verbatim>\<open>packages/control-node-core/src/catalog.ts\<close>): the durable role of this
  node, attaching and detaching children, following and leaving a parent, promotion, and the
  presence of children. Fresh identifiers and clock readings are arguments.
\<close>

subsection \<open>Peers\<close>

definition enrollPeer :: "string \<Rightarrow> string \<Rightarrow> string \<Rightarrow> string list \<Rightarrow> catalog \<Rightarrow> core_error + catalog" where
  "enrollPeer endpoint role pid scopes c =
     (if endpoint = [] \<or> role = [] \<or> pid = [] then Inl INVALID
      else
        let current = map_of (ca_peers c) endpoint in
        if (case current of None \<Rightarrow> False | Some p \<Rightarrow> pe_role p \<noteq> role \<or> pe_principalId p \<noteq> pid) then Inl FENCED
        else if list_ex (\<lambda>kv. pe_role (snd kv) = role \<and> pe_principalId (snd kv) = pid \<and> fst kv \<noteq> endpoint) (ca_peers c)
        then Inl FENCED
        else Inr (c\<lparr>ca_peers := put endpoint \<lparr>pe_role = role, pe_principalId = pid, pe_scopes = scopes\<rparr> (ca_peers c)\<rparr>))"

definition activePeerEnrollment :: "string \<Rightarrow> catalog \<Rightarrow> peer option" where
  "activePeerEnrollment endpoint c =
     (case map_of (ca_peers c) endpoint of
        None \<Rightarrow> None
      | Some p \<Rightarrow>
          if pe_role p = ''runtime-node'' then
            (case getRuntimeNode (pe_principalId p) c of
               None \<Rightarrow> None
             | Some r \<Rightarrow>
                 if rn_owner r \<noteq> ca_controlNodeId c \<or> projection_source (pe_principalId p) (ca_runtimeNodes c) \<noteq> None
                 then None else Some p)
          else if pe_role p = ''child-control-node'' then
            (case getControlNode (pe_principalId p) c of
               None \<Rightarrow> None
             | Some n \<Rightarrow>
                 if cn_endpointId n \<noteq> Some endpoint \<or> getAttachment (cn_controlNodeId n) c = None then None else Some p)
          else Some p)"

subsection \<open>The durable role\<close>

definition setRole :: "data_role \<Rightarrow> catalog \<Rightarrow> catalog" where
  "setRole r c = c\<lparr>ca_role := r\<rparr>"

definition setDesiredUpstream :: "json option \<Rightarrow> catalog \<Rightarrow> catalog" where
  "setDesiredUpstream locator c = c\<lparr>ca_upstreamInitialized := True, ca_desiredUpstream := locator\<rparr>"

definition bootstrapDesiredUpstream :: "json \<Rightarrow> catalog \<Rightarrow> bool \<times> catalog" where
  "bootstrapDesiredUpstream locator c =
     (if ca_upstreamInitialized c \<or> ca_desiredUpstream c \<noteq> None then (False, c\<lparr>ca_upstreamInitialized := True\<rparr>)
      else (True, setDesiredUpstream (Some locator) c))"

definition appendRoleTransition ::
  "transition_kind \<Rightarrow> data_role \<Rightarrow> data_role \<Rightarrow> transition_receipt \<Rightarrow> string \<Rightarrow> string \<Rightarrow> catalog \<Rightarrow> core_error + catalog" where
  "appendRoleTransition kind prior after receipt tid t c =
     (if list_ex (\<lambda>r. rt_transitionId r = tid) (ca_transitions c) then Inl SQLITE_CONSTRAINT
      else Inr (c\<lparr>ca_transitions := ca_transitions c @
        [\<lparr>rt_transitionId = tid, rt_kind = kind, rt_before = prior, rt_after = after,
          rt_receipt = receipt, rt_committedAt = t\<rparr>]\<rparr>))"

text \<open>\<open>ts k\<close> is the clock reading for session \<open>k\<close>.\<close>

definition rewriteSubtreeAuthority :: "authority_ref \<Rightarrow> (string \<Rightarrow> string) \<Rightarrow> catalog \<Rightarrow> core_error + catalog" where
  "rewriteSubtreeAuthority a ts c =
     fold_err (\<lambda>s c. putSession (s\<lparr>se_metadataAuthority := a, se_updatedAt := ts (se_sessionId s)\<rparr>)
                       (session_source (se_sessionId s) c) c)
       (listSessions (\<lambda>_. True) c) c"

definition put_local :: "(control_node \<Rightarrow> control_node) \<Rightarrow> catalog \<Rightarrow> core_error + catalog" where
  "put_local f c =
     (case localControlNode c of Inl err \<Rightarrow> Inl err | Inr n \<Rightarrow> putControlNode (f n) None c)"

definition announce_local :: "env \<Rightarrow> (control_node \<Rightarrow> control_node) \<Rightarrow> catalog \<Rightarrow> core_error + catalog" where
  "announce_local e f c =
     (case localControlNode c of Inl err \<Rightarrow> Inl err | Inr n \<Rightarrow> append_local e (NodeUpsert (f n)) c)"

definition setLocalEndpointId :: "env \<Rightarrow> string \<Rightarrow> catalog \<Rightarrow> core_error + control_node \<times> catalog" where
  "setLocalEndpointId e endpoint c =
     (if endpoint = [] \<or> 512 < length endpoint then Inl INVALID
      else case localControlNode c of
        Inl err \<Rightarrow> Inl err
      | Inr n \<Rightarrow>
          if cn_endpointId n \<noteq> None \<and> cn_endpointId n \<noteq> Some endpoint then Inl FENCED
          else if cn_endpointId n = Some endpoint then Inr (n, c)
          else
            let updated = n\<lparr>cn_endpointId := Some endpoint\<rparr> in
            case mutate (\<lambda>c. andThen (putControlNode updated None c) (append_local e (NodeUpsert updated))) c of
              Inl err \<Rightarrow> Inl err | Inr c' \<Rightarrow> Inr (updated, c'))"

subsection \<open>Attaching a child\<close>

record attach_resume =
  ra_attachmentId :: string
  ra_lineageId :: string
  ra_authority :: authority_ref

record attach_request =
  aa_controlNodeId :: string
  aa_bootId :: string
  aa_feedId :: string
  aa_name :: string
  aa_endpointId :: "string option"
  aa_capabilities :: "string list"
  aa_expectedParent :: string
  aa_currentRole :: data_role
  aa_covered :: "string list"
  aa_resume :: "attach_resume option"

definition controlNodeAttachmentRequestSchema :: "attach_request \<Rightarrow> bool" where
  "controlNodeAttachmentRequestSchema r \<longleftrightarrow>
     aa_covered r \<noteq> [] \<and> distinct (aa_covered r) \<and> aa_controlNodeId r \<in> set (aa_covered r)"

definition attached_role :: "string \<Rightarrow> attachment \<Rightarrow> data_role" where
  "attached_role parent a = Branch (at_authority a) (Attached parent (at_attachmentId a) (at_lineageId a) (at_attachedAt a))"

definition assertAttachmentRoleProof ::
  "collation \<Rightarrow> attach_request \<Rightarrow> attachment option \<Rightarrow> bool \<Rightarrow> catalog \<Rightarrow> core_error option" where
  "assertAttachmentRoleProof lc r existing reconnect c =
     (case aa_currentRole r of
        Authority a \<Rightarrow>
          if au_controlNodeId a \<noteq> aa_controlNodeId r then Some FENCED
          else if aa_resume r \<noteq> None then Some FENCED
          else None
      | Branch a b \<Rightarrow>
          if au_controlNodeId a \<in> set (aa_covered r) then Some CONFLICT
          else case b of
            Detached p i l t d \<Rightarrow> if aa_resume r \<noteq> None then Some FENCED else None
          | Attached p i l t \<Rightarrow>
              (case existing of
                 None \<Rightarrow> Some FENCED
               | Some ex \<Rightarrow>
                   if aa_resume r = None \<or> \<not> reconnect then Some FENCED
                   else if \<not> sameCanonicalJson lc (role_json (aa_currentRole r)) (role_json (attached_role (ca_controlNodeId c) ex))
                   then Some FENCED
                   else None))"

definition is_reconnect :: "attach_request \<Rightarrow> attachment option \<Rightarrow> catalog \<Rightarrow> bool" where
  "is_reconnect r existing c \<longleftrightarrow>
     (case (existing, aa_resume r) of
        (Some ex, Some re) \<Rightarrow>
          at_attachmentId ex = ra_attachmentId re \<and> at_lineageId ex = ra_lineageId re \<and>
          sameAuthority (at_authority ex) (ra_authority re) \<and> sameAuthority (at_authority ex) (authority c)
      | _ \<Rightarrow> False)"

definition isControlNodeProjectedThrough :: "string \<Rightarrow> string \<Rightarrow> catalog \<Rightarrow> bool" where
  "isControlNodeProjectedThrough child node c \<longleftrightarrow> projection_source node (ca_controlNodes c) = Some child"

definition coverage_overlap :: "attach_request \<Rightarrow> bool \<Rightarrow> catalog \<Rightarrow> bool" where
  "coverage_overlap r reconnect c \<longleftrightarrow>
     list_ex (\<lambda>k. k \<in> set (coverage c) \<and> \<not> (reconnect \<and> isControlNodeProjectedThrough (aa_controlNodeId r) k c)) (aa_covered r)"

definition endpoint_repinned :: "attach_request \<Rightarrow> catalog \<Rightarrow> bool" where
  "endpoint_repinned r c \<longleftrightarrow>
     (case (aa_endpointId r, Option.bind (getControlNode (aa_controlNodeId r) c) cn_endpointId) of
        (Some new, Some old) \<Rightarrow> old \<noteq> new | _ \<Rightarrow> False)"

definition child_descriptor :: "attach_request \<Rightarrow> data_role \<Rightarrow> string \<Rightarrow> control_node" where
  "child_descriptor r role t =
     \<lparr>cn_controlNodeId = aa_controlNodeId r, cn_bootId = aa_bootId r, cn_feedId = aa_feedId r, cn_name = aa_name r,
      cn_endpointId = aa_endpointId r, cn_presence = Online, cn_dataRole = role, cn_connectedAt = Some t,
      cn_lastHeartbeatAt = Some t, cn_capabilities = aa_capabilities r\<rparr>"

definition insertAttachment :: "attachment \<Rightarrow> catalog \<Rightarrow> core_error + catalog" where
  "insertAttachment a c =
     (if has (at_attachmentId a) (ca_attachments c) \<or> getAttachment (at_child a) c \<noteq> None then Inl SQLITE_CONSTRAINT
      else Inr (c\<lparr>ca_attachments := put (at_attachmentId a) (True, a) (ca_attachments c)\<rparr>))"

definition attach_body :: "env \<Rightarrow> attach_request \<Rightarrow> bool \<Rightarrow> attachment \<Rightarrow> control_node \<Rightarrow> catalog \<Rightarrow> core_error + catalog" where
  "attach_body e r reconnect a child c =
     andThen (case aa_endpointId r of None \<Rightarrow> Inr c
              | Some ep \<Rightarrow> enrollPeer ep ''child-control-node'' (aa_controlNodeId r) [] c) (\<lambda>c.
     andThen (if reconnect then Inr c else insertAttachment a c) (\<lambda>c.
     andThen (putControlNode child (Some (aa_controlNodeId r)) c) (\<lambda>c.
     andThen (append_local e (NodeUpsert child) c) (\<lambda>c.
       if reconnect then Inr c else append_local e (NodeAttached a) c))))"

definition attachChild ::
  "env \<Rightarrow> attach_request \<Rightarrow> string \<Rightarrow> string \<Rightarrow> string \<Rightarrow> catalog \<Rightarrow>
   core_error + (attachment \<times> control_node \<times> bool) \<times> catalog" where
  "attachChild e r newAttachmentId newLineageId t c =
     (let existing = getAttachment (aa_controlNodeId r) c;
          reconnect = is_reconnect r existing c
      in
      if \<not> controlNodeAttachmentRequestSchema r then Inl INVALID
      else if aa_expectedParent r \<noteq> ca_controlNodeId c then Inl FENCED
      else if aa_controlNodeId r = ca_controlNodeId c then Inl CONFLICT
      else if existing = None \<and> aa_resume r \<noteq> None then Inl FENCED
      else case assertAttachmentRoleProof (en_lc e) r existing reconnect c of
        Some err \<Rightarrow> Inl err
      | None \<Rightarrow>
          if existing \<noteq> None \<and> \<not> reconnect then Inl CONFLICT
          else if coverage_overlap r reconnect c then Inl CONFLICT
          else if endpoint_repinned r c then Inl FENCED
          else
            let a = (case existing of
                  Some ex \<Rightarrow> ex
                | None \<Rightarrow> \<lparr>at_attachmentId = newAttachmentId, at_lineageId = newLineageId,
                    at_parent = ca_controlNodeId c, at_child = aa_controlNodeId r,
                    at_authority = authority c, at_attachedAt = t\<rparr>);
                child = child_descriptor r (attached_role (ca_controlNodeId c) a) t
            in case mutate (attach_body e r reconnect a child) c of
                 Inl err \<Rightarrow> Inl err | Inr c' \<Rightarrow> Inr ((a, child, reconnect), c'))"

subsection \<open>Following a parent\<close>

definition follow_body ::
  "env \<Rightarrow> attachment \<Rightarrow> string \<Rightarrow> data_role \<Rightarrow> data_role \<Rightarrow> string \<Rightarrow> (string \<Rightarrow> string) \<Rightarrow> catalog \<Rightarrow> core_error + catalog" where
  "follow_body e a endpoint prior after t ts c =
     andThen (enrollPeer endpoint ''parent-control-node'' (at_parent a) [] c) (\<lambda>c.
     andThen (appendRoleTransition KAttached prior after (AttachReceipt a) (at_attachmentId a) t (setRole after c)) (\<lambda>c.
     andThen (rewriteSubtreeAuthority (role_authority after) ts c) (\<lambda>c.
     andThen (put_local (\<lambda>n. n\<lparr>cn_dataRole := after\<rparr>) c)
       (announce_local e (\<lambda>n. n\<lparr>cn_dataRole := after\<rparr>)))))"

definition applyParentAttachment ::
  "env \<Rightarrow> attachment \<Rightarrow> string \<Rightarrow> string \<Rightarrow> (string \<Rightarrow> string) \<Rightarrow> catalog \<Rightarrow> core_error + catalog" where
  "applyParentAttachment e a endpoint t ts c =
     (let prior = ca_role c; after = attached_role (at_parent a) a in
      if \<not> controlNodeAttachmentSchema a then Inl INVALID
      else if at_child a \<noteq> ca_controlNodeId c then Inl FENCED
      else if at_parent a \<in> set (coverage c) then Inl CONFLICT
      else if au_controlNodeId (at_authority a) \<in> set (coverage c) then Inl CONFLICT
      else if is_attached prior then
        (if \<not> sameCanonicalJson (en_lc e) (role_json prior) (role_json after) then Inl FENCED
         else mutate (enrollPeer endpoint ''parent-control-node'' (at_parent a) []) c)
      else mutate (follow_body e a endpoint prior after t ts) c)"

subsection \<open>Detaching a child\<close>

definition dropProjection :: "string \<Rightarrow> catalog \<Rightarrow> catalog" where
  "dropProjection src c =
     c\<lparr>ca_interactions := filter (\<lambda>kv. fst (snd kv) \<noteq> Some src) (ca_interactions c),
       ca_metadataOps := filter (\<lambda>kv. fst (snd kv) \<noteq> Some src) (ca_metadataOps c),
       ca_launches := filter (\<lambda>kv. fst (snd kv) \<noteq> Some src) (ca_launches c),
       ca_archives := filter (\<lambda>kv. fst (snd kv) \<noteq> Some src) (ca_archives c),
       ca_sessions := filter (\<lambda>kv. fst (snd kv) \<noteq> Some src) (ca_sessions c),
       ca_runtimeNodes := filter (\<lambda>kv. fst (snd kv) \<noteq> Some src) (ca_runtimeNodes c),
       ca_controlNodes := filter (\<lambda>kv. fst (snd kv) \<noteq> Some src \<and> fst kv \<noteq> src) (ca_controlNodes c),
       ca_checkpoints := del src (ca_checkpoints c)\<rparr>"

record detach_input =
  di_child :: string
  di_attachmentId :: string
  di_lineageId :: string
  di_expectedAuthority :: authority_ref

definition detached_role :: "string \<Rightarrow> authority_ref \<Rightarrow> string \<Rightarrow> string \<Rightarrow> string \<Rightarrow> string \<Rightarrow> data_role" where
  "detached_role parent a i l since dt = Branch a (Detached parent i l since dt)"

definition detachChild ::
  "env \<Rightarrow> detach_input \<Rightarrow> string \<Rightarrow> string \<Rightarrow> catalog \<Rightarrow> core_error + detachment_receipt \<times> catalog" where
  "detachChild e input newTransitionId t c =
     (if \<not> assertAuthority (di_expectedAuthority input) c then Inl FENCED
      else case getAttachment (di_child input) c of
        None \<Rightarrow> Inl FENCED
      | Some a \<Rightarrow>
          if at_attachmentId a \<noteq> di_attachmentId input \<or> at_lineageId a \<noteq> di_lineageId input then Inl FENCED
          else
            let receipt = \<lparr>dr_transitionId = newTransitionId, dr_mode = Graceful (ca_lastCursor c),
                  dr_child = di_child input, dr_formerParent = ca_controlNodeId c,
                  dr_attachmentId = at_attachmentId a, dr_lineageId = at_lineageId a,
                  dr_previousAuthority = at_authority a, dr_detachedAt = t\<rparr>
            in case mutate (\<lambda>c.
                 andThen (Inr (c\<lparr>ca_attachments := put (at_attachmentId a) (False, a) (ca_attachments c)\<rparr>)) (\<lambda>c.
                 andThen (case getControlNode (di_child input) c of
                     None \<Rightarrow> Inr c
                   | Some n \<Rightarrow> putControlNode (n\<lparr>cn_presence := Offline, cn_dataRole :=
                       detached_role (ca_controlNodeId c) (at_authority a) (at_attachmentId a) (at_lineageId a) (at_attachedAt a) t\<rparr>)
                       (Some (di_child input)) c) (\<lambda>c.
                 andThen (append_local e (NodeDetached receipt) c) (\<lambda>c.
                   Inr (dropProjection (di_child input) c))))) c of
                 Inl err \<Rightarrow> Inl err | Inr c' \<Rightarrow> Inr (receipt, c'))"

subsection \<open>Leaving a parent\<close>

definition leave_body ::
  "env \<Rightarrow> transition_kind \<Rightarrow> data_role \<Rightarrow> data_role \<Rightarrow> detachment_receipt \<Rightarrow> string list \<Rightarrow> string \<Rightarrow>
   (string \<Rightarrow> string) \<Rightarrow> catalog \<Rightarrow> core_error + catalog" where
  "leave_body e kind prior after receipt unknown t ts c =
     andThen (appendRoleTransition kind prior after (DetachReceipt receipt) (dr_transitionId receipt) t (setRole after c)) (\<lambda>c.
     andThen (fold_err (\<lambda>k c. markMetadataOutcomeUnknown e k (ts k) c) unknown c) (\<lambda>c.
     andThen (put_local (\<lambda>n. n\<lparr>cn_dataRole := after\<rparr>) (setDesiredUpstream None c))
       (append_local e (NodeDetached receipt))))"

definition applyDetachmentReceipt ::
  "env \<Rightarrow> detachment_receipt \<Rightarrow> string \<Rightarrow> (string \<Rightarrow> string) \<Rightarrow> catalog \<Rightarrow> core_error + detachment_receipt \<times> catalog" where
  "applyDetachmentReceipt e receipt t ts c =
     (if \<not> topologyDetachmentReceiptSchema receipt then Inl INVALID
      else if dr_child receipt \<noteq> ca_controlNodeId c then Inl FENCED
      else case ca_role c of
        Branch a (Attached p i l since) \<Rightarrow>
          if p \<noteq> dr_formerParent receipt \<or> i \<noteq> dr_attachmentId receipt \<or> l \<noteq> dr_lineageId receipt \<or>
             \<not> sameAuthority a (dr_previousAuthority receipt) then Inl FENCED
          else
            let after = detached_role p a i l since (dr_detachedAt receipt) in
            (case mutate (\<lambda>c. andThen
                (leave_body e (case dr_mode receipt of Forced x ids \<Rightarrow> KForcedDetached | Graceful n \<Rightarrow> KDetached)
                   (ca_role c) after receipt (case dr_mode receipt of Forced x ids \<Rightarrow> ids | Graceful n \<Rightarrow> []) t ts c)
                (announce_local e (\<lambda>n. n\<lparr>cn_dataRole := after\<rparr>))) c of
               Inl err \<Rightarrow> Inl err | Inr c' \<Rightarrow> Inr (receipt, c'))
      | _ \<Rightarrow> Inl FENCED)"

record force_detach_input =
  fd_controlNodeId :: string
  fd_expectedAuthority :: authority_ref
  fd_attachmentId :: string
  fd_lineageId :: string
  fd_audit :: transition_audit

definition forceDetach ::
  "env \<Rightarrow> force_detach_input \<Rightarrow> string \<Rightarrow> string \<Rightarrow> string \<Rightarrow> (string \<Rightarrow> string) \<Rightarrow> catalog \<Rightarrow>
   core_error + detachment_receipt \<times> catalog" where
  "forceDetach e input newTransitionId t t' ts c =
     (if fd_controlNodeId input \<noteq> ca_controlNodeId c then Inl FENCED
      else if \<not> assertAuthority (fd_expectedAuthority input) c then Inl FENCED
      else case ca_role c of
        Branch a (Attached p i l since) \<Rightarrow>
          if i \<noteq> fd_attachmentId input \<or> l \<noteq> fd_lineageId input then Inl FENCED
          else
            (case listMetadataOperations None None (Some [MQueued]) 10000 c of
               Inl err \<Rightarrow> Inl err
             | Inr ops \<Rightarrow>
                 let ids = map mo_operationId ops;
                     receipt = \<lparr>dr_transitionId = newTransitionId, dr_mode = Forced (fd_audit input) ids,
                       dr_child = ca_controlNodeId c, dr_formerParent = p, dr_attachmentId = i, dr_lineageId = l,
                       dr_previousAuthority = a, dr_detachedAt = t\<rparr>
                 in (case mutate (leave_body e KForcedDetached (ca_role c) (detached_role p a i l since t) receipt ids t' ts) c of
                       Inl err \<Rightarrow> Inl err | Inr c' \<Rightarrow> Inr (receipt, c')))
      | _ \<Rightarrow> Inl FENCED)"

subsection \<open>Promotion\<close>

record promote_input =
  pi_controlNodeId :: string
  pi_expectedAuthority :: authority_ref
  pi_detachmentTransitionId :: string
  pi_forcedDetachmentAudit :: "transition_audit option"

definition promote_body ::
  "env \<Rightarrow> promotion_receipt \<Rightarrow> string \<Rightarrow> data_role \<Rightarrow> string \<Rightarrow> (string \<Rightarrow> string) \<Rightarrow> catalog \<Rightarrow> core_error + catalog" where
  "promote_body e receipt feedId prior t ts c =
     (let after = Authority (pr_authority receipt);
          descriptor = (\<lambda>n. n\<lparr>cn_feedId := feedId, cn_dataRole := after\<rparr>)
      in
      if \<not> authorityPromotionReceiptSchema receipt then Inl INVALID
      else
        andThen (appendRoleTransition KPromoted prior after (PromoteReceipt receipt) (pr_transitionId receipt) t
                   (setRole after (rotateControlFeed feedId c))) (\<lambda>c.
        andThen (rewriteSubtreeAuthority (pr_authority receipt) ts c) (\<lambda>c.
        andThen (put_local descriptor (setDesiredUpstream None c)) (\<lambda>c.
        andThen (append_local e (AuthorityPromoted receipt) c)
          (announce_local e descriptor)))))"

text \<open>The new realm, epoch, feed and transition IDs, and the clock readings, drawn in the transaction.\<close>

record minted =
  mi_realmId :: string
  mi_epochId :: string
  mi_feedId :: string
  mi_transitionId :: string

definition promote ::
  "env \<Rightarrow> promote_input \<Rightarrow> minted \<Rightarrow> string \<Rightarrow> string \<Rightarrow> (string \<Rightarrow> string) \<Rightarrow> catalog \<Rightarrow>
   core_error + promotion_receipt \<times> catalog" where
  "promote e input mint t t' ts c =
     (if pi_controlNodeId input \<noteq> ca_controlNodeId c then Inl FENCED
      else if \<not> assertAuthority (pi_expectedAuthority input) c then Inl FENCED
      else case ca_role c of
        Branch a (Detached p i l since dt) \<Rightarrow>
          (case filter (\<lambda>r. rt_transitionId r = pi_detachmentTransitionId input) (ca_transitions c) of
             [] \<Rightarrow> Inl FENCED
           | tr # _ \<Rightarrow>
               if rt_kind tr \<noteq> KDetached \<and> rt_kind tr \<noteq> KForcedDetached then Inl FENCED
               else if \<not> sameCanonicalJson (en_lc e) (role_json (rt_after tr)) (role_json (ca_role c)) then Inl FENCED
               else if rt_kind tr = KForcedDetached \<and> pi_forcedDetachmentAudit input = None then Inl FENCED
               else
                 let receipt = \<lparr>pr_transitionId = mi_transitionId mint, pr_controlNodeId = ca_controlNodeId c,
                       pr_previousAuthority = a,
                       pr_authority = \<lparr>au_realmId = mi_realmId mint, au_controlNodeId = ca_controlNodeId c, au_epochId = mi_epochId mint\<rparr>,
                       pr_detachmentTransitionId = pi_detachmentTransitionId input, pr_promotedAt = t,
                       pr_audit = pi_forcedDetachmentAudit input\<rparr>
                 in (case mutate (promote_body e receipt (mi_feedId mint) (ca_role c) t' ts) c of
                       Inl err \<Rightarrow> Inl err | Inr c' \<Rightarrow> Inr (receipt, c')))
      | _ \<Rightarrow> Inl FENCED)"

end
