(* ===== verification/Control_Runtime.thy ===== *)
theory Control_Runtime
  imports Control_Topology
begin

text \<open>
  Runtime nodes and presence in a control node's catalog
  (\<^verbatim>\<open>packages/control-node-core/src/catalog.ts\<close>): registration with its boot fence, heartbeats,
  staleness of runtimes and children, routes, and the recovery when the process starts.
\<close>

subsection \<open>Boot fencing\<close>

definition unknown_command :: "string \<Rightarrow> string \<Rightarrow> command_record \<Rightarrow> command_record" where
  "unknown_command err t r = r\<lparr>cr_state := COutcomeUnknown, cr_error := Some err, cr_updatedAt := t\<rparr>"

definition interrupted :: "command_record \<Rightarrow> bool" where
  "interrupted r \<longleftrightarrow> cr_state r = CReceived \<or> cr_state r = CStarted"

definition interrupt_command :: "env \<Rightarrow> string \<Rightarrow> string \<Rightarrow> command_record \<Rightarrow> catalog \<Rightarrow> core_error + catalog" where
  "interrupt_command e err t r c =
     append_local e (CommandChanged (unknown_command err t r)) (putCommand (unknown_command err t r) c)"

definition fence_session :: "env \<Rightarrow> string \<Rightarrow> session \<Rightarrow> catalog \<Rightarrow> core_error + catalog" where
  "fence_session e t s c =
     (let fenced = s\<lparr>se_availability := Resumable, se_runtimeStatus := Stopped, se_runtimeEpoch := None, se_updatedAt := t\<rparr> in
      andThen (stalePendingInteractionsForSession e (se_sessionId s) t c) (\<lambda>c.
      andThen (putSession fenced None c) (append_local e (SessionUpsert fenced))))"

definition boot_replaced :: string where
  "boot_replaced = ''runtime-node boot was replaced before a terminal response''"

definition fenceRuntimeBoot :: "env \<Rightarrow> string \<Rightarrow> string \<Rightarrow> catalog \<Rightarrow> core_error + catalog" where
  "fenceRuntimeBoot e rid t c =
     andThen (fold_err (interrupt_command e boot_replaced t)
                (filter (\<lambda>r. interrupted r \<and> cr_runtimeNodeId r = rid) (map snd (ca_commands c)))
                (c\<lparr>ca_inventories := del rid (ca_inventories c)\<rparr>)) (\<lambda>c.
       fold_err (fence_session e t)
         (listSessions (\<lambda>s. se_runtimeNodeId s = rid \<and> se_catalogState s = Open) c) c)"

subsection \<open>Registration and heartbeats\<close>

record runtime_registration =
  rr_runtimeNodeId :: string
  rr_bootId :: string
  rr_name :: string
  rr_allowedRoots :: "string list"
  rr_harnesses :: "json list"
  rr_launchProfiles :: "json list"

definition runtime_descriptor ::
  "runtime_registration \<Rightarrow> string \<Rightarrow> string option \<Rightarrow> string \<Rightarrow> runtime_node" where
  "runtime_descriptor r owner endpoint t =
     \<lparr>rn_runtimeNodeId = rr_runtimeNodeId r, rn_bootId = rr_bootId r, rn_owner = owner, rn_name = rr_name r,
      rn_endpointId = endpoint, rn_presence = Online, rn_reachability = Reachable, rn_connectedAt = Some t,
      rn_lastHeartbeatAt = Some t, rn_allowedRoots = rr_allowedRoots r, rn_harnesses = rr_harnesses r,
      rn_launchProfiles = rr_launchProfiles r\<rparr>"

definition runtime_source :: "string \<Rightarrow> catalog \<Rightarrow> string option" where
  "runtime_source k c = projection_source k (ca_runtimeNodes c)"

definition register_body ::
  "env \<Rightarrow> string option \<Rightarrow> runtime_node option \<Rightarrow> runtime_node \<Rightarrow> string \<Rightarrow> catalog \<Rightarrow> core_error + catalog" where
  "register_body e endpoint previous d t c =
     andThen (case endpoint of None \<Rightarrow> Inr c
              | Some ep \<Rightarrow> enrollPeer ep ''runtime-node'' (rn_runtimeNodeId d) [] c) (\<lambda>c.
     andThen (case previous of None \<Rightarrow> Inr c
              | Some p \<Rightarrow> if rn_bootId p \<noteq> rn_bootId d then fenceRuntimeBoot e (rn_runtimeNodeId p) t c else Inr c) (\<lambda>c.
       append_local e (RuntimeUpsert d) (putRuntimeNode d None c)))"

definition registerRuntimeNode ::
  "env \<Rightarrow> runtime_registration \<Rightarrow> string option \<Rightarrow> string \<Rightarrow> string \<Rightarrow> catalog \<Rightarrow> core_error + runtime_node \<times> catalog" where
  "registerRuntimeNode e r endpoint t t' c =
     (let previous = getRuntimeNode (rr_runtimeNodeId r) c;
          known = Option.bind previous rn_endpointId
      in
      if (case previous of None \<Rightarrow> False
          | Some p \<Rightarrow> rn_owner p \<noteq> ca_controlNodeId c \<or> runtime_source (rr_runtimeNodeId r) c \<noteq> None) then Inl CONFLICT
      else if endpoint \<noteq> None \<and> known \<noteq> None \<and> known \<noteq> endpoint then Inl FENCED
      else
        let d = runtime_descriptor r (ca_controlNodeId c) (if endpoint \<noteq> None then endpoint else known) t
        in case mutate (register_body e endpoint previous d t') c of
             Inl err \<Rightarrow> Inl err | Inr c' \<Rightarrow> Inr (d, c'))"

definition heartbeatRuntimeNode ::
  "env \<Rightarrow> string \<Rightarrow> string \<Rightarrow> string \<Rightarrow> string \<Rightarrow> catalog \<Rightarrow> core_error + bool \<times> catalog" where
  "heartbeatRuntimeNode e rid boot t t' c =
     (case getRuntimeNode rid c of
        None \<Rightarrow> Inr (False, c)
      | Some r \<Rightarrow>
          if rn_bootId r \<noteq> boot then Inr (False, c)
          else
            let changed = (rn_presence r \<noteq> Online \<or> rn_reachability r \<noteq> Reachable);
                updated = r\<lparr>rn_presence := Online, rn_reachability := Reachable,
                  rn_connectedAt := Some (case rn_connectedAt r of None \<Rightarrow> t | Some x \<Rightarrow> x), rn_lastHeartbeatAt := Some t'\<rparr>
            in case mutate (\<lambda>c. if changed then append_local e (RuntimeUpsert updated) (putRuntimeNode updated None c)
                                 else Inr (putRuntimeNode updated None c)) c of
                 Inl err \<Rightarrow> Inl err | Inr c' \<Rightarrow> Inr (True, c'))"

definition markRuntimeNodeDisconnected ::
  "env \<Rightarrow> string \<Rightarrow> string option \<Rightarrow> catalog \<Rightarrow> core_error + bool \<times> catalog" where
  "markRuntimeNodeDisconnected e rid boot c =
     (case getRuntimeNode rid c of
        None \<Rightarrow> Inr (False, c)
      | Some r \<Rightarrow>
          if boot \<noteq> None \<and> boot \<noteq> Some (rn_bootId r) then Inr (False, c)
          else if rn_presence r = Stale \<and> rn_reachability r = StaleRoute then Inr (True, c)
          else
            (case mutate (\<lambda>c. append_local e (RuntimePresence rid Stale)
                 (putRuntimeNode (r\<lparr>rn_presence := Stale, rn_reachability := StaleRoute, rn_connectedAt := None\<rparr>) None c)) c of
               Inl err \<Rightarrow> Inl err | Inr c' \<Rightarrow> Inr (True, c')))"

definition silent_since :: "string \<Rightarrow> string option \<Rightarrow> bool" where
  "silent_since cutoff heartbeat \<longleftrightarrow> (case heartbeat of None \<Rightarrow> True | Some t \<Rightarrow> t < cutoff)"

definition markStaleRuntimeNodes :: "env \<Rightarrow> string \<Rightarrow> catalog \<Rightarrow> core_error + string list \<times> catalog" where
  "markStaleRuntimeNodes e cutoff c =
     (let stale = filter (\<lambda>r. rn_presence r = Online \<and> silent_since cutoff (rn_lastHeartbeatAt r))
                    (records (filter (\<lambda>kv. fst (snd kv) = None) (ca_runtimeNodes c)))
      in case fold_err (\<lambda>r c. case markRuntimeNodeDisconnected e (rn_runtimeNodeId r) (Some (rn_bootId r)) c of
                 Inl err \<Rightarrow> Inl err | Inr (b, c') \<Rightarrow> Inr c') stale c of
           Inl err \<Rightarrow> Inl err | Inr c' \<Rightarrow> Inr (map rn_runtimeNodeId stale, c'))"

record runtime_route =
  ro_runtimeNodeId :: string
  ro_owner :: string
  ro_via :: "(string \<times> string \<times> string) option"

text \<open>\<open>String(null)\<close> is the text null: a foreign runtime without a projecting child.\<close>

definition routeForRuntimeNode :: "string \<Rightarrow> catalog \<Rightarrow> runtime_route option" where
  "routeForRuntimeNode rid c =
     (case getRuntimeNode rid c of
        None \<Rightarrow> None
      | Some r \<Rightarrow>
          if rn_owner r = ca_controlNodeId c
          then Some \<lparr>ro_runtimeNodeId = rid, ro_owner = ca_controlNodeId c, ro_via = None\<rparr>
          else
            let child = (case runtime_source rid c of None \<Rightarrow> ''null'' | Some k \<Rightarrow> k) in
            (case getAttachment child c of
               None \<Rightarrow> None
             | Some a \<Rightarrow> Some \<lparr>ro_runtimeNodeId = rid, ro_owner = rn_owner r,
                 ro_via = Some (child, at_attachmentId a, at_lineageId a)\<rparr>))"

subsection \<open>Children\<close>

definition projectedRuntimeNodes :: "string \<Rightarrow> catalog \<Rightarrow> runtime_node list" where
  "projectedRuntimeNodes src c = records (filter (\<lambda>kv. fst (snd kv) = Some src) (ca_runtimeNodes c))"

definition announce_runtime :: "env \<Rightarrow> string \<Rightarrow> reachability \<Rightarrow> runtime_node \<Rightarrow> catalog \<Rightarrow> core_error + catalog" where
  "announce_runtime e src reach r c =
     appendControl e (RuntimeUpsert (r\<lparr>rn_reachability := reach\<rparr>)) (rn_owner r) None
       (putRuntimeNode (r\<lparr>rn_reachability := reach\<rparr>) (Some src) c)"

definition markChildDisconnected :: "env \<Rightarrow> string \<Rightarrow> string option \<Rightarrow> catalog \<Rightarrow> core_error + bool \<times> catalog" where
  "markChildDisconnected e child boot c =
     (case getControlNode child c of
        None \<Rightarrow> Inr (False, c)
      | Some n \<Rightarrow>
          if boot \<noteq> None \<and> boot \<noteq> Some (cn_bootId n) then Inr (False, c)
          else if cn_presence n \<noteq> Online then Inr (True, c)
          else
            (case mutate (\<lambda>c.
                andThen (putControlNode (n\<lparr>cn_presence := Stale, cn_connectedAt := None\<rparr>) (Some child) c) (\<lambda>c.
                andThen (fold_err (announce_runtime e child Unreachable) (projectedRuntimeNodes child c) c)
                  (append_local e (NodePresence child Stale)))) c of
               Inl err \<Rightarrow> Inl err | Inr c' \<Rightarrow> Inr (True, c')))"

definition heartbeatChild ::
  "env \<Rightarrow> string \<Rightarrow> string \<Rightarrow> string \<Rightarrow> string \<Rightarrow> catalog \<Rightarrow> core_error + bool \<times> catalog" where
  "heartbeatChild e child boot t t' c =
     (case getControlNode child c of
        None \<Rightarrow> Inr (False, c)
      | Some n \<Rightarrow>
          if cn_bootId n \<noteq> boot \<or> getAttachment child c = None then Inr (False, c)
          else
            let degraded = (cn_presence n \<noteq> Online);
                updated = n\<lparr>cn_presence := Online,
                  cn_connectedAt := Some (case cn_connectedAt n of None \<Rightarrow> t | Some x \<Rightarrow> x), cn_lastHeartbeatAt := Some t'\<rparr>
            in (case mutate (\<lambda>c. andThen (putControlNode updated (Some child) c) (\<lambda>c.
                  if degraded
                  then andThen (fold_err (announce_runtime e child Reachable) (projectedRuntimeNodes child c) c)
                         (append_local e (NodeUpsert updated))
                  else Inr c)) c of
                 Inl err \<Rightarrow> Inl err | Inr c' \<Rightarrow> Inr (True, c')))"

definition immediate_children :: "catalog \<Rightarrow> control_node list" where
  "immediate_children c =
     map (\<lambda>kv. snd (snd kv))
       (filter (\<lambda>kv. getAttachment (fst kv) c \<noteq> None \<and> fst (snd kv) = Some (fst kv)) (ca_controlNodes c))"

definition markStaleChildren :: "env \<Rightarrow> string \<Rightarrow> catalog \<Rightarrow> core_error + string list \<times> catalog" where
  "markStaleChildren e cutoff c =
     (let stale = filter (\<lambda>n. cn_presence n = Online \<and> silent_since cutoff (cn_lastHeartbeatAt n)) (immediate_children c)
      in case fold_err (\<lambda>n c. case markChildDisconnected e (cn_controlNodeId n) (Some (cn_bootId n)) c of
                 Inl err \<Rightarrow> Inl err | Inr (b, c') \<Rightarrow> Inr c') stale c of
           Inl err \<Rightarrow> Inl err | Inr c' \<Rightarrow> Inr (map cn_controlNodeId stale, c'))"

subsection \<open>Starting the process\<close>

record boot_options =
  bo_bootId :: string
  bo_name :: "string option"
  bo_endpointId :: "string option"

definition boot_capabilities :: "string list" where
  "boot_capabilities = [''catalog.sqlite-v4'', ''sessions.lifecycle-v4'', ''sessions.search-v1'',
     ''launch.operations-v1'', ''topology.control-node-tree'', ''authority.explicit-promotion'',
     ''sources.atomic-snapshot'', ''stream.bounded-replay'', ''terminal.side-channel.v1'']"

definition startBoot :: "env \<Rightarrow> boot_options \<Rightarrow> string \<Rightarrow> catalog \<Rightarrow> core_error + catalog" where
  "startBoot e opts t c =
     (let previous = row (ca_controlNodeId c) (ca_controlNodes c);
          d = \<lparr>cn_controlNodeId = ca_controlNodeId c, cn_bootId = bo_bootId opts, cn_feedId = ca_feedId c,
            cn_name = (case bo_name opts of Some n \<Rightarrow> n | None \<Rightarrow>
               (case previous of Some p \<Rightarrow> cn_name p | None \<Rightarrow> ''agent-multiplex-control-node'')),
            cn_endpointId = (if bo_endpointId opts \<noteq> None then bo_endpointId opts else Option.bind previous cn_endpointId),
            cn_presence = Online, cn_dataRole = ca_role c, cn_connectedAt = Some t, cn_lastHeartbeatAt = Some t,
            cn_capabilities = boot_capabilities\<rparr>
      in mutate (\<lambda>c. andThen (putControlNode d None c) (append_local e (NodeUpsert d))) c)"

definition restarted :: string where
  "restarted = ''control node restarted before a terminal response''"

text \<open>\<open>ts k\<close> is the clock reading for command \<open>k\<close>.\<close>

definition recover_body ::
  "env \<Rightarrow> command_record list \<Rightarrow> runtime_node list \<Rightarrow> control_node list \<Rightarrow> (string \<Rightarrow> string) \<Rightarrow> catalog \<Rightarrow> core_error + catalog" where
  "recover_body e cmds runtimes children ts c =
     andThen (fold_err (\<lambda>r. interrupt_command e restarted (ts (cr_commandId r)) r) cmds c) (\<lambda>c.
     andThen (fold_err (\<lambda>r c. append_local e (RuntimePresence (rn_runtimeNodeId r) Stale)
                (putRuntimeNode (r\<lparr>rn_presence := Stale, rn_reachability := StaleRoute, rn_connectedAt := None\<rparr>) None c))
              runtimes c) (\<lambda>c.
       fold_err (\<lambda>n c.
         andThen (putControlNode (n\<lparr>cn_presence := Stale, cn_connectedAt := None\<rparr>) (Some (cn_controlNodeId n)) c) (\<lambda>c.
         andThen (Inr (fold (\<lambda>r c. putRuntimeNode (r\<lparr>rn_reachability := StaleRoute\<rparr>) (Some (cn_controlNodeId n)) c)
                    (projectedRuntimeNodes (cn_controlNodeId n) c) c))
           (append_local e (NodePresence (cn_controlNodeId n) Stale)))) children c))"

definition recoverInterruptedState :: "env \<Rightarrow> (string \<Rightarrow> string) \<Rightarrow> catalog \<Rightarrow> core_error + catalog" where
  "recoverInterruptedState e ts c =
     (let cmds = filter interrupted (map snd (ca_commands c));
          runtimes = filter (\<lambda>r. rn_presence r = Online)
            (records (filter (\<lambda>kv. fst (snd kv) = None) (ca_runtimeNodes c)));
          children = filter (\<lambda>n. cn_presence n = Online) (immediate_children c)
      in if cmds = [] \<and> runtimes = [] \<and> children = [] then Inr c
         else mutate (recover_body e cmds runtimes children ts) c)"

text \<open>
  The constructor on a database that has an identity: the instance starts with
  \<open>#publishedCursor = 0\<close> and no listener, and sets the cursor only after the recovery.
\<close>

definition openCatalog :: "env \<Rightarrow> boot_options \<Rightarrow> string \<Rightarrow> (string \<Rightarrow> string) \<Rightarrow> catalog \<Rightarrow> core_error + catalog" where
  "openCatalog e opts t ts stored =
     andThen (startBoot e opts t (stored\<lparr>ca_published := 0, ca_emitted := []\<rparr>)) (\<lambda>c.
     andThen (recoverInterruptedState e ts c) (\<lambda>c.
     andThen (Inr (retireArchivedMetadataDeliveryIntents c)) (\<lambda>c.
       Inr (c\<lparr>ca_published := ca_lastCursor c\<rparr>))))"

text \<open>The constructor on an empty database.\<close>

definition createCatalog :: "string \<Rightarrow> string \<Rightarrow> string \<Rightarrow> string \<Rightarrow> nat \<Rightarrow> catalog" where
  "createCatalog node feed realm epoch retention =
     \<lparr>ca_controlNodeId = node, ca_feedId = feed, ca_retention = retention,
      ca_role = Authority \<lparr>au_realmId = realm, au_controlNodeId = node, au_epochId = epoch\<rparr>,
      ca_transitions = [], ca_desiredUpstream = None, ca_upstreamInitialized = False, ca_controlNodes = [],
      ca_attachments = [], ca_runtimeNodes = [], ca_sessions = [], ca_interactions = [], ca_metadataOps = [],
      ca_outbox = [], ca_commands = [], ca_intents = [], ca_launches = [], ca_archives = [], ca_inventories = [], ca_checkpoints = [],
      ca_imported = [], ca_deliveries = [], ca_nextDelivery = 1, ca_peers = [], ca_lastCursor = 0,
      ca_minCursor = 0, ca_events = [], ca_published = 0, ca_emitted = []\<rparr>"

end
