(* ===== verification/Control_Json.thy ===== *)
theory Control_Json
  imports Control_State
begin

text \<open>
  The JSON form of the feed's items, by which an imported event is compared with an earlier one
  of the same event ID (\<open>canonicalProtocolRecordJson(item)\<close> in \<open>importChildControl\<close> of
  \<^verbatim>\<open>packages/control-node-core/src/catalog.ts\<close>; shapes of \<^verbatim>\<open>packages/protocol/src/{stream,authority,
  control-node,runtime-node,session}.ts\<close>).
\<close>

definition presence_text :: "presence \<Rightarrow> string" where
  "presence_text p = (case p of Online \<Rightarrow> ''online'' | Offline \<Rightarrow> ''offline'' | Stale \<Rightarrow> ''stale'')"

definition reachability_text :: "reachability \<Rightarrow> string" where
  "reachability_text r = (case r of Reachable \<Rightarrow> ''reachable'' | Unreachable \<Rightarrow> ''unreachable'' | StaleRoute \<Rightarrow> ''stale'')"

definition availability_text :: "availability \<Rightarrow> string" where
  "availability_text a = (case a of Active \<Rightarrow> ''active'' | Resumable \<Rightarrow> ''resumable'' | Unavailable \<Rightarrow> ''unavailable'')"

definition runtime_status_text :: "runtime_status \<Rightarrow> string" where
  "runtime_status_text s = (case s of Idle \<Rightarrow> ''idle'' | Running \<Rightarrow> ''running'' | WaitingForInput \<Rightarrow> ''waitingForInput''
     | Stopped \<Rightarrow> ''stopped'' | ErrorStatus \<Rightarrow> ''error'' | UnknownStatus \<Rightarrow> ''unknown'')"

definition JTexts :: "string list \<Rightarrow> json" where
  "JTexts ts = JArr (map JStr ts)"

definition attachment_json :: "attachment \<Rightarrow> json" where
  "attachment_json a = JObj [(''attachmentId'', JStr (at_attachmentId a)), (''lineageId'', JStr (at_lineageId a)),
     (''parentControlNodeId'', JStr (at_parent a)), (''childControlNodeId'', JStr (at_child a)),
     (''authority'', authority_json (at_authority a)), (''attachedAt'', JStr (at_attachedAt a))]"

definition audit_json :: "transition_audit \<Rightarrow> json" where
  "audit_json a = JObj ([(''actorId'', JStr (ta_actorId a)), (''reason'', JStr (ta_reason a))] @
     optional ''incidentId'' JStr (ta_incidentId a) @
     [(''evidence'', JArr (ta_evidence a)), (''requestedAt'', JStr (ta_requestedAt a))])"

definition detachment_json :: "detachment_receipt \<Rightarrow> json" where
  "detachment_json r = JObj ([(''transitionId'', JStr (dr_transitionId r)),
     (''childControlNodeId'', JStr (dr_child r)), (''formerParentControlNodeId'', JStr (dr_formerParent r)),
     (''attachmentId'', JStr (dr_attachmentId r)), (''lineageId'', JStr (dr_lineageId r)),
     (''previousAuthority'', authority_json (dr_previousAuthority r)), (''detachedAt'', JStr (dr_detachedAt r))] @
     (case dr_mode r of
        Graceful n \<Rightarrow> [(''mode'', JStr ''graceful''), (''metadataBarrier'', JNat n)]
      | Forced a ids \<Rightarrow> [(''mode'', JStr ''forced''), (''metadataBarrier'', JNull), (''audit'', audit_json a),
          (''unresolvedMetadataOperationIds'', JTexts ids)]))"

definition promotion_json :: "promotion_receipt \<Rightarrow> json" where
  "promotion_json r = JObj ([(''transitionId'', JStr (pr_transitionId r)), (''controlNodeId'', JStr (pr_controlNodeId r)),
     (''previousAuthority'', authority_json (pr_previousAuthority r)), (''authority'', authority_json (pr_authority r)),
     (''detachmentTransitionId'', JStr (pr_detachmentTransitionId r)), (''promotedAt'', JStr (pr_promotedAt r))] @
     optional ''audit'' audit_json (pr_audit r))"

definition node_json :: "control_node \<Rightarrow> json" where
  "node_json n = JObj ([(''controlNodeId'', JStr (cn_controlNodeId n)), (''controlNodeBootId'', JStr (cn_bootId n)),
     (''feedId'', JStr (cn_feedId n)), (''name'', JStr (cn_name n))] @
     optional ''endpointId'' JStr (cn_endpointId n) @
     [(''presence'', JStr (presence_text (cn_presence n))), (''dataRole'', role_json (cn_dataRole n)),
      (''connectedAt'', JNullable JStr (cn_connectedAt n)), (''lastHeartbeatAt'', JNullable JStr (cn_lastHeartbeatAt n)),
      (''protocolVersion'', JNat 5), (''capabilities'', JTexts (cn_capabilities n))])"

definition runtime_json :: "runtime_node \<Rightarrow> json" where
  "runtime_json r = JObj ([(''runtimeNodeId'', JStr (rn_runtimeNodeId r)), (''runtimeNodeBootId'', JStr (rn_bootId r)),
     (''ownerControlNodeId'', JStr (rn_owner r)), (''name'', JStr (rn_name r))] @
     optional ''endpointId'' JStr (rn_endpointId r) @
     [(''presence'', JStr (presence_text (rn_presence r))), (''reachability'', JStr (reachability_text (rn_reachability r))),
      (''connectedAt'', JNullable JStr (rn_connectedAt r)), (''lastHeartbeatAt'', JNullable JStr (rn_lastHeartbeatAt r)),
      (''allowedRoots'', JTexts (rn_allowedRoots r)), (''harnesses'', JArr (rn_harnesses r)),
      (''launchProfiles'', JArr (rn_launchProfiles r)), (''protocolVersion'', JNat 5)])"

definition provenance_json :: "launch_provenance \<Rightarrow> json" where
  "provenance_json p = JObj [(''launchId'', JStr (pv_launchId p)), (''profileId'', JStr (pv_profileId p)),
     (''providerId'', JStr (pv_providerId p)), (''backendId'', JStr (pv_backendId p)),
     (''contractVersion'', JNat (pv_contractVersion p)), (''requestSchemaHash'', JStr (pv_requestSchemaHash p)),
     (''implementationVersion'', JStr (pv_implementationVersion p))]"

definition session_json :: "session \<Rightarrow> json" where
  "session_json s = JObj ([(''sessionId'', JStr (se_sessionId s)), (''runtimeNodeId'', JStr (se_runtimeNodeId s)),
     (''harness'', JStr (se_harness s)), (''adapterScopeId'', JStr (se_adapterScopeId s)),
     (''vendorSessionId'', JStr (se_vendorSessionId s)), (''bindingRevision'', JNat (se_bindingRevision s)),
     (''runtimeEpoch'', JNullable JStr (se_runtimeEpoch s)), (''cwd'', JNullable JStr (se_cwd s)),
     (''availability'', JStr (availability_text (se_availability s))),
     (''runtimeStatus'', JStr (runtime_status_text (se_runtimeStatus s)))] @
     optional ''harnessSettings'' id (se_harnessSettings s) @ optional ''nativeSummary'' id (se_nativeSummary s) @
     [(''launchProvenance'', JNullable provenance_json (se_launchProvenance s)),
      (''metadata'', snapshot_json (se_metadata s)), (''createdAt'', JStr (se_createdAt s)),
      (''updatedAt'', JStr (se_updatedAt s)), (''lastSeenAt'', JNullable JStr (se_lastSeenAt s)),
      (''lastActivityAt'', JNullable JStr (se_lastActivityAt s)),
      (''metadataAuthority'', authority_json (se_metadataAuthority s)),
      (''catalogState'', JStr (if se_catalogState s = Open then ''open'' else ''archived'')),
      (''catalogRevision'', JNat (se_catalogRevision s)), (''archivedAt'', JNullable JStr (se_archivedAt s))])"

fun change_json :: "control_change \<Rightarrow> json" where
  "change_json (NodeUpsert n) = JObj [(''type'', JStr ''controlNode.upsert''), (''controlNode'', node_json n)]"
| "change_json (NodePresence k p) = JObj [(''type'', JStr ''controlNode.presence''), (''controlNodeId'', JStr k),
     (''presence'', JStr (presence_text p))]"
| "change_json (NodeAttached a) = JObj [(''type'', JStr ''controlNode.attached''), (''attachment'', attachment_json a)]"
| "change_json (NodeDetached r) = JObj [(''type'', JStr ''controlNode.detached''), (''receipt'', detachment_json r)]"
| "change_json (AuthorityPromoted r) = JObj [(''type'', JStr ''authority.promoted''), (''receipt'', promotion_json r)]"
| "change_json (RuntimeUpsert r) = JObj [(''type'', JStr ''runtimeNode.upsert''), (''runtimeNode'', runtime_json r)]"
| "change_json (RuntimePresence k p) = JObj [(''type'', JStr ''runtimeNode.presence''), (''runtimeNodeId'', JStr k),
     (''presence'', JStr (presence_text p))]"
| "change_json (SessionUpsert s) = JObj [(''type'', JStr ''session.upsert''), (''session'', session_json s)]"
| "change_json (LaunchChanged l) = JObj [(''type'', JStr ''launch.changed''), (''launch'', launch_json l)]"
| "change_json (ArchiveChanged a) = JObj [(''type'', JStr ''archive.changed''), (''archive'', archive_json a)]"
| "change_json (SessionUnavailable k) = JObj [(''type'', JStr ''session.unavailable''), (''sessionId'', JStr k)]"
| "change_json (MetadataChanged k m) = JObj [(''type'', JStr ''metadata.changed''), (''sessionId'', JStr k),
     (''metadata'', snapshot_json m)]"
| "change_json (MetadataOperation mo) = JObj [(''type'', JStr ''metadata.operation''), (''operation'', operation_json mo)]"
| "change_json (CommandChanged r) = JObj [(''type'', JStr ''command.changed''), (''command'', command_json r)]"
| "change_json (InteractionChanged i) = JObj [(''type'', JStr ''interaction.changed''), (''interaction'', interaction_json i)]"
| "change_json (InventoryCompleted k g) = JObj [(''type'', JStr ''inventory.completed''), (''runtimeNodeId'', JStr k),
     (''generation'', JStr g)]"

definition item_json :: "feed_item \<Rightarrow> json" where
  "item_json i = JObj [(''kind'', JStr ''control''), (''eventId'', JStr (fi_eventId i)), (''feedId'', JStr (fi_feedId i)),
     (''cursor'', JNat (fi_cursor i)),
     (''provenance'', JObj [(''originControlNodeId'', JStr (fi_origin i)), (''authority'', authority_json (fi_authority i))]),
     (''change'', change_json (fi_change i))]"

text \<open>The \<open>payload_hash\<close> column holds the canonical text itself.\<close>

definition item_hash :: "collation \<Rightarrow> feed_item \<Rightarrow> string" where
  "item_hash lc i = (case canonicalProtocolRecordJson lc (unk_of (item_json i)) of Inl e \<Rightarrow> [] | Inr t \<Rightarrow> t)"

end
