(* ===== verification/Control_Import.thy ===== *)
theory Control_Import
  imports Control_Runtime Control_Json Source_Coverage
begin

text \<open>
  How a parent takes over its child's projection (\<^verbatim>\<open>packages/control-node-core/src/catalog.ts\<close>):
  the access snapshot a node exports, replacing a child's projection by its snapshot, and importing
  the events of the child's feed one by one after the snapshot's checkpoint.
\<close>

subsection \<open>The exported snapshot\<close>

definition sourceManifest :: "string \<Rightarrow> catalog \<Rightarrow> core_error + source_manifest" where
  "sourceManifest t c =
     (case localControlNode c of
        Inl err \<Rightarrow> Inl err
      | Inr n \<Rightarrow>
          let m = \<lparr>sm_sourceControlNodeId = cn_controlNodeId n, sm_sourceBootId = cn_bootId n, sm_authority = authority c,
            sm_projectionRoot = cn_controlNodeId n, sm_covered = coverage c, sm_feedId = ca_feedId c,
            sm_controlCursor = ca_lastCursor c, sm_generatedAt = t, sm_capabilities = cn_capabilities n\<rparr>
          in if sourceManifestSchema m then Inr m else Inl INVALID)"

definition parent_entry :: "catalog \<Rightarrow> control_node \<Rightarrow> string option" where
  "parent_entry c n =
     (if cn_controlNodeId n = ca_controlNodeId c then None
      else case cn_dataRole n of Branch a (Attached p i l t) \<Rightarrow> Some p | _ \<Rightarrow> None)"

definition open_session :: "string \<Rightarrow> catalog \<Rightarrow> bool" where
  "open_session sid c \<longleftrightarrow> (case getSession sid c of None \<Rightarrow> False | Some s \<Rightarrow> se_catalogState s = Open)"

definition open_operations :: "catalog \<Rightarrow> metadata_operation list" where
  "open_operations c =
     filter (\<lambda>mo. open_session (mo_sessionId mo) c)
       (sort_le (\<lambda>a b. desc_text (mo_updatedAt a) (mo_operationId a) (mo_updatedAt b) (mo_operationId b))
         (records (ca_metadataOps c)))"

definition listRuntimeNodes :: "catalog \<Rightarrow> runtime_node list" where
  "listRuntimeNodes c = sort_le (\<lambda>a b. rn_runtimeNodeId a \<le> rn_runtimeNodeId b) (records (ca_runtimeNodes c))"

definition accessSnapshot :: "string \<Rightarrow> string \<Rightarrow> catalog \<Rightarrow> core_error + access_snapshot" where
  "accessSnapshot t t' c =
     (case sourceManifest t c of
        Inl err \<Rightarrow> Inl err
      | Inr m \<Rightarrow>
          let s = \<lparr>as_manifest = m,
            as_parents = spread [] (map (\<lambda>n. (cn_controlNodeId n, parent_entry c n)) (listControlNodes c)),
            as_capturedAt = t', as_controlNodes = listControlNodes c, as_runtimeNodes = listRuntimeNodes c,
            as_sessions = listSessions (\<lambda>s. se_catalogState s = Open) c,
            as_interactions = filter (\<lambda>i. open_session (ir_sessionId i) c) (listInteractions None False c),
            as_metadataOperations = open_operations c\<rparr>
          in if accessSnapshotSchema s then Inr s else Inl INVALID)"

subsection \<open>Replacing a child's projection\<close>

definition foreign :: "string \<Rightarrow> string \<Rightarrow> (string, string option \<times> 'r) table \<Rightarrow> bool" where
  "foreign src k t \<longleftrightarrow> has k t \<and> projection_source k t \<noteq> Some src"

definition foreign_operation :: "string \<Rightarrow> string \<Rightarrow> catalog \<Rightarrow> bool" where
  "foreign_operation src k c \<longleftrightarrow>
     getMetadataOperation k c \<noteq> None \<and> operation_source k c \<noteq> None \<and> operation_source k c \<noteq> Some src"

definition assertSnapshotOwnership :: "string \<Rightarrow> access_snapshot \<Rightarrow> catalog \<Rightarrow> bool" where
  "assertSnapshotOwnership src s c \<longleftrightarrow>
     \<not> list_ex (\<lambda>n. foreign src (cn_controlNodeId n) (ca_controlNodes c)) (as_controlNodes s) \<and>
     \<not> list_ex (\<lambda>n. foreign src (rn_runtimeNodeId n) (ca_runtimeNodes c)) (as_runtimeNodes s) \<and>
     \<not> list_ex (\<lambda>x. foreign src (se_sessionId x) (ca_sessions c)) (as_sessions s) \<and>
     \<not> list_ex (\<lambda>i. foreign src (ir_interactionId i) (ca_interactions c)) (as_interactions s) \<and>
     \<not> list_ex (\<lambda>mo. foreign_operation src (mo_operationId mo) c) (as_metadataOperations s)"

definition canonical_node :: "string \<Rightarrow> control_node \<Rightarrow> control_node \<Rightarrow> control_node" where
  "canonical_node childId child n =
     (if cn_controlNodeId n \<noteq> childId then n
      else n\<lparr>cn_endpointId := (case cn_endpointId child of None \<Rightarrow> cn_endpointId n | Some ep \<Rightarrow> Some ep),
             cn_presence := cn_presence child, cn_connectedAt := cn_connectedAt child,
             cn_lastHeartbeatAt := cn_lastHeartbeatAt child\<rparr>)"

definition canonical_session :: "collation \<Rightarrow> catalog \<Rightarrow> session \<Rightarrow> core_error + session" where
  "canonical_session lc c s =
     (case metadataImportedFromChild lc (getSession (se_sessionId s) c) (se_metadata s) of
        Inl err \<Rightarrow> Inl err
      | Inr m \<Rightarrow>
          let r = s\<lparr>se_metadata := m, se_metadataAuthority := authority c\<rparr> in
          if sessionRecordSchema r then Inr r else Inl INVALID)"

definition operation_owner :: "string \<Rightarrow> string \<Rightarrow> catalog \<Rightarrow> string option" where
  "operation_owner src k c =
     (case getMetadataOperation k c of
        None \<Rightarrow> Some src
      | Some cur \<Rightarrow> if mo_status cur \<noteq> MQueued then None else operation_source k c)"

definition canonical_operation ::
  "collation \<Rightarrow> string \<Rightarrow> catalog \<Rightarrow> metadata_operation \<Rightarrow> core_error + metadata_operation \<times> string option" where
  "canonical_operation lc src c mo =
     (case mergeMetadataOperationImportedFromChild lc src mo c of
        Inl err \<Rightarrow> Inl err | Inr r \<Rightarrow> Inr (r, operation_owner src (mo_operationId mo) c))"

definition previous_interactions :: "string \<Rightarrow> catalog \<Rightarrow> interaction_record list" where
  "previous_interactions src c = records (filter (\<lambda>kv. fst (snd kv) = Some src) (ca_interactions c))"

definition canonical_interaction ::
  "collation \<Rightarrow> interaction_record list \<Rightarrow> interaction_record \<Rightarrow> core_error + interaction_record" where
  "canonical_interaction lc previous i =
     (case filter (\<lambda>p. ir_interactionId p = ir_interactionId i) previous of
        [] \<Rightarrow> Inr i | p # _ \<Rightarrow> mergeInteractionRecord lc p i)"

definition retained_interactions :: "interaction_record list \<Rightarrow> access_snapshot \<Rightarrow> interaction_record list" where
  "retained_interactions previous s =
     filter (\<lambda>p. ir_state p \<noteq> IPending \<and> ir_sessionId p \<in> set (map se_sessionId (as_sessions s)) \<and>
                 ir_interactionId p \<notin> set (map ir_interactionId (as_interactions s))) previous"

definition clear_projection :: "string \<Rightarrow> catalog \<Rightarrow> catalog" where
  "clear_projection src c =
     c\<lparr>ca_interactions := filter (\<lambda>kv. fst (snd kv) \<noteq> Some src) (ca_interactions c),
       ca_metadataOps := filter (\<lambda>kv. fst (snd kv) \<noteq> Some src) (ca_metadataOps c),
       ca_sessions := filter (\<lambda>kv. \<not> (fst (snd kv) = Some src \<and> se_catalogState (snd (snd kv)) = Open)) (ca_sessions c),
       ca_runtimeNodes := filter (\<lambda>kv. fst (snd kv) \<noteq> Some src) (ca_runtimeNodes c),
       ca_controlNodes := filter (\<lambda>kv. fst (snd kv) \<noteq> Some src) (ca_controlNodes c)\<rparr>"

definition replace_body ::
  "env \<Rightarrow> string \<Rightarrow> string \<Rightarrow> access_snapshot \<Rightarrow> control_node list \<Rightarrow> session list \<Rightarrow> interaction_record list \<Rightarrow>
   (metadata_operation \<times> string option) list \<Rightarrow> catalog \<Rightarrow> core_error + catalog" where
  "replace_body e src attachmentId s nodes sessions interactions ops c =
     andThen (fold_err (\<lambda>n c. if cn_controlNodeId n \<notin> set (sm_covered (as_manifest s)) then Inl CONFLICT
                              else putControlNode n (Some src) c) nodes (clear_projection src c)) (\<lambda>c.
     andThen (Inr (fold (\<lambda>r. putRuntimeNode r (Some src)) (as_runtimeNodes s) c)) (\<lambda>c.
     andThen (fold_err (\<lambda>x. putSession x (Some src)) sessions c) (\<lambda>c.
     andThen (Inr (fold (\<lambda>i. putInteraction i (Some src)) interactions c)) (\<lambda>c.
     andThen (fold_err (\<lambda>(mo, owner). putMetadataOperation mo owner) ops c) (\<lambda>c.
     andThen (Inr (c\<lparr>ca_checkpoints := put src \<lparr>cp_attachmentId = attachmentId, cp_feedId = sm_feedId (as_manifest s),
                     cp_cursor = sm_controlCursor (as_manifest s)\<rparr> (ca_checkpoints c)\<rparr>)) (\<lambda>c.
     andThen (fold_err (\<lambda>n. appendControl e (NodeUpsert n) (cn_controlNodeId n) None) nodes c) (\<lambda>c.
     andThen (fold_err (\<lambda>r. appendControl e (RuntimeUpsert r) (rn_owner r) None) (as_runtimeNodes s) c) (\<lambda>c.
     andThen (fold_err (\<lambda>x. appendControl e (SessionUpsert x) (au_controlNodeId (se_metadataAuthority x)) None) sessions c) (\<lambda>c.
       fold_err (\<lambda>i. appendControl e (InteractionChanged i) src None) interactions c)))))))))"

definition replaceChildSnapshot ::
  "env \<Rightarrow> string \<Rightarrow> string \<Rightarrow> access_snapshot \<Rightarrow> catalog \<Rightarrow> core_error + catalog" where
  "replaceChildSnapshot e src attachmentId s c =
     (if (case getAttachment src c of None \<Rightarrow> True | Some a \<Rightarrow> at_attachmentId a \<noteq> attachmentId) then Inl FENCED
      else if \<not> accessSnapshotSchema s then Inl INVALID
      else case getControlNode src c of
        None \<Rightarrow> Inl FENCED
      | Some child \<Rightarrow>
          if sm_sourceControlNodeId (as_manifest s) \<noteq> src \<or> sm_projectionRoot (as_manifest s) \<noteq> src \<or>
             sm_sourceBootId (as_manifest s) \<noteq> cn_bootId child \<or>
             \<not> sameAuthority (sm_authority (as_manifest s)) (authority c) then Inl FENCED
          else if \<not> assertSnapshotOwnership src s c then Inl CONFLICT
          else
            let nodes = map (canonical_node src child) (as_controlNodes s);
                previous = previous_interactions src c
            in
            if \<not> list_all controlNodeDescriptorSchema nodes then Inl INVALID
            else
              (case map_err (canonical_session (en_lc e) c) (as_sessions s) of
                 Inl err \<Rightarrow> Inl err
               | Inr sessions \<Rightarrow>
                   (case map_err (canonical_operation (en_lc e) src c) (as_metadataOperations s) of
                      Inl err \<Rightarrow> Inl err
                    | Inr ops \<Rightarrow>
                        (case map_err (canonical_interaction (en_lc e) previous) (as_interactions s) of
                           Inl err \<Rightarrow> Inl err
                         | Inr interactions \<Rightarrow>
                             mutate (replace_body e src attachmentId s nodes sessions
                               (interactions @ retained_interactions previous s) ops) c))))"

subsection \<open>Importing one event\<close>

definition owned :: "string \<Rightarrow> string \<Rightarrow> (string, string option \<times> 'r) table \<Rightarrow> bool" where
  "owned src k t \<longleftrightarrow> projection_source k t = Some src"

fun assertImportedChangeOwnership ::
  "collation \<Rightarrow> string \<Rightarrow> control_change \<Rightarrow> catalog \<Rightarrow> core_error option" where
  "assertImportedChangeOwnership lc src (NodeUpsert n) c =
     (if getControlNode (cn_controlNodeId n) c \<noteq> None \<and> \<not> owned src (cn_controlNodeId n) (ca_controlNodes c) then Some CONFLICT
      else if \<not> sameAuthority (role_authority (cn_dataRole n)) (authority c) then Some FENCED else None)"
| "assertImportedChangeOwnership lc src (NodePresence k p) c =
     (if owned src k (ca_controlNodes c) then None else Some FENCED)"
| "assertImportedChangeOwnership lc src (RuntimeUpsert r) c =
     (if getRuntimeNode (rn_runtimeNodeId r) c \<noteq> None \<and> \<not> owned src (rn_runtimeNodeId r) (ca_runtimeNodes c) then Some CONFLICT
      else if \<not> owned src (rn_owner r) (ca_controlNodes c) then Some FENCED else None)"
| "assertImportedChangeOwnership lc src (RuntimePresence k p) c =
     (if owned src k (ca_runtimeNodes c) then None else Some FENCED)"
| "assertImportedChangeOwnership lc src (SessionUpsert s) c =
     (if getSession (se_sessionId s) c \<noteq> None \<and> \<not> owned src (se_sessionId s) (ca_sessions c) then Some CONFLICT
      else if \<not> owned src (se_runtimeNodeId s) (ca_runtimeNodes c) then Some FENCED
      else if \<not> sameAuthority (se_metadataAuthority s) (authority c) then Some FENCED else None)"
| "assertImportedChangeOwnership lc src (SessionUnavailable k) c =
     (if owned src k (ca_sessions c) then None else Some FENCED)"
| "assertImportedChangeOwnership lc src (MetadataChanged k m) c =
     (if owned src k (ca_sessions c) then None else Some FENCED)"
| "assertImportedChangeOwnership lc src (MetadataOperation mo) c =
     (if \<not> owned src (mo_sessionId mo) (ca_sessions c) then Some FENCED
      else if \<not> sameAuthority (mo_authority mo) (authority c) then Some FENCED else None)"
| "assertImportedChangeOwnership lc src (InteractionChanged i) c =
     (if owned src (ir_sessionId i) (ca_sessions c) then None else Some FENCED)"
| "assertImportedChangeOwnership lc src (LaunchChanged l) c =
     (if getLaunch (lq_launchId l) c \<noteq> None \<and> \<not> owned src (lq_launchId l) (ca_launches c) then Some CONFLICT
      else if \<not> owned src (lq_runtimeNodeId l) (ca_runtimeNodes c) then Some FENCED else None)"
| "assertImportedChangeOwnership lc src (ArchiveChanged a) c =
     (if getArchive (aq_archiveOperationId a) c \<noteq> None \<and> \<not> owned src (aq_archiveOperationId a) (ca_archives c) then Some CONFLICT
      else if \<not> owned src (aq_runtimeNodeId a) (ca_runtimeNodes c) then Some FENCED else None)"
| "assertImportedChangeOwnership lc src (CommandChanged r) c =
     (if (case getCommand (cr_commandId r) c of None \<Rightarrow> False | Some cur \<Rightarrow> \<not> sameCommandRequest lc cur r) then Some PAYLOAD_MISMATCH
      else if (case cr_sessionId r of None \<Rightarrow> False
               | Some k \<Rightarrow> k \<noteq> [] \<and> getSession k c \<noteq> None \<and> \<not> owned src k (ca_sessions c)) then Some FENCED
      else if \<not> owned src (cr_runtimeNodeId r) (ca_runtimeNodes c) then Some FENCED else None)"
| "assertImportedChangeOwnership lc src (InventoryCompleted k g) c =
     (if owned src k (ca_runtimeNodes c) then None else Some FENCED)"
| "assertImportedChangeOwnership lc src (NodeAttached a) c = None"
| "assertImportedChangeOwnership lc src (NodeDetached r) c = None"
| "assertImportedChangeOwnership lc src (AuthorityPromoted r) c = None"

definition import_session :: "collation \<Rightarrow> string \<Rightarrow> session \<Rightarrow> catalog \<Rightarrow> core_error + control_change \<times> catalog" where
  "import_session lc src s c =
     (let current = getSession (se_sessionId s) c in
      if (case current of None \<Rightarrow> False
          | Some cur \<Rightarrow> (se_catalogState cur = Archived \<and> se_catalogState s \<noteq> Archived) \<or>
                         se_catalogRevision s < se_catalogRevision cur)
      then Inr (SessionUpsert (the current), c)
      else case canonical_session lc c s of
        Inl err \<Rightarrow> Inl err
      | Inr r \<Rightarrow> (case putSession r (Some src) c of Inl err \<Rightarrow> Inl err | Inr c' \<Rightarrow> Inr (SessionUpsert r, c')))"

definition import_archive ::
  "collation \<Rightarrow> string \<Rightarrow> archive_record \<Rightarrow> catalog \<Rightarrow> core_error + control_change \<times> catalog" where
  "import_archive lc src a c =
     (case (case getArchive (aq_archiveOperationId a) c of None \<Rightarrow> Inr a | Some cur \<Rightarrow> mergeArchiveRecord lc cur a) of
        Inl err \<Rightarrow> Inl err
      | Inr r \<Rightarrow>
          (case putArchive r (Some src) c of
             Inl err \<Rightarrow> Inl err
           | Inr c1 \<Rightarrow>
               (case getSession (aq_sessionId r) c1 of
                  Some s \<Rightarrow>
                    if ar_state r = ASucceeded \<and> se_catalogState s = Open then
                      (case putSession (archived_session s (ar_catalogRevision r) (case ar_releasedAt r of None \<Rightarrow> [] | Some t \<Rightarrow> t))
                              (Some src) (deleteMetadataDeliveryIntentsForSession (se_sessionId s) c1) of
                         Inl err \<Rightarrow> Inl err | Inr c2 \<Rightarrow> Inr (ArchiveChanged r, c2))
                    else Inr (ArchiveChanged r, c1)
                | None \<Rightarrow> Inr (ArchiveChanged r, c1))))"

definition import_metadata ::
  "collation \<Rightarrow> string \<Rightarrow> string \<Rightarrow> metadata_snapshot \<Rightarrow> string \<Rightarrow> catalog \<Rightarrow> core_error + control_change \<times> catalog" where
  "import_metadata lc src sid m t c =
     (case getSession sid c of
        None \<Rightarrow> Inl NOT_FOUND
      | Some cur \<Rightarrow>
          (case metadataImportedFromChild lc (Some cur) m of
             Inl err \<Rightarrow> Inl err
           | Inr m' \<Rightarrow>
               (case putSession (cur\<lparr>se_metadata := m', se_updatedAt := t\<rparr>) (Some src) c of
                  Inl err \<Rightarrow> Inl err | Inr c' \<Rightarrow> Inr (MetadataChanged sid m', c'))))"

definition import_operation ::
  "collation \<Rightarrow> string \<Rightarrow> metadata_operation \<Rightarrow> catalog \<Rightarrow> core_error + control_change \<times> catalog" where
  "import_operation lc src mo c =
     (case canonical_operation lc src c mo of
        Inl err \<Rightarrow> Inl err
      | Inr (r, owner) \<Rightarrow>
          (case putMetadataOperation r owner c of Inl err \<Rightarrow> Inl err | Inr c' \<Rightarrow> Inr (MetadataOperation r, c')))"

definition keep_change :: "control_change \<Rightarrow> core_error + catalog \<Rightarrow> core_error + control_change \<times> catalog" where
  "keep_change ch r = (case r of Inl err \<Rightarrow> Inl err | Inr c \<Rightarrow> Inr (ch, c))"

fun applyImportedChange ::
  "collation \<Rightarrow> string \<Rightarrow> string \<Rightarrow> control_change \<Rightarrow> catalog \<Rightarrow> core_error + control_change \<times> catalog" where
  "applyImportedChange lc src t (NodeUpsert n) c = keep_change (NodeUpsert n) (putControlNode n (Some src) c)"
| "applyImportedChange lc src t (NodePresence k p) c =
     keep_change (NodePresence k p) (case getControlNode k c of None \<Rightarrow> Inr c
       | Some n \<Rightarrow> putControlNode (n\<lparr>cn_presence := p\<rparr>) (Some src) c)"
| "applyImportedChange lc src t (RuntimeUpsert r) c = Inr (RuntimeUpsert r, putRuntimeNode r (Some src) c)"
| "applyImportedChange lc src t (RuntimePresence k p) c =
     Inr (RuntimePresence k p, case getRuntimeNode k c of None \<Rightarrow> c
       | Some r \<Rightarrow> putRuntimeNode (r\<lparr>rn_presence := p\<rparr>) (Some src) c)"
| "applyImportedChange lc src t (SessionUpsert s) c = import_session lc src s c"
| "applyImportedChange lc src t (LaunchChanged l) c =
     (case (case getLaunch (lq_launchId l) c of None \<Rightarrow> Inr l | Some cur \<Rightarrow> mergeLaunchRecord lc cur l) of
        Inl err \<Rightarrow> Inl err | Inr r \<Rightarrow> keep_change (LaunchChanged r) (putLaunch r (Some src) c))"
| "applyImportedChange lc src t (ArchiveChanged a) c = import_archive lc src a c"
| "applyImportedChange lc src t (SessionUnavailable k) c =
     keep_change (SessionUnavailable k) (case getSession k c of None \<Rightarrow> Inr c
       | Some s \<Rightarrow> putSession (s\<lparr>se_availability := Unavailable, se_updatedAt := t\<rparr>) (Some src) c)"
| "applyImportedChange lc src t (MetadataChanged k m) c = import_metadata lc src k m t c"
| "applyImportedChange lc src t (MetadataOperation mo) c = import_operation lc src mo c"
| "applyImportedChange lc src t (CommandChanged r) c =
     (case (case getCommand (cr_commandId r) c of None \<Rightarrow> Inr r | Some cur \<Rightarrow> mergeCommandRecord lc True cur r) of
        Inl err \<Rightarrow> Inl err | Inr r' \<Rightarrow> Inr (CommandChanged r', putCommand r' c))"
| "applyImportedChange lc src t (InteractionChanged i) c =
     (case (case getInteraction (ir_interactionId i) c of None \<Rightarrow> Inr i | Some cur \<Rightarrow> mergeInteractionRecord lc cur i) of
        Inl err \<Rightarrow> Inl err | Inr r \<Rightarrow> Inr (InteractionChanged r, putInteraction r (Some src) c))"
| "applyImportedChange lc src t ch c = Inr (ch, c)"

definition import_body ::
  "env \<Rightarrow> string \<Rightarrow> feed_item \<Rightarrow> string \<Rightarrow> string \<Rightarrow> catalog \<Rightarrow> core_error + catalog" where
  "import_body e src item hash t c =
     (case assertImportedChangeOwnership (en_lc e) src (fi_change item) c of
        Some err \<Rightarrow> Inl err
      | None \<Rightarrow>
          (case applyImportedChange (en_lc e) src t (fi_change item) c of
             Inl err \<Rightarrow> Inl err
           | Inr (ch, c1) \<Rightarrow>
               andThen (appendControl e ch (fi_origin item) (Some (fi_eventId item)) c1) (\<lambda>c2.
                 Inr (c2\<lparr>ca_imported := put (fi_eventId item) (hash, ca_lastCursor c2) (ca_imported c2),
                   ca_checkpoints := (case map_of (ca_checkpoints c2) src of None \<Rightarrow> ca_checkpoints c2
                     | Some cp \<Rightarrow> put src (cp\<lparr>cp_cursor := fi_cursor item\<rparr>) (ca_checkpoints c2))\<rparr>))))"

text \<open>
  The result is \<open>deduplicated\<close> and \<open>localCursor\<close>.
\<close>

definition importChildControl ::
  "env \<Rightarrow> string \<Rightarrow> string \<Rightarrow> feed_item \<Rightarrow> string \<Rightarrow> catalog \<Rightarrow>
   core_error + (bool \<times> nat) \<times> catalog" where
  "importChildControl e src attachmentId item t c =
     (if \<not> controlChangeSchema (fi_change item) then Inl INVALID
      else if (case getAttachment src c of None \<Rightarrow> True | Some a \<Rightarrow> at_attachmentId a \<noteq> attachmentId) then Inl FENCED
      else if \<not> sameAuthority (fi_authority item) (authority c) then Inl FENCED
      else case map_of (ca_imported c) (fi_eventId item) of
        Some (stored, cursor) \<Rightarrow> if stored \<noteq> item_hash (en_lc e) item then Inl PAYLOAD_MISMATCH else Inr ((True, cursor), c)
      | None \<Rightarrow>
          (case map_of (ca_checkpoints c) src of
             None \<Rightarrow> Inl CURSOR_EXPIRED
           | Some cp \<Rightarrow>
               if cp_feedId cp \<noteq> fi_feedId item \<or> fi_cursor item \<noteq> cp_cursor cp + 1 then Inl CURSOR_EXPIRED
               else (case mutate (import_body e src item (item_hash (en_lc e) item) t) c of
                       Inl err \<Rightarrow> Inl err | Inr c' \<Rightarrow> Inr ((False, ca_lastCursor c'), c'))))"

end
