(* ===== verification/Control_Inventory.thy ===== *)
theory Control_Inventory
  imports Control_Operations Control_Json
begin

text \<open>
  How a control node binds the native sessions of its own runtime nodes
  (\<open>reconcileInventory\<close>, \<open>mergeRuntimeSession\<close> and their queries in
  \<^verbatim>\<open>packages/control-node-core/src/catalog.ts\<close>): a complete or partial inventory is matched with the
  sessions on record, with launch reservations and with the binding intents of older lifecycle
  commands. \<open>t\<close> is the clock reading of the transaction, \<open>fresh n\<close> the session ID drawn for item
  \<open>n\<close>, \<open>ts\<close> the readings of the metadata submissions that follow.
\<close>

subsection \<open>Queries\<close>

definition native_text :: "string \<Rightarrow> string \<Rightarrow> string \<Rightarrow> string" where
  "native_text harness scope vendor = harness @ [CHR 0x00] @ scope @ [CHR 0x00] @ vendor"

definition nativeKey :: "native_item \<Rightarrow> string" where
  "nativeKey i = native_text (ni_harness i) (ni_adapterScopeId i) (ni_vendorSessionId i)"

definition session_nativeKey :: "session \<Rightarrow> string" where
  "session_nativeKey s = native_text (se_harness s) (se_adapterScopeId s) (se_vendorSessionId s)"

definition vendor_key :: "string \<Rightarrow> string \<Rightarrow> string" where
  "vendor_key harness vendor = harness @ [CHR 0x00] @ vendor"

text \<open>The row under \<open>UNIQUE(runtime_node_id, harness, adapter_scope_id, vendor_session_id)\<close>.\<close>

definition session_bound_to :: "string \<Rightarrow> string \<Rightarrow> string \<Rightarrow> string \<Rightarrow> catalog \<Rightarrow> session option" where
  "session_bound_to rid harness scope vendor c =
     (case filter (\<lambda>s. native_key s = (rid, harness, scope, vendor)) (records (ca_sessions c)) of
        [] \<Rightarrow> None | s # _ \<Rightarrow> Some s)"

definition item_session :: "string \<Rightarrow> native_item \<Rightarrow> catalog \<Rightarrow> session option" where
  "item_session rid i c = session_bound_to rid (ni_harness i) (ni_adapterScopeId i) (ni_vendorSessionId i) c"

definition sessionsForInventory :: "inventory_snapshot \<Rightarrow> catalog \<Rightarrow> session list" where
  "sessionsForInventory v c = List.map_filter (\<lambda>i. item_session (iv_runtimeNodeId v) i c) (iv_sessions v)"

definition pendingLifecycleIntents :: "string \<Rightarrow> catalog \<Rightarrow> (string \<times> lifecycle_intent) list" where
  "pendingLifecycleIntents rid c =
     intents_where (\<lambda>li. li_runtimeNodeId li = rid \<and> li_ready li \<and> li_binding li = BindPending \<and>
       li_vendorSessionId li \<noteq> None) c"

definition unresolved_command :: "string \<Rightarrow> catalog \<Rightarrow> bool" where
  "unresolved_command k c \<longleftrightarrow>
     (case getCommand k c of None \<Rightarrow> False
      | Some r \<Rightarrow> cr_state r = CReceived \<or> cr_state r = CStarted \<or> cr_state r = COutcomeUnknown)"

definition unresolved_intents :: "string \<Rightarrow> (string option \<Rightarrow> bool) \<Rightarrow> catalog \<Rightarrow> lifecycle_intent list" where
  "unresolved_intents rid vendor c =
     map snd (filter (\<lambda>(k, li). li_runtimeNodeId li = rid \<and> \<not> li_ready li \<and> li_binding li = BindPending \<and>
       vendor (li_vendorSessionId li) \<and> unresolved_command k c) (ca_intents c))"

definition unresolvedSpawnHarnesses :: "string \<Rightarrow> catalog \<Rightarrow> string list" where
  "unresolvedSpawnHarnesses rid c = map li_harness (unresolved_intents rid (\<lambda>v. v = None) c)"

definition unresolvedLifecycleNativeKeys :: "string \<Rightarrow> catalog \<Rightarrow> string list" where
  "unresolvedLifecycleNativeKeys rid c =
     map (\<lambda>li. vendor_key (li_harness li) (the (li_vendorSessionId li))) (unresolved_intents rid (\<lambda>v. v \<noteq> None) c)"

text \<open>Launch reservations: unresolved harnesses, and the bindings of succeeded launches without a session.\<close>

type_synonym launch_bindings = "(string, launch_record \<times> launch_result) table"

definition launch_unresolved :: "launch_state \<Rightarrow> bool" where
  "launch_unresolved s \<longleftrightarrow>
     s = LAccepted \<or> s = LPreparing \<or> s = LNativeStarting \<or> s = LCleanupPending \<or> s = LOutcomeUnknown"

definition launch_rows :: "string \<Rightarrow> catalog \<Rightarrow> launch_record list" where
  "launch_rows rid c =
     sort_le (\<lambda>a b. lr_updatedAt a < lr_updatedAt b \<or> (lr_updatedAt a = lr_updatedAt b \<and> lq_launchId a \<le> lq_launchId b))
       (filter (\<lambda>l. lq_runtimeNodeId l = rid \<and>
            (launch_unresolved (lr_state l) \<or> (lr_state l = LSucceeded \<and> getSession (lq_sessionId l) c = None)))
         (records (filter (\<lambda>kv. fst (snd kv) = None) (ca_launches c))))"

fun collect_launches :: "launch_record list \<Rightarrow> string list \<Rightarrow> launch_bindings \<Rightarrow> core_error + string list \<times> launch_bindings" where
  "collect_launches [] hs bs = Inr (hs, bs)"
| "collect_launches (l # ls) hs bs =
     (if launch_unresolved (lr_state l) then collect_launches ls (lq_harness l # hs) bs
      else if lr_state l \<noteq> LSucceeded then collect_launches ls hs bs
      else case lr_result l of
        None \<Rightarrow> Inl CONFLICT
      | Some r \<Rightarrow>
          let key = native_text (lq_harness l) (ls_adapterScopeId r) (ls_vendorSessionId r) in
          if has key bs then Inl CONFLICT
          else collect_launches ls hs (put key (l, r) bs))"

definition launchInventoryState :: "string \<Rightarrow> catalog \<Rightarrow> core_error + string list \<times> launch_bindings" where
  "launchInventoryState rid c = collect_launches (launch_rows rid c) [] []"

subsection \<open>One inventory item\<close>

record inventory_context =
  ix_runtimeNodeId :: string
  ix_capturedAt :: string
  ix_intents :: "(string \<times> lifecycle_intent) list"
  ix_spawn :: "string list"
  ix_keys :: "string list"
  ix_harnesses :: "string list"
  ix_bindings :: launch_bindings

record reconcile_state =
  rc_seen :: "string list"
  rc_settled :: "string list"
  rc_deferred :: bool
  rc_catalog :: catalog

definition candidates :: "inventory_context \<Rightarrow> native_item \<Rightarrow> string list \<Rightarrow> (string \<times> lifecycle_intent) list" where
  "candidates x i settled =
     filter (\<lambda>(k, li). vendor_key (li_harness li) (the (li_vendorSessionId li)) =
         vendor_key (ni_harness i) (ni_vendorSessionId i) \<and> k \<notin> set settled) (ix_intents x)"

text \<open>\<open>lost\<close>: the native session was bound before, so every intent that wants it is conflicted.\<close>

definition settle_candidates :: "bool \<Rightarrow> string \<Rightarrow> (string \<times> lifecycle_intent) list \<Rightarrow> catalog \<Rightarrow> catalog" where
  "settle_candidates lost sid cands c =
     fold (\<lambda>(k, li). settleLifecycleIntent k (if li_sessionId li = sid \<and> \<not> lost then BindBound else BindConflicted sid)) cands c"

definition launch_origin :: "(launch_record \<times> launch_result) \<Rightarrow> launch_provenance" where
  "launch_origin b = (case b of (l, r) \<Rightarrow>
     \<lparr>pv_launchId = lq_launchId l, pv_profileId = lp_profileId (lq_profile l), pv_providerId = lp_providerId (lq_profile l),
      pv_backendId = ls_backendId r, pv_contractVersion = lp_contractVersion (lq_profile l),
      pv_requestSchemaHash = lp_requestSchemaHash (lq_profile l), pv_implementationVersion = lr_implementationVersion l\<rparr>)"

definition inventory_record ::
  "inventory_context \<Rightarrow> native_item \<Rightarrow> session option \<Rightarrow> (launch_record \<times> launch_result) option \<Rightarrow> string \<Rightarrow>
   authority_ref \<Rightarrow> string \<Rightarrow> session" where
  "inventory_record x i base launch sid auth t =
     \<lparr>se_sessionId = sid, se_runtimeNodeId = ix_runtimeNodeId x, se_harness = ni_harness i,
      se_adapterScopeId = ni_adapterScopeId i, se_vendorSessionId = ni_vendorSessionId i,
      se_bindingRevision = (case base of Some b \<Rightarrow> se_bindingRevision b
        | None \<Rightarrow> (case launch of Some (l, r) \<Rightarrow> ls_bindingRevision r | None \<Rightarrow> 1)),
      se_runtimeEpoch = ni_runtimeEpoch i, se_cwd = ni_cwd i, se_availability = ni_availability i,
      se_runtimeStatus = ni_runtimeStatus i,
      se_harnessSettings = (if ni_harnessSettings i \<noteq> None then ni_harnessSettings i
        else Option.bind base se_harnessSettings),
      se_nativeSummary = ni_nativeSummary i,
      se_launchProvenance = (case Option.bind base se_launchProvenance of Some p \<Rightarrow> Some p
        | None \<Rightarrow> map_option launch_origin launch),
      se_metadata = (case base of Some b \<Rightarrow> se_metadata b | None \<Rightarrow> emptyMetadataSnapshot),
      se_createdAt = (case base of Some b \<Rightarrow> se_createdAt b
        | None \<Rightarrow> (case launch of Some (l, r) \<Rightarrow> lr_createdAt l | None \<Rightarrow> t)),
      se_updatedAt = t, se_lastSeenAt = Some (ix_capturedAt x),
      se_lastActivityAt = (if ni_lastActivityAt i \<noteq> None then ni_lastActivityAt i
        else case Option.bind base se_lastActivityAt of Some a \<Rightarrow> Some a | None \<Rightarrow> Some (ix_capturedAt x)),
      se_metadataAuthority = auth, se_catalogState = Open,
      se_catalogRevision = (case base of Some b \<Rightarrow> se_catalogRevision b | None \<Rightarrow> 1), se_archivedAt = None\<rparr>"

definition bind_item ::
  "env \<Rightarrow> inventory_context \<Rightarrow> native_item \<Rightarrow> session option \<Rightarrow> (launch_record \<times> launch_result) option \<Rightarrow> string \<Rightarrow>
   string \<Rightarrow> bool \<Rightarrow> (string \<times> lifecycle_intent) list \<Rightarrow> catalog \<Rightarrow> core_error + catalog" where
  "bind_item e x i base launch sid t lost cands c =
     andThen (case base of
         Some b \<Rightarrow> if se_runtimeEpoch b \<noteq> ni_runtimeEpoch i then stalePendingInteractionsForSession e (se_sessionId b) t c else Inr c
       | None \<Rightarrow> Inr c) (\<lambda>c.
       let r = inventory_record x i base launch sid (authority c) t in
       andThen (putSession r None c) (\<lambda>c.
       andThen (append_local e (SessionUpsert r) c) (\<lambda>c. Inr (settle_candidates lost sid cands c))))"

definition misbound :: "inventory_context \<Rightarrow> native_item \<Rightarrow> session \<Rightarrow> bool" where
  "misbound x i s \<longleftrightarrow> native_key s \<noteq> (ix_runtimeNodeId x, ni_harness i, ni_adapterScopeId i, ni_vendorSessionId i)"

definition reconcile_item ::
  "env \<Rightarrow> inventory_context \<Rightarrow> string \<Rightarrow> string \<Rightarrow> native_item \<Rightarrow> reconcile_state \<Rightarrow> core_error + reconcile_state" where
  "reconcile_item e x t newId i st =
     (let c = rc_catalog st;
          seen = st\<lparr>rc_seen := nativeKey i # rc_seen st\<rparr>;
          existing = item_session (ix_runtimeNodeId x) i c;
          cands = candidates x i (rc_settled st);
          launch = map_of (ix_bindings x) (nativeKey i);
          launchId = map_option (\<lambda>b. lq_sessionId (fst b)) launch;
          firstId = (case cands of [] \<Rightarrow> None | (k, li) # _ \<Rightarrow> Some (li_sessionId li));
          lost = (case (existing, firstId) of (Some s, Some k) \<Rightarrow> se_sessionId s \<noteq> k | _ \<Rightarrow> False);
          preferred = (if launchId \<noteq> None then launchId else if lost then None else firstId);
          preferredRecord = Option.bind preferred (\<lambda>k. getSession k c);
          settled = map fst cands @ rc_settled st
      in
      if nativeKey i \<in> set (rc_seen st) then Inl CONFLICT
      else if (case existing of None \<Rightarrow> False | Some s \<Rightarrow> se_catalogState s = Archived) then Inr seen
      else if launchId \<noteq> None \<and> firstId \<noteq> None \<and> launchId \<noteq> firstId then Inl CONFLICT
      else if existing \<noteq> None \<and> launchId \<noteq> None \<and> map_option se_sessionId existing \<noteq> launchId then Inl FENCED
      else if existing = None \<and> preferred = None \<and>
        (ni_harness i \<in> set (ix_spawn x) \<or> ni_harness i \<in> set (ix_harnesses x) \<or>
         vendor_key (ni_harness i) (ni_vendorSessionId i) \<in> set (ix_keys x))
      then Inr (seen\<lparr>rc_deferred := True\<rparr>)
      else if existing \<noteq> None \<and> preferred \<noteq> None \<and> map_option se_sessionId existing \<noteq> preferred then Inl CONFLICT
      else if existing = None \<and> (case preferredRecord of None \<Rightarrow> False | Some s \<Rightarrow> misbound x i s) then Inl FENCED
      else
        let base = (if existing \<noteq> None then existing else preferredRecord);
            sid = (case base of Some b \<Rightarrow> se_sessionId b
              | None \<Rightarrow> (case preferred of Some k \<Rightarrow> k | None \<Rightarrow> newId))
        in case bind_item e x i base launch sid t lost cands c of
             Inl err \<Rightarrow> Inl err
           | Inr c' \<Rightarrow> Inr (seen\<lparr>rc_settled := settled, rc_catalog := c'\<rparr>))"

subsection \<open>A whole inventory\<close>

definition native_item_json :: "native_item \<Rightarrow> json" where
  "native_item_json i = JObj ([(''harness'', JStr (ni_harness i)), (''adapterScopeId'', JStr (ni_adapterScopeId i)),
     (''vendorSessionId'', JStr (ni_vendorSessionId i)), (''cwd'', JNullable JStr (ni_cwd i)),
     (''availability'', JStr (availability_text (ni_availability i))),
     (''runtimeStatus'', JStr (runtime_status_text (ni_runtimeStatus i))),
     (''runtimeEpoch'', JNullable JStr (ni_runtimeEpoch i))] @
     optional ''harnessSettings'' id (ni_harnessSettings i) @ optional ''nativeSummary'' id (ni_nativeSummary i) @
     [(''lastActivityAt'', JNullable JStr (ni_lastActivityAt i))])"

definition inventory_json :: "inventory_snapshot \<Rightarrow> json" where
  "inventory_json v = JObj [(''runtimeNodeId'', JStr (iv_runtimeNodeId v)), (''generation'', JStr (iv_generation v)),
     (''complete'', JBool (iv_complete v)), (''capturedAt'', JStr (iv_capturedAt v)),
     (''sessions'', JArr (map native_item_json (iv_sessions v)))]"

fun reconcile_items ::
  "env \<Rightarrow> inventory_context \<Rightarrow> string \<Rightarrow> (nat \<Rightarrow> string) \<Rightarrow> nat \<Rightarrow> native_item list \<Rightarrow> reconcile_state \<Rightarrow>
   core_error + reconcile_state" where
  "reconcile_items e x t fresh n [] st = Inr st"
| "reconcile_items e x t fresh n (i # is) st =
     (case reconcile_item e x t (fresh n) i st of
        Inl err \<Rightarrow> Inl err | Inr st' \<Rightarrow> reconcile_items e x t fresh (Suc n) is st')"

definition retire_missing :: "env \<Rightarrow> string \<Rightarrow> string list \<Rightarrow> session \<Rightarrow> catalog \<Rightarrow> core_error + catalog" where
  "retire_missing e t seen s c =
     (if session_nativeKey s \<in> set seen then Inr c
      else
        let gone = s\<lparr>se_availability := Unavailable, se_runtimeStatus := UnknownStatus, se_runtimeEpoch := None, se_updatedAt := t\<rparr> in
        andThen (stalePendingInteractionsForSession e (se_sessionId s) t c) (\<lambda>c.
        andThen (putSession gone None c) (append_local e (SessionUpsert gone))))"

definition reconcile_body ::
  "env \<Rightarrow> inventory_snapshot \<Rightarrow> inventory_context \<Rightarrow> string \<Rightarrow> (nat \<Rightarrow> string) \<Rightarrow> catalog \<Rightarrow> core_error + catalog" where
  "reconcile_body e v x t fresh c =
     (case reconcile_items e x t fresh 0 (iv_sessions v)
             \<lparr>rc_seen = [], rc_settled = [], rc_deferred = False, rc_catalog = c\<rparr> of
        Inl err \<Rightarrow> Inl err
      | Inr st \<Rightarrow>
          andThen (if iv_complete v
              then fold_err (retire_missing e t (rc_seen st))
                (listSessions (\<lambda>s. se_runtimeNodeId s = iv_runtimeNodeId v \<and> se_catalogState s = Open) (rc_catalog st)) (rc_catalog st)
              else Inr (rc_catalog st)) (\<lambda>c.
            if rc_deferred st then Inr (c\<lparr>ca_inventories := del (iv_runtimeNodeId v) (ca_inventories c)\<rparr>)
            else append_local e (InventoryCompleted (iv_runtimeNodeId v) (iv_generation v))
                   (c\<lparr>ca_inventories := put (iv_runtimeNodeId v) v (ca_inventories c)\<rparr>)))"

text \<open>What the sessions look like once the pending spawn metadata has been submitted, or why that failed.\<close>

definition after_metadata ::
  "env \<Rightarrow> (string \<Rightarrow> string \<times> string \<times> string) \<Rightarrow> string \<Rightarrow> (catalog \<Rightarrow> 'a) \<Rightarrow> catalog \<Rightarrow> catalog \<times> (core_error + 'a)" where
  "after_metadata e ts rid f c =
     (case applyPendingLifecycleMetadata e ts rid c of
        (c', Some err) \<Rightarrow> (c', Inl err) | (c', None) \<Rightarrow> (c', Inr (f c')))"

definition inventory_context_of :: "inventory_snapshot \<Rightarrow> string list \<times> launch_bindings \<Rightarrow> catalog \<Rightarrow> inventory_context" where
  "inventory_context_of v ls c =
     \<lparr>ix_runtimeNodeId = iv_runtimeNodeId v, ix_capturedAt = iv_capturedAt v,
      ix_intents = pendingLifecycleIntents (iv_runtimeNodeId v) c,
      ix_spawn = unresolvedSpawnHarnesses (iv_runtimeNodeId v) c,
      ix_keys = unresolvedLifecycleNativeKeys (iv_runtimeNodeId v) c,
      ix_harnesses = fst ls, ix_bindings = snd ls\<rparr>"

definition owned_runtime :: "string \<Rightarrow> catalog \<Rightarrow> bool" where
  "owned_runtime rid c \<longleftrightarrow> (case getRuntimeNode rid c of None \<Rightarrow> False | Some r \<Rightarrow> rn_owner r = ca_controlNodeId c)"

definition reconcileInventory ::
  "env \<Rightarrow> inventory_snapshot \<Rightarrow> string \<Rightarrow> (nat \<Rightarrow> string) \<Rightarrow> (string \<Rightarrow> string \<times> string \<times> string) \<Rightarrow> catalog \<Rightarrow>
   catalog \<times> (core_error + session list)" where
  "reconcileInventory e v t fresh ts c =
     (let rid = iv_runtimeNodeId v;
          previous = map_of (ca_inventories c) rid
      in
      if \<not> inventorySnapshotSchema v then (c, Inl INVALID)
      else if \<not> owned_runtime rid c then (c, Inl NOT_FOUND)
      else case launchInventoryState rid c of
        Inl err \<Rightarrow> (c, Inl err)
      | Inr ls \<Rightarrow>
          let x = inventory_context_of v ls c;
              again = (case previous of None \<Rightarrow> False | Some p \<Rightarrow> iv_generation p = iv_generation v);
              changed = (case previous of None \<Rightarrow> False
                | Some p \<Rightarrow> \<not> sameCanonicalJson (en_lc e) (inventory_json p) (inventory_json v));
              older = (case previous of None \<Rightarrow> False
                | Some p \<Rightarrow> neg_time (compareOperationTimestamp (iv_capturedAt v) (iv_capturedAt p)))
          in
          if again \<and> changed then (c, Inl PAYLOAD_MISMATCH)
          else if again \<and> ix_intents x = [] \<and> ix_spawn x = [] \<and> ix_keys x = []
          then after_metadata e ts rid (sessionsForInventory v) c
          else if older then (c, Inl FENCED)
          else (case mutate (reconcile_body e v x t fresh) c of
                  Inl err \<Rightarrow> (c, Inl err)
                | Inr c' \<Rightarrow> after_metadata e ts rid (sessionsForInventory v) c'))"

subsection \<open>A session reported by its runtime\<close>

text \<open>The runtime's record is a session record whose catalog members are not read.\<close>

definition merged_session :: "session \<Rightarrow> session option \<Rightarrow> authority_ref \<Rightarrow> session" where
  "merged_session incoming current auth = incoming\<lparr>
     se_metadata := (case current of Some s \<Rightarrow> se_metadata s | None \<Rightarrow> emptyMetadataSnapshot),
     se_metadataAuthority := auth,
     se_bindingRevision := (case current of Some s \<Rightarrow> se_bindingRevision s | None \<Rightarrow> se_bindingRevision incoming),
     se_catalogState := (case current of Some s \<Rightarrow> se_catalogState s | None \<Rightarrow> Open),
     se_catalogRevision := (case current of Some s \<Rightarrow> se_catalogRevision s | None \<Rightarrow> 1),
     se_archivedAt := (case current of Some s \<Rightarrow> se_archivedAt s | None \<Rightarrow> None),
     se_createdAt := (case current of Some s \<Rightarrow> se_createdAt s | None \<Rightarrow> se_createdAt incoming)\<rparr>"

definition merge_body :: "env \<Rightarrow> session option \<Rightarrow> session \<Rightarrow> string \<Rightarrow> catalog \<Rightarrow> core_error + catalog" where
  "merge_body e current r t c =
     andThen (case current of
         Some s \<Rightarrow> if se_runtimeEpoch s \<noteq> se_runtimeEpoch r then stalePendingInteractionsForSession e (se_sessionId s) t c else Inr c
       | None \<Rightarrow> Inr c) (\<lambda>c.
     andThen (putSession r None c) (\<lambda>c.
       append_local e (SessionUpsert r) (settleLifecycleForSession r c)))"

definition mergeRuntimeSession ::
  "env \<Rightarrow> session \<Rightarrow> string \<Rightarrow> (string \<Rightarrow> string \<times> string \<times> string) \<Rightarrow> catalog \<Rightarrow> catalog \<times> (core_error + session)" where
  "mergeRuntimeSession e incoming t ts c =
     (let current = getSession (se_sessionId incoming) c;
          owner = session_bound_to (se_runtimeNodeId incoming) (se_harness incoming) (se_adapterScopeId incoming)
            (se_vendorSessionId incoming) c;
          r = merged_session incoming current (authority c)
      in
      if \<not> (0 < se_bindingRevision incoming \<and> metadataSnapshotSchema (se_metadata incoming)) then (c, Inl INVALID)
      else if \<not> owned_runtime (se_runtimeNodeId incoming) c then (c, Inl FENCED)
      else if (case current of None \<Rightarrow> False | Some s \<Rightarrow> se_catalogState s = Archived) then (c, Inr (the current))
      else if (case owner of None \<Rightarrow> False | Some s \<Rightarrow> se_sessionId s \<noteq> se_sessionId incoming) then (c, Inl FENCED)
      else if (case current of None \<Rightarrow> False
               | Some s \<Rightarrow> native_key s \<noteq> native_key incoming \<or> se_bindingRevision s \<noteq> se_bindingRevision incoming)
      then (c, Inl FENCED)
      else if \<not> sessionRecordSchema r then (c, Inl INVALID)
      else (case mutate (merge_body e current r t) c of
              Inl err \<Rightarrow> (c, Inl err)
            | Inr c' \<Rightarrow> after_metadata e ts (se_runtimeNodeId r) (\<lambda>c. the (getSession (se_sessionId r) c)) c'))"

end
