(* ===== verification/Catalog_Laws.thy ===== *)
theory Catalog_Laws
  imports Control_Import Control_Inventory
begin

text \<open>
  One contract for everything the catalog writes. A relation \<open>Q\<close> that holds across each primitive
  write of a transaction (storing a row, appending an event, changing the role together with its
  log entry) holds across every transaction body of the catalog; a relation \<open>R\<close> that holds across
  the commit of such a body holds across every public operation. The interfaces are locales; the
  feed, the row invariants and the role log interpret them in the theories that follow.
\<close>

named_theorems write_rules \<open>how a relation passes through the catalog's writes\<close>

subsection \<open>Side tables\<close>

text \<open>Writes that touch neither records, feed nor role.\<close>

definition side_write :: "catalog \<Rightarrow> catalog \<Rightarrow> bool" where
  "side_write c d \<longleftrightarrow>
     d = c\<lparr>ca_desiredUpstream := ca_desiredUpstream d, ca_upstreamInitialized := ca_upstreamInitialized d,
       ca_outbox := ca_outbox d, ca_intents := ca_intents d, ca_inventories := ca_inventories d,
       ca_checkpoints := ca_checkpoints d, ca_imported := ca_imported d, ca_deliveries := ca_deliveries d,
       ca_nextDelivery := ca_nextDelivery d, ca_peers := ca_peers d\<rparr>"

lemma side_write_refl [simp]: "side_write c c"
  by (simp add: side_write_def)

lemma side_write_trans: "side_write b c \<Longrightarrow> side_write a b \<Longrightarrow> side_write a c"
  by (cases a; cases b; cases c) (simp add: side_write_def)

lemma side_write_update [simp]:
  "side_write a c \<Longrightarrow> side_write a (c\<lparr>ca_desiredUpstream := x1\<rparr>)"
  "side_write a c \<Longrightarrow> side_write a (c\<lparr>ca_upstreamInitialized := x2\<rparr>)"
  "side_write a c \<Longrightarrow> side_write a (c\<lparr>ca_outbox := x3\<rparr>)"
  "side_write a c \<Longrightarrow> side_write a (c\<lparr>ca_intents := x4\<rparr>)"
  "side_write a c \<Longrightarrow> side_write a (c\<lparr>ca_inventories := x5\<rparr>)"
  "side_write a c \<Longrightarrow> side_write a (c\<lparr>ca_checkpoints := x6\<rparr>)"
  "side_write a c \<Longrightarrow> side_write a (c\<lparr>ca_imported := x7\<rparr>)"
  "side_write a c \<Longrightarrow> side_write a (c\<lparr>ca_deliveries := x8\<rparr>)"
  "side_write a c \<Longrightarrow> side_write a (c\<lparr>ca_nextDelivery := x9\<rparr>)"
  "side_write a c \<Longrightarrow> side_write a (c\<lparr>ca_peers := x10\<rparr>)"
  by (cases a; cases c; simp add: side_write_def)+

lemma side_write_fields:
  assumes "side_write c d"
  shows "ca_role d = ca_role c" "ca_controlNodeId d = ca_controlNodeId c" "ca_sessions d = ca_sessions c"
    "ca_emitted d = ca_emitted c" "ca_events d = ca_events c" "ca_transitions d = ca_transitions c"
  using assms by (cases c; cases d; simp add: side_write_def)+

lemma settle_intent_side [simp]: "side_write a c \<Longrightarrow> side_write a (settleLifecycleIntent k b c)"
  by (simp add: settleLifecycleIntent_def split: option.split)

lemma side_fold: "(\<And>x c. side_write a c \<Longrightarrow> side_write a (f x c)) \<Longrightarrow> side_write a c \<Longrightarrow> side_write a (fold f xs c)"
  by (induction xs arbitrary: c) simp_all

lemma side_writes [simp]:
  "side_write c (settleLifecycleForSession s c)"
  "side_write c (settle_candidates lost sid cands c)"
  "side_write c (enqueueDeliveryIntent dest ident mo c)"
  "side_write c (deleteMetadataDeliveryIntentsForSession sid c)"
  "side_write c (retireArchivedMetadataDeliveryIntents c)"
  "side_write c (insert_outbox_or_ignore k c)"
  "side_write c (setDesiredUpstream l c)"
  by (auto simp: settleLifecycleForSession_def settle_candidates_def enqueueDeliveryIntent_def
      deleteMetadataDeliveryIntentsForSession_def retireArchivedMetadataDeliveryIntents_def
      insert_outbox_or_ignore_def setDesiredUpstream_def intro!: side_fold)

lemma side_results:
  "enrollPeer ep rl p sc c = Inr d \<Longrightarrow> side_write c d"
  "insert_outbox k c = Inr d \<Longrightarrow> side_write c d"
  "write_intent lc input vendor ready t c = Inr d \<Longrightarrow> side_write c d"
  "putLifecycleIntent lc r input t c = Inr d \<Longrightarrow> side_write c d"
  "syncLifecycleIntentForCommand r c = Inr d \<Longrightarrow> side_write c d"
proof -
  show "enrollPeer ep rl p sc c = Inr d \<Longrightarrow> side_write c d"
    by (auto simp: enrollPeer_def Let_def split: if_splits)
  show "insert_outbox k c = Inr d \<Longrightarrow> side_write c d"
    by (auto simp: insert_outbox_def split: if_splits)
  show w: "write_intent lc input vendor ready t c = Inr d \<Longrightarrow> side_write c d" for vendor ready
    by (auto simp: write_intent_def split: if_splits option.splits)
  show "putLifecycleIntent lc r input t c = Inr d \<Longrightarrow> side_write c d"
    by (auto simp: putLifecycleIntent_def w split: if_splits sum.splits)
  show "syncLifecycleIntentForCommand r c = Inr d \<Longrightarrow> side_write c d"
    by (auto simp: syncLifecycleIntentForCommand_def Let_def split: if_splits option.splits sum.splits)
qed

subsection \<open>Role transitions\<close>

definition legal_transition :: "string \<Rightarrow> transition_kind \<Rightarrow> data_role \<Rightarrow> data_role \<Rightarrow> bool" where
  "legal_transition self k prior after \<longleftrightarrow>
     (case k of
        KAttached \<Rightarrow> \<not> is_attached prior \<and>
          (case after of Branch a (Attached p i l s) \<Rightarrow> p \<noteq> self | _ \<Rightarrow> False)
      | KPromoted \<Rightarrow> (case (prior, after) of
          (Branch a (Detached p i l s d), Authority b) \<Rightarrow>
            au_controlNodeId b = self \<and> au_realmId b \<noteq> au_realmId a \<and> au_epochId b \<noteq> au_epochId a
        | _ \<Rightarrow> False)
      | _ \<Rightarrow> (case (prior, after) of
          (Branch a (Attached p i l s), Branch a' (Detached p' i' l' s' d)) \<Rightarrow>
            a' = a \<and> p' = p \<and> i' = i \<and> l' = l \<and> s' = s
        | _ \<Rightarrow> False))"

subsection \<open>The contract of a transaction\<close>

locale catalog_writes =
  fixes Q :: "catalog \<Rightarrow> catalog \<Rightarrow> bool"
  assumes Q_refl: "Q c c"
    and Q_trans: "Q a b \<Longrightarrow> Q b c \<Longrightarrow> Q a c"
    and Q_side: "side_write c d \<Longrightarrow> Q c d"
    and Q_node: "putControlNode n src c = Inr d \<Longrightarrow> Q c d"
    and Q_runtime: "Q c (putRuntimeNode r src c)"
    and Q_session: "putSession s src c = Inr d \<Longrightarrow> Q c d"
    and Q_launch: "putLaunch l src c = Inr d \<Longrightarrow> Q c d"
    and Q_archive: "putArchive av src c = Inr d \<Longrightarrow> Q c d"
    and Q_interaction: "Q c (putInteraction i src c)"
    and Q_operation: "putMetadataOperation mo src c = Inr d \<Longrightarrow> Q c d"
    and Q_command: "Q c (putCommand cr c)"
    and Q_append: "appendControl e ch og ev c = Inr d \<Longrightarrow> Q c d"
    and Q_role: "legal_transition (ca_controlNodeId c) kind (ca_role c) after \<Longrightarrow>
      appendRoleTransition kind (ca_role c) after receipt tid t (setRole after c) = Inr d \<Longrightarrow> Q c d"
    and Q_attach: "insertAttachment at c = Inr d \<Longrightarrow> Q c d"
    and Q_detach: "Q c (c\<lparr>ca_attachments := put (at_attachmentId at) (False, at) (ca_attachments c)\<rparr>)"
    and Q_drop: "Q c (dropProjection child c)"
    and Q_clear: "Q c (clear_projection child c)"
begin

definition ok :: "catalog \<Rightarrow> core_error + catalog \<Rightarrow> bool" where
  "ok c r \<longleftrightarrow> (\<forall>d. r = Inr d \<longrightarrow> Q c d)"

lemma okD: "ok c r \<Longrightarrow> r = Inr d \<Longrightarrow> Q c d"
  by (simp add: ok_def)

lemma ok_Inl [write_rules]: "ok c (Inl err)"
  by (simp add: ok_def)

lemma ok_Inr [write_rules]: "Q c d \<Longrightarrow> ok c (Inr d)"
  by (simp add: ok_def)

lemma ok_andThen_eq: "ok c r \<Longrightarrow> (\<And>d. r = Inr d \<Longrightarrow> Q c d \<Longrightarrow> ok c (f d)) \<Longrightarrow> ok c (andThen r f)"
  by (auto simp: ok_def)

lemma ok_andThen [write_rules]: "ok c r \<Longrightarrow> (\<And>d. Q c d \<Longrightarrow> ok c (f d)) \<Longrightarrow> ok c (andThen r f)"
  by (rule ok_andThen_eq)

lemma ok_fold_err [write_rules]:
  "Q c d \<Longrightarrow> (\<And>x d. Q c d \<Longrightarrow> ok c (f x d)) \<Longrightarrow> ok c (fold_err f xs d)"
proof (induction xs arbitrary: d)
  case Nil
  then show ?case by (simp add: ok_def)
next
  case (Cons x xs)
  show ?case
  proof (cases "f x d")
    case (Inr u)
    with Cons.prems have "Q c u" by (auto simp: ok_def)
    from Cons.IH [OF this Cons.prems(2)] Inr show ?thesis by simp
  qed (simp add: ok_def)
qed

lemma Q_step: "Q c d \<Longrightarrow> (\<And>d'. r = Inr d' \<Longrightarrow> Q d d') \<Longrightarrow> ok c r"
  using Q_trans by (auto simp: ok_def)

lemma Q_append_local: "append_local e ch c = Inr d \<Longrightarrow> Q c d"
  unfolding append_local_def by (rule Q_append)

lemma ok_puts [write_rules]:
  assumes "Q c d"
  shows "ok c (putControlNode n src d)" "ok c (putSession s src d)" "ok c (putLaunch l src d)"
    "ok c (putArchive av src d)" "ok c (putMetadataOperation mo src d)" "ok c (appendControl e ch og ev d)"
    "ok c (append_local e ch d)" "ok c (insertAttachment at d)"
  by (rule Q_step [OF assms], erule Q_node Q_session Q_launch Q_archive Q_operation Q_append
      Q_append_local Q_attach)+

lemmas Q_puts = ok_puts [THEN okD]

lemma ok_sides [write_rules]:
  assumes "Q c d"
  shows "ok c (enrollPeer ep rl p sc d)" "ok c (insert_outbox k d)"
    "ok c (putLifecycleIntent lc cr input t d)" "ok c (syncLifecycleIntentForCommand cr d)"
  by (rule Q_step [OF assms], rule Q_side, erule side_results)+

lemma Q_steps [write_rules]:
  "Q c d \<Longrightarrow> Q c (putRuntimeNode r src d)"
  "Q c d \<Longrightarrow> Q c (putInteraction i src d)"
  "Q c d \<Longrightarrow> Q c (putCommand cr d)"
  "Q c d \<Longrightarrow> Q c (dropProjection child d)"
  "Q c d \<Longrightarrow> Q c (clear_projection child d)"
  "Q c d \<Longrightarrow> Q c (d\<lparr>ca_attachments := put (at_attachmentId at) (False, at) (ca_attachments d)\<rparr>)"
  by (blast intro: Q_trans Q_runtime Q_interaction Q_command Q_drop Q_clear Q_detach)+

lemma Q_after_side: "Q c d \<Longrightarrow> side_write d d' \<Longrightarrow> Q c d'"
  using Q_trans Q_side by blast

lemma Q_sides [write_rules]:
  "Q c d \<Longrightarrow> Q c (d\<lparr>ca_outbox := x1\<rparr>)"
  "Q c d \<Longrightarrow> Q c (d\<lparr>ca_inventories := x2\<rparr>)"
  "Q c d \<Longrightarrow> Q c (d\<lparr>ca_checkpoints := x3\<rparr>)"
  "Q c d \<Longrightarrow> Q c (d\<lparr>ca_imported := x4, ca_checkpoints := x5\<rparr>)"
  "Q c d \<Longrightarrow> Q c (setDesiredUpstream l d)"
  "Q c d \<Longrightarrow> Q c (settleLifecycleForSession s d)"
  "Q c d \<Longrightarrow> Q c (settle_candidates lost sid cands d)"
  "Q c d \<Longrightarrow> Q c (enqueueDeliveryIntent dest ident mo d)"
  "Q c d \<Longrightarrow> Q c (deleteMetadataDeliveryIntentsForSession sid d)"
  "Q c d \<Longrightarrow> Q c (insert_outbox_or_ignore k d)"
  by (erule Q_after_side, simp)+

lemma Q_fold: "Q c d \<Longrightarrow> (\<And>x d. Q c d \<Longrightarrow> Q c (f x d)) \<Longrightarrow> Q c (fold f xs d)"
  by (induction xs arbitrary: d) simp_all

subsubsection \<open>Transaction bodies\<close>

lemma ok_metadata [write_rules]:
  "Q c d \<Longrightarrow> ok c (commit_body e mo s t d)"
  "Q c d \<Longrightarrow> ok c (settle_body e mo s t d)"
  "Q c d \<Longrightarrow> ok c (markMetadataOutcomeUnknown e k t d)"
  by (auto simp: commit_body_def settle_body_def markMetadataOutcomeUnknown_def Let_def
      intro!: write_rules split: option.split)

lemma ok_stale [write_rules]: "Q c d \<Longrightarrow> ok c (stalePendingInteractionsForSession e sid t d)"
  by (auto simp: stalePendingInteractionsForSession_def stale_interaction_def Let_def intro!: write_rules)

lemma ok_archive_body [write_rules]: "Q c d \<Longrightarrow> ok c (archive_body e a s src now d)"
  by (auto simp: archive_body_def Let_def intro!: write_rules)

lemma ok_runtime [write_rules]:
  "Q c d \<Longrightarrow> ok c (fenceRuntimeBoot e rid t d)"
  "Q c d \<Longrightarrow> ok c (announce_runtime e src reach r d)"
  by (auto simp: fenceRuntimeBoot_def interrupt_command_def fence_session_def announce_runtime_def Let_def
      intro!: write_rules)

lemma ok_register_body [write_rules]: "Q c d \<Longrightarrow> ok c (register_body e endpoint previous n t d)"
  by (auto simp: register_body_def intro!: write_rules split: option.split)

lemma ok_recover_body [write_rules]: "Q c d \<Longrightarrow> ok c (recover_body e cmds runtimes children ts d)"
  by (auto simp: recover_body_def interrupt_command_def intro!: write_rules Q_fold)

lemma ok_attach_body [write_rules]: "Q c d \<Longrightarrow> ok c (attach_body e r reconnect a child d)"
  by (auto simp: attach_body_def intro!: write_rules split: option.split)

lemma ok_local [write_rules]:
  "Q c d \<Longrightarrow> ok c (put_local f d)"
  "Q c d \<Longrightarrow> ok c (announce_local e f d)"
  "Q c d \<Longrightarrow> ok c (rewriteSubtreeAuthority a tm d)"
  by (auto simp: put_local_def announce_local_def rewriteSubtreeAuthority_def intro!: write_rules split: sum.split)

lemma ok_role: "Q c d \<Longrightarrow> prior = ca_role d \<Longrightarrow> legal_transition (ca_controlNodeId d) kind prior after \<Longrightarrow>
   ok c (appendRoleTransition kind prior after receipt tid t (setRole after d))"
  by (erule Q_step) (blast intro: Q_role)

lemma ok_follow_body:
  assumes "Q c d" "prior = ca_role d" "legal_transition (ca_controlNodeId d) KAttached prior after"
  shows "ok c (follow_body e a endpoint prior after t ts d)"
  unfolding follow_body_def
  by (rule ok_andThen_eq, use assms in \<open>auto intro!: write_rules ok_role simp: side_write_fields(1,2) [OF side_results(1)]\<close>)

lemma ok_leave_body:
  "Q c d \<Longrightarrow> prior = ca_role d \<Longrightarrow> legal_transition (ca_controlNodeId d) kind prior after \<Longrightarrow>
   ok c (leave_body e kind prior after receipt unknown t ts d)"
  unfolding leave_body_def by (auto intro!: write_rules ok_role)

lemma ok_replace_body [write_rules]:
  "Q c d \<Longrightarrow> ok c (replace_body e src attachmentId s nodes sessions interactions ops d)"
  by (auto simp: replace_body_def case_prod_beta intro!: write_rules Q_fold)

subsubsection \<open>Imports and inventories\<close>

lemma import_parts:
  "import_session lc src s d = Inr (ch, d') \<Longrightarrow> Q c d \<Longrightarrow> Q c d'"
  "import_archive lc src av d = Inr (ch, d') \<Longrightarrow> Q c d \<Longrightarrow> Q c d'"
  "import_metadata lc src sid m t d = Inr (ch, d') \<Longrightarrow> Q c d \<Longrightarrow> Q c d'"
  "import_operation lc src mo d = Inr (ch, d') \<Longrightarrow> Q c d \<Longrightarrow> Q c d'"
  "keep_change ch0 r = Inr (ch, d') \<Longrightarrow> ok c r \<Longrightarrow> Q c d'"
proof -
  show "import_session lc src s d = Inr (ch, d') \<Longrightarrow> Q c d \<Longrightarrow> Q c d'"
    by (auto simp: import_session_def Let_def split: if_splits sum.splits intro: Q_puts(2))
  show "import_archive lc src av d = Inr (ch, d') \<Longrightarrow> Q c d \<Longrightarrow> Q c d'"
    by (auto simp: import_archive_def split: if_splits sum.splits option.splits
        dest!: Q_puts(2,4) [rotated] intro: Q_sides)
  show "import_metadata lc src sid m t d = Inr (ch, d') \<Longrightarrow> Q c d \<Longrightarrow> Q c d'"
    by (auto simp: import_metadata_def split: option.splits sum.splits intro: Q_puts(2))
  show "import_operation lc src mo d = Inr (ch, d') \<Longrightarrow> Q c d \<Longrightarrow> Q c d'"
    by (auto simp: import_operation_def split: prod.splits sum.splits intro: Q_puts(5))
  show "keep_change ch0 r = Inr (ch, d') \<Longrightarrow> ok c r \<Longrightarrow> Q c d'"
    by (auto simp: keep_change_def ok_def split: sum.splits)
qed

lemma import_Q:
  assumes "applyImportedChange lc src t ch d = Inr (ch', d')" "Q c d"
  shows "Q c d'"
  using assms
  by (cases "(lc, src, t, ch, d)" rule: applyImportedChange.cases)
    (auto split: sum.splits option.splits elim!: import_parts intro!: write_rules)

lemma ok_import_body [write_rules]: "Q c d \<Longrightarrow> ok c (import_body e src item hash t d)"
  by (auto simp: import_body_def case_prod_beta intro!: write_rules dest: import_Q split: option.split sum.split)

lemma ok_bind_item [write_rules]: "Q c d \<Longrightarrow> ok c (bind_item e x i base launch sid t lost cands d)"
  by (auto simp: bind_item_def Let_def intro!: write_rules split: option.split)

lemma reconcile_item_Q:
  "reconcile_item e x t newId i st = Inr st' \<Longrightarrow> Q c (rc_catalog st) \<Longrightarrow> Q c (rc_catalog st')"
  by (auto simp: reconcile_item_def Let_def split: if_splits sum.splits dest: okD [OF ok_bind_item])

lemma reconcile_items_Q:
  "reconcile_items e x t fresh n is st = Inr st' \<Longrightarrow> Q c (rc_catalog st) \<Longrightarrow> Q c (rc_catalog st')"
  by (induction e x t fresh n "is" st rule: reconcile_items.induct)
    (auto split: sum.splits dest: reconcile_item_Q)

lemma ok_reconcile_body [write_rules]:
  assumes "Q c d"
  shows "ok c (reconcile_body e v x t fresh d)"
proof (cases "reconcile_items e x t fresh 0 (iv_sessions v)
    \<lparr>rc_seen = [], rc_settled = [], rc_deferred = False, rc_catalog = d\<rparr>")
  case (Inr st)
  from reconcile_items_Q [OF Inr] assms have "Q c (rc_catalog st)" by simp
  with Inr show ?thesis
    by (auto simp: reconcile_body_def retire_missing_def Let_def intro!: write_rules)
qed (simp add: reconcile_body_def ok_def)

lemma ok_merge_body [write_rules]: "Q c d \<Longrightarrow> ok c (merge_body e current r t d)"
  by (auto simp: merge_body_def intro!: write_rules split: option.split)

lemma ok_promote_from:
  assumes "Q c (rotateControlFeed feedId d)" "prior = ca_role d"
    and "authorityPromotionReceiptSchema receipt \<Longrightarrow> legal_transition (ca_controlNodeId d) KPromoted prior (Authority (pr_authority receipt))"
  shows "ok c (promote_body e receipt feedId prior t ts d)"
proof (cases "authorityPromotionReceiptSchema receipt")
  case True
  have "ok c (appendRoleTransition KPromoted prior (Authority (pr_authority receipt)) (PromoteReceipt receipt)
      (pr_transitionId receipt) t (setRole (Authority (pr_authority receipt)) (rotateControlFeed feedId d)))"
    by (rule ok_role) (use assms True in \<open>simp_all add: rotateControlFeed_def\<close>)
  with True show ?thesis by (auto simp: promote_body_def Let_def intro!: write_rules)
qed (simp add: promote_body_def Let_def ok_def)

end

text \<open>A relation that also survives the start of a new feed holds across a promotion.\<close>

locale feed_blind_writes = catalog_writes +
  assumes Q_rotate: "Q c (rotateControlFeed feedId c)"
begin

lemma promotion_body:
  assumes "promote e pi mi t t' ts c = Inr (x, d)"
  shows "\<exists>body. mutate body c = Inr d \<and> ok c (body c)"
proof -
  from assms obtain a p i l since dt where role: "ca_role c = Branch a (Detached p i l since dt)"
    by (auto simp: promote_def split: if_splits data_role.splits branch_state.splits)
  with assms obtain receipt where m: "mutate (promote_body e receipt (mi_feedId mi) (ca_role c) t' ts) c = Inr d"
      and prev: "pr_previousAuthority receipt = a" "pr_controlNodeId receipt = ca_controlNodeId c"
    by (auto simp: promote_def Let_def split: if_splits list.splits sum.splits)
  have "ok c (promote_body e receipt (mi_feedId mi) (ca_role c) t' ts c)"
    by (rule ok_promote_from [OF Q_rotate])
      (use role prev in \<open>auto simp: legal_transition_def authorityPromotionReceiptSchema_def\<close>)
  with m show ?thesis by blast
qed

end

end
