(* ===== verification/Catalog_Steps.thy ===== *)
theory Catalog_Steps
  imports Catalog_Laws
begin

text \<open>
  Every way a running catalog changes: one step per public operation that writes
  (\<^verbatim>\<open>packages/control-node-core/src/catalog.ts\<close>), with any arguments, clock readings and drawn
  identifiers. The second locale lifts a contract of transactions to runs of such steps.
\<close>

subsection \<open>Steps\<close>

text \<open>A promotion draws a feed ID that no event carries yet.\<close>

definition fresh_feed :: "string \<Rightarrow> catalog \<Rightarrow> bool" where
  "fresh_feed f c \<longleftrightarrow> f \<noteq> ca_feedId c \<and> f \<notin> fi_feedId ` set (ca_emitted c)"

inductive catalog_step :: "env \<Rightarrow> catalog \<Rightarrow> catalog \<Rightarrow> bool" for e where
  endpoint: "setLocalEndpointId e ep c = Inr (n, d) \<Longrightarrow> catalog_step e c d"
| upstream: "catalog_step e c (setDesiredUpstream l c)"
| bootstrap: "bootstrapDesiredUpstream j c = (b, d) \<Longrightarrow> catalog_step e c d"
| compact: "compactControlEvents n c = Inr d \<Longrightarrow> catalog_step e c d"
| attach: "attachChild e ar ai li t c = Inr (x, d) \<Longrightarrow> catalog_step e c d"
| follow: "applyParentAttachment e a ep t ts c = Inr d \<Longrightarrow> catalog_step e c d"
| detach: "detachChild e di ti t c = Inr (x, d) \<Longrightarrow> catalog_step e c d"
| receive_detach: "applyDetachmentReceipt e dr t ts c = Inr (x, d) \<Longrightarrow> catalog_step e c d"
| force_detach: "forceDetach e fi ti t t' ts c = Inr (x, d) \<Longrightarrow> catalog_step e c d"
| promoted: "promote e pi mi t t' ts c = Inr (x, d) \<Longrightarrow> fresh_feed (mi_feedId mi) c \<Longrightarrow> catalog_step e c d"
| child_lost: "markChildDisconnected e k b c = Inr (x, d) \<Longrightarrow> catalog_step e c d"
| child_alive: "heartbeatChild e k b t t' c = Inr (x, d) \<Longrightarrow> catalog_step e c d"
| children_stale: "markStaleChildren e cutoff c = Inr (ks, d) \<Longrightarrow> catalog_step e c d"
| snapshot: "replaceChildSnapshot e k ai s c = Inr d \<Longrightarrow> catalog_step e c d"
| import_event: "importChildControl e k ai item t c = Inr (x, d) \<Longrightarrow> catalog_step e c d"
| register: "registerRuntimeNode e rr ep t t' c = Inr (x, d) \<Longrightarrow> catalog_step e c d"
| runtime_alive: "heartbeatRuntimeNode e k b t t' c = Inr (x, d) \<Longrightarrow> catalog_step e c d"
| runtime_lost: "markRuntimeNodeDisconnected e k b' c = Inr (x, d) \<Longrightarrow> catalog_step e c d"
| runtimes_stale: "markStaleRuntimeNodes e cutoff c = Inr (ks, d) \<Longrightarrow> catalog_step e c d"
| inventory: "reconcileInventory e v t fresh tss c = (d, res) \<Longrightarrow> catalog_step e c d"
| runtime_session: "mergeRuntimeSession e s t tss c = (d, res') \<Longrightarrow> catalog_step e c d"
| launched: "recordLaunch e l src c = Inr (x, d) \<Longrightarrow> catalog_step e c d"
| archived: "recordArchive e av src t c = Inr (x, d) \<Longrightarrow> catalog_step e c d"
| stopped: "markSessionStopped e k n t c = Inr (x, d) \<Longrightarrow> catalog_step e c d"
| submitted: "submitMetadataPatch e p k t t' t'' c = Inr (x, d) \<Longrightarrow> catalog_step e c d"
| applied: "applyMetadataAtAuthority e mo t t' c = Inr (x, d) \<Longrightarrow> catalog_step e c d"
| settled: "settleMetadataOperation e parent mo t c = Inr (x, d) \<Longrightarrow> catalog_step e c d"
| acknowledged: "acknowledgeMetadataDelivery n k k' c = (b, d) \<Longrightarrow> catalog_step e c d"
| accepted: "acceptCommand e cr input t c = Inr (x, d) \<Longrightarrow> catalog_step e c d"
| updated: "updateCommand e cr c = Inr (x, d) \<Longrightarrow> catalog_step e c d"
| recovered: "recoverCommandOutcome e cr c = Inr (x, d) \<Longrightarrow> catalog_step e c d"
| spawn_metadata: "applyPendingLifecycleMetadata e tss k c = (d, err) \<Longrightarrow> catalog_step e c d"
| asked: "publishInteraction e i c = Inr (x, d) \<Longrightarrow> catalog_step e c d"
| answered: "updateInteraction e i c = Inr (x, d) \<Longrightarrow> catalog_step e c d"
| expired: "expireInteractions e t c = (d, err) \<Longrightarrow> catalog_step e c d"
| enrolled: "enrollPeer ep rl k scopes c = Inr d \<Longrightarrow> catalog_step e c d"

definition catalog_steps :: "env \<Rightarrow> catalog \<Rightarrow> catalog \<Rightarrow> bool" where
  "catalog_steps e = (catalog_step e)\<^sup>*\<^sup>*"

lemma catalog_steps_refl [simp, intro]: "catalog_steps e c c"
  by (simp add: catalog_steps_def)

lemma catalog_steps_one: "catalog_step e c d \<Longrightarrow> catalog_steps e c d"
  by (simp add: catalog_steps_def r_into_rtranclp)

lemma catalog_steps_trans: "catalog_steps e a b \<Longrightarrow> catalog_steps e b c \<Longrightarrow> catalog_steps e a c"
  by (simp add: catalog_steps_def)

subsection \<open>The contract of a commit\<close>

locale catalog_commits = catalog_writes +
  fixes R :: "catalog \<Rightarrow> catalog \<Rightarrow> bool"
  assumes R_refl: "R c c"
    and R_trans: "R a b \<Longrightarrow> R b c \<Longrightarrow> R a c"
    and R_commit: "mutate body c = Inr d \<Longrightarrow> ok c (body c) \<Longrightarrow> R c d"
    and R_side: "side_write c d \<Longrightarrow> R c d"
    and R_compact: "compactControlEvents n c = Inr d \<Longrightarrow> R c d"
    and R_promote: "promote e pi mi t t' ts c = Inr (x, d) \<Longrightarrow> fresh_feed (mi_feedId mi) c \<Longrightarrow> R c d"
begin

lemma commit: "mutate body c = Inr d \<Longrightarrow> (Q c c \<Longrightarrow> ok c (body c)) \<Longrightarrow> R c d"
  using R_commit Q_refl by blast

lemma R_fold_err:
  assumes "fold_err f xs c = Inr d" "\<And>x c d. f x c = Inr d \<Longrightarrow> R c d"
  shows "R c d"
proof (rule fold_err_invariant [OF assms(1), where P = "R c"])
  fix x a b assume "R c a" "f x a = Inr b"
  with assms(2) R_trans show "R c b" by blast
qed (rule R_refl)

lemma detach_id:
  "at_attachmentId at = k \<Longrightarrow> Q c d \<Longrightarrow> Q c (d\<lparr>ca_attachments := put k (False, at) (ca_attachments d)\<rparr>)"
  using Q_steps(6) by blast

lemma topology_R:
  "setLocalEndpointId e ep c = Inr (n, d) \<Longrightarrow> R c d"
  "attachChild e ar ai li t c = Inr (x, d) \<Longrightarrow> R c d"
  "detachChild e di ti t c = Inr (y, d) \<Longrightarrow> R c d"
  by (auto simp: setLocalEndpointId_def attachChild_def detachChild_def Let_def
      split: if_splits option.splits sum.splits intro!: R_refl write_rules detach_id elim!: commit)

lemma follow_R: "applyParentAttachment e a ep t ts c = Inr d \<Longrightarrow> R c d"
  by (auto simp: applyParentAttachment_def controlNodeAttachmentSchema_def Let_def legal_transition_def attached_role_def
      split: if_splits intro!: write_rules ok_follow_body elim!: commit)

lemma leave_R:
  "applyDetachmentReceipt e dr t ts c = Inr (x, d) \<Longrightarrow> R c d"
  "forceDetach e fi ti t t' ts c = Inr (x, d) \<Longrightarrow> R c d"
  by (auto simp: applyDetachmentReceipt_def forceDetach_def Let_def legal_transition_def detached_role_def
      split: if_splits sum.splits data_role.splits branch_state.splits detach_mode.splits
      intro!: write_rules ok_leave_body elim!: commit)

lemma presence_R:
  "markChildDisconnected e k b c = Inr (x, d) \<Longrightarrow> R c d"
  "heartbeatChild e k b' t t' c = Inr (x, d) \<Longrightarrow> R c d"
  "heartbeatRuntimeNode e k b' t t' c = Inr (x, d) \<Longrightarrow> R c d"
  "markRuntimeNodeDisconnected e k b c = Inr (x, d) \<Longrightarrow> R c d"
  by (auto simp: markChildDisconnected_def heartbeatChild_def heartbeatRuntimeNode_def markRuntimeNodeDisconnected_def
      Let_def split: if_splits option.splits sum.splits intro!: R_refl write_rules elim!: commit)

lemma stale_R:
  "markStaleChildren e cutoff c = Inr (ks, d) \<Longrightarrow> R c d"
  "markStaleRuntimeNodes e cutoff c = Inr (ks, d) \<Longrightarrow> R c d"
  by (auto simp: markStaleChildren_def markStaleRuntimeNodes_def Let_def split: sum.splits prod.splits
      elim!: R_fold_err dest: presence_R)

lemma register_R: "registerRuntimeNode e rr ep t t' c = Inr (x, d) \<Longrightarrow> R c d"
  by (auto simp: registerRuntimeNode_def Let_def split: if_splits sum.splits intro!: write_rules elim!: commit)

lemma import_R:
  "replaceChildSnapshot e k ai s c = Inr d \<Longrightarrow> R c d"
  "importChildControl e k ai item t c = Inr (x, d) \<Longrightarrow> R c d"
  by (auto simp: replaceChildSnapshot_def importChildControl_def Let_def
      split: if_splits option.splits sum.splits prod.splits intro!: R_refl write_rules elim!: commit)

lemma metadata_R:
  "submitMetadataPatch e p k t t' t'' c = Inr (x, d) \<Longrightarrow> R c d"
  "applyMetadataAtAuthority e mo t t' c = Inr (x, d) \<Longrightarrow> R c d"
  "settleMetadataOperation e parent mo t c = Inr (x, d) \<Longrightarrow> R c d"
  by (auto simp: submitMetadataPatch_def applyMetadataAtAuthority_def settleMetadataOperation_def settle_open_def
      commitMetadataAtAuthority_def Let_def
      split: if_splits option.splits sum.splits intro!: R_refl write_rules elim!: commit)

lemma apply_intents_R: "apply_intents e tss rows c = (d, err) \<Longrightarrow> R c d"
proof (induction e tss rows c rule: apply_intents.induct)
  case (1 e tss c)
  then show ?case by (simp add: R_refl)
next
  case (2 e tss k li rows c)
  show ?case
  proof (cases "getSession (li_sessionId li) c")
    case None
    with 2 show ?thesis by simp
  next
    case (Some s)
    obtain t t' t'' where ts: "tss k = (t, t', t'')" by (metis prod_cases3)
    let ?p = "\<lparr>mp_operationId = k, mp_sessionId = li_sessionId li, mp_expectedAuthority = se_metadataAuthority s,
      mp_set = Some (case li_metadata li of None \<Rightarrow> [] | Some m \<Rightarrow> m), mp_remove = None, mp_ifKeyRevision = None\<rparr>"
    show ?thesis
    proof (cases "submitMetadataPatch e ?p (ca_controlNodeId c) t t' t'' c")
      case (Inl err)
      with "2.prems" Some ts show ?thesis by (auto simp: R_refl)
    next
      case (Inr r)
      obtain mo c' where r: "r = (mo, c')" by (cases r)
      let ?c = "c'\<lparr>ca_intents := (case map_of (ca_intents c') k of
         None \<Rightarrow> ca_intents c' | Some li' \<Rightarrow> put k (li'\<lparr>li_applied := True\<rparr>) (ca_intents c'))\<rparr>"
      have "apply_intents e tss rows ?c = (d, err)"
        using "2.prems" Some ts Inr r by simp
      with "2.IH"(2) [OF Some ts [symmetric] refl refl refl Inr r [symmetric]] Some ts Inr r
      have "R ?c d" by simp
      moreover have "R c c'" using metadata_R(1) Inr r by blast
      moreover have "R c' ?c" by (rule R_side) simp
      ultimately show ?thesis using R_trans by blast
    qed
  qed
qed

lemma after_metadata_R: "after_metadata e tss k f c = (d, r) \<Longrightarrow> R c d"
  by (auto simp: after_metadata_def applyPendingLifecycleMetadata_def split: prod.splits option.splits
      dest: apply_intents_R)

lemma inventory_R:
  "reconcileInventory e v t fresh tss c = (d, res) \<Longrightarrow> R c d"
  "mergeRuntimeSession e s t tss c = (d, res') \<Longrightarrow> R c d"
proof -
  have inv: "mutate (reconcile_body e v x t fresh) c = Inr c' \<Longrightarrow> R c c'" for x c'
    by (auto intro!: write_rules elim!: commit)
  have mer: "mutate (merge_body e current r t) c = Inr c' \<Longrightarrow> R c c'" for current r c'
    by (auto intro!: write_rules elim!: commit)
  show "reconcileInventory e v t fresh tss c = (d, res) \<Longrightarrow> R c d"
    by (auto simp: reconcileInventory_def Let_def R_refl split: if_splits sum.splits
        dest: inv after_metadata_R intro: R_trans)
  show "mergeRuntimeSession e s t tss c = (d, res') \<Longrightarrow> R c d"
    by (auto simp: mergeRuntimeSession_def Let_def R_refl split: if_splits sum.splits
        dest: mer after_metadata_R intro: R_trans)
qed

lemma journal_R:
  "recordLaunch e l src c = Inr (x, d) \<Longrightarrow> R c d"
  "markSessionStopped e k n t c = Inr (y, d) \<Longrightarrow> R c d"
  "acceptCommand e cr input t c = Inr (z, d) \<Longrightarrow> R c d"
  "updateCommand e cr c = Inr (z, d) \<Longrightarrow> R c d"
  "recoverCommandOutcome e cr c = Inr (z, d) \<Longrightarrow> R c d"
  "publishInteraction e i c = Inr (u, d) \<Longrightarrow> R c d"
  "updateInteraction e i c = Inr (u, d) \<Longrightarrow> R c d"
  by (auto simp: recordLaunch_def markSessionStopped_def acceptCommand_def updateCommand_def recoverCommandOutcome_def
      settle_command_def publishInteraction_def updateInteraction_def store_interaction_def Let_def
      split: if_splits option.splits sum.splits intro!: R_refl write_rules elim!: commit)

lemma archive_R: "recordArchive e av src t c = Inr (x, d) \<Longrightarrow> R c d"
  by (auto simp: recordArchive_def Let_def split: if_splits option.splits sum.splits
      intro!: R_refl R_side write_rules elim!: commit)

lemma expire_R: "expire_each e t is c = (d, err) \<Longrightarrow> R c d"
proof (induction e t "is" c rule: expire_each.induct)
  case (2 e t i "is" c)
  then show ?case
    by (auto simp: R_refl split: sum.splits prod.splits dest: journal_R(7) intro: R_trans)
qed (simp add: R_refl)

lemma side_R:
  "bootstrapDesiredUpstream j c = (b, d) \<Longrightarrow> R c d"
  "acknowledgeMetadataDelivery n k k' c = (b, d) \<Longrightarrow> R c d"
  "enrollPeer ep rl p sc c = Inr d \<Longrightarrow> R c d"
  by (auto simp: bootstrapDesiredUpstream_def acknowledgeMetadataDelivery_def Let_def split: if_splits
      intro!: R_refl intro: R_side side_results)

lemma step_R: "catalog_step e c d \<Longrightarrow> R c d"
  by (induction rule: catalog_step.induct)
    (erule topology_R follow_R leave_R presence_R stale_R register_R import_R metadata_R inventory_R journal_R
      archive_R side_R R_compact
    | erule (1) R_promote
    | simp only: applyPendingLifecycleMetadata_def expireInteractions_def, erule apply_intents_R expire_R
    | rule R_side, rule side_writes)+

lemma steps_R: "catalog_steps e c d \<Longrightarrow> R c d"
  unfolding catalog_steps_def
  by (induction rule: rtranclp_induct) (blast intro: R_refl R_trans step_R)+

lemma boot_R:
  "startBoot e opts t c = Inr d \<Longrightarrow> R c d"
  "recoverInterruptedState e tr c = Inr d \<Longrightarrow> R c d"
  by (auto simp: startBoot_def recoverInterruptedState_def Let_def split: if_splits
      intro!: R_refl write_rules elim!: commit)

lemma open_R:
  assumes "openCatalog e opts t tr c = Inr d"
  shows "\<exists>c'. R (c\<lparr>ca_published := 0, ca_emitted := []\<rparr>) c' \<and> d = c'\<lparr>ca_published := ca_lastCursor c'\<rparr>"
proof -
  from assms obtain c1 c2 where c: "startBoot e opts t (c\<lparr>ca_published := 0, ca_emitted := []\<rparr>) = Inr c1"
      "recoverInterruptedState e tr c1 = Inr c2"
    and d: "d = (retireArchivedMetadataDeliveryIntents c2)\<lparr>ca_published := ca_lastCursor (retireArchivedMetadataDeliveryIntents c2)\<rparr>"
    by (auto simp: openCatalog_def)
  have "R c2 (retireArchivedMetadataDeliveryIntents c2)" by (rule R_side) simp
  with boot_R(1) [OF c(1)] boot_R(2) [OF c(2)] d show ?thesis using R_trans by blast
qed

end

end
