(* ===== verification/Feed_Delivery.thy ===== *)
theory Feed_Delivery
  imports Catalog_Steps Control_Metadata_Props
begin

text \<open>
  The control feed over whole runs of the catalog: what listeners receive, what is retained for
  replay, and how a promotion starts a new feed. \<open>generation\<close> is what the instance has emitted
  under its current feed ID.
\<close>

subsection \<open>The history of a feed\<close>

definition generation :: "catalog \<Rightarrow> feed_item list" where
  "generation c = filter (\<lambda>i. fi_feedId i = ca_feedId c) (ca_emitted c)"

definition history :: "catalog \<Rightarrow> bool" where
  "history c \<longleftrightarrow> idle c \<and> map fi_cursor (generation c) = [1..<Suc (ca_lastCursor c)] \<and>
     ca_events c = drop (ca_minCursor c) (generation c)"

definition feed_extends :: "catalog \<Rightarrow> catalog \<Rightarrow> bool" where
  "feed_extends c d \<longleftrightarrow> (\<exists>is. appended c is d)"

lemma feed_extends_same:
  "ca_events d = ca_events c \<Longrightarrow> ca_minCursor d = ca_minCursor c \<Longrightarrow> ca_lastCursor d = ca_lastCursor c \<Longrightarrow>
   ca_published d = ca_published c \<Longrightarrow> ca_emitted d = ca_emitted c \<Longrightarrow> ca_feedId d = ca_feedId c \<Longrightarrow> feed_extends c d"
  using appended_Nil feed_extends_def by blast

lemma side_write_feed:
  assumes "side_write c d"
  shows "ca_events d = ca_events c" "ca_minCursor d = ca_minCursor c" "ca_lastCursor d = ca_lastCursor c"
    "ca_published d = ca_published c" "ca_emitted d = ca_emitted c" "ca_feedId d = ca_feedId c"
  using assms by (cases c; cases d; simp add: side_write_def)+

lemma append_extends: "appendControl e ch og ev c = Inr d \<Longrightarrow> feed_extends c d"
  by (auto simp: feed_extends_def appended_def appendControl_def Let_def split: if_splits intro!: exI)

interpretation feed_writes: catalog_writes feed_extends
proof unfold_locales
  show "feed_extends a c" if "feed_extends a b" "feed_extends b c" for a b c
    using that appended_trans unfolding feed_extends_def by blast
  show "feed_extends c d" if "side_write c d" for c d
    by (rule feed_extends_same) (use side_write_feed [OF that] in simp_all)
qed (auto simp: putControlNode_def putRuntimeNode_def putSession_def putLaunch_def putArchive_def putInteraction_def
    putMetadataOperation_def putCommand_def appendRoleTransition_def setRole_def insertAttachment_def
    dropProjection_def clear_projection_def split: if_splits intro: feed_extends_same append_extends)

text \<open>A commit emits what its body appended, and keeps a suffix of the feed for replay.\<close>

lemma compact_retains:
  "compactToLimit p = Inr d \<Longrightarrow> ca_minCursor p \<le> ca_minCursor d \<and>
   (ca_events d = ca_events p \<and> ca_minCursor d = ca_minCursor p \<or>
    ca_events d = filter (\<lambda>i. ca_minCursor d < fi_cursor i) (ca_events p))"
  by (auto simp: compactToLimit_def compactControlEvents_def Let_def not_le split: if_splits)

lemma commit_feed:
  assumes "mutate body c = Inr d" "body c = Inr b" "appended c1 is b" "idle c1"
  shows "idle d \<and> ca_emitted d = ca_emitted c1 @ is \<and> ca_lastCursor d = ca_lastCursor b \<and> ca_feedId d = ca_feedId c1 \<and>
    ca_minCursor c1 \<le> ca_minCursor d \<and> ca_events d = drop (ca_minCursor d - ca_minCursor c1) (ca_events c1 @ is)"
proof -
  have body: "mutate body c = mutate (\<lambda>_. Inr b) c1" using assms(2) by (simp add: mutate_def)
  from mutate_emits [of "\<lambda>_. Inr b" c1 b "is", OF refl assms(3,4)] assms(1) body
  have d: "idle d" "ca_emitted d = ca_emitted c1 @ is" "ca_lastCursor d = ca_lastCursor b" "core d = core b" by auto
  from assms(1,2) obtain p where p: "publishNewControls b = Inr p" "compactToLimit p = Inr d"
    by (auto simp: mutate_def split: sum.splits)
  have pub: "ca_events p = ca_events b" "ca_minCursor p = ca_minCursor b" using publish_fields [OF p(1)] by auto
  have b: "ca_events b = ca_events c1 @ is" "ca_minCursor b = ca_minCursor c1" "ca_feedId b = ca_feedId c1"
    using assms(3) by (simp_all add: appended_def)
  have ok: "feed_ok b" using appended_feed_ok [OF assms(3)] assms(4) by (simp add: idle_def)
  have "ca_minCursor c1 \<le> ca_minCursor d" "ca_events d = drop (ca_minCursor d - ca_minCursor b) (ca_events b)"
    using compact_retains [OF p(2)] feed_after [OF ok, of "ca_minCursor d"] by (auto simp: pub b)
  with d b core_fields(2) [OF d(4)] show ?thesis by simp
qed

lemma history_cursors:
  assumes "history c" "appended c is b"
  shows "map fi_cursor (generation c @ is) = [1..<Suc (ca_lastCursor b)]"
proof -
  have "[1..<Suc (ca_lastCursor c)] @ [Suc (ca_lastCursor c)..<Suc (ca_lastCursor b)] = [1..<Suc (ca_lastCursor b)]"
    using assms(2) upt_add_eq_append [of 1 "Suc (ca_lastCursor c)" "ca_lastCursor b - ca_lastCursor c"]
    by (simp add: appended_def)
  with assms show ?thesis by (simp add: history_def appended_def)
qed

lemma history_commit:
  assumes "history c" "mutate body c = Inr d" "body c = Inr b" "appended c is b"
  shows "history d"
proof -
  have len: "ca_minCursor c \<le> length (generation c)"
  proof -
    from assms(1) have "map fi_cursor (generation c) = [1..<Suc (ca_lastCursor c)]" by (simp add: history_def)
    from arg_cong [OF this, of length] have "length (generation c) = ca_lastCursor c" by simp
    with assms(1) show ?thesis by (simp add: history_def idle_def feed_ok_def)
  qed
  have "idle c" using assms(1) by (simp add: history_def)
  note f = commit_feed [OF assms(2,3,4) this]
  have new: "filter (\<lambda>i. fi_feedId i = ca_feedId c) is = is"
    using assms(4) by (auto simp: appended_def filter_id_conv)
  have gen: "generation d = generation c @ is" using f new by (simp add: generation_def)
  moreover have "ca_events d = drop (ca_minCursor d) (generation c @ is)"
  proof -
    have "ca_events c @ is = drop (ca_minCursor c) (generation c @ is)"
      using assms(1) len by (simp add: history_def)
    with f show ?thesis by (simp del: drop_append)
  qed
  moreover have "map fi_cursor (generation c @ is) = [1..<Suc (ca_lastCursor d)]"
    using history_cursors [OF assms(1,4)] f by simp
  ultimately show ?thesis using f unfolding history_def by simp
qed

lemma history_compact:
  assumes "history c" "compactControlEvents n c = Inr d"
  shows "history d"
proof (cases "n \<le> ca_minCursor c")
  case False
  have ok: "feed_ok c" "ca_published c = ca_lastCursor c" using assms(1) by (simp_all add: history_def idle_def)
  from assms(2) False have d: "d = c\<lparr>ca_events := filter (\<lambda>i. n < fi_cursor i) (ca_events c), ca_minCursor := n\<rparr>"
      and n: "n \<le> ca_lastCursor c"
    by (auto simp: compactControlEvents_def not_le split: if_splits)
  obtain c' where "compactControlEvents n c = Inr c'" "feed_ok c'" using compact_ok [OF ok(1), of n] ok(2) n by auto
  with assms(2) have "feed_ok d" by simp
  moreover have "ca_events d = drop n (generation c)"
    using feed_after [OF ok(1), of n] False assms(1) by (simp add: d history_def)
  ultimately show ?thesis using assms(1) ok(2) by (simp add: history_def idle_def d generation_def)
qed (use assms in \<open>simp add: compactControlEvents_def split: if_splits\<close>)

lemma compact_idle:
  assumes "compactControlEvents n c = Inr d" "idle c"
  shows "idle d"
proof -
  from assms(2) have ok: "feed_ok c" "ca_published c = ca_lastCursor c" by (simp_all add: idle_def)
  from assms(1) have "n \<le> ca_lastCursor c" by (auto simp: compactControlEvents_def split: if_splits)
  with compact_ok [OF ok(1), of n] ok(2) assms(1) have "feed_ok d" by auto
  moreover have "ca_published d = ca_published c \<and> ca_lastCursor d = ca_lastCursor c"
    by (subst compactControlEvents_fields [OF assms(1)], subst (2) compactControlEvents_fields [OF assms(1)]) simp
  ultimately show ?thesis using ok(2) by (simp add: idle_def)
qed

text \<open>A promotion starts over: the first event of the new feed has cursor 1.\<close>

lemma promote_feed:
  assumes "promote e pi mi t t' ts c = Inr (x, d)"
  shows "\<exists>receipt b is. mutate (promote_body e receipt (mi_feedId mi) (ca_role c) t' ts) c = Inr d \<and>
    promote_body e receipt (mi_feedId mi) (ca_role c) t' ts c = Inr b \<and>
    appended (rotateControlFeed (mi_feedId mi) c) is b"
proof -
  from assms obtain a p i l since dt where role: "ca_role c = Branch a (Detached p i l since dt)"
    by (auto simp: promote_def split: if_splits data_role.splits branch_state.splits)
  from assms role obtain receipt where m: "mutate (promote_body e receipt (mi_feedId mi) (ca_role c) t' ts) c = Inr d"
      and prev: "pr_previousAuthority receipt = a" "pr_controlNodeId receipt = ca_controlNodeId c"
    by (auto simp: promote_def Let_def split: if_splits list.splits sum.splits)
  have "feed_writes.ok (rotateControlFeed (mi_feedId mi) c) (promote_body e receipt (mi_feedId mi) (ca_role c) t' ts c)"
    by (rule feed_writes.ok_promote_from [OF feed_writes.Q_refl])
      (use role prev in \<open>auto simp: legal_transition_def authorityPromotionReceiptSchema_def\<close>)
  moreover from m obtain b where "promote_body e receipt (mi_feedId mi) (ca_role c) t' ts c = Inr b"
    by (auto simp: mutate_def split: sum.splits)
  ultimately show ?thesis using m by (auto simp: feed_writes.ok_def feed_extends_def)
qed

lemma history_promote:
  assumes "history c" "promote e pi mi t t' ts c = Inr (x, d)" "fresh_feed (mi_feedId mi) c"
  shows "history d"
proof -
  let ?c1 = "rotateControlFeed (mi_feedId mi) c"
  from promote_feed [OF assms(2)] obtain receipt b "is"
    where m: "mutate (promote_body e receipt (mi_feedId mi) (ca_role c) t' ts) c = Inr d"
      and b: "promote_body e receipt (mi_feedId mi) (ca_role c) t' ts c = Inr b" and "is": "appended ?c1 is b" by blast
  have "idle ?c1" by (simp add: idle_def feed_ok_def rotateControlFeed_def)
  note f = commit_feed [OF m b "is" this]
  have "filter (\<lambda>i. fi_feedId i = mi_feedId mi) (ca_emitted c) = []"
    using assms(3) by (auto simp: fresh_feed_def filter_empty_conv image_iff)
  moreover have "filter (\<lambda>i. fi_feedId i = mi_feedId mi) is = is"
    using "is" by (auto simp: appended_def filter_id_conv rotateControlFeed_def)
  ultimately have "generation d = is" using f by (simp add: generation_def rotateControlFeed_def)
  moreover have "map fi_cursor is = [1..<Suc (ca_lastCursor d)]"
    using "is" f by (simp add: appended_def rotateControlFeed_def)
  ultimately show ?thesis using f by (simp add: history_def rotateControlFeed_def)
qed

interpretation feed: catalog_commits feed_extends "\<lambda>c d. history c \<longrightarrow> history d"
proof unfold_locales
  fix body c d
  assume m: "mutate body c = Inr d" and ok: "feed_writes.ok c (body c)"
  from m obtain b where b: "body c = Inr b" by (auto simp: mutate_def split: sum.splits)
  with ok obtain "is" where "appended c is b" by (auto simp: feed_writes.ok_def feed_extends_def)
  with history_commit [OF _ m b] show "history c \<longrightarrow> history d" by blast
next
  fix c d assume "side_write c d"
  note f = side_write_feed [OF this]
  show "history c \<longrightarrow> history d"
    unfolding history_def idle_def feed_ok_def generation_def f by (rule impI)
next
  fix n c d assume "compactControlEvents n c = Inr d"
  then show "history c \<longrightarrow> history d" by (intro impI) (rule history_compact)
next
  fix e pi mi t t' ts c x d
  assume "promote e pi mi t t' ts c = Inr (x, d)" "fresh_feed (mi_feedId mi) c"
  then show "history c \<longrightarrow> history d" by (intro impI) (rule history_promote)
qed simp_all

subsection \<open>The first boot\<close>

lemma mutate_small:
  assumes "body c = Inr d" "feed_ok d" "ca_lastCursor d \<le> ca_retention d"
  shows "mutate body c = Inr (d\<lparr>ca_published := ca_lastCursor d,
    ca_emitted := ca_emitted d @ filter (\<lambda>i. ca_published d < fi_cursor i) (ca_events d)\<rparr>)"
  using assms by (simp add: mutate_def publish_ok compactToLimit_def)

lemma history_created: "history (createCatalog node feedId realm epoch retention)"
  by (simp add: history_def idle_def feed_ok_def generation_def createCatalog_def)

lemma history_open:
  assumes "openCatalog e opts t tr (createCatalog node feedId realm epoch retention) = Inr c"
  shows "history c"
proof -
  let ?n = "createCatalog node feedId realm epoch retention"
  have "?n\<lparr>ca_published := 0, ca_emitted := []\<rparr> = ?n" by (simp add: createCatalog_def)
  with feed.open_R [OF assms] history_created obtain c' where
    c': "history c'" "c = c'\<lparr>ca_published := ca_lastCursor c'\<rparr>" by auto
  then have "ca_published c' = ca_lastCursor c'" by (simp only: history_def idle_def)
  with c'(2) have "c = c'" by (cases c') simp
  with c'(1) show ?thesis by simp
qed

text \<open>The catalog after its first boot: one descriptor, announced by the first event.\<close>

definition boot_descriptor :: "boot_options \<Rightarrow> string \<Rightarrow> catalog \<Rightarrow> control_node" where
  "boot_descriptor opts t c =
     \<lparr>cn_controlNodeId = ca_controlNodeId c, cn_bootId = bo_bootId opts, cn_feedId = ca_feedId c,
      cn_name = (case bo_name opts of Some n \<Rightarrow> n | None \<Rightarrow> ''agent-multiplex-control-node''),
      cn_endpointId = bo_endpointId opts, cn_presence = Online, cn_dataRole = ca_role c, cn_connectedAt = Some t,
      cn_lastHeartbeatAt = Some t, cn_capabilities = boot_capabilities\<rparr>"

definition boot_item :: "env \<Rightarrow> boot_options \<Rightarrow> string \<Rightarrow> catalog \<Rightarrow> feed_item" where
  "boot_item e opts t c =
     \<lparr>fi_eventId = en_eventId e (ca_feedId c) 1, fi_feedId = ca_feedId c, fi_cursor = 1, fi_origin = ca_controlNodeId c,
      fi_authority = authority c, fi_change = NodeUpsert (boot_descriptor opts t c)\<rparr>"

definition booted :: "env \<Rightarrow> boot_options \<Rightarrow> string \<Rightarrow> catalog \<Rightarrow> catalog" where
  "booted e opts t c = c\<lparr>ca_controlNodes := [(ca_controlNodeId c, None, boot_descriptor opts t c)], ca_lastCursor := 1,
     ca_events := [boot_item e opts t c], ca_published := 1, ca_emitted := [boot_item e opts t c]\<rparr>"

lemma first_boot:
  assumes "1 \<le> retention"
  shows "openCatalog e opts t tr (createCatalog node feedId realm epoch retention) =
    Inr (booted e opts t (createCatalog node feedId realm epoch retention))"
proof -
  let ?c = "createCatalog node feedId realm epoch retention"
  let ?d = "boot_descriptor opts t ?c"
  have new: "?c\<lparr>ca_published := 0, ca_emitted := []\<rparr> = ?c" by (simp add: createCatalog_def)
  let ?body = "\<lambda>c. andThen (putControlNode ?d None c) (append_local e (NodeUpsert ?d))"
  let ?b = "?c\<lparr>ca_controlNodes := [(node, None, ?d)], ca_lastCursor := 1, ca_events := [boot_item e opts t ?c]\<rparr>"
  have body: "?body ?c = Inr ?b"
    by (simp add: controlNodeDescriptorSchema_def boot_descriptor_def boot_item_def putControlNode_def append_local_def
        appendControl_def authority_def createCatalog_def)
  have "mutate ?body ?c = Inr (booted e opts t ?c)"
    by (subst mutate_small [of ?body, OF body])
      (use assms in \<open>simp_all add: feed_ok_def booted_def boot_item_def createCatalog_def\<close>)
  moreover have "startBoot e opts t ?c = mutate ?body ?c"
    unfolding startBoot_def Let_def
    by (cases "bo_endpointId opts"; cases "bo_name opts"; simp add: boot_descriptor_def createCatalog_def row_def)
  ultimately have boot: "startBoot e opts t ?c = Inr (booted e opts t ?c)" by simp
  show ?thesis
    unfolding openCatalog_def new boot
    by (simp add: recoverInterruptedState_def immediate_children_def getAttachment_def records_def createCatalog_def
        retireArchivedMetadataDeliveryIntents_def booted_def)
qed

subsection \<open>Properties\<close>

text \<open>C10: replay and live delivery agree. However the catalog has run since its first boot (any
  sequence of its operations, promotions included), what it has emitted under the current feed ID
  carries the cursors 1, 2, 3, ... without a gap or a repetition, and a subscriber that asks for the
  events after any cursor it may still replay gets, in order and up to its limit, exactly the events
  that were emitted after that cursor.\<close>

theorem replay_matches_delivery:
  assumes "openCatalog e opts t tr (createCatalog node feedId realm epoch retention) = Inr c0"
    and "catalog_steps e c0 c" and "canReplayControlCursor k c"
  shows "map fi_cursor (generation c) = [1..<Suc (ca_lastCursor c)] \<and>
    controlEventsAfter k limit c = Inr (take limit (drop k (generation c)))"
proof -
  have h: "history c" using feed.steps_R [OF assms(2)] history_open [OF assms(1)] by blast
  then have ok: "feed_ok c" and g: "map fi_cursor (generation c) = [1..<Suc (ca_lastCursor c)]"
      "ca_events c = drop (ca_minCursor c) (generation c)"
    by (simp_all add: history_def idle_def)
  have k: "ca_minCursor c \<le> k" using assms(3) by (simp add: canReplayControlCursor_def)
  show ?thesis
    using assms(3) g feed_after [OF ok k] k by (simp add: controlEventsAfter_def)
qed

theorem replay_matches_delivery_witness:
  "let c = booted demo_env \<lparr>bo_bootId = ''b'', bo_name = None, bo_endpointId = None\<rparr> ''t''
       (createCatalog ''c1'' ''f1'' ''r'' ''e'' 1000)
   in length (generation c) = 1 \<and> controlEventsAfter 0 10 c = Inr (take 10 (drop 0 (generation c)))"
proof -
  let ?o = "\<lparr>bo_bootId = ''b'', bo_name = None, bo_endpointId = None\<rparr>"
  let ?c = "booted demo_env ?o ''t'' (createCatalog ''c1'' ''f1'' ''r'' ''e'' 1000)"
  have opened: "openCatalog demo_env ?o ''t'' (\<lambda>_. ''t'') (createCatalog ''c1'' ''f1'' ''r'' ''e'' 1000) = Inr ?c"
    by (rule first_boot) simp
  have "canReplayControlCursor 0 ?c" by (simp add: canReplayControlCursor_def booted_def createCatalog_def)
  from replay_matches_delivery [OF opened catalog_steps_refl this, of 10]
  show ?thesis by (simp add: generation_def booted_def boot_item_def createCatalog_def)
qed

end
