(* ===== verification/Demo_Run.thy ===== *)
theory Demo_Run
  imports Feed_Delivery
begin

text \<open>
  A concrete run: a node boots as the authority of its own realm, follows a parent, is forced to
  leave it and is promoted. It shows that the properties of whole runs are not vacuous.
\<close>

definition demo_opts :: boot_options where
  "demo_opts = \<lparr>bo_bootId = ''b'', bo_name = None, bo_endpointId = None\<rparr>"

definition demo_attachment :: attachment where
  "demo_attachment = \<lparr>at_attachmentId = ''a1'', at_lineageId = ''l1'', at_parent = ''c0'', at_child = ''c1'',
     at_authority = \<lparr>au_realmId = ''r0'', au_controlNodeId = ''c0'', au_epochId = ''e0''\<rparr>, at_attachedAt = ''t1''\<rparr>"

definition demo_audit :: transition_audit where
  "demo_audit = \<lparr>ta_actorId = ''p1'', ta_reason = ''lost'', ta_incidentId = None, ta_evidence = [], ta_requestedAt = ''t2''\<rparr>"

definition demo_force :: force_detach_input where
  "demo_force = \<lparr>fd_controlNodeId = ''c1'', fd_expectedAuthority = at_authority demo_attachment,
     fd_attachmentId = ''a1'', fd_lineageId = ''l1'', fd_audit = demo_audit\<rparr>"

definition demo_promotion :: promote_input where
  "demo_promotion = \<lparr>pi_controlNodeId = ''c1'', pi_expectedAuthority = at_authority demo_attachment,
     pi_detachmentTransitionId = ''x1'', pi_forcedDetachmentAudit = Some demo_audit\<rparr>"

definition demo_minted :: minted where
  "demo_minted = \<lparr>mi_realmId = ''r2'', mi_epochId = ''e2'', mi_feedId = ''f2'', mi_transitionId = ''x2''\<rparr>"

definition demo_boot :: catalog where
  "demo_boot = booted demo_env demo_opts ''t'' (createCatalog ''c1'' ''f1'' ''r'' ''e'' 9)"

lemma demo_opened:
  "openCatalog demo_env demo_opts ''t'' (\<lambda>_. ''t'') (createCatalog ''c1'' ''f1'' ''r'' ''e'' 9) = Inr demo_boot"
  unfolding demo_boot_def by (rule first_boot) simp



lemmas demo_defs = demo_boot_def booted_def boot_descriptor_def boot_item_def createCatalog_def demo_attachment_def
  demo_env_def demo_opts_def


definition demo_item :: "string \<Rightarrow> nat \<Rightarrow> data_role \<Rightarrow> control_change \<Rightarrow> feed_item" where
  "demo_item feed n r ch = \<lparr>fi_eventId = en_eventId demo_env feed n, fi_feedId = feed, fi_cursor = n, fi_origin = ''c1'',
     fi_authority = role_authority r, fi_change = ch\<rparr>"

definition demo_node :: control_node where
  "demo_node = boot_descriptor demo_opts ''t'' (createCatalog ''c1'' ''f1'' ''r'' ''e'' 9)"

definition demo_attached :: data_role where
  "demo_attached = attached_role ''c0'' demo_attachment"

definition demo_followed :: catalog where
  "demo_followed = (let n = demo_node\<lparr>cn_dataRole := demo_attached\<rparr>; i = demo_item ''f1'' 2 demo_attached (NodeUpsert n) in
     demo_boot\<lparr>ca_role := demo_attached,
       ca_transitions := [\<lparr>rt_transitionId = ''a1'', rt_kind = KAttached, rt_before = ca_role demo_boot,
         rt_after = demo_attached, rt_receipt = AttachReceipt demo_attachment, rt_committedAt = ''t1''\<rparr>],
       ca_controlNodes := [(''c1'', None, n)],
       ca_peers := [(''n0'', \<lparr>pe_role = ''parent-control-node'', pe_principalId = ''c0'', pe_scopes = []\<rparr>)],
       ca_lastCursor := 2, ca_events := ca_events demo_boot @ [i], ca_published := 2,
       ca_emitted := ca_emitted demo_boot @ [i]\<rparr>)"


lemmas demo_steps = follow_body_def leave_body_def promote_body_def enrollPeer_def appendRoleTransition_def
  rewriteSubtreeAuthority_def put_local_def announce_local_def localControlNode_def attached_role_def setRole_def
  listSessions_def records_def sort_le_def putControlNode_def controlNodeDescriptorSchema_def append_local_def
  appendControl_def getControlNode_def row_def setDesiredUpstream_def detached_role_def rotateControlFeed_def
  authorityPromotionReceiptSchema_def topologyDetachmentReceiptSchema_def

lemmas demo_states = demo_defs demo_attached_def demo_item_def demo_node_def authority_def attached_role_def feed_ok_def numeral_eq_Suc

lemma demo_follow: "applyParentAttachment demo_env demo_attachment ''n0'' ''t1'' (\<lambda>_. ''t1'') demo_boot = Inr demo_followed"
  by (simp add: applyParentAttachment_def demo_defs controlNodeAttachmentSchema_def coverage_def listControlNodes_def
      records_def Let_def, subst mutate_small, simp add: demo_steps demo_env_def)
    (simp_all add: demo_states demo_followed_def Let_def)

definition demo_left :: data_role where
  "demo_left = detached_role ''c0'' (at_authority demo_attachment) ''a1'' ''l1'' ''t1'' ''t2''"

definition demo_leaving :: detachment_receipt where
  "demo_leaving = \<lparr>dr_transitionId = ''x1'', dr_mode = Forced demo_audit [], dr_child = ''c1'', dr_formerParent = ''c0'',
     dr_attachmentId = ''a1'', dr_lineageId = ''l1'', dr_previousAuthority = at_authority demo_attachment, dr_detachedAt = ''t2''\<rparr>"

definition demo_detached :: catalog where
  "demo_detached = (let i = demo_item ''f1'' 3 demo_left (NodeDetached demo_leaving) in
     demo_followed\<lparr>ca_role := demo_left,
       ca_transitions := ca_transitions demo_followed @ [\<lparr>rt_transitionId = ''x1'', rt_kind = KForcedDetached,
         rt_before = demo_attached, rt_after = demo_left, rt_receipt = DetachReceipt demo_leaving, rt_committedAt = ''t2''\<rparr>],
       ca_upstreamInitialized := True, ca_desiredUpstream := None,
       ca_controlNodes := [(''c1'', None, demo_node\<lparr>cn_dataRole := demo_left\<rparr>)],
       ca_lastCursor := 3, ca_events := ca_events demo_followed @ [i], ca_published := 3,
       ca_emitted := ca_emitted demo_followed @ [i]\<rparr>)"

lemma demo_detach: "forceDetach demo_env demo_force ''x1'' ''t2'' ''t2'' (\<lambda>_. ''t2'') demo_followed = Inr (demo_leaving, demo_detached)"
proof -
  have ops: "listMetadataOperations None None (Some [MQueued]) 10000 demo_followed = Inr []"
    by (simp add: listMetadataOperations_def demo_followed_def demo_defs Let_def records_def sort_le_def)
  have role: "ca_role demo_followed = Branch (at_authority demo_attachment) (Attached ''c0'' ''a1'' ''l1'' ''t1'')"
     "ca_controlNodeId demo_followed = ''c1''"
    by (simp_all add: demo_followed_def Let_def demo_attached_def attached_role_def demo_defs)
  have "mutate (leave_body demo_env KForcedDetached demo_attached demo_left demo_leaving [] ''t2'' (\<lambda>_. ''t2'')) demo_followed =
    Inr demo_detached"
    by (subst mutate_small, simp add: demo_steps demo_followed_def demo_leaving_def Let_def demo_defs)
      (simp_all add: demo_states demo_detached_def demo_followed_def Let_def demo_left_def detached_role_def demo_leaving_def, simp_all)
  then show ?thesis
    by (simp add: forceDetach_def ops role Let_def demo_force_def assertAuthority_def authority_def demo_attached_def
      demo_attachment_def attached_role_def demo_left_def demo_leaving_def)
qed

definition demo_promoting :: promotion_receipt where
  "demo_promoting = \<lparr>pr_transitionId = ''x2'', pr_controlNodeId = ''c1'', pr_previousAuthority = at_authority demo_attachment,
     pr_authority = \<lparr>au_realmId = ''r2'', au_controlNodeId = ''c1'', au_epochId = ''e2''\<rparr>,
     pr_detachmentTransitionId = ''x1'', pr_promotedAt = ''t3'', pr_audit = Some demo_audit\<rparr>"

definition demo_promoted :: catalog where
  "demo_promoted = (let r = Authority (pr_authority demo_promoting);
       n = demo_node\<lparr>cn_feedId := ''f2'', cn_dataRole := r\<rparr>;
       is = [demo_item ''f2'' 1 r (AuthorityPromoted demo_promoting), demo_item ''f2'' 2 r (NodeUpsert n)]
     in demo_detached\<lparr>ca_feedId := ''f2'', ca_role := r,
       ca_transitions := ca_transitions demo_detached @ [\<lparr>rt_transitionId = ''x2'', rt_kind = KPromoted,
         rt_before = demo_left, rt_after = r, rt_receipt = PromoteReceipt demo_promoting, rt_committedAt = ''t3''\<rparr>],
       ca_controlNodes := [(''c1'', None, n)], ca_lastCursor := 2, ca_minCursor := 0, ca_events := is, ca_published := 2,
       ca_emitted := ca_emitted demo_detached @ is\<rparr>)"

lemmas demo_detached_defs = demo_detached_def demo_followed_def demo_left_def demo_leaving_def detached_role_def

lemma demo_promote: "promote demo_env demo_promotion demo_minted ''t3'' ''t3'' (\<lambda>_. ''t3'') demo_detached = Inr (demo_promoting, demo_promoted)"
proof -
  have role: "ca_role demo_detached = Branch (at_authority demo_attachment) (Detached ''c0'' ''a1'' ''l1'' ''t1'' ''t2'')"
     "ca_controlNodeId demo_detached = ''c1''"
    by (simp_all add: demo_detached_defs Let_def demo_defs)
  have found: "filter (\<lambda>r. rt_transitionId r = ''x1'') (ca_transitions demo_detached) =
     [\<lparr>rt_transitionId = ''x1'', rt_kind = KForcedDetached,
         rt_before = demo_attached, rt_after = ca_role demo_detached, rt_receipt = DetachReceipt demo_leaving, rt_committedAt = ''t2''\<rparr>]"
    by (simp add: demo_detached_defs Let_def demo_defs)
  have "mutate (promote_body demo_env demo_promoting ''f2'' demo_left ''t3'' (\<lambda>_. ''t3'')) demo_detached = Inr demo_promoted"
    by (subst mutate_small, simp add: demo_steps demo_detached_defs demo_promoting_def Let_def demo_defs)
      (simp_all add: demo_states demo_promoted_def demo_detached_defs demo_promoting_def Let_def, simp_all)
  then show ?thesis
    by (simp add: promote_def role found Let_def demo_promotion_def demo_minted_def assertAuthority_def authority_def
      demo_attachment_def demo_left_def detached_role_def demo_promoting_def)
qed

definition demo_reservation :: launch_record where
  "demo_reservation = \<lparr>lq_launchId = ''n1'', lq_payloadHash = ''h1'', lq_sessionId = ''s1'', lq_runtimeNodeId = ''rn1'',
     lq_profile = \<lparr>lp_profileId = ''p'', lp_providerId = ''pr'', lp_contractVersion = 1, lp_requestSchemaHash = ''q''\<rparr>,
     lq_harness = ''codex'', lq_input = [], lq_metadata = None, lr_implementationVersion = ''1'', lr_state = LAccepted,
     lr_result = None, lr_statusMessage = None, lr_error = None, lr_createdAt = ''t4'', lr_updatedAt = ''t4''\<rparr>"

definition demo_final :: catalog where
  "demo_final = (let i = demo_item ''f2'' 3 (ca_role demo_promoted) (LaunchChanged demo_reservation) in
     demo_promoted\<lparr>ca_launches := [(''n1'', None, demo_reservation)], ca_lastCursor := 3,
       ca_events := ca_events demo_promoted @ [i], ca_published := 3, ca_emitted := ca_emitted demo_promoted @ [i]\<rparr>)"

lemma demo_launched: "recordLaunch demo_env demo_reservation None demo_promoted = Inr (demo_reservation, demo_final)"
proof -
  have "getLaunch ''n1'' demo_promoted = None"
    by (simp add: getLaunch_def row_def demo_promoted_def demo_detached_defs Let_def demo_defs)
  moreover have "mutate (\<lambda>c. andThen (putLaunch demo_reservation None c) (append_local demo_env (LaunchChanged demo_reservation))) demo_promoted =
    Inr demo_final"
    by (subst mutate_small, simp add: demo_steps putLaunch_def launchRecordSchema_def demo_reservation_def demo_promoted_def
        demo_detached_defs demo_promoting_def Let_def demo_defs)
      (simp_all add: demo_states demo_final_def demo_promoted_def demo_reservation_def demo_detached_defs demo_promoting_def Let_def, (simp_all)?)
  ultimately show ?thesis by (simp add: recordLaunch_def launchRecordSchema_def demo_reservation_def)
qed

lemma demo_run: "catalog_steps demo_env demo_boot demo_final"
proof -
  have "fresh_feed (mi_feedId demo_minted) demo_detached"
    by (simp add: fresh_feed_def demo_minted_def demo_detached_defs demo_item_def Let_def demo_defs)
  then have "catalog_step demo_env demo_detached demo_promoted" by (rule catalog_step.promoted [OF demo_promote])
  with catalog_step.follow [OF demo_follow] catalog_step.force_detach [OF demo_detach] catalog_step.launched [OF demo_launched]
  show ?thesis by (meson catalog_steps_one catalog_steps_trans)
qed

lemma demo_log: "map rt_kind (ca_transitions demo_final) = [KAttached, KForcedDetached, KPromoted]"
  by (simp add: demo_final_def demo_promoted_def demo_detached_defs Let_def demo_defs)

end
