(* ===== verification/Catalog_Invariants.thy ===== *)
theory Catalog_Invariants
  imports Demo_Run
begin

text \<open>
  What every run of the catalog keeps: the rows stay filed under their own identifiers, valid and
  unique where the schema says so, and the log of role transitions accounts for the present role.
\<close>

subsection \<open>Rows\<close>

text \<open>Every row is filed under its identifier and valid, and no two rows agree in \<open>key\<close>.\<close>

definition table_ok ::
  "('r \<Rightarrow> string) \<Rightarrow> ('r \<Rightarrow> bool) \<Rightarrow> ('r \<Rightarrow> 'k) \<Rightarrow> (string, string option \<times> 'r) table \<Rightarrow> bool" where
  "table_ok ident valid key t \<longleftrightarrow> keys_ok t \<and> (\<forall>k r. row k t = Some r \<longrightarrow> ident r = k \<and> valid r) \<and>
     (\<forall>k k' r r'. row k t = Some r \<longrightarrow> row k' t = Some r' \<longrightarrow> key r = key r' \<longrightarrow> k = k')"

lemma table_ok_Nil: "table_ok ident valid key []"
  by (simp add: table_ok_def)

lemma map_of_filter_keys: "keys_ok t \<Longrightarrow> map_of (filter P t) k = Some v \<Longrightarrow> map_of t k = Some v"
  unfolding keys_ok_def
  by (metis filter_is_subset map_of_SomeD map_of_eq_Some_iff subset_code(1))

lemma keys_ok_filter: "keys_ok t \<Longrightarrow> keys_ok (filter P t)"
  unfolding keys_ok_def by (rule distinct_map_filter)

lemma row_filter: "keys_ok t \<Longrightarrow> row k (filter P t) = Some r \<Longrightarrow> row k t = Some r"
  using map_of_filter_keys by (fastforce simp: row_def)

lemma table_ok_filter: "table_ok ident valid key t \<Longrightarrow> table_ok ident valid key (filter P t)"
  unfolding table_ok_def by (meson keys_ok_filter row_filter)

lemma table_ok_put:
  assumes "table_ok ident valid key t" "valid r"
    and "\<And>k r'. row k t = Some r' \<Longrightarrow> key r' = key r \<Longrightarrow> k = ident r"
  shows "table_ok ident valid key (put (ident r) (p, r) t)"
  using assms unfolding table_ok_def by (auto split: if_splits)

lemma row_member: "row k t = Some r \<Longrightarrow> \<exists>kv \<in> set t. fst kv = k \<and> snd (snd kv) = r"
  by (force simp: row_cases dest: map_of_SomeD)

definition attachments_ok :: "(string, bool \<times> attachment) table \<Rightarrow> bool" where
  "attachments_ok t \<longleftrightarrow> keys_ok t \<and> (\<forall>k b a. map_of t k = Some (b, a) \<longrightarrow> at_attachmentId a = k) \<and>
     (\<forall>k k' a a'. map_of t k = Some (True, a) \<longrightarrow> map_of t k' = Some (True, a') \<longrightarrow> at_child a = at_child a' \<longrightarrow> k = k')"

definition rows_ok :: "catalog \<Rightarrow> bool" where
  "rows_ok c \<longleftrightarrow>
     table_ok cn_controlNodeId controlNodeDescriptorSchema cn_controlNodeId (ca_controlNodes c) \<and>
     table_ok rn_runtimeNodeId (\<lambda>_. True) rn_runtimeNodeId (ca_runtimeNodes c) \<and>
     table_ok se_sessionId sessionRecordSchema native_key (ca_sessions c) \<and>
     table_ok ir_interactionId (\<lambda>_. True) ir_interactionId (ca_interactions c) \<and>
     table_ok mo_operationId metadataOperationRecordSchema mo_operationId (ca_metadataOps c) \<and>
     table_ok lq_launchId launchRecordSchema lq_sessionId (ca_launches c) \<and>
     table_ok aq_archiveOperationId archiveRecordSchema aq_archiveOperationId (ca_archives c) \<and>
     attachments_ok (ca_attachments c)"

lemma table_ok_put_id:
  "table_ok ident valid ident t \<Longrightarrow> valid r \<Longrightarrow> table_ok ident valid ident (put (ident r) (p, r) t)"
  by (rule table_ok_put) (auto simp: table_ok_def)

lemma rows_ok_session:
  assumes "rows_ok c" "putSession s src c = Inr d"
  shows "rows_ok d"
proof -
  from assms(2) have s: "sessionRecordSchema s" "\<not> native_clash s c"
      and d: "d = c\<lparr>ca_sessions := put (se_sessionId s) (src, s) (ca_sessions c)\<rparr>"
    by (auto simp: putSession_Inr)
  have "table_ok se_sessionId sessionRecordSchema native_key (put (se_sessionId s) (src, s) (ca_sessions c))"
  proof (rule table_ok_put [where ident = se_sessionId])
    fix k r' assume "row k (ca_sessions c) = Some r'" "native_key r' = native_key s"
    with s(2) show "k = se_sessionId s"
      by (auto simp: native_clash_def list_ex_iff dest!: row_member)
  qed (use assms(1) s in \<open>simp_all add: rows_ok_def\<close>)
  with assms(1) show ?thesis by (simp add: rows_ok_def d)
qed

lemma rows_ok_launch:
  assumes "rows_ok c" "putLaunch l src c = Inr d"
  shows "rows_ok d"
proof -
  from assms(2) have l: "launchRecordSchema l"
      "\<not> list_ex (\<lambda>kv. lq_sessionId (snd (snd kv)) = lq_sessionId l \<and> fst kv \<noteq> lq_launchId l) (ca_launches c)"
      and d: "d = c\<lparr>ca_launches := put (lq_launchId l) (src, l) (ca_launches c)\<rparr>"
    by (auto simp: putLaunch_def split: if_splits)
  have "table_ok lq_launchId launchRecordSchema lq_sessionId (put (lq_launchId l) (src, l) (ca_launches c))"
  proof (rule table_ok_put [where ident = lq_launchId])
    fix k r' assume "row k (ca_launches c) = Some r'" "lq_sessionId r' = lq_sessionId l"
    with l(2) show "k = lq_launchId l"
      by (auto simp: list_ex_iff dest!: row_member)
  qed (use assms(1) l in \<open>simp_all add: rows_ok_def\<close>)
  with assms(1) show ?thesis by (simp add: rows_ok_def d)
qed

lemma getAttachment_None: "getAttachment child c = None \<Longrightarrow> map_of (ca_attachments c) k = Some (True, a) \<Longrightarrow> at_child a \<noteq> child"
  by (auto simp: getAttachment_def filter_empty_conv split: list.splits dest!: map_of_SomeD)

lemma rows_ok_attach:
  assumes "rows_ok c" "insertAttachment at c = Inr d"
  shows "rows_ok d"
proof -
  from assms(2) have free: "getAttachment (at_child at) c = None"
      and d: "d = c\<lparr>ca_attachments := put (at_attachmentId at) (True, at) (ca_attachments c)\<rparr>"
    by (auto simp: insertAttachment_def split: if_splits)
  have "attachments_ok (put (at_attachmentId at) (True, at) (ca_attachments c))"
    using assms(1) getAttachment_None [OF free] unfolding rows_ok_def attachments_ok_def
    by (auto split: if_splits) metis+
  with assms(1) show ?thesis by (simp add: rows_ok_def d)
qed

lemma side_write_records:
  assumes "side_write c d"
  shows "ca_controlNodes d = ca_controlNodes c" "ca_attachments d = ca_attachments c"
    "ca_runtimeNodes d = ca_runtimeNodes c" "ca_sessions d = ca_sessions c" "ca_interactions d = ca_interactions c"
    "ca_metadataOps d = ca_metadataOps c" "ca_launches d = ca_launches c" "ca_archives d = ca_archives c"
  using assms by (cases c; cases d; simp add: side_write_def)+

interpretation row_writes: feed_blind_writes "\<lambda>c d. rows_ok c \<longrightarrow> rows_ok d"
proof unfold_locales
  fix c d assume "side_write c d"
  then show "rows_ok c \<longrightarrow> rows_ok d" by (simp add: rows_ok_def side_write_records)
next
  show "rows_ok c \<longrightarrow> rows_ok d" if "putSession s src c = Inr d" for s src c d
    using rows_ok_session that by blast
  show "rows_ok c \<longrightarrow> rows_ok d" if "putLaunch l src c = Inr d" for l src c d
    using rows_ok_launch that by blast
  show "rows_ok c \<longrightarrow> rows_ok d" if "insertAttachment at c = Inr d" for at c d
    using rows_ok_attach that by blast
  show "rows_ok c \<longrightarrow> rows_ok d" if "putControlNode n src c = Inr d" for n src c d
    using that by (auto simp: putControlNode_def rows_ok_def table_ok_put_id split: if_splits)
  show "rows_ok c \<longrightarrow> rows_ok d" if "putArchive av src c = Inr d" for av src c d
    using that by (auto simp: putArchive_def rows_ok_def table_ok_put_id split: if_splits)
  show "rows_ok c \<longrightarrow> rows_ok d" if "putMetadataOperation mo src c = Inr d" for mo src c d
    using that by (auto simp: putMetadataOperation_def rows_ok_def table_ok_put_id split: if_splits)
  show "rows_ok c \<longrightarrow> rows_ok (c\<lparr>ca_attachments := put (at_attachmentId at) (False, at) (ca_attachments c)\<rparr>)" for c at
    by (auto simp: rows_ok_def attachments_ok_def split: if_splits)
  show "rows_ok c \<longrightarrow> rows_ok d" if "appendControl e ch og ev c = Inr d" for e ch og ev c d
    using that by (auto simp: appendControl_def Let_def rows_ok_def split: if_splits)
  show "rows_ok c \<longrightarrow> rows_ok d"
    if "appendRoleTransition kind (ca_role c) after receipt tid t (setRole after c) = Inr d" for kind after receipt tid t c d
    using that by (auto simp: appendRoleTransition_def setRole_def rows_ok_def split: if_splits)
qed (auto simp: rows_ok_def putRuntimeNode_def putInteraction_def putCommand_def dropProjection_def clear_projection_def
    rotateControlFeed_def intro: table_ok_put_id table_ok_filter)

lemma rows_ok_core: "core c = core d \<Longrightarrow> rows_ok c \<longleftrightarrow> rows_ok d"
  by (simp add: rows_ok_def core_fields [of c d])

lemma core_compact: "compactControlEvents n c = Inr d \<Longrightarrow> core d = core c"
  by (auto simp: compactControlEvents_def core_def split: if_splits)

interpretation rows: catalog_commits "\<lambda>c d. rows_ok c \<longrightarrow> rows_ok d" "\<lambda>c d. rows_ok c \<longrightarrow> rows_ok d"
proof unfold_locales
  have commit: "rows_ok c \<longrightarrow> rows_ok d" if m: "mutate body c = Inr d" and ok: "row_writes.ok c (body c)" for body c d
  proof -
    from mutate_Inr [OF m] obtain b where b: "body c = Inr b" "core d = core b" by blast
    from ok b(1) show ?thesis unfolding rows_ok_core [OF b(2)] by (simp add: row_writes.ok_def)
  qed
  show "rows_ok c \<longrightarrow> rows_ok d" if "mutate body c = Inr d" "row_writes.ok c (body c)" for body c d
    using that by (rule commit)
  show "rows_ok c \<longrightarrow> rows_ok d" if "promote e pi mi t t' ts c = Inr (x, d)" for e pi mi t t' ts c x d
    using row_writes.promotion_body [OF that] commit by blast
  show "rows_ok c \<longrightarrow> rows_ok d" if "compactControlEvents n c = Inr d" for n c d
    using rows_ok_core [OF core_compact [OF that]] by simp
  show "rows_ok c \<longrightarrow> rows_ok d" if "side_write c d" for c d
    using that by (rule row_writes.Q_side)
qed auto

subsection \<open>Roles\<close>

fun role_chain :: "string \<Rightarrow> data_role \<Rightarrow> role_transition list \<Rightarrow> data_role \<Rightarrow> bool" where
  "role_chain self r [] s \<longleftrightarrow> s = r"
| "role_chain self r (x # xs) s \<longleftrightarrow>
     rt_before x = r \<and> legal_transition self (rt_kind x) r (rt_after x) \<and> role_chain self (rt_after x) xs s"

lemma role_chain_append:
  "role_chain self r xs s \<Longrightarrow> role_chain self s ys u \<Longrightarrow> role_chain self r (xs @ ys) u"
  by (induction xs arbitrary: r) auto

definition role_follows :: "catalog \<Rightarrow> catalog \<Rightarrow> bool" where
  "role_follows c d \<longleftrightarrow> ca_controlNodeId d = ca_controlNodeId c \<and>
     (\<exists>xs. ca_transitions d = ca_transitions c @ xs \<and> role_chain (ca_controlNodeId c) (ca_role c) xs (ca_role d)) \<and>
     (distinct (map rt_transitionId (ca_transitions c)) \<longrightarrow> distinct (map rt_transitionId (ca_transitions d)))"

lemma role_follows_same:
  "ca_controlNodeId d = ca_controlNodeId c \<Longrightarrow> ca_transitions d = ca_transitions c \<Longrightarrow> ca_role d = ca_role c \<Longrightarrow> role_follows c d"
  by (simp add: role_follows_def)

lemma role_follows_trans:
  assumes "role_follows a b" "role_follows b c"
  shows "role_follows a c"
proof -
  from assms obtain xs ys where x: "ca_transitions b = ca_transitions a @ xs" "role_chain (ca_controlNodeId a) (ca_role a) xs (ca_role b)"
    and y: "ca_transitions c = ca_transitions b @ ys" "role_chain (ca_controlNodeId b) (ca_role b) ys (ca_role c)"
    by (auto simp: role_follows_def)
  moreover from assms have "ca_controlNodeId b = ca_controlNodeId a" by (simp add: role_follows_def)
  ultimately have "ca_transitions c = ca_transitions a @ (xs @ ys)" "role_chain (ca_controlNodeId a) (ca_role a) (xs @ ys) (ca_role c)"
    using role_chain_append by simp_all
  with assms show ?thesis unfolding role_follows_def by metis
qed

lemma role_follows_transition:
  assumes "legal_transition (ca_controlNodeId c) kind (ca_role c) after"
    and "appendRoleTransition kind (ca_role c) after receipt tid t (setRole after c) = Inr d"
  shows "role_follows c d"
  using assms by (auto simp: appendRoleTransition_def setRole_def role_follows_def list_ex_iff split: if_splits)

interpretation role_writes: feed_blind_writes role_follows
proof unfold_locales
  show "role_follows c d" if "side_write c d" for c d
    by (rule role_follows_same) (use side_write_fields [OF that] in simp_all)
qed (auto simp: putControlNode_def putRuntimeNode_def putSession_def putLaunch_def putArchive_def putInteraction_def
    putMetadataOperation_def putCommand_def appendControl_def insertAttachment_def Let_def
    dropProjection_def clear_projection_def rotateControlFeed_def split: if_splits
    intro: role_follows_same role_follows_trans role_follows_transition)

interpretation roles: catalog_commits role_follows role_follows
proof unfold_locales
  have core: "role_follows c b \<Longrightarrow> core d = core b \<Longrightarrow> role_follows c d" for b c d
    by (simp add: role_follows_def core_fields [of d b])
  have commit: "role_follows c d" if m: "mutate body c = Inr d" and ok: "role_writes.ok c (body c)" for body c d
  proof -
    from mutate_Inr [OF m] obtain b where b: "body c = Inr b" "core d = core b" by blast
    from ok b(1) have "role_follows c b" by (simp add: role_writes.ok_def)
    from core [OF this b(2)] show ?thesis .
  qed
  show "role_follows c d" if "mutate body c = Inr d" "role_writes.ok c (body c)" for body c d
    using that by (rule commit)
  show "role_follows c d" if "promote e pi mi t t' ts c = Inr (x, d)" for e pi mi t t' ts c x d
    using role_writes.promotion_body [OF that] commit by blast
  show "role_follows c d" if "compactControlEvents n c = Inr d" for n c d
    using core [OF role_writes.Q_refl core_compact [OF that]] .
  show "role_follows c d" if "side_write c d" for c d
    using that by (rule role_writes.Q_side)
  show "role_follows c c" for c by (rule role_writes.Q_refl)
  show "role_follows a c" if "role_follows a b" "role_follows b c" for a b c
    using that by (rule role_follows_trans)
qed

subsection \<open>Properties of every run\<close>

lemma created_again [simp]:
  "(createCatalog node feedId realm epoch retention)\<lparr>ca_published := 0, ca_emitted := []\<rparr> =
   createCatalog node feedId realm epoch retention"
  by (simp add: createCatalog_def)

lemma rows_of_run:
  assumes "openCatalog e opts t tr (createCatalog node feedId realm epoch retention) = Inr c0" "catalog_steps e c0 c"
  shows "rows_ok c"
proof -
  have "rows_ok (createCatalog node feedId realm epoch retention)"
    by (simp add: createCatalog_def rows_ok_def table_ok_Nil attachments_ok_def)
  with rows.open_R [OF assms(1)] have "rows_ok c0" by (auto simp: rows_ok_def)
  with rows.steps_R [OF assms(2)] show ?thesis by blast
qed

lemma roles_of_run:
  assumes "openCatalog e opts t tr (createCatalog node feedId realm epoch retention) = Inr c0" "catalog_steps e c0 c"
  shows "role_chain node (Authority \<lparr>au_realmId = realm, au_controlNodeId = node, au_epochId = epoch\<rparr>)
      (ca_transitions c) (ca_role c) \<and> distinct (map rt_transitionId (ca_transitions c)) \<and> ca_controlNodeId c = node"
proof -
  from roles.open_R [OF assms(1)] have "role_follows (createCatalog node feedId realm epoch retention) c0"
    by (auto simp: role_follows_def)
  from role_follows_trans [OF this roles.steps_R [OF assms(2)]] show ?thesis
    by (simp add: role_follows_def createCatalog_def)
qed

lemma promoted_after_detachment:
  "role_chain self r xs s \<Longrightarrow> i < length xs \<Longrightarrow> rt_kind (xs ! i) = KPromoted \<Longrightarrow>
   (i = 0 \<and> (\<exists>a p k l t d. r = Branch a (Detached p k l t d))) \<or>
   (0 < i \<and> rt_kind (xs ! (i - 1)) \<in> {KDetached, KForcedDetached} \<and> rt_after (xs ! (i - 1)) = rt_before (xs ! i))"
proof (induction xs arbitrary: r i)
  case (Cons x xs)
  show ?case
  proof (cases i)
    case 0
    with Cons.prems show ?thesis
      by (auto simp: legal_transition_def split: data_role.splits branch_state.splits)
  next
    case (Suc j)
    with Cons.prems have chain: "role_chain self (rt_after x) xs s" and j: "j < length xs" "rt_kind (xs ! j) = KPromoted"
      and legal: "legal_transition self (rt_kind x) (rt_before x) (rt_after x)" by auto
    from Cons.IH [OF chain j] show ?thesis
    proof
      assume first: "j = 0 \<and> (\<exists>a p k l t d. rt_after x = Branch a (Detached p k l t d))"
      with legal have "rt_kind x \<in> {KDetached, KForcedDetached}"
        by (cases "rt_kind x") (auto simp: legal_transition_def split: data_role.splits branch_state.splits)
      moreover have "rt_before (xs ! 0) = rt_after x" using chain j first by (cases xs) auto
      ultimately show ?thesis using first Suc by simp
    qed (use Suc in auto)
  qed
qed simp



text \<open>C11: the durable log of role transitions accounts for the role. From the first boot on, every
  entry starts from the role the previous one ended with and is a legal transition (attaching a node
  that has no parent to another one, leaving that very parent, or promoting a detached branch to an
  authority of its own with a new realm and epoch), the last one ends with the present role, and no
  transition ID repeats.\<close>

theorem role_log_accounts_for_role:
  assumes "openCatalog e opts t tr (createCatalog node feedId realm epoch retention) = Inr c0"
    and "catalog_steps e c0 c"
  shows "role_chain node (Authority \<lparr>au_realmId = realm, au_controlNodeId = node, au_epochId = epoch\<rparr>)
      (ca_transitions c) (ca_role c) \<and> distinct (map rt_transitionId (ca_transitions c))"
  using roles_of_run [OF assms] by blast

theorem role_log_accounts_for_role_witness:
  "map rt_kind (ca_transitions demo_final) = [KAttached, KForcedDetached, KPromoted] \<and>
    role_chain ''c1'' (Authority \<lparr>au_realmId = ''r'', au_controlNodeId = ''c1'', au_epochId = ''e''\<rparr>)
      (ca_transitions demo_final) (ca_role demo_final)"
  using role_log_accounts_for_role [OF demo_opened demo_run] demo_log by blast

text \<open>C15: no promotion without a committed detachment. In the log of every run each promotion is
  directly preceded by the detachment (graceful or forced) whose outcome it promotes.\<close>

theorem promotion_follows_detachment:
  assumes "openCatalog e opts t tr (createCatalog node feedId realm epoch retention) = Inr c0"
    and "catalog_steps e c0 c"
    and "i < length (ca_transitions c)" and "rt_kind (ca_transitions c ! i) = KPromoted"
  shows "0 < i \<and> rt_kind (ca_transitions c ! (i - 1)) \<in> {KDetached, KForcedDetached} \<and>
    rt_after (ca_transitions c ! (i - 1)) = rt_before (ca_transitions c ! i)"
  using promoted_after_detachment [OF conjunct1 [OF roles_of_run [OF assms(1,2)]] assms(3,4)] by auto

theorem promotion_follows_detachment_witness:
  "rt_kind (ca_transitions demo_final ! 1) = KForcedDetached \<and>
   rt_after (ca_transitions demo_final ! 1) = rt_before (ca_transitions demo_final ! 2)"
proof -
  have "length (ca_transitions demo_final) = 3" using arg_cong [OF demo_log, of length] by simp
  with demo_log have "2 < length (ca_transitions demo_final)" "rt_kind (ca_transitions demo_final ! 2) = KPromoted"
    "rt_kind (ca_transitions demo_final ! 1) = KForcedDetached"
    by (simp_all flip: nth_map)
  with promotion_follows_detachment [OF demo_opened demo_run, of 2] show ?thesis by simp
qed

end
