(* ===== verification/Mailbox.thy ===== *)
theory Mailbox
  imports Prelude "HOL-Library.Sublist"
begin

text \<open>
  The bounded queues between a publisher and one subscriber: \<open>BoundedQueue\<close> of
  \<^verbatim>\<open>packages/control-node-core/src/event-hub.ts\<close> and \<open>AsyncQueue\<close> of
  \<^verbatim>\<open>packages/runtime-node-core/src/event-hub.ts\<close>. A call of \<open>next()\<close> gets its answer at once or
  waits for it; \<open>mq_answers\<close> lists the answers in the order of the calls. The two differ in what
  becomes of the buffered items when the queue closes.
\<close>

subsection \<open>Operations\<close>

datatype 'a answer = Item 'a | Done | Overflow nat

record 'a mail_queue =
  mq_capacity :: nat
  mq_values :: "'a list"
  mq_waiters :: nat
  mq_closed :: bool
  mq_failure :: "nat option"
  mq_answers :: "'a answer list"

definition new_queue :: "nat \<Rightarrow> 'a mail_queue" where
  "new_queue capacity = \<lparr>mq_capacity = capacity, mq_values = [], mq_waiters = 0, mq_closed = False,
     mq_failure = None, mq_answers = []\<rparr>"

text \<open>What a closed queue answers: the failure it was closed with, or the end of the iteration.\<close>

definition final_answer :: "nat option \<Rightarrow> 'a answer" where
  "final_answer failure = (case failure of Some capacity \<Rightarrow> Overflow capacity | None \<Rightarrow> Done)"

definition queue_next :: "'a mail_queue \<Rightarrow> 'a mail_queue" where
  "queue_next q =
     (case mq_values q of
        v # vs \<Rightarrow> q\<lparr>mq_values := vs, mq_answers := mq_answers q @ [Item v]\<rparr>
      | [] \<Rightarrow>
          if mq_closed q then q\<lparr>mq_answers := mq_answers q @ [final_answer (mq_failure q)]\<rparr>
          else q\<lparr>mq_waiters := Suc (mq_waiters q)\<rparr>)"

definition bounded_close :: "nat option \<Rightarrow> 'a mail_queue \<Rightarrow> 'a mail_queue" where
  "bounded_close cause q =
     (if mq_closed q then q
      else q\<lparr>mq_closed := True, mq_failure := cause, mq_values := [], mq_waiters := 0,
        mq_answers := mq_answers q @ replicate (mq_waiters q) (final_answer cause)\<rparr>)"

definition async_close :: "nat option \<Rightarrow> 'a mail_queue \<Rightarrow> 'a mail_queue" where
  "async_close cause q =
     (if mq_closed q then q
      else q\<lparr>mq_closed := True, mq_failure := cause, mq_waiters := 0,
        mq_answers := mq_answers q @ replicate (mq_waiters q) (final_answer cause)\<rparr>)"

definition queue_push ::
  "(nat option \<Rightarrow> 'a mail_queue \<Rightarrow> 'a mail_queue) \<Rightarrow> 'a \<Rightarrow> 'a mail_queue \<Rightarrow> 'a mail_queue" where
  "queue_push shut v q =
     (if mq_closed q then q
      else if 0 < mq_waiters q then q\<lparr>mq_waiters := mq_waiters q - 1, mq_answers := mq_answers q @ [Item v]\<rparr>
      else if mq_capacity q \<le> length (mq_values q) then shut (Some (mq_capacity q)) q
      else q\<lparr>mq_values := mq_values q @ [v]\<rparr>)"

definition bounded_push :: "'a \<Rightarrow> 'a mail_queue \<Rightarrow> 'a mail_queue" where
  "bounded_push = queue_push bounded_close"

definition async_push :: "'a \<Rightarrow> 'a mail_queue \<Rightarrow> 'a mail_queue" where
  "async_push = queue_push async_close"

subsection \<open>The contract of a mailbox\<close>

fun answer_items :: "'a answer list \<Rightarrow> 'a list" where
  "answer_items [] = []"
| "answer_items (Item v # as) = v # answer_items as"
| "answer_items (_ # as) = answer_items as"

lemma answer_items_append [simp]: "answer_items (as @ bs) = answer_items as @ answer_items bs"
  by (induction as rule: answer_items.induct) auto

lemma answer_items_final [simp]:
  "answer_items (replicate n Done) = []" "answer_items (replicate n (Overflow k)) = []"
  "answer_items (replicate n (final_answer f)) = []"
  by (induction n) (cases f; simp add: final_answer_def)+

definition taken :: "'a mail_queue \<Rightarrow> 'a list" where
  "taken q = answer_items (mq_answers q)"

text \<open>Nobody waits while something is buffered.\<close>

definition queue_ok :: "'a mail_queue \<Rightarrow> bool" where
  "queue_ok q \<longleftrightarrow> (mq_values q \<noteq> [] \<longrightarrow> mq_waiters q = 0) \<and> (mq_closed q \<longrightarrow> mq_waiters q = 0) \<and>
     length (mq_values q) \<le> mq_capacity q"

locale mailbox =
  fixes push :: "'a \<Rightarrow> 'q \<Rightarrow> 'q"
    and close :: "nat option \<Rightarrow> 'q \<Rightarrow> 'q"
    and pull :: "'q \<Rightarrow> 'q"
    and received :: "'q \<Rightarrow> 'a list"
    and held :: "'q \<Rightarrow> 'a list"
    and ended :: "'q \<Rightarrow> bool"
    and okay :: "'q \<Rightarrow> bool"
  assumes ok_push: "okay q \<Longrightarrow> okay (push v q)"
    and ok_close: "okay q \<Longrightarrow> okay (close r q)"
    and ok_pull: "okay q \<Longrightarrow> okay (pull q)"
    and push_open: "okay q \<Longrightarrow> \<not> ended (push v q) \<Longrightarrow>
      received (push v q) @ held (push v q) = received q @ held q @ [v]"
    and push_ended: "ended q \<Longrightarrow> push v q = q"
    and push_prefix: "okay q \<Longrightarrow> ended (push v q) \<Longrightarrow>
      prefix (received (push v q) @ held (push v q)) (received q @ held q)"
    and close_ends: "ended (close r q)"
    and close_prefix: "okay q \<Longrightarrow> prefix (received (close r q) @ held (close r q)) (received q @ held q)"
    and pull_keeps: "okay q \<Longrightarrow> received (pull q) @ held (pull q) = received q @ held q"
    and pull_open: "ended (pull q) \<longleftrightarrow> ended q"
begin

text \<open>However pushes, pulls and closes interleave, the subscriber receives the pushed items in
  order, none twice and none left out before the last one it gets; while the mailbox is open, all of
  them are received or still held.\<close>

definition step :: "('a + nat option + unit) \<Rightarrow> 'q \<Rightarrow> 'q" where
  "step x q = (case x of Inl v \<Rightarrow> push v q | Inr (Inl r) \<Rightarrow> close r q | Inr (Inr u) \<Rightarrow> pull q)"

definition pushed :: "('a + nat option + unit) list \<Rightarrow> 'a list" where
  "pushed ops = List.map_filter (\<lambda>x. case x of Inl v \<Rightarrow> Some v | _ \<Rightarrow> None) ops"

definition faithful :: "'a list \<Rightarrow> 'q \<Rightarrow> bool" where
  "faithful vs q \<longleftrightarrow> okay q \<and> prefix (received q @ held q) vs \<and> (\<not> ended q \<longrightarrow> received q @ held q = vs)"

lemma faithful_push: "faithful vs q \<Longrightarrow> faithful (vs @ [v]) (push v q)"
proof (cases "ended (push v q)")
  case True
  assume h: "faithful vs q"
  then have "prefix (received (push v q) @ held (push v q)) (received q @ held q)"
    using push_prefix True by (simp add: faithful_def)
  with h True show ?thesis
    unfolding faithful_def by (meson ok_push prefix_order.trans prefix_prefix)
next
  case False
  assume h: "faithful vs q"
  with False have "\<not> ended q" using push_ended by metis
  with h False show ?thesis by (simp add: faithful_def ok_push push_open)
qed

lemma faithful_close: "faithful vs q \<Longrightarrow> faithful vs (close r q)"
  unfolding faithful_def using close_prefix ok_close close_ends by (meson prefix_order.trans)

lemma faithful_pull: "faithful vs q \<Longrightarrow> faithful vs (pull q)"
  unfolding faithful_def by (simp add: ok_pull pull_keeps pull_open)

lemma pushed_simps [simp]:
  "pushed [] = []" "pushed (Inl v # ops) = v # pushed ops" "pushed (Inr x # ops) = pushed ops"
  by (simp_all add: pushed_def map_filter_simps)

lemma faithful_run: "faithful vs q \<Longrightarrow> faithful (vs @ pushed ops) (fold step ops q)"
proof (induction ops arbitrary: vs q)
  case (Cons x ops)
  show ?case
  proof (cases x)
    case (Inl v)
    with Cons.IH [OF faithful_push [OF Cons.prems, of v]] show ?thesis by (simp add: step_def)
  next
    case (Inr y)
    with Cons.IH [of vs "step x q"] Cons.prems show ?thesis
      by (auto simp: step_def faithful_close faithful_pull split: sum.splits)
  qed
qed simp

end

lemmas queue_defs = queue_push_def queue_next_def final_answer_def queue_ok_def taken_def

interpretation bounded: mailbox bounded_push bounded_close queue_next taken mq_values mq_closed queue_ok
  by unfold_locales
    (auto simp: bounded_push_def bounded_close_def queue_defs split: list.splits option.splits if_splits)

interpretation async: mailbox async_push async_close queue_next taken mq_values mq_closed queue_ok
  by unfold_locales
    (auto simp: async_push_def async_close_def queue_defs split: list.splits option.splits if_splits)

lemma new_queue_ok [simp]: "queue_ok (new_queue n)" "taken (new_queue n) = []" "mq_values (new_queue n) = []"
  "\<not> mq_closed (new_queue n)"
  by (simp_all add: new_queue_def queue_ok_def taken_def)

lemma new_bounded_faithful: "bounded.faithful [] (new_queue n)"
  by (simp add: bounded.faithful_def)

lemma new_async_faithful: "async.faithful [] (new_queue n)"
  by (simp add: async.faithful_def)

end
