(* ===== verification/Event_Hub.thy ===== *)
theory Event_Hub
  imports Mailbox Control_Runtime
begin

text \<open>
  Live delivery at a control node (\<^verbatim>\<open>packages/control-node-core/src/event-hub.ts\<close>): the bounded
  rings of native events, the mailbox of every subscriber, and a subscription, which first replays
  what is on record and then hands on what its mailbox receives.
\<close>

subsection \<open>Stream items\<close>

record provenance =
  pv_origin :: string
  pv_authority :: authority_ref

record runtime_native =
  nv_sessionId :: string
  nv_harness :: string
  nv_runtimeEpoch :: string
  nv_sequence :: nat
  nv_nativeType :: string
  nv_payload :: json
  nv_ephemeral :: bool

record native_event = runtime_native +
  nv_provenance :: provenance

datatype reset_reason =
  FeedChanged | CursorExpired | TopologyChanged | AuthorityChanged | SourceSelectionChanged | SourceConflict

datatype access_item =
    AControl feed_item
  | ANative native_event
  | AGap string string provenance
  | ABeat string nat "authority_ref list"
  | AReset "string option" string nat "authority_ref list" reset_reason

datatype runtime_change =
    RSession session
  | RInteraction interaction_record
  | RLaunch launch_record
  | RArchive archive_record

datatype runtime_item =
    RControl runtime_change
  | RNative runtime_native
  | RGap string string
  | RBeat

text \<open>Authority keys are made of UUIDs, whose order as UTF-16 text is the order of their bytes.\<close>

definition authorityKey :: "authority_ref \<Rightarrow> string" where
  "authorityKey a = au_realmId a @ [CHR 0x00] @ au_controlNodeId a @ [CHR 0x00] @ au_epochId a"

definition streamAuthorityRefsSchema :: "authority_ref list \<Rightarrow> bool" where
  "streamAuthorityRefsSchema refs \<longleftrightarrow> distinct (map authorityKey refs) \<and> sorted (map authorityKey refs)"

fun accessStreamItemSchema :: "access_item \<Rightarrow> bool" where
  "accessStreamItemSchema (AControl i) = controlChangeSchema (fi_change i)"
| "accessStreamItemSchema (ANative n) = (nv_nativeType n \<noteq> [])"
| "accessStreamItemSchema (AGap sid reason p) = True"
| "accessStreamItemSchema (ABeat feed cursor refs) = streamAuthorityRefsSchema refs"
| "accessStreamItemSchema (AReset prev feed cursor refs reason) = streamAuthorityRefsSchema refs"

record native_position =
  np_runtimeEpoch :: string
  np_sequence :: nat

record stream_cursor =
  sc_feedId :: string
  sc_controlCursor :: nat
  sc_native :: "(string, native_position) table"

subsection \<open>The hub\<close>

record hub_listener =
  hl_queue :: "access_item mail_queue"
  hl_sessions :: "string list option"
  hl_includeNative :: bool

text \<open>
  A listener leaves the set exactly when its queue closes, and a closed queue ignores what is pushed,
  so the list keeps it; its position is the subscriber's handle.
\<close>

record event_hub =
  hb_ringSize :: nat
  hb_buffer :: nat
  hb_rings :: "(string, native_event list) table"
  hb_seen :: "(string, native_position) table"
  hb_listeners :: "hub_listener list"

definition newEventHub :: "nat \<Rightarrow> nat \<Rightarrow> nat \<Rightarrow> core_error + event_hub" where
  "newEventHub ringSize heartbeatMs buffer =
     (if ringSize < 1 \<or> heartbeatMs < 1 \<or> buffer < 1 then Inl RANGE_ERROR
      else Inr \<lparr>hb_ringSize = ringSize, hb_buffer = buffer, hb_rings = [], hb_seen = [], hb_listeners = []\<rparr>)"

definition change_session :: "control_change \<Rightarrow> string option" where
  "change_session ch =
     (case ch of
        SessionUpsert s \<Rightarrow> Some (se_sessionId s)
      | SessionUnavailable k \<Rightarrow> Some k
      | MetadataChanged k m \<Rightarrow> Some k
      | MetadataOperation mo \<Rightarrow> Some (mo_sessionId mo)
      | InteractionChanged i \<Rightarrow> Some (ir_sessionId i)
      | CommandChanged r \<Rightarrow> cr_sessionId r
      | _ \<Rightarrow> None)"

definition selected :: "access_item \<Rightarrow> string list option \<Rightarrow> bool \<Rightarrow> bool" where
  "selected item sessions includeNative =
     (case item of
        ANative n \<Rightarrow> includeNative \<and> (case sessions of None \<Rightarrow> True | Some ks \<Rightarrow> nv_sessionId n \<in> set ks)
      | AGap k reason p \<Rightarrow> includeNative \<and> (case sessions of None \<Rightarrow> True | Some ks \<Rightarrow> k \<in> set ks)
      | AControl i \<Rightarrow> (case sessions of None \<Rightarrow> True
          | Some ks \<Rightarrow> (case change_session (fi_change i) of None \<Rightarrow> False | Some k \<Rightarrow> k \<in> set ks))
      | _ \<Rightarrow> True)"

definition generation_boundary :: "access_item \<Rightarrow> bool" where
  "generation_boundary item =
     (case item of AControl i \<Rightarrow> (case fi_change i of AuthorityPromoted r \<Rightarrow> True | _ \<Rightarrow> False) | _ \<Rightarrow> False)"

definition offer :: "access_item \<Rightarrow> hub_listener \<Rightarrow> hub_listener" where
  "offer item l =
     (if generation_boundary item \<or> selected item (hl_sessions l) (hl_includeNative l)
      then l\<lparr>hl_queue := bounded_push item (hl_queue l)\<rparr> else l)"

definition broadcast :: "access_item \<Rightarrow> event_hub \<Rightarrow> event_hub" where
  "broadcast item h = h\<lparr>hb_listeners := map (offer item) (hb_listeners h)\<rparr>"

definition forgetNativeSession :: "string \<Rightarrow> event_hub \<Rightarrow> event_hub" where
  "forgetNativeSession k h = h\<lparr>hb_seen := del k (hb_seen h), hb_rings := del k (hb_rings h)\<rparr>"

text \<open>The hub's listener on the catalog.\<close>

definition hub_onControl :: "feed_item \<Rightarrow> event_hub \<Rightarrow> event_hub" where
  "hub_onControl i h =
     broadcast (AControl i)
       (case fi_change i of
          SessionUpsert s \<Rightarrow>
            (case map_of (hb_seen h) (se_sessionId s) of
               Some p \<Rightarrow> if Some (np_runtimeEpoch p) \<noteq> se_runtimeEpoch s then forgetNativeSession (se_sessionId s) h else h
             | None \<Rightarrow> h)
        | _ \<Rightarrow> h)"

definition record_native :: "native_event \<Rightarrow> event_hub \<Rightarrow> event_hub" where
  "record_native n h =
     (let k = nv_sessionId n;
          ring = (case map_of (hb_rings h) k of Some r \<Rightarrow> r | None \<Rightarrow> [])
      in h\<lparr>hb_rings := put k (ring_push (hb_ringSize h) ring n) (hb_rings h),
          hb_seen := put k \<lparr>np_runtimeEpoch = nv_runtimeEpoch n, np_sequence = nv_sequence n\<rparr> (hb_seen h)\<rparr>)"

definition hub_publish :: "access_item \<Rightarrow> event_hub \<Rightarrow> core_error + event_hub" where
  "hub_publish item h =
     (if \<not> accessStreamItemSchema item then Inl INVALID
      else case item of
        ANative n \<Rightarrow>
          (case map_of (hb_seen h) (nv_sessionId n) of
             Some p \<Rightarrow>
               if np_runtimeEpoch p = nv_runtimeEpoch n \<and> nv_sequence n \<le> np_sequence p then Inr h
               else if np_runtimeEpoch p \<noteq> nv_runtimeEpoch n
               then Inr (broadcast item (record_native n (forgetNativeSession (nv_sessionId n) h)))
               else Inr (broadcast item (record_native n h))
           | None \<Rightarrow> Inr (broadcast item (record_native n h)))
      | _ \<Rightarrow> Inr (broadcast item h))"

definition publish_local :: "catalog \<Rightarrow> (provenance \<Rightarrow> access_item) \<Rightarrow> event_hub \<Rightarrow> core_error + access_item option \<times> event_hub" where
  "publish_local c item h =
     (case localControlNode c of
        Inl err \<Rightarrow> Inl err
      | Inr local \<Rightarrow>
          let canonical = item \<lparr>pv_origin = cn_controlNodeId local, pv_authority = authority c\<rparr> in
          (case hub_publish canonical h of Inl err \<Rightarrow> Inl err | Inr h' \<Rightarrow> Inr (Some canonical, h')))"

definition publishRuntimeItem :: "catalog \<Rightarrow> runtime_item \<Rightarrow> event_hub \<Rightarrow> core_error + access_item option \<times> event_hub" where
  "publishRuntimeItem c item h =
     (case item of
        RBeat \<Rightarrow> Inr (None, h)
      | RControl ch \<Rightarrow> Inr (None, h)
      | RNative n \<Rightarrow> publish_local c (\<lambda>p. ANative (runtime_native.extend n (native_event.fields p))) h
      | RGap k reason \<Rightarrow> publish_local c (AGap k reason) h)"

definition on_queue :: "(access_item mail_queue \<Rightarrow> access_item mail_queue) \<Rightarrow> nat \<Rightarrow> event_hub \<Rightarrow> event_hub" where
  "on_queue f k h =
     (if k < length (hb_listeners h)
      then h\<lparr>hb_listeners := (hb_listeners h)[k := (hb_listeners h ! k)\<lparr>hl_queue := f (hl_queue (hb_listeners h ! k))\<rparr>]\<rparr>
      else h)"

definition closeHub :: "event_hub \<Rightarrow> event_hub" where
  "closeHub h = h\<lparr>hb_listeners := map (\<lambda>l. l\<lparr>hl_queue := bounded_close None (hl_queue l)\<rparr>) (hb_listeners h),
     hb_seen := [], hb_rings := []\<rparr>"

subsection \<open>Subscriptions\<close>

text \<open>The filters of \<open>attach\<close> and the three watches.\<close>

datatype watch = WatchAll | WatchControlNodes | WatchRuntimeNodes | WatchMetadataOperations

fun watched_change :: "watch \<Rightarrow> control_change \<Rightarrow> bool" where
  "watched_change WatchAll ch = True"
| "watched_change WatchControlNodes ch =
     (case ch of NodeUpsert n \<Rightarrow> True | NodePresence k p \<Rightarrow> True | NodeAttached a \<Rightarrow> True | NodeDetached r \<Rightarrow> True
      | AuthorityPromoted r \<Rightarrow> True | _ \<Rightarrow> False)"
| "watched_change WatchRuntimeNodes ch =
     (case ch of RuntimeUpsert r \<Rightarrow> True | RuntimePresence k p \<Rightarrow> True | _ \<Rightarrow> False)"
| "watched_change WatchMetadataOperations ch = (case ch of MetadataOperation mo \<Rightarrow> True | _ \<Rightarrow> False)"

definition watched :: "watch \<Rightarrow> access_item \<Rightarrow> bool" where
  "watched w item = (case item of AControl i \<Rightarrow> watched_change w (fi_change i) | _ \<Rightarrow> True)"

record subscription =
  su_listener :: nat
  su_feedId :: string
  su_checkpoint :: nat
  su_watch :: watch
  su_out :: "access_item list"
  su_read :: nat
  su_live :: bool

text \<open>\<open>wantedSequence + 1\<close>; without a position in the newest epoch it is zero.\<close>

definition next_wanted :: "native_position option \<Rightarrow> string \<Rightarrow> nat" where
  "next_wanted wanted epoch =
     (case wanted of Some p \<Rightarrow> if np_runtimeEpoch p = epoch then Suc (np_sequence p) else 0 | None \<Rightarrow> 0)"

definition native_replay :: "string \<Rightarrow> native_position option \<Rightarrow> native_event list \<Rightarrow> access_item list" where
  "native_replay k wanted ring =
     (if ring = [] then []
      else
        let epoch = nv_runtimeEpoch (last ring);
            sameEpoch = filter (\<lambda>n. nv_runtimeEpoch n = epoch) ring
        in (case sameEpoch of
              [] \<Rightarrow> []
            | first # _ \<Rightarrow>
                if next_wanted wanted epoch < nv_sequence first
                then [AGap k (''native ring begins at sequence '' @ nat_text (nv_sequence first)) (nv_provenance first)]
                else map ANative (filter (\<lambda>n. next_wanted wanted epoch \<le> nv_sequence n) sameEpoch)))"

definition replay_page :: nat where
  "replay_page = 10000"

definition control_replay ::
  "catalog \<Rightarrow> nat \<Rightarrow> nat \<Rightarrow> (access_item \<Rightarrow> bool) \<Rightarrow> access_item list" where
  "control_replay c cursor checkpoint pass =
     (case controlEventsAfter cursor replay_page c of
        Inl err \<Rightarrow> []
      | Inr is \<Rightarrow> filter pass (map AControl (takeWhile (\<lambda>i. fi_cursor i \<le> checkpoint) is)))"

definition ring_replay ::
  "event_hub \<Rightarrow> string list option \<Rightarrow> stream_cursor \<Rightarrow> access_item list" where
  "ring_replay h sessions cur =
     concat (map (\<lambda>(k, ring). native_replay k (map_of (sc_native cur) k) ring)
       (filter (\<lambda>(k, ring). case sessions of None \<Rightarrow> True | Some ks \<Rightarrow> k \<in> set ks) (hb_rings h)))"

text \<open>What a new subscriber is sent first, and whether the stream goes on after it.\<close>

definition first_items ::
  "catalog \<Rightarrow> event_hub \<Rightarrow> string list option \<Rightarrow> bool \<Rightarrow> stream_cursor option \<Rightarrow> watch \<Rightarrow> access_item list \<times> bool" where
  "first_items c h sessions includeNative cursor w =
     (case cursor of
        None \<Rightarrow> ([], True)
      | Some cur \<Rightarrow>
          if sc_feedId cur \<noteq> ca_feedId c then
            ([AReset (Some (sc_feedId cur)) (ca_feedId c) (ca_lastCursor c) [authority c] FeedChanged], False)
          else if \<not> canReplayControlCursor (sc_controlCursor cur) c then
            ([AReset (Some (sc_feedId cur)) (ca_feedId c) (ca_lastCursor c) [authority c] CursorExpired], False)
          else
            (control_replay c (sc_controlCursor cur) (ca_lastCursor c)
               (\<lambda>item. watched w item \<and> selected item sessions includeNative) @
             (if includeNative then ring_replay h sessions cur else []), True))"

definition subscribe ::
  "catalog \<Rightarrow> string list option \<Rightarrow> bool \<Rightarrow> stream_cursor option \<Rightarrow> watch \<Rightarrow> event_hub \<Rightarrow> subscription \<times> event_hub" where
  "subscribe c sessions includeNative cursor w h =
     (let k = length (hb_listeners h);
          q = new_queue (hb_buffer h);
          (out, live) = first_items c h sessions includeNative cursor w
      in (\<lparr>su_listener = k, su_feedId = ca_feedId c, su_checkpoint = ca_lastCursor c, su_watch = w,
            su_out = out, su_read = 0, su_live = live\<rparr>,
          h\<lparr>hb_listeners := hb_listeners h @
             [\<lparr>hl_queue = (if live then q else bounded_close None q),
               hl_sessions = sessions, hl_includeNative = includeNative\<rparr>]\<rparr>))"

definition attach :: "catalog \<Rightarrow> string list option \<Rightarrow> bool \<Rightarrow> stream_cursor option \<Rightarrow> event_hub \<Rightarrow> subscription \<times> event_hub" where
  "attach c sessions includeNative cursor h = subscribe c sessions includeNative cursor WatchAll h"

definition watchControlNodes :: "catalog \<Rightarrow> stream_cursor \<Rightarrow> event_hub \<Rightarrow> subscription \<times> event_hub" where
  "watchControlNodes c cursor h = subscribe c None False (Some cursor) WatchControlNodes h"

definition watchRuntimeNodes :: "catalog \<Rightarrow> stream_cursor \<Rightarrow> event_hub \<Rightarrow> subscription \<times> event_hub" where
  "watchRuntimeNodes c cursor h = subscribe c None False (Some cursor) WatchRuntimeNodes h"

definition watchMetadataOperations :: "catalog \<Rightarrow> stream_cursor \<Rightarrow> event_hub \<Rightarrow> subscription \<times> event_hub" where
  "watchMetadataOperations c cursor h = subscribe c None False (Some cursor) WatchMetadataOperations h"

text \<open>One turn of the live loop, once the mailbox has answered; \<open>c\<close> is the catalog at that moment.\<close>

definition foreign_feed :: "string \<Rightarrow> access_item \<Rightarrow> string option" where
  "foreign_feed feed item =
     (case item of
        AControl i \<Rightarrow> if fi_feedId i \<noteq> feed then Some (fi_feedId i) else None
      | ABeat f n refs \<Rightarrow> if f \<noteq> feed then Some f else None
      | _ \<Rightarrow> None)"

definition deliver :: "catalog \<Rightarrow> access_item answer \<Rightarrow> subscription \<Rightarrow> subscription" where
  "deliver c a s =
     (case a of
        Item item \<Rightarrow>
          (case foreign_feed (su_feedId s) item of
             Some f \<Rightarrow> s\<lparr>su_live := False,
               su_out := su_out s @ [AReset (Some (su_feedId s)) f (ca_lastCursor c) [authority c] FeedChanged]\<rparr>
           | None \<Rightarrow>
               if (case item of AControl i \<Rightarrow> fi_cursor i \<le> su_checkpoint s | _ \<Rightarrow> False) then s
               else if watched (su_watch s) item then s\<lparr>su_out := su_out s @ [item]\<rparr>
               else s)
      | _ \<Rightarrow> s\<lparr>su_live := False\<rparr>)"

definition heartbeat_tick :: "catalog \<Rightarrow> nat \<Rightarrow> event_hub \<Rightarrow> event_hub" where
  "heartbeat_tick c k = on_queue (bounded_push (ABeat (ca_feedId c) (ca_lastCursor c) [authority c])) k"

text \<open>The loop: ask the mailbox, take its answer in, and close it when the loop ends.\<close>

definition queue_of :: "nat \<Rightarrow> event_hub \<Rightarrow> access_item mail_queue" where
  "queue_of k h = (if k < length (hb_listeners h) then hl_queue (hb_listeners h ! k) else new_queue 0)"

definition consume :: "catalog \<Rightarrow> subscription \<Rightarrow> event_hub \<Rightarrow> subscription \<times> event_hub" where
  "consume c s h =
     (let q = queue_of (su_listener s) h in
      if \<not> su_live s then (s, on_queue (bounded_close None) (su_listener s) h)
      else if su_read s < length (mq_answers q) then
        (let s' = deliver c (mq_answers q ! su_read s) (s\<lparr>su_read := Suc (su_read s)\<rparr>) in
         (s', if su_live s' then h else on_queue (bounded_close None) (su_listener s) h))
      else if mq_waiters q = 0 then (s, on_queue queue_next (su_listener s) h)
      else (s, h))"

definition metadataOperationFromItem :: "access_item \<Rightarrow> metadata_operation option" where
  "metadataOperationFromItem item =
     (case item of AControl i \<Rightarrow> (case fi_change i of MetadataOperation mo \<Rightarrow> Some mo | _ \<Rightarrow> None) | _ \<Rightarrow> None)"

end
