(* ===== verification/Client_Cursor.thy ===== *)
theory Client_Cursor
  imports Event_Hub
begin

text \<open>
  The client's side of an access stream: its reconnect cursor
  (\<^verbatim>\<open>packages/client/src/cursor.ts\<close>) and the watch that resubscribes from the last item its handler
  accepted (\<^verbatim>\<open>packages/client/src/access-watch.ts\<close>).
\<close>

subsection \<open>The mutable cursor\<close>

record access_cursor =
  ac_cursor :: "stream_cursor option"
  ac_pendingNative :: "(string, native_position) table"

definition newCursor :: "stream_cursor option \<Rightarrow> access_cursor" where
  "newCursor initial = \<lparr>ac_cursor = initial, ac_pendingNative = []\<rparr>"

definition observeFeed :: "string \<Rightarrow> nat \<Rightarrow> access_cursor \<Rightarrow> access_cursor" where
  "observeFeed f n a =
     (case ac_cursor a of
        None \<Rightarrow>
          a\<lparr>ac_cursor := Some \<lparr>sc_feedId = f, sc_controlCursor = n, sc_native = ac_pendingNative a\<rparr>, ac_pendingNative := []\<rparr>
      | Some cur \<Rightarrow>
          if sc_feedId cur \<noteq> f then
            a\<lparr>ac_cursor := Some \<lparr>sc_feedId = f, sc_controlCursor = n, sc_native = []\<rparr>, ac_pendingNative := []\<rparr>
          else a\<lparr>ac_cursor := Some (cur\<lparr>sc_controlCursor := max (sc_controlCursor cur) n\<rparr>)\<rparr>)"

definition observe :: "access_item \<Rightarrow> access_cursor \<Rightarrow> access_cursor" where
  "observe item a =
     (case item of
        AControl i \<Rightarrow> observeFeed (fi_feedId i) (fi_cursor i) a
      | ABeat f n refs \<Rightarrow> observeFeed f n a
      | ANative e \<Rightarrow>
          (let position = \<lparr>np_runtimeEpoch = nv_runtimeEpoch e, np_sequence = nv_sequence e\<rparr> in
           case ac_cursor a of
             None \<Rightarrow> a\<lparr>ac_pendingNative := put (nv_sessionId e) position (ac_pendingNative a)\<rparr>
           | Some cur \<Rightarrow> a\<lparr>ac_cursor := Some (cur\<lparr>sc_native := put (nv_sessionId e) position (sc_native cur)\<rparr>)\<rparr>)
      | AReset previous f n refs reason \<Rightarrow>
          \<lparr>ac_cursor = Some \<lparr>sc_feedId = f, sc_controlCursor = n, sc_native = []\<rparr>, ac_pendingNative = []\<rparr>
      | AGap k reason p \<Rightarrow> a)"

definition forgetNative :: "string \<Rightarrow> access_cursor \<Rightarrow> access_cursor" where
  "forgetNative k a =
     \<lparr>ac_cursor = map_option (\<lambda>cur. cur\<lparr>sc_native := del k (sc_native cur)\<rparr>) (ac_cursor a),
      ac_pendingNative = del k (ac_pendingNative a)\<rparr>"

definition snapshot :: "access_cursor \<Rightarrow> stream_cursor option" where
  "snapshot a = ac_cursor a"

subsection \<open>The watch\<close>

definition observed :: "string \<Rightarrow> nat \<Rightarrow> stream_cursor option \<Rightarrow> stream_cursor" where
  "observed f n cursor =
     (case cursor of
        None \<Rightarrow> \<lparr>sc_feedId = f, sc_controlCursor = n, sc_native = []\<rparr>
      | Some cur \<Rightarrow>
          if sc_feedId cur \<noteq> f then \<lparr>sc_feedId = f, sc_controlCursor = n, sc_native = []\<rparr>
          else cur\<lparr>sc_controlCursor := max (sc_controlCursor cur) n\<rparr>)"

definition advanceAccessCursor :: "stream_cursor option \<Rightarrow> access_item \<Rightarrow> stream_cursor option" where
  "advanceAccessCursor cursor item =
     (case item of
        AControl i \<Rightarrow> Some (observed (fi_feedId i) (fi_cursor i) cursor)
      | ABeat f n refs \<Rightarrow> Some (observed f n cursor)
      | ANative e \<Rightarrow>
          (case cursor of
             None \<Rightarrow> None
           | Some cur \<Rightarrow>
               if (case map_of (sc_native cur) (nv_sessionId e) of
                     None \<Rightarrow> False
                   | Some p \<Rightarrow> np_runtimeEpoch p = nv_runtimeEpoch e \<and> nv_sequence e \<le> np_sequence p)
               then Some cur
               else Some (cur\<lparr>sc_native := put (nv_sessionId e)
                 \<lparr>np_runtimeEpoch = nv_runtimeEpoch e, np_sequence = nv_sequence e\<rparr> (sc_native cur)\<rparr>))
      | AGap k reason p \<Rightarrow> cursor
      | AReset previous f n refs reason \<Rightarrow> Some \<lparr>sc_feedId = f, sc_controlCursor = n, sc_native = []\<rparr>)"

record access_watch =
  aw_cursor :: "stream_cursor option"
  aw_pendingNative :: "(string, native_position) table"
  aw_seen :: "(string, nat) table"

definition maximumEntries :: nat where
  "maximumEntries = 8192"

definition seen_key :: "string \<Rightarrow> string \<Rightarrow> string" where
  "seen_key k epoch = k @ [CHR 0x00] @ epoch"

definition seen_from :: "stream_cursor option \<Rightarrow> (string, nat) table" where
  "seen_from cursor =
     (case cursor of
        None \<Rightarrow> []
      | Some cur \<Rightarrow> fold (\<lambda>(k, p). put (seen_key k (np_runtimeEpoch p)) (np_sequence p)) (sc_native cur) [])"

definition seen_has :: "'a runtime_native_scheme \<Rightarrow> (string, nat) table \<Rightarrow> bool" where
  "seen_has e seen =
     (case map_of seen (seen_key (nv_sessionId e) (nv_runtimeEpoch e)) of
        None \<Rightarrow> False | Some position \<Rightarrow> nv_sequence e \<le> position)"

definition seen_commit :: "access_item \<Rightarrow> (string, nat) table \<Rightarrow> (string, nat) table" where
  "seen_commit item seen =
     (case item of
        ANative e \<Rightarrow>
          (let key = seen_key (nv_sessionId e) (nv_runtimeEpoch e);
               positions = put key (nv_sequence e) (del key seen)
           in drop (length positions - maximumEntries) positions)
      | _ \<Rightarrow> seen)"

definition watchAccess :: "stream_cursor option \<Rightarrow> access_watch" where
  "watchAccess cursor = \<lparr>aw_cursor = cursor, aw_pendingNative = [], aw_seen = seen_from cursor\<rparr>"

definition alreadyCommitted :: "stream_cursor option \<Rightarrow> (string, nat) table \<Rightarrow> access_item \<Rightarrow> bool" where
  "alreadyCommitted cursor seen item =
     (case item of
        AControl i \<Rightarrow> (case cursor of None \<Rightarrow> False | Some cur \<Rightarrow> sc_feedId cur = fi_feedId i \<and> fi_cursor i \<le> sc_controlCursor cur)
      | ANative e \<Rightarrow> seen_has e seen
      | _ \<Rightarrow> False)"

definition watch_commit :: "access_item \<Rightarrow> access_watch \<Rightarrow> access_watch" where
  "watch_commit item w =
     (let previous = aw_cursor w;
          pending = (case item of
            ANative e \<Rightarrow>
              if previous = None then
                put (nv_sessionId e) \<lparr>np_runtimeEpoch = nv_runtimeEpoch e, np_sequence = nv_sequence e\<rparr> (aw_pendingNative w)
              else aw_pendingNative w
          | _ \<Rightarrow> aw_pendingNative w);
          cursor = advanceAccessCursor previous item;
          reset = ((case item of AReset p f n refs r \<Rightarrow> True | _ \<Rightarrow> False) \<or>
            (case (previous, cursor) of (Some p, Some cur) \<Rightarrow> sc_feedId p \<noteq> sc_feedId cur | _ \<Rightarrow> False))
      in if reset then \<lparr>aw_cursor = cursor, aw_pendingNative = [], aw_seen = seen_commit item []\<rparr>
         else case (previous, cursor) of
           (None, Some cur) \<Rightarrow>
             \<lparr>aw_cursor = Some (cur\<lparr>sc_native := spread pending (sc_native cur)\<rparr>), aw_pendingNative = [],
              aw_seen = seen_commit item (aw_seen w)\<rparr>
         | _ \<Rightarrow> \<lparr>aw_cursor = cursor, aw_pendingNative = pending, aw_seen = seen_commit item (aw_seen w)\<rparr>)"

text \<open>
  What becomes of one item: it does not parse, it was handed on before, the handler fails on it, or the
  handler accepts it. A parse or handler failure ends the subscription; the next one starts from the
  cursor.
\<close>

datatype item_outcome = Unparsable | Suppressed | HandlerFailed | Committed

definition onData :: "bool \<Rightarrow> access_item \<Rightarrow> access_watch \<Rightarrow> item_outcome \<times> access_watch" where
  "onData accepts item w =
     (if \<not> accessStreamItemSchema item then (Unparsable, w)
      else if alreadyCommitted (aw_cursor w) (aw_seen w) item then (Suppressed, w)
      else if \<not> accepts then (HandlerFailed, w)
      else (Committed, watch_commit item w))"

text \<open>The items of a subscription whose handler accepts everything, and what it was handed.\<close>

definition watch_next :: "access_item \<Rightarrow> access_item list \<times> access_watch \<Rightarrow> access_item list \<times> access_watch" where
  "watch_next item r =
     (let (outcome, w') = onData True item (snd r) in (if outcome = Committed then fst r @ [item] else fst r, w'))"

definition watch_all :: "access_item list \<Rightarrow> access_watch \<Rightarrow> access_item list \<times> access_watch" where
  "watch_all items w = fold watch_next items ([], w)"

subsection \<open>The control events of a stream\<close>

definition controls :: "access_item list \<Rightarrow> feed_item list" where
  "controls = List.map_filter (\<lambda>x. case x of AControl i \<Rightarrow> Some i | _ \<Rightarrow> None)"

lemma controls_simps [simp]:
  "controls [] = []" "controls (x # xs) = (case x of AControl i \<Rightarrow> i # controls xs | _ \<Rightarrow> controls xs)"
  "controls (xs @ ys) = controls xs @ controls ys"
  by (simp_all add: controls_def map_filter_simps split: access_item.split) (simp add: map_filter_def)

lemma controls_map [simp]: "controls (map AControl is) = is"
  by (induction "is") simp_all

lemma prefix_controls: "prefix xs ys \<Longrightarrow> prefix (controls xs) (controls ys)"
  by (auto simp: prefix_def)

text \<open>A stretch of a stream on feed \<open>f\<close> after cursor \<open>k\<close>: no reset, every control event is the
  next one, every heartbeat names the last one.\<close>

fun flows :: "string \<Rightarrow> nat \<Rightarrow> access_item list \<Rightarrow> bool" where
  "flows f k [] = True"
| "flows f k (AControl i # xs) = (fi_feedId i = f \<and> fi_cursor i = Suc k \<and> flows f (Suc k) xs)"
| "flows f k (ABeat g m refs # xs) = (g = f \<and> m = k \<and> flows f k xs)"
| "flows f k (AReset p g m refs r # xs) = False"
| "flows f k (ANative e # xs) = flows f k xs"
| "flows f k (AGap s r p # xs) = flows f k xs"

lemma flows_append: "flows f k (xs @ ys) \<longleftrightarrow> flows f k xs \<and> flows f (k + length (controls xs)) ys"
  by (induction f k xs rule: flows.induct) auto

definition position_of :: "stream_cursor option \<Rightarrow> (string \<times> nat) option" where
  "position_of = map_option (\<lambda>cur. (sc_feedId cur, sc_controlCursor cur))"

lemma observe_item:
  assumes "position_of (ac_cursor a) = Some (f, k)" "flows f k [x]"
  shows "position_of (ac_cursor (observe x a)) = Some (f, k + length (controls [x]))"
  using assms by (cases x) (auto simp: position_of_def observe_def observeFeed_def Let_def)

text \<open>The mutable cursor counts the control events of the stretch.\<close>

lemma observe_flow:
  "position_of (ac_cursor a) = Some (f, k) \<Longrightarrow> flows f k xs \<Longrightarrow>
   position_of (ac_cursor (fold observe xs a)) = Some (f, k + length (controls xs))"
proof (induction xs arbitrary: a k)
  case (Cons x xs)
  then have one: "flows f k [x]" "flows f (k + length (controls [x])) xs" using flows_append [of f k "[x]" xs] by auto
  show ?case using Cons.IH [OF observe_item [OF Cons.prems(1) one(1)] one(2)] by (cases x) (auto simp: add.commute)
qed simp

lemma watch_item:
  assumes "position_of (aw_cursor w) = Some (f, k)" "flows f k [x]"
  shows "position_of (aw_cursor (snd (onData accepts x w))) =
      Some (f, k + (if fst (onData accepts x w) = Committed then length (controls [x]) else 0))"
    and "controls [x] \<noteq> [] \<Longrightarrow> accessStreamItemSchema x \<Longrightarrow> fst (onData True x w) = Committed"
  using assms
  by (cases x; auto simp: position_of_def onData_def watch_commit_def advanceAccessCursor_def observed_def
      alreadyCommitted_def Let_def split: option.splits)+

text \<open>The watch hands on every control event of the stretch, each once, and counts them.\<close>

lemma watch_flow:
  assumes "position_of (aw_cursor w) = Some (f, k)" "flows f k xs" "list_all accessStreamItemSchema xs"
  shows "controls (fst (watch_all xs w)) = controls xs \<and>
    position_of (aw_cursor (snd (watch_all xs w))) = Some (f, k + length (controls xs))"
  using assms
proof (induction xs rule: rev_induct)
  case (snoc x xs)
  let ?r = "watch_all xs w"
  have flow: "flows f k xs" "flows f (k + length (controls xs)) [x]" using snoc.prems(2) by (simp_all add: flows_append)
  with snoc have got: "controls (fst ?r) = controls xs" "position_of (aw_cursor (snd ?r)) = Some (f, k + length (controls xs))"
    by simp_all
  note item = watch_item(1) [OF got(2) flow(2), of True] watch_item(2) [OF got(2) flow(2)]
  have step: "watch_all (xs @ [x]) w =
      (if fst (onData True x (snd ?r)) = Committed then fst ?r @ [x] else fst ?r, snd (onData True x (snd ?r)))"
    by (simp add: watch_all_def watch_next_def split_beta)
  show ?case
    using item got(1) snoc.prems(3) unfolding step
    by (cases "fst (onData True x (snd ?r)) = Committed") (auto split: access_item.split_asm)
qed (simp add: watch_all_def)

end
