(* ===== verification/Hub_Delivery.thy ===== *)
theory Hub_Delivery
  imports Client_Cursor Catalog_Invariants
begin

text \<open>
  What a subscriber of the control node's event hub receives while the catalog runs on: the world of
  a catalog, a hub and one subscription, every step of any of them, and the sequence of control
  events the subscription yields.
\<close>

declare upt_Suc [simp del]

subsection \<open>What a run of the catalog emits\<close>

definition own_items :: "catalog \<Rightarrow> feed_item list \<Rightarrow> feed_item list" where
  "own_items c is = takeWhile (\<lambda>i. fi_feedId i = ca_feedId c) is"

definition emits :: "catalog \<Rightarrow> catalog \<Rightarrow> feed_item list \<Rightarrow> bool" where
  "emits c d is \<longleftrightarrow> ca_emitted d = ca_emitted c @ is \<and>
     map fi_cursor (own_items c is) = [Suc (ca_lastCursor c)..<Suc (ca_lastCursor c + length (own_items c is))] \<and>
     (own_items c is = is \<longrightarrow> ca_feedId d = ca_feedId c \<and> ca_lastCursor d = ca_lastCursor c + length is)"

definition feed_forward :: "catalog \<Rightarrow> catalog \<Rightarrow> bool" where
  "feed_forward c d \<longleftrightarrow> (idle c \<longrightarrow> idle d \<and> (\<exists>is. emits c d is))"

lemma own_items_append:
  "own_items c (is @ js) = (if own_items c is = is then is @ own_items c js else own_items c is)"
  by (auto simp: own_items_def takeWhile_eq_all_conv takeWhile_append)

lemma own_items_cong: "ca_feedId d = ca_feedId c \<Longrightarrow> own_items d = own_items c"
  by (simp add: own_items_def fun_eq_iff)

lemma emits_trans:
  assumes "emits a b is" "emits b c js"
  shows "emits a c (is @ js)"
proof (cases "own_items a is = is")
  case True
  with assms(1) have b: "ca_feedId b = ca_feedId a" "ca_lastCursor b = ca_lastCursor a + length is"
    by (simp_all add: emits_def)
  have own: "own_items a (is @ js) = is @ own_items b js"
    using True own_items_cong [OF b(1)] by (simp add: own_items_append)
  let ?n = "ca_lastCursor a" and ?k = "length (own_items b js)"
  have "[Suc ?n..<Suc (?n + length is + ?k)] = [Suc ?n..<Suc (?n + length is)] @ [Suc (?n + length is)..<Suc (?n + length is + ?k)]"
    using upt_add_eq_append [of "Suc ?n" "Suc (?n + length is)" ?k] by simp
  with assms True own b show ?thesis by (simp add: emits_def add.assoc)
next
  case False
  then have "own_items a (is @ js) = own_items a is" by (simp add: own_items_append)
  moreover have "own_items a is \<noteq> is @ js"
  proof
    assume "own_items a is = is @ js"
    then have "length (is @ js) \<le> length is" using length_takeWhile_le unfolding own_items_def by metis
    with \<open>own_items a is = is @ js\<close> False show False by simp
  qed
  ultimately show ?thesis using assms by (simp add: emits_def)
qed

lemma appended_length: "appended c is b \<Longrightarrow> ca_lastCursor b = ca_lastCursor c + length is"
  unfolding appended_def by (metis diff_Suc_Suc le_add_diff_inverse length_map length_upt)

lemma emits_new: "appended c is b \<Longrightarrow> own_items c is = is"
  by (auto simp: appended_def own_items_def takeWhile_eq_all_conv)

lemma commit_emits:
  assumes "mutate body c = Inr d" "body c = Inr b" "appended c is b" "idle c"
  shows "idle d \<and> emits c d is"
proof -
  from commit_feed [OF assms] have "idle d" "ca_emitted d = ca_emitted c @ is" "ca_lastCursor d = ca_lastCursor b"
    "ca_feedId d = ca_feedId c" by auto
  moreover from assms(3) have
    "map fi_cursor is = [Suc (ca_lastCursor c)..<Suc (ca_lastCursor b)]" by (simp_all add: appended_def)
  ultimately show ?thesis using emits_new [OF assms(3)] appended_length [OF assms(3)] by (simp add: emits_def)
qed

lemma promote_emits:
  assumes "promote e pi mi t t' ts c = Inr (x, d)" "fresh_feed (mi_feedId mi) c"
  shows "idle d \<and> (\<exists>is. emits c d is)"
proof -
  from promote_feed [OF assms(1)] obtain b "is" receipt where
    m: "mutate (promote_body e receipt (mi_feedId mi) (ca_role c) t' ts) c = Inr d"
      "promote_body e receipt (mi_feedId mi) (ca_role c) t' ts c = Inr b"
      "appended (rotateControlFeed (mi_feedId mi) c) is b" by blast
  have "idle (rotateControlFeed (mi_feedId mi) c)" by (simp add: idle_def feed_ok_def rotateControlFeed_def)
  from commit_feed [OF m this] have d: "idle d" "ca_emitted d = ca_emitted c @ is" by (auto simp: rotateControlFeed_def)
  from m(2) obtain f d' where "announce_local e f d' = Inr b"
    by (auto simp: promote_body_def Let_def split: if_splits)
  then have "0 < ca_lastCursor b"
    by (auto simp: announce_local_def append_local_def appendControl_def Let_def split: if_splits sum.splits)
  with appended_length [OF m(3)] have "is \<noteq> []" by (auto simp: rotateControlFeed_def)
  moreover have "\<forall>i \<in> set is. fi_feedId i \<noteq> ca_feedId c"
    using m(3) assms(2) by (auto simp: appended_def rotateControlFeed_def fresh_feed_def)
  ultimately have "own_items c is = []" "is \<noteq> []" by (cases "is"; simp add: own_items_def)+
  with d show ?thesis by (auto simp: emits_def intro!: exI [of _ "is"])
qed

lemma emits_quiet:
  "ca_emitted d = ca_emitted c \<Longrightarrow> ca_feedId d = ca_feedId c \<Longrightarrow> ca_lastCursor d = ca_lastCursor c \<Longrightarrow> emits c d []"
  by (simp add: emits_def own_items_def)

interpretation delivery: catalog_commits feed_extends feed_forward
proof unfold_locales
  show "feed_forward c c" for c using emits_quiet by (auto simp: feed_forward_def)
  show "feed_forward a c" if "feed_forward a b" "feed_forward b c" for a b c
    using that emits_trans unfolding feed_forward_def by blast
  show "feed_forward c d" if m: "mutate body c = Inr d" and ok: "feed_writes.ok c (body c)" for body c d
  proof -
    from m obtain b where b: "body c = Inr b" by (auto simp: mutate_def split: sum.splits)
    with ok obtain "is" where "appended c is b" by (auto simp: feed_writes.ok_def feed_extends_def)
    with commit_emits [OF m b] show ?thesis by (auto simp: feed_forward_def)
  qed
  show "feed_forward c d" if "side_write c d" for c d
  proof -
    note f = side_write_feed [OF that]
    have "idle d \<longleftrightarrow> idle c" unfolding idle_def feed_ok_def f by (rule refl)
    with emits_quiet [OF f(5,6,3)] show ?thesis by (auto simp: feed_forward_def)
  qed
  show "feed_forward c d" if "compactControlEvents n c = Inr d" for n c d
  proof -
    have "emits c d []" using that by (auto simp: compactControlEvents_def split: if_splits intro: emits_quiet)
    with compact_idle [OF that] show ?thesis by (auto simp: feed_forward_def)
  qed
  show "feed_forward c d" if "promote e pi mi t t' ts c = Inr (x, d)" "fresh_feed (mi_feedId mi) c" for e pi mi t t' ts c x d
    using promote_emits [OF that] by (simp add: feed_forward_def)
qed

lemma emits_run: "catalog_steps e c d \<Longrightarrow> idle c \<Longrightarrow> idle d \<and> (\<exists>is. emits c d is)"
  using delivery.steps_R by (auto simp: feed_forward_def)

subsection \<open>The world of a subscription\<close>

record world =
  wo_catalog :: catalog
  wo_hub :: event_hub
  wo_sub :: subscription

abbreviation new_items :: "catalog \<Rightarrow> catalog \<Rightarrow> feed_item list" where
  "new_items c d \<equiv> drop (length (ca_emitted c)) (ca_emitted d)"

abbreviation own_queue :: "world \<Rightarrow> access_item mail_queue" where
  "own_queue w \<equiv> queue_of (su_listener (wo_sub w)) (wo_hub w)"

text \<open>The items the control node's service publishes: native events and gaps of a child.\<close>

definition native_item :: "access_item \<Rightarrow> bool" where
  "native_item item \<longleftrightarrow> (case item of ANative n \<Rightarrow> True | AGap k r p \<Rightarrow> True | _ \<Rightarrow> False)"

text \<open>
  A commit hands every event it emits to the hub before anything else happens. Runtime nodes and
  children publish native items, the timer pushes heartbeats, the subscription takes its turns, other
  subscribers come, read and go, and a stream may be aborted or the hub closed at any moment.
\<close>

inductive world_step :: "env \<Rightarrow> world \<Rightarrow> world \<Rightarrow> bool" for e where
  commit: "catalog_step e (wo_catalog w) d \<Longrightarrow>
    world_step e w (w\<lparr>wo_catalog := d, wo_hub := fold hub_onControl (new_items (wo_catalog w) d) (wo_hub w)\<rparr>)"
| publish: "hub_publish item (wo_hub w) = Inr h \<Longrightarrow> native_item item \<Longrightarrow> world_step e w (w\<lparr>wo_hub := h\<rparr>)"
| runtime: "publishRuntimeItem (wo_catalog w) ri (wo_hub w) = Inr (x, h) \<Longrightarrow> world_step e w (w\<lparr>wo_hub := h\<rparr>)"
| tick: "world_step e w (w\<lparr>wo_hub := heartbeat_tick (wo_catalog w) k (wo_hub w)\<rparr>)"
| turn: "consume (wo_catalog w) (wo_sub w) (wo_hub w) = (s, h) \<Longrightarrow> world_step e w (w\<lparr>wo_sub := s, wo_hub := h\<rparr>)"
| other_subscribes: "subscribe (wo_catalog w) ss n cur wt (wo_hub w) = (s, h) \<Longrightarrow> world_step e w (w\<lparr>wo_hub := h\<rparr>)"
| other_reads: "k \<noteq> su_listener (wo_sub w) \<Longrightarrow> world_step e w (w\<lparr>wo_hub := on_queue queue_next k (wo_hub w)\<rparr>)"
| abort: "world_step e w (w\<lparr>wo_hub := on_queue (bounded_close None) k (wo_hub w)\<rparr>)"
| close: "world_step e w (w\<lparr>wo_hub := closeHub (wo_hub w)\<rparr>)"

definition world_steps :: "env \<Rightarrow> world \<Rightarrow> world \<Rightarrow> bool" where
  "world_steps e = (world_step e)\<^sup>*\<^sup>*"

subsection \<open>What happens to one mailbox\<close>

definition listens :: "nat \<Rightarrow> event_hub \<Rightarrow> bool" where
  "listens k h \<longleftrightarrow> k < length (hb_listeners h) \<and> hl_sessions (hb_listeners h ! k) = None"

definition beatless :: "access_item list \<Rightarrow> bool" where
  "beatless xs \<longleftrightarrow> (\<forall>x \<in> set xs. case x of ABeat f n refs \<Rightarrow> False | AReset p f n refs r \<Rightarrow> False | _ \<Rightarrow> True)"

definition moves :: "feed_item list \<Rightarrow> nat \<Rightarrow> event_hub \<Rightarrow> event_hub \<Rightarrow> bool" where
  "moves is k h h' \<longleftrightarrow> (listens k h \<longrightarrow> listens k h' \<and>
     (\<exists>ops. queue_of k h' = fold bounded.step ops (queue_of k h) \<and> controls (bounded.pushed ops) = is \<and>
        beatless (bounded.pushed ops)))"

lemma movesI:
  "(listens k h \<Longrightarrow> listens k h' \<and> queue_of k h' = fold bounded.step ops (queue_of k h)) \<Longrightarrow>
   controls (bounded.pushed ops) = is \<Longrightarrow> beatless (bounded.pushed ops) \<Longrightarrow> moves is k h h'"
  by (auto simp: moves_def)

lemma bounded_steps [simp]:
  "bounded.step (Inl v) q = bounded_push v q" "bounded.step (Inr (Inl r)) q = bounded_close r q"
  "bounded.step (Inr (Inr u)) q = queue_next q"
  by (simp_all add: bounded.step_def)

lemma moves_same: "hb_listeners h' = hb_listeners h \<Longrightarrow> moves [] k h h'"
  by (rule movesI [where ops = "[]"]) (simp_all add: listens_def queue_of_def beatless_def)

lemma moves_trans: "moves is k h h' \<Longrightarrow> moves js k h' h'' \<Longrightarrow> moves (is @ js) k h h''"
proof -
  assume m: "moves is k h h'" "moves js k h' h''"
  show ?thesis
  proof (cases "listens k h")
    case True
    with m obtain xs ys where "listens k h''"
      "queue_of k h' = fold bounded.step xs (queue_of k h)" "controls (bounded.pushed xs) = is" "beatless (bounded.pushed xs)"
      "queue_of k h'' = fold bounded.step ys (queue_of k h')" "controls (bounded.pushed ys) = js" "beatless (bounded.pushed ys)"
      unfolding moves_def by blast
    moreover have "bounded.pushed (xs @ ys) = bounded.pushed xs @ bounded.pushed ys"
      by (simp add: bounded.pushed_def map_filter_def)
    ultimately show ?thesis by (intro movesI [of _ _ _ "xs @ ys"]) (auto simp: beatless_def)
  qed (simp add: moves_def)
qed

lemma moves_offer:
  assumes "beatless [item]"
  shows "moves (controls [item]) k h (broadcast item h)"
proof (cases "generation_boundary item \<or> selected item None (hl_includeNative (hb_listeners h ! k))")
  case True
  then show ?thesis
    by (intro movesI [where ops = "[Inl item]"]) (use assms in \<open>auto simp: listens_def queue_of_def broadcast_def offer_def\<close>)
next
  case False
  then have "controls [item] = []" by (auto simp: selected_def split: access_item.splits)
  with False show ?thesis
    by (intro movesI [where ops = "[]"]) (auto simp: listens_def queue_of_def broadcast_def offer_def beatless_def)
qed

lemma moves_on_queue:
  assumes "\<And>q. f q = bounded.step x q" "bounded.pushed [x] = []"
  shows "moves [] k h (on_queue f k' h)"
proof (cases "k' = k")
  case True
  with assms show ?thesis
    by (intro movesI [where ops = "[x]"]) (auto simp: listens_def queue_of_def on_queue_def beatless_def simp del: bounded.pushed_simps)
qed (intro movesI [where ops = "[]"]; simp add: listens_def queue_of_def on_queue_def beatless_def)

lemma moves_close: "moves [] k h (on_queue (bounded_close r) k' h)"
  by (rule moves_on_queue [where x = "Inr (Inl r)"]) simp_all

lemma moves_next: "moves [] k h (on_queue queue_next k' h)"
  by (rule moves_on_queue [where x = "Inr (Inr ())"]) simp_all

lemma moves_closeHub: "moves [] k h (closeHub h)"
  by (rule movesI [where ops = "[Inr (Inl None)]"]) (auto simp: listens_def queue_of_def closeHub_def beatless_def)

lemma moves_subscribe: "subscribe c ss n cur wt h = (s, h') \<Longrightarrow> moves [] k h h'"
  by (rule movesI [where ops = "[]"])
    (auto simp: subscribe_def Let_def listens_def queue_of_def nth_append beatless_def split: prod.splits)

lemma moves_publish:
  assumes "hub_publish item h = Inr h'" "native_item item"
  shows "moves [] k h h'"
proof -
  have item: "controls [item] = []" "beatless [item]" using assms(2) by (cases item; simp add: native_item_def beatless_def)+
  then have quiet: "moves [] k h (broadcast item g)" if "hb_listeners g = hb_listeners h" for g
    using moves_trans [OF moves_same [OF that] moves_offer [OF item(2)]] by simp
  have "hb_listeners (record_native n g) = hb_listeners g" "hb_listeners (forgetNativeSession j g) = hb_listeners g" for n g j
    by (simp_all add: record_native_def forgetNativeSession_def Let_def)
  with assms(1) quiet show ?thesis
    by (auto simp: hub_publish_def moves_same split: if_splits access_item.splits option.splits)
qed

lemma moves_runtime: "publishRuntimeItem c ri h = Inr (x, h') \<Longrightarrow> moves [] k h h'"
  by (auto simp: publishRuntimeItem_def publish_local_def Let_def moves_same split: runtime_item.splits sum.splits
      intro: moves_publish simp: native_item_def)

lemma moves_onControl: "moves [i] k h (hub_onControl i h)"
proof -
  have "moves [i] k h (broadcast (AControl i) g)" if "hb_listeners g = hb_listeners h" for g
    using moves_trans [OF moves_same [OF that] moves_offer [of "AControl i"]] by (simp add: beatless_def)
  then show ?thesis
    by (auto simp: hub_onControl_def forgetNativeSession_def split: control_change.splits option.splits)
qed

lemma moves_onControls: "moves is k h (fold hub_onControl is h)"
proof (induction "is" arbitrary: h)
  case (Cons i "is")
  from moves_trans [OF moves_onControl Cons.IH] show ?case by simp
qed (simp add: moves_same)

lemma step_answers: "prefix (mq_answers q) (mq_answers (bounded.step x q))"
proof -
  have close: "prefix (mq_answers q) (mq_answers (bounded_close r q))" for r
    by (simp add: bounded_close_def)
  then have "prefix (mq_answers q) (mq_answers (bounded_push v q))" for v
    by (simp add: bounded_push_def queue_push_def)
  moreover have "prefix (mq_answers q) (mq_answers (queue_next q))"
    by (simp add: queue_next_def split: list.split)
  ultimately show ?thesis using close by (cases x) (simp, metis bounded_steps(2,3) sum.exhaust)
qed

lemma steps_answers: "prefix (mq_answers q) (mq_answers (fold bounded.step ops q))"
proof (induction ops arbitrary: q)
  case (Cons x ops)
  show ?case using prefix_order.trans [OF step_answers Cons.IH] by simp
qed simp

subsection \<open>The subscription follows the catalog\<close>

text \<open>A heartbeat of the subscription's feed names the cursor of the last control event before it.\<close>

fun timed :: "string \<Rightarrow> nat \<Rightarrow> access_item list \<Rightarrow> bool" where
  "timed f n [] = True"
| "timed f n (AControl i # xs) = (fi_feedId i = f \<longrightarrow> timed f (Suc n) xs)"
| "timed f n (ABeat g m refs # xs) = ((g = f \<longrightarrow> m = n) \<and> timed f n xs)"
| "timed f n (AReset p g m refs r # xs) = False"
| "timed f n (x # xs) = timed f n xs"

lemma timed_append:
  "timed f n (xs @ ys) \<longleftrightarrow> timed f n xs \<and>
     ((\<forall>i \<in> set (controls xs). fi_feedId i = f) \<longrightarrow> timed f (n + length (controls xs)) ys)"
  by (induction f n xs rule: timed.induct) auto

lemma beatless_timed: "beatless xs \<Longrightarrow> timed f n xs"
  by (induction f n xs rule: timed.induct) (auto simp: beatless_def)

lemma own_items_all: "own_items c is = is \<longleftrightarrow> (\<forall>i \<in> set is. fi_feedId i = ca_feedId c)"
  by (simp add: own_items_def takeWhile_eq_all_conv)

definition is_reset :: "access_item \<Rightarrow> bool" where
  "is_reset x \<longleftrightarrow> (case x of AReset p f n refs r \<Rightarrow> True | _ \<Rightarrow> False)"

definition local_only :: "catalog \<Rightarrow> access_item list \<Rightarrow> bool" where
  "local_only c xs \<longleftrightarrow> list_all (\<lambda>x. foreign_feed (ca_feedId c) x = None) xs"

lemma local_only_append [simp]: "local_only c (xs @ ys) \<longleftrightarrow> local_only c xs \<and> local_only c ys"
  by (simp add: local_only_def)

lemma local_only_own: "local_only c xs \<Longrightarrow> own_items c (controls xs) = controls xs"
  by (induction xs) (auto simp: local_only_def own_items_all foreign_feed_def split: access_item.splits if_splits)

definition tracks :: "catalog \<Rightarrow> access_item list \<Rightarrow> world \<Rightarrow> bool" where
  "tracks c0 first w \<longleftrightarrow>
     (let s = wo_sub w; q = own_queue w in
      idle (wo_catalog w) \<and> listens (su_listener s) (wo_hub w) \<and> su_feedId s = ca_feedId c0 \<and>
      su_checkpoint s = ca_lastCursor c0 \<and> su_watch s = WatchAll \<and> su_read s \<le> length (mq_answers q) \<and>
      (\<exists>is vs m tail. emits c0 (wo_catalog w) is \<and> bounded.faithful vs q \<and> controls vs = is \<and>
         timed (ca_feedId c0) (ca_lastCursor c0) vs \<and> m \<le> su_read s \<and> (su_live s \<longrightarrow> m = su_read s \<and> tail = []) \<and>
         list_all is_reset tail \<and> su_out s = first @ answer_items (take m (mq_answers q)) @ tail \<and>
         local_only c0 (answer_items (take m (mq_answers q)))))"

lemma take_prefix: "prefix xs ys \<Longrightarrow> n \<le> length xs \<Longrightarrow> take n ys = take n xs"
  by (auto simp: prefix_def)

lemma resets_quiet: "list_all is_reset tail \<Longrightarrow> controls tail = []"
  by (induction tail) (auto simp: is_reset_def split: access_item.splits)

lemma tracks_grows:
  assumes "tracks c0 first w" "emits (wo_catalog w) d js" "idle d"
    and "listens (su_listener (wo_sub w)) h" "queue_of (su_listener (wo_sub w)) h = fold bounded.step ops (own_queue w)"
    and "controls (bounded.pushed ops) = js"
    and timed: "\<And>vs. emits c0 (wo_catalog w) (controls vs) \<Longrightarrow> timed (ca_feedId c0) (ca_lastCursor c0) vs \<Longrightarrow>
      timed (ca_feedId c0) (ca_lastCursor c0) (vs @ bounded.pushed ops)"
  shows "tracks c0 first (w\<lparr>wo_catalog := d, wo_hub := h\<rparr>)"
proof -
  let ?k = "su_listener (wo_sub w)"
  from assms(1) obtain "is" vs m tail where t: "emits c0 (wo_catalog w) is"
      "bounded.faithful vs (own_queue w)" "controls vs = is" "timed (ca_feedId c0) (ca_lastCursor c0) vs" "m \<le> su_read (wo_sub w)"
    and read: "su_read (wo_sub w) \<le> length (mq_answers (own_queue w))"
    and rest: "su_live (wo_sub w) \<longrightarrow> m = su_read (wo_sub w) \<and> tail = []" "list_all is_reset tail"
      "su_out (wo_sub w) = first @ answer_items (take m (mq_answers (own_queue w))) @ tail"
      "local_only c0 (answer_items (take m (mq_answers (own_queue w))))"
    unfolding tracks_def Let_def by blast
  have p: "prefix (mq_answers (own_queue w)) (mq_answers (queue_of ?k h))"
    unfolding assms(5) by (rule steps_answers)
  have "m \<le> length (mq_answers (own_queue w))" using t(5) read by simp
  note tk = take_prefix [OF p this]
  have "bounded.faithful (vs @ bounded.pushed ops) (queue_of ?k h)"
    unfolding assms(5) by (rule bounded.faithful_run [OF t(2)])
  moreover have "controls (vs @ bounded.pushed ops) = is @ js" using t(3) assms(6) by simp
  moreover have "timed (ca_feedId c0) (ca_lastCursor c0) (vs @ bounded.pushed ops)"
    using timed [of vs] t(1,3,4) by simp
  moreover have "su_read (wo_sub w) \<le> length (mq_answers (queue_of ?k h))"
    using read prefix_length_le [OF p] by simp
  ultimately show ?thesis
    using assms(1,3,4) emits_trans [OF t(1) assms(2)] t(5) rest tk
    unfolding tracks_def Let_def
    by (intro conjI exI [of _ "is @ js"] exI [of _ "vs @ bounded.pushed ops"] exI [of _ m] exI [of _ tail]) simp_all
qed

lemma tracks_listens: "tracks c0 first w \<Longrightarrow> listens (su_listener (wo_sub w)) (wo_hub w)"
  by (simp add: tracks_def Let_def)

lemma tracks_moves:
  assumes "tracks c0 first w" "moves js (su_listener (wo_sub w)) (wo_hub w) h"
    and "emits (wo_catalog w) d js" "idle d"
  shows "tracks c0 first (w\<lparr>wo_catalog := d, wo_hub := h\<rparr>)"
proof -
  from assms(2) tracks_listens [OF assms(1)] obtain ops where ops: "listens (su_listener (wo_sub w)) h"
      "queue_of (su_listener (wo_sub w)) h = fold bounded.step ops (own_queue w)"
      "controls (bounded.pushed ops) = js" "beatless (bounded.pushed ops)"
    by (auto simp: moves_def)
  then show ?thesis
    using tracks_grows [OF assms(1,3,4) ops(1-3)] by (simp add: timed_append beatless_timed)
qed

lemma emits_none: "emits c c []"
  by (rule emits_quiet) simp_all

lemma tracks_hub: "tracks c0 first w \<Longrightarrow> moves [] (su_listener (wo_sub w)) (wo_hub w) h \<Longrightarrow> tracks c0 first (w\<lparr>wo_hub := h\<rparr>)"
  using tracks_moves [OF _ _ emits_none, of c0 first w h] by (simp add: tracks_def Let_def)

lemma tracks_tick:
  assumes "tracks c0 first w"
  shows "tracks c0 first (w\<lparr>wo_hub := heartbeat_tick (wo_catalog w) k (wo_hub w)\<rparr>)"
proof (cases "k = su_listener (wo_sub w)")
  case True
  let ?h = "heartbeat_tick (wo_catalog w) k (wo_hub w)"
  let ?b = "ABeat (ca_feedId (wo_catalog w)) (ca_lastCursor (wo_catalog w)) [authority (wo_catalog w)]"
  note l = tracks_listens [OF assms]
  have "idle (wo_catalog w)" using assms by (simp add: tracks_def Let_def)
  moreover have "listens (su_listener (wo_sub w)) ?h"
    using l by (auto simp: listens_def heartbeat_tick_def on_queue_def nth_list_update)
  moreover have "queue_of (su_listener (wo_sub w)) ?h = fold bounded.step [Inl ?b] (own_queue w)"
    using l True by (simp add: listens_def heartbeat_tick_def on_queue_def queue_of_def)
  moreover have "timed (ca_feedId c0) (ca_lastCursor c0) (vs @ bounded.pushed [Inl ?b])"
    if "emits c0 (wo_catalog w) (controls vs)" "timed (ca_feedId c0) (ca_lastCursor c0) vs" for vs
    using that by (simp add: timed_append emits_def own_items_all)
  ultimately show ?thesis
    using tracks_grows [OF assms emits_none, of ?h "[Inl ?b]"] by simp
next
  case False
  then have "moves [] (su_listener (wo_sub w)) (wo_hub w) (heartbeat_tick (wo_catalog w) k (wo_hub w))"
    by (intro movesI [where ops = "[]"]) (auto simp: heartbeat_tick_def listens_def queue_of_def on_queue_def beatless_def)
  with assms show ?thesis by (rule tracks_hub)
qed

lemma answer_items_prefix: "prefix as bs \<Longrightarrow> prefix (answer_items as) (answer_items bs)"
  by (auto simp: prefix_def)

lemma own_items_prefix:
  assumes "prefix got is" "own_items c got = got"
  shows "prefix got (own_items c is)"
  using assms by (auto simp: prefix_def own_items_append)

text \<open>What has been read is a prefix of what the catalog emitted, within the subscription's feed.\<close>

lemma read_prefix:
  assumes "bounded.faithful vs q" "own_items c (controls (answer_items (take m (mq_answers q)))) = controls (answer_items (take m (mq_answers q)))"
  shows "prefix (controls (answer_items (take m (mq_answers q)))) (own_items c (controls vs))"
proof -
  have "prefix (answer_items (take m (mq_answers q))) (taken q @ mq_values q)"
    using answer_items_prefix [OF take_is_prefix, of m "mq_answers q"] by (simp add: taken_def)
  then have "prefix (answer_items (take m (mq_answers q))) vs"
    using assms(1) by (auto simp: bounded.faithful_def intro: prefix_order.trans)
  from own_items_prefix [OF prefix_controls [OF this] assms(2)] show ?thesis .
qed

lemma deliver_next:
  assumes "emits c0 d (controls vs)" "bounded.faithful vs q" "n < length (mq_answers q)"
    and s: "su_feedId s = ca_feedId c0" "su_checkpoint s = ca_lastCursor c0" "su_watch s = WatchAll" "su_live s"
    and out: "su_out s = first @ answer_items (take n (mq_answers q))"
    and own: "local_only c0 (answer_items (take n (mq_answers q)))"
  shows "\<exists>m \<le> Suc n. \<exists>tail. (su_live (deliver c (mq_answers q ! n) s) \<longrightarrow> m = Suc n \<and> tail = []) \<and> list_all is_reset tail \<and>
    su_out (deliver c (mq_answers q ! n) s) = first @ answer_items (take m (mq_answers q)) @ tail \<and>
    local_only c0 (answer_items (take m (mq_answers q)))"
    (is "\<exists>m \<le> Suc n. \<exists>tail. (su_live ?s \<longrightarrow> _) \<and> _ m tail \<and> _ m")
proof -
  let ?items = "\<lambda>m. answer_items (take m (mq_answers q))"
  have next_items: "?items (Suc n) = ?items n @ answer_items [mq_answers q ! n]"
    using assms(3) by (simp add: take_Suc_conv_app_nth)
  show ?thesis
  proof (cases "su_live ?s")
    case False
    then obtain tail where "su_out ?s = su_out s @ tail" "list_all is_reset tail"
      using s(4) by (auto simp: deliver_def is_reset_def split: answer.splits option.splits if_splits)
    with False out own show ?thesis by (intro exI [of _ n] exI [of _ tail]) simp
  next
    case True
    then obtain x where x: "mq_answers q ! n = Item x" "foreign_feed (ca_feedId c0) x = None"
      using s by (auto simp: deliver_def split: answer.splits option.splits)
    have own': "local_only c0 (?items (Suc n))"
      using x own unfolding next_items by (simp add: local_only_def)
    have "su_out ?s = first @ ?items (Suc n)"
    proof (cases x)
      case (AControl i)
      have "i \<in> set (own_items c0 (controls vs))"
        using read_prefix [OF assms(2) local_only_own [OF own']] x AControl unfolding next_items by (auto dest: set_mono_prefix)
      then have "fi_cursor i \<in> set (map fi_cursor (own_items c0 (controls vs)))" by simp
      then have "ca_lastCursor c0 < fi_cursor i" using assms(1) unfolding emits_def by (metis Suc_le_eq atLeastLessThan_iff set_upt)
      with x AControl s out show ?thesis unfolding next_items by (simp add: deliver_def watched_def)
    qed (use x s out in \<open>simp_all add: deliver_def watched_def next_items\<close>)
    with own' show ?thesis by (intro exI [of _ "Suc n"] exI [of _ "[]"]) simp
  qed
qed

lemma tracks_turn:
  assumes "tracks c0 rep w" "consume (wo_catalog w) (wo_sub w) (wo_hub w) = (s, h)"
  shows "tracks c0 rep (w\<lparr>wo_sub := s, wo_hub := h\<rparr>)"
proof (cases "su_live (wo_sub w) \<and> su_read (wo_sub w) < length (mq_answers (own_queue w))")
  case True
  let ?n = "su_read (wo_sub w)" and ?q = "own_queue w"
  let ?s = "deliver (wo_catalog w) (mq_answers ?q ! ?n) ((wo_sub w)\<lparr>su_read := Suc ?n\<rparr>)"
  from assms(2) True have s: "s = ?s" and h: "h = (if su_live ?s then wo_hub w else on_queue (bounded_close None) (su_listener (wo_sub w)) (wo_hub w))"
    unfolding consume_def Let_def by auto
  have same: "su_listener ?s = su_listener (wo_sub w)" "su_feedId ?s = su_feedId (wo_sub w)" "su_read ?s = Suc ?n"
      "su_checkpoint ?s = su_checkpoint (wo_sub w)" "su_watch ?s = su_watch (wo_sub w)"
    by (simp_all add: deliver_def split: answer.split option.split)
  from assms(1) True obtain "is" vs where t: "emits c0 (wo_catalog w) is" "bounded.faithful vs ?q" "controls vs = is"
      "timed (ca_feedId c0) (ca_lastCursor c0) vs"
      "su_out (wo_sub w) = rep @ answer_items (take ?n (mq_answers ?q))"
      "local_only c0 (answer_items (take ?n (mq_answers ?q)))"
      "su_feedId (wo_sub w) = ca_feedId c0" "su_checkpoint (wo_sub w) = ca_lastCursor c0" "su_watch (wo_sub w) = WatchAll"
    unfolding tracks_def Let_def by auto
  from deliver_next [of c0 "wo_catalog w" vs ?q ?n "(wo_sub w)\<lparr>su_read := Suc ?n\<rparr>" rep "wo_catalog w"] t True
  obtain m tail where m: "m \<le> Suc ?n" "su_live ?s \<longrightarrow> m = Suc ?n \<and> tail = []" "list_all is_reset tail"
    "su_out ?s = rep @ answer_items (take m (mq_answers ?q)) @ tail"
    "local_only c0 (answer_items (take m (mq_answers ?q)))"
    by auto
  have facts: "idle (wo_catalog w)" "listens (su_listener (wo_sub w)) (wo_hub w)"
    using assms(1) by (simp_all add: tracks_def Let_def)
  have "tracks c0 rep (w\<lparr>wo_sub := ?s\<rparr>)"
    unfolding tracks_def Let_def
    by (intro conjI exI [of _ "is"] exI [of _ vs] exI [of _ m] exI [of _ tail]) (use facts t m True in \<open>simp_all add: same\<close>)
  then show ?thesis
    using tracks_hub [of c0 rep "w\<lparr>wo_sub := ?s\<rparr>", OF _ moves_close] by (simp add: s h same)
next
  case False
  with assms(2) have "s = wo_sub w" "moves [] (su_listener (wo_sub w)) (wo_hub w) h"
    by (auto simp: consume_def Let_def moves_close moves_next moves_same split: if_splits)
  with tracks_hub [OF assms(1)] show ?thesis by (cases w) simp
qed

lemma tracks_step: "world_step e w w' \<Longrightarrow> tracks c0 rep w \<Longrightarrow> tracks c0 rep w'"
proof (induction rule: world_step.induct)
  case (commit w d)
  then have idle: "idle (wo_catalog w)" by (simp add: tracks_def Let_def)
  from emits_run [OF catalog_steps_one [OF commit.hyps] idle] obtain js where
    "idle d" "emits (wo_catalog w) d js" by blast
  moreover from this have "new_items (wo_catalog w) d = js" by (simp add: emits_def)
  ultimately show ?case using tracks_moves [OF commit.prems moves_onControls] by simp
next
  case (turn w s h)
  then show ?case by (blast intro: tracks_turn)
qed (blast intro: tracks_hub moves_publish moves_runtime tracks_tick moves_subscribe moves_next moves_close moves_closeHub)+

lemma tracks_steps: "world_steps e w w' \<Longrightarrow> tracks c0 rep w \<Longrightarrow> tracks c0 rep w'"
  unfolding world_steps_def by (induction rule: rtranclp_induct) (auto intro: tracks_step)

definition native_only :: "access_item list \<Rightarrow> bool" where
  "native_only xs \<longleftrightarrow> list_all native_item xs"

lemma native_only_simps [simp]:
  "native_only []" "native_only (x # xs) \<longleftrightarrow> native_item x \<and> native_only xs"
  "native_only (xs @ ys) \<longleftrightarrow> native_only xs \<and> native_only ys"
  by (simp_all add: native_only_def)

lemma native_only_quiet: "native_only xs \<Longrightarrow> controls xs = []"
  by (induction xs) (auto simp: native_item_def split: access_item.splits)

lemma ring_replay_native: "native_only (ring_replay h None cur)"
proof -
  have natives: "native_only (map ANative ns)" for ns by (induction ns) (simp_all add: native_item_def)
  have "native_only (native_replay k p r)" for k p r
    by (simp add: native_replay_def Let_def natives native_item_def split: list.split)
  then have "native_only (concat (map (\<lambda>(k, r). native_replay k (f k) r) rs))"
    for f :: "string \<Rightarrow> native_position option" and rs
    by (induction rs) auto
  then show ?thesis by (simp add: ring_replay_def)
qed

lemma prefix_upt: "map f xs @ ys = [Suc a..<b] \<Longrightarrow> map f xs = [Suc a..<Suc (a + length xs)]"
proof -
  assume "map f xs @ ys = [Suc a..<b]"
  then have "map f xs = take (length xs) [Suc a..<b]" "length xs \<le> b - Suc a"
    by (metis append_eq_conv_conj length_map, metis le_add1 length_append length_map length_upt)
  moreover from this have "xs \<noteq> [] \<Longrightarrow> Suc a + length xs \<le> b" by (cases xs) auto
  ultimately show ?thesis by (cases "xs = []") (simp_all add: take_upt)
qed

lemma prefix_take: "prefix xs ys \<Longrightarrow> xs = take (length xs) ys"
  by (auto simp: prefix_def)

lemma attach_tracks:
  assumes "idle c" "sc_feedId cur = ca_feedId c" "canReplayControlCursor (sc_controlCursor cur) c"
    and "attach c None native (Some cur) h = (s, h')"
  shows "tracks c (map AControl (take replay_page (filter (\<lambda>i. sc_controlCursor cur < fi_cursor i) (ca_events c))) @
      (if native then ring_replay h None cur else []))
    \<lparr>wo_catalog = c, wo_hub = h', wo_sub = s\<rparr>"
proof -
  let ?es = "take replay_page (filter (\<lambda>i. sc_controlCursor cur < fi_cursor i) (ca_events c))"
  have bound: "fi_cursor i \<le> ca_lastCursor c" if "i \<in> set ?es" for i
  proof -
    from that have "fi_cursor i \<in> set (map fi_cursor (ca_events c))" by (auto dest: in_set_takeD)
    with assms(1) show ?thesis unfolding idle_def feed_ok_def by (metis atLeastLessThan_iff less_Suc_eq_le set_upt)
  qed
  have tw: "takeWhile (\<lambda>i. fi_cursor i \<le> ca_lastCursor c) ?es = ?es" using bound by (auto simp: takeWhile_eq_all_conv)
  have "watched WatchAll item" for item by (simp add: watched_def split: access_item.split)
  moreover have "filter (\<lambda>x. selected x None native) (map AControl es) = map AControl es" for es
    by (auto simp: filter_id_conv selected_def)
  ultimately have "control_replay c (sc_controlCursor cur) (ca_lastCursor c)
      (\<lambda>item. watched WatchAll item \<and> selected item None native) = map AControl ?es"
    using assms(3) by (simp add: control_replay_def controlEventsAfter_def tw)
  with assms have s: "s = \<lparr>su_listener = length (hb_listeners h), su_feedId = ca_feedId c,
      su_checkpoint = ca_lastCursor c, su_watch = WatchAll,
      su_out = map AControl ?es @ (if native then ring_replay h None cur else []), su_read = 0, su_live = True\<rparr>"
    and h': "h' = h\<lparr>hb_listeners := hb_listeners h @
      [\<lparr>hl_queue = new_queue (hb_buffer h), hl_sessions = None, hl_includeNative = native\<rparr>]\<rparr>"
    by (auto simp: attach_def subscribe_def first_items_def Let_def)
  show ?thesis
    unfolding tracks_def Let_def
    using assms(1)
    by (simp add: s h' listens_def queue_of_def, intro exI [of _ "[]"] conjI)
      (simp_all add: emits_none new_bounded_faithful local_only_def)
qed


subsection \<open>Properties\<close>

lemma timed_flows:
  assumes "local_only c xs" "timed (ca_feedId c) n xs"
    and "map fi_cursor (controls xs) = [Suc n..<Suc (n + length (controls xs))]"
  shows "flows (ca_feedId c) n xs"
  using assms
proof (induction xs arbitrary: n)
  case (Cons x xs)
  show ?case
  proof (cases x)
    case (AControl i)
    have "[Suc n..<Suc (n + length (controls (x # xs)))] = Suc n # [Suc (Suc n)..<Suc (Suc n + length (controls xs))]"
      by (simp add: AControl upt_rec [of "Suc n"])
    with Cons.prems(3) have "fi_cursor i = Suc n" "map fi_cursor (controls xs) = [Suc (Suc n)..<Suc (Suc n + length (controls xs))]"
      by (simp_all add: AControl)
    with Cons.IH [of "Suc n"] Cons.prems(1,2) AControl show ?thesis
      by (auto simp: local_only_def foreign_feed_def split: if_splits)
  qed (use Cons in \<open>auto simp: local_only_def foreign_feed_def split: if_splits\<close>)
qed simp

lemma flows_prefix: "flows f k ys \<Longrightarrow> prefix xs ys \<Longrightarrow> flows f k xs"
  by (auto simp: prefix_def flows_append)

lemma flows_no_reset: "flows f k xs \<Longrightarrow> x \<in> set xs \<Longrightarrow> \<not> is_reset x"
  by (induction f k xs rule: flows.induct) (auto simp: is_reset_def)

lemma prefix_unreset:
  assumes "prefix xs (ys @ zs)" "list_all is_reset zs" "\<forall>x \<in> set xs. \<not> is_reset x"
  shows "prefix xs ys"
proof (cases zs)
  case (Cons z zs')
  show ?thesis
  proof (rule ccontr)
    assume "\<not> prefix xs ys"
    with assms(1) obtain us where "xs = ys @ us" "prefix us zs" "us \<noteq> []" by (auto simp: prefix_append)
    with Cons assms(2,3) show False by (cases us) auto
  qed
qed (use assms in simp)

lemma tracks_items:
  assumes "tracks c0 first w"
  shows "prefix (controls (su_out (wo_sub w))) (controls first @ own_items c0 (new_items c0 (wo_catalog w)))"
    and "su_live (wo_sub w) \<and> \<not> mq_closed (own_queue w) \<and> mq_values (own_queue w) = [] \<and>
      su_read (wo_sub w) = length (mq_answers (own_queue w)) \<Longrightarrow>
      controls (su_out (wo_sub w)) = controls first @ own_items c0 (new_items c0 (wo_catalog w))"
    and "map fi_cursor (own_items c0 (new_items c0 (wo_catalog w))) =
      [Suc (ca_lastCursor c0)..<Suc (ca_lastCursor c0 + length (own_items c0 (new_items c0 (wo_catalog w))))]"
    and "flows (ca_feedId c0) k first \<Longrightarrow> k + length (controls first) = ca_lastCursor c0 \<Longrightarrow>
      prefix got (su_out (wo_sub w)) \<Longrightarrow> \<forall>x \<in> set got. \<not> is_reset x \<Longrightarrow> flows (ca_feedId c0) k got"
proof -
  let ?as = "mq_answers (own_queue w)"
  from assms obtain vs m tail where t: "emits c0 (wo_catalog w) (controls vs)" "bounded.faithful vs (own_queue w)"
      "su_live (wo_sub w) \<longrightarrow> m = su_read (wo_sub w) \<and> tail = []" "list_all is_reset tail"
      "su_out (wo_sub w) = first @ answer_items (take m ?as) @ tail"
      "local_only c0 (answer_items (take m ?as))" "timed (ca_feedId c0) (ca_lastCursor c0) vs"
    unfolding tracks_def Let_def by blast
  note quiet = resets_quiet [OF t(4)]
  note own = local_only_own [OF t(6)]
  from t(1) have new: "new_items c0 (wo_catalog w) = controls vs" by (simp add: emits_def)
  note p = read_prefix [OF t(2) own]
  from p show "prefix (controls (su_out (wo_sub w))) (controls first @ own_items c0 (new_items c0 (wo_catalog w)))"
    by (simp add: t(5) new quiet)
  show cursors: "map fi_cursor (own_items c0 (new_items c0 (wo_catalog w))) =
      [Suc (ca_lastCursor c0)..<Suc (ca_lastCursor c0 + length (own_items c0 (new_items c0 (wo_catalog w))))]"
    using t(1) unfolding new by (simp add: emits_def)
  show "controls (su_out (wo_sub w)) = controls first @ own_items c0 (new_items c0 (wo_catalog w))"
    if idle: "su_live (wo_sub w) \<and> \<not> mq_closed (own_queue w) \<and> mq_values (own_queue w) = [] \<and>
      su_read (wo_sub w) = length (mq_answers (own_queue w))"
  proof -
    from idle t(2,3) have "vs = answer_items (take m ?as)" by (simp add: bounded.faithful_def taken_def)
    with t(5) own quiet show ?thesis by (simp add: new)
  qed
  show "flows (ca_feedId c0) k got"
    if "flows (ca_feedId c0) k first" "k + length (controls first) = ca_lastCursor c0"
      "prefix got (su_out (wo_sub w))" "\<forall>x \<in> set got. \<not> is_reset x"
  proof -
    let ?taken = "answer_items (take m ?as)"
    have "prefix ?taken vs"
    proof -
      have "prefix ?taken (taken (own_queue w) @ mq_values (own_queue w))"
        using answer_items_prefix [OF take_is_prefix, of m ?as] by (simp add: taken_def)
      then show ?thesis using t(2) by (auto simp: bounded.faithful_def intro: prefix_order.trans)
    qed
    then have "timed (ca_feedId c0) (ca_lastCursor c0) ?taken" using t(7) by (auto simp: prefix_def timed_append)
    moreover obtain rest where rest: "own_items c0 (controls vs) = controls ?taken @ rest" using p by (auto simp: prefix_def)
    have "map fi_cursor (controls ?taken) @ map fi_cursor rest =
        [Suc (ca_lastCursor c0)..<Suc (ca_lastCursor c0 + length (controls ?taken) + length rest)]"
      using cursors unfolding new rest by (simp only: map_append length_append add.assoc)
    then have "map fi_cursor (controls ?taken) = [Suc (ca_lastCursor c0)..<Suc (ca_lastCursor c0 + length (controls ?taken))]"
      using prefix_upt [of fi_cursor "controls ?taken"] by simp
    ultimately have "flows (ca_feedId c0) (ca_lastCursor c0) ?taken" using t(6) by (intro timed_flows)
    with that(1,2) have "flows (ca_feedId c0) k (first @ ?taken)" by (simp add: flows_append)
    moreover have "prefix got (first @ ?taken)"
      by (rule prefix_unreset [OF _ t(4) that(4)]) (use that(3) t(5) in simp)
    ultimately show ?thesis by (rule flows_prefix)
  qed
qed

text \<open>The situation of the properties: a subscriber follows the whole feed from a cursor the feed can
  replay, and anything may happen afterwards.\<close>

lemma subscriber_tracks:
  assumes "openCatalog e opts t tr (createCatalog node feedId realm epoch retention) = Inr c1" "catalog_steps e c1 c0"
    and "sc_feedId cur = ca_feedId c0" "canReplayControlCursor (sc_controlCursor cur) c0"
    and "ca_lastCursor c0 \<le> sc_controlCursor cur + 10000"
    and "attach c0 None native (Some cur) h = (s, h')"
    and "world_steps e \<lparr>wo_catalog = c0, wo_hub = h', wo_sub = s\<rparr> w"
  shows "tracks c0 (map AControl (drop (sc_controlCursor cur) (generation c0)) @ (if native then ring_replay h None cur else [])) w"
    and "map fi_cursor (drop (sc_controlCursor cur) (generation c0)) = [Suc (sc_controlCursor cur)..<Suc (ca_lastCursor c0)]"
    and "sc_controlCursor cur + length (drop (sc_controlCursor cur) (generation c0)) = ca_lastCursor c0"
    and "drop (sc_controlCursor cur) (generation c0) = filter (\<lambda>i. sc_controlCursor cur < fi_cursor i) (ca_events c0)"
proof -
  let ?k = "sc_controlCursor cur"
  have h: "history c0" using feed.steps_R [OF assms(2)] history_open [OF assms(1)] by blast
  then have idle: "idle c0" and g: "map fi_cursor (generation c0) = [1..<Suc (ca_lastCursor c0)]"
      "ca_events c0 = drop (ca_minCursor c0) (generation c0)"
    by (simp_all add: history_def)
  have k: "ca_minCursor c0 \<le> ?k" "?k \<le> ca_lastCursor c0" using assms(4) by (simp_all add: canReplayControlCursor_def)
  have len: "length (generation c0) = ca_lastCursor c0" using arg_cong [OF g(1), of length] by simp
  show es: "drop ?k (generation c0) = filter (\<lambda>i. ?k < fi_cursor i) (ca_events c0)"
    using feed_after [of c0 ?k] idle k g(2) by (simp add: idle_def)
  have "take replay_page (drop ?k (generation c0)) = drop ?k (generation c0)"
    using assms(5) len by (simp add: replay_page_def)
  with tracks_steps [OF assms(7) attach_tracks [OF idle assms(3,4,6)]]
  show "tracks c0 (map AControl (drop ?k (generation c0)) @ (if native then ring_replay h None cur else [])) w"
    by (simp add: es)
  show "map fi_cursor (drop ?k (generation c0)) = [Suc ?k..<Suc (ca_lastCursor c0)]"
    using g(1) by (simp flip: drop_map)
  show "?k + length (drop ?k (generation c0)) = ca_lastCursor c0" using k len by simp
qed

lemma flows_map: "map fi_cursor is = [Suc k..<Suc (k + length is)] \<Longrightarrow> \<forall>i \<in> set is. fi_feedId i = f \<Longrightarrow> flows f k (map AControl is)"
proof (induction "is" arbitrary: k)
  case (Cons i "is")
  have "[Suc k..<Suc (k + length (i # is))] = Suc k # [Suc (Suc k)..<Suc (Suc k + length is)]"
    by (simp add: upt_rec [of "Suc k"])
  with Cons show ?case by simp
qed simp

lemma flows_native: "native_only xs \<Longrightarrow> flows f k xs"
  by (induction f k xs rule: flows.induct) (auto simp: native_item_def)

text \<open>C2: a subscriber misses nothing. A node follows a control node's whole feed from a cursor at
  most 10,000 events behind. Whatever happens afterwards (commits of any kind, promotions, native
  traffic, heartbeats, other subscribers, overflow, abort), the control events it is given are, in
  order and without a gap or a repetition, the events after its cursor: first the retained ones, then
  those emitted under the same feed ID since. As long as its stream is alive and its mailbox is
  drained, it has been given all of them.\<close>

theorem subscriber_gets_every_event:
  assumes "openCatalog e opts t tr (createCatalog node feedId realm epoch retention) = Inr c1" "catalog_steps e c1 c0"
    and "sc_feedId cur = ca_feedId c0" "canReplayControlCursor (sc_controlCursor cur) c0"
    and "ca_lastCursor c0 \<le> sc_controlCursor cur + 10000"
    and "attach c0 None native (Some cur) h = (s, h')"
    and "world_steps e \<lparr>wo_catalog = c0, wo_hub = h', wo_sub = s\<rparr> w"
  shows "let k = sc_controlCursor cur;
      due = drop k (generation c0) @ own_items c0 (new_items c0 (wo_catalog w))
    in map fi_cursor due = [Suc k..<Suc (k + length due)] \<and>
       prefix (controls (su_out (wo_sub w))) due \<and>
       (su_live (wo_sub w) \<and> \<not> mq_closed (own_queue w) \<and> mq_values (own_queue w) = [] \<and>
         su_read (wo_sub w) = length (mq_answers (own_queue w)) \<longrightarrow> controls (su_out (wo_sub w)) = due)"
proof -
  let ?k = "sc_controlCursor cur" and ?own = "own_items c0 (new_items c0 (wo_catalog w))"
  note t = subscriber_tracks [OF assms]
  let ?due = "drop ?k (generation c0) @ ?own"
  have first: "controls (map AControl (drop ?k (generation c0)) @ (if native then ring_replay h None cur else [])) = drop ?k (generation c0)"
    by (simp add: native_only_quiet ring_replay_native)
  have "[Suc ?k..<Suc (ca_lastCursor c0 + length ?own)] =
      [Suc ?k..<Suc (ca_lastCursor c0)] @ [Suc (ca_lastCursor c0)..<Suc (ca_lastCursor c0 + length ?own)]"
    using t(3) upt_add_eq_append [of "Suc ?k" "Suc (ca_lastCursor c0)" "length ?own"] by simp
  then have "map fi_cursor ?due = [Suc ?k..<Suc (ca_lastCursor c0 + length ?own)]"
    using tracks_items(3) [OF t(1)] t(2) by simp
  moreover have "?k + length ?due = ca_lastCursor c0 + length ?own" using t(3) by simp
  ultimately show ?thesis
    using tracks_items(1,2) [OF t(1), unfolded first] unfolding Let_def by (simp only: simp_thms) blast
qed

theorem subscriber_gets_every_event_witness:
  "let c = demo_boot; h = \<lparr>hb_ringSize = 8, hb_buffer = 8, hb_rings = [], hb_seen = [], hb_listeners = []\<rparr>;
      (s, h') = attach c None True (Some \<lparr>sc_feedId = ''f1'', sc_controlCursor = 0, sc_native = []\<rparr>) h
   in length (generation c) = 1 \<and> prefix (controls (su_out s)) (generation c)"
proof -
  let ?h = "\<lparr>hb_ringSize = 8, hb_buffer = 8, hb_rings = [], hb_seen = [], hb_listeners = []\<rparr>"
  let ?cur = "\<lparr>sc_feedId = ''f1'', sc_controlCursor = 0, sc_native = []\<rparr>"
  obtain s h' where sub: "attach demo_boot None True (Some ?cur) ?h = (s, h')" by (cases "attach demo_boot None True (Some ?cur) ?h")
  have here: "sc_feedId ?cur = ca_feedId demo_boot" "canReplayControlCursor (sc_controlCursor ?cur) demo_boot"
      "ca_lastCursor demo_boot \<le> sc_controlCursor ?cur + 10000"
    by (simp_all add: canReplayControlCursor_def demo_defs)
  have "world_steps demo_env \<lparr>wo_catalog = demo_boot, wo_hub = h', wo_sub = s\<rparr> \<lparr>wo_catalog = demo_boot, wo_hub = h', wo_sub = s\<rparr>"
    by (simp add: world_steps_def)
  from subscriber_gets_every_event [OF demo_opened catalog_steps_refl here sub this]
  have "prefix (controls (su_out s)) (generation demo_boot)" by (simp add: own_items_def Let_def)
  moreover have "length (generation demo_boot) = 1" by (simp add: generation_def demo_defs)
  ultimately show ?thesis using sub by simp
qed

text \<open>C12: a client resumes exactly. A client watches a feed through a subscription to the whole feed,
  starting from the cursor it subscribed with. Take any initial part of what the subscription yields, up to a
  reset: the watch hands its handler every control event of that part, each once and in order, and
  both the watch's cursor and the reconnect cursor then stand exactly after the last one handed on,
  whatever heartbeats and native events came between. A subscription from there is due exactly the
  events the handler has not seen.\<close>

theorem client_resumes_exactly:
  assumes "openCatalog e opts t tr (createCatalog node feedId realm epoch retention) = Inr c1" "catalog_steps e c1 c0"
    and "sc_feedId cur = ca_feedId c0" "canReplayControlCursor (sc_controlCursor cur) c0"
    and "ca_lastCursor c0 \<le> sc_controlCursor cur + 10000"
    and "attach c0 None native (Some cur) h = (s, h')"
    and "world_steps e \<lparr>wo_catalog = c0, wo_hub = h', wo_sub = s\<rparr> w"
    and "prefix got (su_out (wo_sub w))" "\<forall>x \<in> set got. \<not> is_reset x" "list_all accessStreamItemSchema got"
  shows "let k = sc_controlCursor cur;
      due = drop k (generation c0) @ own_items c0 (new_items c0 (wo_catalog w));
      (handed, aw) = watch_all got (watchAccess (Some cur));
      n = length (controls handed)
    in controls handed = take n due \<and> controls handed = controls got \<and>
       position_of (aw_cursor aw) = Some (ca_feedId c0, k + n) \<and>
       position_of (snapshot (fold observe got (newCursor (Some cur)))) = Some (ca_feedId c0, k + n)"
proof -
  let ?k = "sc_controlCursor cur"
  let ?first = "map AControl (drop ?k (generation c0)) @ (if native then ring_replay h None cur else [])"
  note t = subscriber_tracks [OF assms(1-7)]
  have first: "controls ?first = drop ?k (generation c0)" by (simp add: native_only_quiet ring_replay_native)
  have "idle c0" using feed.steps_R [OF assms(2)] history_open [OF assms(1)] by (simp add: history_def)
  then have "\<forall>i \<in> set (drop ?k (generation c0)). fi_feedId i = ca_feedId c0"
    unfolding t(4) by (auto simp: idle_def feed_ok_def)
  with t(2,3) have "flows (ca_feedId c0) ?k ?first"
    by (auto simp: flows_append flows_map flows_native ring_replay_native)
  from tracks_items(4) [OF t(1) this _ assms(8,9)] t(3) first have flow: "flows (ca_feedId c0) ?k got" by simp
  have here: "position_of (Some cur) = Some (ca_feedId c0, ?k)" using assms(3) by (simp add: position_of_def)
  have "controls got = take (length (controls got)) (drop ?k (generation c0) @ own_items c0 (new_items c0 (wo_catalog w)))"
    by (rule prefix_take [OF prefix_order.trans [OF prefix_controls [OF assms(8)] tracks_items(1) [OF t(1), unfolded first]]])
  then show ?thesis
    using watch_flow [of "watchAccess (Some cur)", OF _ flow assms(10)] observe_flow [of "newCursor (Some cur)", OF _ flow] here
    by (simp add: watchAccess_def newCursor_def snapshot_def split_beta Let_def)
qed

theorem client_resumes_exactly_witness:
  "let h = \<lparr>hb_ringSize = 8, hb_buffer = 8, hb_rings = [], hb_seen = [], hb_listeners = []\<rparr>;
      cur = \<lparr>sc_feedId = ''f1'', sc_controlCursor = 0, sc_native = []\<rparr>;
      (s, h') = attach demo_boot None True (Some cur) h;
      (handed, aw) = watch_all (su_out s) (watchAccess (Some cur))
   in controls handed = generation demo_boot \<and> position_of (aw_cursor aw) = Some (''f1'', 1)"
proof -
  let ?h = "\<lparr>hb_ringSize = 8, hb_buffer = 8, hb_rings = [], hb_seen = [], hb_listeners = []\<rparr>"
  let ?cur = "\<lparr>sc_feedId = ''f1'', sc_controlCursor = 0, sc_native = []\<rparr>"
  obtain s h' where sub: "attach demo_boot None True (Some ?cur) ?h = (s, h')" by (cases "attach demo_boot None True (Some ?cur) ?h")
  have here: "sc_feedId ?cur = ca_feedId demo_boot" "canReplayControlCursor (sc_controlCursor ?cur) demo_boot"
      "ca_lastCursor demo_boot \<le> sc_controlCursor ?cur + 10000"
    by (simp_all add: canReplayControlCursor_def demo_defs)
  have all: "generation demo_boot = ca_events demo_boot" by (simp add: generation_def demo_defs)
  have "filter (\<lambda>i. 0 < fi_cursor i) (ca_events demo_boot) = ca_events demo_boot" by (simp add: demo_defs)
  moreover have "takeWhile (\<lambda>i. fi_cursor i \<le> ca_lastCursor demo_boot) (take 10000 (ca_events demo_boot)) = ca_events demo_boot"
    by (simp add: demo_defs)
  ultimately have out: "su_out s = map AControl (ca_events demo_boot)"
    using sub here by (auto simp: attach_def subscribe_def first_items_def control_replay_def controlEventsAfter_def Let_def
        selected_def watched_def ring_replay_def replay_page_def all)
  have good: "\<forall>x \<in> set (su_out s). \<not> is_reset x" "list_all accessStreamItemSchema (su_out s)"
    by (auto simp: out is_reset_def demo_defs controlNodeDescriptorSchema_def)
  have "world_steps demo_env \<lparr>wo_catalog = demo_boot, wo_hub = h', wo_sub = s\<rparr> \<lparr>wo_catalog = demo_boot, wo_hub = h', wo_sub = s\<rparr>"
    by (simp add: world_steps_def)
  from client_resumes_exactly [OF demo_opened catalog_steps_refl here sub this, of "su_out s"] good
  have run: "controls (fst (watch_all (su_out s) (watchAccess (Some ?cur)))) = controls (su_out s)"
    "position_of (aw_cursor (snd (watch_all (su_out s) (watchAccess (Some ?cur))))) =
      Some (ca_feedId demo_boot, length (controls (fst (watch_all (su_out s) (watchAccess (Some ?cur))))))"
    by (simp_all add: Let_def split_beta)
  have "ca_feedId demo_boot = ''f1''" "length (ca_events demo_boot) = 1" by (simp_all add: demo_defs)
  with run sub show ?thesis by (simp add: out all split_beta)
qed

text \<open>C33: the limit of the replay. A subscriber more than 10,000 events behind is replayed one page of
  10,000 events and then only what is emitted after it came: the next event after the page, although
  retained, never reaches it, and no reset tells it so.\<close>

theorem replay_page_loses_events:
  assumes "idle c0" "sc_feedId cur = ca_feedId c0" "canReplayControlCursor (sc_controlCursor cur) c0"
    and "sc_controlCursor cur + 10000 < ca_lastCursor c0"
    and "attach c0 None native (Some cur) h = (s, h')"
    and "world_steps e \<lparr>wo_catalog = c0, wo_hub = h', wo_sub = s\<rparr> w"
  shows "sc_controlCursor cur + 10001 \<in> fi_cursor ` set (ca_events c0) \<and>
    sc_controlCursor cur + 10001 \<notin> fi_cursor ` set (controls (su_out (wo_sub w)))"
proof -
  let ?k = "sc_controlCursor cur" and ?own = "own_items c0 (new_items c0 (wo_catalog w))"
  let ?es = "filter (\<lambda>i. ?k < fi_cursor i) (ca_events c0)"
  have k: "ca_minCursor c0 \<le> ?k" using assms(3) by (simp add: canReplayControlCursor_def)
  have ok: "feed_ok c0" using assms(1) by (simp add: idle_def)
  have es: "map fi_cursor ?es = [Suc ?k..<Suc (ca_lastCursor c0)]"
    using feed_after_cursors [OF ok k] assms(4) by simp
  have "?k + 10001 \<in> set (map fi_cursor ?es)" unfolding es using assms(4) by simp
  then have kept: "?k + 10001 \<in> fi_cursor ` set (ca_events c0)" by auto
  note t = tracks_items [OF tracks_steps [OF assms(6) attach_tracks [OF assms(1,2,3,5)]]]
  have first: "controls (map AControl (take replay_page ?es) @ (if native then ring_replay h None cur else [])) = take replay_page ?es"
    by (simp add: native_only_quiet ring_replay_native)
  have "fi_cursor ` set (controls (su_out (wo_sub w))) \<subseteq> set (map fi_cursor (take replay_page ?es)) \<union> set (map fi_cursor ?own)"
    using set_mono_prefix [OF t(1)] unfolding first by auto
  also have "map fi_cursor (take replay_page ?es) = [Suc ?k..<Suc ?k + replay_page]"
    using es assms(4) by (simp add: replay_page_def flip: take_map)
  finally have "?k + 10001 \<notin> fi_cursor ` set (controls (su_out (wo_sub w)))"
    unfolding t(3) using assms(4) by (auto simp: replay_page_def)
  with kept show ?thesis by blast
qed

definition demo_backlog :: catalog where
  "demo_backlog = demo_boot\<lparr>ca_events := map (\<lambda>n. demo_item ''f1'' n (ca_role demo_boot) (SessionUnavailable ''s1'')) [1..<10002],
     ca_lastCursor := 10001, ca_published := 10001\<rparr>"

theorem replay_page_loses_events_witness:
  "let h = \<lparr>hb_ringSize = 8, hb_buffer = 8, hb_rings = [], hb_seen = [], hb_listeners = []\<rparr>;
      (s, h') = attach demo_backlog None True (Some \<lparr>sc_feedId = ''f1'', sc_controlCursor = 0, sc_native = []\<rparr>) h
   in 10001 \<in> fi_cursor ` set (ca_events demo_backlog) \<and> 10001 \<notin> fi_cursor ` set (controls (su_out s))"
proof -
  let ?h = "\<lparr>hb_ringSize = 8, hb_buffer = 8, hb_rings = [], hb_seen = [], hb_listeners = []\<rparr>"
  let ?cur = "\<lparr>sc_feedId = ''f1'', sc_controlCursor = 0, sc_native = []\<rparr>"
  obtain s h' where sub: "attach demo_backlog None True (Some ?cur) ?h = (s, h')"
    by (cases "attach demo_backlog None True (Some ?cur) ?h")
  have idle: "idle demo_backlog"
    by (auto simp: demo_backlog_def idle_def feed_ok_def demo_item_def demo_defs comp_def simp del: upt_rec_numeral)
  have here: "sc_feedId ?cur = ca_feedId demo_backlog" "canReplayControlCursor (sc_controlCursor ?cur) demo_backlog"
      "sc_controlCursor ?cur + 10000 < ca_lastCursor demo_backlog"
    by (simp_all add: canReplayControlCursor_def demo_backlog_def demo_defs)
  have "world_steps demo_env \<lparr>wo_catalog = demo_backlog, wo_hub = h', wo_sub = s\<rparr> \<lparr>wo_catalog = demo_backlog, wo_hub = h', wo_sub = s\<rparr>"
    by (simp add: world_steps_def)
  from replay_page_loses_events [OF idle here sub this] sub show ?thesis by simp
qed


end
