(* ===== verification/Runtime_Hub.thy ===== *)
theory Runtime_Hub
  imports Event_Hub
begin

text \<open>
  The event hub of a runtime node (\<^verbatim>\<open>packages/runtime-node-core/src/event-hub.ts\<close>): rings of native
  events per session, and subscriptions that answer a finite replay before the live mailbox.
\<close>

subsection \<open>Operations\<close>

record node_hub =
  nh_ringSize :: nat
  nh_buffer :: nat
  nh_rings :: "(string, runtime_native list) table"
  nh_queues :: "runtime_item mail_queue list"

definition newNodeHub :: "nat \<Rightarrow> nat \<Rightarrow> nat \<Rightarrow> core_error + node_hub" where
  "newNodeHub ringSize heartbeatMs buffer =
     (if ringSize < 1 \<or> heartbeatMs < 1 \<or> buffer < 1 then Inl RANGE_ERROR
      else Inr \<lparr>nh_ringSize = ringSize, nh_buffer = buffer, nh_rings = [], nh_queues = []\<rparr>)"

text \<open>A listener leaves the set when its queue closes; a closed queue ignores what is pushed.\<close>

definition node_publish :: "runtime_item \<Rightarrow> node_hub \<Rightarrow> node_hub" where
  "node_publish item h =
     (let rings = (case item of
          RNative n \<Rightarrow>
            put (nv_sessionId n)
              (ring_push (nh_ringSize h) (case map_of (nh_rings h) (nv_sessionId n) of Some r \<Rightarrow> r | None \<Rightarrow> []) n)
              (nh_rings h)
        | _ \<Rightarrow> nh_rings h)
      in h\<lparr>nh_rings := rings, nh_queues := map (async_push item) (nh_queues h)\<rparr>)"

definition node_native_replay :: "string \<Rightarrow> native_position option \<Rightarrow> runtime_native list \<Rightarrow> runtime_item list" where
  "node_native_replay k wanted ring =
     (if ring = [] then []
      else
        let epoch = nv_runtimeEpoch (last ring);
            sameEpoch = filter (\<lambda>n. nv_runtimeEpoch n = epoch) ring;
            from = next_wanted wanted epoch
        in
        if Suc (nv_sequence (last sameEpoch)) < from then
          [RGap k (''runtime-node ring ends at sequence '' @ nat_text (nv_sequence (last sameEpoch)) @
             '', behind requested sequence '' @ nat_text (from - 1))]
        else if from < nv_sequence (hd sameEpoch) then
          [RGap k (''runtime-node ring begins at sequence '' @ nat_text (nv_sequence (hd sameEpoch)))]
        else map RNative (filter (\<lambda>n. from \<le> nv_sequence n) sameEpoch))"

record node_stream =
  ns_queue :: nat
  ns_prefix :: "runtime_item list"
  ns_index :: nat
  ns_aborted :: bool

definition node_replay :: "runtime_item list \<Rightarrow> (string, native_position) table \<Rightarrow> node_hub \<Rightarrow> runtime_item list" where
  "node_replay initial native h =
     initial @ concat (map (\<lambda>(k, ring). node_native_replay k (map_of native k) ring) (nh_rings h))"

definition node_subscribe ::
  "runtime_item list \<Rightarrow> (string, native_position) table \<Rightarrow> bool \<Rightarrow> node_hub \<Rightarrow> node_stream \<times> node_hub" where
  "node_subscribe initial native aborted h =
     (let q = new_queue (nh_buffer h) in
      (\<lparr>ns_queue = length (nh_queues h), ns_prefix = (if aborted then [] else node_replay initial native h),
         ns_index = 0, ns_aborted = aborted\<rparr>,
       h\<lparr>nh_queues := nh_queues h @ [if aborted then async_close None q else q]\<rparr>))"

definition node_queue :: "(runtime_item mail_queue \<Rightarrow> runtime_item mail_queue) \<Rightarrow> nat \<Rightarrow> node_hub \<Rightarrow> node_hub" where
  "node_queue f k h = (if k < length (nh_queues h) then h\<lparr>nh_queues := (nh_queues h)[k := f (nh_queues h ! k)]\<rparr> else h)"

definition node_tick :: "nat \<Rightarrow> node_hub \<Rightarrow> node_hub" where
  "node_tick k = node_queue (async_push RBeat) k"

text \<open>The signal's abort event and \<open>return()\<close> both run \<open>close\<close>.\<close>

definition node_abort :: "node_stream \<Rightarrow> node_hub \<Rightarrow> node_stream \<times> node_hub" where
  "node_abort s h = (s\<lparr>ns_aborted := True\<rparr>, node_queue (async_close None) (ns_queue s) h)"

definition node_return :: "node_stream \<Rightarrow> node_hub \<Rightarrow> node_hub" where
  "node_return s h = node_queue (async_close None) (ns_queue s) h"

text \<open>\<open>next()\<close>: an answer at once, or a wait at the mailbox.\<close>

definition node_next :: "node_stream \<Rightarrow> node_hub \<Rightarrow> runtime_item answer option \<times> node_stream \<times> node_hub" where
  "node_next s h =
     (if ns_aborted s then (Some Done, s, node_queue (async_close None) (ns_queue s) h)
      else if ns_index s < length (ns_prefix s)
      then (Some (Item (ns_prefix s ! ns_index s)), s\<lparr>ns_index := Suc (ns_index s)\<rparr>, h)
      else (None, s, node_queue queue_next (ns_queue s) h))"

subsection \<open>A stream and its hub\<close>

datatype node_event =
    Publish runtime_item
  | Tick nat
  | Next
  | Abort
  | Return
  | OtherSubscribes "runtime_item list" "(string, native_position) table"
  | OtherNext nat

definition node_step :: "node_event \<Rightarrow> node_stream \<times> node_hub \<Rightarrow> node_stream \<times> node_hub" where
  "node_step ev sh =
     (case ev of
        Publish item \<Rightarrow> (fst sh, node_publish item (snd sh))
      | Tick k \<Rightarrow> (fst sh, node_tick k (snd sh))
      | Next \<Rightarrow> snd (node_next (fst sh) (snd sh))
      | Abort \<Rightarrow> node_abort (fst sh) (snd sh)
      | Return \<Rightarrow> (fst sh, node_return (fst sh) (snd sh))
      | OtherSubscribes initial native \<Rightarrow> (fst sh, snd (node_subscribe initial native False (snd sh)))
      | OtherNext k \<Rightarrow> (fst sh, if k \<noteq> ns_queue (fst sh) then node_queue queue_next k (snd sh) else snd sh))"

text \<open>What the receiver has been answered, and what the hub had for it in order.\<close>

definition stream_received :: "node_stream \<times> node_hub \<Rightarrow> runtime_item list" where
  "stream_received sh = take (ns_index (fst sh)) (ns_prefix (fst sh)) @ taken (nh_queues (snd sh) ! ns_queue (fst sh))"

definition sent_to :: "nat \<Rightarrow> node_event \<Rightarrow> runtime_item list" where
  "sent_to k ev = (case ev of Publish item \<Rightarrow> [item] | Tick j \<Rightarrow> if j = k then [RBeat] else [] | _ \<Rightarrow> [])"

text \<open>What it is still to be answered if it keeps asking.\<close>

definition stream_pending :: "node_stream \<times> node_hub \<Rightarrow> runtime_item list" where
  "stream_pending sh = drop (ns_index (fst sh)) (ns_prefix (fst sh)) @ mq_values (nh_queues (snd sh) ! ns_queue (fst sh))"

definition own_mailbox :: "node_stream \<times> node_hub \<Rightarrow> runtime_item mail_queue" where
  "own_mailbox sh = nh_queues (snd sh) ! ns_queue (fst sh)"

definition stream_ok :: "runtime_item list \<Rightarrow> node_stream \<times> node_hub \<Rightarrow> bool" where
  "stream_ok vs sh \<longleftrightarrow> (let s = fst sh; q = own_mailbox sh in
     ns_queue s < length (nh_queues (snd sh)) \<and> ns_index s \<le> length (ns_prefix s) \<and> async.faithful vs q \<and>
     (ns_index s < length (ns_prefix s) \<longrightarrow> mq_answers q = [] \<and> mq_waiters q = 0))"

lemma async_step_simps [simp]:
  "async.step (Inl v) q = async_push v q" "async.step (Inr (Inl r)) q = async_close r q"
  "async.step (Inr (Inr u)) q = queue_next q"
  by (simp_all add: async.step_def)

lemma quiet_push:
  "mq_answers q = [] \<and> mq_waiters q = 0 \<Longrightarrow> mq_answers (async_push v q) = [] \<and> mq_waiters (async_push v q) = 0"
  by (simp add: async_push_def queue_push_def async_close_def)

lemma quiet_close:
  "mq_answers q = [] \<and> mq_waiters q = 0 \<Longrightarrow> mq_answers (async_close r q) = [] \<and> mq_waiters (async_close r q) = 0"
  by (simp add: async_close_def)

lemma stream_step:
  assumes "stream_ok vs sh"
  shows "stream_ok (vs @ sent_to (ns_queue (fst sh)) ev) (node_step ev sh) \<and>
    ns_queue (fst (node_step ev sh)) = ns_queue (fst sh) \<and> ns_prefix (fst (node_step ev sh)) = ns_prefix (fst sh)"
proof -
  let ?k = "ns_queue (fst sh)"
  note defs = stream_ok_def Let_def own_mailbox_def node_step_def sent_to_def
  note faithful = async.faithful_push async.faithful_close async.faithful_pull
  show ?thesis
  proof (cases ev)
    case (Publish item)
    with assms show ?thesis by (auto simp: defs node_publish_def faithful quiet_push)
  next
    case (Tick j)
    with assms show ?thesis by (cases "j = ?k") (auto simp: defs node_tick_def node_queue_def faithful quiet_push)
  next
    case Next
    with assms show ?thesis by (auto simp: defs node_next_def node_queue_def faithful quiet_close)
  next
    case Abort
    with assms show ?thesis by (auto simp: defs node_abort_def node_queue_def faithful quiet_close)
  next
    case Return
    with assms show ?thesis by (auto simp: defs node_return_def node_queue_def faithful quiet_close)
  next
    case (OtherSubscribes initial native)
    with assms show ?thesis by (auto simp: defs node_subscribe_def nth_append)
  next
    case (OtherNext j)
    with assms show ?thesis by (auto simp: defs node_queue_def)
  qed
qed

lemma stream_run:
  "stream_ok vs sh \<Longrightarrow> stream_ok (vs @ concat (map (sent_to (ns_queue (fst sh))) evs)) (fold node_step evs sh) \<and>
    ns_prefix (fst (fold node_step evs sh)) = ns_prefix (fst sh)"
proof (induction evs arbitrary: vs sh)
  case (Cons ev evs)
  from Cons.IH [OF conjunct1 [OF stream_step [OF Cons.prems, of ev]]] stream_step [OF Cons.prems, of ev]
  show ?case by simp
qed simp

lemma stream_items:
  assumes "stream_ok vs sh"
  shows "prefix (stream_received sh @ stream_pending sh) (ns_prefix (fst sh) @ vs)"
    and "\<not> mq_closed (own_mailbox sh) \<Longrightarrow> stream_received sh @ stream_pending sh = ns_prefix (fst sh) @ vs"
proof -
  have split: "stream_received sh @ stream_pending sh = ns_prefix (fst sh) @ taken (own_mailbox sh) @ mq_values (own_mailbox sh)"
  proof (cases "ns_index (fst sh) < length (ns_prefix (fst sh))")
    case True
    with assms have "taken (own_mailbox sh) = []" by (simp add: stream_ok_def Let_def taken_def)
    then show ?thesis by (simp add: stream_received_def stream_pending_def own_mailbox_def)
  next
    case False
    then show ?thesis by (simp add: stream_received_def stream_pending_def own_mailbox_def)
  qed
  show "prefix (stream_received sh @ stream_pending sh) (ns_prefix (fst sh) @ vs)"
    "\<not> mq_closed (own_mailbox sh) \<Longrightarrow> stream_received sh @ stream_pending sh = ns_prefix (fst sh) @ vs"
    using assms unfolding split by (auto simp: stream_ok_def Let_def async.faithful_def)
qed

subsection \<open>Properties\<close>

text \<open>C24: a runtime node's stream. Whatever is published, and however the receiver asks, is slow or
  aborts, what it is answered, followed by what it would be answered next, is the replay it
  subscribed with and then the published items and its own heartbeats, in order and without a
  repetition. Nothing is missing while the mailbox is open; once it has closed, be it by overflow,
  the buffered items are still answered and only a tail is lost.\<close>

theorem runtime_stream_in_order:
  assumes "node_subscribe initial native False h = sh0"
  shows "let sh = fold node_step evs sh0;
      due = node_replay initial native h @ concat (map (sent_to (length (nh_queues h))) evs)
    in prefix (stream_received sh @ stream_pending sh) due \<and>
      (\<not> mq_closed (own_mailbox sh) \<longrightarrow> stream_received sh @ stream_pending sh = due)"
proof -
  from assms have start: "stream_ok [] sh0" "ns_queue (fst sh0) = length (nh_queues h)"
      "ns_prefix (fst sh0) = node_replay initial native h"
    by (auto simp: node_subscribe_def stream_ok_def own_mailbox_def Let_def new_async_faithful) (simp_all add: new_queue_def)
  from stream_run [OF start(1), of evs] show ?thesis
    using stream_items [of _ "fold node_step evs sh0"] by (simp add: start(2,3))
qed

theorem runtime_stream_in_order_witness:
  "let h = \<lparr>nh_ringSize = 8, nh_buffer = 1, nh_rings = [], nh_queues = []\<rparr>;
      evs = [Publish (RGap ''s1'' ''a''), Next, Publish RBeat, Publish (RGap ''s2'' ''b''), Next, Next, Next];
      sh = fold node_step evs (node_subscribe [RGap ''s0'' ''i''] [] False h)
   in prefix (stream_received sh @ stream_pending sh)
        (node_replay [RGap ''s0'' ''i''] [] h @ concat (map (sent_to (length (nh_queues h))) evs)) \<and>
      stream_received sh @ stream_pending sh = [RGap ''s0'' ''i'', RGap ''s1'' ''a''] \<and> mq_closed (own_mailbox sh)"
proof -
  let ?h = "\<lparr>nh_ringSize = 8, nh_buffer = 1, nh_rings = [], nh_queues = []\<rparr>"
  let ?evs = "[Publish (RGap ''s1'' ''a''), Next, Publish RBeat, Publish (RGap ''s2'' ''b''), Next, Next, Next]"
  let ?sh = "fold node_step ?evs (node_subscribe [RGap ''s0'' ''i''] [] False ?h)"
  have "stream_received ?sh @ stream_pending ?sh = [RGap ''s0'' ''i'', RGap ''s1'' ''a''] \<and> mq_closed (own_mailbox ?sh)"
    by code_simp
  with runtime_stream_in_order [OF refl, where initial = "[RGap ''s0'' ''i'']" and native = "[]" and h = ?h and evs = ?evs]
  show ?thesis unfolding Let_def by blast
qed

text \<open>no silent gap in native events. When the events of the newest runtime epoch in a session's
  ring are numbered without a gap from \<open>a\<close> to below \<open>b\<close>, a receiver that wants to go on at \<open>n\<close> gets
  exactly the events \<open>n, ..., b - 1\<close> if they are all there (none when it has all of them), and
  otherwise a single gap notice that sends it to the native history.\<close>

theorem native_replay_exact:
  assumes "ring \<noteq> []"
    and "sameEpoch = filter (\<lambda>n. nv_runtimeEpoch n = nv_runtimeEpoch (last ring)) ring"
    and "map nv_sequence sameEpoch = [a..<b]"
    and "n = next_wanted wanted (nv_runtimeEpoch (last ring))"
  shows "(a \<le> n \<and> n \<le> b \<longrightarrow> node_native_replay k wanted ring = map RNative (drop (n - a) sameEpoch) \<and>
      map nv_sequence (drop (n - a) sameEpoch) = [n..<b]) \<and>
    (n < a \<or> b < n \<longrightarrow> (\<exists>reason. node_native_replay k wanted ring = [RGap k reason]))"
proof -
  have "last ring \<in> set sameEpoch" using assms(1,2) by simp
  then have ne: "sameEpoch \<noteq> []" by auto
  then have ab: "a < b" using assms(3) by (cases "a < b") auto
  have first: "nv_sequence (hd sameEpoch) = a" using assms(3) ne ab by (metis hd_map hd_upt)
  have last: "Suc (nv_sequence (last sameEpoch)) = b"
    using assms(3) ne ab by (metis last_map last_upt Suc_pred' gr_implies_not_zero neq0_conv diff_Suc_1 Suc_diff_1)
  have "filter (\<lambda>m. n \<le> nv_sequence m) sameEpoch = drop (n - a) sameEpoch" if "a \<le> n"
    using assms(3) that
  proof (induction sameEpoch arbitrary: a)
    case (Cons m ms)
    then have m: "nv_sequence m = a" and rest: "map nv_sequence ms = [Suc a..<b]"
      by (cases "a < b"; simp add: upt_conv_Cons)+
    show ?case
    proof (cases "n = a")
      case True
      have "\<forall>x \<in> set (m # ms). a \<le> nv_sequence x" using Cons.prems(1) by (metis atLeastLessThan_iff image_eqI list.set_map set_upt)
      with True show ?thesis by (simp add: filter_id_conv)
    next
      case False
      with Cons.prems(2) have "Suc a \<le> n" by simp
      from Cons.IH [OF rest this] show ?thesis using m False Cons.prems(2) by (simp add: Suc_diff_Suc drop_Cons' )
    qed
  qed simp
  moreover have "map nv_sequence (drop (n - a) sameEpoch) = [n..<b]" if "a \<le> n"
    using assms(3) that by (simp flip: drop_map)
  ultimately show ?thesis
    using assms(1) ne first last unfolding node_native_replay_def by (auto simp: Let_def simp flip: assms(2,4))
qed

theorem native_replay_exact_witness:
  "let ev = (\<lambda>n. \<lparr>nv_sessionId = ''s1'', nv_harness = ''codex'', nv_runtimeEpoch = ''e1'', nv_sequence = n,
       nv_nativeType = ''x'', nv_payload = JNull, nv_ephemeral = False\<rparr>)
   in node_native_replay ''s1'' (Some \<lparr>np_runtimeEpoch = ''e1'', np_sequence = 4\<rparr>) [ev 3, ev 4, ev 5, ev 6] = [RNative (ev 5), RNative (ev 6)]"
proof -
  let ?ev = "\<lambda>n. \<lparr>nv_sessionId = ''s1'', nv_harness = ''codex'', nv_runtimeEpoch = ''e1'', nv_sequence = n,
       nv_nativeType = ''x'', nv_payload = JNull, nv_ephemeral = False\<rparr>"
  have "map nv_sequence [?ev 3, ?ev 4, ?ev 5, ?ev 6] = [3..<7]" by code_simp
  from native_replay_exact [OF _ _ this, of "[?ev 3, ?ev 4, ?ev 5, ?ev 6]" 5 "Some \<lparr>np_runtimeEpoch = ''e1'', np_sequence = 4\<rparr>" "''s1''"]
  show ?thesis by (simp add: next_wanted_def)
qed

end
