(* ===== verification/Runtime_Store.thy ===== *)
theory Runtime_Store
  imports Control_State
begin

text \<open>
  The durable store of a runtime node (\<^verbatim>\<open>packages/runtime-node-core/src/store.ts\<close>): native bindings,
  the journals of commands, launches and archives, tombstones of archived bindings, images, and the
  outbox and receipts of metadata operations. The tables are one record; columns that repeat a field of
  the record they stand beside are left out, columns an upsert leaves alone are kept. \<open>t\<close> is a clock
  reading, \<open>clock\<close> the readings of a loop.
\<close>

subsection \<open>Records\<close>

record node_session =
  ns_sessionId :: string
  ns_runtimeNodeId :: string
  ns_harness :: string
  ns_adapterScopeId :: string
  ns_vendorSessionId :: string
  ns_bindingRevision :: nat
  ns_runtimeEpoch :: "string option"
  ns_cwd :: "string option"
  ns_availability :: availability
  ns_runtimeStatus :: runtime_status
  ns_harnessSettings :: "json option"
  ns_nativeSummary :: "json option"
  ns_launchProvenance :: "launch_provenance option"
  ns_metadata :: metadata_snapshot
  ns_createdAt :: string
  ns_updatedAt :: string
  ns_lastSeenAt :: "string option"
  ns_lastActivityAt :: "string option"
  ns_metadataAuthority :: "authority_ref option"

definition runtimeNodeSessionRecordSchema :: "node_session \<Rightarrow> bool" where
  "runtimeNodeSessionRecordSchema s \<longleftrightarrow> 0 < ns_bindingRevision s \<and> metadataSnapshotSchema (ns_metadata s)"

text \<open>Spawn options are a union over the harness; the members the harness reads stay a JSON object.\<close>

record prepared_launch =
  pp_backendId :: string
  pp_harness :: string
  pp_options :: "(string \<times> json) list"
  pp_providerState :: "(string \<times> json) list option"

record launch_entry =
  le_request :: launch_request
  le_record :: launch_record
  le_checkpoint :: "(string \<times> json) list option"
  le_preparation :: "prepared_launch option"
  le_pendingFailure :: "string option"

record archive_entry =
  ae_request :: archive_request
  ae_record :: archive_record
  ae_backendReleased :: bool
  ae_providerReleased :: bool

record tombstone =
  tb_sessionId :: string
  tb_harness :: string
  tb_adapterScopeId :: string
  tb_vendorSessionId :: string
  tb_launchProvenance :: "launch_provenance option"
  tb_archivedAt :: string

record image_entry =
  im_imageId :: string
  im_sessionId :: string
  im_bindingRevision :: nat
  im_sha256 :: string
  im_byteLength :: nat
  im_mediaType :: string
  im_receivedBytes :: nat
  im_committed :: bool
  im_updatedAt :: int
  im_sourceKey :: "string option"

subsection \<open>Tables\<close>

text \<open>The request and the session of a launch row are written once, by its first insert.\<close>

record launch_row =
  lw_sessionId :: string
  lw_createdAt :: string
  lw_entry :: launch_entry

record archive_row =
  aw_sessionId :: string
  aw_createdAt :: string
  aw_entry :: archive_entry

record image_row =
  iw_sessionId :: string
  iw_sourceKey :: "string option"
  iw_entry :: image_entry

record tombstone_row =
  tw_sessionId :: string
  tw_record :: tombstone

record node_store =
  st_settings :: "(string, string) table"
  st_bindings :: "(string, node_session) table"
  st_commands :: "(string, command_record) table"
  st_launches :: "(string, launch_row) table"
  st_archives :: "(string, archive_row) table"
  st_tombstones :: "(string \<times> string \<times> string, tombstone_row) table"
  st_images :: "(string, image_row) table"
  st_outbox :: "(string, metadata_patch) table"
  st_receipts :: "(string, metadata_operation) table"

datatype store_error =
    ParseFailed | UniqueViolation | IdentityMismatch | HarnessMismatch | LaunchBindingMismatch
  | ReleaseIncomplete | PatchReused | DuplicateOperation | UnknownOperation | MismatchedOperation
  | SessionUnbound | StaleAuthority | CanonicalDiverged | OperationChanged | NotTerminal
  | AuthorityTooLate | TerminalChanged | LimitInvalid

definition emptyStore :: node_store where
  "emptyStore = \<lparr>st_settings = [], st_bindings = [], st_commands = [], st_launches = [], st_archives = [],
     st_tombstones = [], st_images = [], st_outbox = [], st_receipts = []\<rparr>"

subsection \<open>Settings and images\<close>

definition getSetting :: "string \<Rightarrow> node_store \<Rightarrow> string option" where
  "getSetting k st = map_of (st_settings st) k"

definition setSetting :: "string \<Rightarrow> string \<Rightarrow> node_store \<Rightarrow> node_store" where
  "setSetting k v st = st\<lparr>st_settings := put k v (st_settings st)\<rparr>"

definition getImage :: "string \<Rightarrow> node_store \<Rightarrow> image_entry option" where
  "getImage k st = map_option iw_entry (map_of (st_images st) k)"

definition listImages :: "string option \<Rightarrow> node_store \<Rightarrow> image_entry list" where
  "listImages session st =
     map iw_entry (filter (\<lambda>r. case session of None \<Rightarrow> True | Some k \<Rightarrow> iw_sessionId r = k) (map snd (st_images st)))"

text \<open>A new row must not share its session and source key with another; an old row keeps both columns.\<close>

definition putImage :: "image_entry \<Rightarrow> node_store \<Rightarrow> store_error + node_store" where
  "putImage i st =
     (case map_of (st_images st) (im_imageId i) of
        Some r \<Rightarrow> Inr (st\<lparr>st_images := put (im_imageId i) (r\<lparr>iw_entry := i\<rparr>) (st_images st)\<rparr>)
      | None \<Rightarrow>
          if im_sourceKey i \<noteq> None \<and>
             list_ex (\<lambda>r. iw_sessionId r = im_sessionId i \<and> iw_sourceKey r = im_sourceKey i) (map snd (st_images st))
          then Inl UniqueViolation
          else Inr (st\<lparr>st_images := put (im_imageId i)
            \<lparr>iw_sessionId = im_sessionId i, iw_sourceKey = im_sourceKey i, iw_entry = i\<rparr> (st_images st)\<rparr>))"

definition deleteImage :: "string \<Rightarrow> node_store \<Rightarrow> node_store" where
  "deleteImage k st = st\<lparr>st_images := del k (st_images st)\<rparr>"

subsection \<open>Bindings\<close>

definition node_native_key :: "node_session \<Rightarrow> string \<times> string \<times> string \<times> string" where
  "node_native_key s = (ns_runtimeNodeId s, ns_adapterScopeId s, ns_harness s, ns_vendorSessionId s)"

definition putParsedSession :: "node_session \<Rightarrow> node_store \<Rightarrow> store_error + node_store" where
  "putParsedSession s st =
     (if list_ex (\<lambda>(k, r). k \<noteq> ns_sessionId s \<and> node_native_key r = node_native_key s) (st_bindings st)
      then Inl UniqueViolation
      else Inr (st\<lparr>st_bindings := put (ns_sessionId s) s (st_bindings st)\<rparr>))"

definition putBinding :: "node_session \<Rightarrow> node_store \<Rightarrow> store_error + node_store" where
  "putBinding s st = (if runtimeNodeSessionRecordSchema s then putParsedSession s st else Inl ParseFailed)"

definition getBinding :: "string \<Rightarrow> node_store \<Rightarrow> node_session option" where
  "getBinding k st = map_of (st_bindings st) k"

definition listBindings :: "node_store \<Rightarrow> node_session list" where
  "listBindings st = sort_le (\<lambda>a b. ns_updatedAt b \<le> ns_updatedAt a) (map snd (st_bindings st))"

definition deleteSession :: "string \<Rightarrow> node_store \<Rightarrow> bool \<times> node_store" where
  "deleteSession k st = (has k (st_bindings st), st\<lparr>st_bindings := del k (st_bindings st)\<rparr>)"

definition isNativeBindingArchived :: "string \<Rightarrow> string \<Rightarrow> string \<Rightarrow> node_store \<Rightarrow> bool" where
  "isNativeBindingArchived harness scope vendor st \<longleftrightarrow> has (harness, scope, vendor) (st_tombstones st)"

definition listArchivedNativeBindings :: "node_store \<Rightarrow> tombstone list" where
  "listArchivedNativeBindings st =
     map tw_record (sort_le (\<lambda>a b. tb_archivedAt (tw_record a) < tb_archivedAt (tw_record b) \<or>
         (tb_archivedAt (tw_record a) = tb_archivedAt (tw_record b) \<and> tw_sessionId a \<le> tw_sessionId b))
       (map snd (st_tombstones st)))"

subsection \<open>Commands\<close>

definition getNodeCommand :: "string \<Rightarrow> node_store \<Rightarrow> command_record option" where
  "getNodeCommand k st = map_of (st_commands st) k"

definition putNodeCommand :: "command_record \<Rightarrow> node_store \<Rightarrow> node_store" where
  "putNodeCommand r st = st\<lparr>st_commands := put (cr_commandId r) r (st_commands st)\<rparr>"

definition in_flight :: "command_record \<Rightarrow> bool" where
  "in_flight r \<longleftrightarrow> cr_state r = CReceived \<or> cr_state r = CStarted"

definition recovered :: "string \<Rightarrow> command_record \<Rightarrow> command_record" where
  "recovered t r = r\<lparr>cr_state := COutcomeUnknown,
     cr_error := Some ''runtime node restarted after native dispatch; outcome requires reconciliation'',
     cr_updatedAt := t\<rparr>"

definition recoverInFlightCommands :: "(nat \<Rightarrow> string) \<Rightarrow> node_store \<Rightarrow> node_store" where
  "recoverInFlightCommands clock st =
     fold (\<lambda>(i, r) st. if in_flight r then putNodeCommand (recovered (clock i) r) st else st)
       (enumerate 0 (map snd (st_commands st))) st"

text \<open>Opening the store again, after the schema is up to date.\<close>

definition openStore :: "(nat \<Rightarrow> string) \<Rightarrow> node_store \<Rightarrow> node_store" where
  "openStore clock st = recoverInFlightCommands clock st"

subsection \<open>Launches\<close>

definition parseLaunchEntry :: "launch_entry \<Rightarrow> store_error + launch_entry" where
  "parseLaunchEntry en =
     (let q = le_request en; r = le_record en in
      if \<not> launchRecordSchema r then Inl ParseFailed
      else if lq_launchId q \<noteq> lq_launchId r \<or> lq_payloadHash q \<noteq> lq_payloadHash r \<or>
        lq_sessionId q \<noteq> lq_sessionId r \<or> lq_runtimeNodeId q \<noteq> lq_runtimeNodeId r then Inl IdentityMismatch
      else case le_preparation en of
        Some p \<Rightarrow> if pp_harness p \<noteq> lq_harness q then Inl HarnessMismatch else Inr en
      | None \<Rightarrow> Inr en)"

definition putParsedLaunch :: "launch_entry \<Rightarrow> node_store \<Rightarrow> store_error + node_store" where
  "putParsedLaunch en st =
     (let r = le_record en in
      case map_of (st_launches st) (lq_launchId r) of
        Some rw \<Rightarrow> Inr (st\<lparr>st_launches := put (lq_launchId r)
          (rw\<lparr>lw_entry := en\<lparr>le_request := le_request (lw_entry rw)\<rparr>\<rparr>) (st_launches st)\<rparr>)
      | None \<Rightarrow>
          if list_ex (\<lambda>rw. lw_sessionId rw = lq_sessionId r) (map snd (st_launches st)) then Inl UniqueViolation
          else Inr (st\<lparr>st_launches := put (lq_launchId r)
            \<lparr>lw_sessionId = lq_sessionId r, lw_createdAt = lr_createdAt r, lw_entry = en\<rparr> (st_launches st)\<rparr>))"

definition putLaunchEntry :: "launch_entry \<Rightarrow> node_store \<Rightarrow> store_error + node_store" where
  "putLaunchEntry en st = (case parseLaunchEntry en of Inl x \<Rightarrow> Inl x | Inr en \<Rightarrow> putParsedLaunch en st)"

text \<open>Reading a row parses it again.\<close>

definition getLaunchEntry :: "string \<Rightarrow> node_store \<Rightarrow> store_error + launch_entry option" where
  "getLaunchEntry k st =
     (case map_of (st_launches st) k of
        None \<Rightarrow> Inr None | Some rw \<Rightarrow> map_sum id Some (parseLaunchEntry (lw_entry rw)))"

definition getNodeLaunch :: "string \<Rightarrow> node_store \<Rightarrow> store_error + launch_record option" where
  "getNodeLaunch k st = map_sum id (map_option le_record) (getLaunchEntry k st)"

definition getLaunchEntryForSession :: "string \<Rightarrow> node_store \<Rightarrow> store_error + launch_entry option" where
  "getLaunchEntryForSession k st =
     (case find (\<lambda>rw. lw_sessionId rw = k) (map snd (st_launches st)) of
        None \<Rightarrow> Inr None | Some rw \<Rightarrow> map_sum id Some (parseLaunchEntry (lw_entry rw)))"

definition launch_nonterminal :: "launch_record \<Rightarrow> bool" where
  "launch_nonterminal r \<longleftrightarrow> lr_state r \<in> {LAccepted, LPreparing, LNativeStarting, LCleanupPending}"

definition listLaunchEntries :: "bool \<Rightarrow> node_store \<Rightarrow> store_error + launch_entry list" where
  "listLaunchEntries nonterminalOnly st =
     map_err (\<lambda>(k, rw). parseLaunchEntry (lw_entry rw))
       (sort_le (\<lambda>a b. lw_createdAt (snd a) < lw_createdAt (snd b) \<or>
           (lw_createdAt (snd a) = lw_createdAt (snd b) \<and> fst a \<le> fst b))
         (filter (\<lambda>(k, rw). nonterminalOnly \<longrightarrow> launch_nonterminal (le_record (lw_entry rw))) (st_launches st)))"

definition commitLaunchSuccess :: "launch_entry \<Rightarrow> node_session \<Rightarrow> node_store \<Rightarrow> store_error + node_store" where
  "commitLaunchSuccess en s st =
     (case parseLaunchEntry en of
        Inl x \<Rightarrow> Inl x
      | Inr en \<Rightarrow>
          if \<not> runtimeNodeSessionRecordSchema s then Inl ParseFailed
          else if lr_state (le_record en) \<noteq> LSucceeded \<or> lq_sessionId (le_record en) \<noteq> ns_sessionId s \<or>
            (case lr_result (le_record en) of
               None \<Rightarrow> True
             | Some r \<Rightarrow> ls_adapterScopeId r \<noteq> ns_adapterScopeId s \<or> ls_vendorSessionId r \<noteq> ns_vendorSessionId s)
          then Inl LaunchBindingMismatch
          else case putParsedSession s st of Inl x \<Rightarrow> Inl x | Inr st \<Rightarrow> putParsedLaunch en st)"

subsection \<open>Archives\<close>

definition parseArchiveEntry :: "archive_entry \<Rightarrow> store_error + archive_entry" where
  "parseArchiveEntry en =
     (let q = ae_request en; r = ae_record en in
      if \<not> archiveRecordSchema r then Inl ParseFailed
      else if aq_archiveOperationId q \<noteq> aq_archiveOperationId r \<or> aq_payloadHash q \<noteq> aq_payloadHash r \<or>
        aq_sessionId q \<noteq> aq_sessionId r \<or> aq_runtimeNodeId q \<noteq> aq_runtimeNodeId r \<or>
        aq_bindingRevision q \<noteq> aq_bindingRevision r then Inl IdentityMismatch
      else Inr en)"

definition putParsedArchive :: "archive_entry \<Rightarrow> node_store \<Rightarrow> node_store" where
  "putParsedArchive en st =
     (let r = ae_record en in
      case map_of (st_archives st) (aq_archiveOperationId r) of
        Some rw \<Rightarrow> st\<lparr>st_archives := put (aq_archiveOperationId r)
          (rw\<lparr>aw_entry := en\<lparr>ae_request := ae_request (aw_entry rw)\<rparr>\<rparr>) (st_archives st)\<rparr>
      | None \<Rightarrow> st\<lparr>st_archives := put (aq_archiveOperationId r)
          \<lparr>aw_sessionId = aq_sessionId r, aw_createdAt = ar_createdAt r, aw_entry = en\<rparr> (st_archives st)\<rparr>)"

definition putArchiveEntry :: "archive_entry \<Rightarrow> node_store \<Rightarrow> store_error + node_store" where
  "putArchiveEntry en st = (case parseArchiveEntry en of Inl x \<Rightarrow> Inl x | Inr en \<Rightarrow> Inr (putParsedArchive en st))"

definition getArchiveEntry :: "string \<Rightarrow> node_store \<Rightarrow> store_error + archive_entry option" where
  "getArchiveEntry k st =
     (case map_of (st_archives st) k of
        None \<Rightarrow> Inr None | Some rw \<Rightarrow> map_sum id Some (parseArchiveEntry (aw_entry rw)))"

definition getNodeArchive :: "string \<Rightarrow> node_store \<Rightarrow> store_error + archive_record option" where
  "getNodeArchive k st = map_sum id (map_option ae_record) (getArchiveEntry k st)"

definition archive_nonterminal :: "archive_record \<Rightarrow> bool" where
  "archive_nonterminal r \<longleftrightarrow> ar_state r \<in> {AAccepted, AReleasing}"

definition archive_order :: "string \<times> archive_row \<Rightarrow> string \<times> archive_row \<Rightarrow> bool" where
  "archive_order a b \<longleftrightarrow> aw_createdAt (snd a) < aw_createdAt (snd b) \<or>
     (aw_createdAt (snd a) = aw_createdAt (snd b) \<and> fst a \<le> fst b)"

definition listArchiveEntries :: "bool \<Rightarrow> node_store \<Rightarrow> store_error + archive_entry list" where
  "listArchiveEntries nonterminalOnly st =
     map_err (\<lambda>(k, rw). parseArchiveEntry (aw_entry rw))
       (sort_le archive_order
         (filter (\<lambda>(k, rw). nonterminalOnly \<longrightarrow> archive_nonterminal (ae_record (aw_entry rw))) (st_archives st)))"

definition listArchiveEntriesForSession :: "string \<Rightarrow> node_store \<Rightarrow> store_error + archive_entry list" where
  "listArchiveEntriesForSession sid st =
     map_err (\<lambda>(k, rw). parseArchiveEntry (aw_entry rw))
       (sort_le (\<lambda>a b. archive_order b a) (filter (\<lambda>(k, rw). aw_sessionId rw = sid) (st_archives st)))"

text \<open>An upsert of a tombstone keeps the session column of the first insert.\<close>

definition put_tombstone :: "tombstone \<Rightarrow> node_store \<Rightarrow> store_error + node_store" where
  "put_tombstone tb st =
     (let key = (tb_harness tb, tb_adapterScopeId tb, tb_vendorSessionId tb) in
      case map_of (st_tombstones st) key of
        Some rw \<Rightarrow> Inr (st\<lparr>st_tombstones := put key (rw\<lparr>tw_record := tb\<rparr>) (st_tombstones st)\<rparr>)
      | None \<Rightarrow>
          if list_ex (\<lambda>rw. tw_sessionId rw = tb_sessionId tb) (map snd (st_tombstones st)) then Inl UniqueViolation
          else Inr (st\<lparr>st_tombstones := put key \<lparr>tw_sessionId = tb_sessionId tb, tw_record = tb\<rparr> (st_tombstones st)\<rparr>))"

definition tombstone_of :: "node_session \<Rightarrow> string \<Rightarrow> tombstone" where
  "tombstone_of s t = \<lparr>tb_sessionId = ns_sessionId s, tb_harness = ns_harness s, tb_adapterScopeId = ns_adapterScopeId s,
     tb_vendorSessionId = ns_vendorSessionId s, tb_launchProvenance = ns_launchProvenance s, tb_archivedAt = t\<rparr>"

definition commitArchiveSuccess :: "archive_entry \<Rightarrow> node_session \<Rightarrow> node_store \<Rightarrow> store_error + node_store" where
  "commitArchiveSuccess en s st =
     (case parseArchiveEntry en of
        Inl x \<Rightarrow> Inl x
      | Inr en \<Rightarrow>
          if \<not> runtimeNodeSessionRecordSchema s then Inl ParseFailed
          else if ar_state (ae_record en) \<noteq> ASucceeded \<or> \<not> ae_backendReleased en \<or> \<not> ae_providerReleased en \<or>
            aq_sessionId (ae_record en) \<noteq> ns_sessionId s then Inl ReleaseIncomplete
          else case put_tombstone (tombstone_of s (the (ar_releasedAt (ae_record en)))) st of
            Inl x \<Rightarrow> Inl x
          | Inr st \<Rightarrow> Inr (putParsedArchive en
              (st\<lparr>st_bindings := del (aq_sessionId (ae_record en)) (st_bindings st)\<rparr>)))"

subsection \<open>Metadata outbox\<close>

definition same_patch :: "collation \<Rightarrow> metadata_patch \<Rightarrow> metadata_patch \<Rightarrow> bool" where
  "same_patch lc p q \<longleftrightarrow> canonicalJson lc (patch_json p) = canonicalJson lc (patch_json q)"

definition same_operation :: "collation \<Rightarrow> metadata_operation \<Rightarrow> metadata_operation \<Rightarrow> bool" where
  "same_operation lc a b \<longleftrightarrow> canonicalJson lc (operation_json a) = canonicalJson lc (operation_json b)"

definition getReceipt :: "string \<Rightarrow> node_store \<Rightarrow> metadata_operation option" where
  "getReceipt k st = map_of (st_receipts st) k"

definition enqueueParsedMetadata :: "collation \<Rightarrow> metadata_patch \<Rightarrow> node_store \<Rightarrow> store_error + node_store" where
  "enqueueParsedMetadata lc p st =
     (case map_of (st_outbox st) (mp_operationId p) of
        Some q \<Rightarrow> if same_patch lc q p then Inr st else Inl PatchReused
      | None \<Rightarrow>
          (case getReceipt (mp_operationId p) st of
             Some r \<Rightarrow> if same_patch lc (mo_patch r) p then Inr st else Inl PatchReused
           | None \<Rightarrow> Inr (st\<lparr>st_outbox := put (mp_operationId p) p (st_outbox st)\<rparr>)))"

definition enqueueMetadata :: "collation \<Rightarrow> metadata_patch \<Rightarrow> node_store \<Rightarrow> store_error + node_store" where
  "enqueueMetadata lc p st = (if metadataPatchSchema p then enqueueParsedMetadata lc p st else Inl ParseFailed)"

fun try_all :: "('a \<Rightarrow> 's \<Rightarrow> 'e + 's) \<Rightarrow> 'a list \<Rightarrow> 's \<Rightarrow> 'e + 's" where
  "try_all f [] st = Inr st"
| "try_all f (x # xs) st = (case f x st of Inl err \<Rightarrow> Inl err | Inr st \<Rightarrow> try_all f xs st)"

definition putBindingsAndEnqueueMetadata ::
  "collation \<Rightarrow> node_session list \<Rightarrow> metadata_patch list \<Rightarrow> node_store \<Rightarrow> store_error + node_store" where
  "putBindingsAndEnqueueMetadata lc ss ps st =
     (if \<not> list_all runtimeNodeSessionRecordSchema ss \<or> \<not> list_all metadataPatchSchema ps then Inl ParseFailed
      else case try_all putParsedSession ss st of
        Inl err \<Rightarrow> Inl err | Inr st \<Rightarrow> try_all (enqueueParsedMetadata lc) ps st)"

definition putBindings :: "collation \<Rightarrow> node_session list \<Rightarrow> node_store \<Rightarrow> store_error + node_store" where
  "putBindings lc ss st = putBindingsAndEnqueueMetadata lc ss [] st"

definition listMetadataOutbox :: "nat \<Rightarrow> node_store \<Rightarrow> store_error + metadata_patch list" where
  "listMetadataOutbox limit st =
     (if limit < 1 then Inl LimitInvalid else Inr (take limit (map snd (st_outbox st))))"

definition listSessionMetadataOutbox :: "string \<Rightarrow> node_store \<Rightarrow> metadata_patch list" where
  "listSessionMetadataOutbox sid st = filter (\<lambda>p. mp_sessionId p = sid) (map snd (st_outbox st))"

definition listReceipts :: "string option \<Rightarrow> metadata_status option \<Rightarrow> node_store \<Rightarrow> metadata_operation list" where
  "listReceipts sid status st =
     filter (\<lambda>mo. (case sid of None \<Rightarrow> True | Some k \<Rightarrow> mo_sessionId mo = k) \<and>
         (case status of None \<Rightarrow> True | Some x \<Rightarrow> mo_status mo = x)) (map snd (st_receipts st))"

subsection \<open>Settlement\<close>

definition assertSessionAuthority :: "node_session \<Rightarrow> metadata_operation \<Rightarrow> bool" where
  "assertSessionAuthority s mo \<longleftrightarrow>
     (case ns_metadataAuthority s of None \<Rightarrow> False | Some a \<Rightarrow> sameAuthority a (mo_authority mo))"

definition canonical_diverges :: "collation \<Rightarrow> node_session \<Rightarrow> metadata_operation \<Rightarrow> bool" where
  "canonical_diverges lc s mo \<longleftrightarrow>
     ms_revision (mo_canonical mo) = ms_revision (ns_metadata s) \<and>
     canonicalJson lc (snapshot_json (mo_canonical mo)) \<noteq> canonicalJson lc (snapshot_json (ns_metadata s))"

definition same_identity :: "collation \<Rightarrow> metadata_operation \<Rightarrow> metadata_operation \<Rightarrow> bool" where
  "same_identity lc a b \<longleftrightarrow> mo_sessionId a = mo_sessionId b \<and> mo_originControlNodeId a = mo_originControlNodeId b \<and>
     same_patch lc (mo_patch a) (mo_patch b) \<and>
     canonicalJson lc (authority_json (mo_authority a)) = canonicalJson lc (authority_json (mo_authority b))"

text \<open>The receipt a settled operation leaves, and whether it is a new row.\<close>

definition settled_receipt ::
  "collation \<Rightarrow> metadata_operation \<Rightarrow> node_store \<Rightarrow> store_error + metadata_operation \<times> node_store" where
  "settled_receipt lc mo st =
     (case getReceipt (mo_operationId mo) st of
        None \<Rightarrow> Inr (mo, st\<lparr>st_receipts := put (mo_operationId mo) mo (st_receipts st)\<rparr>)
      | Some r \<Rightarrow>
          if \<not> same_identity lc r mo then Inl OperationChanged
          else if mo_status r \<noteq> MQueued \<and> mo_status mo = MQueued then Inr (r, st)
          else if \<not> same_operation lc r mo then Inl OperationChanged
          else Inr (mo, st))"

text \<open>A binding takes a newer canonical snapshot.\<close>

definition advance_session :: "metadata_operation \<Rightarrow> node_session \<Rightarrow> string \<Rightarrow> node_store \<Rightarrow> store_error + node_store" where
  "advance_session mo s t st =
     (if ms_revision (ns_metadata s) < ms_revision (mo_canonical mo)
      then putBinding (s\<lparr>ns_metadata := mo_canonical mo, ns_updatedAt := t\<rparr>) st else Inr st)"

definition settle_one :: "collation \<Rightarrow> string \<Rightarrow> metadata_operation \<Rightarrow> node_store \<Rightarrow> store_error + node_store" where
  "settle_one lc t mo st =
     (case map_of (st_outbox st) (mo_operationId mo) of
        None \<Rightarrow> Inl UnknownOperation
      | Some p \<Rightarrow>
          if mp_sessionId p \<noteq> mo_sessionId mo \<or> \<not> same_patch lc p (mo_patch mo) then Inl MismatchedOperation
          else case getBinding (mo_sessionId mo) st of
            None \<Rightarrow> Inl SessionUnbound
          | Some s \<Rightarrow>
              if \<not> assertSessionAuthority s mo then Inl StaleAuthority
              else if canonical_diverges lc s mo then Inl CanonicalDiverged
              else case settled_receipt lc mo st of
                Inl x \<Rightarrow> Inl x
              | Inr (r, st) \<Rightarrow>
                  (case advance_session r s t st of
                     Inl x \<Rightarrow> Inl x
                   | Inr st \<Rightarrow> Inr (st\<lparr>st_outbox := del (mo_operationId mo) (st_outbox st)\<rparr>)))"

fun settle_all ::
  "collation \<Rightarrow> (nat \<Rightarrow> string) \<Rightarrow> nat \<Rightarrow> string list \<Rightarrow> metadata_operation list \<Rightarrow> node_store \<Rightarrow> store_error + node_store" where
  "settle_all lc clock i seen [] st = Inr st"
| "settle_all lc clock i seen (mo # mos) st =
     (if mo_operationId mo \<in> set seen then Inl DuplicateOperation
      else case settle_one lc (clock i) mo st of
        Inl x \<Rightarrow> Inl x | Inr st \<Rightarrow> settle_all lc clock (Suc i) (mo_operationId mo # seen) mos st)"

definition settleMetadataOutbox ::
  "collation \<Rightarrow> (nat \<Rightarrow> string) \<Rightarrow> metadata_operation list \<Rightarrow> node_store \<Rightarrow> store_error + node_store" where
  "settleMetadataOutbox lc clock mos st =
     (if list_all metadataOperationRecordSchema mos then settle_all lc clock 0 [] mos st else Inl ParseFailed)"

definition same_encoded :: "collation \<Rightarrow> metadata_operation \<Rightarrow> metadata_operation \<Rightarrow> bool" where
  "same_encoded lc a b \<longleftrightarrow> same_operation lc a b"

definition settled_session :: "metadata_operation \<Rightarrow> string \<Rightarrow> node_session \<Rightarrow> node_session" where
  "settled_session mo t s =
     s\<lparr>ns_metadata := if ms_revision (ns_metadata s) < ms_revision (mo_canonical mo) then mo_canonical mo else ns_metadata s,
       ns_metadataAuthority := Some (mo_authority mo), ns_updatedAt := t\<rparr>"

definition settle_session :: "collation \<Rightarrow> metadata_operation \<Rightarrow> string \<Rightarrow> node_store \<Rightarrow> store_error + node_store" where
  "settle_session lc mo t st =
     (case getBinding (mo_sessionId mo) st of
        None \<Rightarrow> Inl SessionUnbound
      | Some s \<Rightarrow>
          let establishes = (ns_metadataAuthority s = None);
              advances = ms_revision (ns_metadata s) < ms_revision (mo_canonical mo);
              stored = st\<lparr>st_receipts := put (mo_operationId mo) mo (st_receipts st)\<rparr>
          in if establishes \<and> ms_revision (ns_metadata s) \<noteq> 0 then Inl AuthorityTooLate
             else if \<not> establishes \<and> \<not> assertSessionAuthority s mo then Inl StaleAuthority
             else if canonical_diverges lc s mo then Inl CanonicalDiverged
             else if establishes \<or> advances then putBinding (settled_session mo t s) stored
             else Inr stored)"

definition applyMetadataSettlement ::
  "collation \<Rightarrow> string \<Rightarrow> metadata_operation \<Rightarrow> node_store \<Rightarrow> store_error + metadata_operation \<times> node_store" where
  "applyMetadataSettlement lc t mo st =
     (if \<not> metadataOperationRecordSchema mo then Inl ParseFailed
      else if mo_status mo = MQueued then Inl NotTerminal
      else case getReceipt (mo_operationId mo) st of
        None \<Rightarrow> map_sum id (Pair mo) (settle_session lc mo t st)
      | Some r \<Rightarrow>
          if mo_sessionId r \<noteq> mo_sessionId mo \<or> \<not> same_patch lc (mo_patch r) (mo_patch mo) then Inl MismatchedOperation
          else if mo_status r \<noteq> MQueued then (if same_encoded lc r mo then Inr (r, st) else Inl TerminalChanged)
          else map_sum id (Pair mo) (settle_session lc mo t st))"

end
