(* ===== verification/Runtime_Store_Props.thy ===== *)
theory Runtime_Store_Props
  imports Runtime_Store
begin

text \<open>
  What a runtime node's store guarantees over any sequence of its operations: rows stay valid and
  uniquely bound, metadata proposals are not lost and their receipts are final, and a restart settles
  exactly the commands in flight.
\<close>

subsection \<open>Runs\<close>

text \<open>The operations that touch metadata, and the others.\<close>

inductive node_metadata_step :: "collation \<Rightarrow> node_store \<Rightarrow> node_store \<Rightarrow> bool" for lc where
  enqueue: "enqueueMetadata lc p st = Inr st' \<Longrightarrow> node_metadata_step lc st st'"
| settle: "settleMetadataOutbox lc clock mos st = Inr st' \<Longrightarrow> node_metadata_step lc st st'"
| settlement: "applyMetadataSettlement lc t mo st = Inr (r, st') \<Longrightarrow> node_metadata_step lc st st'"

inductive store_step :: "collation \<Rightarrow> node_store \<Rightarrow> node_store \<Rightarrow> bool" for lc where
  metadata: "node_metadata_step lc st st' \<Longrightarrow> store_step lc st st'"
| bind: "putBindingsAndEnqueueMetadata lc ss ps st = Inr st' \<Longrightarrow> store_step lc st st'"
| bind_one: "putBinding s st = Inr st' \<Longrightarrow> store_step lc st st'"
| unbind: "store_step lc st (snd (deleteSession k st))"
| command: "store_step lc st (putNodeCommand r st)"
| launch: "putLaunchEntry en st = Inr st' \<Longrightarrow> store_step lc st st'"
| launched: "commitLaunchSuccess en s st = Inr st' \<Longrightarrow> store_step lc st st'"
| archive: "putArchiveEntry ar st = Inr st' \<Longrightarrow> store_step lc st st'"
| archived: "commitArchiveSuccess ar s st = Inr st' \<Longrightarrow> store_step lc st st'"
| image: "putImage i st = Inr st' \<Longrightarrow> store_step lc st st'"
| drop_image: "store_step lc st (deleteImage k st)"
| setting: "store_step lc st (setSetting k v st)"
| restart: "store_step lc st (openStore clock st)"

definition store_steps :: "collation \<Rightarrow> node_store \<Rightarrow> node_store \<Rightarrow> bool" where
  "store_steps lc = (store_step lc)\<^sup>*\<^sup>*"

lemma store_steps_induct [consumes 1, case_names refl step]:
  assumes "store_steps lc st st'" "P st"
    and "\<And>a b. store_step lc a b \<Longrightarrow> P a \<Longrightarrow> P b"
  shows "P st'"
  using assms unfolding store_steps_def by (induction rule: rtranclp_induct) auto

subsection \<open>Frames\<close>

text \<open>What each operation leaves alone.\<close>

lemma try_all_induct:
  assumes "try_all f xs st = Inr st'" "P st" "\<And>x a b. x \<in> set xs \<Longrightarrow> f x a = Inr b \<Longrightarrow> P a \<Longrightarrow> P b"
  shows "P st'"
  using assms
proof (induction xs arbitrary: st)
  case (Cons x xs)
  then obtain a where a: "f x st = Inr a" "try_all f xs a = Inr st'" by (auto split: sum.splits)
  have "P a" using Cons.prems(2,3) a(1) by auto
  with Cons.IH a(2) Cons.prems(3) show ?case by (meson list.set_intros(2))
qed simp

lemma putParsedSession_Inr:
  "putParsedSession s st = Inr st' \<longleftrightarrow>
     (\<forall>(k, r) \<in> set (st_bindings st). k \<noteq> ns_sessionId s \<longrightarrow> node_native_key r \<noteq> node_native_key s) \<and>
     st' = st\<lparr>st_bindings := put (ns_sessionId s) s (st_bindings st)\<rparr>"
  by (auto simp: putParsedSession_def list_ex_iff)

lemma putBinding_Inr:
  "putBinding s st = Inr st' \<longleftrightarrow> runtimeNodeSessionRecordSchema s \<and> putParsedSession s st = Inr st'"
  by (auto simp: putBinding_def)

lemma parseLaunchEntry_Inr:
  "parseLaunchEntry en = Inr en' \<longleftrightarrow>
     en' = en \<and> launchRecordSchema (le_record en) \<and>
     lq_launchId (le_request en) = lq_launchId (le_record en) \<and> lq_payloadHash (le_request en) = lq_payloadHash (le_record en) \<and>
     lq_sessionId (le_request en) = lq_sessionId (le_record en) \<and> lq_runtimeNodeId (le_request en) = lq_runtimeNodeId (le_record en) \<and>
     (case le_preparation en of None \<Rightarrow> True | Some p \<Rightarrow> pp_harness p = lq_harness (le_request en))"
  by (auto simp: parseLaunchEntry_def Let_def split: option.splits)

lemma parseArchiveEntry_Inr:
  "parseArchiveEntry en = Inr en' \<longleftrightarrow>
     en' = en \<and> archiveRecordSchema (ae_record en) \<and>
     aq_archiveOperationId (ae_request en) = aq_archiveOperationId (ae_record en) \<and>
     aq_payloadHash (ae_request en) = aq_payloadHash (ae_record en) \<and>
     aq_sessionId (ae_request en) = aq_sessionId (ae_record en) \<and> aq_runtimeNodeId (ae_request en) = aq_runtimeNodeId (ae_record en) \<and>
     aq_bindingRevision (ae_request en) = aq_bindingRevision (ae_record en)"
  by (auto simp: parseArchiveEntry_def Let_def)

definition ledger :: "node_store \<Rightarrow> (string, metadata_patch) table \<times> (string, metadata_operation) table" where
  "ledger st = (st_outbox st, st_receipts st)"

lemma launch_frame:
  assumes "putParsedLaunch en st = Inr st'"
  shows "ledger st' = ledger st" "st_bindings st' = st_bindings st" "st_tombstones st' = st_tombstones st"
  using assms by (auto simp: putParsedLaunch_def ledger_def Let_def split: option.splits if_splits)

lemma archive_frame:
  "ledger (putParsedArchive en st) = ledger st" "st_bindings (putParsedArchive en st) = st_bindings st"
  "st_tombstones (putParsedArchive en st) = st_tombstones st"
  by (auto simp: putParsedArchive_def ledger_def Let_def split: option.splits)

lemma tombstone_frame:
  assumes "put_tombstone tb st = Inr st'"
  shows "ledger st' = ledger st" "st_bindings st' = st_bindings st"
    "\<exists>rw. st_tombstones st' = put (tb_harness tb, tb_adapterScopeId tb, tb_vendorSessionId tb) rw (st_tombstones st)"
  using assms by (auto simp: put_tombstone_def ledger_def Let_def split: option.splits if_splits)

lemma recover_frame:
  "ledger (recoverInFlightCommands clock st) = ledger st \<and> st_bindings (recoverInFlightCommands clock st) = st_bindings st \<and>
   st_tombstones (recoverInFlightCommands clock st) = st_tombstones st \<and>
   st_launches (recoverInFlightCommands clock st) = st_launches st \<and> st_archives (recoverInFlightCommands clock st) = st_archives st"
proof -
  have "ledger (fold (\<lambda>(i, r) st. if in_flight r then putNodeCommand (recovered (clock i) r) st else st) rs st) = ledger st \<and>
    st_bindings (fold (\<lambda>(i, r) st. if in_flight r then putNodeCommand (recovered (clock i) r) st else st) rs st) = st_bindings st \<and>
    st_tombstones (fold (\<lambda>(i, r) st. if in_flight r then putNodeCommand (recovered (clock i) r) st else st) rs st) = st_tombstones st \<and>
    st_launches (fold (\<lambda>(i, r) st. if in_flight r then putNodeCommand (recovered (clock i) r) st else st) rs st) = st_launches st \<and>
    st_archives (fold (\<lambda>(i, r) st. if in_flight r then putNodeCommand (recovered (clock i) r) st else st) rs st) = st_archives st" for rs
    by (induction rs arbitrary: st) (auto simp: putNodeCommand_def ledger_def)
  then show ?thesis by (simp add: recoverInFlightCommands_def)
qed

text \<open>The bindings of a store only change by these two operations.\<close>

lemma settled_receipt_cases:
  assumes "settled_receipt lc mo st = Inr (r, st')"
  shows "(getReceipt (mo_operationId mo) st = None \<and> r = mo \<and> st' = st\<lparr>st_receipts := put (mo_operationId mo) mo (st_receipts st)\<rparr>) \<or>
     (\<exists>old. getReceipt (mo_operationId mo) st = Some old \<and> st' = st \<and> same_identity lc old mo \<and>
        (r = old \<and> mo_status old \<noteq> MQueued \<and> mo_status mo = MQueued \<or> r = mo \<and> same_operation lc old mo))"
  using assms by (auto simp: settled_receipt_def split: option.splits if_splits)

lemma advance_session_frame:
  assumes "advance_session mo s t st = Inr st'"
  shows "ledger st' = ledger st" "st_tombstones st' = st_tombstones st"
  using assms by (auto simp: advance_session_def ledger_def putBinding_Inr putParsedSession_Inr split: if_splits)

text \<open>One settled operation: its patch leaves the outbox, its receipt stays or is added.\<close>

lemma settle_one_ledger:
  assumes "settle_one lc t mo st = Inr st'"
  shows "\<exists>p. map_of (st_outbox st) (mo_operationId mo) = Some p \<and> same_patch lc p (mo_patch mo) \<and>
     st_outbox st' = del (mo_operationId mo) (st_outbox st) \<and> st_tombstones st' = st_tombstones st \<and>
     ((getReceipt (mo_operationId mo) st = None \<and> st_receipts st' = put (mo_operationId mo) mo (st_receipts st)) \<or>
      (\<exists>old. getReceipt (mo_operationId mo) st = Some old \<and> same_identity lc old mo \<and> st_receipts st' = st_receipts st))"
proof -
  from assms obtain p s r st1 st2 where p: "map_of (st_outbox st) (mo_operationId mo) = Some p" "same_patch lc p (mo_patch mo)"
      and r: "settled_receipt lc mo st = Inr (r, st1)" "advance_session r s t st1 = Inr st2"
      and st': "st' = st2\<lparr>st_outbox := del (mo_operationId mo) (st_outbox st2)\<rparr>"
    by (auto simp: settle_one_def split: option.splits if_splits sum.splits)
  from advance_session_frame [OF r(2)] settled_receipt_cases [OF r(1)] p st' show ?thesis
    by (auto simp: ledger_def)
qed

lemma settle_session_ledger:
  assumes "settle_session lc mo t st = Inr st'"
  shows "st_outbox st' = st_outbox st" "st_receipts st' = put (mo_operationId mo) mo (st_receipts st)"
    "st_tombstones st' = st_tombstones st"
  using assms by (auto simp: settle_session_def Let_def putBinding_Inr putParsedSession_Inr split: option.splits if_splits)

lemma map_sum_Inr: "map_sum id f x = Inr y \<longleftrightarrow> (\<exists>z. x = Inr z \<and> y = f z)"
  by (cases x) auto

lemma enqueue_ledger:
  assumes "enqueueParsedMetadata lc p st = Inr st'"
  shows "st' = st \<or> \<not> has (mp_operationId p) (st_outbox st) \<and> getReceipt (mp_operationId p) st = None \<and>
    st' = st\<lparr>st_outbox := put (mp_operationId p) p (st_outbox st)\<rparr>"
  using assms by (auto simp: enqueueParsedMetadata_def has_def split: option.splits if_splits)

subsection \<open>The ledger of proposals\<close>

text \<open>
  Along a run a proposal of the outbox stays there or has left a receipt for the same patch, and a
  receipt keeps its session and patch; once terminal it does not change at all.
\<close>

definition ledger_forward :: "collation \<Rightarrow> node_store \<Rightarrow> node_store \<Rightarrow> bool" where
  "ledger_forward lc a b \<longleftrightarrow>
     (\<forall>k p. map_of (st_outbox a) k = Some p \<longrightarrow> map_of (st_outbox b) k = Some p \<or>
        map_of (st_outbox b) k = None \<and> (\<exists>r. getReceipt k b = Some r \<and> same_patch lc p (mo_patch r))) \<and>
     (\<forall>k. map_of (st_outbox a) k = None \<and> getReceipt k a \<noteq> None \<longrightarrow> map_of (st_outbox b) k = None) \<and>
     (\<forall>k r. getReceipt k a = Some r \<longrightarrow> (\<exists>r'. getReceipt k b = Some r' \<and> mo_sessionId r' = mo_sessionId r \<and>
        same_patch lc (mo_patch r) (mo_patch r') \<and> (mo_status r \<noteq> MQueued \<longrightarrow> r' = r))) \<and>
     (\<forall>k. has k (st_tombstones a) \<longrightarrow> has k (st_tombstones b))"

lemma same_patch_refl [simp, intro]: "same_patch lc p p"
  by (simp add: same_patch_def)

lemma same_patch_trans: "same_patch lc p q \<Longrightarrow> same_patch lc q r \<Longrightarrow> same_patch lc p r"
  by (simp add: same_patch_def)

lemma same_patch_sym: "same_patch lc p q \<Longrightarrow> same_patch lc q p"
  by (simp add: same_patch_def)

lemma ledger_forward_refl [simp, intro]: "ledger_forward lc a a"
  by (auto simp: ledger_forward_def)

lemma ledger_forwardD:
  assumes "ledger_forward lc a b"
  shows "map_of (st_outbox a) k = Some p \<Longrightarrow> map_of (st_outbox b) k = Some p \<or>
      map_of (st_outbox b) k = None \<and> (\<exists>r. getReceipt k b = Some r \<and> same_patch lc p (mo_patch r))"
    and "map_of (st_outbox a) k = None \<Longrightarrow> getReceipt k a = Some r \<Longrightarrow> map_of (st_outbox b) k = None"
    and "getReceipt k a = Some r \<Longrightarrow> \<exists>r'. getReceipt k b = Some r' \<and> mo_sessionId r' = mo_sessionId r \<and>
      same_patch lc (mo_patch r) (mo_patch r') \<and> (mo_status r \<noteq> MQueued \<longrightarrow> r' = r)"
    and "has key (st_tombstones a) \<Longrightarrow> has key (st_tombstones b)"
  using assms unfolding ledger_forward_def by blast+

lemma ledger_forward_trans:
  assumes ab: "ledger_forward lc a b" and bc: "ledger_forward lc b c"
  shows "ledger_forward lc a c"
  unfolding ledger_forward_def
proof (intro conjI allI impI)
  fix k p assume "map_of (st_outbox a) k = Some p"
  from ledger_forwardD(1) [OF ab this] consider "map_of (st_outbox b) k = Some p"
    | r where "map_of (st_outbox b) k = None" "getReceipt k b = Some r" "same_patch lc p (mo_patch r)" by blast
  then show "map_of (st_outbox c) k = Some p \<or>
      map_of (st_outbox c) k = None \<and> (\<exists>r. getReceipt k c = Some r \<and> same_patch lc p (mo_patch r))"
  proof cases
    case 1
    from ledger_forwardD(1) [OF bc this] show ?thesis .
  next
    case (2 r)
    from ledger_forwardD(3) [OF bc 2(2)] same_patch_trans [OF 2(3)] ledger_forwardD(2) [OF bc 2(1,2)] show ?thesis by blast
  qed
next
  fix k assume k: "map_of (st_outbox a) k = None \<and> getReceipt k a \<noteq> None"
  then obtain r where r: "getReceipt k a = Some r" by blast
  obtain r' where r': "getReceipt k b = Some r'" using ledger_forwardD(3) [OF ab r] by blast
  show "map_of (st_outbox c) k = None"
    by (rule ledger_forwardD(2) [OF bc ledger_forwardD(2) [OF ab conjunct1 [OF k] r] r'])
next
  fix k r assume "getReceipt k a = Some r"
  from ledger_forwardD(3) [OF ab this] obtain r' where r': "getReceipt k b = Some r'" "mo_sessionId r' = mo_sessionId r"
    "same_patch lc (mo_patch r) (mo_patch r')" "mo_status r \<noteq> MQueued \<longrightarrow> r' = r" by blast
  from ledger_forwardD(3) [OF bc r'(1)] same_patch_trans [OF r'(3)] r'(2,4)
  show "\<exists>r''. getReceipt k c = Some r'' \<and> mo_sessionId r'' = mo_sessionId r \<and>
      same_patch lc (mo_patch r) (mo_patch r'') \<and> (mo_status r \<noteq> MQueued \<longrightarrow> r'' = r)" by fastforce
next
  fix key assume "has key (st_tombstones a)"
  with ab bc show "has key (st_tombstones c)" by (blast dest: ledger_forwardD(4))
qed

lemma ledger_forward_frame:
  "ledger b = ledger a \<Longrightarrow> (\<And>k. has k (st_tombstones a) \<Longrightarrow> has k (st_tombstones b)) \<Longrightarrow> ledger_forward lc a b"
  by (auto simp: ledger_forward_def ledger_def getReceipt_def)

lemma forward_enqueue: "enqueueParsedMetadata lc p st = Inr st' \<Longrightarrow> ledger_forward lc st st'"
  using enqueue_ledger [of lc p st st'] by (auto simp: ledger_forward_def getReceipt_def has_def split: if_splits)

lemma forward_settle_one:
  assumes "settle_one lc t mo st = Inr st'"
  shows "ledger_forward lc st st'"
proof -
  from settle_one_ledger [OF assms] obtain p where p: "map_of (st_outbox st) (mo_operationId mo) = Some p"
      "same_patch lc p (mo_patch mo)" "st_outbox st' = del (mo_operationId mo) (st_outbox st)"
      "st_tombstones st' = st_tombstones st"
    and r: "(getReceipt (mo_operationId mo) st = None \<and> st_receipts st' = put (mo_operationId mo) mo (st_receipts st)) \<or>
      (\<exists>old. getReceipt (mo_operationId mo) st = Some old \<and> same_identity lc old mo \<and> st_receipts st' = st_receipts st)"
    by blast
  from r have "\<exists>r. getReceipt (mo_operationId mo) st' = Some r \<and> same_patch lc p (mo_patch r)"
    using p(2) by (auto simp: getReceipt_def same_identity_def same_patch_def)
  moreover have "getReceipt k st' = Some q" if "getReceipt k st = Some q" for k q
    using r that by (auto simp: getReceipt_def)
  ultimately show ?thesis using p by (auto simp: ledger_forward_def)
qed

lemma forward_settle_all: "settle_all lc clock i seen mos st = Inr st' \<Longrightarrow> ledger_forward lc st st'"
proof (induction mos arbitrary: i seen st)
  case (Cons mo mos)
  then obtain a where "settle_one lc (clock i) mo st = Inr a" "settle_all lc clock (Suc i) (mo_operationId mo # seen) mos a = Inr st'"
    by (auto split: if_splits sum.splits)
  with Cons.IH forward_settle_one ledger_forward_trans show ?case by blast
qed simp

lemma forward_apply:
  assumes "applyMetadataSettlement lc t mo st = Inr (r, st')"
  shows "ledger_forward lc st st'"
proof (cases "st' = st")
  case False
  with assms have s: "settle_session lc mo t st = Inr st'" and old: "\<forall>old. getReceipt (mo_operationId mo) st = Some old \<longrightarrow>
      mo_status old = MQueued \<and> mo_sessionId old = mo_sessionId mo \<and> same_patch lc (mo_patch old) (mo_patch mo)"
    by (auto simp: applyMetadataSettlement_def map_sum_Inr split: if_splits option.splits)
  from settle_session_ledger [OF s] old show ?thesis by (auto simp: ledger_forward_def getReceipt_def)
qed simp

lemma forward_metadata: "node_metadata_step lc a b \<Longrightarrow> ledger_forward lc a b"
  by (induction rule: node_metadata_step.induct)
    (auto simp: enqueueMetadata_def settleMetadataOutbox_def split: if_splits
      intro: forward_enqueue forward_settle_all forward_apply)

lemma forward_step: "store_step lc a b \<Longrightarrow> ledger_forward lc a b"
proof (induction rule: store_step.induct)
  case (metadata st st')
  then show ?case by (rule forward_metadata)
next
  case (bind ss ps st st')
  then obtain a where a: "try_all putParsedSession ss st = Inr a" "try_all (enqueueParsedMetadata lc) ps a = Inr st'"
    by (auto simp: putBindingsAndEnqueueMetadata_def split: if_splits sum.splits)
  have "ledger_forward lc st a"
    by (rule try_all_induct [OF a(1)]) (auto simp: putParsedSession_Inr ledger_forward_def getReceipt_def)
  moreover have "ledger_forward lc a st'"
    by (rule try_all_induct [OF a(2)]) (auto intro: ledger_forward_trans forward_enqueue)
  ultimately show ?case by (rule ledger_forward_trans)
next
  case (launch en st st')
  then show ?case using launch_frame
    by (auto simp: putLaunchEntry_def split: sum.splits intro!: ledger_forward_frame)
next
  case (launched en s st st')
  then obtain a where "putParsedSession s st = Inr a" "putParsedLaunch en a = Inr st'"
    by (auto simp: commitLaunchSuccess_def parseLaunchEntry_Inr split: if_splits sum.splits option.splits)
  with launch_frame [of en a st'] show ?case
    by (intro ledger_forward_frame) (auto simp: putParsedSession_Inr ledger_def)
next
  case (archive ar st st')
  then show ?case
    by (auto simp: putArchiveEntry_def archive_frame split: sum.splits intro!: ledger_forward_frame)
next
  case (archived ar s st st')
  then obtain a where "put_tombstone (tombstone_of s (the (ar_releasedAt (ae_record ar)))) st = Inr a"
      "st' = putParsedArchive ar (a\<lparr>st_bindings := del (aq_sessionId (ae_record ar)) (st_bindings a)\<rparr>)"
    by (auto simp: commitArchiveSuccess_def parseArchiveEntry_Inr split: if_splits sum.splits)
  with tombstone_frame [OF this(1)] show ?case
    by (intro ledger_forward_frame) (auto simp: archive_frame, simp add: ledger_def)
next
  case (image i st st')
  then show ?case by (intro ledger_forward_frame) (auto simp: putImage_def ledger_def split: option.splits if_splits)
next
  case (restart st clock)
  show ?case by (intro ledger_forward_frame) (simp_all add: openStore_def recover_frame)
qed (intro ledger_forward_frame; auto simp: putBinding_Inr putParsedSession_Inr ledger_def deleteSession_def putNodeCommand_def
    deleteImage_def setSetting_def)+

lemma forward_steps: "store_steps lc a b \<Longrightarrow> ledger_forward lc a b"
  by (induction rule: store_steps_induct) (auto intro: ledger_forward_trans forward_step)

subsection \<open>Valid rows\<close>

text \<open>
  Bindings are filed under their session, valid, and no native session is bound twice; outbox and
  receipts are filed under their operation; an operation that is in both has a final receipt.
\<close>

definition bindings_ok :: "node_store \<Rightarrow> bool" where
  "bindings_ok st \<longleftrightarrow> keys_ok (st_bindings st) \<and>
     (\<forall>(k, s) \<in> set (st_bindings st). k = ns_sessionId s \<and> runtimeNodeSessionRecordSchema s) \<and>
     distinct (map (\<lambda>x. node_native_key (snd x)) (st_bindings st))"

definition ledger_ok :: "node_store \<Rightarrow> bool" where
  "ledger_ok st \<longleftrightarrow> keys_ok (st_outbox st) \<and> keys_ok (st_receipts st) \<and>
     (\<forall>(k, p) \<in> set (st_outbox st). k = mp_operationId p \<and> metadataPatchSchema p) \<and>
     (\<forall>(k, r) \<in> set (st_receipts st). k = mo_operationId r \<and> metadataOperationRecordSchema r) \<and>
     (\<forall>k r. has k (st_outbox st) \<longrightarrow> getReceipt k st = Some r \<longrightarrow> mo_status r \<noteq> MQueued)"

lemma set_put: "keys_ok t \<Longrightarrow> x \<in> set (put k v t) \<longleftrightarrow> x = (k, v) \<or> (x \<in> set t \<and> fst x \<noteq> k)"
proof (induction t)
  case (Cons y t)
  then show ?case by (cases x; cases y) (auto simp: keys_ok_def image_iff)
qed auto

lemma set_del: "x \<in> set (del k t) \<longleftrightarrow> x \<in> set t \<and> fst x \<noteq> k"
  by (auto simp: AList.delete_eq)

lemma distinct_put:
  assumes "distinct (map (\<lambda>x. f (snd x)) t)" "\<And>x. x \<in> set t \<Longrightarrow> fst x \<noteq> k \<Longrightarrow> f (snd x) \<noteq> f v" "keys_ok t"
  shows "distinct (map (\<lambda>x. f (snd x)) (put k v t))"
  using assms
proof (induction t)
  case (Cons y t)
  obtain a b where y: "y = (a, b)" by (cases y)
  have ok: "keys_ok t" and fresh: "\<And>x. x \<in> set t \<Longrightarrow> fst x \<noteq> a" using Cons.prems(3) y by (auto simp: keys_ok_def)
  show ?case
  proof (cases "a = k")
    case True
    have apart: "f (snd x) \<noteq> f v" if "x \<in> set t" for x
      using Cons.prems(2) [of x] fresh [OF that] True that by simp
    with y Cons.prems(1) True show ?thesis by (fastforce dest: apart)
  next
    case False
    have "f b \<noteq> f (snd x)" if "x \<in> set (put k v t)" for x
      using that False Cons.prems(1) Cons.prems(2) [of y] y by (auto simp: set_put [OF ok])
    with False y Cons.IH ok Cons.prems show ?thesis by auto
  qed
qed simp

lemma distinct_del: "distinct (map f t) \<Longrightarrow> distinct (map f (del k t))"
  by (auto simp: AList.delete_eq distinct_map_filter)

lemma bindings_ok_put:
  assumes "putParsedSession s st = Inr st'" "runtimeNodeSessionRecordSchema s" "bindings_ok st"
  shows "bindings_ok st'"
proof -
  from assms(1) have st': "st_bindings st' = put (ns_sessionId s) s (st_bindings st)"
    and apart: "\<And>x. x \<in> set (st_bindings st) \<Longrightarrow> fst x \<noteq> ns_sessionId s \<Longrightarrow> node_native_key (snd x) \<noteq> node_native_key s"
    by (auto simp: putParsedSession_Inr)
  with assms(2,3) distinct_put [of node_native_key "st_bindings st" "ns_sessionId s" s] show ?thesis
    unfolding bindings_ok_def st' by (auto simp: set_put)
qed

lemma bindings_ok_del: "bindings_ok st \<Longrightarrow> st_bindings st' = del k (st_bindings st) \<Longrightarrow> bindings_ok st'"
  by (auto simp: bindings_ok_def set_del distinct_del)

lemma bindings_ok_frame: "st_bindings st' = st_bindings st \<Longrightarrow> bindings_ok st \<Longrightarrow> bindings_ok st'"
  by (simp add: bindings_ok_def)

lemma ledger_ok_frame: "ledger st' = ledger st \<Longrightarrow> ledger_ok st \<Longrightarrow> ledger_ok st'"
  by (simp add: ledger_ok_def ledger_def getReceipt_def)

lemma ledger_ok_enqueue: "enqueueParsedMetadata lc p st = Inr st' \<Longrightarrow> metadataPatchSchema p \<Longrightarrow> ledger_ok st \<Longrightarrow> ledger_ok st'"
  using enqueue_ledger [of lc p st st'] by (auto simp: ledger_ok_def getReceipt_def set_put)

lemma ledger_ok_settle_one:
  assumes "settle_one lc t mo st = Inr st'" "metadataOperationRecordSchema mo" "ledger_ok st"
  shows "ledger_ok st'"
  using settle_one_ledger [OF assms(1)] assms(2,3) by (auto simp: ledger_ok_def getReceipt_def set_put set_del)

lemma bindings_advance:
  assumes "advance_session mo s t st = Inr st'"
  shows "bindings_ok st \<Longrightarrow> bindings_ok st'"
  using assms by (auto simp: advance_session_def putBinding_Inr split: if_splits intro: bindings_ok_put)

lemma bindings_settle_one:
  assumes "settle_one lc t mo st = Inr st'" "bindings_ok st"
  shows "bindings_ok st'"
proof -
  from assms(1) obtain s r st1 st2 where r: "settled_receipt lc mo st = Inr (r, st1)" "advance_session r s t st1 = Inr st2"
      and st': "st_bindings st' = st_bindings st2"
    by (auto simp: settle_one_def split: option.splits if_splits sum.splits)
  have "st_bindings st1 = st_bindings st" using settled_receipt_cases [OF r(1)] by auto
  with bindings_advance [OF r(2)] assms(2) st' show ?thesis by (auto simp: bindings_ok_def)
qed

lemma ok_settle_all:
  "settle_all lc clock i seen mos st = Inr st' \<Longrightarrow> list_all metadataOperationRecordSchema mos \<Longrightarrow>
   ledger_ok st \<and> bindings_ok st \<Longrightarrow> ledger_ok st' \<and> bindings_ok st'"
proof (induction mos arbitrary: i seen st)
  case (Cons mo mos)
  then obtain a where "settle_one lc (clock i) mo st = Inr a" "settle_all lc clock (Suc i) (mo_operationId mo # seen) mos a = Inr st'"
    by (auto split: if_splits sum.splits)
  moreover from Cons.prems have "metadataOperationRecordSchema mo" "list_all metadataOperationRecordSchema mos" by simp_all
  ultimately show ?case using Cons.IH Cons.prems(3) ledger_ok_settle_one bindings_settle_one by blast
qed simp

lemma ok_settle_session:
  assumes "settle_session lc mo t st = Inr st'" "metadataOperationRecordSchema mo" "mo_status mo \<noteq> MQueued"
    and "ledger_ok st \<and> bindings_ok st"
  shows "ledger_ok st' \<and> bindings_ok st'"
proof
  show "ledger_ok st'"
    using settle_session_ledger [OF assms(1)] assms(2-4) by (auto simp: ledger_ok_def getReceipt_def set_put)
  have "bindings_ok (st\<lparr>st_receipts := x\<rparr>)" for x using assms(4) by (simp add: bindings_ok_def)
  with assms(1) show "bindings_ok st'"
    by (auto simp: settle_session_def Let_def putBinding_Inr split: option.splits if_splits intro: bindings_ok_put)
qed

lemma ledger_metadata_ok: "node_metadata_step lc a b \<Longrightarrow> ledger_ok a \<and> bindings_ok a \<Longrightarrow> ledger_ok b \<and> bindings_ok b"
proof (induction rule: node_metadata_step.induct)
  case (enqueue p st st')
  then have e: "enqueueParsedMetadata lc p st = Inr st'" "metadataPatchSchema p" by (auto simp: enqueueMetadata_def split: if_splits)
  have "st_bindings st' = st_bindings st" using enqueue_ledger [OF e(1)] by auto
  with ledger_ok_enqueue [OF e] enqueue.prems show ?case by (simp add: bindings_ok_def)
next
  case (settle clock mos st st')
  then show ?case by (auto simp: settleMetadataOutbox_def split: if_splits dest: ok_settle_all)
next
  case (settlement t mo st r st')
  then show ?case
    by (auto simp: applyMetadataSettlement_def map_sum_Inr split: if_splits option.splits dest: ok_settle_session)
qed

lemma ok_step: "store_step lc a b \<Longrightarrow> ledger_ok a \<and> bindings_ok a \<Longrightarrow> ledger_ok b \<and> bindings_ok b"
proof (induction rule: store_step.induct)
  case (metadata st st')
  then show ?case using ledger_metadata_ok by blast
next
  case (bind ss ps st st')
  then obtain a where a: "try_all putParsedSession ss st = Inr a" "try_all (enqueueParsedMetadata lc) ps a = Inr st'"
      and ok: "list_all runtimeNodeSessionRecordSchema ss" "list_all metadataPatchSchema ps"
    by (auto simp: putBindingsAndEnqueueMetadata_def split: if_splits sum.splits)
  have "ledger_ok a \<and> bindings_ok a"
  proof (rule try_all_induct [OF a(1), where P = "\<lambda>x. ledger_ok x \<and> bindings_ok x", OF bind.prems])
    fix s x y assume s: "s \<in> set ss" "putParsedSession s x = Inr y" "ledger_ok x \<and> bindings_ok x"
    have "ledger y = ledger x" using s(2) by (auto simp: putParsedSession_Inr ledger_def)
    with s ok(1) bindings_ok_put show "ledger_ok y \<and> bindings_ok y" by (auto simp: list_all_iff intro: ledger_ok_frame)
  qed
  then show ?case
  proof (rule try_all_induct [OF a(2), where P = "\<lambda>x. ledger_ok x \<and> bindings_ok x"])
    fix p x y assume p: "p \<in> set ps" "enqueueParsedMetadata lc p x = Inr y" "ledger_ok x \<and> bindings_ok x"
    have "st_bindings y = st_bindings x" using enqueue_ledger [OF p(2)] by auto
    with p ok(2) ledger_ok_enqueue show "ledger_ok y \<and> bindings_ok y" by (auto simp: list_all_iff intro: bindings_ok_frame)
  qed
next
  case (bind_one s st st')
  then have "ledger st' = ledger st" by (auto simp: putBinding_Inr putParsedSession_Inr ledger_def)
  with bind_one bindings_ok_put show ?case by (auto simp: putBinding_Inr intro: ledger_ok_frame)
next
  case (unbind st k)
  then show ?case by (auto simp: deleteSession_def intro: bindings_ok_del [of st] ledger_ok_frame [of _ st] simp: ledger_def)
next
  case (launch en st st')
  then show ?case
    by (auto simp: putLaunchEntry_def split: sum.splits intro: ledger_ok_frame bindings_ok_frame dest: launch_frame)
next
  case (launched en s st st')
  then obtain a where a: "putParsedSession s st = Inr a" "putParsedLaunch en a = Inr st'" "runtimeNodeSessionRecordSchema s"
    by (auto simp: commitLaunchSuccess_def parseLaunchEntry_Inr split: if_splits sum.splits option.splits)
  have "ledger a = ledger st" using a(1) by (auto simp: putParsedSession_Inr ledger_def)
  with a launched.prems launch_frame [OF a(2)] bindings_ok_put show ?case
    by (auto intro: ledger_ok_frame bindings_ok_frame)
next
  case (archive ar st st')
  then show ?case
    by (auto simp: putArchiveEntry_def split: sum.splits intro: ledger_ok_frame bindings_ok_frame archive_frame)
next
  case (archived ar s st st')
  then obtain a where a: "put_tombstone (tombstone_of s (the (ar_releasedAt (ae_record ar)))) st = Inr a"
      "st' = putParsedArchive ar (a\<lparr>st_bindings := del (aq_sessionId (ae_record ar)) (st_bindings a)\<rparr>)"
    by (auto simp: commitArchiveSuccess_def parseArchiveEntry_Inr split: if_splits sum.splits)
  have "st_bindings st' = del (aq_sessionId (ae_record ar)) (st_bindings st)" "ledger st' = ledger st"
    using tombstone_frame [OF a(1)] by (simp_all add: a(2) archive_frame, simp add: ledger_def)
  with archived.prems show ?case by (blast intro: bindings_ok_del ledger_ok_frame)
next
  case (image i st st')
  then have "ledger st' = ledger st" "st_bindings st' = st_bindings st"
    by (auto simp: putImage_def ledger_def split: option.splits if_splits)
  with image.prems show ?case by (blast intro: bindings_ok_frame ledger_ok_frame)
next
  case (restart st clock)
  with recover_frame show ?case unfolding openStore_def by (blast intro: bindings_ok_frame ledger_ok_frame)
qed (simp_all add: ledger_ok_def bindings_ok_def putNodeCommand_def deleteImage_def setSetting_def getReceipt_def)

lemma ok_steps: "store_steps lc a b \<Longrightarrow> ledger_ok a \<and> bindings_ok a \<Longrightarrow> ledger_ok b \<and> bindings_ok b"
  by (induction rule: store_steps_induct) (auto dest: ok_step)

lemma ok_empty: "ledger_ok emptyStore \<and> bindings_ok emptyStore"
  by (simp add: emptyStore_def ledger_ok_def bindings_ok_def)

subsection \<open>Bindings under metadata operations\<close>

text \<open>
  The metadata operations keep every binding: its canonical metadata only moves to later revisions and
  the authority it is pinned to stays, once it has one.
\<close>

definition canonical_forward :: "node_session \<Rightarrow> node_session \<Rightarrow> bool" where
  "canonical_forward s s' \<longleftrightarrow>
     s'\<lparr>ns_metadata := ns_metadata s, ns_metadataAuthority := ns_metadataAuthority s, ns_updatedAt := ns_updatedAt s\<rparr> = s \<and>
     ms_revision (ns_metadata s) \<le> ms_revision (ns_metadata s') \<and>
     (ms_revision (ns_metadata s) = ms_revision (ns_metadata s') \<longrightarrow> ns_metadata s' = ns_metadata s) \<and>
     (ns_metadataAuthority s \<noteq> None \<longrightarrow> ns_metadataAuthority s' = ns_metadataAuthority s)"

definition bindings_forward :: "node_store \<Rightarrow> node_store \<Rightarrow> bool" where
  "bindings_forward a b \<longleftrightarrow> (\<forall>k. rel_option canonical_forward (getBinding k a) (getBinding k b))"

lemma canonical_forward_refl [simp, intro]: "canonical_forward s s"
  by (simp add: canonical_forward_def)

lemma canonical_forward_trans: "canonical_forward a b \<Longrightarrow> canonical_forward b c \<Longrightarrow> canonical_forward a c"
  by (cases a; cases b; cases c) (auto simp: canonical_forward_def)

lemma bindings_forward_refl [simp, intro]: "bindings_forward a a"
  by (simp add: bindings_forward_def option.rel_refl)

lemma rel_option_forward:
  "rel_option canonical_forward x y \<Longrightarrow> rel_option canonical_forward y z \<Longrightarrow> rel_option canonical_forward x z"
  by (cases x; cases y; cases z) (auto intro: canonical_forward_trans)

lemma bindings_forward_trans: "bindings_forward a b \<Longrightarrow> bindings_forward b c \<Longrightarrow> bindings_forward a c"
  unfolding bindings_forward_def by (blast intro: rel_option_forward)

lemma bindings_forward_same: "st_bindings b = st_bindings a \<Longrightarrow> bindings_forward a b"
  by (simp add: bindings_forward_def getBinding_def option.rel_refl)

lemma bindings_forward_put:
  assumes "putBinding s' a = Inr b" "getBinding (ns_sessionId s') a = Some s" "canonical_forward s s'"
  shows "bindings_forward a b"
  using assms by (auto simp: bindings_forward_def getBinding_def putBinding_Inr putParsedSession_Inr option.rel_refl)

text \<open>In a valid store a binding is found under its own session.\<close>

lemma binding_id: "bindings_ok st \<Longrightarrow> getBinding k st = Some s \<Longrightarrow> ns_sessionId s = k"
  by (auto simp: bindings_ok_def getBinding_def dest!: map_of_SomeD)

lemma advance_forward:
  assumes "advance_session r s t a = Inr b" "getBinding (ns_sessionId s) a = Some s"
  shows "bindings_forward a b"
proof (cases "ms_revision (ns_metadata s) < ms_revision (mo_canonical r)")
  case True
  with assms have "putBinding (s\<lparr>ns_metadata := mo_canonical r, ns_updatedAt := t\<rparr>) a = Inr b"
    by (simp add: advance_session_def)
  with bindings_forward_put [OF this, of s] assms(2) True show ?thesis by (simp add: canonical_forward_def)
qed (use assms in \<open>simp add: advance_session_def\<close>)

lemma settle_one_forward:
  assumes "settle_one lc t mo a = Inr b" "bindings_ok a"
  shows "bindings_forward a b"
proof -
  from assms(1) obtain s r st1 st2 where r: "getBinding (mo_sessionId mo) a = Some s"
      "settled_receipt lc mo a = Inr (r, st1)" "advance_session r s t st1 = Inr st2" and b: "st_bindings b = st_bindings st2"
    by (auto simp: settle_one_def split: option.splits if_splits sum.splits)
  have st1: "st_bindings st1 = st_bindings a" using settled_receipt_cases [OF r(2)] by auto
  with binding_id [OF assms(2) r(1)] r(1) have "getBinding (ns_sessionId s) st1 = Some s" by (simp add: getBinding_def)
  from advance_forward [OF r(3) this] st1 b show ?thesis by (simp add: bindings_forward_def getBinding_def)
qed

lemma settle_all_forward:
  "settle_all lc clock i seen mos a = Inr b \<Longrightarrow> bindings_ok a \<Longrightarrow> bindings_forward a b"
proof (induction mos arbitrary: i seen a)
  case (Cons mo mos)
  then obtain m where "settle_one lc (clock i) mo a = Inr m" "settle_all lc clock (Suc i) (mo_operationId mo # seen) mos m = Inr b"
    by (auto split: if_splits sum.splits)
  with Cons settle_one_forward bindings_settle_one bindings_forward_trans show ?case by blast
qed simp

lemma settle_session_cases:
  assumes "settle_session lc mo t st = Inr st'"
  obtains s where "getBinding (mo_sessionId mo) st = Some s" "\<not> canonical_diverges lc s mo"
    "ns_metadataAuthority s = None \<and> ms_revision (ns_metadata s) = 0 \<or> ns_metadataAuthority s = Some (mo_authority mo)"
    "putBinding (settled_session mo t s) (st\<lparr>st_receipts := put (mo_operationId mo) mo (st_receipts st)\<rparr>) = Inr st' \<or>
     ns_metadataAuthority s \<noteq> None \<and> \<not> ms_revision (ns_metadata s) < ms_revision (mo_canonical mo) \<and>
       st' = st\<lparr>st_receipts := put (mo_operationId mo) mo (st_receipts st)\<rparr>"
  using assms
  by (auto simp: settle_session_def Let_def assertSessionAuthority_def split: option.split_asm if_split_asm)

lemma settle_session_forward:
  assumes "settle_session lc mo t a = Inr b" "bindings_ok a"
  shows "bindings_forward a b"
proof -
  let ?a = "a\<lparr>st_receipts := put (mo_operationId mo) mo (st_receipts a)\<rparr>"
  from assms(1) obtain s where s: "getBinding (mo_sessionId mo) a = Some s"
    and auth: "ns_metadataAuthority s = None \<and> ms_revision (ns_metadata s) = 0 \<or> ns_metadataAuthority s = Some (mo_authority mo)"
    and b: "putBinding (settled_session mo t s) ?a = Inr b \<or> b = ?a"
    by (rule settle_session_cases) blast
  have "getBinding (ns_sessionId (settled_session mo t s)) ?a = Some s"
    using binding_id [OF assms(2) s] s by (simp add: getBinding_def settled_session_def)
  moreover have "canonical_forward s (settled_session mo t s)"
    using auth by (cases s) (auto simp: canonical_forward_def settled_session_def)
  ultimately have "bindings_forward ?a b" using b bindings_forward_put by blast
  then show ?thesis by (simp add: bindings_forward_def getBinding_def)
qed

lemma metadata_step_forward: "node_metadata_step lc a b \<Longrightarrow> bindings_ok a \<Longrightarrow> bindings_forward a b"
proof (induction rule: node_metadata_step.induct)
  case (enqueue p st st')
  then have "enqueueParsedMetadata lc p st = Inr st'" by (auto simp: enqueueMetadata_def split: if_splits)
  from enqueue_ledger [OF this] show ?case by (auto intro: bindings_forward_same)
next
  case (settle clock mos st st')
  then show ?case by (auto simp: settleMetadataOutbox_def split: if_splits intro: settle_all_forward)
next
  case (settlement t mo st r st')
  then show ?case
    by (auto simp: applyMetadataSettlement_def map_sum_Inr split: if_splits option.splits intro: settle_session_forward)
qed

lemma metadata_steps_forward:
  "(node_metadata_step lc)\<^sup>*\<^sup>* a b \<Longrightarrow> ledger_ok a \<and> bindings_ok a \<Longrightarrow> (ledger_ok b \<and> bindings_ok b) \<and> bindings_forward a b"
proof (induction rule: rtranclp_induct)
  case (step b c)
  then show ?case using ledger_metadata_ok metadata_step_forward bindings_forward_trans by blast
qed simp

subsection \<open>Recovery\<close>

lemma recover_row:
  assumes "keys_ok rs" "\<forall>(k, r) \<in> set rs. k = cr_commandId r" "\<forall>(k, r) \<in> set rs. map_of (st_commands st) k = Some r"
  shows "map_of (st_commands (fold (\<lambda>(i, r) st. if in_flight r then putNodeCommand (recovered (clock i) r) st else st)
      (enumerate n (map snd rs)) st)) k =
    (case map_of rs k of None \<Rightarrow> map_of (st_commands st) k
     | Some r \<Rightarrow> if in_flight r then Some (recovered (clock (n + length (takeWhile (\<lambda>x. fst x \<noteq> k) rs))) r) else Some r)"
  using assms
proof (induction rs arbitrary: st n)
  case (Cons x rs)
  obtain a r where x: "x = (a, r)" by (cases x)
  with Cons.prems have a: "a = cr_commandId r" "map_of (st_commands st) a = Some r" "map_of rs a = None" "keys_ok rs"
    by (auto simp: keys_ok_def map_of_eq_None_iff)
  let ?st = "if in_flight r then putNodeCommand (recovered (clock n) r) st else st"
  have "k \<noteq> a" if "(k, r') \<in> set rs" for k r' using a(3) that by (force simp: map_of_eq_None_iff)
  then have "\<forall>(k, r) \<in> set rs. map_of (st_commands ?st) k = Some r"
    using Cons.prems(3) a(1) by (fastforce simp: putNodeCommand_def recovered_def)
  from Cons.IH [OF a(4) _ this, of "Suc n"] Cons.prems(2) a x show ?case
    by (auto simp: putNodeCommand_def recovered_def split: option.splits)
qed simp

lemma getNodeCommand_openStore:
  assumes "keys_ok (st_commands st)" "\<forall>(k, r) \<in> set (st_commands st). k = cr_commandId r"
  shows "getNodeCommand k (openStore clock st) =
    map_option (\<lambda>r. if in_flight r then recovered (clock (length (takeWhile (\<lambda>x. fst x \<noteq> k) (st_commands st)))) r else r)
      (getNodeCommand k st)"
proof -
  have "\<forall>(k, r) \<in> set (st_commands st). map_of (st_commands st) k = Some r"
    using assms(1) by (auto simp: keys_ok_def)
  from recover_row [OF assms this, of clock 0 k] show ?thesis
    by (auto simp: openStore_def recoverInFlightCommands_def getNodeCommand_def split: option.split)
qed

end
