(* ===== verification/Node_Settlement.thy ===== *)
theory Node_Settlement
  imports Runtime_Store_Props Control_Metadata_Props Lifecycle_Merge
begin

text \<open>
  Properties of a runtime node's store, and of the store together with the control node that is the
  metadata authority of its sessions.
\<close>

subsection \<open>Settling one operation\<close>

lemma putBinding_same:
  assumes "bindings_ok st" "getBinding k st = Some s" "runtimeNodeSessionRecordSchema s'"
    and "ns_sessionId s' = ns_sessionId s" "node_native_key s' = node_native_key s"
  shows "putBinding s' (st\<lparr>st_receipts := x\<rparr>) = Inr (st\<lparr>st_receipts := x, st_bindings := put k s' (st_bindings st)\<rparr>)"
proof -
  have s: "(k, s) \<in> set (st_bindings st)" "ns_sessionId s = k"
    using assms(1,2) binding_id by (auto simp: getBinding_def dest: map_of_SomeD)
  have inj: "inj_on (\<lambda>x. node_native_key (snd x)) (set (st_bindings st))"
    using assms(1) by (simp add: bindings_ok_def distinct_map)
  have "node_native_key r \<noteq> node_native_key s" if "(k', r) \<in> set (st_bindings st)" "k' \<noteq> k" for k' r
    using inj_onD [OF inj, of "(k', r)" "(k, s)"] that s(1) by auto
  then show ?thesis using assms(3-5) s(2) by (auto simp: putBinding_Inr putParsedSession_Inr)
qed

definition settled_binding :: "metadata_operation \<Rightarrow> string \<Rightarrow> node_session \<Rightarrow> node_session" where
  "settled_binding mo t n =
     (if ms_revision (ns_metadata n) < ms_revision (mo_canonical mo)
      then n\<lparr>ns_metadata := mo_canonical mo, ns_updatedAt := t\<rparr> else n)"

lemma put_same: "map_of t k = Some v \<Longrightarrow> put k v t = t"
  by (induction t) auto

lemma settled_binding_ok:
  assumes "runtimeNodeSessionRecordSchema n" "metadataSnapshotSchema (mo_canonical mo)"
  shows "runtimeNodeSessionRecordSchema (settled_binding mo t n)"
    and "ns_sessionId (settled_binding mo t n) = ns_sessionId n"
    and "node_native_key (settled_binding mo t n) = node_native_key n"
    and "ns_metadataAuthority (settled_binding mo t n) = ns_metadataAuthority n"
  using assms by (auto simp: settled_binding_def runtimeNodeSessionRecordSchema_def node_native_key_def)

lemma binding_schema: "bindings_ok st \<Longrightarrow> getBinding k st = Some n \<Longrightarrow> runtimeNodeSessionRecordSchema n"
  by (auto simp: bindings_ok_def getBinding_def dest!: map_of_SomeD)

text \<open>What the acknowledgement of an outbox transfer leaves, and what a delivered settlement leaves.\<close>

lemma settle_ack:
  assumes "bindings_ok st" "metadataOperationRecordSchema mo" "mo_status mo \<noteq> MQueued"
    and "map_of (st_outbox st) (mo_operationId mo) = Some p" "mp_sessionId p = mo_sessionId mo" "same_patch lc p (mo_patch mo)"
    and "getBinding (mo_sessionId mo) st = Some n" "ns_metadataAuthority n = Some (mo_authority mo)"
    and "ms_revision (mo_canonical mo) = ms_revision (ns_metadata n) \<longrightarrow> mo_canonical mo = ns_metadata n"
    and "getReceipt (mo_operationId mo) st = None \<or> getReceipt (mo_operationId mo) st = Some mo"
  shows "settleMetadataOutbox lc clock [mo] st = Inr (st\<lparr>st_outbox := del (mo_operationId mo) (st_outbox st),
      st_receipts := put (mo_operationId mo) mo (st_receipts st),
      st_bindings := put (mo_sessionId mo) (settled_binding mo (clock 0) n) (st_bindings st)\<rparr>)"
proof -
  let ?r = "put (mo_operationId mo) mo (st_receipts st)"
  have m: "metadataSnapshotSchema (mo_canonical mo)" using assms(2) by (simp add: metadataOperationRecordSchema_def)
  note ok = settled_binding_ok [OF binding_schema [OF assms(1,7)] m]
  have receipt: "settled_receipt lc mo st = Inr (mo, st\<lparr>st_receipts := ?r\<rparr>)"
    using assms(3,10) by (auto simp: settled_receipt_def same_identity_def same_operation_def getReceipt_def put_same)
  have "advance_session mo n (clock 0) (st\<lparr>st_receipts := ?r\<rparr>) =
      Inr (st\<lparr>st_receipts := ?r, st_bindings := put (mo_sessionId mo) (settled_binding mo (clock 0) n) (st_bindings st)\<rparr>)"
    using putBinding_same [OF assms(1,7) ok(1-3), of "clock 0" ?r] assms(7)
    by (auto simp: advance_session_def settled_binding_def getBinding_def put_same)
  with receipt show ?thesis
    using assms by (auto simp: settleMetadataOutbox_def settle_one_def assertSessionAuthority_def canonical_diverges_def)
qed

lemma settle_delivery:
  assumes "bindings_ok st" "metadataOperationRecordSchema mo" "mo_status mo \<noteq> MQueued"
    and "getBinding (mo_sessionId mo) st = Some n" "ns_metadataAuthority n = Some (mo_authority mo)"
    and "ms_revision (mo_canonical mo) = ms_revision (ns_metadata n) \<longrightarrow> mo_canonical mo = ns_metadata n"
  shows "getReceipt (mo_operationId mo) st = None \<Longrightarrow> applyMetadataSettlement lc t mo st =
      Inr (mo, st\<lparr>st_receipts := put (mo_operationId mo) mo (st_receipts st),
        st_bindings := put (mo_sessionId mo) (settled_binding mo t n) (st_bindings st)\<rparr>)"
    and "getReceipt (mo_operationId mo) st = Some mo \<Longrightarrow> applyMetadataSettlement lc t mo st = Inr (mo, st)"
proof -
  let ?r = "put (mo_operationId mo) mo (st_receipts st)"
  have m: "metadataSnapshotSchema (mo_canonical mo)" using assms(2) by (simp add: metadataOperationRecordSchema_def)
  note ok = settled_binding_ok [OF binding_schema [OF assms(1,4)] m]
  have "settle_session lc mo t st =
      Inr (st\<lparr>st_receipts := ?r, st_bindings := put (mo_sessionId mo) (settled_binding mo t n) (st_bindings st)\<rparr>)"
  proof (cases "ms_revision (ns_metadata n) < ms_revision (mo_canonical mo)")
    case True
    then have "settled_session mo t n = settled_binding mo t n"
      using assms(5) by (cases n) (simp add: settled_session_def settled_binding_def)
    with True putBinding_same [OF assms(1,4) ok(1-3), of t ?r] assms(4-6) show ?thesis
      by (simp add: settle_session_def assertSessionAuthority_def canonical_diverges_def)
  next
    case False
    with assms(4-6) show ?thesis
      by (auto simp: settle_session_def assertSessionAuthority_def canonical_diverges_def settled_binding_def getBinding_def put_same)
  qed
  then show "getReceipt (mo_operationId mo) st = None \<Longrightarrow> applyMetadataSettlement lc t mo st =
      Inr (mo, st\<lparr>st_receipts := ?r, st_bindings := put (mo_sessionId mo) (settled_binding mo t n) (st_bindings st)\<rparr>)"
    using assms(2,3) by (simp add: applyMetadataSettlement_def)
  show "getReceipt (mo_operationId mo) st = Some mo \<Longrightarrow> applyMetadataSettlement lc t mo st = Inr (mo, st)"
    using assms(2,3) by (simp add: applyMetadataSettlement_def same_encoded_def same_operation_def)
qed

subsection \<open>Properties\<close>

text \<open>C3: a proposal made at a runtime node settles. The node has the proposal in its outbox and pins
  the session to the control node, whose copy of the session is at least as new. The control node
  answers with a receipt; the receipt reaches the node twice, as the acknowledgement of the outbox and
  as a delivery, in either order. Both orders succeed, empty the outbox of the proposal, store exactly
  this receipt, and leave the node's binding with the control node's canonical metadata.\<close>

theorem node_proposal_settles:
  assumes "catalog_ok c" "\<not> is_branch (ca_role c)" "store_steps lc emptyStore st" "metadataPatchSchema p"
    and "map_of (st_outbox st) (mp_operationId p) = Some p" "getReceipt (mp_operationId p) st = None"
    and "getBinding (mp_sessionId p) st = Some n" "ns_metadataAuthority n = Some (authority c)"
    and "mp_expectedAuthority p = authority c" "getMetadataOperation (mp_operationId p) c = None"
    and "getSession (mp_sessionId p) c = Some s" "ms_revision (se_metadata s) < max_safe_integer"
    and "ms_revision (ns_metadata n) < ms_revision (se_metadata s) \<or> ns_metadata n = se_metadata s"
  shows "\<exists>mo c' a b. submitMetadataPatch e p origin t t' t'' c = Inr (mo, c') \<and>
    settleMetadataOutbox lc clock [mo] st = Inr a \<and> applyMetadataSettlement lc u mo a = Inr (mo, a) \<and>
    (\<exists>a'. applyMetadataSettlement lc u mo st = Inr (mo, a') \<and> settleMetadataOutbox lc clock [mo] a' = Inr b) \<and>
    (\<forall>x \<in> {a, b}. map_of (st_outbox x) (mp_operationId p) = None \<and> getReceipt (mp_operationId p) x = Some mo \<and>
       (\<exists>n' s'. getBinding (mp_sessionId p) x = Some n' \<and> getSession (mp_sessionId p) c' = Some s' \<and>
          ns_metadata n' = se_metadata s'))"
proof -
  have ok: "ledger_ok st \<and> bindings_ok st" using ok_steps [OF assms(3) ok_empty] .
  then have bok: "bindings_ok st" by simp
  let ?mo = "commit_operation p (se_metadata s) origin (authority c) t t'"
  obtain c' where c': "submitMetadataPatch e p origin t t' t'' c = Inr (?mo, c')"
    "getSession (mp_sessionId p) c' =
      Some (s\<lparr>se_metadata := mo_canonical ?mo, se_metadataAuthority := authority c, se_updatedAt := t''\<rparr>)"
    using commit_ok [OF assms(1,11,4,9,12), of e origin t t' t''] assms(2,4,9-11)
    by (auto simp: submitMetadataPatch_def assertAuthority_def)
  have m: "metadataSnapshotSchema (se_metadata s)"
    using assms(1,11) by (auto simp: catalog_ok_def sessionRecordSchema_def)
  note schema = commit_schema [OF assms(4) m assms(9,12), of origin t t']
  have mo: "mo_operationId ?mo = mp_operationId p" "mo_sessionId ?mo = mp_sessionId p" "mo_patch ?mo = p"
      "mo_authority ?mo = authority c" "mo_status ?mo \<noteq> MQueued"
    by (simp_all add: commit_operation_def split: metadata_patch_result.split)
  have canonical: "mo_canonical ?mo = se_metadata s \<or> ms_revision (mo_canonical ?mo) = Suc (ms_revision (se_metadata s))"
    by (auto simp: commit_operation_def dest: conflicted_snapshot accepted_snapshot(1) split: metadata_patch_result.split)
  have newer: "ms_revision (mo_canonical ?mo) = ms_revision (ns_metadata n) \<longrightarrow> mo_canonical ?mo = ns_metadata n"
    using canonical assms(13) by auto
  have final: "ns_metadata (settled_binding ?mo v n) = mo_canonical ?mo" for v
    using canonical assms(13) by (auto simp: settled_binding_def)
  let ?k = "mp_operationId p"
  let ?b = "\<lambda>v. put (mp_sessionId p) (settled_binding ?mo v n) (st_bindings st)"
  let ?r = "put ?k ?mo (st_receipts st)"
  have ack: "settleMetadataOutbox lc clock [?mo] st =
      Inr (st\<lparr>st_outbox := del ?k (st_outbox st), st_receipts := ?r, st_bindings := ?b (clock 0)\<rparr>)" (is "_ = Inr ?a")
    using settle_ack [OF bok schema(1) mo(5), of p lc n clock] assms(5-8) newer by (simp add: mo)
  have del: "applyMetadataSettlement lc u ?mo st = Inr (?mo, st\<lparr>st_receipts := ?r, st_bindings := ?b u\<rparr>)" (is "_ = Inr (_, ?a')")
    using settle_delivery(1) [OF bok schema(1) mo(5), of n lc u] assms(6-8) newer by (simp add: mo)
  have pinned: "ns_metadataAuthority (settled_binding ?mo v n) = Some (authority c)" for v
    using settled_binding_ok(4) [OF binding_schema [OF bok assms(7)] schema(2), of v] assms(8) by simp
  have "bindings_ok ?a" "bindings_ok ?a'"
    using ledger_metadata_ok [OF node_metadata_step.settle [OF ack] ok] ledger_metadata_ok [OF node_metadata_step.settlement [OF del] ok] by simp_all
  have again: "applyMetadataSettlement lc u ?mo ?a = Inr (?mo, ?a)"
  proof (rule settle_delivery(2))
    show "getBinding (mo_sessionId ?mo) ?a = Some (settled_binding ?mo (clock 0) n)"
      unfolding mo(2) by (simp add: getBinding_def)
    show "getReceipt (mo_operationId ?mo) ?a = Some ?mo" unfolding mo(1) by (simp add: getReceipt_def)
  qed (use \<open>bindings_ok ?a\<close> schema(1) mo(4,5) final pinned in simp_all)
  have late: "settleMetadataOutbox lc clock [?mo] ?a' = Inr (?a'\<lparr>st_outbox := del (mo_operationId ?mo) (st_outbox ?a'),
      st_receipts := put (mo_operationId ?mo) ?mo (st_receipts ?a'),
      st_bindings := put (mo_sessionId ?mo) (settled_binding ?mo (clock 0) (settled_binding ?mo u n)) (st_bindings ?a')\<rparr>)"
    (is "_ = Inr ?b")
  proof (rule settle_ack)
    show "map_of (st_outbox ?a') (mo_operationId ?mo) = Some p" unfolding mo(1) using assms(5) by simp
    show "getBinding (mo_sessionId ?mo) ?a' = Some (settled_binding ?mo u n)" unfolding mo(2) by (simp add: getBinding_def)
    show "getReceipt (mo_operationId ?mo) ?a' = None \<or> getReceipt (mo_operationId ?mo) ?a' = Some ?mo"
      unfolding mo(1) by (simp add: getReceipt_def)
  qed (use \<open>bindings_ok ?a'\<close> schema(1) mo(2-5) final pinned in simp_all)
  have "ns_metadata (settled_binding ?mo (clock 0) (settled_binding ?mo u n)) = mo_canonical ?mo"
    using final by (simp add: settled_binding_def [of ?mo "clock 0" "settled_binding ?mo u n"])
  with c' final have "\<forall>x \<in> {?a, ?b}. map_of (st_outbox x) ?k = None \<and> getReceipt ?k x = Some ?mo \<and>
       (\<exists>n' s'. getBinding (mp_sessionId p) x = Some n' \<and> getSession (mp_sessionId p) c' = Some s' \<and>
          ns_metadata n' = se_metadata s')"
    by (simp add: getBinding_def getReceipt_def mo(1,2))
  with c'(1) ack again del late show ?thesis
    by (intro exI [of _ ?mo] exI [of _ c'] exI [of _ ?a] exI [of _ ?b] conjI exI [of _ ?a'])
qed

text \<open>A node that bound the demo session and has the demo proposal in its outbox.\<close>

definition demo_binding :: node_session where
  "demo_binding = \<lparr>ns_sessionId = ''s1'', ns_runtimeNodeId = ''r1'', ns_harness = ''codex'', ns_adapterScopeId = ''a'',
     ns_vendorSessionId = ''v'', ns_bindingRevision = 1, ns_runtimeEpoch = None, ns_cwd = None, ns_availability = Resumable,
     ns_runtimeStatus = Idle, ns_harnessSettings = None, ns_nativeSummary = None, ns_launchProvenance = None,
     ns_metadata = emptyMetadataSnapshot, ns_createdAt = ''t0'', ns_updatedAt = ''t0'', ns_lastSeenAt = None,
     ns_lastActivityAt = None, ns_metadataAuthority = Some demo_authority\<rparr>"

definition demo_bound :: node_store where
  "demo_bound = emptyStore\<lparr>st_bindings := [(''s1'', demo_binding)]\<rparr>"

definition demo_bound_node :: node_store where
  "demo_bound_node = demo_bound\<lparr>st_outbox := [(''op'', demo_patch None)]\<rparr>"

lemma demo_bound_step: "putBinding demo_binding emptyStore = Inr demo_bound"
  by (simp add: putBinding_def putParsedSession_def emptyStore_def demo_bound_def demo_binding_def
      runtimeNodeSessionRecordSchema_def metadataSnapshotSchema_def emptyMetadataSnapshot_def)

lemma demo_enqueue: "enqueueMetadata lc (demo_patch None) demo_bound = Inr demo_bound_node"
  by (simp add: enqueueMetadata_def enqueueParsedMetadata_def demo_patch_ok demo_bound_def demo_bound_node_def emptyStore_def getReceipt_def)

lemma demo_bound_run: "store_steps lc emptyStore demo_bound_node"
proof -
  have "store_step lc emptyStore demo_bound" by (rule store_step.bind_one [OF demo_bound_step])
  moreover have "store_step lc demo_bound demo_bound_node"
    by (rule store_step.metadata [OF node_metadata_step.enqueue [OF demo_enqueue]])
  ultimately show ?thesis unfolding store_steps_def by (meson rtranclp.simps)
qed

lemma demo_bound_rows:
  "map_of (st_outbox demo_bound_node) ''op'' = Some (demo_patch None)" "getReceipt ''op'' demo_bound_node = None"
  "getBinding ''s1'' demo_bound_node = Some demo_binding" "ns_metadataAuthority demo_binding = Some demo_authority"
  "ns_metadata demo_binding = emptyMetadataSnapshot"
  by (simp_all add: demo_bound_node_def demo_bound_def getReceipt_def getBinding_def emptyStore_def demo_binding_def)

lemma node_settles_demo:
  "\<exists>mo a. settleMetadataOutbox (\<lambda>_ _. 0) (\<lambda>_. ''t4'') [mo] demo_bound_node = Inr a \<and>
     getReceipt ''op'' a = Some mo \<and> mo_status mo \<noteq> MQueued \<and> mo_operationId mo = ''op''"
proof -
  let ?mo = "commit_operation (demo_patch None) emptyMetadataSnapshot ''c1'' demo_authority ''t1'' ''t2''"
  have "metadataSnapshotSchema emptyMetadataSnapshot" "ms_revision emptyMetadataSnapshot < max_safe_integer"
    by (simp_all add: metadataSnapshotSchema_def emptyMetadataSnapshot_def max_safe_integer_def)
  from commit_schema(1) [OF demo_patch_ok this(1) _ this(2), of demo_authority "''c1''" "''t1''" "''t2''"]
  have "metadataOperationRecordSchema ?mo" by simp
  moreover have mo: "mo_status ?mo \<noteq> MQueued" "mo_operationId ?mo = ''op''" "mo_sessionId ?mo = ''s1''"
    "mo_patch ?mo = demo_patch None" "mo_authority ?mo = demo_authority"
    by (simp_all add: commit_operation_def split: metadata_patch_result.split)
  moreover have "mo_canonical ?mo = emptyMetadataSnapshot" if "ms_revision (mo_canonical ?mo) = 0"
    using that accepted_snapshot(1) conflicted_snapshot(1)
    by (fastforce simp: commit_operation_def split: metadata_patch_result.splits)
  moreover have "bindings_ok demo_bound_node" using ok_steps [OF demo_bound_run ok_empty] by blast
  ultimately have "\<exists>a. settleMetadataOutbox (\<lambda>_ _. 0) (\<lambda>_. ''t4'') [?mo] demo_bound_node = Inr a \<and> getReceipt ''op'' a = Some ?mo"
    using settle_ack [of demo_bound_node ?mo "demo_patch None" "\<lambda>_ _. 0" demo_binding "\<lambda>_. ''t4''"] demo_bound_rows
    by (simp add: getReceipt_def emptyMetadataSnapshot_def)
  with mo show ?thesis by blast
qed

theorem node_proposal_settles_witness:
  "\<exists>mo c' a. submitMetadataPatch demo_env (demo_patch None) ''c1'' ''t1'' ''t2'' ''t3''
       (demo_catalog (Authority demo_authority)) = Inr (mo, c') \<and>
     settleMetadataOutbox (\<lambda>_ _. 0) (\<lambda>_. ''t4'') [mo] demo_bound_node = Inr a \<and>
     map_of (st_outbox a) ''op'' = None \<and> getReceipt ''op'' a = Some mo"
  using node_proposal_settles [OF demo_catalog_ok, of "Authority demo_authority" "\<lambda>_ _. 0" demo_bound_node "demo_patch None"
      demo_binding demo_session demo_env "''c1''" "''t1''" "''t2''" "''t3''" "\<lambda>_. ''t4''" "''t5''"]
    demo_bound_run demo_patch_ok demo_bound_rows
  by (auto simp: emptyMetadataSnapshot_def max_safe_integer_def)

text \<open>C18: no proposal is lost at a runtime node and none is sent as something else. Once a patch has been
  accepted for the outbox, then after any operations of the store, restarts included, the node either
  still has it in the outbox or holds a receipt for the same patch; proposing it again is accepted and
  changes nothing.\<close>

theorem node_proposal_accounted:
  assumes "enqueueMetadata lc p st = Inr st1" "store_steps lc st1 st2"
  shows "((\<exists>q. map_of (st_outbox st2) (mp_operationId p) = Some q \<and> same_patch lc q p) \<or>
     (\<exists>r. getReceipt (mp_operationId p) st2 = Some r \<and> same_patch lc (mo_patch r) p)) \<and>
     enqueueMetadata lc p st2 = Inr st2"
proof -
  let ?k = "mp_operationId p"
  have p: "metadataPatchSchema p" "enqueueParsedMetadata lc p st = Inr st1"
    using assms(1) by (auto simp: enqueueMetadata_def split: if_splits)
  from p(2) have enqueued: "(\<exists>q. map_of (st_outbox st1) ?k = Some q \<and> same_patch lc q p) \<or>
      (\<exists>r. map_of (st_outbox st1) ?k = None \<and> getReceipt ?k st1 = Some r \<and> same_patch lc (mo_patch r) p)"
    by (auto simp: enqueueParsedMetadata_def split: option.splits if_splits)
  note fwd = ledger_forwardD [OF forward_steps [OF assms(2)]]
  from enqueued have "(\<exists>q. map_of (st_outbox st2) ?k = Some q \<and> same_patch lc q p) \<or>
     map_of (st_outbox st2) ?k = None \<and> (\<exists>r. getReceipt ?k st2 = Some r \<and> same_patch lc (mo_patch r) p)"
  proof (elim disjE exE conjE)
    fix q assume "map_of (st_outbox st1) ?k = Some q" "same_patch lc q p"
    with fwd(1) [OF this(1)] show ?thesis by (auto simp: same_patch_def)
  next
    fix r assume "map_of (st_outbox st1) ?k = None" "getReceipt ?k st1 = Some r" "same_patch lc (mo_patch r) p"
    with fwd(3) [OF this(2)] fwd(2) [OF this(1,2)] show ?thesis by (auto simp: same_patch_def)
  qed
  then show ?thesis using p(1) by (auto simp: enqueueMetadata_def enqueueParsedMetadata_def)
qed

theorem node_proposal_accounted_witness:
  "enqueueMetadata (\<lambda>_ _. 0) (demo_patch None) (snd (deleteSession ''s1'' demo_bound_node)) = Inr (snd (deleteSession ''s1'' demo_bound_node))"
proof -
  have "store_step lc demo_bound_node (snd (deleteSession ''s1'' demo_bound_node))" for lc by (rule store_step.unbind)
  then have "store_steps lc demo_bound_node (snd (deleteSession ''s1'' demo_bound_node))" for lc unfolding store_steps_def by blast
  from node_proposal_accounted [OF demo_enqueue this] show ?thesis by blast
qed

text \<open>C21: a receipt is final. A terminal receipt of a runtime node survives every operation of the store,
  restarts included, unchanged; a later settlement of the same operation either returns it and changes
  nothing or is refused.\<close>

theorem node_receipts_final:
  assumes "getReceipt k st = Some r" "mo_status r \<noteq> MQueued" "store_steps lc st st'" "mo_operationId mo = k"
  shows "getReceipt k st' = Some r \<and>
    (case applyMetadataSettlement lc t mo st' of Inl _ \<Rightarrow> True | Inr (r', st'') \<Rightarrow> r' = r \<and> st'' = st')"
proof -
  have "getReceipt k st' = Some r" using ledger_forwardD(3) [OF forward_steps [OF assms(3)] assms(1)] assms(2) by auto
  with assms(2,4) show ?thesis by (auto simp: applyMetadataSettlement_def)
qed

text \<open>C23: a runtime node's rows stay valid. In every state the store reaches from an empty one, each
  binding is filed under its own session and valid, no native session is bound twice, the outbox and
  the receipts are filed under their own operations, and an operation that is in the outbox although
  it has a receipt has a terminal one.\<close>

theorem node_store_valid:
  assumes "store_steps lc emptyStore st"
  shows "(\<forall>k n. getBinding k st = Some n \<longrightarrow> ns_sessionId n = k \<and> runtimeNodeSessionRecordSchema n) \<and>
    (\<forall>j k m n. getBinding j st = Some m \<longrightarrow> getBinding k st = Some n \<longrightarrow> node_native_key m = node_native_key n \<longrightarrow> j = k) \<and>
    (\<forall>k p. map_of (st_outbox st) k = Some p \<longrightarrow> mp_operationId p = k \<and> metadataPatchSchema p) \<and>
    (\<forall>k r. getReceipt k st = Some r \<longrightarrow> mo_operationId r = k \<and> metadataOperationRecordSchema r \<and>
       (map_of (st_outbox st) k \<noteq> None \<longrightarrow> mo_status r \<noteq> MQueued))"
proof -
  have ok: "ledger_ok st" "bindings_ok st" using ok_steps [OF assms ok_empty] by simp_all
  have "j = k" if "getBinding j st = Some m" "getBinding k st = Some n" "node_native_key m = node_native_key n" for j k m n
  proof -
    have "inj_on (\<lambda>x. node_native_key (snd x)) (set (st_bindings st))"
      using ok(2) by (simp add: bindings_ok_def distinct_map)
    from inj_onD [OF this, of "(j, m)" "(k, n)"] that show ?thesis by (auto simp: getBinding_def dest: map_of_SomeD)
  qed
  moreover have "ns_sessionId n = k \<and> runtimeNodeSessionRecordSchema n" if "getBinding k st = Some n" for k n
    using binding_id binding_schema ok(2) that by blast
  ultimately show ?thesis
    using ok(1) by (auto simp: ledger_ok_def has_def getReceipt_def dest!: map_of_SomeD)
qed

theorem node_store_valid_witness:
  "ns_sessionId demo_binding = ''s1'' \<and> map_of (st_outbox demo_bound_node) ''op'' = Some (demo_patch None)"
proof -
  have "getBinding ''s1'' demo_bound_node = Some demo_binding" by (simp add: demo_bound_node_def demo_bound_def getBinding_def)
  then show ?thesis using node_store_valid [OF demo_bound_run [of "\<lambda>_ _. 0"]] by (simp add: demo_bound_node_def)
qed

text \<open>C22: settlements respect the fence of a session. Whatever proposals, acknowledgements and deliveries a
  runtime node handles from a state it can be in, every binding stays, keeps the authority it is pinned
  to and everything but its metadata, and its canonical metadata only moves to later revisions: at an
  equal revision it is the same snapshot.\<close>

theorem node_metadata_fenced:
  assumes "store_steps lc emptyStore st" "(node_metadata_step lc)\<^sup>*\<^sup>* st st'" "getBinding k st = Some n"
  shows "\<exists>n'. getBinding k st' = Some n' \<and>
    n'\<lparr>ns_metadata := ns_metadata n, ns_metadataAuthority := ns_metadataAuthority n, ns_updatedAt := ns_updatedAt n\<rparr> = n \<and>
    (ns_metadataAuthority n \<noteq> None \<longrightarrow> ns_metadataAuthority n' = ns_metadataAuthority n) \<and>
    ms_revision (ns_metadata n) \<le> ms_revision (ns_metadata n') \<and>
    (ms_revision (ns_metadata n') = ms_revision (ns_metadata n) \<longrightarrow> ns_metadata n' = ns_metadata n)"
proof -
  have "bindings_forward st st'" using metadata_steps_forward [OF assms(2) ok_steps [OF assms(1) ok_empty]] by simp
  with assms(3) have "rel_option canonical_forward (Some n) (getBinding k st')" unfolding bindings_forward_def by metis
  then obtain n' where "getBinding k st' = Some n'" "canonical_forward n n'" by (cases "getBinding k st'") auto
  then show ?thesis unfolding canonical_forward_def by (intro exI [of _ n']) auto
qed

theorem node_metadata_fenced_witness:
  "\<exists>mo a n'. settleMetadataOutbox (\<lambda>_ _. 0) (\<lambda>_. ''t4'') [mo] demo_bound_node = Inr a \<and>
     getBinding ''s1'' a = Some n' \<and> ns_metadataAuthority n' = Some demo_authority"
proof -
  obtain mo a where run: "settleMetadataOutbox (\<lambda>_ _. 0) (\<lambda>_. ''t4'') [mo] demo_bound_node = Inr a"
    using node_settles_demo by blast
  from node_metadata_step.settle [OF this] have "(node_metadata_step (\<lambda>_ _. 0))\<^sup>*\<^sup>* demo_bound_node a" by blast
  from node_metadata_fenced [OF demo_bound_run this demo_bound_rows(3)] run show ?thesis
    by (auto simp: demo_bound_rows(4))
qed

theorem node_receipts_final_witness:
  "\<exists>mo a. getReceipt ''op'' a = Some mo \<and> getReceipt ''op'' (openStore (\<lambda>_. ''t5'') a) = Some mo"
proof -
  obtain mo a where run: "getReceipt ''op'' a = Some mo" "mo_status mo \<noteq> MQueued" "mo_operationId mo = ''op''"
    using node_settles_demo by blast
  have "store_steps lc a (openStore (\<lambda>_. ''t5'') a)" for lc
    unfolding store_steps_def by (rule r_into_rtranclp) (rule store_step.restart)
  from node_receipts_final [OF run(1,2) this run(3)] run(1) show ?thesis by blast
qed

lemma openStore_commands:
  assumes "keys_ok (st_commands st)" "\<forall>(k, r) \<in> set (st_commands st). k = cr_commandId r"
  shows "keys_ok (st_commands (openStore clock st))" "\<forall>(k, r) \<in> set (st_commands (openStore clock st)). k = cr_commandId r"
proof -
  have "keys_ok (st_commands (fold f rs st)) \<and> (\<forall>(k, r) \<in> set (st_commands (fold f rs st)). k = cr_commandId r)"
    if "f = (\<lambda>(i, r) st. if in_flight r then putNodeCommand (recovered (clock i) r) st else st)" for f rs
    using assms
  proof (induction rs arbitrary: st)
    case (Cons x rs)
    have "keys_ok (st_commands (f x st)) \<and> (\<forall>(k, r) \<in> set (st_commands (f x st)). k = cr_commandId r)"
      using Cons.prems by (auto simp: that putNodeCommand_def set_put split: prod.split)
    with Cons.IH [of "f x st"] show ?case by simp
  qed simp
  then show "keys_ok (st_commands (openStore clock st))" "\<forall>(k, r) \<in> set (st_commands (openStore clock st)). k = cr_commandId r"
    by (simp_all add: openStore_def recoverInFlightCommands_def)
qed

text \<open>a restart settles exactly the commands in flight. Opening the store turns every received or
  started command into one of unknown outcome, leaves every settled command as it was, and opening it
  once more changes no command. A control node that last saw the command in flight takes the recovered
  record over.\<close>

theorem restart_settles_in_flight:
  assumes "keys_ok (st_commands st)" "\<forall>(k, r) \<in> set (st_commands st). k = cr_commandId r"
    and "getNodeCommand k st = Some r"
  shows "\<exists>r'. getNodeCommand k (openStore clock st) = Some r' \<and> \<not> in_flight r' \<and>
    (\<not> in_flight r \<longrightarrow> r' = r) \<and> (in_flight r \<longrightarrow> (\<exists>t. r' = recovered t r)) \<and>
    getNodeCommand k (openStore clock' (openStore clock st)) = Some r' \<and>
    (command_ok r \<longrightarrow> command_ok r' \<longrightarrow> mergeCommandRecord lc recovery r r' = Inr r')"
proof -
  have row: "getNodeCommand j (openStore clock st) = map_option (\<lambda>r. if in_flight r
      then recovered (clock (length (takeWhile (\<lambda>x. fst x \<noteq> j) (st_commands st)))) r else r) (getNodeCommand j st)" for j
    by (rule getNodeCommand_openStore [OF assms(1,2)])
  let ?t = "clock (length (takeWhile (\<lambda>x. fst x \<noteq> k) (st_commands st)))"
  let ?r = "if in_flight r then recovered ?t r else r"
  have r': "getNodeCommand k (openStore clock st) = Some ?r" using row [of k] assms(3) by simp
  have settled: "\<not> in_flight ?r" by (simp add: in_flight_def recovered_def)
  have again: "getNodeCommand k (openStore clock' (openStore clock st)) = Some ?r"
    using getNodeCommand_openStore [OF openStore_commands [OF assms(1,2), where clock = clock], where clock = clock' and k = k] r' settled by simp
  have "mergeCommandRecord lc recovery r ?r = Inr ?r" if ok: "command_ok r" "command_ok ?r"
  proof (cases "in_flight r")
    case True
    then have "command_rank recovery r < command_rank recovery ?r"
      by (auto simp: in_flight_def recovered_def command_rank_def)
    moreover have "sameCommandRequest lc r ?r" by (simp add: sameCommandRequest_def recovered_def)
    ultimately have "mergeCommandRecord lc recovery r ?r = Inr (adopt_command r ?r)"
      by (rule mergeCommandRecord_fresh [OF ok, rotated])
    then show ?thesis by (simp add: adopt_command_def recovered_def)
  qed (simp add: mergeCommandRecord_def sameCommandRequest_def)
  with r' settled again show ?thesis by (intro exI [of _ ?r]) auto
qed

definition demo_started :: command_record where
  "demo_started = \<lparr>cr_commandId = ''k1'', cr_payloadHash = ''h'', cr_sessionId = Some ''s1'', cr_runtimeNodeId = ''r1'',
     cr_state = CStarted, cr_request = JNull, cr_result = None, cr_error = None, cr_createdAt = ''t0'', cr_updatedAt = ''t0''\<rparr>"

theorem restart_settles_in_flight_witness:
  "\<exists>r. getNodeCommand ''k1'' (openStore (\<lambda>_. ''t1'') (putNodeCommand demo_started emptyStore)) = Some r \<and> cr_state r = COutcomeUnknown"
proof -
  let ?st = "putNodeCommand demo_started emptyStore"
  have "getNodeCommand ''k1'' ?st = Some demo_started" "keys_ok (st_commands ?st)"
    "\<forall>(k, r) \<in> set (st_commands ?st). k = cr_commandId r"
    by (simp_all add: putNodeCommand_def emptyStore_def getNodeCommand_def demo_started_def keys_ok_def)
  from restart_settles_in_flight [OF this(2,3,1), of "\<lambda>_. ''t1''"] obtain r where
    "getNodeCommand ''k1'' (openStore (\<lambda>_. ''t1'') ?st) = Some r" "in_flight demo_started \<longrightarrow> (\<exists>t. r = recovered t demo_started)"
    by blast
  then show ?thesis by (auto simp: in_flight_def demo_started_def recovered_def)
qed

text \<open>Archiving a binding is final. Once a runtime node has committed the archive of a session, the
  binding is gone, the journal holds the settled entry, and the native session stays recorded as
  archived in every later state, so an inventory cannot bring it back.\<close>

theorem archived_binding_stays_archived:
  assumes "commitArchiveSuccess en n st = Inr st1" "store_steps lc st1 st2"
  shows "getBinding (ns_sessionId n) st1 = None \<and>
    (\<exists>rw. map_of (st_archives st1) (aq_archiveOperationId (ae_record en)) = Some rw \<and>
       ae_record (aw_entry rw) = ae_record en \<and> \<not> archive_nonterminal (ae_record (aw_entry rw))) \<and>
    isNativeBindingArchived (ns_harness n) (ns_adapterScopeId n) (ns_vendorSessionId n) st2"
proof -
  from assms(1) obtain a where a: "put_tombstone (tombstone_of n (the (ar_releasedAt (ae_record en)))) st = Inr a"
      "st1 = putParsedArchive en (a\<lparr>st_bindings := del (aq_sessionId (ae_record en)) (st_bindings a)\<rparr>)"
      "aq_sessionId (ae_record en) = ns_sessionId n" "ar_state (ae_record en) = ASucceeded"
    by (auto simp: commitArchiveSuccess_def parseArchiveEntry_Inr split: if_splits sum.splits)
  have "isNativeBindingArchived (ns_harness n) (ns_adapterScopeId n) (ns_vendorSessionId n) st1"
    using tombstone_frame(3) [OF a(1)] by (auto simp: isNativeBindingArchived_def a(2) archive_frame tombstone_of_def)
  then have "isNativeBindingArchived (ns_harness n) (ns_adapterScopeId n) (ns_vendorSessionId n) st2"
    using ledger_forwardD(4) [OF forward_steps [OF assms(2)]] by (simp add: isNativeBindingArchived_def)
  moreover have "getBinding (ns_sessionId n) st1 = None" by (simp add: a(2,3) archive_frame getBinding_def)
  moreover have "\<exists>rw. map_of (st_archives st1) (aq_archiveOperationId (ae_record en)) = Some rw \<and>
       ae_record (aw_entry rw) = ae_record en \<and> \<not> archive_nonterminal (ae_record (aw_entry rw))"
    using a(4) by (auto simp: a(2) putParsedArchive_def archive_nonterminal_def Let_def split: option.split)
  ultimately show ?thesis by blast
qed

definition demo_released :: archive_entry where
  "demo_released = \<lparr>ae_request = \<lparr>aq_archiveOperationId = ''a1'', aq_payloadHash = ''h'', aq_sessionId = ''s1'',
       aq_runtimeNodeId = ''r1'', aq_bindingRevision = 1, aq_expectedAuthority = demo_authority\<rparr>,
     ae_record = \<lparr>aq_archiveOperationId = ''a1'', aq_payloadHash = ''h'', aq_sessionId = ''s1'',
       aq_runtimeNodeId = ''r1'', aq_bindingRevision = 1, aq_expectedAuthority = demo_authority, ar_authority = demo_authority,
       ar_state = ASucceeded, ar_releasedAt = Some ''t1'', ar_catalogRevision = Some 2, ar_error = None,
       ar_createdAt = ''t0'', ar_updatedAt = ''t1''\<rparr>, ae_backendReleased = True, ae_providerReleased = True\<rparr>"

theorem archived_binding_stays_archived_witness:
  "\<exists>st. commitArchiveSuccess demo_released demo_binding demo_bound_node = Inr st \<and> getBinding ''s1'' st = None \<and>
     isNativeBindingArchived ''codex'' ''a'' ''v'' st"
proof -
  have "runtimeNodeSessionRecordSchema demo_binding" using demo_bound_step by (simp add: putBinding_def split: if_splits)
  then obtain st where st: "commitArchiveSuccess demo_released demo_binding demo_bound_node = Inr st"
    by (auto simp: commitArchiveSuccess_def parseArchiveEntry_def archiveRecordSchema_def demo_released_def demo_binding_def
        put_tombstone_def tombstone_of_def demo_bound_node_def demo_bound_def emptyStore_def Let_def)
  have "store_steps lc st st" for lc by (simp add: store_steps_def)
  from archived_binding_stays_archived [OF st this] st show ?thesis by (auto simp: demo_binding_def)
qed

end
