(* ===== verification/Json_Parse.thy ===== *)
theory Json_Parse
  imports Record_Json
begin

text \<open>
  \<open>JSON.parse\<close>, as the stores, the search cursors and the clients use it. A number literal is read
  by the parameter \<open>num\<close>, the engine's conversion of a decimal literal to a double; everything else is
  the grammar of JSON.
\<close>

subsection \<open>Strings\<close>

definition is_ws :: "char \<Rightarrow> bool" where
  "is_ws c \<longleftrightarrow> c \<in> {CHR 0x20, CHR 0x09, CHR 0x0A, CHR 0x0D}"

definition skip_ws :: "string \<Rightarrow> string" where
  "skip_ws s = dropWhile is_ws s"

definition hex_value :: "char \<Rightarrow> nat option" where
  "hex_value c =
     (let n = of_char c :: nat in
      if 48 \<le> n \<and> n \<le> 57 then Some (n - 48)
      else if 97 \<le> n \<and> n \<le> 102 then Some (n - 87)
      else if 65 \<le> n \<and> n \<le> 70 then Some (n - 55)
      else None)"

definition take_hex4 :: "string \<Rightarrow> (nat \<times> string) option" where
  "take_hex4 s =
     (case map hex_value (take 4 s) of
        [Some a, Some b, Some c, Some d] \<Rightarrow> Some (((a * 16 + b) * 16 + c) * 16 + d, drop 4 s)
      | _ \<Rightarrow> None)"

text \<open>The bytes of a code point; a surrogate that stands alone keeps its three-byte form.\<close>

definition utf8_bytes :: "nat \<Rightarrow> string" where
  "utf8_bytes u = map char_of
     (if u < 0x80 then [u]
      else if u < 0x800 then [0xC0 + u div 64, 0x80 + u mod 64]
      else if u < 0x10000 then [0xE0 + u div 4096, 0x80 + u div 64 mod 64, 0x80 + u mod 64]
      else [0xF0 + u div 262144, 0x80 + u div 4096 mod 64, 0x80 + u div 64 mod 64, 0x80 + u mod 64])"

definition low_surrogate :: "string \<Rightarrow> (nat \<times> string) option" where
  "low_surrogate s =
     (if take 2 s = [CHR 0x5C, CHR ''u''] then
        (case take_hex4 (drop 2 s) of
           Some (v, r) \<Rightarrow> if 0xDC00 \<le> v \<and> v < 0xE000 then Some (v, r) else None
         | None \<Rightarrow> None)
      else None)"

definition read_escape :: "string \<Rightarrow> (string \<times> string) option" where
  "read_escape s =
     (case s of
        [] \<Rightarrow> None
      | c # r \<Rightarrow>
          if c = CHR 0x22 \<or> c = CHR 0x5C \<or> c = CHR ''/'' then Some ([c], r)
          else if c = CHR ''b'' then Some ([CHR 0x08], r)
          else if c = CHR ''f'' then Some ([CHR 0x0C], r)
          else if c = CHR ''n'' then Some ([CHR 0x0A], r)
          else if c = CHR ''r'' then Some ([CHR 0x0D], r)
          else if c = CHR ''t'' then Some ([CHR 0x09], r)
          else if c = CHR ''u'' then
            (case take_hex4 r of
               None \<Rightarrow> None
             | Some (u, r) \<Rightarrow>
                 if 0xD800 \<le> u \<and> u < 0xDC00 then
                   (case low_surrogate r of
                      Some (v, r) \<Rightarrow> Some (utf8_bytes (0x10000 + (u - 0xD800) * 0x400 + (v - 0xDC00)), r)
                    | None \<Rightarrow> Some (utf8_bytes u, r))
                 else Some (utf8_bytes u, r))
          else None)"

text \<open>The rest of a string literal after its opening quote.\<close>

fun read_string :: "nat \<Rightarrow> string \<Rightarrow> (string \<times> string) option" where
  "read_string 0 s = None"
| "read_string (Suc n) s =
     (case s of
        [] \<Rightarrow> None
      | c # cs \<Rightarrow>
          if c = CHR 0x22 then Some ([], cs)
          else if c = CHR 0x5C then
            (case read_escape cs of
               None \<Rightarrow> None
             | Some (t, r) \<Rightarrow> map_option (\<lambda>(u, r). (t @ u, r)) (read_string n r))
          else if of_char c < (32 :: nat) then None
          else map_option (\<lambda>(u, r). (c # u, r)) (read_string n cs))"

subsection \<open>Numbers\<close>

definition is_dec :: "char \<Rightarrow> bool" where
  "is_dec c \<longleftrightarrow> CHR ''0'' \<le> c \<and> c \<le> CHR ''9''"

definition read_integer :: "string \<Rightarrow> (string \<times> string) option" where
  "read_integer s =
     (case takeWhile is_dec s of
        [] \<Rightarrow> None
      | d # ds \<Rightarrow> if d = CHR ''0'' then Some ([d], tl s) else Some (d # ds, dropWhile is_dec s))"

definition read_digits :: "string \<Rightarrow> (string \<times> string) option" where
  "read_digits s = (if takeWhile is_dec s = [] then None else Some (takeWhile is_dec s, dropWhile is_dec s))"

definition read_fraction :: "string \<Rightarrow> (string \<times> string) option" where
  "read_fraction s =
     (case s of
        c # r \<Rightarrow> if c = CHR ''.'' then map_option (\<lambda>(ds, r). (c # ds, r)) (read_digits r) else Some ([], s)
      | [] \<Rightarrow> Some ([], s))"

definition read_exponent :: "string \<Rightarrow> (string \<times> string) option" where
  "read_exponent s =
     (case s of
        c # r \<Rightarrow>
          if c = CHR ''e'' \<or> c = CHR ''E'' then
            (case r of
               g # r' \<Rightarrow> if g = CHR ''+'' \<or> g = CHR ''-'' then map_option (\<lambda>(ds, t). (c # g # ds, t)) (read_digits r')
                 else map_option (\<lambda>(ds, t). (c # ds, t)) (read_digits r)
             | [] \<Rightarrow> None)
          else Some ([], s)
      | [] \<Rightarrow> Some ([], s))"

definition read_sign :: "string \<Rightarrow> string \<times> string" where
  "read_sign s = (case s of c # r \<Rightarrow> if c = CHR ''-'' then ([c], r) else ([], s) | [] \<Rightarrow> ([], s))"

definition read_number :: "string \<Rightarrow> (string \<times> string) option" where
  "read_number s =
     (let (sign, r) = read_sign s in
      case read_integer r of
        None \<Rightarrow> None
      | Some (i, r) \<Rightarrow>
          (case read_fraction r of
             None \<Rightarrow> None
           | Some (f, r) \<Rightarrow> map_option (\<lambda>(e, r). (sign @ i @ f @ e, r)) (read_exponent r)))"

subsection \<open>Values\<close>

text \<open>
  Members are assigned in order, a repeated key keeping its first place; \<open>Object.entries\<close> lists
  members with an array index as key first, in ascending order.
\<close>

definition array_index :: "string \<Rightarrow> nat option" where
  "array_index k =
     (let n = foldl (\<lambda>a c. a * 10 + (of_char c - 48)) 0 k in
      if k \<noteq> [] \<and> list_all is_dec k \<and> nat_text n = k \<and> n < 4294967295 then Some n else None)"

definition entries :: "(string \<times> unk) list \<Rightarrow> (string \<times> unk) list" where
  "entries ms =
     (let own = fold (\<lambda>(k, v). put k v) ms [] in
      sort_le (\<lambda>a b. the (array_index (fst a)) \<le> the (array_index (fst b))) (filter (\<lambda>m. array_index (fst m) \<noteq> None) own) @
      filter (\<lambda>m. array_index (fst m) = None) own)"

definition read_word :: "string \<Rightarrow> unk \<Rightarrow> string \<Rightarrow> (unk \<times> string) option" where
  "read_word w v s = (if take (length w) s = w then Some (v, drop (length w) s) else None)"

fun read_value :: "(string \<Rightarrow> unk) \<Rightarrow> nat \<Rightarrow> string \<Rightarrow> (unk \<times> string) option"
  and read_elements :: "(string \<Rightarrow> unk) \<Rightarrow> nat \<Rightarrow> string \<Rightarrow> (unk list \<times> string) option"
  and read_members :: "(string \<Rightarrow> unk) \<Rightarrow> nat \<Rightarrow> string \<Rightarrow> ((string \<times> unk) list \<times> string) option" where
  "read_value num 0 s = None"
| "read_value num (Suc n) s =
     (case s of
        [] \<Rightarrow> None
      | c # cs \<Rightarrow>
          if c = CHR 0x22 then map_option (map_prod UStr id) (read_string (length cs) cs)
          else if c = CHR ''['' then
            (if take 1 (skip_ws cs) = '']'' then Some (UArr [], drop 1 (skip_ws cs))
             else map_option (map_prod UArr id) (read_elements num n (skip_ws cs)))
          else if c = CHR ''{'' then
            (if take 1 (skip_ws cs) = ''}'' then Some (UObj [], drop 1 (skip_ws cs))
             else map_option (map_prod (\<lambda>ms. UObj (entries ms)) id) (read_members num n (skip_ws cs)))
          else if c = CHR ''t'' then read_word ''true'' (UBool True) s
          else if c = CHR ''f'' then read_word ''false'' (UBool False) s
          else if c = CHR ''n'' then read_word ''null'' UNull s
          else map_option (map_prod num id) (read_number s))"
| "read_elements num 0 s = None"
| "read_elements num (Suc n) s =
     (case read_value num n s of
        None \<Rightarrow> None
      | Some (v, r) \<Rightarrow>
          (case skip_ws r of
             [] \<Rightarrow> None
           | c # t \<Rightarrow>
               if c = CHR '','' then map_option (\<lambda>(vs, u). (v # vs, u)) (read_elements num n (skip_ws t))
               else if c = CHR '']'' then Some ([v], t)
               else None))"
| "read_members num 0 s = None"
| "read_members num (Suc n) s =
     (if take 1 s \<noteq> [CHR 0x22] then None
      else case read_string (length (drop 1 s)) (drop 1 s) of
        None \<Rightarrow> None
      | Some (k, r) \<Rightarrow>
          if take 1 (skip_ws r) \<noteq> '':'' then None
          else (case read_value num n (skip_ws (drop 1 (skip_ws r))) of
             None \<Rightarrow> None
           | Some (v, r) \<Rightarrow>
               (case skip_ws r of
                  [] \<Rightarrow> None
                | c # t \<Rightarrow>
                    if c = CHR '','' then map_option (\<lambda>(ms, u). ((k, v) # ms, u)) (read_members num n (skip_ws t))
                    else if c = CHR ''}'' then Some ([(k, v)], t)
                    else None)))"

definition JSON_parse :: "(string \<Rightarrow> unk) \<Rightarrow> string \<Rightarrow> unk option" where
  "JSON_parse num s =
     (case read_value num (2 * length s + 2) (skip_ws s) of
        None \<Rightarrow> None | Some (v, r) \<Rightarrow> if skip_ws r = [] then Some v else None)"

end
