(* ===== verification/Text_Codec.thy ===== *)
theory Text_Codec
  imports Prelude
begin

text \<open>
  How a text travels through a byte buffer: \<open>Buffer.from(text, "utf8").toString("base64url")\<close> and
  back. A text is the list of its UTF-8 bytes, so writing it to a buffer is the identity; reading bytes
  replaces what is not UTF-8 with U+FFFD.
\<close>

subsection \<open>UTF-8\<close>

text \<open>The ranges of the bytes that may follow a leading byte; \<open>None\<close> for a byte that cannot lead.\<close>

definition follow_ranges :: "nat \<Rightarrow> (nat \<times> nat) list option" where
  "follow_ranges b =
     (if b < 0x80 then Some []
      else if b < 0xC2 then None
      else if b < 0xE0 then Some [(0x80, 0xBF)]
      else if b = 0xE0 then Some [(0xA0, 0xBF), (0x80, 0xBF)]
      else if b = 0xED then Some [(0x80, 0x9F), (0x80, 0xBF)]
      else if b < 0xF0 then Some [(0x80, 0xBF), (0x80, 0xBF)]
      else if b = 0xF0 then Some [(0x90, 0xBF), (0x80, 0xBF), (0x80, 0xBF)]
      else if b < 0xF4 then Some [(0x80, 0xBF), (0x80, 0xBF), (0x80, 0xBF)]
      else if b = 0xF4 then Some [(0x80, 0x8F), (0x80, 0xBF), (0x80, 0xBF)]
      else None)"

fun following :: "(nat \<times> nat) list \<Rightarrow> string \<Rightarrow> nat" where
  "following [] cs = 0"
| "following rs [] = 0"
| "following ((lo, hi) # rs) (c # cs) = (if lo \<le> of_char c \<and> of_char c \<le> hi then Suc (following rs cs) else 0)"

definition replacement :: string where
  "replacement = [CHR 0xEF, CHR 0xBF, CHR 0xBD]"

function utf8_text :: "string \<Rightarrow> string" where
  "utf8_text [] = []"
| "utf8_text (c # cs) =
     (case follow_ranges (of_char c) of
        None \<Rightarrow> replacement @ utf8_text cs
      | Some rs \<Rightarrow>
          let n = following rs cs in
          (if n = length rs then c # take n cs else replacement) @ utf8_text (drop n cs))"
  by pat_completeness auto
termination by (relation "measure length") auto

definition utf8_valid :: "string \<Rightarrow> bool" where
  "utf8_valid s \<longleftrightarrow> utf8_text s = s"

text \<open>ASCII text is valid, and validity is closed under concatenation with it.\<close>

lemma utf8_ascii: "of_char c < (0x80 :: nat) \<Longrightarrow> utf8_text (c # s) = c # utf8_text s"
  by (simp add: follow_ranges_def)

lemma utf8_valid_Nil [simp]: "utf8_valid []"
  by (simp add: utf8_valid_def)

lemma utf8_valid_ascii: "of_char c < (0x80 :: nat) \<Longrightarrow> utf8_valid (c # s) \<longleftrightarrow> utf8_valid s"
  unfolding utf8_valid_def by (simp only: utf8_ascii) simp

lemma utf8_valid_all_ascii: "list_all (\<lambda>c. of_char c < (0x80 :: nat)) s \<Longrightarrow> utf8_valid s"
  by (induction s) (auto simp: utf8_valid_ascii)

subsection \<open>Base64\<close>

definition alphabet :: string where
  "alphabet = ''ABCDEFGHIJKLMNOPQRSTUVWXYZabcdefghijklmnopqrstuvwxyz0123456789-_''"

definition base64_digit :: "nat \<Rightarrow> char" where
  "base64_digit n = alphabet ! n"

definition base64_value :: "char \<Rightarrow> nat option" where
  "base64_value c =
     (let n = of_char c :: nat in
      if 65 \<le> n \<and> n \<le> 90 then Some (n - 65)
      else if 97 \<le> n \<and> n \<le> 122 then Some (n - 71)
      else if 48 \<le> n \<and> n \<le> 57 then Some (n + 4)
      else if n = 43 \<or> n = 45 then Some 62
      else if n = 47 \<or> n = 95 then Some 63
      else None)"

fun sextets :: "nat list \<Rightarrow> nat list" where
  "sextets (a # b # c # r) = a div 4 # (a mod 4 * 16 + b div 16) # (b mod 16 * 4 + c div 64) # c mod 64 # sextets r"
| "sextets [a, b] = [a div 4, a mod 4 * 16 + b div 16, b mod 16 * 4]"
| "sextets [a] = [a div 4, a mod 4 * 16]"
| "sextets [] = []"

fun octets :: "nat list \<Rightarrow> nat list" where
  "octets (p # q # r # s # t) = (p * 4 + q div 16) # (q mod 16 * 16 + r div 4) # (r mod 4 * 64 + s) # octets t"
| "octets [p, q, r] = [p * 4 + q div 16, q mod 16 * 16 + r div 4]"
| "octets [p, q] = [p * 4 + q div 16]"
| "octets _ = []"

text \<open>Reading skips what is not in either alphabet, padding included.\<close>

definition to_base64url :: "string \<Rightarrow> string" where
  "to_base64url s = map base64_digit (sextets (map of_char s))"

definition from_base64url :: "string \<Rightarrow> string" where
  "from_base64url s = map char_of (octets (List.map_filter base64_value s))"

lemma split_digits: "x < m \<Longrightarrow> (p * m + x) div m = p \<and> (p * m + x) mod m = (x :: nat)"
  by simp

lemma digit_bounds: "(n :: nat) < 256 \<Longrightarrow> n div 4 < 64 \<and> n div 16 < 16 \<and> n div 64 < 4"
  by (simp add: less_mult_imp_div_less)

lemma octets_sextets: "list_all (\<lambda>n. n < 256) ns \<Longrightarrow> octets (sextets ns) = ns"
proof (induction ns rule: sextets.induct)
  case (1 a b c r)
  then have "b div 16 < 16" "c div 64 < 4" using digit_bounds by auto
  with 1 split_digits [of "b div 16" 16 "a mod 4"] split_digits [of "c div 64" 4 "b mod 16"] show ?case by simp
next
  case (2 a b)
  then have "b div 16 < 16" using digit_bounds by auto
  with split_digits [of "b div 16" 16 "a mod 4"] show ?case by simp
qed simp_all

lemma join_bound: "p < h \<Longrightarrow> x < m \<Longrightarrow> p * m + x < h * (m :: nat)"
proof -
  assume "p < h" "x < m"
  then have "p * m + x < (p + 1) * m" "(p + 1) * m \<le> h * m" by (simp, simp only: mult_le_mono1 Suc_leI flip: Suc_eq_plus1)
  then show ?thesis by simp
qed

lemma sextets_bound: "list_all (\<lambda>n. n < 256) ns \<Longrightarrow> list_all (\<lambda>n. n < 64) (sextets ns)"
proof (induction ns rule: sextets.induct)
  case (1 a b c r)
  then have "a div 4 < 64" "b div 16 < 16" "c div 64 < 4" using digit_bounds by auto
  with 1 join_bound [of "a mod 4" 4 "b div 16" 16] join_bound [of "b mod 16" 16 "c div 64" 4] show ?case by simp
next
  case (2 a b)
  then have "a div 4 < 64" "b div 16 < 16" using digit_bounds by auto
  with join_bound [of "a mod 4" 4 "b div 16" 16] join_bound [of "b mod 16" 16 0 4] show ?case by simp
next
  case (3 a)
  then have "a div 4 < 64" using digit_bounds by auto
  with join_bound [of "a mod 4" 4 0 16] show ?case by simp
qed simp

lemma base64_value_digit: "n < 64 \<Longrightarrow> base64_value (base64_digit n) = Some n"
proof -
  have "map base64_value alphabet = map Some [0..<64]"
    by (simp add: alphabet_def base64_value_def Let_def upt_rec)
  moreover have "length alphabet = 64" by (simp add: alphabet_def)
  ultimately show "n < 64 \<Longrightarrow> base64_value (base64_digit n) = Some n"
    unfolding base64_digit_def by (metis add_0 diff_zero length_upt nth_map nth_upt)
qed

lemma base64_values: "list_all (\<lambda>n. n < 64) ns \<Longrightarrow> List.map_filter base64_value (map base64_digit ns) = ns"
  by (induction ns) (simp_all add: map_filter_simps base64_value_digit)

lemma base64url_roundtrip: "from_base64url (to_base64url s) = s"
proof -
  have b: "list_all (\<lambda>n. n < 256) (map of_char s :: nat list)" by (simp add: list_all_iff)
  show ?thesis
    by (simp add: from_base64url_def to_base64url_def base64_values [OF sextets_bound [OF b]] octets_sextets [OF b] comp_def)
qed

end
