(* ===== verification/Catalog_Search.thy ===== *)
theory Catalog_Search
  imports Event_Hub Json_Parse Text_Codec
begin

text \<open>
  Search in the catalog: \<open>searchSessions\<close>, \<open>listLaunches\<close> and their page cursors
  (\<^verbatim>\<open>catalog.ts\<close>, inputs in \<^verbatim>\<open>protocol/src/session.ts\<close> and \<^verbatim>\<open>launch.ts\<close>). A page is the part of the matching
  rows, newest first, after the row its cursor names; the cursor also carries a fingerprint of the query
  and the authority it was made under. \<open>sha\<close> is the hex digest of SHA-256, \<open>num\<close> the engine's reading of a
  number literal, \<open>lc\<close> its collation.
\<close>

subsection \<open>Inputs\<close>

datatype session_state = SRunning | SStopped | SArchived

datatype metadata_predicate = KeyExists string | KeyEquals string json

record session_search =
  sq_states :: "session_state list"
  sq_runtimeNodeIds :: "string list option"
  sq_harnesses :: "string list option"
  sq_providerIds :: "string list option"
  sq_profileIds :: "string list option"
  sq_metadata :: "metadata_predicate list"
  sq_lastActivityAfter :: "string option"
  sq_lastActivityBefore :: "string option"
  sq_cursor :: "string option"
  sq_limit :: nat

record launch_list =
  ll_runtimeNodeId :: "string option"
  ll_sessionId :: "string option"
  ll_providerId :: "string option"
  ll_profileId :: "string option"
  ll_states :: "launch_state list option"
  ll_cursor :: "string option"
  ll_limit :: nat

text \<open>The length of a text in JavaScript: its UTF-16 units, two for a code point of four bytes.\<close>

definition utf16_units :: "string \<Rightarrow> nat" where
  "utf16_units s = length (filter (\<lambda>c. \<not> (0x80 \<le> (of_char c :: nat) \<and> of_char c < (0xC0 :: nat))) s) +
     length (filter (\<lambda>c. 0xF0 \<le> (of_char c :: nat)) s)"

definition cursor_text :: "string \<Rightarrow> bool" where
  "cursor_text s \<longleftrightarrow> 1 \<le> utf16_units s \<and> utf16_units s \<le> 32768"

definition unique_filter :: "nat option \<Rightarrow> 'a list option \<Rightarrow> bool" where
  "unique_filter bound xs = (case xs of
     None \<Rightarrow> True
   | Some ys \<Rightarrow> ys \<noteq> [] \<and> distinct ys \<and> (case bound of None \<Rightarrow> True | Some n \<Rightarrow> length ys \<le> n))"

definition predicate_key :: "metadata_predicate \<Rightarrow> string" where
  "predicate_key p = (case p of KeyExists k \<Rightarrow> k | KeyEquals k v \<Rightarrow> k)"

definition sessionSearchInputSchema :: "session_search \<Rightarrow> bool" where
  "sessionSearchInputSchema q \<longleftrightarrow>
     unique_filter None (Some (sq_states q)) \<and>
     unique_filter (Some 1000) (sq_runtimeNodeIds q) \<and>
     unique_filter None (sq_harnesses q) \<and>
     unique_filter (Some 100) (sq_providerIds q) \<and>
     unique_filter (Some 100) (sq_profileIds q) \<and>
     list_all (\<lambda>p. metadataKeySchema (predicate_key p)) (sq_metadata q) \<and> length (sq_metadata q) \<le> 32 \<and>
     pred_option cursor_text (sq_cursor q) \<and>
     1 \<le> sq_limit q \<and> sq_limit q \<le> 500 \<and>
     (case (sq_lastActivityAfter q, sq_lastActivityBefore q) of (Some a, Some b) \<Rightarrow> \<not> b < a | _ \<Rightarrow> True)"

definition launchListInputSchema :: "launch_list \<Rightarrow> bool" where
  "launchListInputSchema q \<longleftrightarrow>
     unique_filter None (ll_states q) \<and> pred_option cursor_text (ll_cursor q) \<and> 1 \<le> ll_limit q \<and> ll_limit q \<le> 500"

subsection \<open>Fingerprints\<close>

datatype search_fault = Fault core_error | TypeFault

definition session_state_text :: "session_state \<Rightarrow> string" where
  "session_state_text s = (case s of SRunning \<Rightarrow> ''running'' | SStopped \<Rightarrow> ''stopped'' | SArchived \<Rightarrow> ''archived'')"

definition texts_json :: "string list \<Rightarrow> json" where
  "texts_json ss = JArr (map JStr ss)"

definition predicate_json :: "metadata_predicate \<Rightarrow> json" where
  "predicate_json p = (case p of
     KeyExists k \<Rightarrow> JObj [(''operator'', JStr ''exists''), (''key'', JStr k)]
   | KeyEquals k v \<Rightarrow> JObj [(''operator'', JStr ''equals''), (''key'', JStr k), (''value'', v)])"

text \<open>The query without its cursor.\<close>

definition search_json :: "session_search \<Rightarrow> json" where
  "search_json q = JObj (
     [(''states'', texts_json (map session_state_text (sq_states q)))] @
     optional ''runtimeNodeIds'' texts_json (sq_runtimeNodeIds q) @
     optional ''harnesses'' texts_json (sq_harnesses q) @
     optional ''providerIds'' texts_json (sq_providerIds q) @
     optional ''profileIds'' texts_json (sq_profileIds q) @
     [(''metadata'', JArr (map predicate_json (sq_metadata q)))] @
     optional ''lastActivityAfter'' JStr (sq_lastActivityAfter q) @
     optional ''lastActivityBefore'' JStr (sq_lastActivityBefore q) @
     [(''limit'', JNum (nat_text (sq_limit q)))])"

definition launch_list_json :: "launch_list \<Rightarrow> json" where
  "launch_list_json q = JObj (
     optional ''runtimeNodeId'' JStr (ll_runtimeNodeId q) @
     optional ''sessionId'' JStr (ll_sessionId q) @
     optional ''providerId'' JStr (ll_providerId q) @
     optional ''profileId'' JStr (ll_profileId q) @
     optional ''states'' (\<lambda>ss. texts_json (map launch_state_text ss)) (ll_states q) @
     [(''limit'', JNum (nat_text (ll_limit q)))])"

definition hashCanonical :: "(string \<Rightarrow> string) \<Rightarrow> collation \<Rightarrow> json \<Rightarrow> search_fault + string" where
  "hashCanonical sha lc v = map_sum (\<lambda>_. TypeFault) sha (canonicalProtocolRecordJson lc (unk_of v))"

definition sessionSearchFingerprint :: "(string \<Rightarrow> string) \<Rightarrow> collation \<Rightarrow> session_search \<Rightarrow> search_fault + string" where
  "sessionSearchFingerprint sha lc q = hashCanonical sha lc (search_json q)"

definition launchListFingerprint :: "(string \<Rightarrow> string) \<Rightarrow> collation \<Rightarrow> launch_list \<Rightarrow> search_fault + string" where
  "launchListFingerprint sha lc q = hashCanonical sha lc (launch_list_json q)"

subsection \<open>Cursors\<close>

record search_cursor =
  sk_fingerprint :: string
  sk_authority :: string
  sk_at :: string
  sk_id :: string

definition session_cursor_json :: "search_cursor \<Rightarrow> json" where
  "session_cursor_json k = JObj [(''version'', JNum ''1''), (''fingerprint'', JStr (sk_fingerprint k)),
     (''authority'', JStr (sk_authority k)), (''activityAt'', JStr (sk_at k)), (''sessionId'', JStr (sk_id k))]"

definition operation_cursor_json :: "search_cursor \<Rightarrow> json" where
  "operation_cursor_json k = JObj [(''version'', JNum ''1''), (''kind'', JStr ''launch''),
     (''fingerprint'', JStr (sk_fingerprint k)), (''authority'', JStr (sk_authority k)),
     (''updatedAt'', JStr (sk_at k)), (''id'', JStr (sk_id k))]"

definition encodeSessionSearchCursor :: "search_cursor \<Rightarrow> string" where
  "encodeSessionSearchCursor k = to_base64url (json_text (session_cursor_json k))"

definition encodeOperationCursor :: "search_cursor \<Rightarrow> string" where
  "encodeOperationCursor k = to_base64url (json_text (operation_cursor_json k))"

definition decodeCursor :: "(string \<Rightarrow> unk) \<Rightarrow> string \<Rightarrow> search_fault + unk" where
  "decodeCursor num s =
     (case JSON_parse num (utf8_text (from_base64url s)) of None \<Rightarrow> Inl (Fault FENCED) | Some v \<Rightarrow> Inr v)"

text \<open>Reading a property of a value that is not an object gives \<open>undefined\<close>, of \<open>null\<close> a \<open>TypeError\<close>.\<close>

definition member_of :: "unk \<Rightarrow> string \<Rightarrow> unk" where
  "member_of v k = (case v of UObj ms \<Rightarrow> (case map_of ms k of None \<Rightarrow> UUndef | Some w \<Rightarrow> w) | _ \<Rightarrow> UUndef)"

definition is_text :: "unk \<Rightarrow> bool" where
  "is_text v \<longleftrightarrow> (case v of UStr s \<Rightarrow> True | _ \<Rightarrow> False)"

definition text_of :: "unk \<Rightarrow> string" where
  "text_of v = (case v of UStr s \<Rightarrow> s | _ \<Rightarrow> [])"

definition decodeSessionSearchCursor ::
  "(string \<Rightarrow> unk) \<Rightarrow> string \<Rightarrow> string \<Rightarrow> string \<Rightarrow> search_fault + search_cursor" where
  "decodeSessionSearchCursor num s fingerprint auth =
     (case decodeCursor num s of
        Inl x \<Rightarrow> Inl x
      | Inr v \<Rightarrow>
          if v = UNull then Inl TypeFault
          else if member_of v ''version'' \<noteq> UNum ''1'' \<or> member_of v ''fingerprint'' \<noteq> UStr fingerprint \<or>
            member_of v ''authority'' \<noteq> UStr auth \<or> \<not> is_text (member_of v ''activityAt'') \<or>
            \<not> is_text (member_of v ''sessionId'') then Inl (Fault FENCED)
          else Inr \<lparr>sk_fingerprint = fingerprint, sk_authority = auth,
            sk_at = text_of (member_of v ''activityAt''), sk_id = text_of (member_of v ''sessionId'')\<rparr>)"

definition decodeOperationCursor ::
  "(string \<Rightarrow> unk) \<Rightarrow> string \<Rightarrow> string \<Rightarrow> string \<Rightarrow> search_fault + search_cursor" where
  "decodeOperationCursor num s fingerprint auth =
     (case decodeCursor num s of
        Inl x \<Rightarrow> Inl x
      | Inr v \<Rightarrow>
          if v = UNull then Inl TypeFault
          else if member_of v ''version'' \<noteq> UNum ''1'' \<or> member_of v ''kind'' \<noteq> UStr ''launch'' \<or>
            member_of v ''fingerprint'' \<noteq> UStr fingerprint \<or> member_of v ''authority'' \<noteq> UStr auth \<or>
            \<not> is_text (member_of v ''updatedAt'') \<or> \<not> is_text (member_of v ''id'') then Inl (Fault FENCED)
          else Inr \<lparr>sk_fingerprint = fingerprint, sk_authority = auth,
            sk_at = text_of (member_of v ''updatedAt''), sk_id = text_of (member_of v ''id'')\<rparr>)"

subsection \<open>Pages\<close>

text \<open>\<open>ORDER BY at DESC, id ASC\<close>, the rows after a cursor, and one page: a row more than the limit shows
  that there is a next one.\<close>

definition newer :: "('r \<Rightarrow> string) \<Rightarrow> ('r \<Rightarrow> string) \<Rightarrow> 'r \<Rightarrow> 'r \<Rightarrow> bool" where
  "newer act key a b \<longleftrightarrow> act b < act a \<or> act a = act b \<and> key a \<le> key b"

definition after_cursor :: "('r \<Rightarrow> string) \<Rightarrow> ('r \<Rightarrow> string) \<Rightarrow> search_cursor option \<Rightarrow> 'r \<Rightarrow> bool" where
  "after_cursor act key k r =
     (case k of None \<Rightarrow> True | Some k \<Rightarrow> act r < sk_at k \<or> act r = sk_at k \<and> sk_id k < key r)"

definition page_rows ::
  "('r \<Rightarrow> string) \<Rightarrow> ('r \<Rightarrow> string) \<Rightarrow> search_cursor option \<Rightarrow> nat \<Rightarrow> 'r list \<Rightarrow> 'r list \<times> 'r option" where
  "page_rows act key k limit matching =
     (let rows = take (limit + 1) (sort_le (newer act key) (filter (after_cursor act key k) matching));
          visible = take limit rows
      in if limit < length rows then (visible, Some (last visible)) else (rows, None))"

definition activity_at :: "session \<Rightarrow> string" where
  "activity_at s = (case se_lastActivityAt s of None \<Rightarrow> se_updatedAt s | Some t \<Rightarrow> t)"

definition in_state :: "session \<Rightarrow> session_state \<Rightarrow> bool" where
  "in_state s st = (case st of
     SRunning \<Rightarrow> se_catalogState s = Open \<and> se_availability s = Active
   | SStopped \<Rightarrow> se_catalogState s = Open \<and> se_availability s \<noteq> Active
   | SArchived \<Rightarrow> se_catalogState s = Archived)"

definition in_filter :: "'a option \<Rightarrow> 'a list option \<Rightarrow> bool" where
  "in_filter column xs = (case xs of None \<Rightarrow> True | Some ys \<Rightarrow> (case column of None \<Rightarrow> False | Some x \<Rightarrow> x \<in> set ys))"

text \<open>The metadata index holds the canonical text of each value and its hash.\<close>

definition satisfies :: "(string \<Rightarrow> string) \<Rightarrow> collation \<Rightarrow> session \<Rightarrow> metadata_predicate \<Rightarrow> bool" where
  "satisfies sha lc s p =
     (case p of
        KeyExists k \<Rightarrow> map_of (ms_values (se_metadata s)) k \<noteq> None
      | KeyEquals k v \<Rightarrow>
          (case map_of (ms_values (se_metadata s)) k of
             None \<Rightarrow> False
           | Some w \<Rightarrow> sha (canonicalJson lc w) = sha (canonicalJson lc v) \<and> canonicalJson lc w = canonicalJson lc v))"

definition search_matches :: "(string \<Rightarrow> string) \<Rightarrow> collation \<Rightarrow> session_search \<Rightarrow> session \<Rightarrow> bool" where
  "search_matches sha lc q s \<longleftrightarrow>
     list_ex (in_state s) (sq_states q) \<and>
     in_filter (Some (se_runtimeNodeId s)) (sq_runtimeNodeIds q) \<and>
     in_filter (Some (se_harness s)) (sq_harnesses q) \<and>
     in_filter (map_option pv_providerId (se_launchProvenance s)) (sq_providerIds q) \<and>
     in_filter (map_option pv_profileId (se_launchProvenance s)) (sq_profileIds q) \<and>
     (case sq_lastActivityAfter q of None \<Rightarrow> True | Some t \<Rightarrow> t \<le> activity_at s) \<and>
     (case sq_lastActivityBefore q of None \<Rightarrow> True | Some t \<Rightarrow> activity_at s \<le> t) \<and>
     list_all (satisfies sha lc s) (sq_metadata q)"

definition sessionSearchPageSchema :: "session list \<times> string option \<Rightarrow> bool" where
  "sessionSearchPageSchema p \<longleftrightarrow>
     list_all sessionRecordSchema (fst p) \<and> length (fst p) \<le> 500 \<and> pred_option cursor_text (snd p)"

definition searchSessions ::
  "(string \<Rightarrow> string) \<Rightarrow> collation \<Rightarrow> (string \<Rightarrow> unk) \<Rightarrow> session_search \<Rightarrow> catalog \<Rightarrow>
   search_fault + session list \<times> string option" where
  "searchSessions sha lc num q c =
     (if \<not> sessionSearchInputSchema q then Inl (Fault INVALID)
      else case sessionSearchFingerprint sha lc q of
        Inl x \<Rightarrow> Inl x
      | Inr fingerprint \<Rightarrow>
          let auth = authorityKey (authority c) in
          (case (case sq_cursor q of None \<Rightarrow> Inr None
                 | Some s \<Rightarrow> map_sum id Some (decodeSessionSearchCursor num s fingerprint auth)) of
             Inl x \<Rightarrow> Inl x
           | Inr k \<Rightarrow>
               let (sessions, tail) = page_rows activity_at se_sessionId k (sq_limit q)
                     (filter (search_matches sha lc q) (records (ca_sessions c)));
                   page = (sessions, map_option (\<lambda>s. encodeSessionSearchCursor
                     \<lparr>sk_fingerprint = fingerprint, sk_authority = auth, sk_at = activity_at s, sk_id = se_sessionId s\<rparr>) tail)
               in if sessionSearchPageSchema page then Inr page else Inl (Fault INVALID)))"

definition sessionSearchCursor ::
  "(string \<Rightarrow> string) \<Rightarrow> collation \<Rightarrow> session_search \<Rightarrow> session \<Rightarrow> catalog \<Rightarrow> search_fault + string" where
  "sessionSearchCursor sha lc q tail c =
     (if \<not> sessionSearchInputSchema q then Inl (Fault INVALID)
      else map_sum id (\<lambda>f. encodeSessionSearchCursor \<lparr>sk_fingerprint = f, sk_authority = authorityKey (authority c),
        sk_at = activity_at tail, sk_id = se_sessionId tail\<rparr>) (sessionSearchFingerprint sha lc q))"

definition launch_matches :: "launch_list \<Rightarrow> launch_record \<Rightarrow> bool" where
  "launch_matches q l \<longleftrightarrow>
     in_filter (Some (lq_runtimeNodeId l)) (map_option (\<lambda>x. [x]) (ll_runtimeNodeId q)) \<and>
     in_filter (Some (lq_sessionId l)) (map_option (\<lambda>x. [x]) (ll_sessionId q)) \<and>
     in_filter (Some (lp_providerId (lq_profile l))) (map_option (\<lambda>x. [x]) (ll_providerId q)) \<and>
     in_filter (Some (lp_profileId (lq_profile l))) (map_option (\<lambda>x. [x]) (ll_profileId q)) \<and>
     in_filter (Some (lr_state l)) (ll_states q)"

definition listLaunches ::
  "(string \<Rightarrow> string) \<Rightarrow> collation \<Rightarrow> (string \<Rightarrow> unk) \<Rightarrow> launch_list \<Rightarrow> catalog \<Rightarrow>
   search_fault + launch_record list \<times> string option" where
  "listLaunches sha lc num q c =
     (if \<not> launchListInputSchema q then Inl (Fault INVALID)
      else case launchListFingerprint sha lc q of
        Inl x \<Rightarrow> Inl x
      | Inr fingerprint \<Rightarrow>
          let auth = authorityKey (authority c) in
          (case (case ll_cursor q of None \<Rightarrow> Inr None
                 | Some s \<Rightarrow> map_sum id Some (decodeOperationCursor num s fingerprint auth)) of
             Inl x \<Rightarrow> Inl x
           | Inr k \<Rightarrow>
               let (launches, tail) = page_rows lr_updatedAt lq_launchId k (ll_limit q)
                     (filter (launch_matches q) (records (ca_launches c)))
               in Inr (launches, map_option (\<lambda>l. encodeOperationCursor
                     \<lparr>sk_fingerprint = fingerprint, sk_authority = auth, sk_at = lr_updatedAt l, sk_id = lq_launchId l\<rparr>) tail)))"

definition launchListCursor ::
  "(string \<Rightarrow> string) \<Rightarrow> collation \<Rightarrow> launch_list \<Rightarrow> launch_record \<Rightarrow> catalog \<Rightarrow> search_fault + string" where
  "launchListCursor sha lc q tail c =
     (if \<not> launchListInputSchema q then Inl (Fault INVALID)
      else map_sum id (\<lambda>f. encodeOperationCursor \<lparr>sk_fingerprint = f, sk_authority = authorityKey (authority c),
        sk_at = lr_updatedAt tail, sk_id = lq_launchId tail\<rparr>) (launchListFingerprint sha lc q))"

end
