(* ===== verification/Keyset_Pages.thy ===== *)
theory Keyset_Pages
  imports Catalog_Search
begin

text \<open>
  Paging by keyset, for any table whose rows have a time and a unique key: following the cursors of the
  pages visits the matching rows once, newest first, and ends.
\<close>

subsection \<open>Sorting and filtering\<close>

lemma newer_total: "newer act key a b \<or> newer act key b a"
  by (auto simp: newer_def)

lemma newer_trans: "newer act key a b \<Longrightarrow> newer act key b c \<Longrightarrow> newer act key a c"
  by (auto simp: newer_def)

lemma newer_antisym: "newer act key a b \<Longrightarrow> newer act key b a \<Longrightarrow> key a = key b"
  by (auto simp: newer_def)

lemma sorted_newer: "sorted_wrt (newer act key) (sort_le (newer act key) xs)"
  by (rule sorted_sort_le [OF newer_total newer_trans])

lemma filter_sort_newer:
  assumes "distinct (map key xs)"
  shows "sort_le (newer act key) (filter P xs) = filter P (sort_le (newer act key) xs)"
proof (rule sorted_wrt_unique)
  show "sorted_wrt (newer act key) (sort_le (newer act key) (filter P xs))" by (rule sorted_newer)
  show "sorted_wrt (newer act key) (filter P (sort_le (newer act key) xs))"
    by (rule sorted_wrt_filter [OF sorted_newer])
  show "a = b" if "a \<in> set (sort_le (newer act key) (filter P xs))" "b \<in> set (sort_le (newer act key) (filter P xs))"
    "newer act key a b" "newer act key b a" for a b
    using assms that newer_antisym [OF that(3,4)] by (auto simp: distinct_map inj_on_def)
qed (use assms in \<open>auto simp: distinct_map distinct_sort_le\<close>)

text \<open>The rows after the \<open>j\<close>-th row of the order are the ones that follow it.\<close>

definition anchor_of :: "('r \<Rightarrow> string) \<Rightarrow> ('r \<Rightarrow> string) \<Rightarrow> string \<Rightarrow> string \<Rightarrow> 'r \<Rightarrow> search_cursor" where
  "anchor_of act key fingerprint auth r =
     \<lparr>sk_fingerprint = fingerprint, sk_authority = auth, sk_at = act r, sk_id = key r\<rparr>"

lemma after_anchor:
  "key r \<noteq> key s \<Longrightarrow> after_cursor act key (Some (anchor_of act key f a s)) r \<longleftrightarrow> newer act key s r"
  by (auto simp: after_cursor_def anchor_of_def newer_def)

lemma not_after_self: "\<not> after_cursor act key (Some (anchor_of act key f a s)) s"
  by (simp add: after_cursor_def anchor_of_def)

lemma filter_after:
  assumes "sorted_wrt (newer act key) xs" "distinct (map key xs)" "j < length xs"
  shows "filter (after_cursor act key (Some (anchor_of act key f a (xs ! j)))) xs = drop (Suc j) xs"
  using assms
proof (induction xs arbitrary: j)
  case (Cons x xs)
  show ?case
  proof (cases j)
    case 0
    have "after_cursor act key (Some (anchor_of act key f a x)) r" if "r \<in> set xs" for r
      using Cons.prems(1,2) that by (subst after_anchor) (auto, metis imageI)
    then show ?thesis by (simp add: 0 not_after_self)
  next
    case (Suc i)
    then have i: "i < length xs" using Cons.prems(3) by simp
    have "xs ! i \<in> set xs" using i by simp
    then have "key (xs ! i) \<noteq> key x" "newer act key x (xs ! i)" using Cons.prems(1,2) by (auto, metis imageI)
    then have "\<not> after_cursor act key (Some (anchor_of act key f a (xs ! i))) x"
      using newer_antisym after_anchor [of key x "xs ! i"] by metis
    with Cons.IH [OF _ _ i] Cons.prems(1,2) Suc show ?thesis by simp
  qed
qed simp

lemma page_rows_from:
  assumes "distinct (map key rows)" "xs = sort_le (newer act key) rows" "j \<le> length xs" "0 < limit"
    and "k = (if j = 0 then None else Some (anchor_of act key f a (xs ! (j - 1))))"
  shows "page_rows act key k limit rows =
    (take limit (drop j xs), if j + limit < length xs then Some (xs ! (j + limit - 1)) else None)"
proof -
  have d: "distinct (map key xs)" using assms(1,2) by (auto simp: distinct_map)
  have "sort_le (newer act key) (filter (after_cursor act key k) rows) = filter (after_cursor act key k) xs"
    using filter_sort_newer [OF assms(1)] assms(2) by blast
  also have "\<dots> = drop j xs"
  proof (cases j)
    case 0
    then show ?thesis using assms(5) by (simp add: after_cursor_def)
  next
    case (Suc i)
    then show ?thesis using filter_after [OF _ d, of act i f a] sorted_newer [of act key rows] assms(2,3,5) by (simp add: Suc_le_eq)
  qed
  finally have r: "sort_le (newer act key) (filter (after_cursor act key k) rows) = drop j xs" .
  have last: "last (take limit (drop j xs)) = xs ! (j + limit - 1)" if "j + limit < length xs"
    using that assms(4) by (subst last_conv_nth) auto
  show ?thesis using assms(4) last by (auto simp: page_rows_def Let_def r min_def)
qed

subsection \<open>Following the cursors\<close>

text \<open>A client that asks for page after page; \<open>None\<close> when \<open>n\<close> requests were not enough.\<close>

fun all_pages ::
  "(string option \<Rightarrow> 'e + 'r list \<times> string option) \<Rightarrow> nat \<Rightarrow> string option \<Rightarrow> ('e + 'r list list) option" where
  "all_pages page 0 k = None"
| "all_pages page (Suc n) k =
     (case page k of
        Inl e \<Rightarrow> Some (Inl e)
      | Inr (rs, None) \<Rightarrow> Some (Inr [rs])
      | Inr (rs, Some k') \<Rightarrow> map_option (map_sum id (Cons rs)) (all_pages page n (Some k')))"

text \<open>
  What a search promises: in a context in order (\<open>ok\<close>: the platform, a valid query and a catalog), a page
  holds the matching rows after the row its cursor was made for.
\<close>

locale keyset_search =
  fixes act :: "'r \<Rightarrow> string" and key :: "'r \<Rightarrow> string" and ok :: "'x \<Rightarrow> bool"
    and rows :: "'x \<Rightarrow> 'r list" and limit :: "'x \<Rightarrow> nat" and fingerprint :: "'x \<Rightarrow> string" and auth :: "'x \<Rightarrow> string"
    and encode :: "search_cursor \<Rightarrow> string" and page :: "'x \<Rightarrow> string option \<Rightarrow> 'e + 'r list \<times> string option"
  assumes keys: "ok x \<Longrightarrow> distinct (map key (rows x))"
    and limit: "ok x \<Longrightarrow> 0 < limit x"
    and first_page: "ok x \<Longrightarrow> page x None =
      (let (rs, tail) = page_rows act key None (limit x) (rows x) in
       Inr (rs, map_option (\<lambda>r. encode (anchor_of act key (fingerprint x) (auth x) r)) tail))"
    and next_page: "ok x \<Longrightarrow> r \<in> set (rows x) \<Longrightarrow> page x (Some (encode (anchor_of act key (fingerprint x) (auth x) r))) =
      (let (rs, tail) = page_rows act key (Some (anchor_of act key (fingerprint x) (auth x) r)) (limit x) (rows x) in
       Inr (rs, map_option (\<lambda>r. encode (anchor_of act key (fingerprint x) (auth x) r)) tail))"
begin

lemma page_from:
  assumes "ok x" "xs = sort_le (newer act key) (rows x)" "j \<le> length xs"
  shows "page x (if j = 0 then None else Some (encode (anchor_of act key (fingerprint x) (auth x) (xs ! (j - 1))))) =
    Inr (take (limit x) (drop j xs), if j + limit x < length xs
      then Some (encode (anchor_of act key (fingerprint x) (auth x) (xs ! (j + limit x - 1)))) else None)"
proof -
  note rows = page_rows_from [OF keys [OF assms(1)] assms(2,3) limit [OF assms(1)] refl,
    of "fingerprint x" "auth x"]
  have "xs ! (j - 1) \<in> set (rows x)" if "j \<noteq> 0"
  proof -
    have "xs ! (j - 1) \<in> set xs" using that assms(3) by (intro nth_mem) simp
    then show ?thesis using assms(2) by simp
  qed
  with rows first_page [OF assms(1)] next_page [OF assms(1)] show ?thesis by (cases "j = 0") simp_all
qed

lemma pages_from:
  assumes "ok x" "xs = sort_le (newer act key) (rows x)" "j \<le> length xs" "length xs - j < n * limit x \<or> j = length xs \<and> 0 < n"
  shows "\<exists>pss. all_pages (page x) n (if j = 0 then None else Some (encode (anchor_of act key (fingerprint x) (auth x) (xs ! (j - 1))))) =
      Some (Inr pss) \<and> concat pss = drop j xs \<and> list_all (\<lambda>p. length p \<le> limit x) pss"
  using assms(3,4)
proof (induction n arbitrary: j)
  case (Suc n)
  let ?n = "limit x"
  note p = page_from [OF assms(1,2) Suc.prems(1)]
  show ?case
  proof (cases "j + ?n < length xs")
    case False
    then show ?thesis using p by (intro exI [of _ "[drop j xs]"]) (simp add: min_def)
  next
    case True
    have "length xs - (j + ?n) < n * ?n \<or> j + ?n = length xs \<and> 0 < n" using True Suc.prems(2) by auto
    from Suc.IH [OF _ this] True obtain pss where
      "all_pages (page x) n (Some (encode (anchor_of act key (fingerprint x) (auth x) (xs ! (j + ?n - 1))))) = Some (Inr pss)"
      "concat pss = drop (j + ?n) xs" "list_all (\<lambda>p. length p \<le> ?n) pss"
      using limit [OF assms(1)] by fastforce
    moreover have "drop j xs = take ?n (drop j xs) @ drop (j + ?n) xs"
      by (metis add.commute append_take_drop_id drop_drop)
    ultimately show ?thesis using p True
      by (intro exI [of _ "take ?n (drop j xs) # pss"]) simp
  qed
qed (use limit [OF assms(1)] in simp)

lemma pages_cover:
  assumes "ok x" "length (rows x) < n * limit x"
  shows "\<exists>pss. all_pages (page x) n None = Some (Inr pss) \<and> list_all (\<lambda>p. length p \<le> limit x) pss \<and>
    distinct (map key (concat pss)) \<and> set (concat pss) = set (rows x) \<and> sorted_wrt (newer act key) (concat pss)"
proof -
  let ?xs = "sort_le (newer act key) (rows x)"
  from pages_from [OF assms(1) refl, of 0 n] assms(2) obtain pss where
    "all_pages (page x) n None = Some (Inr pss)" "concat pss = ?xs" "list_all (\<lambda>p. length p \<le> limit x) pss" by auto
  moreover have "distinct (map key ?xs)" using keys [OF assms(1)] by (auto simp: distinct_map)
  moreover have "set ?xs = set (rows x)" by simp
  ultimately show ?thesis using sorted_newer [of act key "rows x"] by metis
qed

end

end
