(* ===== verification/Json_Roundtrip.thy ===== *)
theory Json_Roundtrip
  imports Json_Parse
begin

text \<open>\<open>JSON.parse\<close> reads back what \<open>JSON.stringify\<close> prints, and reading never runs out of fuel.\<close>

subsection \<open>Strings\<close>

lemma read_escapes:
  "list_all (\<lambda>n. map_option (map_prod (map of_char) id) (read_escape (escape_tail n @ r)) = Some ([n], r)) (34 # 92 # [0..<32])"
proof -
  have "[0..<32] = 0 # 1 # [2..<32]" by (simp add: upt_conv_Cons numeral_2_eq_2)
  then show ?thesis
    by (simp add: escape_tail_def read_escape_def take_hex4_def hex_value_def hex_digit_def utf8_bytes_def Let_def)
qed

lemma read_escape_tail:
  assumes "escaped (of_char c)"
  shows "read_escape (escape_tail (of_char c) @ r) = Some ([c], r)"
proof -
  have "(of_char c :: nat) \<in> set (34 # 92 # [0..<32])" using assms by (auto simp: escaped_def)
  from read_escapes [of r, unfolded list_all_iff, rule_format, OF this]
  have "map_option (map_prod (map of_char) id) (read_escape (escape_tail (of_char c) @ r)) = Some ([of_char c :: nat], r)" .
  then show ?thesis by auto
qed

lemma read_quoted:
  "length (concat (map json_escape s)) < n \<Longrightarrow>
   read_string n (concat (map json_escape s) @ CHR 0x22 # r) = Some (s, r)"
proof (induction s arbitrary: n)
  case Nil
  then show ?case by (cases n) simp_all
next
  case (Cons c s)
  let ?t = "concat (map json_escape s)"
  obtain m where n: "n = Suc m" using Cons.prems by (cases n) auto
  have m: "length ?t < m" using Cons.prems n by (simp add: json_escape_cases [of c] split: if_splits)
  show ?case
  proof (cases "escaped (of_char c)")
    case True
    with Cons.IH [OF m] n read_escape_tail [OF True, of "?t @ CHR 0x22 # r"] show ?thesis
      by (simp add: json_escape_cases [of c])
  next
    case False
    then have "c \<noteq> CHR 0x22" "c \<noteq> CHR 0x5C" "\<not> of_char c < (32 :: nat)" by (auto simp: escaped_def)
    with Cons.IH [OF m] n False show ?thesis by (simp add: json_escape_cases [of c])
  qed
qed

subsection \<open>Numbers\<close>

lemma is_dec_num: "is_dec c \<Longrightarrow> c \<in> set num_chars"
proof -
  assume "is_dec c"
  then have "48 \<le> (of_char c :: nat)" "(of_char c :: nat) \<le> 57" by (simp_all add: is_dec_def less_eq_char_def)
  then have "(of_char c :: nat) = 48 \<or> of_char c = (49 :: nat) \<or> of_char c = (50 :: nat) \<or> of_char c = (51 :: nat) \<or>
      of_char c = (52 :: nat) \<or> of_char c = (53 :: nat) \<or> of_char c = (54 :: nat) \<or> of_char c = (55 :: nat) \<or>
      of_char c = (56 :: nat) \<or> of_char c = (57 :: nat)" by presburger
  then have "(of_char c :: nat) \<in> of_char ` set num_chars" by (auto simp: num_chars_def)
  then show "c \<in> set num_chars" by auto
qed

lemma stop_takeWhile:
  assumes "stop r"
  shows "takeWhile is_dec (s @ r) = takeWhile is_dec s" "dropWhile is_dec (s @ r) = dropWhile is_dec s @ r"
proof -
  have r: "takeWhile is_dec r = []" "dropWhile is_dec r = r"
    using assms is_dec_num by (cases r; auto simp: stop_def)+
  show "takeWhile is_dec (s @ r) = takeWhile is_dec s" "dropWhile is_dec (s @ r) = dropWhile is_dec s @ r"
    using r by (induction s) auto
qed

lemma stop_head: "stop r \<Longrightarrow> r = c # t \<Longrightarrow> c \<noteq> CHR ''.'' \<and> c \<noteq> CHR ''e'' \<and> c \<noteq> CHR ''E''"
  by (auto simp: num_chars_def)

lemma read_integer_append: "stop r \<Longrightarrow> read_integer s = Some (i, t) \<Longrightarrow> read_integer (s @ r) = Some (i, t @ r)"
  by (cases s) (auto simp: read_integer_def stop_takeWhile split: list.splits if_splits)

lemma read_digits_append: "stop r \<Longrightarrow> read_digits s = Some (i, t) \<Longrightarrow> read_digits (s @ r) = Some (i, t @ r)"
  by (auto simp: read_digits_def stop_takeWhile split: if_splits)

lemma read_fraction_append:
  assumes "stop r" "read_fraction s = Some (i, t)"
  shows "read_fraction (s @ r) = Some (i, t @ r)"
proof (cases s)
  case Nil
  with assms show ?thesis by (cases r) (auto simp: read_fraction_def num_chars_def)
qed (use assms in \<open>auto simp: read_fraction_def read_digits_append split: if_splits\<close>)

lemma read_exponent_append:
  assumes "stop r" "read_exponent s = Some (i, t)"
  shows "read_exponent (s @ r) = Some (i, t @ r)"
proof (cases s)
  case Nil
  with assms show ?thesis by (cases r) (auto simp: read_exponent_def num_chars_def)
next
  case (Cons c s')
  have d: "read_digits u = Some (ds, v) \<Longrightarrow> read_digits (u @ r) = Some (ds, v @ r)" for u ds v
    using read_digits_append assms(1) by blast
  show ?thesis
  proof (cases s')
    case (Cons g w)
    with assms(2) \<open>s = c # s'\<close> d [of s'] d [of w] show ?thesis by (auto simp: read_exponent_def split: if_splits)
  qed (use assms(2) \<open>s = c # s'\<close> in \<open>auto simp: read_exponent_def\<close>)
qed

lemma read_number_append:
  assumes "stop r" "read_number t = Some (w, u)"
  shows "read_number (t @ r) = Some (w, u @ r)"
proof -
  obtain sign s where s: "read_sign t = (sign, s)" by (cases "read_sign t")
  from assms(2) obtain i a f b e where p: "read_integer s = Some (i, a)" "read_fraction a = Some (f, b)"
      "read_exponent b = Some (e, u)" "w = sign @ i @ f @ e"
    by (auto simp: read_number_def s split: option.split_asm)
  from p(1) have "s \<noteq> []" by (auto simp: read_integer_def)
  with s have "read_sign (t @ r) = (sign, s @ r)"
    by (cases t) (auto simp: read_sign_def split: if_splits)
  with p read_integer_append [OF assms(1) p(1)] read_fraction_append [OF assms(1) p(2)] read_exponent_append [OF assms(1) p(3)]
  show ?thesis by (simp add: read_number_def)
qed

subsection \<open>Values\<close>

text \<open>
  A value as the engine prints it: number texts are literals that denote themselves, and the members of
  an object are in the order \<open>Object.entries\<close> lists them.
\<close>

definition unk_members :: "(string \<times> json) list \<Rightarrow> (string \<times> unk) list" where
  "unk_members ms = map (\<lambda>m. (fst m, unk_of (snd m))) ms"

fun printed :: "(string \<Rightarrow> unk) \<Rightarrow> json \<Rightarrow> bool" where
  "printed num (JNum t) = (num t = UNum t \<and> read_number t = Some (t, []))"
| "printed num (JArr vs) = list_all (printed num) vs"
| "printed num (JObj ms) = (list_all (\<lambda>m. printed num (snd m)) ms \<and> entries (unk_members ms) = unk_members ms)"
| "printed num v = True"

lemma read_number_head: "read_number t = Some (w, u) \<Longrightarrow> \<exists>c s. t = c # s \<and> (is_dec c \<or> c = CHR ''-'')"
  by (cases t) (auto simp: read_number_def read_sign_def read_integer_def split: if_splits option.splits)

lemma is_dec_code: "is_dec c \<longleftrightarrow> 48 \<le> (of_char c :: nat) \<and> of_char c \<le> (57 :: nat)"
  by (simp add: is_dec_def less_eq_char_def)

text \<open>A value starts with a character that is neither white space nor a bracket's end.\<close>

lemma value_head:
  assumes "printed num v"
  obtains c s where "json_text v = c # s" "\<not> is_ws c" "c \<noteq> CHR '']''" "c \<noteq> CHR ''}''"
proof (cases v)
  case (JNum t)
  with assms obtain c s where "t = c # s" "is_dec c \<or> c = CHR ''-''" using read_number_head by fastforce
  with that [of c s] JNum is_dec_num [of c] show ?thesis by (auto simp: is_ws_def num_chars_def)
next
  case (JBool b)
  with that show ?thesis by (cases b) (auto simp: json_bool_def is_ws_def)
qed (use that in \<open>auto simp: json_quote_def is_ws_def\<close>)

lemma skip_value:
  assumes "printed num v"
  shows "skip_ws (json_text v @ r) = json_text v @ r"
  by (rule value_head [OF assms]) (simp add: skip_ws_def)

lemma skip_punct: "\<not> is_ws c \<Longrightarrow> skip_ws (c # r) = c # r"
  by (simp add: skip_ws_def)

lemma ws_simps [simp]: "\<not> is_ws CHR '',''" "\<not> is_ws CHR '']''" "\<not> is_ws CHR ''}''" "\<not> is_ws CHR '':''" "\<not> is_ws CHR 0x22"
  by (simp_all add: is_ws_def)

lemma stop_punct [simp]: "CHR '','' \<notin> set num_chars" "CHR '']'' \<notin> set num_chars" "CHR ''}'' \<notin> set num_chars"
  by (simp_all add: num_chars_def)

definition reads :: "(string \<Rightarrow> unk) \<Rightarrow> json \<Rightarrow> bool" where
  "reads num v \<longleftrightarrow> (\<forall>n r. 2 * length (json_text v) < n \<longrightarrow> stop r \<longrightarrow>
     read_value num n (json_text v @ r) = Some (unk_of v, r))"

lemma readsD: "reads num v \<Longrightarrow> 2 * length (json_text v) < n \<Longrightarrow> stop r \<Longrightarrow> read_value num n (json_text v @ r) = Some (unk_of v, r)"
  by (simp add: reads_def)

lemma value_length: "printed num v \<Longrightarrow> 0 < length (json_text v)"
  by (erule value_head) simp

lemma read_array:
  assumes "vs \<noteq> []" "list_all (reads num) vs" "list_all (printed num) vs"
    and "2 * length (join '','' (map json_text vs)) + 1 < n"
  shows "read_elements num n (join '','' (map json_text vs) @ CHR '']'' # r) = Some (map unk_of vs, r)"
  using assms
proof (induction vs arbitrary: n)
  case (Cons v vs)
  obtain m where n: "n = Suc m" using Cons.prems(4) by (cases n) auto
  show ?case
  proof (cases vs)
    case Nil
    with Cons.prems n readsD [of num v m "CHR '']'' # r"] show ?thesis by (simp add: skip_punct)
  next
    case (Cons w ws)
    let ?rest = "join '','' (map json_text vs) @ CHR '']'' # r"
    have j: "join '','' (map json_text (v # vs)) = json_text v @ CHR '','' # join '','' (map json_text vs)"
      by (simp add: Cons)
    have skip: "skip_ws ?rest = ?rest"
      using skip_value [of num w] Cons.prems(3) by (cases ws) (simp_all add: Cons)
    have "read_value num m (json_text v @ CHR '','' # ?rest) = Some (unk_of v, CHR '','' # ?rest)"
      using readsD [of num v m "CHR '','' # ?rest"] Cons.prems(2,4) n j by simp
    moreover have "read_elements num m ?rest = Some (map unk_of vs, r)"
      using Cons.IH [of m] Cons.prems n j by (simp add: Cons)
    ultimately have "read_elements num n (json_text v @ CHR '','' # ?rest) = Some (map unk_of (v # vs), r)"
      by (simp add: n skip_punct skip)
    then show ?thesis by (simp only: j append.assoc append_Cons)
  qed
qed simp

lemma read_object:
  assumes "ms \<noteq> []" "list_all (\<lambda>m. reads num (snd m)) ms" "list_all (\<lambda>m. printed num (snd m)) ms"
    and "2 * length (join '','' (map (\<lambda>m. json_quote (fst m) @ CHR '':'' # json_text (snd m)) ms)) + 1 < n"
  shows "read_members num n (join '','' (map (\<lambda>m. json_quote (fst m) @ CHR '':'' # json_text (snd m)) ms) @ CHR ''}'' # r) =
    Some (unk_members ms, r)"
  using assms
proof (induction ms arbitrary: n)
  case (Cons x ms)
  obtain k v where x: "x = (k, v)" by (cases x)
  obtain m where n: "n = Suc m" using Cons.prems(4) by (cases n) auto
  let ?text = "\<lambda>m. json_quote (fst m) @ CHR '':'' # json_text (snd m)"
  let ?esc = "concat (map json_escape k)"
  have v: "printed num v" "reads num v" using Cons.prems(2,3) x by simp_all
  have key: "read_string (length (?esc @ CHR 0x22 # t)) (?esc @ CHR 0x22 # t) = Some (k, t)" for t
    by (rule read_quoted) simp
  have step: "read_members num n (?text x @ t) = (case read_value num m (json_text v @ t) of
       None \<Rightarrow> None
     | Some (w, r) \<Rightarrow>
         (case skip_ws r of
            [] \<Rightarrow> None
          | c # t \<Rightarrow>
              if c = CHR '','' then map_option (\<lambda>(ms, u). ((k, w) # ms, u)) (read_members num m (skip_ws t))
              else if c = CHR ''}'' then Some ([(k, w)], t) else None))" for t
    using key [of "CHR '':'' # json_text v @ t"] by (simp add: x n json_quote_def skip_punct skip_value [OF v(1)])
  show ?case
  proof (cases ms)
    case Nil
    with Cons.prems(4) n x readsD [OF v(2), of m "CHR ''}'' # r"] show ?thesis
      using step [of "CHR ''}'' # r"] by (simp add: skip_punct unk_members_def)
  next
    case (Cons y ys)
    let ?rest = "join '','' (map ?text ms) @ CHR ''}'' # r"
    have j: "join '','' (map ?text (x # ms)) = ?text x @ CHR '','' # join '','' (map ?text ms)"
      by (simp add: Cons)
    have skip: "skip_ws ?rest = ?rest" by (cases ys) (simp_all add: Cons json_quote_def skip_punct)
    have "read_value num m (json_text v @ CHR '','' # ?rest) = Some (unk_of v, CHR '','' # ?rest)"
      using readsD [OF v(2), of m "CHR '','' # ?rest"] Cons.prems(4) n j x by simp
    moreover have "read_members num m ?rest = Some (unk_members ms, r)"
      using Cons.IH [of m] Cons.prems n j by (simp add: Cons)
    ultimately have "read_members num n (?text x @ CHR '','' # ?rest) = Some (unk_members (x # ms), r)"
      unfolding step by (simp add: skip_punct skip [simplified] x unk_members_def)
    then show ?thesis by (simp only: j append.assoc append_Cons)
  qed
qed simp

lemma read_printed: "printed num v \<Longrightarrow> reads num v"
proof (induction v rule: json_text.induct)
  case (3 t)
  then obtain c s where t: "t = c # s" "is_dec c \<or> c = CHR ''-''" using read_number_head by fastforce
  have "read_value num n (t @ r) = Some (UNum t, r)" if len: "2 * length t < n" "stop r" for n r
  proof -
    have "read_number (t @ r) = Some (t, r)" using read_number_append [OF len(2), of t t "[]"] 3 by simp
    moreover obtain m where "n = Suc m" using len(1) by (cases n) auto
    moreover have "c \<noteq> CHR 0x22 \<and> c \<noteq> CHR ''['' \<and> c \<noteq> CHR ''{'' \<and> c \<noteq> CHR ''t'' \<and> c \<noteq> CHR ''f'' \<and> c \<noteq> CHR ''n''"
      using t(2) by (auto simp: is_dec_code)
    ultimately show ?thesis using 3 t(1) by simp
  qed
  then show ?case by (simp add: reads_def)
next
  case (4 s)
  have "read_value num n (json_quote s @ r) = Some (UStr s, r)" if "2 * length (json_quote s) < n" for n r
    using that read_quoted [of s "length (concat (map json_escape s) @ CHR 0x22 # r)" r]
    by (cases n) (simp_all add: json_quote_def)
  then show ?case by (simp add: reads_def)
next
  case (5 vs)
  have all: "list_all (printed num) vs" "list_all (reads num) vs" using 5 by (simp_all add: list_all_iff)
  have "read_value num n (json_text (JArr vs) @ r) = Some (unk_of (JArr vs), r)" if n: "2 * length (json_text (JArr vs)) < n" for n r
  proof (cases vs)
    case Nil
    with n show ?thesis by (cases n) (simp_all add: skip_punct)
  next
    case (Cons w ws)
    let ?t = "join '','' (map json_text vs) @ CHR '']'' # r"
    obtain m where m: "n = Suc m" using n by (cases n) auto
    have "printed num w" using all(1) Cons by simp
    then obtain c s where w: "json_text w = c # s" "\<not> is_ws c" "c \<noteq> CHR '']''" by (rule value_head) blast
    then have t: "\<exists>s'. ?t = c # s'" by (cases ws) (simp_all add: Cons)
    then obtain s' where "?t = c # s'" by blast
    then have "skip_ws ?t = ?t" "take 1 ?t \<noteq> '']''" using w(3) by (simp_all only: skip_punct [OF w(2)]) simp_all
    moreover have "read_elements num m ?t = Some (map unk_of vs, r)"
      by (rule read_array [OF _ all(2,1)]) (use n m Cons in simp_all)
    ultimately show ?thesis by (simp add: m)
  qed
  then show ?case by (simp add: reads_def)
next
  case (6 ms)
  let ?text = "\<lambda>m. json_quote (fst m) @ CHR '':'' # json_text (snd m)"
  have all: "list_all (\<lambda>m. printed num (snd m)) ms" "list_all (\<lambda>m. reads num (snd m)) ms"
    and own: "entries (unk_members ms) = unk_members ms"
    using 6 by (simp_all add: list_all_iff)
  have "read_value num n (json_text (JObj ms) @ r) = Some (unk_of (JObj ms), r)" if n: "2 * length (json_text (JObj ms)) < n" for n r
  proof (cases ms)
    case Nil
    with n show ?thesis by (cases n) (simp_all add: skip_punct)
  next
    case (Cons w ws)
    let ?t = "join '','' (map ?text ms) @ CHR ''}'' # r"
    obtain m where m: "n = Suc m" using n by (cases n) auto
    have "\<exists>s'. ?t = CHR 0x22 # s'" by (cases ws) (simp_all add: Cons json_quote_def)
    then obtain s' where "?t = CHR 0x22 # s'" by blast
    then have "skip_ws ?t = ?t" "take 1 ?t \<noteq> ''}''" by (simp_all only: skip_punct [OF ws_simps(5)]) simp_all
    moreover have "read_members num m ?t = Some (unk_members ms, r)"
      by (rule read_object [OF _ all(2,1)]) (use n m Cons in simp_all)
    ultimately show ?thesis using own by (simp add: m unk_members_def)
  qed
  then show ?case by (simp add: reads_def)
next
  case 1
  have "read_value num n (''null'' @ r) = Some (UNull, r)" if "8 < n" for n r
    using that by (cases n) (simp_all add: read_word_def)
  then show ?case by (simp add: reads_def)
next
  case (2 b)
  have "read_value num n (json_bool b @ r) = Some (UBool b, r)" if "0 < n" for n r
    using that by (cases n) (simp_all add: read_word_def json_bool_def)
  then show ?case by (auto simp: reads_def)
qed

text \<open>Parsing what was printed gives the value back.\<close>

lemma parse_printed:
  assumes "printed num v"
  shows "JSON_parse num (json_text v) = Some (unk_of v)"
proof -
  have "read_value num (2 * length (json_text v) + 2) (json_text v @ []) = Some (unk_of v, [])"
    by (rule readsD [OF read_printed [OF assms]]) (simp_all add: stop_def)
  moreover have "skip_ws (json_text v) = json_text v" using skip_value [OF assms, of "[]"] by simp
  ultimately show ?thesis by (simp add: JSON_parse_def skip_ws_def)
qed

subsection \<open>Fuel\<close>

text \<open>Every reader consumes something, so twice the length of the text is fuel enough.\<close>

lemma take_hex4_shorter: "take_hex4 s = Some (u, r) \<Longrightarrow> length r \<le> length s"
  by (auto simp: take_hex4_def split: list.splits option.splits)

lemma low_surrogate_shorter: "low_surrogate s = Some (v, r) \<Longrightarrow> length r \<le> length s"
  using take_hex4_shorter [of "drop 2 s"] by (fastforce simp: low_surrogate_def split: if_splits option.splits)

lemma read_escape_shorter: "read_escape s = Some (t, r) \<Longrightarrow> length r < length s"
proof -
  assume a: "read_escape s = Some (t, r)"
  then obtain c s' where s: "s = c # s'" by (auto simp: read_escape_def split: list.splits)
  have "length r \<le> length s'"
  proof (cases "take_hex4 s'")
    case None
    with a s show ?thesis by (auto simp: read_escape_def split: if_splits)
  next
    case (Some p)
    obtain u w where p: "p = (u, w)" by (cases p)
    with Some take_hex4_shorter have "length w \<le> length s'" by blast
    with a s Some p show ?thesis
      by (cases "low_surrogate w") (auto simp: read_escape_def dest!: low_surrogate_shorter split: if_splits)
  qed
  with s show ?thesis by simp
qed

lemma read_string_shorter: "read_string n s = Some (t, r) \<Longrightarrow> length r < length s"
proof (induction n arbitrary: s t r)
  case (Suc n)
  then obtain c cs where s: "s = c # cs" by (auto split: list.splits)
  have ih: "read_string n w = Some (u, v) \<Longrightarrow> length v < length w" for w u v by (rule Suc.IH)
  with Suc.prems s show ?case
    by (auto split: if_splits option.splits dest!: ih read_escape_shorter)
qed simp

lemma read_string_fuel: "length s \<le> n \<Longrightarrow> read_string (Suc n) s = read_string n s"
proof (induction n arbitrary: s)
  case (Suc n)
  show ?case
  proof (cases s)
    case (Cons c cs)
    have ih: "length w \<le> n \<Longrightarrow> read_string (Suc n) w = read_string n w" for w by (rule Suc.IH)
    have e: "read_escape cs = Some (t, r) \<Longrightarrow> read_string (Suc n) r = read_string n r" for t r
      using read_escape_shorter [of cs] Suc.prems Cons by (intro ih) fastforce
    have "read_string (Suc n) cs = read_string n cs" using Suc.prems Cons by (intro ih) simp
    with e Cons show ?thesis
      by (subst (1 2) read_string.simps(2)) (auto split: option.split simp del: read_string.simps)
  qed simp
qed simp

lemma drop_tl_shorter: "length (dropWhile P s) \<le> length s"
  by (rule length_dropWhile_le)

lemma read_number_shorter: "read_number s = Some (w, r) \<Longrightarrow> length r < length s"
proof -
  assume a: "read_number s = Some (w, r)"
  obtain g t where g: "read_sign s = (g, t)" by (cases "read_sign s")
  with a obtain i x f y e where p: "read_integer t = Some (i, x)" "read_fraction x = Some (f, y)" "read_exponent y = Some (e, r)"
    by (auto simp: read_number_def split: option.split_asm)
  have dig: "length v \<le> length u" if "read_digits u = Some (d, v)" for u d v
    using that by (auto simp: read_digits_def length_dropWhile_le split: if_splits)
  have "length t \<le> length s" using g by (auto simp: read_sign_def split: list.splits if_splits)
  moreover have "length x < length t"
    using p(1) length_dropWhile_le [of is_dec "tl t"]
    by (cases t) (auto simp: read_integer_def split: if_splits)
  moreover have "length y \<le> length x"
    using p(2) by (auto simp: read_fraction_def split: list.splits if_splits dest!: dig)
  moreover have "length r \<le> length y"
    using p(3) by (auto simp: read_exponent_def split: list.splits if_splits dest!: dig)
  ultimately show ?thesis by simp
qed

lemma skip_ws_shorter: "length (skip_ws s) \<le> length s"
  by (simp add: skip_ws_def length_dropWhile_le)

lemma read_word_shorter: "read_word w v s = Some (u, r) \<Longrightarrow> w \<noteq> [] \<Longrightarrow> length r < length s"
proof -
  assume a: "read_word w v s = Some (u, r)" "w \<noteq> []"
  then have "take (length w) s = w" "r = drop (length w) s" by (simp_all add: read_word_def split: if_splits)
  with a(2) have "s \<noteq> []" by auto
  with a(2) \<open>r = _\<close> show ?thesis by simp
qed

lemma skip_ws_Cons: "skip_ws r = c # t \<Longrightarrow> length t < length r"
  using skip_ws_shorter [of r] by simp

lemma take_1_skip: "take 1 (skip_ws r) = [c] \<Longrightarrow> length (drop 1 (skip_ws r)) < length r"
  using skip_ws_shorter [of r] by (cases "skip_ws r") auto

lemma read_shorter:
  "read_value num n s = Some (v, r) \<Longrightarrow> length r < length s"
  "read_elements num n s = Some (vs, r) \<Longrightarrow> length r < length s"
  "read_members num n s = Some (ms, r) \<Longrightarrow> length r < length s"
proof (induction n arbitrary: s v vs ms r)
  case (Suc n)
  note val = Suc.IH(1) and els = Suc.IH(2) and mems = Suc.IH(3)
  {
    case 1
    obtain c cs where s: "s = c # cs" using 1 by (auto split: list.splits)
    have sk: "length (skip_ws cs) \<le> length cs" by (rule skip_ws_shorter)
    consider (str) "c = CHR 0x22" | (arr) "c = CHR ''[''" | (obj) "c = CHR ''{''"
      | (word) "c \<in> {CHR ''t'', CHR ''f'', CHR ''n''}"
      | (num) "c \<noteq> CHR 0x22" "c \<noteq> CHR ''[''" "c \<noteq> CHR ''{''" "c \<noteq> CHR ''t''" "c \<noteq> CHR ''f''" "c \<noteq> CHR ''n''" by blast
    then show ?case
    proof cases
      case str
      with 1 s show ?thesis by (auto dest!: read_string_shorter)
    next
      case arr
      with 1 s sk show ?thesis by (auto split: if_splits dest!: els)
    next
      case obj
      with 1 s sk show ?thesis by (auto split: if_splits dest!: mems)
    next
      case word
      with 1 s read_word_shorter [of _ _ s v r] show ?thesis by (auto split: if_splits)
    next
      case num
      with 1 s show ?thesis by (auto dest: read_number_shorter)
    qed
  next
    case 2
    then obtain v1 r1 c t where p: "read_value num n s = Some (v1, r1)" "skip_ws r1 = c # t"
      by (auto split: option.splits list.splits)
    have "length r1 < length s" "length t < length r1" using val [OF p(1)] skip_ws_Cons [OF p(2)] by simp_all
    with 2 p skip_ws_shorter [of t] show ?case by (auto split: if_splits dest!: els)
  next
    case 3
    then obtain k r1 v1 r2 c t where p: "take 1 s = [CHR 0x22]" "read_string (length (drop 1 s)) (drop 1 s) = Some (k, r1)"
      "read_value num n (skip_ws (drop 1 (skip_ws r1))) = Some (v1, r2)" "skip_ws r2 = c # t"
      by (auto split: option.splits list.splits if_splits)
    have "length r1 < length s" using read_string_shorter [OF p(2)] by simp
    moreover have "length (skip_ws (drop 1 (skip_ws r1))) \<le> length r1"
      using skip_ws_shorter [of r1] skip_ws_shorter [of "drop 1 (skip_ws r1)"] by simp
    moreover have "length r2 < length (skip_ws (drop 1 (skip_ws r1)))" "length t < length r2"
      using val [OF p(3)] skip_ws_Cons [OF p(4)] by simp_all
    ultimately have "length t < length s" by linarith
    with 3 p skip_ws_shorter [of t] show ?case by (auto split: if_splits dest!: mems)
  }
qed simp_all

lemma more_fuel:
  "2 * length s + 1 \<le> n \<Longrightarrow> read_value num (Suc n) s = read_value num n s"
  "2 * length s + 2 \<le> n \<Longrightarrow> read_elements num (Suc n) s = read_elements num n s"
  "2 * length s + 2 \<le> n \<Longrightarrow> read_members num (Suc n) s = read_members num n s"
proof (induction n arbitrary: s)
  case (Suc n)
  note val = Suc.IH(1) and els = Suc.IH(2) and mems = Suc.IH(3)
  {
    case 1
    show ?case
    proof (cases s)
      case (Cons c cs)
      have "2 * length (skip_ws cs) + 2 \<le> n" using 1 Cons skip_ws_shorter [of cs] by simp
      from els [OF this] mems [OF this] Cons show ?thesis
        by (subst (1 2) read_value.simps(2)) (simp del: read_value.simps)
    qed simp
  next
    case 2
    have v: "read_value num (Suc n) s = read_value num n s" using 2 by (intro val) simp
    have "read_elements num (Suc n) (skip_ws t) = read_elements num n (skip_ws t)"
      if "read_value num n s = Some (v1, r1)" "skip_ws r1 = c # t" for v1 r1 c t
      using 2 read_shorter(1) [OF that(1)] skip_ws_Cons [OF that(2)] skip_ws_shorter [of t] by (intro els) simp
    then show ?case
      by (subst (1 2) read_elements.simps(2), subst v)
        (auto split: option.split list.split simp del: read_elements.simps read_value.simps)
  next
    case 3
    show ?case
    proof (cases "take 1 s = [CHR 0x22] \<and> read_string (length (drop 1 s)) (drop 1 s) \<noteq> None")
      case True
      then obtain k r1 where k: "take 1 s = [CHR 0x22]" "read_string (length (drop 1 s)) (drop 1 s) = Some (k, r1)" by auto
      let ?x = "skip_ws (drop 1 (skip_ws r1))"
      have x: "length ?x < length s"
        using read_string_shorter [OF k(2)] skip_ws_shorter [of r1] skip_ws_shorter [of "drop 1 (skip_ws r1)"] by simp
      have v: "read_value num (Suc n) ?x = read_value num n ?x" using 3 x by (intro val) simp
      have "read_members num (Suc n) (skip_ws t) = read_members num n (skip_ws t)"
        if "read_value num n ?x = Some (v1, r2)" "skip_ws r2 = c # t" for v1 r2 c t
        using 3 x read_shorter(1) [OF that(1)] skip_ws_Cons [OF that(2)] skip_ws_shorter [of t] by (intro mems) simp
      then show ?thesis
        by (subst (1 2) read_members.simps(2), unfold k option.case prod.case, subst v)
          (auto split: option.split list.split simp del: read_members.simps read_value.simps)
    next
      case False
      then show ?thesis by (subst (1 2) read_members.simps(2)) (auto split: option.split simp del: read_members.simps)
    qed
  }
qed simp_all

text \<open>So the fuel of \<open>JSON_parse\<close> is enough: more never changes what it reads.\<close>

lemma read_value_enough:
  assumes "2 * length s + 1 \<le> n" "n \<le> m"
  shows "read_value num m s = read_value num n s"
  using assms(2)
proof (induction m rule: dec_induct)
  case (step m)
  with assms(1) more_fuel(1) [of s m num] show ?case by simp
qed simp

end
