(* ===== verification/Search_Pages.thy ===== *)
theory Search_Pages
  imports Keyset_Pages Json_Roundtrip Catalog_Invariants
begin

text \<open>
  The searches of the catalog page correctly: the cursors survive the wire, belong to one query and one
  authority, and following them visits every matching row once. Both searches are instances of
  \<open>keyset_search\<close>.
\<close>

subsection \<open>Cursors are short ASCII texts\<close>

definition ascii :: "string \<Rightarrow> bool" where
  "ascii s \<longleftrightarrow> list_all (\<lambda>c. of_char c < (0x80 :: nat)) s"

lemma ascii_simps [simp]: "ascii []" "ascii (c # s) \<longleftrightarrow> of_char c < (0x80 :: nat) \<and> ascii s" "ascii (s @ t) \<longleftrightarrow> ascii s \<and> ascii t"
  by (simp_all add: ascii_def)

lemma hex_digit_ascii: "of_char (hex_digit n) < (0x80 :: nat)"
proof -
  have "n mod 16 \<in> set [0..<16]" by simp
  then show ?thesis by (auto simp: hex_digit_def upt_rec)
qed

lemma escape_ascii: "of_char c < (0x80 :: nat) \<Longrightarrow> ascii (json_escape c)"
  by (simp add: json_escape_def Let_def hex_digit_ascii)

lemma quote_ascii: "ascii s \<Longrightarrow> ascii (json_quote s)"
proof -
  assume "ascii s"
  then have "ascii (concat (map json_escape s))" by (induction s) (simp_all add: escape_ascii)
  then show ?thesis by (simp add: json_quote_def)
qed

lemma quote_length: "length (json_quote s) \<le> 6 * length s + 2"
proof -
  have "length (json_escape c) \<le> 6" for c by (simp add: json_escape_def Let_def)
  then have "length (concat (map json_escape s)) \<le> 6 * length s" by (induction s) (simp_all add: add_mono)
  then show ?thesis by (simp add: json_quote_def)
qed

lemma sextets_length: "length (sextets ns) \<le> 2 * length ns \<and> (ns \<noteq> [] \<longrightarrow> sextets ns \<noteq> [])"
  by (induction ns rule: sextets.induct) simp_all

lemma base64_digit_ascii: "n < 64 \<Longrightarrow> of_char (base64_digit n) < (0x80 :: nat)"
proof -
  have "list_all (\<lambda>c. of_char c < (0x80 :: nat)) alphabet" "length alphabet = 64" by (simp_all add: alphabet_def)
  then show "n < 64 \<Longrightarrow> of_char (base64_digit n) < (0x80 :: nat)" by (simp add: base64_digit_def list_all_length)
qed

lemma to_base64url_ascii: "ascii (to_base64url s)"
proof -
  have "list_all (\<lambda>n. n < 64) (sextets (map of_char s))" by (rule sextets_bound) (simp add: list_all_iff)
  then show ?thesis by (auto simp: ascii_def to_base64url_def list_all_iff base64_digit_ascii)
qed

lemma utf16_ascii: "ascii s \<Longrightarrow> utf16_units s = length s"
  by (induction s) (simp_all add: utf16_units_def)

lemma cursor_text_base64:
  assumes "s \<noteq> []" "length s \<le> 16384"
  shows "cursor_text (to_base64url s)"
proof -
  have "utf16_units (to_base64url s) = length (sextets (map of_char s))"
    by (simp only: utf16_ascii [OF to_base64url_ascii]) (simp add: to_base64url_def)
  with assms sextets_length [of "map of_char s"] show ?thesis by (simp add: cursor_text_def Suc_le_eq)
qed

definition wire_id :: "string \<Rightarrow> bool" where
  "wire_id s \<longleftrightarrow> length s \<le> 64 \<and> ascii s"

definition wire_cursor :: "search_cursor \<Rightarrow> bool" where
  "wire_cursor k \<longleftrightarrow> wire_id (sk_fingerprint k) \<and> length (sk_authority k) \<le> 256 \<and> ascii (sk_authority k) \<and>
     wire_id (sk_at k) \<and> wire_id (sk_id k)"

lemma cursor_json_ascii:
  "wire_cursor k \<Longrightarrow> ascii (json_text (session_cursor_json k)) \<and> ascii (json_text (operation_cursor_json k))"
  by (simp add: wire_cursor_def wire_id_def session_cursor_json_def operation_cursor_json_def quote_ascii)

lemma cursor_json_short:
  "wire_cursor k \<Longrightarrow> length (json_text (session_cursor_json k)) \<le> 16384 \<and> length (json_text (operation_cursor_json k)) \<le> 16384"
  using quote_length [of "sk_fingerprint k"] quote_length [of "sk_authority k"] quote_length [of "sk_at k"] quote_length [of "sk_id k"]
    quote_length [of "''launch''"] quote_length [of "''version''"] quote_length [of "''kind''"] quote_length [of "''fingerprint''"]
    quote_length [of "''authority''"] quote_length [of "''activityAt''"] quote_length [of "''sessionId''"]
    quote_length [of "''updatedAt''"] quote_length [of "''id''"]
  by (simp add: wire_cursor_def wire_id_def session_cursor_json_def operation_cursor_json_def)

lemma cursor_texts:
  assumes "wire_cursor k"
  shows "cursor_text (encodeSessionSearchCursor k)" "cursor_text (encodeOperationCursor k)"
  unfolding encodeSessionSearchCursor_def encodeOperationCursor_def
  using cursor_json_short [OF assms]
  by (auto intro!: cursor_text_base64 simp: session_cursor_json_def operation_cursor_json_def)

lemma cursor_printed:
  assumes "num ''1'' = UNum ''1''"
  shows "printed num (session_cursor_json k) \<and> printed num (operation_cursor_json k)"
proof -
  have "read_number ''1'' = Some (''1'', [])" by (simp add: read_number_def read_sign_def read_integer_def read_fraction_def read_exponent_def is_dec_def)
  moreover have "array_index x = None" if "\<not> list_all is_dec x" for x using that by (simp add: array_index_def Let_def)
  ultimately show ?thesis using assms
    by (simp add: session_cursor_json_def operation_cursor_json_def entries_def sort_le_def is_dec_def unk_members_def)
qed


subsection \<open>Encoding and decoding\<close>

lemma decodeCursor_text:
  assumes "ascii (json_text v)" "printed num v"
  shows "decodeCursor num (to_base64url (json_text v)) = Inr (unk_of v)"
proof -
  have "utf8_text (json_text v) = json_text v"
    using utf8_valid_all_ascii [of "json_text v"] assms(1) by (simp add: ascii_def utf8_valid_def)
  then show ?thesis by (simp add: decodeCursor_def base64url_roundtrip parse_printed [OF assms(2)])
qed

lemma decode_encoded:
  assumes "wire_cursor k" "num ''1'' = UNum ''1''"
  shows "decodeSessionSearchCursor num (encodeSessionSearchCursor k) f a =
      (if sk_fingerprint k = f \<and> sk_authority k = a then Inr k else Inl (Fault FENCED))"
    "decodeOperationCursor num (encodeOperationCursor k) f a =
      (if sk_fingerprint k = f \<and> sk_authority k = a then Inr k else Inl (Fault FENCED))"
proof -
  note d = decodeCursor_text [where num = num]
  have "decodeCursor num (encodeSessionSearchCursor k) = Inr (unk_of (session_cursor_json k))"
    "decodeCursor num (encodeOperationCursor k) = Inr (unk_of (operation_cursor_json k))"
    unfolding encodeSessionSearchCursor_def encodeOperationCursor_def
    using cursor_json_ascii [OF assms(1)] cursor_printed [where num = num, OF assms(2)] by (simp_all add: d)
  then show "decodeSessionSearchCursor num (encodeSessionSearchCursor k) f a =
      (if sk_fingerprint k = f \<and> sk_authority k = a then Inr k else Inl (Fault FENCED))"
    "decodeOperationCursor num (encodeOperationCursor k) f a =
      (if sk_fingerprint k = f \<and> sk_authority k = a then Inr k else Inl (Fault FENCED))"
    by (simp_all add: decodeSessionSearchCursor_def decodeOperationCursor_def session_cursor_json_def
        operation_cursor_json_def member_of_def is_text_def text_of_def)
qed

subsection \<open>Both searches are keyset searches\<close>

text \<open>The platform's functions, and what the texts of a catalog look like on the wire: identifiers are
  UUIDs, times are ISO time stamps, a hash is 64 hexadecimal digits.\<close>

record platform =
  pf_sha :: "string \<Rightarrow> string"
  pf_lc :: collation
  pf_num :: "string \<Rightarrow> unk"

definition platform_ok :: "platform \<Rightarrow> bool" where
  "platform_ok p \<longleftrightarrow> pf_num p ''1'' = UNum ''1'' \<and> (\<forall>t. wire_id (pf_sha p t))"

definition authority_ok :: "authority_ref \<Rightarrow> bool" where
  "authority_ok a \<longleftrightarrow> wire_id (au_realmId a) \<and> wire_id (au_controlNodeId a) \<and> wire_id (au_epochId a)"

lemma wire_anchor:
  assumes "platform_ok p" "authority_ok a" "wire_id (act r)" "wire_id (key r)"
  shows "wire_cursor (anchor_of act key (pf_sha p t) (authorityKey a) r)"
  using assms by (auto simp: wire_cursor_def anchor_of_def platform_ok_def authority_ok_def wire_id_def authorityKey_def)

definition session_rows :: "platform \<times> session_search \<times> catalog \<Rightarrow> session list" where
  "session_rows = (\<lambda>(p, q, c). filter (search_matches (pf_sha p) (pf_lc p) q) (records (ca_sessions c)))"

definition session_print :: "platform \<times> session_search \<times> catalog \<Rightarrow> string" where
  "session_print = (\<lambda>(p, q, c). pf_sha p (canonicalJson (pf_lc p) (strip_proto (search_json q))))"

definition session_search_ok :: "platform \<times> session_search \<times> catalog \<Rightarrow> bool" where
  "session_search_ok = (\<lambda>(p, q, c). platform_ok p \<and> authority_ok (authority c) \<and>
     sessionSearchInputSchema q \<and> sq_cursor q = None \<and> distinct (map se_sessionId (records (ca_sessions c))) \<and>
     (\<forall>s \<in> set (records (ca_sessions c)). sessionRecordSchema s \<and> wire_id (se_sessionId s) \<and> wire_id (activity_at s)))"

definition session_page :: "platform \<times> session_search \<times> catalog \<Rightarrow> string option \<Rightarrow> search_fault + session list \<times> string option" where
  "session_page = (\<lambda>(p, q, c) k. searchSessions (pf_sha p) (pf_lc p) (pf_num p) (q\<lparr>sq_cursor := k\<rparr>) c)"

lemma search_cursor_irrelevant [simp]:
  "search_json (q\<lparr>sq_cursor := k\<rparr>) = search_json q" "search_matches sha lc (q\<lparr>sq_cursor := k\<rparr>) = search_matches sha lc q"
  "launch_list_json (l\<lparr>ll_cursor := k\<rparr>) = launch_list_json l" "launch_matches (l\<lparr>ll_cursor := k\<rparr>) = launch_matches l"
  by (simp_all add: search_json_def search_matches_def [abs_def] launch_list_json_def launch_matches_def [abs_def])

lemma search_schema_cursor:
  "sessionSearchInputSchema q \<Longrightarrow> pred_option cursor_text k \<Longrightarrow> sessionSearchInputSchema (q\<lparr>sq_cursor := k\<rparr>)"
  "launchListInputSchema l \<Longrightarrow> pred_option cursor_text k \<Longrightarrow> launchListInputSchema (l\<lparr>ll_cursor := k\<rparr>)"
  by (simp_all add: sessionSearchInputSchema_def launchListInputSchema_def)

lemma hashCanonical_json: "hashCanonical sha lc v = Inr (sha (canonicalJson lc (strip_proto v)))"
  by (simp add: hashCanonical_def canonicalProtocolRecordJson_def toJsonValue_unk)

lemma page_rows_sub:
  assumes "page_rows act key k n rows = (rs, tail)" "0 < n"
  shows "set rs \<subseteq> set rows" "length rs \<le> n" "tail = Some r \<Longrightarrow> r \<in> set rows"
proof -
  let ?xs = "sort_le (newer act key) (filter (after_cursor act key k) rows)"
  have s: "set (take m ?xs) \<subseteq> set rows" for m using set_take_subset [of m ?xs] by auto
  have r: "rs = take n ?xs" "tail = (if n < length ?xs then Some (last rs) else None)"
    using assms by (auto simp: page_rows_def Let_def min_def split: if_splits)
  then show "set rs \<subseteq> set rows" "length rs \<le> n" using s by auto
  have "rs \<noteq> []" if "tail = Some r" using that r assms(2) by (auto split: if_splits simp del: length_sort_le)
  then show "tail = Some r \<Longrightarrow> r \<in> set rows" using r s [of n] last_in_set [of rs] by (auto split: if_splits)
qed

lemma session_page_eq:
  assumes ok: "session_search_ok (p, q, c)"
    and k: "pred_option cursor_text s"
      "(case s of None \<Rightarrow> Inr None | Some t \<Rightarrow> map_sum id Some (decodeSessionSearchCursor (pf_num p) t
        (session_print (p, q, c)) (authorityKey (authority c)))) = Inr k"
  shows "session_page (p, q, c) s =
    (let (rs, tail) = page_rows activity_at se_sessionId k (sq_limit q) (session_rows (p, q, c)) in
     Inr (rs, map_option (\<lambda>r. encodeSessionSearchCursor
       (anchor_of activity_at se_sessionId (session_print (p, q, c)) (authorityKey (authority c)) r)) tail))"
proof -
  obtain rs tail where pg: "page_rows activity_at se_sessionId k (sq_limit q) (session_rows (p, q, c)) = (rs, tail)" by (cases "page_rows activity_at se_sessionId k (sq_limit q) (session_rows (p, q, c))")
  have q: "sessionSearchInputSchema q" "0 < sq_limit q" "sq_limit q \<le> 500"
    using ok by (auto simp: session_search_ok_def sessionSearchInputSchema_def)
  have rows: "sessionRecordSchema s" "wire_id (se_sessionId s)" "wire_id (activity_at s)" if "s \<in> set (session_rows (p, q, c))" for s
    using ok that by (auto simp: session_search_ok_def session_rows_def)
  have a: "pred_option cursor_text (map_option (\<lambda>r. encodeSessionSearchCursor
       (anchor_of activity_at se_sessionId (session_print (p, q, c)) (authorityKey (authority c)) r)) tail)"
    using page_rows_sub(3) [OF pg q(2)] ok rows
    by (cases tail) (auto intro!: cursor_texts wire_anchor simp: session_search_ok_def session_print_def)
  have b: "list_all sessionRecordSchema rs" "length rs \<le> 500"
    using page_rows_sub(1,2) [OF pg q(2)] rows(1) q(3) by (auto simp: list_all_iff)
  have r: "filter (search_matches (pf_sha p) (pf_lc p) q) (records (ca_sessions c)) = session_rows (p, q, c)"
    by (simp add: session_rows_def)
  have f: "sessionSearchFingerprint (pf_sha p) (pf_lc p) (q\<lparr>sq_cursor := s\<rparr>) = Inr (session_print (p, q, c))"
    by (simp add: sessionSearchFingerprint_def hashCanonical_json session_print_def)
  show ?thesis
    using search_schema_cursor(1) [OF q(1) k(1)] k(2) a b
    by (simp add: session_page_def searchSessions_def f r pg Let_def sessionSearchPageSchema_def anchor_of_def [abs_def]
        del: search_cursor_irrelevant) (simp add: r pg sessionSearchPageSchema_def anchor_of_def [abs_def])
qed

interpretation session_pages: keyset_search activity_at se_sessionId session_search_ok session_rows
  "\<lambda>x. sq_limit (fst (snd x))" session_print "\<lambda>x. authorityKey (authority (snd (snd x)))" encodeSessionSearchCursor session_page
proof unfold_locales
  fix x :: "platform \<times> session_search \<times> catalog" and r
  assume ok: "session_search_ok x"
  obtain p q c where x: "x = (p, q, c)" by (cases x)
  note eq = session_page_eq [OF ok [unfolded x], folded x]
  show "distinct (map se_sessionId (session_rows x))"
    using ok by (auto simp: x session_search_ok_def session_rows_def distinct_map inj_on_def)
  show "0 < sq_limit (fst (snd x))" using ok by (auto simp: x session_search_ok_def sessionSearchInputSchema_def)
  show "session_page x None = (let (rs, tail) = page_rows activity_at se_sessionId None (sq_limit (fst (snd x))) (session_rows x) in
      Inr (rs, map_option (\<lambda>r. encodeSessionSearchCursor (anchor_of activity_at se_sessionId (session_print x)
        (authorityKey (authority (snd (snd x)))) r)) tail))"
    using eq by (simp add: x)
  assume r: "r \<in> set (session_rows x)"
  let ?k = "anchor_of activity_at se_sessionId (session_print x) (authorityKey (authority (snd (snd x)))) r"
  have w: "wire_cursor ?k" "pf_num p ''1'' = UNum ''1''"
    using ok r by (auto intro!: wire_anchor simp: x session_search_ok_def session_rows_def session_print_def platform_ok_def)
  have "map_sum id Some (decodeSessionSearchCursor (pf_num p) (encodeSessionSearchCursor ?k) (session_print x) (authorityKey (authority c))) =
      Inr (Some ?k)"
    by (subst decode_encoded(1) [where num = "pf_num p", OF w]) (simp add: anchor_of_def x)
  then show "session_page x (Some (encodeSessionSearchCursor ?k)) =
    (let (rs, tail) = page_rows activity_at se_sessionId (Some ?k) (sq_limit (fst (snd x))) (session_rows x) in
      Inr (rs, map_option (\<lambda>r. encodeSessionSearchCursor (anchor_of activity_at se_sessionId (session_print x)
        (authorityKey (authority (snd (snd x)))) r)) tail))"
    using eq [of "Some (encodeSessionSearchCursor ?k)" "Some ?k"] cursor_texts(1) [OF w(1)] by (simp add: x)
qed

definition launch_rows :: "platform \<times> launch_list \<times> catalog \<Rightarrow> launch_record list" where
  "launch_rows = (\<lambda>(p, q, c). filter (launch_matches q) (records (ca_launches c)))"

definition launch_print :: "platform \<times> launch_list \<times> catalog \<Rightarrow> string" where
  "launch_print = (\<lambda>(p, q, c). pf_sha p (canonicalJson (pf_lc p) (strip_proto (launch_list_json q))))"

definition launch_list_ok :: "platform \<times> launch_list \<times> catalog \<Rightarrow> bool" where
  "launch_list_ok = (\<lambda>(p, q, c). platform_ok p \<and> authority_ok (authority c) \<and>
     launchListInputSchema q \<and> ll_cursor q = None \<and> distinct (map lq_launchId (records (ca_launches c))) \<and>
     (\<forall>l \<in> set (records (ca_launches c)). wire_id (lq_launchId l) \<and> wire_id (lr_updatedAt l)))"

definition launch_page :: "platform \<times> launch_list \<times> catalog \<Rightarrow> string option \<Rightarrow> search_fault + launch_record list \<times> string option" where
  "launch_page = (\<lambda>(p, q, c) k. listLaunches (pf_sha p) (pf_lc p) (pf_num p) (q\<lparr>ll_cursor := k\<rparr>) c)"

lemma launch_page_eq:
  assumes "launch_list_ok (p, q, c)" "pred_option cursor_text s"
    and "(case s of None \<Rightarrow> Inr None | Some t \<Rightarrow> map_sum id Some (decodeOperationCursor (pf_num p) t
        (launch_print (p, q, c)) (authorityKey (authority c)))) = Inr k"
  shows "launch_page (p, q, c) s =
    (let (rs, tail) = page_rows lr_updatedAt lq_launchId k (ll_limit q) (launch_rows (p, q, c)) in
     Inr (rs, map_option (\<lambda>r. encodeOperationCursor
       (anchor_of lr_updatedAt lq_launchId (launch_print (p, q, c)) (authorityKey (authority c)) r)) tail))"
proof -
  have "launchListInputSchema (q\<lparr>ll_cursor := s\<rparr>)"
    using assms(1,2) by (intro search_schema_cursor(2)) (simp_all add: launch_list_ok_def)
  moreover have "launchListFingerprint (pf_sha p) (pf_lc p) (q\<lparr>ll_cursor := s\<rparr>) = Inr (launch_print (p, q, c))"
    by (simp add: launchListFingerprint_def hashCanonical_json launch_print_def)
  moreover have "filter (launch_matches q) (records (ca_launches c)) = launch_rows (p, q, c)"
    by (simp add: launch_rows_def)
  ultimately show ?thesis using assms(3)
    by (simp add: launch_page_def listLaunches_def anchor_of_def [abs_def] Let_def)
qed

interpretation launch_pages: keyset_search lr_updatedAt lq_launchId launch_list_ok launch_rows
  "\<lambda>x. ll_limit (fst (snd x))" launch_print "\<lambda>x. authorityKey (authority (snd (snd x)))" encodeOperationCursor launch_page
proof unfold_locales
  fix x :: "platform \<times> launch_list \<times> catalog" and r
  assume ok: "launch_list_ok x"
  obtain p q c where x: "x = (p, q, c)" by (cases x)
  note eq = launch_page_eq [OF ok [unfolded x], folded x]
  show "distinct (map lq_launchId (launch_rows x))"
    using ok by (auto simp: x launch_list_ok_def launch_rows_def distinct_map inj_on_def)
  show "0 < ll_limit (fst (snd x))" using ok by (auto simp: x launch_list_ok_def launchListInputSchema_def)
  show "launch_page x None = (let (rs, tail) = page_rows lr_updatedAt lq_launchId None (ll_limit (fst (snd x))) (launch_rows x) in
      Inr (rs, map_option (\<lambda>r. encodeOperationCursor (anchor_of lr_updatedAt lq_launchId (launch_print x)
        (authorityKey (authority (snd (snd x)))) r)) tail))"
    using eq by (simp add: x)
  assume r: "r \<in> set (launch_rows x)"
  let ?k = "anchor_of lr_updatedAt lq_launchId (launch_print x) (authorityKey (authority (snd (snd x)))) r"
  have w: "wire_cursor ?k" "pf_num p ''1'' = UNum ''1''"
    using ok r by (auto intro!: wire_anchor simp: x launch_list_ok_def launch_rows_def launch_print_def platform_ok_def)
  have "map_sum id Some (decodeOperationCursor (pf_num p) (encodeOperationCursor ?k) (launch_print x) (authorityKey (authority c))) =
      Inr (Some ?k)"
    by (subst decode_encoded(2) [where num = "pf_num p", OF w]) (simp add: anchor_of_def x)
  then show "launch_page x (Some (encodeOperationCursor ?k)) =
    (let (rs, tail) = page_rows lr_updatedAt lq_launchId (Some ?k) (ll_limit (fst (snd x))) (launch_rows x) in
      Inr (rs, map_option (\<lambda>r. encodeOperationCursor (anchor_of lr_updatedAt lq_launchId (launch_print x)
        (authorityKey (authority (snd (snd x)))) r)) tail))"
    using eq [of "Some (encodeOperationCursor ?k)" "Some ?k"] cursor_texts(2) [OF w(1)] by (simp add: x)
qed

subsection \<open>Properties\<close>

lemma table_records:
  assumes "table_ok ident valid key t"
  shows "distinct (map ident (records t))" "r \<in> set (records t) \<Longrightarrow> valid r"
proof -
  have keys: "distinct (map fst t)" using assms by (simp add: table_ok_def keys_ok_def)
  have row: "row k t = Some r" if "(k, s, r) \<in> set t" for k s r using keys that by (simp add: row_def)
  have "map ident (records t) = map fst t"
    using assms row by (auto simp: records_def table_ok_def)
  with keys show "distinct (map ident (records t))" by simp
  show "r \<in> set (records t) \<Longrightarrow> valid r" using assms row by (fastforce simp: records_def table_ok_def)
qed

lemma enough_pages: "0 < limit \<Longrightarrow> n < Suc (n div limit) * (limit :: nat)"
  using dividend_less_times_div [of limit n] by (simp add: mult.commute add.commute)

text \<open>C34: paging through a session search. In a catalog whose rows are valid (every reachable one is), a
  client that starts without a cursor and follows \<open>nextCursor\<close> is given, in at most one request more
  than full pages, every session that matches the query, each once, latest activity first, in pages
  within the limit.\<close>

theorem search_visits_matches:
  assumes "rows_ok c" "platform_ok p" "authority_ok (authority c)" "sessionSearchInputSchema q" "sq_cursor q = None"
    and "\<forall>s \<in> set (records (ca_sessions c)). wire_id (se_sessionId s) \<and> wire_id (activity_at s)"
    and "hits = filter (search_matches (pf_sha p) (pf_lc p) q) (records (ca_sessions c))"
  shows "\<exists>pages. all_pages (\<lambda>k. searchSessions (pf_sha p) (pf_lc p) (pf_num p) (q\<lparr>sq_cursor := k\<rparr>) c)
      (Suc (length hits div sq_limit q)) None = Some (Inr pages) \<and>
    list_all (\<lambda>page. length page \<le> sq_limit q) pages \<and> distinct (map se_sessionId (concat pages)) \<and>
    set (concat pages) = set hits \<and> sorted_wrt (newer activity_at se_sessionId) (concat pages)"
proof -
  have ok: "session_search_ok (p, q, c)"
    using assms table_records [of se_sessionId sessionRecordSchema native_key "ca_sessions c"]
    by (simp add: session_search_ok_def rows_ok_def)
  have "0 < sq_limit q" using assms(4) by (simp add: sessionSearchInputSchema_def)
  from session_pages.pages_cover [OF ok, of "Suc (length hits div sq_limit q)"] enough_pages [OF this, of "length hits"]
  show ?thesis by (simp add: session_page_def session_rows_def assms(7))
qed

definition demo_platform :: platform where
  "demo_platform = \<lparr>pf_sha = (\<lambda>_. ''ab''), pf_lc = (\<lambda>_ _. 0), pf_num = UNum\<rparr>"

definition all_sessions :: session_search where
  "all_sessions = \<lparr>sq_states = [SRunning, SStopped], sq_runtimeNodeIds = None, sq_harnesses = None, sq_providerIds = None,
     sq_profileIds = None, sq_metadata = [], sq_lastActivityAfter = None,
     sq_lastActivityBefore = None, sq_cursor = None, sq_limit = 100\<rparr>"

lemma demo_platform_ok: "platform_ok demo_platform"
  by (simp add: platform_ok_def demo_platform_def wire_id_def)

lemma demo_rows_ok: "rows_ok (demo_catalog role)"
  using demo_catalog_ok [of role]
  by (auto simp: rows_ok_def table_ok_def attachments_ok_def demo_catalog_def row_def keys_ok_def catalog_ok_def getSession_def)

theorem search_visits_matches_witness:
  "\<exists>pages. all_pages (\<lambda>k. searchSessions (pf_sha demo_platform) (pf_lc demo_platform) (pf_num demo_platform)
      (all_sessions\<lparr>sq_cursor := k\<rparr>) (demo_catalog (Authority demo_authority))) 1 None = Some (Inr pages) \<and>
    set (concat pages) = {demo_session}"
proof -
  have rows: "records (ca_sessions (demo_catalog (Authority demo_authority))) = [demo_session]"
    by (simp add: records_def demo_catalog_def)
  have q: "sessionSearchInputSchema all_sessions" "sq_cursor all_sessions = None"
    "search_matches (pf_sha demo_platform) (pf_lc demo_platform) all_sessions demo_session"
    by (simp_all add: sessionSearchInputSchema_def all_sessions_def unique_filter_def search_matches_def demo_session_def
        in_state_def in_filter_def)
  have a: "authority_ok (authority (demo_catalog (Authority demo_authority)))" "wire_id (se_sessionId demo_session)"
    "wire_id (activity_at demo_session)"
    by (simp_all add: authority_ok_def wire_id_def demo_authority_def activity_at_def demo_session_def)
  have hits: "filter (search_matches (pf_sha demo_platform) (pf_lc demo_platform) all_sessions)
      (records (ca_sessions (demo_catalog (Authority demo_authority)))) = [demo_session]" using q(3) by (simp add: rows)
  from search_visits_matches [OF demo_rows_ok demo_platform_ok a(1) q(1,2) _ hits [symmetric]] a(2,3)
  show ?thesis by (auto simp: rows all_sessions_def simp del: all_pages.simps set_concat)
qed

text \<open>C35: listing launches ends. In a catalog whose rows are valid, a client that follows the cursors of
  \<open>listLaunches\<close> is done after at most one request more than there are full pages; it has then been
  given every launch that matches, each once, newest first.\<close>

theorem launch_listing_ends:
  assumes "rows_ok c" "platform_ok p" "authority_ok (authority c)" "launchListInputSchema q" "ll_cursor q = None"
    and "\<forall>l \<in> set (records (ca_launches c)). wire_id (lq_launchId l) \<and> wire_id (lr_updatedAt l)"
    and "hits = filter (launch_matches q) (records (ca_launches c))"
  shows "\<exists>pages. all_pages (\<lambda>k. listLaunches (pf_sha p) (pf_lc p) (pf_num p) (q\<lparr>ll_cursor := k\<rparr>) c)
      (Suc (length hits div ll_limit q)) None = Some (Inr pages) \<and>
    list_all (\<lambda>page. length page \<le> ll_limit q) pages \<and> distinct (map lq_launchId (concat pages)) \<and>
    set (concat pages) = set hits \<and> sorted_wrt (newer lr_updatedAt lq_launchId) (concat pages)"
proof -
  have ok: "launch_list_ok (p, q, c)"
    using assms table_records [of lq_launchId launchRecordSchema lq_sessionId "ca_launches c"]
    by (simp add: launch_list_ok_def rows_ok_def)
  have "0 < ll_limit q" using assms(4) by (simp add: launchListInputSchema_def)
  from launch_pages.pages_cover [OF ok, of "Suc (length hits div ll_limit q)"] enough_pages [OF this, of "length hits"]
  show ?thesis by (simp add: launch_page_def launch_rows_def assms(7))
qed

theorem launch_listing_ends_witness:
  "\<exists>pages. all_pages (\<lambda>k. listLaunches (pf_sha demo_platform) (pf_lc demo_platform) (pf_num demo_platform)
      (\<lparr>ll_runtimeNodeId = None, ll_sessionId = None, ll_providerId = None, ll_profileId = None, ll_states = None,
        ll_cursor = k, ll_limit = 1\<rparr>) demo_final) 2 None = Some (Inr pages) \<and>
    set (concat pages) = {demo_reservation}"
proof -
  let ?q = "\<lparr>ll_runtimeNodeId = None, ll_sessionId = None, ll_providerId = None, ll_profileId = None, ll_states = None,
        ll_cursor = None, ll_limit = 1\<rparr>"
  have rows: "records (ca_launches demo_final) = [demo_reservation]"
    by (simp add: records_def demo_final_def Let_def)
  have q: "launchListInputSchema ?q" "launch_matches ?q demo_reservation"
    by (simp_all add: launchListInputSchema_def unique_filter_def launch_matches_def in_filter_def)
  have "ca_role demo_final = Authority (pr_authority demo_promoting)" by (simp add: demo_final_def demo_promoted_def Let_def)
  then have a: "authority_ok (authority demo_final)" "wire_id (lq_launchId demo_reservation)" "wire_id (lr_updatedAt demo_reservation)"
    by (simp_all add: authority_ok_def wire_id_def authority_def demo_promoting_def demo_reservation_def)
  have hits: "filter (launch_matches ?q) (records (ca_launches demo_final)) = [demo_reservation]" using q(2) by (simp add: rows)
  from launch_listing_ends [OF rows_of_run [OF demo_opened demo_run] demo_platform_ok a(1) q(1) _ _ hits [symmetric]] a(2,3)
  show ?thesis by (auto simp: rows numeral_2_eq_2 simp del: all_pages.simps set_concat)
qed

text \<open>C36: a page cursor survives the wire and belongs to one search. Reading back what was written gives
  the same cursor, under the same query and authority; under any other query or authority epoch it is
  fenced.\<close>

theorem cursor_roundtrip:
  assumes "wire_cursor k" "num ''1'' = UNum ''1''"
  shows "decodeSessionSearchCursor num (encodeSessionSearchCursor k) fingerprint auth =
      (if sk_fingerprint k = fingerprint \<and> sk_authority k = auth then Inr k else Inl (Fault FENCED)) \<and>
    decodeOperationCursor num (encodeOperationCursor k) fingerprint auth =
      (if sk_fingerprint k = fingerprint \<and> sk_authority k = auth then Inr k else Inl (Fault FENCED))"
  using decode_encoded [where num = num, OF assms] by blast

theorem cursor_roundtrip_witness:
  "let k = \<lparr>sk_fingerprint = ''ab'', sk_authority = [CHR ''r'', CHR 0x00, CHR ''n'', CHR 0x00, CHR ''e''], sk_at = ''t1'', sk_id = ''s1''\<rparr>
   in decodeSessionSearchCursor UNum (encodeSessionSearchCursor k) ''ab'' (sk_authority k) = Inr k \<and>
     decodeSessionSearchCursor UNum (encodeSessionSearchCursor k) ''cd'' (sk_authority k) = Inl (Fault FENCED)"
  using cursor_roundtrip [of "\<lparr>sk_fingerprint = ''ab'', sk_authority = [CHR ''r'', CHR 0x00, CHR ''n'', CHR 0x00, CHR ''e''], sk_at = ''t1'', sk_id = ''s1''\<rparr>" UNum]
  by (simp add: wire_cursor_def wire_id_def)

subsection \<open>Two ways a search goes wrong\<close>

text \<open>The cursor \<open>null\<close> is neither decoded nor fenced: reading a property of it throws a \<open>TypeError\<close>.\<close>

lemma null_cursor_not_fenced: "decodeSessionSearchCursor num ''bnVsbA'' fingerprint auth = Inl TypeFault"
proof -
  have "from_base64url ''bnVsbA'' = ''null''" by code_simp
  moreover have "utf8_text ''null'' = ''null''" using utf8_valid_all_ascii [of "''null''"] by (simp add: utf8_valid_def)
  moreover have "JSON_parse num ''null'' = Some UNull"
    by (simp add: JSON_parse_def skip_ws_def is_ws_def read_word_def numeral_eq_Suc)
  ultimately show ?thesis by (simp add: decodeSessionSearchCursor_def decodeCursor_def)
qed

text \<open>Times are compared as texts although they may carry offsets: a session that was last active half an
  hour before the bound is found.\<close>

definition early_session :: session where
  "early_session = demo_session\<lparr>se_lastActivityAt := Some ''2024-05-01T01:00:00+02:00''\<rparr>"

definition late_search :: session_search where
  "late_search = \<lparr>sq_states = [SRunning, SStopped], sq_runtimeNodeIds = None, sq_harnesses = None, sq_providerIds = None,
     sq_profileIds = None, sq_metadata = [], sq_lastActivityAfter = Some ''2024-04-30T23:30:00Z'',
     sq_lastActivityBefore = None, sq_cursor = None, sq_limit = 100\<rparr>"

lemma activity_filter_ignores_offsets:
  "sessionRecordSchema early_session \<and> sessionSearchInputSchema late_search \<and> search_matches sha lc late_search early_session \<and>
   compareOperationTimestamp (activity_at early_session) ''2024-04-30T23:30:00Z'' = Some (-1)"
proof (intro conjI)
  show "sessionRecordSchema early_session"
    by (simp add: sessionRecordSchema_def early_session_def demo_session_def metadataSnapshotSchema_def emptyMetadataSnapshot_def)
  show "sessionSearchInputSchema late_search"
    by (simp add: sessionSearchInputSchema_def late_search_def unique_filter_def)
  show "search_matches sha lc late_search early_session"
    by (simp add: search_matches_def late_search_def early_session_def demo_session_def in_state_def in_filter_def activity_at_def)
  show "compareOperationTimestamp (activity_at early_session) ''2024-04-30T23:30:00Z'' = Some (-1)"
    by (simp add: early_session_def activity_at_def) code_simp
qed

end
