(* ===== verification/Gateway_State.thy ===== *)
theory Gateway_State
  imports Event_Hub Source_Coverage Control_Json
begin

text \<open>
  The access gateway (\<^verbatim>\<open>packages/gateway-core/src/projection.ts\<close>): what it keeps of its sources, and the
  pure functions that compare two of them. A source is a control node the gateway follows; its snapshot
  is the last projection it loaded, brought up to date by the events of its stream. A snapshot is an
  \<open>access_snapshot\<close> whose \<open>capturedAt\<close> is unused.
\<close>

subsection \<open>State\<close>

datatype gw_error =
  GNotFound | GConflict | GUnavailable | GOutcomeUnknown | GUnauthorized | GUnsupported | GInternal | GInvalid

datatype source_status =
  Disabled | Connecting | Synchronizing | SelectedSource | Suppressed | ConflictSource | UnavailableSource

record source_definition =
  sd_sourceId :: string
  sd_displayName :: string
  sd_endpointId :: string
  sd_priority :: "int option"
  sd_enabled :: "bool option"

record source_state =
  ss_definition :: source_definition
  ss_snapshot :: "access_snapshot option"
  ss_state :: source_status
  ss_selectedBy :: "string option"
  ss_reason :: "string option"
  ss_lastError :: "string option"
  ss_updatedAt :: string
  ss_generation :: nat

record source_diagnostic =
  di_sourceId :: string
  di_displayName :: string
  di_endpointId :: string
  di_state :: source_status
  di_manifest :: "source_manifest option"
  di_selectedBy :: "string option"
  di_reason :: "string option"
  di_lastError :: "string option"
  di_updatedAt :: string

record gateway_subscriber =
  gu_queue :: "access_item mail_queue"
  gu_initial :: "access_item list"
  gu_sessions :: "string list option"
  gu_includeNative :: bool

record route_fence =
  rf_sourceId :: string
  rf_sourceBootId :: string
  rf_sourceFeedId :: string
  rf_runtimeBootId :: string
  rf_sessionId :: string
  rf_runtimeNodeId :: string
  rf_bindingRevision :: nat

datatype page_kind = LaunchPages | SessionPages

record page_cursor =
  pc_kind :: page_kind
  pc_feedId :: string
  pc_sourceIds :: "string list"
  pc_sourceIndex :: nat
  pc_sourceCursor :: "string option"
  pc_filterKey :: string

text \<open>A closed subscriber leaves the set of the code; here it stays in its place and ignores what is
  pushed to it. A terminal route is kept with whether it has been aborted.\<close>

record gateway =
  gw_sources :: "(string, source_state) table"
  gw_selected :: "string list"
  gw_controlNodeOwners :: "(string, string) table"
  gw_runtimeNodeOwners :: "(string, string) table"
  gw_sessionOwners :: "(string, string) table"
  gw_interactionOwners :: "(string, string) table"
  gw_commandOwners :: "(string, string) table"
  gw_launchOwners :: "(string, string) table"
  gw_archiveOwners :: "(string, string) table"
  gw_lookupHints :: "(string, string) table"
  gw_lookupRecords :: "(string, session) table"
  gw_pageCursors :: "(string, page_cursor) table"
  gw_terminalRoutes :: "(route_fence \<times> bool) list"
  gw_subscribers :: "gateway_subscriber list"
  gw_sourceSubscribers :: "source_diagnostic mail_queue list"
  gw_nativeSeen :: "(string, native_position) table"
  gw_nativeJournal :: "native_event list"
  gw_journal :: "feed_item list"
  gw_feedId :: string
  gw_controlCursor :: nat
  gw_nativeCapacity :: nat

definition maximumJournalItems :: nat where "maximumJournalItems = 4096"
definition maximumSubscriberItems :: nat where "maximumSubscriberItems = 8192"
definition maximumCommandOwnerHints :: nat where "maximumCommandOwnerHints = 4096"
definition maximumOperationOwnerHints :: nat where "maximumOperationOwnerHints = 4096"
definition maximumPageCursors :: nat where "maximumPageCursors = 4096"

definition newSource :: "string \<Rightarrow> source_definition \<Rightarrow> source_state" where
  "newSource t d = \<lparr>ss_definition = d, ss_snapshot = None,
     ss_state = (if sd_enabled d = Some False then Disabled else Connecting), ss_selectedBy = None,
     ss_reason = None, ss_lastError = None, ss_updatedAt = t, ss_generation = 0\<rparr>"

definition newGateway :: "source_definition list \<Rightarrow> string \<Rightarrow> string \<Rightarrow> nat \<Rightarrow> gw_error + gateway" where
  "newGateway defs feedId t nativeCapacity =
     (if nativeCapacity < 1 \<or> max_safe_integer < nativeCapacity then Inl GInvalid
      else if \<not> distinct (map sd_sourceId defs) \<or>
        list_ex (\<lambda>d. sd_displayName d = [] \<or> sd_endpointId d = []) defs then Inl GInvalid
      else Inr \<lparr>gw_sources = map (\<lambda>d. (sd_sourceId d, newSource t d)) defs, gw_selected = [],
        gw_controlNodeOwners = [], gw_runtimeNodeOwners = [], gw_sessionOwners = [], gw_interactionOwners = [],
        gw_commandOwners = [], gw_launchOwners = [], gw_archiveOwners = [], gw_lookupHints = [],
        gw_lookupRecords = [], gw_pageCursors = [], gw_terminalRoutes = [], gw_subscribers = [],
        gw_sourceSubscribers = [], gw_nativeSeen = [], gw_nativeJournal = [], gw_journal = [],
        gw_feedId = feedId, gw_controlCursor = 0, gw_nativeCapacity = nativeCapacity\<rparr>)"

subsection \<open>Comparing two sources\<close>

datatype coverage_relation = Disjoint | Equal | LeftSuperset | RightSuperset | Partial

definition coverageRelation :: "source_manifest \<Rightarrow> source_manifest \<Rightarrow> coverage_relation" where
  "coverageRelation l r =
     (let left = sm_covered l; right = sm_covered r;
          leftContains = list_all (\<lambda>k. k \<in> set left) right;
          rightContains = list_all (\<lambda>k. k \<in> set right) left
      in if \<not> list_ex (\<lambda>k. k \<in> set right) left then Disjoint
         else if leftContains \<and> rightContains then Equal
         else if leftContains then LeftSuperset
         else if rightContains then RightSuperset
         else Partial)"

definition isSuperset :: "string list \<Rightarrow> string list \<Rightarrow> bool" where
  "isSuperset left right \<longleftrightarrow> list_all (\<lambda>k. k \<in> set left) right"

definition indexBy :: "('r \<Rightarrow> 'k) \<Rightarrow> 'r list \<Rightarrow> ('k, 'r) table" where
  "indexBy ident rs = fold (\<lambda>r. put (ident r) r) rs []"

text \<open>The first row of the left table that disagrees with the row of the same key on the right.\<close>

definition first_clash :: "('r \<Rightarrow> 'k) \<Rightarrow> ('r \<Rightarrow> 'r \<Rightarrow> string option) \<Rightarrow> 'r list \<Rightarrow> 'r list \<Rightarrow> string option" where
  "first_clash ident clash ls rs =
     (let left = indexBy ident ls; right = indexBy ident rs in
      case List.map_filter (\<lambda>(k, l). case map_of right k of None \<Rightarrow> None | Some r \<Rightarrow> clash l r) left of
        [] \<Rightarrow> None | m # _ \<Rightarrow> Some m)"

definition binding_json :: "session \<Rightarrow> json" where
  "binding_json s = JArr [JStr (se_runtimeNodeId s), JStr (se_harness s), JStr (se_adapterScopeId s),
     JStr (se_vendorSessionId s), JNum (nat_text (se_bindingRevision s)), JStr (se_createdAt s)]"

definition nullable_text :: "string option \<Rightarrow> json" where
  "nullable_text x = (case x of None \<Rightarrow> JNull | Some s \<Rightarrow> JStr s)"

definition nullable_json :: "json option \<Rightarrow> json" where
  "nullable_json x = (case x of None \<Rightarrow> JNull | Some v \<Rightarrow> v)"

definition interactionIdentity :: "interaction_record \<Rightarrow> json" where
  "interactionIdentity i = JArr [JStr (ir_sessionId i), JStr (ir_harness i), JStr (ir_runtimeEpoch i),
     nullable_text (ir_nativeRequestId i), JStr (ir_requestType i), ir_payload i, JBool (ir_ephemeral i), JStr (ir_createdAt i)]"

definition interactionTerminalResult :: "interaction_record \<Rightarrow> json" where
  "interactionTerminalResult i = JArr [JStr (interaction_state_text (ir_state i)), nullable_json (ir_resolution i),
     nullable_text (ir_expiresAt i), nullable_text (ir_resolvedAt i)]"

definition metadataOperationIdentity :: "metadata_operation \<Rightarrow> json" where
  "metadataOperationIdentity mo = JArr [JStr (mo_sessionId mo), patch_json (mo_patch mo), JStr (mo_originControlNodeId mo),
     authority_json (mo_authority mo)]"

definition node_clash :: "collation \<Rightarrow> control_node \<Rightarrow> control_node \<Rightarrow> string option" where
  "node_clash lc l r =
     (if sameCanonicalJson lc (role_json (cn_dataRole l)) (role_json (cn_dataRole r)) then None
      else Some (''overlapping control node '' @ cn_controlNodeId l @ '' has conflicting durable topology''))"

definition runtime_clash :: "runtime_node \<Rightarrow> runtime_node \<Rightarrow> string option" where
  "runtime_clash l r =
     (if rn_owner l = rn_owner r then None
      else Some (''overlapping runtime node '' @ rn_runtimeNodeId l @ '' has conflicting ownership''))"

definition session_clash :: "collation \<Rightarrow> session \<Rightarrow> session \<Rightarrow> string option" where
  "session_clash lc l r =
     (if \<not> sameCanonicalJson lc (binding_json l) (binding_json r)
      then Some (''overlapping session '' @ se_sessionId l @ '' has conflicting native binding'')
      else if ms_revision (se_metadata l) = ms_revision (se_metadata r) \<and>
        \<not> sameCanonicalJson lc (snapshot_json (se_metadata l)) (snapshot_json (se_metadata r))
      then Some (''overlapping session '' @ se_sessionId l @ '' has divergent metadata at revision '' @
        nat_text (ms_revision (se_metadata l)))
      else None)"

text \<open>The code keys by the four texts of a native binding joined with zero bytes.\<close>

definition nativeBindingIdentity :: "session \<Rightarrow> string" where
  "nativeBindingIdentity s = join [CHR 0x00] [se_runtimeNodeId s, se_harness s, se_adapterScopeId s, se_vendorSessionId s]"

definition native_binding_clash :: "session \<Rightarrow> session \<Rightarrow> string option" where
  "native_binding_clash l r =
     (if se_sessionId l = se_sessionId r then None
      else Some (''overlapping native binding is assigned to conflicting logical sessions '' @ se_sessionId l @
        '' and '' @ se_sessionId r))"

definition interaction_clash :: "collation \<Rightarrow> interaction_record \<Rightarrow> interaction_record \<Rightarrow> string option" where
  "interaction_clash lc l r =
     (if \<not> sameCanonicalJson lc (interactionIdentity l) (interactionIdentity r)
      then Some (''overlapping interaction '' @ ir_interactionId l @ '' has conflicting immutable data'')
      else if ir_state l \<noteq> IPending \<and> ir_state r \<noteq> IPending \<and>
        \<not> sameCanonicalJson lc (interactionTerminalResult l) (interactionTerminalResult r)
      then Some (''overlapping interaction '' @ ir_interactionId l @ '' has conflicting terminal results'')
      else None)"

definition operation_clash :: "collation \<Rightarrow> metadata_operation \<Rightarrow> metadata_operation \<Rightarrow> string option" where
  "operation_clash lc l r =
     (if \<not> sameCanonicalJson lc (metadataOperationIdentity l) (metadataOperationIdentity r)
      then Some (''overlapping metadata operation '' @ mo_operationId l @ '' has conflicting immutable data'')
      else if ms_revision (mo_canonical l) = ms_revision (mo_canonical r) \<and>
        \<not> sameCanonicalJson lc (snapshot_json (mo_canonical l)) (snapshot_json (mo_canonical r))
      then Some (''overlapping metadata operation '' @ mo_operationId l @ '' has divergent canonical revision '' @
        nat_text (ms_revision (mo_canonical l)))
      else if mo_status l \<noteq> MQueued \<and> mo_status r \<noteq> MQueued \<and> \<not> sameOperation lc l r
      then Some (''overlapping metadata operation '' @ mo_operationId l @ '' has conflicting terminal results'')
      else None)"

definition or_else :: "'a option \<Rightarrow> 'a option \<Rightarrow> 'a option" where
  "or_else a b = (case a of None \<Rightarrow> b | Some x \<Rightarrow> Some x)"

definition overlappingRecordConflict :: "collation \<Rightarrow> access_snapshot \<Rightarrow> access_snapshot \<Rightarrow> string option" where
  "overlappingRecordConflict lc l r =
     or_else (first_clash cn_controlNodeId (node_clash lc) (as_controlNodes l) (as_controlNodes r))
     (or_else (first_clash rn_runtimeNodeId runtime_clash (as_runtimeNodes l) (as_runtimeNodes r))
     (or_else (first_clash se_sessionId (session_clash lc) (as_sessions l) (as_sessions r))
     (or_else (first_clash nativeBindingIdentity native_binding_clash (as_sessions l) (as_sessions r))
     (or_else (first_clash ir_interactionId (interaction_clash lc) (as_interactions l) (as_interactions r))
       (first_clash mo_operationId (operation_clash lc) (as_metadataOperations l) (as_metadataOperations r))))))"

definition shared_id :: "string \<Rightarrow> string list \<Rightarrow> string list \<Rightarrow> string option" where
  "shared_id what left right =
     map_option (\<lambda>k. what @ '' '' @ k @ '' is duplicated across disjoint control subtrees'') (find (\<lambda>k. k \<in> set left) right)"

definition sharedDomainIdentityConflict :: "access_snapshot \<Rightarrow> access_snapshot \<Rightarrow> string option" where
  "sharedDomainIdentityConflict l r =
     or_else (shared_id ''runtime node'' (map rn_runtimeNodeId (as_runtimeNodes l)) (map rn_runtimeNodeId (as_runtimeNodes r)))
     (or_else (shared_id ''session'' (map se_sessionId (as_sessions l)) (map se_sessionId (as_sessions r)))
     (or_else (shared_id ''interaction'' (map ir_interactionId (as_interactions l)) (map ir_interactionId (as_interactions r)))
       (shared_id ''metadata operation'' (map mo_operationId (as_metadataOperations l)) (map mo_operationId (as_metadataOperations r)))))"

text \<open>Sources in order of preference: larger coverage, higher priority, then by name.\<close>

definition compareSources :: "collation \<Rightarrow> source_state \<Rightarrow> source_state \<Rightarrow> int" where
  "compareSources lc l r =
     (let covered = (\<lambda>s. case ss_snapshot s of None \<Rightarrow> 0 | Some n \<Rightarrow> int (length (sm_covered (as_manifest n))));
          root = (\<lambda>s. case ss_snapshot s of None \<Rightarrow> [] | Some n \<Rightarrow> sm_sourceControlNodeId (as_manifest n));
          priority = (\<lambda>s. case sd_priority (ss_definition s) of None \<Rightarrow> 0 | Some p \<Rightarrow> p);
          node = lc (root l) (root r)
      in if covered r - covered l \<noteq> 0 then covered r - covered l
         else if priority r - priority l \<noteq> 0 then priority r - priority l
         else if node \<noteq> 0 then node
         else lc (sd_sourceId (ss_definition l)) (sd_sourceId (ss_definition r)))"

end
