(* ===== verification/Gateway_Select.thy ===== *)
theory Gateway_Select
  imports Gateway_State
begin

text \<open>
  Which sources the gateway shows: conflicts between sources fail closed, and of the rest a source that
  a selected one covers is suppressed. A call that throws keeps what it has changed at_call, so such an
  operation returns its error beside the state. \<open>t\<close> is the clock, \<open>fresh\<close> a new feed ID.
\<close>

subsection \<open>Throwing with effects\<close>

type_synonym 's effect = "'s \<Rightarrow> gw_error option \<times> 's"

definition and_then :: "'s effect \<Rightarrow> 's effect \<Rightarrow> 's effect" where
  "and_then f g s = (case f s of (None, s') \<Rightarrow> g s' | (Some e, s') \<Rightarrow> (Some e, s'))"

definition change :: "('s \<Rightarrow> 's) \<Rightarrow> 's effect" where
  "change f s = (None, f s)"

fun each :: "('a \<Rightarrow> 's effect) \<Rightarrow> 'a list \<Rightarrow> 's effect" where
  "each f [] s = (None, s)"
| "each f (x # xs) s = and_then (f x) (each f xs) s"

subsection \<open>Broadcasts\<close>

definition gateway_push :: "access_item \<Rightarrow> gateway_subscriber \<Rightarrow> gateway_subscriber" where
  "gateway_push item u =
     (let skip = (\<lambda>k. \<not> gu_includeNative u \<or> (case gu_sessions u of None \<Rightarrow> False | Some ks \<Rightarrow> k \<notin> set ks));
          skipped = (case item of ANative e \<Rightarrow> skip (nv_sessionId e) | AGap k r p \<Rightarrow> skip k | _ \<Rightarrow> False)
      in if skipped then u else u\<lparr>gu_queue := bounded_push item (gu_queue u)\<rparr>)"

definition gw_broadcast :: "access_item \<Rightarrow> gateway \<Rightarrow> gateway" where
  "gw_broadcast item g = g\<lparr>gw_subscribers := map (gateway_push item) (gw_subscribers g)\<rparr>"

definition diagnostic :: "source_state \<Rightarrow> source_diagnostic" where
  "diagnostic s = \<lparr>di_sourceId = sd_sourceId (ss_definition s), di_displayName = sd_displayName (ss_definition s),
     di_endpointId = sd_endpointId (ss_definition s), di_state = ss_state s,
     di_manifest = map_option as_manifest (ss_snapshot s), di_selectedBy = ss_selectedBy s,
     di_reason = ss_reason s, di_lastError = ss_lastError s, di_updatedAt = ss_updatedAt s\<rparr>"

definition diagnostics :: "collation \<Rightarrow> gateway \<Rightarrow> source_diagnostic list" where
  "diagnostics lc g = sort_le (\<lambda>a b. lc (di_sourceId a) (di_sourceId b) \<le> 0) (map (diagnostic \<circ> snd) (gw_sources g))"

definition broadcastDiagnostics :: "collation \<Rightarrow> gateway \<Rightarrow> gateway" where
  "broadcastDiagnostics lc g =
     g\<lparr>gw_sourceSubscribers := map (\<lambda>q. fold bounded_push (diagnostics lc g) q) (gw_sourceSubscribers g)\<rparr>"

definition gw_source :: "string \<Rightarrow> gateway \<Rightarrow> source_state option" where
  "gw_source k g = map_of (gw_sources g) k"

definition gw_snapshot :: "string \<Rightarrow> gateway \<Rightarrow> access_snapshot option" where
  "gw_snapshot k g = Option.bind (gw_source k g) ss_snapshot"

definition put_source :: "string \<Rightarrow> (source_state \<Rightarrow> source_state) \<Rightarrow> gateway \<Rightarrow> gateway" where
  "put_source k f g = (case gw_source k g of None \<Rightarrow> g | Some s \<Rightarrow> g\<lparr>gw_sources := put k (f s) (gw_sources g)\<rparr>)"

text \<open>The authorities of the selected sources, each once.\<close>

definition selected_snapshots :: "gateway \<Rightarrow> access_snapshot list" where
  "selected_snapshots g = List.map_filter (\<lambda>k. gw_snapshot k g) (gw_selected g)"

fun distinct_fences :: "authority_ref list \<Rightarrow> authority_ref list \<Rightarrow> authority_ref list" where
  "distinct_fences seen [] = []"
| "distinct_fences seen (a # as) =
     (if list_ex (sameAuthority a) seen then distinct_fences seen as else a # distinct_fences (seen @ [a]) as)"

definition authorityRefs :: "collation \<Rightarrow> gateway \<Rightarrow> authority_ref list" where
  "authorityRefs lc g = sort_le (\<lambda>a b. lc (authorityKey a) (authorityKey b) \<le> 0)
     (distinct_fences [] (map (sm_authority \<circ> as_manifest) (selected_snapshots g)))"

definition gw_heartbeat :: "collation \<Rightarrow> gateway \<Rightarrow> access_item" where
  "gw_heartbeat lc g = ABeat (gw_feedId g) (gw_controlCursor g) (authorityRefs lc g)"

definition gw_reset :: "collation \<Rightarrow> string \<Rightarrow> reset_reason \<Rightarrow> gateway \<Rightarrow> access_item" where
  "gw_reset lc previous reason g = AReset (Some previous) (gw_feedId g) (gw_controlCursor g) (authorityRefs lc g) reason"

definition selectionSignature :: "gateway \<Rightarrow> string" where
  "selectionSignature g = join [CHR 0x01] (map (\<lambda>k. case gw_snapshot k g of None \<Rightarrow> [] | Some n \<Rightarrow>
     (let m = as_manifest n in join [CHR 0x00] ([k, sm_sourceBootId m, authorityKey (sm_authority m), sm_feedId m] @
       sort_le (\<le>) (sm_covered m)))) (sort_le (\<le>) (gw_selected g)))"

definition rotateFeed :: "collation \<Rightarrow> string \<Rightarrow> gateway \<Rightarrow> gateway" where
  "rotateFeed lc fresh g =
     (let g' = g\<lparr>gw_feedId := fresh, gw_controlCursor := 0, gw_commandOwners := [], gw_launchOwners := [],
        gw_archiveOwners := [], gw_lookupHints := [], gw_lookupRecords := [], gw_pageCursors := [],
        gw_nativeSeen := [], gw_nativeJournal := [], gw_journal := []\<rparr>
      in gw_broadcast (gw_reset lc (gw_feedId g) SourceSelectionChanged g') g')"

subsection \<open>Terminal routes\<close>

definition current_route :: "gateway \<Rightarrow> route_fence \<Rightarrow> bool" where
  "current_route g f \<longleftrightarrow>
     map_of (gw_sessionOwners g) (rf_sessionId f) = Some (rf_sourceId f) \<and>
     rf_sourceId f \<in> set (gw_selected g) \<and>
     (case gw_snapshot (rf_sourceId f) g of
        None \<Rightarrow> False
      | Some n \<Rightarrow>
          sm_sourceBootId (as_manifest n) = rf_sourceBootId f \<and> sm_feedId (as_manifest n) = rf_sourceFeedId f \<and>
          (case find (\<lambda>r. rn_runtimeNodeId r = rf_runtimeNodeId f) (as_runtimeNodes n) of
             None \<Rightarrow> False | Some r \<Rightarrow> rn_bootId r = rf_runtimeBootId f) \<and>
          (case find (\<lambda>s. se_sessionId s = rf_sessionId f) (as_sessions n) of
             None \<Rightarrow> False
           | Some s \<Rightarrow> se_runtimeNodeId s = rf_runtimeNodeId f \<and> se_bindingRevision s = rf_bindingRevision f))"

definition fenceTerminalRoutes :: "gateway \<Rightarrow> gateway" where
  "fenceTerminalRoutes g =
     g\<lparr>gw_terminalRoutes := map (\<lambda>(f, aborted). (f, aborted \<or> \<not> current_route g f)) (gw_terminalRoutes g)\<rparr>"

subsection \<open>Owners\<close>

definition claim ::
  "((string, string) table \<Rightarrow> gateway \<Rightarrow> gateway) \<Rightarrow> (gateway \<Rightarrow> (string, string) table) \<Rightarrow> string \<Rightarrow> string \<Rightarrow> gateway effect" where
  "claim upd field source k g =
     (case map_of (field g) k of
        Some other \<Rightarrow> if other \<noteq> source then (Some GConflict, g) else (None, upd (put k source (field g)) g)
      | None \<Rightarrow> (None, upd (put k source (field g)) g))"

definition require :: "(gateway \<Rightarrow> bool) \<Rightarrow> gateway effect" where
  "require P g = (if P g then None else Some GConflict, g)"

definition claim_node :: "string \<Rightarrow> string \<Rightarrow> gateway effect" where
  "claim_node = claim (\<lambda>t g. g\<lparr>gw_controlNodeOwners := t\<rparr>) gw_controlNodeOwners"

definition claim_runtime :: "string \<Rightarrow> runtime_node \<Rightarrow> gateway effect" where
  "claim_runtime source r = and_then (require (\<lambda>g. map_of (gw_controlNodeOwners g) (rn_owner r) = Some source))
     (claim (\<lambda>t g. g\<lparr>gw_runtimeNodeOwners := t\<rparr>) gw_runtimeNodeOwners source (rn_runtimeNodeId r))"

definition claim_session :: "string \<Rightarrow> session \<Rightarrow> gateway effect" where
  "claim_session source s = and_then (require (\<lambda>g. map_of (gw_runtimeNodeOwners g) (se_runtimeNodeId s) = Some source))
     (claim (\<lambda>t g. g\<lparr>gw_sessionOwners := t\<rparr>) gw_sessionOwners source (se_sessionId s))"

definition claim_interaction :: "string \<Rightarrow> interaction_record \<Rightarrow> gateway effect" where
  "claim_interaction source i = and_then (require (\<lambda>g. map_of (gw_sessionOwners g) (ir_sessionId i) = Some source))
     (claim (\<lambda>t g. g\<lparr>gw_interactionOwners := t\<rparr>) gw_interactionOwners source (ir_interactionId i))"

definition claim_source :: "string \<Rightarrow> gateway effect" where
  "claim_source k g =
     (case gw_snapshot k g of
        None \<Rightarrow> (Some GInternal, g)
      | Some n \<Rightarrow>
          and_then (each (claim_node k) (sm_covered (as_manifest n)))
          (and_then (each (claim_runtime k) (as_runtimeNodes n))
          (and_then (each (claim_session k) (as_sessions n))
            (each (claim_interaction k) (as_interactions n)))) g)"

definition forget_unowned :: "gateway \<Rightarrow> gateway" where
  "forget_unowned g =
     g\<lparr>gw_nativeSeen := filter (\<lambda>(k, p). has k (gw_sessionOwners g)) (gw_nativeSeen g),
       gw_nativeJournal := filter (\<lambda>e. \<not> (has (nv_sessionId e) (gw_nativeSeen g) \<and> \<not> has (nv_sessionId e) (gw_sessionOwners g)))
         (gw_nativeJournal g)\<rparr>"

definition rebuildOwners :: "gateway effect" where
  "rebuildOwners =
     and_then (change (\<lambda>g. g\<lparr>gw_controlNodeOwners := [], gw_runtimeNodeOwners := [], gw_sessionOwners := [], gw_interactionOwners := []\<rparr>))
     (and_then (\<lambda>g. each claim_source (gw_selected g) g)
       (change (\<lambda>g. fenceTerminalRoutes (forget_unowned g))))"

subsection \<open>Conflicts\<close>

text \<open>A candidate: a source with a snapshot that is neither unavailable nor disabled.\<close>

type_synonym candidate = "string \<times> source_state \<times> access_snapshot"

definition cand_manifest :: "candidate \<Rightarrow> source_manifest" where
  "cand_manifest c = as_manifest (snd (snd c))"

definition refreshed_state :: "source_state \<Rightarrow> source_state" where
  "refreshed_state s =
     (let s = s\<lparr>ss_selectedBy := None\<rparr> in
      if sd_enabled (ss_definition s) = Some False then s\<lparr>ss_state := Disabled\<rparr>
      else if ss_snapshot s \<noteq> None \<and> ss_state s \<noteq> UnavailableSource then s\<lparr>ss_state := Synchronizing\<rparr>
      else s)"

definition candidates :: "(string, source_state) table \<Rightarrow> candidate list" where
  "candidates ss = List.map_filter (\<lambda>(k, s). case ss_snapshot s of
       None \<Rightarrow> None
     | Some n \<Rightarrow> if ss_state s \<noteq> UnavailableSource \<and> ss_state s \<noteq> Disabled then Some (k, s, n) else None) ss"

fun pairs :: "'a list \<Rightarrow> ('a \<times> 'a) list" where
  "pairs [] = []"
| "pairs (x # xs) = map (Pair x) xs @ pairs xs"

text \<open>The calls of \<open>#conflict\<close>, in order: which source, and why.\<close>

type_synonym verdicts = "(string \<times> string) list"

definition both :: "candidate \<Rightarrow> candidate \<Rightarrow> string \<Rightarrow> verdicts" where
  "both l r why = [(fst l, why), (fst r, why)]"

definition overlap_verdicts :: "collation \<Rightarrow> candidate \<times> candidate \<Rightarrow> verdicts" where
  "overlap_verdicts lc = (\<lambda>(l, r).
     (case coverageRelation (cand_manifest l) (cand_manifest r) of
        Partial \<Rightarrow> both l r ''partially overlapping source coverage''
      | Disjoint \<Rightarrow> []
      | _ \<Rightarrow> (case overlappingRecordConflict lc (snd (snd l)) (snd (snd r)) of None \<Rightarrow> [] | Some why \<Rightarrow> both l r why)))"

definition realm_of :: "candidate \<Rightarrow> string" where
  "realm_of c = au_realmId (sm_authority (cand_manifest c))"

definition fence_of :: "candidate \<Rightarrow> string" where
  "fence_of c = authorityKey (sm_authority (cand_manifest c))"

definition realm_verdicts :: "collation \<Rightarrow> candidate list \<Rightarrow> verdicts" where
  "realm_verdicts lc grp =
     (if list_ex (\<lambda>c. fence_of c \<noteq> fence_of (hd grp)) grp
      then map (\<lambda>c. (fst c, ''authority epoch conflict within one realm'')) grp
      else concat (map (overlap_verdicts lc) (pairs grp)))"

definition identity_verdicts :: "candidate \<times> candidate \<Rightarrow> verdicts" where
  "identity_verdicts = (\<lambda>(l, r).
     (if coverageRelation (cand_manifest l) (cand_manifest r) = Disjoint
      then (case sharedDomainIdentityConflict (snd (snd l)) (snd (snd r)) of None \<Rightarrow> [] | Some why \<Rightarrow> both l r why)
      else if realm_of l \<noteq> realm_of r
      then both l r ''overlapping control-node identities claim different realms''
      else []))"

text \<open>Groups in the order in which their realms first occur.\<close>

definition by_realm :: "candidate list \<Rightarrow> candidate list list" where
  "by_realm cs = map (\<lambda>r. filter (\<lambda>c. realm_of c = r) cs) (rev (remdups (rev (map realm_of cs))))"

definition failover_verdict :: "collation \<Rightarrow> access_snapshot \<Rightarrow> candidate \<Rightarrow> verdicts" where
  "failover_verdict lc lost c =
     (let relation = coverageRelation (as_manifest lost) (cand_manifest c) in
      if relation = Disjoint \<or> \<not> sameAuthority (sm_authority (as_manifest lost)) (sm_authority (cand_manifest c)) then []
      else case (if relation = Partial then Some ''failover source partially overlaps the unavailable selected projection''
                 else overlappingRecordConflict lc lost (snd (snd c))) of
        None \<Rightarrow> [] | Some why \<Rightarrow> [(fst c, ''unsafe warm failover: '' @ why)])"

definition all_verdicts :: "collation \<Rightarrow> access_snapshot option \<Rightarrow> candidate list \<Rightarrow> verdicts" where
  "all_verdicts lc lost cs =
     (let vs = concat (map (realm_verdicts lc) (by_realm cs)) @ concat (map identity_verdicts (pairs cs)) in
      vs @ (case lost of None \<Rightarrow> []
            | Some n \<Rightarrow> concat (map (failover_verdict lc n) (filter (\<lambda>c. fst c \<notin> fst ` set vs) cs))))"

definition in_conflict :: "string \<Rightarrow> string \<Rightarrow> source_state \<Rightarrow> source_state" where
  "in_conflict t why s = s\<lparr>ss_state := ConflictSource, ss_reason := Some why, ss_selectedBy := None, ss_updatedAt := t\<rparr>"

definition apply_verdicts :: "string \<Rightarrow> verdicts \<Rightarrow> gateway \<Rightarrow> gateway" where
  "apply_verdicts t = fold (\<lambda>(k, why). put_source k (in_conflict t why))"

subsection \<open>Selection\<close>

definition suppresses :: "candidate \<Rightarrow> candidate \<Rightarrow> bool" where
  "suppresses o' c \<longleftrightarrow> fst o' \<noteq> fst c \<and>
     sameAuthority (sm_authority (cand_manifest o')) (sm_authority (cand_manifest c)) \<and>
     isSuperset (sm_covered (cand_manifest o')) (sm_covered (cand_manifest c))"

definition select_one :: "string \<Rightarrow> candidate list \<Rightarrow> candidate \<Rightarrow> gateway \<Rightarrow> gateway" where
  "select_one t el c g =
     (case find (\<lambda>o'. fst o' \<in> set (gw_selected g) \<and> suppresses o' c) el of
        Some o' \<Rightarrow> put_source (fst c) (\<lambda>s. s\<lparr>ss_state := Suppressed, ss_selectedBy := Some (fst o'),
          ss_reason := Some ''covered by a selected ancestor projection'', ss_updatedAt := t\<rparr>) g
      | None \<Rightarrow> (put_source (fst c) (\<lambda>s. s\<lparr>ss_state := SelectedSource, ss_reason := None, ss_updatedAt := t\<rparr>) g)
          \<lparr>gw_selected := gw_selected g @ [fst c]\<rparr>)"

definition reset_selection :: "gateway \<Rightarrow> gateway" where
  "reset_selection g = g\<lparr>gw_selected := [], gw_sources := map (\<lambda>(k, s). (k, refreshed_state s)) (gw_sources g)\<rparr>"

definition eligible :: "collation \<Rightarrow> access_snapshot option \<Rightarrow> candidate list \<Rightarrow> candidate list" where
  "eligible lc lost cs =
     (let vs = all_verdicts lc lost cs in
      sort_le (\<lambda>a b. compareSources lc (fst (snd a)) (fst (snd b)) \<le> 0) (filter (\<lambda>c. fst c \<notin> fst ` set vs) cs))"

definition choose_sources :: "collation \<Rightarrow> string \<Rightarrow> access_snapshot option \<Rightarrow> gateway \<Rightarrow> gateway" where
  "choose_sources lc t lost g =
     (let cs = candidates (gw_sources (reset_selection g)); el = eligible lc lost cs
      in fold (select_one t el) el (apply_verdicts t (all_verdicts lc lost cs) (reset_selection g)))"

definition reselect ::
  "collation \<Rightarrow> string \<Rightarrow> string \<Rightarrow> string \<Rightarrow> access_snapshot option \<Rightarrow> gateway effect" where
  "reselect lc t fresh previous lost =
     and_then (change (choose_sources lc t lost))
     (and_then rebuildOwners
       (change (\<lambda>g. broadcastDiagnostics lc (if selectionSignature g \<noteq> previous then rotateFeed lc fresh g else g))))"

subsection \<open>Refreshing a source and losing one\<close>

definition gateway_snapshot_ok :: "access_snapshot \<Rightarrow> bool" where
  "gateway_snapshot_ok n \<longleftrightarrow>
     sourceManifestSchema (as_manifest n) \<and> accessSnapshotSchema n \<and>
     sourceCoverageSnapshotSchema (as_manifest n) (as_parents n) \<and> sm_sourceBootId (as_manifest n) \<noteq> [] \<and>
     set (sm_covered (as_manifest n)) = set (map cn_controlNodeId (as_controlNodes n)) \<and>
     distinct (map cn_controlNodeId (as_controlNodes n)) \<and> distinct (map rn_runtimeNodeId (as_runtimeNodes n)) \<and>
     distinct (map se_sessionId (as_sessions n)) \<and> distinct (map ir_interactionId (as_interactions n)) \<and>
     distinct (map mo_operationId (as_metadataOperations n))"

text \<open>\<open>refreshSource\<close> up to its \<open>await\<close> and from there; what it remembers across it is the selection and,
  for a selected source, its old snapshot. The loaded snapshot is an argument.\<close>

definition refresh_begin :: "string \<Rightarrow> string \<Rightarrow> gateway \<Rightarrow> (string \<times> access_snapshot option) \<times> gateway" where
  "refresh_begin t k g =
     ((selectionSignature g, if k \<in> set (gw_selected g) then gw_snapshot k g else None),
      put_source k (\<lambda>s. s\<lparr>ss_state := Synchronizing, ss_updatedAt := t\<rparr>) g)"

definition refresh_failed ::
  "collation \<Rightarrow> string \<Rightarrow> string \<Rightarrow> string \<Rightarrow> string \<times> access_snapshot option \<Rightarrow> string \<Rightarrow> gw_error \<Rightarrow> gateway effect" where
  "refresh_failed lc t fresh k at_call cause err =
     and_then (change (put_source k (\<lambda>s. s\<lparr>ss_state := UnavailableSource, ss_selectedBy := None, ss_lastError := Some cause, ss_updatedAt := t\<rparr>)))
     (and_then (reselect lc t fresh (fst at_call) (snd at_call)) (\<lambda>g. (Some err, g)))"

definition refresh_end ::
  "collation \<Rightarrow> string \<Rightarrow> string \<Rightarrow> string \<Rightarrow> string \<Rightarrow> string \<times> access_snapshot option \<Rightarrow> string + access_snapshot \<Rightarrow> gateway effect" where
  "refresh_end lc t fresh fresh' k at_call loaded g =
     (case loaded of
        Inl cause \<Rightarrow> refresh_failed lc t fresh k at_call cause GUnavailable g
      | Inr n \<Rightarrow>
          if \<not> gateway_snapshot_ok n then refresh_failed lc t fresh k at_call ''invalid snapshot'' GInvalid g
          else
            (case reselect lc t fresh (fst at_call) None
                (put_source k (\<lambda>s. s\<lparr>ss_snapshot := Some n, ss_generation := Suc (ss_generation s), ss_lastError := None, ss_reason := None\<rparr>) g) of
               (None, g') \<Rightarrow> (None, g')
             | (Some err, g') \<Rightarrow> refresh_failed lc t fresh' k at_call ''conflicting owners'' err g'))"

definition markUnavailable :: "collation \<Rightarrow> string \<Rightarrow> string \<Rightarrow> string \<Rightarrow> string option \<Rightarrow> gateway effect" where
  "markUnavailable lc t fresh k cause g =
     (case gw_source k g of
        None \<Rightarrow> (Some GNotFound, g)
      | Some s \<Rightarrow>
          if ss_state s = UnavailableSource then
            (None, broadcastDiagnostics lc (put_source k (\<lambda>s. s\<lparr>ss_lastError := Some (case cause of Some why \<Rightarrow> why
               | None \<Rightarrow> (case ss_lastError s of None \<Rightarrow> ''source disconnected'' | Some why \<Rightarrow> why)), ss_updatedAt := t\<rparr>) g))
          else
            and_then (change (put_source k (\<lambda>s. s\<lparr>ss_state := UnavailableSource, ss_selectedBy := None,
                ss_lastError := Some (case cause of None \<Rightarrow> ''source disconnected'' | Some why \<Rightarrow> why), ss_updatedAt := t\<rparr>)))
              (reselect lc t fresh (selectionSignature g) (if k \<in> set (gw_selected g) then gw_snapshot k g else None)) g)"

end
