(* ===== verification/Gateway_Stream.thy ===== *)
theory Gateway_Stream
  imports Gateway_Select
begin

text \<open>
  The stream of the gateway: what it accepts from a source, what it hands on under its own feed and
  cursor, and what a subscriber reads.
\<close>

subsection \<open>Accepting an item of a source\<close>

definition validateSourceItem :: "source_manifest \<Rightarrow> access_item \<Rightarrow> bool" where
  "validateSourceItem m item =
     (case item of
        AControl i \<Rightarrow> fi_feedId i = sm_feedId m \<and> sameAuthority (fi_authority i) (sm_authority m) \<and>
          fi_origin i \<in> set (sm_covered m) \<and> fi_cursor i \<le> Suc (sm_controlCursor m)
      | ANative e \<Rightarrow> sameAuthority (pv_authority (nv_provenance e)) (sm_authority m) \<and>
          pv_origin (nv_provenance e) \<in> set (sm_covered m)
      | AGap k r p \<Rightarrow> sameAuthority (pv_authority p) (sm_authority m) \<and> pv_origin p \<in> set (sm_covered m)
      | ABeat feed cursor refs \<Rightarrow> feed = sm_feedId m \<and> list_ex (\<lambda>a. sameAuthority a (sm_authority m)) refs
      | AReset prev feed cursor refs reason \<Rightarrow> True)"

fun upsert :: "('r \<Rightarrow> 'k) \<Rightarrow> 'r \<Rightarrow> 'r list \<Rightarrow> 'r list" where
  "upsert ident v [] = [v]"
| "upsert ident v (r # rs) = (if ident r = ident v then v # rs else r # upsert ident v rs)"

definition edit :: "('r \<Rightarrow> 'k) \<Rightarrow> 'k \<Rightarrow> ('r \<Rightarrow> 'r) \<Rightarrow> 'r list \<Rightarrow> 'r list" where
  "edit ident k f rs = map (\<lambda>r. if ident r = k then f r else r) rs"

definition apply_change :: "control_change \<Rightarrow> access_snapshot \<Rightarrow> access_snapshot" where
  "apply_change ch n =
     (case ch of
        NodeUpsert c \<Rightarrow> n\<lparr>as_controlNodes := upsert cn_controlNodeId c (as_controlNodes n)\<rparr>
      | NodePresence k p \<Rightarrow> n\<lparr>as_controlNodes := edit cn_controlNodeId k (\<lambda>c. c\<lparr>cn_presence := p\<rparr>) (as_controlNodes n)\<rparr>
      | RuntimeUpsert r \<Rightarrow> n\<lparr>as_runtimeNodes := upsert rn_runtimeNodeId r (as_runtimeNodes n)\<rparr>
      | RuntimePresence k p \<Rightarrow> n\<lparr>as_runtimeNodes := edit rn_runtimeNodeId k (\<lambda>r. r\<lparr>rn_presence := p\<rparr>) (as_runtimeNodes n)\<rparr>
      | SessionUpsert s \<Rightarrow> n\<lparr>as_sessions := upsert se_sessionId s (as_sessions n)\<rparr>
      | SessionUnavailable k \<Rightarrow> n\<lparr>as_sessions := edit se_sessionId k (\<lambda>s. s\<lparr>se_availability := Unavailable\<rparr>) (as_sessions n)\<rparr>
      | MetadataChanged k m \<Rightarrow> n\<lparr>as_sessions := edit se_sessionId k (\<lambda>s. s\<lparr>se_metadata := m\<rparr>) (as_sessions n)\<rparr>
      | MetadataOperation mo \<Rightarrow> n\<lparr>as_metadataOperations := upsert mo_operationId mo (as_metadataOperations n)\<rparr>
      | InteractionChanged i \<Rightarrow> n\<lparr>as_interactions := upsert ir_interactionId i (as_interactions n)\<rparr>
      | _ \<Rightarrow> n)"

definition remember_owner :: "nat \<Rightarrow> 'k \<Rightarrow> 'v \<Rightarrow> ('k, 'v) table \<Rightarrow> ('k, 'v) table" where
  "remember_owner limit k v t = ring_push limit (del k t) (k, v)"

text \<open>The hints that an event of a selected source leaves.\<close>

definition remember_change :: "string \<Rightarrow> control_change \<Rightarrow> gateway \<Rightarrow> gateway" where
  "remember_change k ch g =
     (case ch of
        SessionUpsert s \<Rightarrow> g\<lparr>gw_lookupRecords := remember_owner maximumOperationOwnerHints (se_sessionId s) s (gw_lookupRecords g),
          gw_lookupHints := remember_owner maximumOperationOwnerHints (se_sessionId s) k (gw_lookupHints g)\<rparr>
      | LaunchChanged l \<Rightarrow> g\<lparr>gw_launchOwners := remember_owner maximumOperationOwnerHints (lq_launchId l) k (gw_launchOwners g)\<rparr>
      | ArchiveChanged a \<Rightarrow> g\<lparr>gw_archiveOwners := remember_owner maximumOperationOwnerHints (aq_archiveOperationId a) k (gw_archiveOwners g)\<rparr>
      | _ \<Rightarrow> g)"

definition advance :: "string \<Rightarrow> nat \<Rightarrow> access_snapshot \<Rightarrow> access_snapshot" where
  "advance t cursor n = n\<lparr>as_manifest := (as_manifest n)\<lparr>sm_controlCursor := cursor, sm_generatedAt := t\<rparr>\<rparr>"

definition applySourceControl :: "string \<Rightarrow> string \<Rightarrow> access_snapshot \<Rightarrow> feed_item \<Rightarrow> gateway effect" where
  "applySourceControl t k n i g =
     (if fi_cursor i \<le> sm_controlCursor (as_manifest n) then (None, g)
      else
        let live = k \<in> set (gw_selected g);
            remembered = (if live then remember_change k (fi_change i) g else g);
            g' = put_source k (\<lambda>s. s\<lparr>ss_snapshot := Some (advance t (fi_cursor i) (apply_change (fi_change i) n))\<rparr>) remembered
        in if live then rebuildOwners g' else (None, g'))"

subsection \<open>Handing it on\<close>

definition project_control :: "feed_item \<Rightarrow> gateway \<Rightarrow> gateway" where
  "project_control i g =
     (let cursor = Suc (gw_controlCursor g); projected = i\<lparr>fi_feedId := gw_feedId g, fi_cursor := cursor\<rparr>
      in gw_broadcast (AControl projected)
        (g\<lparr>gw_controlCursor := cursor, gw_journal := ring_push maximumJournalItems (gw_journal g) projected\<rparr>))"

definition project_native :: "native_event \<Rightarrow> gateway \<Rightarrow> bool \<times> gateway" where
  "project_native e g =
     (let k = nv_sessionId e; previous = map_of (gw_nativeSeen g) k in
      if (case previous of None \<Rightarrow> False
          | Some p \<Rightarrow> np_runtimeEpoch p = nv_runtimeEpoch e \<and> nv_sequence e \<le> np_sequence p) then (False, g)
      else
        let journal = (if (case previous of None \<Rightarrow> False | Some p \<Rightarrow> np_runtimeEpoch p \<noteq> nv_runtimeEpoch e)
                       then filter (\<lambda>x. nv_sessionId x \<noteq> k) (gw_nativeJournal g) else gw_nativeJournal g)
        in (True, gw_broadcast (ANative e)
             (g\<lparr>gw_nativeSeen := put k \<lparr>np_runtimeEpoch = nv_runtimeEpoch e, np_sequence = nv_sequence e\<rparr> (gw_nativeSeen g),
                gw_nativeJournal := ring_push (gw_nativeCapacity g) journal e\<rparr>)))"

definition handed_on :: "bool \<times> gateway \<Rightarrow> (gw_error + bool) \<times> gateway" where
  "handed_on r = (Inr (fst r), snd r)"

definition ingest :: "collation \<Rightarrow> string \<Rightarrow> string \<Rightarrow> access_item \<Rightarrow> gateway \<Rightarrow> (gw_error + bool) \<times> gateway" where
  "ingest lc t k item g =
     (case gw_source k g of
        None \<Rightarrow> (Inl GNotFound, g)
      | Some s \<Rightarrow>
          (case ss_snapshot s of
             None \<Rightarrow> (Inl GUnavailable, g)
           | Some n \<Rightarrow>
               if \<not> accessStreamItemSchema item then (Inl GInvalid, g)
               else if \<not> validateSourceItem (as_manifest n) item then (Inl GConflict, g)
               else
                 (case item of
                    AControl i \<Rightarrow>
                      (case applySourceControl t k n i g of
                         (Some e, g') \<Rightarrow> (Inl e, g')
                       | (None, g') \<Rightarrow>
                           if fi_cursor i \<le> sm_controlCursor (as_manifest n) \<or> k \<notin> set (gw_selected g') then (Inr False, g')
                           else (Inr True, project_control i g'))
                  | ABeat feed cursor refs \<Rightarrow>
                      if sm_controlCursor (as_manifest n) < cursor then (Inl GConflict, g)
                      else if k \<notin> set (gw_selected g) then (Inr False, g)
                      else (Inr True, gw_broadcast (gw_heartbeat lc g) g)
                  | AReset prev feed cursor refs reason \<Rightarrow> (Inr False, g)
                  | AGap sid r p \<Rightarrow>
                      if k \<notin> set (gw_selected g) \<or> map_of (gw_sessionOwners g) sid \<noteq> Some k then (Inr False, g)
                      else (Inr True, gw_broadcast item g)
                  | ANative e \<Rightarrow>
                      if k \<notin> set (gw_selected g) \<or> map_of (gw_sessionOwners g) (nv_sessionId e) \<noteq> Some k then (Inr False, g)
                      else handed_on (project_native e g))))"

text \<open>What \<open>synchronizeSource\<close> does with one item, and how it goes on.\<close>

datatype sync_next = ReadOn | LeaveStream | RefreshAndLeave | StreamFailed gw_error

definition requiresSourceSnapshot :: "control_change \<Rightarrow> bool" where
  "requiresSourceSnapshot ch =
     (case ch of NodeAttached a \<Rightarrow> True | NodeDetached r \<Rightarrow> True | AuthorityPromoted r \<Rightarrow> True | _ \<Rightarrow> False)"

definition sync_item :: "collation \<Rightarrow> string \<Rightarrow> string \<Rightarrow> nat \<Rightarrow> access_item \<Rightarrow> gateway \<Rightarrow> sync_next \<times> gateway" where
  "sync_item lc t k generation item g =
     (if map_option ss_generation (gw_source k g) \<noteq> Some generation then (LeaveStream, g)
      else
        (case item of
           AReset prev feed cursor refs reason \<Rightarrow> (RefreshAndLeave, g)
         | _ \<Rightarrow>
             (case ingest lc t k item g of
                (Inl e, g') \<Rightarrow> (StreamFailed e, g')
              | (Inr b, g') \<Rightarrow>
                  (case item of
                     AControl i \<Rightarrow> if requiresSourceSnapshot (fi_change i) then (RefreshAndLeave, g') else (ReadOn, g')
                   | _ \<Rightarrow> (ReadOn, g')))))"

text \<open>The reconnect delay doubles up to a bound.\<close>

definition next_backoff :: "nat \<Rightarrow> nat \<Rightarrow> nat" where
  "next_backoff maximum delay = min maximum (delay * 2)"

subsection \<open>Subscribing\<close>

definition nativeProvenance :: "string \<Rightarrow> gateway \<Rightarrow> provenance option" where
  "nativeProvenance k g =
     (case map_of (gw_sessionOwners g) k of
        None \<Rightarrow> None
      | Some source \<Rightarrow> map_option (\<lambda>n. \<lparr>pv_origin = sm_sourceControlNodeId (as_manifest n),
          pv_authority = sm_authority (as_manifest n)\<rparr>) (gw_snapshot source g))"

definition wants :: "string list option \<Rightarrow> string \<Rightarrow> bool" where
  "wants sessions k = (case sessions of None \<Rightarrow> True | Some ks \<Rightarrow> k \<in> set ks)"

definition native_gap :: "gateway \<Rightarrow> stream_cursor \<Rightarrow> string \<times> native_position \<Rightarrow> access_item option" where
  "native_gap g cur = (\<lambda>(k, latest).
     (let next_wanted' = next_wanted (map_of (sc_native cur) k) (np_runtimeEpoch latest);
          retained = filter (\<lambda>e. nv_sessionId e = k \<and> nv_runtimeEpoch e = np_runtimeEpoch latest) (gw_nativeJournal g);
          requestedAhead = Suc (np_sequence latest) < next_wanted';
          missingTail = (next_wanted' \<le> np_sequence latest \<and>
            (case retained of [] \<Rightarrow> True | first # _ \<Rightarrow> next_wanted' < nv_sequence first));
          reason = (if requestedAhead then ''gateway native journal ends at sequence '' @ nat_text (np_sequence latest) @
              '', behind requested sequence '' @ nat_text (next_wanted' - 1)
            else case retained of [] \<Rightarrow> ''gateway native journal no longer retains this session''
              | first # _ \<Rightarrow> ''gateway native journal begins at sequence '' @ nat_text (nv_sequence first))
      in if \<not> requestedAhead \<and> \<not> missingTail then None
         else map_option (AGap k reason)
           (case retained of first # _ \<Rightarrow> Some (nv_provenance first) | [] \<Rightarrow> nativeProvenance k g)))"

definition gw_nativeReplay :: "stream_cursor \<Rightarrow> string list option \<Rightarrow> gateway \<Rightarrow> access_item list" where
  "gw_nativeReplay cur sessions g =
     (let seen = filter (\<lambda>(k, p). wants sessions k) (gw_nativeSeen g);
          gapped = map fst (filter (\<lambda>p. native_gap g cur p \<noteq> None) seen)
      in List.map_filter (native_gap g cur) seen @
         map ANative (filter (\<lambda>e. nv_sessionId e \<notin> set gapped \<and> wants sessions (nv_sessionId e) \<and>
           map_option np_runtimeEpoch (map_of (gw_nativeSeen g) (nv_sessionId e)) = Some (nv_runtimeEpoch e) \<and>
           next_wanted (map_of (sc_native cur) (nv_sessionId e)) (nv_runtimeEpoch e) \<le> nv_sequence e) (gw_nativeJournal g)))"

definition gateway_initial ::
  "collation \<Rightarrow> stream_cursor option \<Rightarrow> string list option \<Rightarrow> bool \<Rightarrow> gateway \<Rightarrow> access_item list" where
  "gateway_initial lc cursor sessions includeNative g =
     (case cursor of
        None \<Rightarrow> [gw_heartbeat lc g]
      | Some cur \<Rightarrow>
          if sc_feedId cur \<noteq> gw_feedId g then [gw_reset lc (sc_feedId cur) FeedChanged g]
          else
            let minimumRetained = (case gw_journal g of [] \<Rightarrow> Suc (gw_controlCursor g) | i # _ \<Rightarrow> fi_cursor i) in
            if gw_controlCursor g < sc_controlCursor cur \<or> Suc (sc_controlCursor cur) < minimumRetained
            then [gw_reset lc (sc_feedId cur) CursorExpired g]
            else map AControl (filter (\<lambda>i. sc_controlCursor cur < fi_cursor i) (gw_journal g)) @
              (if includeNative then gw_nativeReplay cur sessions g else []) @ [gw_heartbeat lc g])"

definition gateway_subscribe ::
  "collation \<Rightarrow> stream_cursor option \<Rightarrow> string list option \<Rightarrow> bool \<Rightarrow> bool \<Rightarrow> gateway \<Rightarrow> gateway" where
  "gateway_subscribe lc cursor sessions includeNative aborted g =
     (let q = new_queue maximumSubscriberItems in
      g\<lparr>gw_subscribers := gw_subscribers g @ [\<lparr>gu_queue = (if aborted then bounded_close None q else q),
        gu_initial = (if aborted then [] else gateway_initial lc cursor sessions includeNative g),
        gu_sessions = sessions, gu_includeNative = includeNative\<rparr>]\<rparr>)"

definition answer_now :: "'a \<Rightarrow> 'a mail_queue \<Rightarrow> 'a mail_queue" where
  "answer_now v q = q\<lparr>mq_answers := mq_answers q @ [Item v]\<rparr>"

definition subscriber_next :: "gateway_subscriber \<Rightarrow> gateway_subscriber" where
  "subscriber_next u =
     (if mq_closed (gu_queue u) then u\<lparr>gu_queue := queue_next (gu_queue u)\<rparr>
      else case gu_initial u of
        v # vs \<Rightarrow> u\<lparr>gu_queue := answer_now v (gu_queue u), gu_initial := vs\<rparr>
      | [] \<Rightarrow> u\<lparr>gu_queue := queue_next (gu_queue u)\<rparr>)"

definition at_subscriber :: "(gateway_subscriber \<Rightarrow> gateway_subscriber) \<Rightarrow> nat \<Rightarrow> gateway \<Rightarrow> gateway" where
  "at_subscriber f j g = g\<lparr>gw_subscribers := (gw_subscribers g)[j := f (gw_subscribers g ! j)]\<rparr>"

definition gateway_next :: "nat \<Rightarrow> gateway \<Rightarrow> gateway" where
  "gateway_next j g = (if j < length (gw_subscribers g) then at_subscriber subscriber_next j g else g)"

definition gateway_return :: "nat \<Rightarrow> gateway \<Rightarrow> gateway" where
  "gateway_return j g =
     (if j < length (gw_subscribers g)
      then at_subscriber (\<lambda>u. u\<lparr>gu_queue := bounded_close None (gu_queue u)\<rparr>) j g else g)"

definition watchSources :: "collation \<Rightarrow> bool \<Rightarrow> gateway \<Rightarrow> gateway" where
  "watchSources lc aborted g =
     (let q = new_queue maximumSubscriberItems in
      g\<lparr>gw_sourceSubscribers := gw_sourceSubscribers g @
        [if aborted then bounded_close None q else fold bounded_push (diagnostics lc g) q]\<rparr>)"

end
