(* ===== verification/Gateway_Owners.thy ===== *)
theory Gateway_Owners
  imports Gateway_Stream
begin

text \<open>
  The owner tables of the gateway. A table is claimed for one source after another; the contract of such
  a table is the locale \<open>owner_table\<close>, which the four tables of the gateway interpret. A rebuilt table
  names exactly the selected source that has the record.
\<close>

subsection \<open>Effects\<close>

named_theorems effect_simps

lemma and_then_ok [effect_simps]:
  "fst (and_then f h s) = None \<longleftrightarrow> fst (f s) = None \<and> fst (h (snd (f s))) = None"
  by (auto simp: and_then_def split: prod.splits option.splits)

lemma and_then_state [effect_simps]: "fst (f s) = None \<Longrightarrow> snd (and_then f h s) = snd (h (snd (f s)))"
  by (auto simp: and_then_def split: prod.splits option.splits)

lemma change_simps [effect_simps, simp]: "fst (change f s) = None" "snd (change f s) = f s"
  by (simp_all add: change_def)

lemma require_simps [effect_simps, simp]:
  "fst (require P s) = None \<longleftrightarrow> P s" "snd (require P s) = s"
  by (simp_all add: require_def)

lemma each_ok [effect_simps]:
  "fst (each f (x # xs) s) = None \<longleftrightarrow> fst (f x s) = None \<and> fst (each f xs (snd (f x s))) = None"
  by (simp add: and_then_ok)

subsection \<open>One table\<close>

locale owner_table =
  fixes upd :: "(string, string) table \<Rightarrow> gateway \<Rightarrow> gateway" and field :: "gateway \<Rightarrow> (string, string) table"
  assumes field_upd: "field (upd t g) = t"
    and upd_upd: "upd t (upd t' g) = upd t g"
    and upd_field: "upd (field g) g = g"
begin

definition free :: "string \<Rightarrow> (string, string) table \<Rightarrow> string \<Rightarrow> bool" where
  "free k t r \<longleftrightarrow> map_of t r = None \<or> map_of t r = Some k"

lemma claim_ok: "fst (claim upd field k r g) = None \<longleftrightarrow> free k (field g) r"
  by (auto simp: claim_def free_def split: option.splits)

lemma claim_state: "free k (field g) r \<Longrightarrow> snd (claim upd field k r g) = upd (put r k (field g)) g"
  by (auto simp: claim_def free_def split: option.splits)

lemma free_put: "free k t r \<Longrightarrow> free k (put r k t) r' = free k t r'"
  by (auto simp: free_def)

lemma claim_each:
  assumes "\<And>r t g. Q r (upd t g) = Q r g"
  shows "(fst (each (\<lambda>r. and_then (require (Q r)) (claim upd field k (ident r))) rs g) = None \<longleftrightarrow>
      (\<forall>r \<in> set rs. Q r g \<and> free k (field g) (ident r))) \<and>
    ((\<forall>r \<in> set rs. Q r g \<and> free k (field g) (ident r)) \<longrightarrow>
      snd (each (\<lambda>r. and_then (require (Q r)) (claim upd field k (ident r))) rs g) = upd (put_all (map ident rs) k (field g)) g)"
proof (induction rs arbitrary: g)
  case Nil
  then show ?case by (simp add: put_all_def upd_field)
next
  case (Cons r rs)
  let ?f = "\<lambda>r. and_then (require (Q r)) (claim upd field k (ident r))"
  let ?g = "upd (put (ident r) k (field g)) g"
  have hd: "fst (?f r g) = None \<longleftrightarrow> Q r g \<and> free k (field g) (ident r)"
    by (simp add: and_then_ok claim_ok)
  show ?case
  proof (cases "Q r g \<and> free k (field g) (ident r)")
    case False
    with hd show ?thesis by (auto simp: each_ok simp del: each.simps)
  next
    case True
    then have st: "snd (?f r g) = ?g" by (simp add: and_then_state claim_state)
    have tl: "free k (field ?g) r' = free k (field g) r'" for r'
      using True by (simp add: field_upd free_put)
    have ok: "fst (?f r g) = None" using hd True by simp
    have eq: "snd (each ?f (r # rs) g) = snd (each ?f rs ?g)"
      using ok st by (simp add: and_then_state)
    show ?thesis
      using Cons.IH [of ?g] True
      unfolding eq each_ok
      by (simp add: ok st tl assms) (simp add: field_upd upd_upd put_all_def)
  qed
qed

end

interpretation nodes_table: owner_table "\<lambda>t g. g\<lparr>gw_controlNodeOwners := t\<rparr>" gw_controlNodeOwners
  by unfold_locales auto

interpretation runtimes_table: owner_table "\<lambda>t g. g\<lparr>gw_runtimeNodeOwners := t\<rparr>" gw_runtimeNodeOwners
  by unfold_locales auto

interpretation sessions_table: owner_table "\<lambda>t g. g\<lparr>gw_sessionOwners := t\<rparr>" gw_sessionOwners
  by unfold_locales auto

interpretation interactions_table: owner_table "\<lambda>t g. g\<lparr>gw_interactionOwners := t\<rparr>" gw_interactionOwners
  by unfold_locales auto

subsection \<open>All four tables\<close>

definition node_ids :: "access_snapshot \<Rightarrow> string list" where
  "node_ids n = sm_covered (as_manifest n)"

definition runtime_ids :: "access_snapshot \<Rightarrow> string list" where
  "runtime_ids n = map rn_runtimeNodeId (as_runtimeNodes n)"

definition session_ids :: "access_snapshot \<Rightarrow> string list" where
  "session_ids n = map se_sessionId (as_sessions n)"

definition interaction_ids :: "access_snapshot \<Rightarrow> string list" where
  "interaction_ids n = map ir_interactionId (as_interactions n)"

lemmas id_defs = node_ids_def runtime_ids_def session_ids_def interaction_ids_def

definition ids_of :: "(access_snapshot \<Rightarrow> string list) \<Rightarrow> gateway \<Rightarrow> string \<Rightarrow> string list" where
  "ids_of ids g k = (case gw_snapshot k g of None \<Rightarrow> [] | Some n \<Rightarrow> ids n)"

text \<open>Every record refers to records of the same snapshot.\<close>

definition snapshot_rooted :: "access_snapshot \<Rightarrow> bool" where
  "snapshot_rooted n \<longleftrightarrow>
     (\<forall>r \<in> set (as_runtimeNodes n). rn_owner r \<in> set (node_ids n)) \<and>
     (\<forall>s \<in> set (as_sessions n). se_runtimeNodeId s \<in> set (runtime_ids n)) \<and>
     (\<forall>i \<in> set (as_interactions n). ir_sessionId i \<in> set (session_ids n))"

definition claimed :: "string \<Rightarrow> access_snapshot \<Rightarrow> gateway \<Rightarrow> gateway" where
  "claimed k n g = g\<lparr>gw_controlNodeOwners := put_all (node_ids n) k (gw_controlNodeOwners g),
     gw_runtimeNodeOwners := put_all (runtime_ids n) k (gw_runtimeNodeOwners g),
     gw_sessionOwners := put_all (session_ids n) k (gw_sessionOwners g),
     gw_interactionOwners := put_all (interaction_ids n) k (gw_interactionOwners g)\<rparr>"

definition all_free :: "string \<Rightarrow> access_snapshot \<Rightarrow> gateway \<Rightarrow> bool" where
  "all_free k n g \<longleftrightarrow>
     (\<forall>r \<in> set (node_ids n). nodes_table.free k (gw_controlNodeOwners g) r) \<and>
     (\<forall>r \<in> set (runtime_ids n). nodes_table.free k (gw_runtimeNodeOwners g) r) \<and>
     (\<forall>r \<in> set (session_ids n). nodes_table.free k (gw_sessionOwners g) r) \<and>
     (\<forall>r \<in> set (interaction_ids n). nodes_table.free k (gw_interactionOwners g) r)"

lemma claim_node_alt: "claim_node k = (\<lambda>r. and_then (require (\<lambda>g. True))
    (claim (\<lambda>t g. g\<lparr>gw_controlNodeOwners := t\<rparr>) gw_controlNodeOwners k (id r)))"
  by (rule ext)+ (simp add: claim_node_def and_then_def require_def)

lemmas claim_nodes = nodes_table.claim_each [where Q = "\<lambda>r g. True" and ident = id, folded claim_node_alt, simplified]

lemma claim_runtimes:
  shows "(fst (each (claim_runtime k) rs g) = None \<longleftrightarrow> (\<forall>r \<in> set rs. map_of (gw_controlNodeOwners g) (rn_owner r) = Some k \<and>
      nodes_table.free k (gw_runtimeNodeOwners g) (rn_runtimeNodeId r))) \<and>
    (fst (each (claim_runtime k) rs g) = None \<longrightarrow> snd (each (claim_runtime k) rs g) =
      g\<lparr>gw_runtimeNodeOwners := put_all (map rn_runtimeNodeId rs) k (gw_runtimeNodeOwners g)\<rparr>)"
  using runtimes_table.claim_each [where Q = "\<lambda>r g. map_of (gw_controlNodeOwners g) (rn_owner r) = Some k"
      and ident = rn_runtimeNodeId and k = k and rs = rs and g = g, folded claim_runtime_def] by simp

lemma claim_sessions:
  shows "(fst (each (claim_session k) rs g) = None \<longleftrightarrow> (\<forall>r \<in> set rs. map_of (gw_runtimeNodeOwners g) (se_runtimeNodeId r) = Some k \<and>
      nodes_table.free k (gw_sessionOwners g) (se_sessionId r))) \<and>
    (fst (each (claim_session k) rs g) = None \<longrightarrow> snd (each (claim_session k) rs g) =
      g\<lparr>gw_sessionOwners := put_all (map se_sessionId rs) k (gw_sessionOwners g)\<rparr>)"
  using sessions_table.claim_each [where Q = "\<lambda>r g. map_of (gw_runtimeNodeOwners g) (se_runtimeNodeId r) = Some k"
      and ident = se_sessionId and k = k and rs = rs and g = g, folded claim_session_def] by simp

lemma claim_interactions:
  shows "(fst (each (claim_interaction k) rs g) = None \<longleftrightarrow> (\<forall>r \<in> set rs. map_of (gw_sessionOwners g) (ir_sessionId r) = Some k \<and>
      nodes_table.free k (gw_interactionOwners g) (ir_interactionId r))) \<and>
    (fst (each (claim_interaction k) rs g) = None \<longrightarrow> snd (each (claim_interaction k) rs g) =
      g\<lparr>gw_interactionOwners := put_all (map ir_interactionId rs) k (gw_interactionOwners g)\<rparr>)"
  using interactions_table.claim_each [where Q = "\<lambda>r g. map_of (gw_sessionOwners g) (ir_sessionId r) = Some k"
      and ident = ir_interactionId and k = k and rs = rs and g = g, folded claim_interaction_def] by simp

lemma claim_source_fails: "gw_snapshot k g = None \<Longrightarrow> fst (claim_source k g) \<noteq> None"
  by (simp add: claim_source_def)

lemma free_put_all: "map_of (put_all ids k t) r = Some k' \<longleftrightarrow> (if r \<in> set ids then k' = k else map_of t r = Some k')"
  by (auto simp: map_of_put_all)

lemma claim_source_done:
  assumes n: "gw_snapshot k g = Some n" and ok: "fst (claim_source k g) = None"
  shows "all_free k n g \<and> snd (claim_source k g) = claimed k n g"
proof -
  let ?e1 = "each (claim_node k) (sm_covered (as_manifest n))" and ?e2 = "each (claim_runtime k) (as_runtimeNodes n)"
    and ?e3 = "each (claim_session k) (as_sessions n)" and ?e4 = "each (claim_interaction k) (as_interactions n)"
  have eq: "claim_source k g = and_then ?e1 (and_then ?e2 (and_then ?e3 ?e4)) g"
    using n by (simp add: claim_source_def)
  define g1 where "g1 = snd (?e1 g)"
  define g2 where "g2 = snd (?e2 g1)"
  define g3 where "g3 = snd (?e3 g2)"
  have ok1: "fst (?e1 g) = None" and ok2: "fst (?e2 g1) = None" and ok3: "fst (?e3 g2) = None" and ok4: "fst (?e4 g3) = None"
    using ok unfolding eq and_then_ok g1_def g2_def g3_def by blast+
  have s1: "g1 = g\<lparr>gw_controlNodeOwners := put_all (node_ids n) k (gw_controlNodeOwners g)\<rparr>"
    and f1: "\<forall>r \<in> set (node_ids n). nodes_table.free k (gw_controlNodeOwners g) r"
    using claim_nodes ok1 unfolding g1_def node_ids_def by blast+
  have s2: "g2 = g1\<lparr>gw_runtimeNodeOwners := put_all (runtime_ids n) k (gw_runtimeNodeOwners g1)\<rparr>"
    and f2: "\<forall>r \<in> set (as_runtimeNodes n). nodes_table.free k (gw_runtimeNodeOwners g1) (rn_runtimeNodeId r)"
    using claim_runtimes ok2 unfolding g2_def runtime_ids_def by blast+
  have s3: "g3 = g2\<lparr>gw_sessionOwners := put_all (session_ids n) k (gw_sessionOwners g2)\<rparr>"
    and f3: "\<forall>r \<in> set (as_sessions n). nodes_table.free k (gw_sessionOwners g2) (se_sessionId r)"
    using claim_sessions ok3 unfolding g3_def session_ids_def by blast+
  have s4: "snd (?e4 g3) = g3\<lparr>gw_interactionOwners := put_all (interaction_ids n) k (gw_interactionOwners g3)\<rparr>"
    and f4: "\<forall>r \<in> set (as_interactions n). nodes_table.free k (gw_interactionOwners g3) (ir_interactionId r)"
    using claim_interactions ok4 unfolding interaction_ids_def by blast+
  have "snd (claim_source k g) = snd (?e4 g3)"
    unfolding eq g3_def g2_def g1_def using ok1 ok2 ok3
    by (simp add: g1_def g2_def g3_def and_then_state)
  also note s4
  also have "g3\<lparr>gw_interactionOwners := put_all (interaction_ids n) k (gw_interactionOwners g3)\<rparr> = claimed k n g"
    by (simp add: s3 s2 s1 claimed_def)
  finally show ?thesis
    using f1 f2 f3 f4 unfolding all_free_def runtime_ids_def session_ids_def interaction_ids_def
    by (auto simp: s1 s2 s3)
qed

lemma claim_source_succeeds:
  assumes n: "gw_snapshot k g = Some n" and rooted: "snapshot_rooted n" and free: "all_free k n g"
  shows "fst (claim_source k g) = None"
proof -
  let ?e1 = "each (claim_node k) (sm_covered (as_manifest n))" and ?e2 = "each (claim_runtime k) (as_runtimeNodes n)"
    and ?e3 = "each (claim_session k) (as_sessions n)" and ?e4 = "each (claim_interaction k) (as_interactions n)"
  define g1 where "g1 = snd (?e1 g)"
  define g2 where "g2 = snd (?e2 g1)"
  define g3 where "g3 = snd (?e3 g2)"
  have ok1: "fst (?e1 g) = None" using claim_nodes free unfolding all_free_def node_ids_def by blast
  then have s1: "g1 = g\<lparr>gw_controlNodeOwners := put_all (node_ids n) k (gw_controlNodeOwners g)\<rparr>"
    using claim_nodes unfolding g1_def node_ids_def by blast
  have ok2: "fst (?e2 g1) = None"
    using free rooted unfolding conjunct1 [OF claim_runtimes] s1 all_free_def snapshot_rooted_def runtime_ids_def
    by (simp add: map_of_put_all)
  then have s2: "g2 = g1\<lparr>gw_runtimeNodeOwners := put_all (runtime_ids n) k (gw_runtimeNodeOwners g1)\<rparr>"
    using claim_runtimes unfolding g2_def runtime_ids_def by blast
  have ok3: "fst (?e3 g2) = None"
    using free rooted unfolding conjunct1 [OF claim_sessions] s2 s1 all_free_def snapshot_rooted_def session_ids_def
    by (simp add: map_of_put_all)
  then have s3: "g3 = g2\<lparr>gw_sessionOwners := put_all (session_ids n) k (gw_sessionOwners g2)\<rparr>"
    using claim_sessions unfolding g3_def session_ids_def by blast
  have ok4: "fst (?e4 g3) = None"
    using free rooted unfolding conjunct1 [OF claim_interactions] s3 s2 s1 all_free_def snapshot_rooted_def interaction_ids_def
    by (simp add: map_of_put_all)
  from ok1 ok2 ok3 ok4 show ?thesis
    using n by (simp add: claim_source_def and_then_ok g1_def g2_def g3_def)
qed

subsection \<open>The tables name the selected source that has the record\<close>

definition table_exact :: "(string \<Rightarrow> string list) \<Rightarrow> string list \<Rightarrow> (string, string) table \<Rightarrow> bool" where
  "table_exact ids ks t \<longleftrightarrow> (\<forall>r k. map_of t r = Some k \<longleftrightarrow> k \<in> set ks \<and> r \<in> set (ids k))"

lemma table_exact_Nil [simp]: "table_exact ids [] []"
  by (simp add: table_exact_def)

lemma table_exact_put:
  assumes ex: "table_exact ids ks t" and free: "\<forall>r \<in> set (ids k). nodes_table.free k t r"
  shows "table_exact ids (ks @ [k]) (put_all (ids k) k t)"
proof -
  have "k' = k" if "r \<in> set (ids k)" "k' \<in> set ks" "r \<in> set (ids k')" for r k'
  proof -
    have "map_of t r = Some k'" using ex that by (simp add: table_exact_def)
    then show ?thesis using free that(1) by (auto simp: nodes_table.free_def)
  qed
  then have "map_of (put_all (ids k) k t) r = Some k' \<longleftrightarrow> k' \<in> set (ks @ [k]) \<and> r \<in> set (ids k')" for r k'
    using ex by (auto simp: free_put_all table_exact_def)
  then show ?thesis by (simp add: table_exact_def)
qed

lemma table_exact_free:
  assumes "table_exact ids ks t" and "\<And>k'. k' \<in> set ks \<Longrightarrow> set (ids k') \<inter> set (ids k) = {}" and "r \<in> set (ids k)"
  shows "nodes_table.free k t r"
proof (cases "map_of t r")
  case None
  then show ?thesis by (simp add: nodes_table.free_def)
next
  case (Some k')
  then have "k' \<in> set ks \<and> r \<in> set (ids k')" using assms(1) by (simp add: table_exact_def)
  then show ?thesis using assms(2) [of k'] assms(3) by blast
qed

definition owners_exact :: "string list \<Rightarrow> gateway \<Rightarrow> bool" where
  "owners_exact ks g \<longleftrightarrow>
     table_exact (ids_of node_ids g) ks (gw_controlNodeOwners g) \<and>
     table_exact (ids_of runtime_ids g) ks (gw_runtimeNodeOwners g) \<and>
     table_exact (ids_of session_ids g) ks (gw_sessionOwners g) \<and>
     table_exact (ids_of interaction_ids g) ks (gw_interactionOwners g)"

lemma claimed_snapshot [simp]: "gw_snapshot k' (claimed k n g) = gw_snapshot k' g"
  by (simp add: claimed_def gw_snapshot_def gw_source_def)

lemma claimed_ids [simp]: "ids_of ids (claimed k n g) = ids_of ids g"
  by (rule ext) (simp add: ids_of_def)

lemma claimed_exact:
  assumes "owners_exact ks g" "gw_snapshot k g = Some n" "all_free k n g"
  shows "owners_exact (ks @ [k]) (claimed k n g)"
proof -
  have ids: "ids_of ids g k = ids n" for ids using assms(2) by (simp add: ids_of_def)
  show ?thesis
    using assms(1,3) unfolding owners_exact_def all_free_def claimed_ids
    using table_exact_put [where k = k, unfolded] by (auto simp: claimed_def ids [symmetric])
qed

lemma claims_exact:
  assumes "fst (each claim_source ks g) = None" "owners_exact ls g"
  shows "owners_exact (ls @ ks) (snd (each claim_source ks g))"
  using assms
proof (induction ks arbitrary: g ls)
  case Nil
  then show ?case by simp
next
  case (Cons k ks)
  then have ok: "fst (claim_source k g) = None" "fst (each claim_source ks (snd (claim_source k g))) = None"
    by (auto simp: each_ok simp del: each.simps)
  then obtain n where n: "gw_snapshot k g = Some n" using claim_source_fails by (cases "gw_snapshot k g") auto
  from claim_source_done [OF n ok(1)] claimed_exact [OF Cons.prems(2) n]
  have "owners_exact (ls @ [k]) (snd (claim_source k g))" by simp
  from Cons.IH [OF ok(2) this] show ?case using ok(1) by (simp add: and_then_state)
qed

lemma claims_succeed:
  assumes "\<And>k. k \<in> set ks \<Longrightarrow> \<exists>n. gw_snapshot k g = Some n \<and> snapshot_rooted n"
    and "\<And>ids k k'. ids \<in> {node_ids, runtime_ids, session_ids, interaction_ids} \<Longrightarrow> k \<in> set (ls @ ks) \<Longrightarrow> k' \<in> set ks \<Longrightarrow> k \<noteq> k' \<Longrightarrow>
      set (ids_of ids g k) \<inter> set (ids_of ids g k') = {}"
    and "owners_exact ls g" "distinct ks" "set ls \<inter> set ks = {}"
  shows "fst (each claim_source ks g) = None"
  using assms
proof (induction ks arbitrary: g ls)
  case Nil
  then show ?case by simp
next
  case (Cons k ks)
  from Cons.prems(1) [of k] obtain n where n: "gw_snapshot k g = Some n" "snapshot_rooted n" by auto
  have ids: "ids_of ids g k = ids n" for ids using n(1) by (simp add: ids_of_def)
  have disj: "set (ids_of ids g k') \<inter> set (ids_of ids g k) = {}"
    if "ids \<in> {node_ids, runtime_ids, session_ids, interaction_ids}" "k' \<in> set ls" for ids k'
    using Cons.prems(2) [OF that(1), of k' k] Cons.prems(5) that(2) by auto
  have fr: "all_free k n g"
    unfolding all_free_def ids [symmetric]
    using table_exact_free [where k = k and ids = "ids_of ids g" and ks = ls for ids] disj Cons.prems(3)
    by (auto simp: owners_exact_def)
  have ok: "fst (claim_source k g) = None" using claim_source_succeeds n fr by blast
  then have st: "snd (claim_source k g) = claimed k n g" using claim_source_done n(1) by blast
  have "fst (each claim_source ks (claimed k n g)) = None"
  proof (rule Cons.IH)
    show "owners_exact (ls @ [k]) (claimed k n g)" by (rule claimed_exact [OF Cons.prems(3) n(1) fr])
    show "\<exists>n'. gw_snapshot k' (claimed k n g) = Some n' \<and> snapshot_rooted n'" if "k' \<in> set ks" for k'
      using Cons.prems(1) that by simp
    show "set (ids_of ids (claimed k n g) a) \<inter> set (ids_of ids (claimed k n g) b) = {}"
      if "ids \<in> {node_ids, runtime_ids, session_ids, interaction_ids}" "a \<in> set ((ls @ [k]) @ ks)" "b \<in> set ks" "a \<noteq> b" for ids a b
      using Cons.prems(2) [OF that(1), of a b] that(2-) unfolding claimed_ids by simp
  qed (use Cons.prems(4,5) in auto)
  with ok st show ?case by (simp add: and_then_ok)
qed

end
