(* ===== verification/Gateway_Choice.thy ===== *)
theory Gateway_Choice
  imports Gateway_Owners
begin

text \<open>
  The selected sources: they cover disjoint parts of the topology and share no record, so rebuilding the
  owner tables never fails; a source that is not shown is in conflict or suppressed by a selected one.
\<close>

subsection \<open>What a step leaves alone\<close>

lemma put_source_selected [simp]: "gw_selected (put_source k f g) = gw_selected g"
  by (simp add: put_source_def split: option.splits)

lemma put_source_snapshot:
  assumes "\<And>s. ss_snapshot (f s) = ss_snapshot s"
  shows "gw_snapshot k' (put_source k f g) = gw_snapshot k' g"
  using assms by (auto simp: put_source_def gw_snapshot_def gw_source_def split: option.splits)

lemma rotateFeed_frame [simp]:
  "gw_sources (rotateFeed lc fresh g) = gw_sources g" "gw_selected (rotateFeed lc fresh g) = gw_selected g"
  "gw_controlNodeOwners (rotateFeed lc fresh g) = gw_controlNodeOwners g"
  "gw_runtimeNodeOwners (rotateFeed lc fresh g) = gw_runtimeNodeOwners g"
  "gw_sessionOwners (rotateFeed lc fresh g) = gw_sessionOwners g"
  "gw_interactionOwners (rotateFeed lc fresh g) = gw_interactionOwners g"
  by (simp_all add: rotateFeed_def gw_broadcast_def Let_def)

lemma broadcastDiagnostics_frame [simp]:
  "gw_sources (broadcastDiagnostics lc g) = gw_sources g" "gw_selected (broadcastDiagnostics lc g) = gw_selected g"
  "gw_controlNodeOwners (broadcastDiagnostics lc g) = gw_controlNodeOwners g"
  "gw_runtimeNodeOwners (broadcastDiagnostics lc g) = gw_runtimeNodeOwners g"
  "gw_sessionOwners (broadcastDiagnostics lc g) = gw_sessionOwners g"
  "gw_interactionOwners (broadcastDiagnostics lc g) = gw_interactionOwners g"
  "gw_subscribers (broadcastDiagnostics lc g) = gw_subscribers g" "gw_feedId (broadcastDiagnostics lc g) = gw_feedId g"
  "gw_controlCursor (broadcastDiagnostics lc g) = gw_controlCursor g" "gw_journal (broadcastDiagnostics lc g) = gw_journal g"
  by (simp_all add: broadcastDiagnostics_def)

lemma settle_owners_frame [simp]:
  "gw_sources (fenceTerminalRoutes (forget_unowned g)) = gw_sources g"
  "gw_selected (fenceTerminalRoutes (forget_unowned g)) = gw_selected g"
  "gw_controlNodeOwners (fenceTerminalRoutes (forget_unowned g)) = gw_controlNodeOwners g"
  "gw_runtimeNodeOwners (fenceTerminalRoutes (forget_unowned g)) = gw_runtimeNodeOwners g"
  "gw_sessionOwners (fenceTerminalRoutes (forget_unowned g)) = gw_sessionOwners g"
  "gw_interactionOwners (fenceTerminalRoutes (forget_unowned g)) = gw_interactionOwners g"
  by (simp_all add: fenceTerminalRoutes_def forget_unowned_def)

definition only_owners :: "gateway \<Rightarrow> gateway \<Rightarrow> bool" where
  "only_owners g g' \<longleftrightarrow> gw_sources g' = gw_sources g \<and> gw_selected g' = gw_selected g \<and> gw_subscribers g' = gw_subscribers g \<and>
     gw_feedId g' = gw_feedId g \<and> gw_controlCursor g' = gw_controlCursor g \<and> gw_journal g' = gw_journal g"

lemma only_owners_trans: "only_owners g g' \<Longrightarrow> only_owners g' g'' \<Longrightarrow> only_owners g g''"
  by (simp add: only_owners_def)

lemma and_then_only_owners:
  "(\<And>g. only_owners g (snd (f g))) \<Longrightarrow> (\<And>g. only_owners g (snd (h g))) \<Longrightarrow> only_owners g (snd (and_then f h g))"
  by (auto simp: and_then_def split: prod.splits option.splits) (metis only_owners_trans snd_conv)+

lemma each_only_owners: "(\<And>x g. only_owners g (snd (f x g))) \<Longrightarrow> only_owners g (snd (each f xs g))"
proof (induction xs arbitrary: g)
  case Nil
  then show ?case by (simp add: only_owners_def)
next
  case (Cons x xs)
  then show ?case unfolding each.simps by (intro and_then_only_owners) auto
qed

lemma claim_only_owners:
  "only_owners g (snd (claim_node k r g))" "only_owners g (snd (claim_runtime k rt g))"
  "only_owners g (snd (claim_session k s g))" "only_owners g (snd (claim_interaction k i g))"
  by (auto simp: claim_node_def claim_runtime_def claim_session_def claim_interaction_def claim_def require_def
      and_then_def only_owners_def split: option.splits prod.splits)

lemma claim_source_only_owners: "only_owners g (snd (claim_source k g))"
proof (cases "gw_snapshot k g")
  case None
  then show ?thesis by (simp add: claim_source_def only_owners_def)
next
  case (Some n)
  have "only_owners g (snd (and_then (each (claim_node k) (sm_covered (as_manifest n)))
          (and_then (each (claim_runtime k) (as_runtimeNodes n))
          (and_then (each (claim_session k) (as_sessions n))
            (each (claim_interaction k) (as_interactions n)))) g))"
    by (intro and_then_only_owners each_only_owners claim_only_owners)
  then show ?thesis by (simp add: claim_source_def Some)
qed

lemma settle_owners_only: "only_owners g (fenceTerminalRoutes (forget_unowned g))"
  by (simp add: only_owners_def fenceTerminalRoutes_def forget_unowned_def)

lemma rebuildOwners_only_owners: "only_owners g (snd (rebuildOwners g))"
  unfolding rebuildOwners_def
  by (intro and_then_only_owners each_only_owners claim_source_only_owners)
    (simp_all add: only_owners_def fenceTerminalRoutes_def forget_unowned_def)

lemma rebuildOwners_exact:
  assumes ok: "fst (rebuildOwners g) = None"
  shows "owners_exact (gw_selected g) (snd (rebuildOwners g))"
proof -
  let ?c = "g\<lparr>gw_controlNodeOwners := [], gw_runtimeNodeOwners := [], gw_sessionOwners := [], gw_interactionOwners := []\<rparr>"
  have ok': "fst (each claim_source (gw_selected g) ?c) = None"
    using ok by (simp add: rebuildOwners_def and_then_ok)
  have "owners_exact ([] @ gw_selected g) (snd (each claim_source (gw_selected g) ?c))"
    by (rule claims_exact [OF ok']) (simp add: owners_exact_def)
  moreover have "snd (rebuildOwners g) = fenceTerminalRoutes (forget_unowned (snd (each claim_source (gw_selected g) ?c)))"
    using ok' by (simp add: rebuildOwners_def and_then_ok and_then_state)
  ultimately show ?thesis
    by (simp add: owners_exact_def ids_of_def [abs_def] gw_snapshot_def gw_source_def)
qed

subsection \<open>Comparing two sources\<close>

definition covers :: "candidate \<Rightarrow> string set" where
  "covers c = set (sm_covered (cand_manifest c))"

lemma coverageRelation_disjoint:
  "coverageRelation l r = Disjoint \<longleftrightarrow> set (sm_covered l) \<inter> set (sm_covered r) = {}"
  by (auto simp: coverageRelation_def Let_def list_ex_iff list_all_iff)

lemma coverageRelation_nested:
  "coverageRelation l r \<noteq> Disjoint \<Longrightarrow> coverageRelation l r \<noteq> Partial \<Longrightarrow>
    set (sm_covered l) \<subseteq> set (sm_covered r) \<or> set (sm_covered r) \<subseteq> set (sm_covered l)"
  by (auto simp: coverageRelation_def Let_def list_ex_iff list_all_iff split: if_splits)

text \<open>IDs are UUIDs; what matters is that they have no zero byte.\<close>

definition plain_authority :: "authority_ref \<Rightarrow> bool" where
  "plain_authority a \<longleftrightarrow> CHR 0x00 \<notin> set (au_realmId a) \<and> CHR 0x00 \<notin> set (au_controlNodeId a)"

lemma split_at_separator:
  "x @ [c] @ y = x' @ [c] @ y' \<Longrightarrow> c \<notin> set x \<Longrightarrow> c \<notin> set x' \<Longrightarrow> x = x' \<and> y = y'"
proof (induction x arbitrary: x')
  case Nil
  then show ?case by (cases x') auto
next
  case (Cons a x)
  then show ?case by (cases x') auto
qed

lemma authorityKey_inject:
  assumes "plain_authority a" "plain_authority b" "authorityKey a = authorityKey b"
  shows "sameAuthority a b"
proof -
  have realm: "au_realmId a = au_realmId b \<and>
      au_controlNodeId a @ [CHR 0x00] @ au_epochId a = au_controlNodeId b @ [CHR 0x00] @ au_epochId b"
    by (rule split_at_separator [OF assms(3) [unfolded authorityKey_def]]) (use assms in \<open>simp_all add: plain_authority_def\<close>)
  then have "au_controlNodeId a = au_controlNodeId b \<and> au_epochId a = au_epochId b"
    by (intro split_at_separator [OF conjunct2 [OF realm]]) (use assms in \<open>simp_all add: plain_authority_def\<close>)
  with realm show ?thesis by (simp add: sameAuthority_def)
qed

subsection \<open>Conflict-free pairs\<close>

lemma pairs_members: "(x, y) \<in> set (pairs xs) \<Longrightarrow> x \<in> set xs \<and> y \<in> set xs"
  by (induction xs) auto

lemma pairs_filter: "(x, y) \<in> set (pairs xs) \<Longrightarrow> P x \<Longrightarrow> P y \<Longrightarrow> (x, y) \<in> set (pairs (filter P xs))"
  by (induction xs) auto

lemma pairs_either: "x \<in> set xs \<Longrightarrow> y \<in> set xs \<Longrightarrow> x \<noteq> y \<Longrightarrow> (x, y) \<in> set (pairs xs) \<or> (y, x) \<in> set (pairs xs)"
  by (induction xs) auto

definition accused :: "verdicts \<Rightarrow> candidate \<Rightarrow> bool" where
  "accused vs c \<longleftrightarrow> fst c \<in> fst ` set vs"

lemma accused_append [simp]: "accused (vs @ ws) c \<longleftrightarrow> accused vs c \<or> accused ws c"
  by (auto simp: accused_def)

lemma accused_concat: "accused (concat vss) c \<longleftrightarrow> (\<exists>vs \<in> set vss. accused vs c)"
  by (auto simp: accused_def)

lemma accused_both [simp]: "accused (both l r why) l" "accused (both l r why) r"
  by (simp_all add: both_def accused_def)

definition agree :: "collation \<Rightarrow> candidate \<Rightarrow> candidate \<Rightarrow> bool" where
  "agree lc c d \<longleftrightarrow>
     (if covers c \<inter> covers d = {} then sharedDomainIdentityConflict (snd (snd c)) (snd (snd d)) = None
      else realm_of c = realm_of d \<and> fence_of c = fence_of d \<and> (covers c \<subseteq> covers d \<or> covers d \<subseteq> covers c) \<and>
        overlappingRecordConflict lc (snd (snd c)) (snd (snd d)) = None)"

lemma pair_agrees:
  assumes pair: "(c, d) \<in> set (pairs cs)" and clear: "\<not> accused (all_verdicts lc lost cs) c"
  shows "agree lc c d"
proof -
  have members: "c \<in> set cs" "d \<in> set cs" using pairs_members [OF pair] by auto
  have ident: "\<not> accused (identity_verdicts (c, d)) c"
    using clear pair by (auto simp: all_verdicts_def Let_def accused_concat)
  let ?grp = "filter (\<lambda>x. realm_of x = realm_of c) cs"
  have realm: "\<not> accused (realm_verdicts lc ?grp) c"
    using clear members(1) by (auto simp: all_verdicts_def Let_def accused_concat by_realm_def)
  show ?thesis
  proof (cases "covers c \<inter> covers d = {}")
    case True
    then have "coverageRelation (cand_manifest c) (cand_manifest d) = Disjoint"
      by (simp add: coverageRelation_disjoint covers_def)
    with ident True show ?thesis
      by (auto simp: identity_verdicts_def agree_def split: option.splits)
  next
    case False
    then have rel: "coverageRelation (cand_manifest c) (cand_manifest d) \<noteq> Disjoint"
      by (simp add: coverageRelation_disjoint covers_def)
    with ident have same: "realm_of c = realm_of d"
      by (auto simp: identity_verdicts_def split: if_splits)
    have grp: "(c, d) \<in> set (pairs ?grp)" using pairs_filter [OF pair] same by simp
    have one: "\<not> list_ex (\<lambda>x. fence_of x \<noteq> fence_of (hd ?grp)) ?grp"
      using realm members(1) by (force simp: realm_verdicts_def accused_def)
    then have "\<forall>x \<in> set ?grp. fence_of x = fence_of (hd ?grp)" by (simp add: list_ex_iff)
    moreover have "c \<in> set ?grp" "d \<in> set ?grp" using pairs_members [OF grp] by auto
    ultimately have fence: "fence_of c = fence_of d" by metis
    have "realm_verdicts lc ?grp = concat (map (overlap_verdicts lc) (pairs ?grp))"
      unfolding realm_verdicts_def using one by (simp only: if_False)
    with realm grp have ov: "\<not> accused (overlap_verdicts lc (c, d)) c"
      by (auto simp only: accused_concat set_map image_iff Bex_def simp_thms)
    have "coverageRelation (cand_manifest c) (cand_manifest d) \<noteq> Partial"
      and "overlappingRecordConflict lc (snd (snd c)) (snd (snd d)) = None"
      using ov rel by (auto simp: overlap_verdicts_def split: coverage_relation.splits option.splits)
    with False same fence coverageRelation_nested [OF rel] show ?thesis
      by (auto simp: agree_def covers_def)
  qed
qed

subsection \<open>The greedy choice\<close>

text \<open>What \<open>select_one\<close> leaves in \<open>gw_selected\<close>.\<close>

fun pick :: "candidate list \<Rightarrow> candidate list \<Rightarrow> candidate list" where
  "pick acc [] = acc"
| "pick acc (c # cs) = pick (if \<exists>o' \<in> set acc. suppresses o' c then acc else acc @ [c]) cs"

lemma fst_mem_image: "inj_on fst A \<Longrightarrow> S \<subseteq> A \<Longrightarrow> c \<in> A \<Longrightarrow> fst c \<in> fst ` S \<longleftrightarrow> c \<in> S"
  by (auto simp: inj_on_def)

lemma select_one_selected:
  assumes el: "distinct (map fst el)" "set acc \<subseteq> set el" and sel: "gw_selected g = map fst acc"
  shows "gw_selected (select_one t el c g) = map fst (if \<exists>o' \<in> set acc. suppresses o' c then acc else acc @ [c])"
proof -
  have mem: "o' \<in> set el \<Longrightarrow> fst o' \<in> set (gw_selected g) \<longleftrightarrow> o' \<in> set acc" for o'
    using fst_mem_image [of "set el" "set acc" o'] el sel by (simp add: distinct_map)
  show ?thesis
  proof (cases "\<exists>o' \<in> set acc. suppresses o' c")
    case True
    then obtain o' where "find (\<lambda>o'. fst o' \<in> set (gw_selected g) \<and> suppresses o' c) el = Some o'"
      using mem el(2) by (cases "find (\<lambda>o'. fst o' \<in> set (gw_selected g) \<and> suppresses o' c) el")
        (auto simp: find_None_iff)
    with True sel show ?thesis by (simp add: select_one_def)
  next
    case False
    then have "find (\<lambda>o'. fst o' \<in> set (gw_selected g) \<and> suppresses o' c) el = None"
      using mem by (auto simp: find_None_iff)
    with False sel show ?thesis by (simp add: select_one_def)
  qed
qed

lemma select_fold_selected:
  assumes "distinct (map fst el)" "set acc \<subseteq> set el" "set xs \<subseteq> set el" "gw_selected g = map fst acc"
  shows "gw_selected (fold (select_one t el) xs g) = map fst (pick acc xs)"
  using assms
proof (induction xs arbitrary: acc g)
  case Nil
  then show ?case by simp
next
  case (Cons c xs)
  show ?case
    using Cons.IH [OF Cons.prems(1) _ _ select_one_selected [OF Cons.prems(1,2,4), where c = c and t = t]] Cons.prems(2,3)
    by auto
qed

lemma pick_members: "set acc \<subseteq> set (pick acc cs) \<and> set (pick acc cs) \<subseteq> set acc \<union> set cs"
proof (induction cs arbitrary: acc)
  case (Cons d cs)
  show ?case using Cons.IH [of acc] Cons.IH [of "acc @ [d]"] by auto
qed simp

lemma pick_sorted: "sorted_wrt R (acc @ cs) \<Longrightarrow> sorted_wrt R (pick acc cs)"
  by (induction cs arbitrary: acc) (auto simp: sorted_wrt_append)

lemma pick_unsuppressed:
  "sorted_wrt (\<lambda>a b. \<not> suppresses a b) acc \<Longrightarrow> sorted_wrt (\<lambda>a b. \<not> suppresses a b) (pick acc cs)"
  by (induction cs arbitrary: acc) (auto simp: sorted_wrt_append)

lemma pick_complete: "c \<in> set cs \<Longrightarrow> c \<in> set (pick acc cs) \<or> (\<exists>o' \<in> set (pick acc cs). suppresses o' c)"
proof (induction cs arbitrary: acc)
  case Nil
  then show ?case by simp
next
  case (Cons d cs)
  let ?acc = "if \<exists>o' \<in> set acc. suppresses o' d then acc else acc @ [d]"
  show ?case
  proof (cases "c = d")
    case True
    then show ?thesis using pick_members [of ?acc cs] by (auto split: if_splits)
  next
    case False
    with Cons show ?thesis by simp
  qed
qed

lemma sorted_insort_by:
  assumes "sorted_wrt R xs" and "\<And>b. le x b \<Longrightarrow> R x b" "\<And>b. \<not> le x b \<Longrightarrow> R b x" and "transp R"
  shows "sorted_wrt R (insort_le le x xs)"
  using assms(1)
proof (induction xs)
  case Nil
  then show ?case by simp
next
  case (Cons y ys)
  then show ?case using assms(2,3) transpD [OF assms(4)] by auto blast
qed

lemma sorted_sort_by:
  assumes "\<And>a b. le a b \<Longrightarrow> R a b" "\<And>a b. \<not> le a b \<Longrightarrow> R b a" and "transp R"
  shows "sorted_wrt R (sort_le le xs)"
  unfolding sort_le_def
  by (induction xs) (auto intro: sorted_insort_by assms)

subsection \<open>The chosen sources\<close>

definition offers :: "gateway \<Rightarrow> candidate list" where
  "offers g = candidates (gw_sources (reset_selection g))"

lemma select_one_snapshot [simp]: "gw_snapshot k (select_one t el c g) = gw_snapshot k g"
proof -
  have "gw_snapshot k (h\<lparr>gw_selected := ks\<rparr>) = gw_snapshot k h" for h ks
    by (simp add: gw_snapshot_def gw_source_def)
  then show ?thesis by (auto simp: select_one_def put_source_snapshot split: option.splits)
qed

lemma apply_verdicts_frame [simp]:
  "gw_snapshot k (apply_verdicts t vs g) = gw_snapshot k g" "gw_selected (apply_verdicts t vs g) = gw_selected g"
  unfolding apply_verdicts_def
  by (induction vs arbitrary: g) (auto simp: put_source_snapshot in_conflict_def)

lemma map_of_refreshed: "map_of (map (\<lambda>(k, s). (k, f s)) t) k = map_option f (map_of t k)"
  by (induction t) auto

lemma refreshed_snapshot [simp]: "ss_snapshot (refreshed_state s) = ss_snapshot s"
  by (simp add: refreshed_state_def Let_def)

lemma reset_selection_frame [simp]:
  "gw_snapshot k (reset_selection g) = gw_snapshot k g" "gw_selected (reset_selection g) = []"
  by (cases "map_of (gw_sources g) k")
    (simp_all add: reset_selection_def gw_snapshot_def gw_source_def map_of_refreshed)

lemma choose_snapshot [simp]: "gw_snapshot k (choose_sources lc t lost g) = gw_snapshot k g"
proof -
  have "gw_snapshot k (fold (select_one t el) xs h) = gw_snapshot k h" for el xs h
    by (induction xs arbitrary: h) auto
  then show ?thesis by (simp add: choose_sources_def Let_def)
qed

lemma candidates_simps [simp]:
  "candidates [] = []"
  "candidates ((k, s) # ss) = (case ss_snapshot s of
     None \<Rightarrow> candidates ss
   | Some n \<Rightarrow> if ss_state s \<noteq> UnavailableSource \<and> ss_state s \<noteq> Disabled then (k, s, n) # candidates ss else candidates ss)"
  by (simp_all add: candidates_def List.map_filter_simps split: option.splits)

lemma candidates_member:
  "c \<in> set (candidates ss) \<Longrightarrow> (fst c, fst (snd c)) \<in> set ss \<and> ss_snapshot (fst (snd c)) = Some (snd (snd c))"
  by (induction ss) (auto split: option.splits if_splits)

lemma candidates_keys: "keys_ok ss \<Longrightarrow> distinct (map fst (candidates ss))"
proof (induction ss)
  case Nil
  then show ?case by simp
next
  case (Cons p ss)
  obtain k s where p: "p = (k, s)" by (cases p)
  have "k \<notin> fst ` set (candidates ss)"
    using Cons.prems candidates_member [of _ ss] by (force simp: p keys_ok_def)
  then show ?case
    using Cons by (auto simp: p keys_ok_def split: option.splits)
qed

lemma keys_ok_reset [simp]: "keys_ok (gw_sources (reset_selection g)) = keys_ok (gw_sources g)"
  by (simp add: keys_ok_def reset_selection_def comp_def case_prod_unfold)

lemma offers_facts:
  assumes "keys_ok (gw_sources g)"
  shows "distinct (map fst (offers g))" and "c \<in> set (offers g) \<Longrightarrow> gw_snapshot (fst c) g = Some (snd (snd c))"
proof -
  show "distinct (map fst (offers g))" using candidates_keys assms by (simp add: offers_def)
  assume "c \<in> set (offers g)"
  then have mem: "(fst c, fst (snd c)) \<in> set (gw_sources (reset_selection g))" "ss_snapshot (fst (snd c)) = Some (snd (snd c))"
    using candidates_member by (auto simp: offers_def)
  have "distinct (map fst (gw_sources (reset_selection g)))" using assms keys_ok_reset [of g] by (simp add: keys_ok_def)
  from map_of_is_SomeI [OF this mem(1)] mem(2) have "gw_snapshot (fst c) (reset_selection g) = Some (snd (snd c))"
    by (simp add: gw_snapshot_def gw_source_def)
  then show "gw_snapshot (fst c) g = Some (snd (snd c))" by simp
qed

lemma eligible_members: "c \<in> set (eligible lc lost cs) \<longleftrightarrow> c \<in> set cs \<and> \<not> accused (all_verdicts lc lost cs) c"
  by (auto simp: eligible_def Let_def accused_def)

lemma eligible_distinct: "distinct (map fst cs) \<Longrightarrow> distinct (map fst (eligible lc lost cs))"
  by (auto simp: eligible_def Let_def distinct_map distinct_filter intro: inj_on_subset)

lemma choose_selected:
  assumes "keys_ok (gw_sources g)"
  shows "gw_selected (choose_sources lc t lost g) = map fst (pick [] (eligible lc lost (offers g)))"
proof -
  let ?el = "eligible lc lost (offers g)"
  have "distinct (map fst ?el)" using eligible_distinct offers_facts(1) [OF assms] by blast
  then have "gw_selected (fold (select_one t ?el) ?el (apply_verdicts t (all_verdicts lc lost (offers g)) (reset_selection g))) =
      map fst (pick [] ?el)"
    by (intro select_fold_selected) simp_all
  then show ?thesis by (simp add: choose_sources_def offers_def Let_def)
qed

lemma or_else_None [simp]: "or_else a b = None \<longleftrightarrow> a = None \<and> b = None"
  by (simp add: or_else_def split: option.splits)

lemma shared_id_None [simp]: "shared_id what a b = None \<longleftrightarrow> set a \<inter> set b = {}"
  by (auto simp: shared_id_def find_None_iff)

definition apart :: "access_snapshot \<Rightarrow> access_snapshot \<Rightarrow> bool" where
  "apart m n \<longleftrightarrow> set (node_ids m) \<inter> set (node_ids n) = {} \<and> set (runtime_ids m) \<inter> set (runtime_ids n) = {} \<and>
     set (session_ids m) \<inter> set (session_ids n) = {} \<and> set (interaction_ids m) \<inter> set (interaction_ids n) = {}"

lemma apart_sym: "apart m n \<Longrightarrow> apart n m"
  by (auto simp: apart_def)

lemma agree_apart: "agree lc c d \<Longrightarrow> covers c \<inter> covers d = {} \<Longrightarrow> apart (snd (snd c)) (snd (snd d))"
  by (auto simp: agree_def apart_def sharedDomainIdentityConflict_def id_defs covers_def cand_manifest_def)

lemma agree_outcome:
  "agree lc c d \<Longrightarrow> apart (snd (snd c)) (snd (snd d)) \<or>
    fence_of c = fence_of d \<and> (covers c \<subseteq> covers d \<or> covers d \<subseteq> covers c)"
  using agree_apart [of lc c d] by (cases "covers c \<inter> covers d = {}") (auto simp: agree_def)

text \<open>What selection relies on: the IDs of a source's manifest are well formed and its records are rooted in it.\<close>

definition offer_ok :: "access_snapshot \<Rightarrow> bool" where
  "offer_ok n \<longleftrightarrow> distinct (node_ids n) \<and> snapshot_rooted n \<and> plain_authority (sm_authority (as_manifest n))"

lemma distinct_pairwise: "distinct xs \<longleftrightarrow> sorted_wrt (\<noteq>) xs"
  by (induction xs) auto

lemma sorted_wrt_conj: "sorted_wrt P xs \<Longrightarrow> sorted_wrt Q xs \<Longrightarrow> sorted_wrt (\<lambda>a b. P a b \<and> Q a b) xs"
  by (induction xs) auto

lemma pick_subset: "set (pick [] cs) \<subseteq> set cs"
  using pick_members [of "[]" cs] by simp

lemma smaller_is_suppressed:
  assumes "covers c \<subseteq> covers d \<or> covers d \<subseteq> covers c" "distinct (sm_covered (cand_manifest c))" "distinct (sm_covered (cand_manifest d))"
    and "length (sm_covered (cand_manifest d)) \<le> length (sm_covered (cand_manifest c))"
  shows "isSuperset (sm_covered (cand_manifest c)) (sm_covered (cand_manifest d))"
proof -
  have "card (covers d) \<le> card (covers c)" using assms(2-4) by (simp add: covers_def distinct_card)
  with assms(1) have "covers d \<subseteq> covers c"
    by (metis card_seteq covers_def finite_set)
  then show ?thesis by (auto simp: isSuperset_def covers_def list_all_iff)
qed

lemma eligible_apart:
  assumes keys: "keys_ok (gw_sources g)" and ok: "\<And>c. c \<in> set (offers g) \<Longrightarrow> offer_ok (snd (snd c))"
  shows "sorted_wrt (\<lambda>c d. apart (snd (snd c)) (snd (snd d))) (pick [] (eligible lc lost (offers g)))"
proof -
  let ?el = "eligible lc lost (offers g)" and ?len = "\<lambda>c. length (sm_covered (cand_manifest c))"
  define n where "n = (\<lambda>c :: candidate. case ss_snapshot (fst (snd c)) of None \<Rightarrow> 0 | Some m \<Rightarrow> length (sm_covered (as_manifest m)))"
  have n: "n c = ?len c" if "c \<in> set (offers g)" for c
    using candidates_member [of c] that by (simp add: offers_def n_def cand_manifest_def)
  have "sorted_wrt (\<lambda>c d. n d \<le> n c) ?el"
    unfolding eligible_def Let_def
    by (rule sorted_sort_by)
      (auto simp: compareSources_def n_def Let_def transp_def split: option.splits if_splits)
  then have "sorted_wrt (\<lambda>c d. n d \<le> n c) (pick [] ?el)" by (intro pick_sorted) simp
  moreover have "sorted_wrt (\<lambda>a b. \<not> suppresses a b) (pick [] ?el)" by (rule pick_unsuppressed) simp
  moreover have "sorted_wrt (\<lambda>a b. fst a \<noteq> fst b) (pick [] ?el)"
    using eligible_distinct [OF offers_facts(1) [OF keys], of lc lost]
    by (intro pick_sorted) (simp add: distinct_pairwise sorted_wrt_map)
  ultimately have "sorted_wrt (\<lambda>c d. n d \<le> n c \<and> \<not> suppresses c d \<and> fst c \<noteq> fst d) (pick [] ?el)"
    by (intro sorted_wrt_conj)
  then show ?thesis
  proof (rule sorted_wrt_mono_rel [rotated])
    fix c d assume mem: "c \<in> set (pick [] ?el)" "d \<in> set (pick [] ?el)"
      and rel: "n d \<le> n c \<and> \<not> suppresses c d \<and> fst c \<noteq> fst d"
    from mem have el: "c \<in> set ?el" "d \<in> set ?el" using pick_subset by blast+
    then have off: "c \<in> set (offers g)" "d \<in> set (offers g)"
      and clear: "\<not> accused (all_verdicts lc lost (offers g)) c" "\<not> accused (all_verdicts lc lost (offers g)) d"
      by (auto simp: eligible_members)
    have good: "offer_ok (snd (snd c))" "offer_ok (snd (snd d))" using ok off by blast+
    from rel have "c \<noteq> d" by auto
    with off have "agree lc c d \<or> agree lc d c" using pairs_either [OF off] pair_agrees clear by metis
    then have "apart (snd (snd c)) (snd (snd d)) \<or>
        fence_of c = fence_of d \<and> (covers c \<subseteq> covers d \<or> covers d \<subseteq> covers c)"
      using agree_outcome [of lc c d] agree_outcome [of lc d c] apart_sym by auto
    moreover have "suppresses c d"
      if "fence_of c = fence_of d" and nest: "covers c \<subseteq> covers d \<or> covers d \<subseteq> covers c"
    proof -
      have "sameAuthority (sm_authority (cand_manifest c)) (sm_authority (cand_manifest d))"
        using that(1) good by (intro authorityKey_inject) (simp_all add: fence_of_def offer_ok_def cand_manifest_def)
      moreover have "isSuperset (sm_covered (cand_manifest c)) (sm_covered (cand_manifest d))"
        using good rel n [OF off(1)] n [OF off(2)]
        by (intro smaller_is_suppressed [OF nest]) (simp_all add: offer_ok_def node_ids_def cand_manifest_def)
      ultimately show ?thesis using rel by (simp add: suppresses_def)
    qed
    ultimately show "apart (snd (snd c)) (snd (snd d))" using rel by blast
  qed
qed

subsection \<open>Rebuilding the owners of the chosen sources\<close>

lemma rebuildOwners_succeeds:
  assumes snaps: "\<And>k. k \<in> set (gw_selected g) \<Longrightarrow> \<exists>n. gw_snapshot k g = Some n \<and> snapshot_rooted n"
    and apart: "\<And>j k m n. j \<in> set (gw_selected g) \<Longrightarrow> k \<in> set (gw_selected g) \<Longrightarrow> j \<noteq> k \<Longrightarrow>
      gw_snapshot j g = Some m \<Longrightarrow> gw_snapshot k g = Some n \<Longrightarrow> apart m n"
    and "distinct (gw_selected g)"
  shows "fst (rebuildOwners g) = None"
proof -
  let ?c = "g\<lparr>gw_controlNodeOwners := [], gw_runtimeNodeOwners := [], gw_sessionOwners := [], gw_interactionOwners := []\<rparr>"
  have snap: "gw_snapshot k ?c = gw_snapshot k g" for k by (simp add: gw_snapshot_def gw_source_def)
  have "fst (each claim_source (gw_selected g) ?c) = None"
  proof (rule claims_succeed [where ls = "[]"])
    show "set (ids_of ids ?c j) \<inter> set (ids_of ids ?c k) = {}"
      if ids: "ids \<in> {node_ids, runtime_ids, session_ids, interaction_ids}"
        and mem: "j \<in> set ([] @ gw_selected g)" "k \<in> set (gw_selected g)" "j \<noteq> k" for ids j k
    proof -
      obtain m n where mn: "gw_snapshot j g = Some m" "gw_snapshot k g = Some n" using snaps mem by fastforce
      with apart [of j k m n] mem have "apart m n" by simp
      with ids mn show ?thesis by (auto simp: ids_of_def snap apart_def)
    qed
  qed (use assms in \<open>auto simp: snap owners_exact_def\<close>)
  then show ?thesis by (simp add: rebuildOwners_def and_then_ok)
qed

lemma chosen_apart:
  assumes keys: "keys_ok (gw_sources g)" and ok: "\<And>c. c \<in> set (offers g) \<Longrightarrow> offer_ok (snd (snd c))"
    and mem: "j \<in> set (gw_selected (choose_sources lc t lost g))" "k \<in> set (gw_selected (choose_sources lc t lost g))" "j \<noteq> k"
    and snap: "gw_snapshot j g = Some m" "gw_snapshot k g = Some n"
  shows "apart m n"
proof -
  let ?ps = "pick [] (eligible lc lost (offers g))"
  have sel: "gw_selected (choose_sources lc t lost g) = map fst ?ps" by (rule choose_selected [OF keys])
  from mem obtain a b where ab: "a < length ?ps" "b < length ?ps" "j = fst (?ps ! a)" "k = fst (?ps ! b)"
    unfolding sel by (auto simp: in_set_conv_nth)
  have off: "?ps ! a \<in> set (offers g)" "?ps ! b \<in> set (offers g)"
    using ab pick_subset [of "eligible lc lost (offers g)"] eligible_members nth_mem by blast+
  have eq: "m = snd (snd (?ps ! a))" "n = snd (snd (?ps ! b))"
    using offers_facts(2) [OF keys off(1)] offers_facts(2) [OF keys off(2)] snap ab by auto
  from ab mem(3) have "a \<noteq> b" by auto
  have srt: "sorted_wrt (\<lambda>c d. apart (snd (snd c)) (snd (snd d))) ?ps" by (rule eligible_apart [OF keys]) (rule ok)
  from \<open>a \<noteq> b\<close> consider "a < b" | "b < a" by linarith
  then show ?thesis
  proof cases
    case 1
    then show ?thesis using sorted_wrt_nth_less [OF srt 1 ab(2)] eq by simp
  next
    case 2
    then show ?thesis using sorted_wrt_nth_less [OF srt 2 ab(1)] eq apart_sym by simp
  qed
qed

lemma chosen_snapshots:
  assumes keys: "keys_ok (gw_sources g)" and k: "k \<in> set (gw_selected (choose_sources lc t lost g))"
  shows "\<exists>c \<in> set (offers g). k = fst c \<and> gw_snapshot k g = Some (snd (snd c))"
proof -
  from k obtain c where "c \<in> set (pick [] (eligible lc lost (offers g)))" "k = fst c"
    unfolding choose_selected [OF keys] by auto
  then have "c \<in> set (offers g)" using pick_subset eligible_members by blast
  from this offers_facts(2) [OF keys this] \<open>k = fst c\<close> show ?thesis by blast
qed

lemma chosen_distinct: "keys_ok (gw_sources g) \<Longrightarrow> distinct (gw_selected (choose_sources lc t lost g))"
  using pick_sorted [of "\<lambda>a b. fst a \<noteq> fst b" "[]" "eligible lc lost (offers g)"]
    eligible_distinct [OF offers_facts(1), of g lc lost]
  by (simp add: choose_selected distinct_pairwise sorted_wrt_map)

text \<open>The sources a selection can take.\<close>

definition available :: "source_state \<Rightarrow> bool" where
  "available s \<longleftrightarrow> ss_state s \<noteq> UnavailableSource \<and> sd_enabled (ss_definition s) \<noteq> Some False"

definition sources_ok :: "gateway \<Rightarrow> bool" where
  "sources_ok g \<longleftrightarrow> keys_ok (gw_sources g) \<and>
     list_all (\<lambda>(k, s). available s \<longrightarrow> (case ss_snapshot s of None \<Rightarrow> True | Some n \<Rightarrow> offer_ok n)) (gw_sources g)"

lemma gateway_snapshot_rooted:
  assumes "gateway_snapshot_ok n"
  shows "snapshot_rooted n \<and> distinct (node_ids n)"
proof -
  have a: "accessSnapshotSchema n" "sourceManifestSchema (as_manifest n)"
    using assms by (simp_all add: gateway_snapshot_ok_def)
  have "\<exists>s \<in> set (as_sessions n). se_sessionId s = ir_sessionId i" if "i \<in> set (as_interactions n)" for i
  proof -
    have "filter (\<lambda>x. se_sessionId x = ir_sessionId i) (as_sessions n) \<noteq> []"
      using a(1) that by (auto simp: accessSnapshotSchema_def snapshot_interactions_ok_def list_all_iff split: list.splits)
    then show ?thesis by (auto simp: filter_empty_conv)
  qed
  then show ?thesis
    using a by (auto simp: accessSnapshotSchema_def snapshot_rooted_def id_defs list_all_iff snapshot_sessions_ok_def
        sourceManifestSchema_def image_iff) (metis)+
qed

lemma gateway_snapshot_offer:
  "gateway_snapshot_ok n \<Longrightarrow> plain_authority (sm_authority (as_manifest n)) \<Longrightarrow> offer_ok n"
  using gateway_snapshot_rooted by (simp add: offer_ok_def)

lemma candidates_available:
  "c \<in> set (candidates ss) \<Longrightarrow> ss_state (fst (snd c)) \<noteq> UnavailableSource \<and> ss_state (fst (snd c)) \<noteq> Disabled"
  by (induction ss) (auto split: option.splits if_splits)

lemma refreshed_available:
  "ss_state (refreshed_state s) \<noteq> UnavailableSource \<Longrightarrow> ss_state (refreshed_state s) \<noteq> Disabled \<Longrightarrow> available s"
  by (auto simp: refreshed_state_def available_def Let_def split: if_splits)

lemma sources_ok_offer:
  assumes "sources_ok g" "c \<in> set (offers g)"
  shows "offer_ok (snd (snd c))"
proof -
  from assms(2) have c: "(fst c, fst (snd c)) \<in> set (gw_sources (reset_selection g))" "ss_snapshot (fst (snd c)) = Some (snd (snd c))"
    and st: "ss_state (fst (snd c)) \<noteq> UnavailableSource" "ss_state (fst (snd c)) \<noteq> Disabled"
    using candidates_member candidates_available by (auto simp: offers_def)
  then obtain s where s: "(fst c, s) \<in> set (gw_sources g)" "fst (snd c) = refreshed_state s"
    by (auto simp: reset_selection_def)
  with st have "available s" using refreshed_available by simp
  with s c(2) assms(1) show ?thesis by (force simp: sources_ok_def list_all_iff)
qed

lemma choose_sources_rebuild:
  assumes ok: "sources_ok g"
  shows "fst (rebuildOwners (choose_sources lc t lost g)) = None"
proof (rule rebuildOwners_succeeds)
  have keys: "keys_ok (gw_sources g)" using ok by (simp add: sources_ok_def)
  show "distinct (gw_selected (choose_sources lc t lost g))" by (rule chosen_distinct [OF keys])
  show "\<exists>n. gw_snapshot k (choose_sources lc t lost g) = Some n \<and> snapshot_rooted n"
    if "k \<in> set (gw_selected (choose_sources lc t lost g))" for k
    using chosen_snapshots [OF keys that] sources_ok_offer [OF ok] by (auto simp: offer_ok_def)
  show "apart m n"
    if "j \<in> set (gw_selected (choose_sources lc t lost g))" "k \<in> set (gw_selected (choose_sources lc t lost g))" "j \<noteq> k"
      "gw_snapshot j (choose_sources lc t lost g) = Some m" "gw_snapshot k (choose_sources lc t lost g) = Some n" for j k m n
    by (rule chosen_apart [OF keys sources_ok_offer [OF ok] that(1-3)]) (use that(4,5) in simp_all)
qed

lemma reselect_succeeds:
  assumes "sources_ok g"
  shows "\<exists>g'. reselect lc t fresh previous lost g = (None, g') \<and> owners_exact (gw_selected g') g'"
proof -
  let ?r = "reselect lc t fresh previous lost g" and ?o = "rebuildOwners (choose_sources lc t lost g)"
  have ok: "fst ?o = None" by (rule choose_sources_rebuild [OF assms])
  then have "fst ?r = None" by (simp add: reselect_def and_then_ok)
  moreover have "owners_exact (gw_selected (snd ?o)) (snd ?o)"
    using rebuildOwners_exact [OF ok] rebuildOwners_only_owners [of "choose_sources lc t lost g"]
    by (simp add: only_owners_def)
  then have "owners_exact (gw_selected (snd ?r)) (snd ?r)"
    using ok by (simp add: reselect_def and_then_state and_then_ok owners_exact_def ids_of_def [abs_def]
        gw_snapshot_def gw_source_def)
  ultimately show ?thesis by (cases ?r) auto
qed

subsection \<open>What becomes of an available source\<close>

lemma gw_source_put_source [simp]:
  "gw_source k (put_source j f g) = (if k = j then map_option f (gw_source k g) else gw_source k g)"
  by (auto simp: put_source_def gw_source_def split: option.splits)

lemma gw_source_selected [simp]: "gw_source k (g\<lparr>gw_selected := ks\<rparr>) = gw_source k g"
  by (simp add: gw_source_def)

lemma select_one_other: "k \<noteq> fst c \<Longrightarrow> gw_source k (select_one t el c g) = gw_source k g"
  by (simp add: select_one_def split: option.splits)

lemma select_fold_other: "k \<notin> fst ` set xs \<Longrightarrow> gw_source k (fold (select_one t el) xs g) = gw_source k g"
  by (induction xs arbitrary: g) (auto simp: select_one_other)

lemma select_fold_grows: "set (gw_selected g) \<subseteq> set (gw_selected (fold (select_one t el) xs g))"
proof (induction xs arbitrary: g)
  case (Cons c xs)
  have "set (gw_selected g) \<subseteq> set (gw_selected (select_one t el c g))"
    by (auto simp: select_one_def split: option.splits)
  with Cons [of "select_one t el c g"] show ?case by auto
qed simp

definition placed :: "candidate list \<Rightarrow> candidate \<Rightarrow> gateway \<Rightarrow> bool" where
  "placed el c g \<longleftrightarrow> (\<exists>s. gw_source (fst c) g = Some s \<and>
     (ss_state s = SelectedSource \<and> fst c \<in> set (gw_selected g) \<or>
      ss_state s = Suppressed \<and> (\<exists>o' \<in> set el. ss_selectedBy s = Some (fst o') \<and> fst o' \<in> set (gw_selected g) \<and> suppresses o' c)))"

lemma select_one_placed:
  assumes "gw_source (fst c) g = Some s"
  shows "placed el c (select_one t el c g)"
proof (cases "find (\<lambda>o'. fst o' \<in> set (gw_selected g) \<and> suppresses o' c) el")
  case None
  with assms show ?thesis by (simp add: placed_def select_one_def)
next
  case (Some o')
  then have "o' \<in> set el" "fst o' \<in> set (gw_selected g)" "suppresses o' c"
    by (auto simp: find_Some_iff in_set_conv_nth)
  with assms Some show ?thesis by (auto simp: placed_def select_one_def)
qed

lemma select_fold_placed:
  assumes "distinct (map fst xs)" "\<And>c. c \<in> set xs \<Longrightarrow> gw_source (fst c) g \<noteq> None" "c \<in> set xs"
  shows "placed el c (fold (select_one t el) xs g)"
  using assms
proof (induction xs arbitrary: g)
  case Nil
  then show ?case by simp
next
  case (Cons d xs)
  let ?g = "select_one t el d g"
  show ?case
  proof (cases "c = d")
    case True
    from Cons.prems(2) [of d] obtain s where "gw_source (fst d) g = Some s" by auto
    then have "placed el d ?g" by (rule select_one_placed)
    moreover have "gw_source (fst d) (fold (select_one t el) xs ?g) = gw_source (fst d) ?g"
      using Cons.prems(1) by (intro select_fold_other) simp
    ultimately show ?thesis
      using select_fold_grows [of ?g t el xs] unfolding True placed_def by auto
  next
    case False
    then have "c \<in> set xs" using Cons.prems(3) by simp
    moreover have "gw_source (fst e) ?g \<noteq> None" if "e \<in> set xs" for e
    proof -
      have "fst e \<noteq> fst d" using Cons.prems(1) that by (metis distinct.simps(2) image_eqI list.set_map list.simps(9))
      with Cons.prems(2) [of e] that show ?thesis by (simp add: select_one_other)
    qed
    ultimately show ?thesis using Cons.IH [of ?g] Cons.prems(1) by simp
  qed
qed

lemma in_conflict_simps [simp]: "ss_state (in_conflict t why s) = ConflictSource" "ss_reason (in_conflict t why s) = Some why"
  by (simp_all add: in_conflict_def)

definition marked :: "bool \<Rightarrow> source_state option \<Rightarrow> bool" where
  "marked b s \<longleftrightarrow> s \<noteq> None \<and> (b \<longrightarrow> ss_state (the s) = ConflictSource \<and> ss_reason (the s) \<noteq> None)"

lemma verdicts_mark:
  "marked b (gw_source k g) \<Longrightarrow> marked (b \<or> k \<in> fst ` set vs) (gw_source k (apply_verdicts t vs g))"
proof (induction vs arbitrary: g b)
  case Nil
  then show ?case by (simp add: apply_verdicts_def)
next
  case (Cons v vs)
  let ?g = "put_source (fst v) (in_conflict t (snd v)) g"
  have "marked (b \<or> k = fst v) (gw_source k ?g)"
    using Cons.prems by (auto simp: marked_def)
  from Cons.IH [OF this] show ?case by (auto simp: apply_verdicts_def case_prod_unfold disj_assoc)
qed

lemma accused_source:
  assumes "gw_source k g = Some s"
  shows "\<exists>s'. gw_source k (apply_verdicts t vs g) = Some s' \<and>
    (k \<in> fst ` set vs \<longrightarrow> ss_state s' = ConflictSource \<and> ss_reason s' \<noteq> None)"
  using verdicts_mark [of False k g vs t] assms by (auto simp: marked_def)

text \<open>A source that is offered is selected, or a selected one of the same authority covers it, or a
  conflict has been found and is named.\<close>

definition accounted :: "gateway \<Rightarrow> string \<Rightarrow> source_state \<Rightarrow> bool" where
  "accounted g k s \<longleftrightarrow>
     (case ss_state s of
        SelectedSource \<Rightarrow> k \<in> set (gw_selected g)
      | Suppressed \<Rightarrow> (\<exists>j m n. ss_selectedBy s = Some j \<and> j \<noteq> k \<and> j \<in> set (gw_selected g) \<and>
          gw_snapshot j g = Some m \<and> gw_snapshot k g = Some n \<and> set (node_ids n) \<subseteq> set (node_ids m) \<and>
          sm_authority (as_manifest m) = sm_authority (as_manifest n))
      | ConflictSource \<Rightarrow> k \<notin> set (gw_selected g) \<and> ss_reason s \<noteq> None
      | _ \<Rightarrow> False)"

lemma choose_accounts:
  assumes keys: "keys_ok (gw_sources g)" and c: "c \<in> set (offers g)"
  shows "\<exists>s'. gw_source (fst c) (choose_sources lc t lost g) = Some s' \<and> accounted (choose_sources lc t lost g) (fst c) s'"
proof -
  let ?el = "eligible lc lost (offers g)" and ?vs = "all_verdicts lc lost (offers g)" and ?h = "choose_sources lc t lost g"
  let ?a = "apply_verdicts t ?vs (reset_selection g)"
  have h: "?h = fold (select_one t ?el) ?el ?a" by (simp add: choose_sources_def offers_def Let_def)
  have src: "gw_source (fst d) (reset_selection g) \<noteq> None" if "d \<in> set (offers g)" for d
    using offers_facts(2) [OF keys that] reset_selection_frame(1) [of "fst d" g]
    by (cases "gw_source (fst d) (reset_selection g)") (simp_all add: gw_snapshot_def)
  have el: "distinct (map fst ?el)" using eligible_distinct offers_facts(1) [OF keys] by blast
  show ?thesis
  proof (cases "accused ?vs c")
    case True
    from src [OF c] obtain s where "gw_source (fst c) (reset_selection g) = Some s" by auto
    from accused_source [OF this, of t ?vs] True
    obtain s' where s': "gw_source (fst c) ?a = Some s'" "ss_state s' = ConflictSource" "ss_reason s' \<noteq> None"
      by (auto simp: accused_def)
    have "fst c \<notin> fst ` set ?el"
      using True by (force simp: eligible_members accused_def)
    moreover from this have "fst c \<notin> set (gw_selected ?h)"
      using pick_subset [of ?el] unfolding choose_selected [OF keys] by auto
    ultimately show ?thesis
      using s' select_fold_other [of "fst c" ?el t ?el ?a] by (auto simp: h [symmetric] accounted_def)
  next
    case False
    then have mem: "c \<in> set ?el" using c by (simp add: eligible_members)
    have "gw_source (fst d) ?a \<noteq> None" if "d \<in> set ?el" for d
    proof -
      from that have "d \<in> set (offers g)" by (simp add: eligible_members)
      from src [OF this] accused_source [of "fst d" "reset_selection g" _ t ?vs] show ?thesis by fastforce
    qed
    then have pl: "placed ?el c ?h" unfolding h by (intro select_fold_placed el mem)
    then obtain s where s: "gw_source (fst c) ?h = Some s"
      and "ss_state s = SelectedSource \<and> fst c \<in> set (gw_selected ?h) \<or> ss_state s = Suppressed \<and>
        (\<exists>o' \<in> set ?el. ss_selectedBy s = Some (fst o') \<and> fst o' \<in> set (gw_selected ?h) \<and> suppresses o' c)"
      by (auto simp: placed_def)
    then show ?thesis
    proof (elim disjE conjE bexE)
      assume "ss_state s = SelectedSource" "fst c \<in> set (gw_selected ?h)"
      with s show ?thesis by (simp add: accounted_def)
    next
      fix o' assume o': "ss_state s = Suppressed" "o' \<in> set ?el" "ss_selectedBy s = Some (fst o')"
        "fst o' \<in> set (gw_selected ?h)" "suppresses o' c"
      then have "o' \<in> set (offers g)" by (simp add: eligible_members)
      from offers_facts(2) [OF keys this] offers_facts(2) [OF keys c] s o' show ?thesis
        by (auto simp: accounted_def suppresses_def isSuperset_def list_all_iff cand_manifest_def node_ids_def)
    qed
  qed
qed

end
