(* ===== verification/Gateway_Delivery.thy ===== *)
theory Gateway_Delivery
  imports Gateway_Choice
begin

text \<open>
  What a subscriber of the gateway reads: from its cursor on, the control events of the projection come
  under consecutive cursors, and a change of the selected sources shows as a reset to the new feed.
\<close>

subsection \<open>A subscription as a mailbox\<close>

definition hand_over :: "access_item \<Rightarrow> gateway_subscriber \<Rightarrow> gateway_subscriber" where
  "hand_over item u = u\<lparr>gu_queue := bounded_push item (gu_queue u)\<rparr>"

definition hang_up :: "nat option \<Rightarrow> gateway_subscriber \<Rightarrow> gateway_subscriber" where
  "hang_up cause u = u\<lparr>gu_queue := bounded_close cause (gu_queue u)\<rparr>"

definition has_read :: "gateway_subscriber \<Rightarrow> access_item list" where
  "has_read u = taken (gu_queue u)"

definition hung_up :: "gateway_subscriber \<Rightarrow> bool" where
  "hung_up u \<longleftrightarrow> mq_closed (gu_queue u)"

definition to_read :: "gateway_subscriber \<Rightarrow> access_item list" where
  "to_read u = (if hung_up u then [] else gu_initial u @ mq_values (gu_queue u))"

definition subscriber_ok :: "gateway_subscriber \<Rightarrow> bool" where
  "subscriber_ok u \<longleftrightarrow> queue_ok (gu_queue u) \<and> (hung_up u \<longrightarrow> mq_values (gu_queue u) = []) \<and>
     (\<not> hung_up u \<and> gu_initial u \<noteq> [] \<longrightarrow> mq_waiters (gu_queue u) = 0)"

lemmas subscriber_defs = hand_over_def hang_up_def has_read_def hung_up_def to_read_def subscriber_ok_def
  subscriber_next_def answer_now_def

interpretation gateway_mail: mailbox hand_over hang_up subscriber_next has_read to_read hung_up subscriber_ok
  by unfold_locales
    (auto simp: subscriber_defs bounded_push_def bounded_close_def queue_defs split: list.splits option.splits if_splits)

subsection \<open>Following a stream\<close>

text \<open>The feed and cursor a reader is at, and where an item takes it; \<open>None\<close> when the item does not follow.\<close>

type_synonym position = "string \<times> nat"

fun follow_one :: "access_item \<Rightarrow> position option \<Rightarrow> position option option" where
  "follow_one (AControl i) p = (if p = Some (fi_feedId i, fi_cursor i - 1) \<and> 0 < fi_cursor i
     then Some (Some (fi_feedId i, fi_cursor i)) else None)"
| "follow_one (ABeat feed cursor refs) p = (if p = None \<or> p = Some (feed, cursor) then Some (Some (feed, cursor)) else None)"
| "follow_one (AReset prev feed cursor refs reason) p =
     (if p \<noteq> None \<and> prev = map_option fst p then Some (Some (feed, cursor)) else None)"
| "follow_one (ANative e) p = Some p"
| "follow_one (AGap k r pv) p = Some p"

fun follow :: "access_item list \<Rightarrow> position option \<Rightarrow> position option option" where
  "follow [] p = Some p"
| "follow (x # xs) p = (case follow_one x p of None \<Rightarrow> None | Some p' \<Rightarrow> follow xs p')"

lemma follow_append: "follow (xs @ ys) p = (case follow xs p of None \<Rightarrow> None | Some p' \<Rightarrow> follow ys p')"
  by (induction xs arbitrary: p) (auto split: option.splits)

lemma follow_silent: "\<forall>x \<in> set xs. case x of ANative e \<Rightarrow> True | AGap k r pv \<Rightarrow> True | _ \<Rightarrow> False \<Longrightarrow> follow xs p = Some p"
  by (induction xs) (auto split: access_item.splits)

definition gateway_at :: "gateway \<Rightarrow> position" where
  "gateway_at g = (gw_feedId g, gw_controlCursor g)"

definition journal_ok :: "gateway \<Rightarrow> bool" where
  "journal_ok g \<longleftrightarrow> length (gw_journal g) \<le> gw_controlCursor g \<and>
     map fi_cursor (gw_journal g) = [Suc (gw_controlCursor g) - length (gw_journal g) ..< Suc (gw_controlCursor g)] \<and>
     list_all (\<lambda>i. fi_feedId i = gw_feedId g) (gw_journal g)"

definition cursor_start :: "stream_cursor option \<Rightarrow> position option" where
  "cursor_start = map_option (\<lambda>c. (sc_feedId c, sc_controlCursor c))"

definition in_step :: "gateway \<Rightarrow> position option \<Rightarrow> gateway_subscriber \<Rightarrow> bool" where
  "in_step g p u \<longleftrightarrow> subscriber_ok u \<and> follow (has_read u) p \<noteq> None \<and>
     (\<not> hung_up u \<longrightarrow> follow (has_read u @ to_read u) p = Some (Some (gateway_at g)))"

subsection \<open>Replay\<close>

lemma follow_run:
  "map fi_cursor is = [Suc m ..< Suc n] \<Longrightarrow> m \<le> n \<Longrightarrow> list_all (\<lambda>i. fi_feedId i = f) is \<Longrightarrow>
    follow (map AControl is) (Some (f, m)) = Some (Some (f, n))"
proof (induction "is" arbitrary: m)
  case Nil
  from Nil.prems(1) have "[Suc m ..< Suc n] = []" by (metis list.simps(8))
  then have "n \<le> m" by (auto simp only: upt_eq_Nil_conv)
  with Nil.prems(2) show ?case by simp
next
  case (Cons i "is")
  from Cons.prems(1) have lt: "m < n" by (cases "m < n") auto
  then have "[Suc m ..< Suc n] = Suc m # [Suc (Suc m) ..< Suc n]" by (simp add: upt_conv_Cons del: upt_Suc)
  with Cons.prems(1) have "fi_cursor i = Suc m" "map fi_cursor is = [Suc (Suc m) ..< Suc n]" by (simp_all del: upt_Suc)
  with Cons.IH [of "Suc m"] Cons.prems lt show ?case by simp
qed

lemma filter_cursor_upt:
  "map fi_cursor is = [a ..< b] \<Longrightarrow> map fi_cursor (filter (\<lambda>i. c < fi_cursor i) is) = [max a (Suc c) ..< b]"
proof (induction "is" arbitrary: a)
  case Nil
  then have "[a ..< b] = []" by (metis list.simps(8))
  then have "b \<le> a" by (auto simp: upt_eq_Nil_conv)
  then show ?case by simp
next
  case (Cons i "is")
  from Cons.prems have "a < b" by (cases "a < b") auto
  then have "[a ..< b] = a # [Suc a ..< b]" by (simp add: upt_conv_Cons)
  with Cons.prems have i: "fi_cursor i = a" and r: "map fi_cursor is = [Suc a ..< b]" by simp_all
  from Cons.IH [OF r] i \<open>a < b\<close> show ?case
    by (auto simp: max_def upt_conv_Cons le_Suc_eq not_less_eq_eq)
qed

lemma native_replay_silent:
  "\<forall>x \<in> set (gw_nativeReplay cur sessions g). case x of ANative e \<Rightarrow> True | AGap k r pv \<Rightarrow> True | _ \<Rightarrow> False"
proof -
  have "case x of ANative e \<Rightarrow> True | AGap k r pv \<Rightarrow> True | _ \<Rightarrow> False" if "native_gap g cur p = Some x" for p x
    using that by (cases p) (auto simp: native_gap_def Let_def split: if_splits)
  moreover have "set (List.map_filter f xs) = {y. \<exists>x \<in> set xs. f x = Some y}" for f :: "string \<times> native_position \<Rightarrow> access_item option" and xs
    by (induction xs) (auto simp: List.map_filter_simps split: option.splits)
  ultimately show ?thesis by (fastforce simp: gw_nativeReplay_def Let_def)
qed

lemma replay_follows:
  assumes ok: "journal_ok g" and cur: "sc_controlCursor cur \<le> gw_controlCursor g" "sc_feedId cur = gw_feedId g"
    and low: "(case gw_journal g of [] \<Rightarrow> Suc (gw_controlCursor g) | i # _ \<Rightarrow> fi_cursor i) \<le> Suc (sc_controlCursor cur)"
  shows "follow (map AControl (filter (\<lambda>i. sc_controlCursor cur < fi_cursor i) (gw_journal g))) (cursor_start (Some cur)) =
    Some (Some (gateway_at g))"
proof -
  let ?a = "Suc (gw_controlCursor g) - length (gw_journal g)"
  have j: "map fi_cursor (gw_journal g) = [?a ..< Suc (gw_controlCursor g)]" and len: "length (gw_journal g) \<le> gw_controlCursor g"
    using ok by (simp_all add: journal_ok_def del: upt_Suc)
  have "?a \<le> Suc (sc_controlCursor cur)"
  proof (cases "gw_journal g")
    case Nil
    with low show ?thesis by simp
  next
    case (Cons i "is")
    have "fi_cursor i = hd (map fi_cursor (gw_journal g))" by (simp add: Cons)
    also have "\<dots> = ?a" unfolding j using len by (subst hd_upt) (simp_all add: Cons)
    finally show ?thesis using low Cons by simp
  qed
  then have "map fi_cursor (filter (\<lambda>i. sc_controlCursor cur < fi_cursor i) (gw_journal g)) =
      [Suc (sc_controlCursor cur) ..< Suc (gw_controlCursor g)]"
    using filter_cursor_upt [OF j, of "sc_controlCursor cur"] by (simp add: max_def del: upt_Suc)
  from follow_run [OF this cur(1), of "gw_feedId g"] ok show ?thesis
    by (simp add: cursor_start_def cur(2) gateway_at_def journal_ok_def list_all_iff)
qed

lemma initial_follows:
  assumes ok: "journal_ok g"
  shows "follow (gateway_initial lc cursor sessions includeNative g) (cursor_start cursor) = Some (Some (gateway_at g))"
proof (cases cursor)
  case None
  then show ?thesis by (simp add: gateway_initial_def gw_heartbeat_def cursor_start_def gateway_at_def)
next
  case (Some cur)
  let ?low = "case gw_journal g of [] \<Rightarrow> Suc (gw_controlCursor g) | i # _ \<Rightarrow> fi_cursor i"
  show ?thesis
  proof (cases "sc_feedId cur \<noteq> gw_feedId g \<or> gw_controlCursor g < sc_controlCursor cur \<or> Suc (sc_controlCursor cur) < ?low")
    case True
    then show ?thesis
      by (auto simp: Some gateway_initial_def gw_reset_def cursor_start_def gateway_at_def Let_def)
  next
    case False
    have "follow (if includeNative then gw_nativeReplay cur sessions g else []) p = Some p" for p
      using follow_silent [OF native_replay_silent] by simp
    with False replay_follows [OF ok, of cur] show ?thesis
      by (simp add: Some gateway_initial_def Let_def follow_append gw_heartbeat_def gateway_at_def)
  qed
qed

subsection \<open>Every operation keeps a subscriber in step\<close>

definition quiet :: "gateway \<Rightarrow> gateway \<Rightarrow> bool" where
  "quiet g g' \<longleftrightarrow> gw_subscribers g' = gw_subscribers g \<and> gw_feedId g' = gw_feedId g \<and>
     gw_controlCursor g' = gw_controlCursor g \<and> gw_journal g' = gw_journal g"

text \<open>What an operation may do to the stream: the journal stays sound and whoever is in step stays so.\<close>

definition keeps_step :: "gateway \<Rightarrow> gateway \<Rightarrow> bool" where
  "keeps_step g g' \<longleftrightarrow> (journal_ok g \<longrightarrow> journal_ok g') \<and> length (gw_subscribers g) \<le> length (gw_subscribers g') \<and>
     (\<forall>j p. journal_ok g \<and> j < length (gw_subscribers g) \<and> in_step g p (gw_subscribers g ! j) \<longrightarrow>
       in_step g' p (gw_subscribers g' ! j))"

lemma keeps_step_refl [simp]: "keeps_step g g"
  by (simp add: keeps_step_def)

lemma keeps_step_trans: "keeps_step g g' \<Longrightarrow> keeps_step g' g'' \<Longrightarrow> keeps_step g g''"
  unfolding keeps_step_def by (meson order.strict_trans2 order.trans)

lemma quiet_keeps: "quiet g g' \<Longrightarrow> keeps_step g g'"
  by (simp add: quiet_def keeps_step_def journal_ok_def in_step_def gateway_at_def)

lemma only_owners_quiet: "only_owners g g' \<Longrightarrow> quiet g g'"
  by (simp add: only_owners_def quiet_def)

lemma follow_prefix: "follow (xs @ ys) p \<noteq> None \<Longrightarrow> follow xs p \<noteq> None"
  by (simp add: follow_append split: option.splits)

lemma in_step_prefix:
  assumes "subscriber_ok u" "follow (has_read u @ to_read u) p \<noteq> None"
  shows "follow (has_read u) p \<noteq> None"
  using follow_prefix assms(2) by blast

lemma in_step_hand_over:
  assumes u: "in_step g p u" and item: "follow_one item (Some (gateway_at g)) = Some (Some (gateway_at g'))"
  shows "in_step g' p (hand_over item u)"
proof -
  have ok: "subscriber_ok u" "follow (has_read u) p \<noteq> None" using u by (simp_all add: in_step_def)
  show ?thesis
  proof (cases "hung_up u")
    case True
    then have "hand_over item u = u" using gateway_mail.push_ended by blast
    with u True show ?thesis by (simp add: in_step_def)
  next
    case False
    with u have all: "follow (has_read u @ to_read u) p = Some (Some (gateway_at g))" by (simp add: in_step_def)
    show ?thesis
    proof (cases "hung_up (hand_over item u)")
      case True
      then obtain zs where "has_read u @ to_read u = has_read (hand_over item u) @ to_read (hand_over item u) @ zs"
        using gateway_mail.push_prefix [OF ok(1)] by (metis append.assoc prefixE)
      with all have "follow (has_read (hand_over item u)) p \<noteq> None" by (metis follow_prefix option.distinct(1))
      with True gateway_mail.ok_push [OF ok(1)] show ?thesis by (simp add: in_step_def)
    next
      case False
      have eq: "has_read (hand_over item u) @ to_read (hand_over item u) = (has_read u @ to_read u) @ [item]"
        using gateway_mail.push_open [OF ok(1) False] by simp
      have "follow (has_read (hand_over item u) @ to_read (hand_over item u)) p = Some (Some (gateway_at g'))"
        unfolding eq follow_append [of "has_read u @ to_read u" "[item]"] using all item by simp
      then show ?thesis
        using gateway_mail.ok_push [OF ok(1)] in_step_prefix [of "hand_over item u" p] by (simp add: in_step_def)
    qed
  qed
qed

lemma gateway_push_hands_over:
  "gateway_push item u = hand_over item u \<or> gateway_push item u = u \<and> (\<forall>p. follow_one item p = Some p)"
  by (cases item) (simp_all add: gateway_push_def hand_over_def Let_def)

lemma in_step_push:
  assumes "in_step g p u" "follow_one item (Some (gateway_at g)) = Some (Some (gateway_at g'))"
  shows "in_step g' p (gateway_push item u)"
  using gateway_push_hands_over [of item u] in_step_hand_over [OF assms] assms by (auto simp: in_step_def)

lemma broadcast_keeps:
  assumes subs: "gw_subscribers g' = map (gateway_push item) (gw_subscribers g)"
    and item: "follow_one item (Some (gateway_at g)) = Some (Some (gateway_at g'))"
    and "journal_ok g \<Longrightarrow> journal_ok g'"
  shows "keeps_step g g'"
  unfolding keeps_step_def using assms in_step_push [OF _ item] by simp

lemma rotateFeed_keeps: "keeps_step g (rotateFeed lc fresh g)"
  by (rule broadcast_keeps [where item = "gw_reset lc (gw_feedId g) SourceSelectionChanged (rotateFeed lc fresh g)"])
    (auto simp: rotateFeed_def gw_broadcast_def gw_reset_def gateway_at_def journal_ok_def authorityRefs_def
      selected_snapshots_def gw_snapshot_def gw_source_def Let_def)

named_theorems quiet_intros

lemma quiet_refl [quiet_intros]: "quiet g g"
  by (simp add: quiet_def)

lemma quiet_trans: "quiet g g' \<Longrightarrow> quiet g' g'' \<Longrightarrow> quiet g g''"
  by (simp add: quiet_def)

lemma quiet_put_source [quiet_intros]: "quiet g (put_source k f g)"
  by (simp add: quiet_def put_source_def split: option.splits)

lemma quiet_fold: "(\<And>x g. quiet g (f x g)) \<Longrightarrow> quiet g (fold f xs g)"
  by (induction xs arbitrary: g) (auto intro: quiet_refl quiet_trans)

lemma quiet_select_one: "quiet g (select_one t el c g)"
  by (simp add: select_one_def quiet_def put_source_def split: option.splits)

lemma quiet_choose [quiet_intros]: "quiet g (choose_sources lc t lost g)"
proof -
  have "quiet g (reset_selection g)" by (simp add: quiet_def reset_selection_def)
  moreover have "quiet h (apply_verdicts t vs h)" for vs h
    unfolding apply_verdicts_def by (rule quiet_fold) (auto intro: quiet_put_source)
  ultimately show ?thesis
    unfolding choose_sources_def Let_def
    by (intro quiet_trans [OF quiet_trans quiet_fold] quiet_select_one)
qed

lemma quiet_broadcastDiagnostics [quiet_intros]: "quiet g (broadcastDiagnostics lc g)"
  by (simp add: quiet_def)

lemma quiet_remember_change: "quiet g (remember_change k ch g)"
  by (simp add: remember_change_def quiet_def split: control_change.splits)

lemma and_then_keeps:
  "(\<And>g. keeps_step g (snd (f g))) \<Longrightarrow> (\<And>g. keeps_step g (snd (h g))) \<Longrightarrow> keeps_step g (snd (and_then f h g))"
  by (auto simp: and_then_def split: prod.splits option.splits) (metis keeps_step_trans snd_conv)+

lemma rebuildOwners_keeps: "keeps_step g (snd (rebuildOwners g))"
  by (intro quiet_keeps only_owners_quiet rebuildOwners_only_owners)

lemma reselect_keeps: "keeps_step g (snd (reselect lc t fresh previous lost g))"
  unfolding reselect_def
  by (intro and_then_keeps rebuildOwners_keeps)
    (auto intro: quiet_keeps quiet_choose keeps_step_trans [OF rotateFeed_keeps] quiet_broadcastDiagnostics)

lemma refresh_failed_keeps: "keeps_step g (snd (refresh_failed lc t fresh k at_call cause err g))"
  unfolding refresh_failed_def
  by (intro and_then_keeps reselect_keeps) (auto intro: quiet_keeps quiet_put_source)

lemma refresh_end_keeps: "keeps_step g (snd (refresh_end lc t fresh fresh' k at_call loaded g))"
proof (cases loaded)
  case (Inl cause)
  then show ?thesis by (simp add: refresh_end_def refresh_failed_keeps)
next
  case (Inr n)
  let ?g = "put_source k (\<lambda>s. s\<lparr>ss_snapshot := Some n, ss_generation := Suc (ss_generation s), ss_lastError := None, ss_reason := None\<rparr>) g"
  obtain e g' where r: "reselect lc t fresh (fst at_call) None ?g = (e, g')" by (cases "reselect lc t fresh (fst at_call) None ?g")
  have "keeps_step ?g g'" using reselect_keeps [of ?g lc t fresh "fst at_call" None] by (simp only: r snd_conv)
  then have step: "keeps_step g g'" by (rule keeps_step_trans [OF quiet_keeps [OF quiet_put_source]])
  then have "keeps_step g (snd (refresh_failed lc t fresh' k at_call why err g'))" for why err
    by (rule keeps_step_trans [OF _ refresh_failed_keeps])
  with step show ?thesis by (simp add: refresh_end_def Inr r refresh_failed_keeps split: option.splits)
qed

lemma markUnavailable_keeps: "keeps_step g (snd (markUnavailable lc t fresh k cause g))"
proof (cases "gw_source k g")
  case None
  then show ?thesis by (simp add: markUnavailable_def)
next
  case (Some s)
  have "keeps_step h (snd (and_then (change (put_source k f)) (reselect lc t fresh p l) h))" for f p l h
    by (intro and_then_keeps reselect_keeps) (auto intro: quiet_keeps quiet_put_source)
  moreover have "quiet g (broadcastDiagnostics lc (put_source k f g))" for f
    by (rule quiet_trans [OF quiet_put_source quiet_broadcastDiagnostics])
  ultimately show ?thesis by (simp add: markUnavailable_def Some quiet_keeps)
qed

lemma applySourceControl_keeps: "keeps_step g (snd (applySourceControl t k n i g))"
proof -
  have "quiet g (put_source k f (remember_change k ch g))" "quiet g (put_source k f g)" for f ch
    by (auto intro: quiet_trans [OF quiet_remember_change] quiet_put_source)
  then show ?thesis
    by (auto simp: applySourceControl_def Let_def intro: quiet_keeps keeps_step_trans [OF quiet_keeps rebuildOwners_keeps])
qed

lemma journal_push:
  assumes "journal_ok g" "0 < n" "fi_cursor i = Suc (gw_controlCursor g)" "fi_feedId i = gw_feedId g"
    and g': "gw_journal g' = ring_push n (gw_journal g) i" "gw_controlCursor g' = Suc (gw_controlCursor g)" "gw_feedId g' = gw_feedId g"
  shows "journal_ok g'"
proof -
  let ?l = "length (gw_journal g)" and ?c = "gw_controlCursor g"
  let ?d = "Suc ?l - n"
  have len: "?l \<le> ?c" and j: "map fi_cursor (gw_journal g) = [Suc ?c - ?l ..< Suc ?c]"
    using assms(1) by (simp_all add: journal_ok_def del: upt_Suc)
  have j': "gw_journal g' = drop ?d (gw_journal g @ [i])" using g'(1) by (simp add: ring_push_def Let_def)
  have "map fi_cursor (gw_journal g @ [i]) = [Suc ?c - ?l ..< Suc (Suc ?c)]"
    using j assms(3) len by (simp add: upt_Suc_append [of "Suc ?c - ?l" "Suc ?c", symmetric] del: upt_Suc)
  then have "map fi_cursor (gw_journal g') = [Suc ?c - ?l + ?d ..< Suc (Suc ?c)]"
    by (simp only: j' drop_map [symmetric] drop_upt)
  moreover have "length (gw_journal g') = Suc ?l - ?d" by (simp add: j')
  moreover have "list_all (\<lambda>i. fi_feedId i = gw_feedId g') (gw_journal g')"
    using assms(1,4) set_drop_subset [of ?d "gw_journal g @ [i]"] unfolding j' g'(3)
    by (auto simp: journal_ok_def list_all_iff dest: in_set_dropD)
  ultimately show ?thesis
    using len assms(2) g'(2) by (auto simp: journal_ok_def simp del: upt_Suc)
qed

lemma project_control_keeps: "keeps_step g (project_control i g)"
proof (rule broadcast_keeps)
  let ?i = "i\<lparr>fi_feedId := gw_feedId g, fi_cursor := Suc (gw_controlCursor g)\<rparr>"
  show "gw_subscribers (project_control i g) = map (gateway_push (AControl ?i)) (gw_subscribers g)"
    by (simp add: project_control_def gw_broadcast_def Let_def)
  show "follow_one (AControl ?i) (Some (gateway_at g)) = Some (Some (gateway_at (project_control i g)))"
    by (simp add: project_control_def gw_broadcast_def gateway_at_def Let_def)
  show "journal_ok g \<Longrightarrow> journal_ok (project_control i g)"
    by (rule journal_push [where n = maximumJournalItems and i = ?i])
      (simp_all add: project_control_def gw_broadcast_def Let_def maximumJournalItems_def)
qed

lemma silent_keeps:
  assumes "gw_subscribers g' = map (gateway_push item) (gw_subscribers g)" "\<And>p. follow_one item p = Some p"
    and "gw_feedId g' = gw_feedId g" "gw_controlCursor g' = gw_controlCursor g" "gw_journal g' = gw_journal g"
  shows "keeps_step g g'"
  by (rule broadcast_keeps [OF assms(1)]) (simp_all add: assms(2-5) gateway_at_def journal_ok_def)

lemma project_native_keeps: "keeps_step g (snd (project_native e g))"
proof (cases "snd (project_native e g) = g")
  case False
  then show ?thesis
    by (intro silent_keeps [where item = "ANative e"])
      (auto simp: project_native_def gw_broadcast_def Let_def split: if_splits)
qed simp

lemma broadcast_beat_keeps: "keeps_step g (gw_broadcast (gw_heartbeat lc g) g)"
  by (rule broadcast_keeps [where item = "gw_heartbeat lc g"])
    (simp_all add: gw_broadcast_def gw_heartbeat_def gateway_at_def journal_ok_def)

lemma broadcast_gap_keeps: "keeps_step g (gw_broadcast (AGap k r p) g)"
  by (rule silent_keeps [where item = "AGap k r p"]) (simp_all add: gw_broadcast_def)

lemma ingest_keeps: "keeps_step g (snd (ingest lc t k item g))"
proof -
  have "keeps_step g (snd (case applySourceControl t k n i g of
      (Some e, g') \<Rightarrow> (Inl e, g')
    | (None, g') \<Rightarrow> if P g' then (Inr False, g') else (Inr True, project_control i g')))" for n i P
    using applySourceControl_keeps [of g t k n i] keeps_step_trans [OF _ project_control_keeps]
    by (cases "applySourceControl t k n i g") (simp split: option.splits)
  then show ?thesis
    by (auto simp: ingest_def handed_on_def project_native_keeps broadcast_beat_keeps broadcast_gap_keeps
        split: option.splits access_item.splits)
qed

lemma subscribe_keeps: "keeps_step g (gateway_subscribe lc cursor sessions includeNative aborted g)"
  by (auto simp: keeps_step_def gateway_subscribe_def journal_ok_def in_step_def gateway_at_def nth_append)

lemma at_subscriber_keeps:
  assumes "\<And>p u. in_step g p u \<Longrightarrow> in_step g p (f u)"
  shows "keeps_step g (at_subscriber f j g)"
proof -
  have frame: "gateway_at (at_subscriber f j g) = gateway_at g" "journal_ok (at_subscriber f j g) = journal_ok g"
    by (simp_all add: at_subscriber_def gateway_at_def journal_ok_def)
  then have "in_step (at_subscriber f j g) = in_step g" by (intro ext) (simp add: in_step_def)
  moreover have "length (gw_subscribers (at_subscriber f j g)) = length (gw_subscribers g)"
    "gw_subscribers (at_subscriber f j g) ! l = (if l = j then f (gw_subscribers g ! l) else gw_subscribers g ! l)"
    if "l < length (gw_subscribers g)" for l
    using that by (auto simp: at_subscriber_def nth_list_update)
  moreover have "length (gw_subscribers (at_subscriber f j g)) = length (gw_subscribers g)" by (simp add: at_subscriber_def)
  ultimately show ?thesis using frame assms unfolding keeps_step_def by simp
qed

lemma in_step_all: "in_step g p u \<Longrightarrow> follow (has_read u @ to_read u) p \<noteq> None"
  by (cases "hung_up u") (auto simp: in_step_def to_read_def)

lemma next_in_step: "in_step g p u \<Longrightarrow> in_step g p (subscriber_next u)"
  using gateway_mail.pull_keeps [of u] gateway_mail.ok_pull [of u] gateway_mail.pull_open [of u]
    in_step_prefix [of "subscriber_next u" p] in_step_all [of g p u]
  by (auto simp: in_step_def)

lemma return_in_step:
  assumes "in_step g p u"
  shows "in_step g p (hang_up None u)"
proof -
  have ok: "subscriber_ok u" using assms by (simp add: in_step_def)
  obtain zs where "has_read u @ to_read u = (has_read (hang_up None u) @ to_read (hang_up None u)) @ zs"
    using gateway_mail.close_prefix [OF ok] by (metis prefixE)
  with in_step_all [OF assms] have "follow (has_read (hang_up None u) @ to_read (hang_up None u)) p \<noteq> None"
    by (metis follow_prefix)
  then show ?thesis
    using gateway_mail.ok_close [OF ok] gateway_mail.close_ends follow_prefix by (auto simp: in_step_def)
qed

subsection \<open>Runs\<close>

inductive gateway_step :: "collation \<Rightarrow> gateway \<Rightarrow> gateway \<Rightarrow> bool" for lc where
  ingested: "gateway_step lc g (snd (ingest lc t k item g))"
| refreshing: "gateway_step lc g (snd (refresh_begin t k g))"
| refreshed: "gateway_step lc g (snd (refresh_end lc t fresh fresh' k at_call loaded g))"
| lost: "gateway_step lc g (snd (markUnavailable lc t fresh k cause g))"
| subscribed: "gateway_step lc g (gateway_subscribe lc cursor sessions includeNative aborted g)"
| pulled: "gateway_step lc g (gateway_next j g)"
| returned: "gateway_step lc g (gateway_return j g)"
| watched: "gateway_step lc g (watchSources lc aborted g)"

lemma gateway_step_keeps: "gateway_step lc g g' \<Longrightarrow> keeps_step g g'"
proof (induction rule: gateway_step.induct)
  case (refreshing g t k)
  then show ?case by (simp add: refresh_begin_def quiet_keeps quiet_put_source)
next
  case (pulled g j)
  then show ?case by (simp add: gateway_next_def at_subscriber_keeps next_in_step)
next
  case (returned g j)
  then show ?case
    using at_subscriber_keeps [of g "hang_up None" j] return_in_step
    by (simp add: gateway_return_def hang_up_def [abs_def])
next
  case (watched g aborted)
  then show ?case by (intro quiet_keeps) (simp add: watchSources_def quiet_def Let_def)
qed (simp_all add: ingest_keeps refresh_end_keeps markUnavailable_keeps subscribe_keeps)

lemma gateway_run_keeps: "(gateway_step lc)\<^sup>*\<^sup>* g g' \<Longrightarrow> keeps_step g g'"
  by (induction rule: rtranclp_induct) (auto intro: keeps_step_trans gateway_step_keeps)

lemma newGateway_journal: "newGateway defs feedId t capacity = Inr g \<Longrightarrow> journal_ok g"
  by (auto simp: newGateway_def journal_ok_def split: if_splits)

lemma subscribed_in_step:
  assumes "journal_ok g" and "g' = gateway_subscribe lc cursor sessions includeNative False g"
  shows "in_step g' (cursor_start cursor) (gw_subscribers g' ! length (gw_subscribers g))"
proof -
  have "subscriber_ok (gw_subscribers g' ! length (gw_subscribers g))"
    by (simp add: assms(2) gateway_subscribe_def subscriber_ok_def hung_up_def new_queue_def queue_ok_def Let_def)
  then show ?thesis
    using initial_follows [OF assms(1)] by (simp add: in_step_def assms(2) gateway_subscribe_def has_read_def
        to_read_def hung_up_def gateway_at_def Let_def)
qed

end
