(* ===== verification/Gateway_Route.thy ===== *)
theory Gateway_Route
  imports Gateway_Stream Catalog_Search
begin

text \<open>
  Routing at the gateway: reads of the merged projection, the source a request belongs to, the fences it
  must pass before and after the call, and listings that go through the sources one after the other. What
  a source answers is an argument: \<open>Answered\<close>, \<open>Refused\<close> with a routing error, or \<open>Lost\<close> for any other failure.
\<close>

subsection \<open>Reads\<close>

definition gw_union :: "collation \<Rightarrow> (access_snapshot \<Rightarrow> 'r list) \<Rightarrow> ('r \<Rightarrow> string) \<Rightarrow> gateway \<Rightarrow> 'r list" where
  "gw_union lc field ident g =
     sort_le (\<lambda>a b. lc (ident a) (ident b) \<le> 0) (map snd (indexBy ident (concat (map field (selected_snapshots g)))))"

definition gw_listControlNodes :: "collation \<Rightarrow> gateway \<Rightarrow> control_node list" where
  "gw_listControlNodes lc = gw_union lc as_controlNodes cn_controlNodeId"

definition gw_listRuntimeNodes :: "collation \<Rightarrow> gateway \<Rightarrow> runtime_node list" where
  "gw_listRuntimeNodes lc = gw_union lc as_runtimeNodes rn_runtimeNodeId"

definition gw_listSessions :: "collation \<Rightarrow> gateway \<Rightarrow> session list" where
  "gw_listSessions lc = gw_union lc as_sessions se_sessionId"

definition gw_listInteractions :: "collation \<Rightarrow> gateway \<Rightarrow> interaction_record list" where
  "gw_listInteractions lc = gw_union lc as_interactions ir_interactionId"

definition gw_listMetadataOperations :: "collation \<Rightarrow> gateway \<Rightarrow> metadata_operation list" where
  "gw_listMetadataOperations lc = gw_union lc as_metadataOperations mo_operationId"

definition gw_getMetadataOperation :: "collation \<Rightarrow> string \<Rightarrow> gateway \<Rightarrow> metadata_operation option" where
  "gw_getMetadataOperation lc k g = find (\<lambda>mo. mo_operationId mo = k) (gw_listMetadataOperations lc g)"

definition gw_getControlNode :: "string \<Rightarrow> gateway \<Rightarrow> control_node option" where
  "gw_getControlNode k g =
     (case map_of (gw_controlNodeOwners g) k of
        None \<Rightarrow> None
      | Some source \<Rightarrow> Option.bind (gw_snapshot source g) (\<lambda>n. find (\<lambda>c. cn_controlNodeId c = k) (as_controlNodes n)))"

subsection \<open>Owners\<close>

text \<open>A source named by an owner table is selected, so it has a snapshot; the pair is the source and the snapshot.\<close>

definition owned_by :: "string option \<Rightarrow> gateway \<Rightarrow> gw_error + string \<times> access_snapshot" where
  "owned_by owner g =
     (case owner of
        None \<Rightarrow> Inl GUnavailable
      | Some source \<Rightarrow>
          (case gw_source source g of
             None \<Rightarrow> Inl GNotFound
           | Some s \<Rightarrow> (case ss_snapshot s of None \<Rightarrow> Inl GInternal | Some n \<Rightarrow> Inr (source, n))))"

definition ownerForRuntime :: "string \<Rightarrow> gateway \<Rightarrow> gw_error + string \<times> access_snapshot" where
  "ownerForRuntime k g = owned_by (map_of (gw_runtimeNodeOwners g) k) g"

definition ownerForControlNode :: "string \<Rightarrow> gateway \<Rightarrow> gw_error + string \<times> access_snapshot" where
  "ownerForControlNode k g = owned_by (map_of (gw_controlNodeOwners g) k) g"

definition ownerForSession :: "string \<Rightarrow> gateway \<Rightarrow> gw_error + string \<times> access_snapshot" where
  "ownerForSession k g =
     (case or_else (map_of (gw_sessionOwners g) k) (map_of (gw_lookupHints g) k) of
        None \<Rightarrow> Inl GUnavailable
      | Some source \<Rightarrow> if source \<notin> set (gw_selected g) then Inl GUnavailable else owned_by (Some source) g)"

definition assertAuthority :: "access_snapshot \<Rightarrow> authority_ref \<Rightarrow> gw_error option" where
  "assertAuthority n expected = (if sameAuthority (sm_authority (as_manifest n)) expected then None else Some GConflict)"

definition ownerForSessionBinding :: "string \<Rightarrow> string \<Rightarrow> nat \<Rightarrow> gateway \<Rightarrow> gw_error + string \<times> access_snapshot" where
  "ownerForSessionBinding sessionId runtimeNodeId revision g =
     (case ownerForSession sessionId g of
        Inl e \<Rightarrow> Inl e
      | Inr (source, n) \<Rightarrow>
          (case ownerForRuntime runtimeNodeId g of
             Inl e \<Rightarrow> Inl e
           | Inr (source', n') \<Rightarrow>
               if source \<noteq> source' then Inl GConflict
               else
                 (case or_else (find (\<lambda>s. se_sessionId s = sessionId) (as_sessions n)) (map_of (gw_lookupRecords g) sessionId) of
                    None \<Rightarrow> Inl GConflict
                  | Some s \<Rightarrow> if se_runtimeNodeId s \<noteq> runtimeNodeId \<or> se_bindingRevision s \<noteq> revision then Inl GConflict
                      else Inr (source, n))))"

subsection \<open>What a source returns must be its own\<close>

definition assertSessionSearchOwner :: "string \<Rightarrow> session \<Rightarrow> gateway \<Rightarrow> gw_error option" where
  "assertSessionSearchOwner source s g =
     (case gw_snapshot source g of
        None \<Rightarrow> Some GInternal
      | Some n \<Rightarrow> if map_of (gw_runtimeNodeOwners g) (se_runtimeNodeId s) = Some source \<and>
            sameAuthority (se_metadataAuthority s) (sm_authority (as_manifest n)) then None else Some GConflict)"

definition assertLaunchSource :: "string \<Rightarrow> launch_record \<Rightarrow> gateway \<Rightarrow> gw_error option" where
  "assertLaunchSource source l g =
     (if map_of (gw_runtimeNodeOwners g) (lq_runtimeNodeId l) = Some source then None else Some GConflict)"

definition assertArchiveSource :: "string \<Rightarrow> archive_record \<Rightarrow> gateway \<Rightarrow> gw_error option" where
  "assertArchiveSource source a g =
     (case gw_snapshot source g of
        None \<Rightarrow> Some GInternal
      | Some n \<Rightarrow> if map_of (gw_runtimeNodeOwners g) (aq_runtimeNodeId a) = Some source \<and>
            sameAuthority (ar_authority a) (sm_authority (as_manifest n)) then None else Some GConflict)"

definition launch_request_json :: "'a launch_request_scheme \<Rightarrow> json" where
  "launch_request_json r = JObj ([(''launchId'', JStr (lq_launchId r)), (''payloadHash'', JStr (lq_payloadHash r)),
     (''sessionId'', JStr (lq_sessionId r)), (''runtimeNodeId'', JStr (lq_runtimeNodeId r)),
     (''profile'', profile_json (lq_profile r)), (''harness'', JStr (lq_harness r)), (''input'', JObj (lq_input r))] @
     optional ''metadata'' JObj (lq_metadata r))"

definition sameLaunchRequest :: "collation \<Rightarrow> launch_record \<Rightarrow> launch_request \<Rightarrow> bool" where
  "sameLaunchRequest lc r q = sameCanonicalJson lc (launch_request_json r) (launch_request_json q)"

definition archive_request_json :: "'a archive_request_scheme \<Rightarrow> json" where
  "archive_request_json r = JObj [(''archiveOperationId'', JStr (aq_archiveOperationId r)),
     (''payloadHash'', JStr (aq_payloadHash r)), (''sessionId'', JStr (aq_sessionId r)),
     (''runtimeNodeId'', JStr (aq_runtimeNodeId r)), (''bindingRevision'', JNat (aq_bindingRevision r)),
     (''expectedAuthority'', authority_json (aq_expectedAuthority r))]"

definition sameArchiveRequest :: "collation \<Rightarrow> archive_record \<Rightarrow> archive_request \<Rightarrow> bool" where
  "sameArchiveRequest lc r q = sameCanonicalJson lc (archive_request_json r) (archive_request_json q)"

subsection \<open>Dispatching a mutation\<close>

datatype 'r reply = Answered 'r | Refused gw_error | Lost

definition mutate_end :: "'r reply \<Rightarrow> gw_error + 'r" where
  "mutate_end r = (case r of Answered x \<Rightarrow> Inr x | Refused e \<Rightarrow> Inl e | Lost \<Rightarrow> Inl GOutcomeUnknown)"

definition mutate_begin :: "string \<Rightarrow> gateway \<Rightarrow> gw_error option" where
  "mutate_begin source g = (if source \<in> set (gw_selected g) then None else Some GUnavailable)"

definition dispatch_to :: "gw_error + string \<times> access_snapshot \<Rightarrow> authority_ref option \<Rightarrow> gateway \<Rightarrow> gw_error + string" where
  "dispatch_to owner expected g =
     (case owner of
        Inl e \<Rightarrow> Inl e
      | Inr (source, n) \<Rightarrow>
          (case (case expected of None \<Rightarrow> None | Some a \<Rightarrow> assertAuthority n a) of
             Some e \<Rightarrow> Inl e
           | None \<Rightarrow> (case mutate_begin source g of Some e \<Rightarrow> Inl e | None \<Rightarrow> Inr source)))"

text \<open>The source a request is sent to; \<open>Inl\<close> means that nothing is sent.\<close>

definition patchMetadata_route :: "metadata_patch \<Rightarrow> gateway \<Rightarrow> gw_error + string" where
  "patchMetadata_route p g = dispatch_to (ownerForSession (mp_sessionId p) g) (Some (mp_expectedAuthority p)) g"

definition topology_route :: "string \<Rightarrow> authority_ref \<Rightarrow> gateway \<Rightarrow> gw_error + string" where
  "topology_route controlNodeId expected g = dispatch_to (ownerForControlNode controlNodeId g) (Some expected) g"

definition resolveInteraction_route :: "string \<Rightarrow> string \<Rightarrow> gateway \<Rightarrow> gw_error + string" where
  "resolveInteraction_route interactionId sessionId g =
     dispatch_to (case map_of (gw_interactionOwners g) interactionId of
       None \<Rightarrow> ownerForSession sessionId g | Some source \<Rightarrow> owned_by (Some source) g) None g"

definition refresh_route :: "string \<Rightarrow> gateway \<Rightarrow> gw_error + string" where
  "refresh_route runtimeNodeId g = dispatch_to (ownerForRuntime runtimeNodeId g) None g"

text \<open>Commands leave a hint where they went, before they are sent.\<close>

definition remember_command :: "string \<Rightarrow> string \<Rightarrow> gateway \<Rightarrow> gateway" where
  "remember_command k source g = g\<lparr>gw_commandOwners := remember_owner maximumCommandOwnerHints k source (gw_commandOwners g)\<rparr>"

definition command_route ::
  "string \<Rightarrow> gw_error + string \<times> access_snapshot \<Rightarrow> gateway \<Rightarrow> (gw_error + string) \<times> gateway" where
  "command_route commandId owner g =
     (case owner of
        Inl e \<Rightarrow> (Inl e, g)
      | Inr (source, n) \<Rightarrow> let g' = remember_command commandId source g in (dispatch_to owner None g', g'))"

definition resume_route :: "string \<Rightarrow> string \<Rightarrow> string \<Rightarrow> nat \<Rightarrow> gateway \<Rightarrow> (gw_error + string) \<times> gateway" where
  "resume_route commandId sessionId runtimeNodeId revision g =
     command_route commandId (ownerForSessionBinding sessionId runtimeNodeId revision g) g"

definition execute_route :: "string \<Rightarrow> string \<Rightarrow> string \<Rightarrow> gateway \<Rightarrow> (gw_error + string) \<times> gateway" where
  "execute_route commandId sessionId runtimeNodeId g =
     command_route commandId
       (case ownerForSession sessionId g of
          Inl e \<Rightarrow> Inl e
        | Inr (source, n) \<Rightarrow>
            (case ownerForRuntime runtimeNodeId g of
               Inl e \<Rightarrow> Inl e
             | Inr (source', n') \<Rightarrow> if source \<noteq> source' then Inl GConflict else Inr (source, n))) g"

subsection \<open>Launches and archives\<close>

definition json_member :: "string \<Rightarrow> json \<Rightarrow> json option" where
  "json_member k v = (case v of JObj ms \<Rightarrow> map_of ms k | _ \<Rightarrow> None)"

definition assertAdvertisedLaunchProfile :: "launch_request \<Rightarrow> gateway \<Rightarrow> gw_error option" where
  "assertAdvertisedLaunchProfile q g =
     (case ownerForRuntime (lq_runtimeNodeId q) g of
        Inl e \<Rightarrow> Some e
      | Inr (source, n) \<Rightarrow>
          (case find (\<lambda>r. rn_runtimeNodeId r = lq_runtimeNodeId q) (as_runtimeNodes n) of
             None \<Rightarrow> Some GUnavailable
           | Some r \<Rightarrow>
               (case find (\<lambda>p. json_member ''providerId'' p = Some (JStr (lp_providerId (lq_profile q))) \<and>
                    json_member ''profileId'' p = Some (JStr (lp_profileId (lq_profile q))) \<and>
                    json_member ''contractVersion'' p = Some (JNat (lp_contractVersion (lq_profile q)))) (rn_launchProfiles r) of
                  None \<Rightarrow> Some GUnsupported
                | Some p \<Rightarrow>
                    if json_member ''requestSchemaHash'' p \<noteq> Some (JStr (lp_requestSchemaHash (lq_profile q))) then Some GConflict
                    else if (case json_member ''harnesses'' p of Some (JArr hs) \<Rightarrow> JStr (lq_harness q) \<notin> set hs | _ \<Rightarrow> True)
                    then Some GUnsupported
                    else if json_member ''available'' p \<noteq> Some (JBool True) then Some GUnavailable
                    else None)))"

definition createLaunch_begin :: "launch_request \<Rightarrow> gateway \<Rightarrow> (gw_error + string) \<times> gateway" where
  "createLaunch_begin q g =
     (case ownerForRuntime (lq_runtimeNodeId q) g of
        Inl e \<Rightarrow> (Inl e, g)
      | Inr (source, n) \<Rightarrow>
          (case assertAdvertisedLaunchProfile q g of
             Some e \<Rightarrow> (Inl e, g)
           | None \<Rightarrow>
               let g' = g\<lparr>gw_launchOwners := remember_owner maximumOperationOwnerHints (lq_launchId q) source (gw_launchOwners g)\<rparr>
               in (dispatch_to (Inr (source, n)) None g', g')))"

definition checked :: "bool \<Rightarrow> gw_error \<Rightarrow> gw_error option \<Rightarrow> 'r \<Rightarrow> gw_error + 'r" where
  "checked ok e after r = (if \<not> ok then Inl e else case after of Some e' \<Rightarrow> Inl e' | None \<Rightarrow> Inr r)"

text \<open>When the answer comes; the gateway may have changed since the request was sent.\<close>

definition createLaunch_end ::
  "collation \<Rightarrow> launch_request \<Rightarrow> string \<Rightarrow> launch_record reply \<Rightarrow> gateway \<Rightarrow> gw_error + launch_record" where
  "createLaunch_end lc q source r g =
     (case mutate_end r of
        Inl e \<Rightarrow> Inl e
      | Inr l \<Rightarrow> if \<not> launchRecordSchema l then Inl GInvalid
          else checked (sameLaunchRequest lc l q) GConflict (assertLaunchSource source l g) l)"

definition archive_begin :: "archive_request \<Rightarrow> gateway \<Rightarrow> (gw_error + string) \<times> gateway" where
  "archive_begin q g =
     (case ownerForSessionBinding (aq_sessionId q) (aq_runtimeNodeId q) (aq_bindingRevision q) g of
        Inl e \<Rightarrow> (Inl e, g)
      | Inr (source, n) \<Rightarrow>
          (case assertAuthority n (aq_expectedAuthority q) of
             Some e \<Rightarrow> (Inl e, g)
           | None \<Rightarrow>
               let g' = g\<lparr>gw_archiveOwners := remember_owner maximumOperationOwnerHints (aq_archiveOperationId q) source (gw_archiveOwners g)\<rparr>
               in (dispatch_to (Inr (source, n)) None g', g')))"

definition archive_end ::
  "collation \<Rightarrow> archive_request \<Rightarrow> string \<Rightarrow> archive_record reply \<Rightarrow> gateway \<Rightarrow> gw_error + archive_record" where
  "archive_end lc q source r g =
     (case mutate_end r of
        Inl e \<Rightarrow> Inl e
      | Inr a \<Rightarrow> if \<not> archiveRecordSchema a then Inl GInvalid
          else checked (sameArchiveRequest lc a q) GConflict (assertArchiveSource source a g) a)"

subsection \<open>Looking an operation up\<close>

definition selectedSourceIds :: "collation \<Rightarrow> gateway \<Rightarrow> string list" where
  "selectedSourceIds lc g = sort_le (\<lambda>a b. lc a b \<le> 0) (gw_selected g)"

text \<open>The record and, when it had to ask all sources, whom to remember. A source's answer may be \<open>None\<close>.\<close>

definition lookupOperation ::
  "collation \<Rightarrow> ('r \<Rightarrow> json) \<Rightarrow> string option \<Rightarrow> (string \<Rightarrow> 'r option reply) \<Rightarrow> gateway \<Rightarrow> gw_error + ('r \<times> string option) option" where
  "lookupOperation lc enc known ask g =
     (if pred_option (\<lambda>k. k \<in> set (gw_selected g)) known \<and> known \<noteq> None then
        (case ask (the known) of
           Answered None \<Rightarrow> Inr None | Answered (Some r) \<Rightarrow> Inr (Some (r, None)) | Refused e \<Rightarrow> Inl e | Lost \<Rightarrow> Inl GInternal)
      else
        let answers = map (\<lambda>k. (k, ask k)) (selectedSourceIds lc g);
            found = List.map_filter (\<lambda>(k, a). case a of Answered (Some r) \<Rightarrow> Some (k, r) | _ \<Rightarrow> None) answers
        in (case found of
              [] \<Rightarrow>
                (case find (\<lambda>(k, a). case a of Answered x \<Rightarrow> False | _ \<Rightarrow> True) answers of
                   None \<Rightarrow> Inr None
                 | Some (k, a) \<Rightarrow> (case a of Refused e \<Rightarrow> Inl e | _ \<Rightarrow> Inl GInternal))
            | (k, r) # _ \<Rightarrow>
                if list_ex (\<lambda>(k', r'). \<not> sameCanonicalJson lc (enc r') (enc r)) found then Inl GConflict
                else Inr (Some (r, Some k))))"

definition gw_getLaunch ::
  "collation \<Rightarrow> string \<Rightarrow> (string \<Rightarrow> launch_record option reply) \<Rightarrow> gateway \<Rightarrow> (gw_error + launch_record option) \<times> gateway" where
  "gw_getLaunch lc k ask g =
     (case lookupOperation lc launch_json (map_of (gw_launchOwners g) k) ask g of
        Inl e \<Rightarrow> (Inl e, g)
      | Inr None \<Rightarrow> (Inr None, g)
      | Inr (Some (l, learned)) \<Rightarrow>
          let g' = (case learned of None \<Rightarrow> g
                | Some source \<Rightarrow> g\<lparr>gw_launchOwners := remember_owner maximumOperationOwnerHints k source (gw_launchOwners g)\<rparr>)
          in (case map_of (gw_launchOwners g') k of
                None \<Rightarrow> (Inr (Some l), g')
              | Some owner \<Rightarrow> (case assertLaunchSource owner l g' of Some e \<Rightarrow> (Inl e, g') | None \<Rightarrow> (Inr (Some l), g'))))"

definition gw_getArchive ::
  "collation \<Rightarrow> string \<Rightarrow> (string \<Rightarrow> archive_record option reply) \<Rightarrow> gateway \<Rightarrow> (gw_error + archive_record option) \<times> gateway" where
  "gw_getArchive lc k ask g =
     (case lookupOperation lc archive_json (map_of (gw_archiveOwners g) k) ask g of
        Inl e \<Rightarrow> (Inl e, g)
      | Inr None \<Rightarrow> (Inr None, g)
      | Inr (Some (a, learned)) \<Rightarrow>
          let g' = (case learned of None \<Rightarrow> g
                | Some source \<Rightarrow> g\<lparr>gw_archiveOwners := remember_owner maximumOperationOwnerHints k source (gw_archiveOwners g)\<rparr>)
          in (case map_of (gw_archiveOwners g') k of
                None \<Rightarrow> (Inr (Some a), g')
              | Some owner \<Rightarrow> (case assertArchiveSource owner a g' of Some e \<Rightarrow> (Inl e, g') | None \<Rightarrow> (Inr (Some a), g'))))"

definition gw_getSession ::
  "collation \<Rightarrow> string \<Rightarrow> (string \<Rightarrow> session option reply) \<Rightarrow> gateway \<Rightarrow> (gw_error + session option) \<times> gateway" where
  "gw_getSession lc k ask g =
     (case Option.bind (map_of (gw_sessionOwners g) k) (\<lambda>source. Option.bind (gw_snapshot source g)
        (\<lambda>n. find (\<lambda>s. se_sessionId s = k) (as_sessions n))) of
        Some s \<Rightarrow> (Inr (Some s), g)
      | None \<Rightarrow>
          (case lookupOperation lc session_json (map_of (gw_lookupHints g) k) ask g of
             Inl e \<Rightarrow> (Inl e, g)
           | Inr None \<Rightarrow> (Inr None, g)
           | Inr (Some (s, learned)) \<Rightarrow>
               let g' = (case learned of None \<Rightarrow> g
                     | Some source \<Rightarrow> g\<lparr>gw_lookupHints := remember_owner maximumOperationOwnerHints k source (gw_lookupHints g)\<rparr>)
               in (case Option.bind (map_of (gw_lookupHints g') k) (\<lambda>owner. assertSessionSearchOwner owner s g') of
                     Some e \<Rightarrow> (Inl e, g')
                   | None \<Rightarrow> (Inr (Some s),
                       g'\<lparr>gw_lookupRecords := remember_owner maximumOperationOwnerHints k s (gw_lookupRecords g')\<rparr>))))"

end
