(* ===== verification/Gateway_Pages.thy ===== *)
theory Gateway_Pages
  imports Gateway_Route
begin

text \<open>
  Listings of the gateway: the pages of the selected sources one after the other, under cursors of the
  gateway's own. \<open>ask\<close> is what a source answers to a page request, and a page that does not parse is a
  refusal. A call is one step: \<open>ids\<close> gives the page cursors it draws, one for each source it comes to.
\<close>

type_synonym 'r page = "'r list \<times> string option"

subsection \<open>Page cursors\<close>

definition readPageCursor ::
  "page_kind \<Rightarrow> string option \<Rightarrow> string list \<Rightarrow> string \<Rightarrow> gateway \<Rightarrow> gw_error + page_cursor \<times> gateway" where
  "readPageCursor kind cursor sources key g =
     (case cursor of
        None \<Rightarrow> Inr (\<lparr>pc_kind = kind, pc_feedId = gw_feedId g, pc_sourceIds = sources, pc_sourceIndex = 0,
          pc_sourceCursor = None, pc_filterKey = key\<rparr>, g)
      | Some c \<Rightarrow>
          (case map_of (gw_pageCursors g) c of
             None \<Rightarrow> Inl GConflict
           | Some st \<Rightarrow>
               if pc_kind st \<noteq> kind \<or> pc_feedId st \<noteq> gw_feedId g \<or> pc_filterKey st \<noteq> key \<or> pc_sourceIds st \<noteq> sources
               then Inl GConflict
               else Inr (st, g\<lparr>gw_pageCursors := del c (gw_pageCursors g) @ [(c, st)]\<rparr>)))"

definition newPageCursor :: "string \<Rightarrow> page_cursor \<Rightarrow> gateway \<Rightarrow> gateway" where
  "newPageCursor c st g =
     (let t = put c st (gw_pageCursors g)
      in g\<lparr>gw_pageCursors := drop (length t - maximumPageCursors) t\<rparr>)"

text \<open>What a listing does with one record of a page: it must belong to the source, which is then remembered.\<close>

record 'r lister =
  li_kind :: page_kind
  li_check :: "string \<Rightarrow> 'r \<Rightarrow> gateway \<Rightarrow> gw_error option"
  li_remember :: "string \<Rightarrow> 'r \<Rightarrow> gateway \<Rightarrow> gateway"

definition take_record :: "'r lister \<Rightarrow> string \<Rightarrow> 'r \<Rightarrow> gateway effect" where
  "take_record li k r g = (case li_check li k r g of Some e \<Rightarrow> (Some e, g) | None \<Rightarrow> (None, li_remember li k r g))"

definition page_state :: "'r lister \<Rightarrow> string \<Rightarrow> string list \<Rightarrow> nat \<Rightarrow> string option \<Rightarrow> gateway \<Rightarrow> page_cursor" where
  "page_state li key sources j cursor g = \<lparr>pc_kind = li_kind li, pc_feedId = gw_feedId g, pc_sourceIds = sources,
     pc_sourceIndex = j, pc_sourceCursor = cursor, pc_filterKey = key\<rparr>"

fun page_loop ::
  "'r lister \<Rightarrow> (string \<Rightarrow> string option \<Rightarrow> 'r page reply) \<Rightarrow> (nat \<Rightarrow> string) \<Rightarrow> string \<Rightarrow> string list \<Rightarrow> nat \<Rightarrow> string option \<Rightarrow>
   string list \<Rightarrow> gateway \<Rightarrow> (gw_error + 'r page) \<times> gateway" where
  "page_loop li ask ids key sources j cursor [] g = (Inr ([], None), g)"
| "page_loop li ask ids key sources j cursor (k # rest) g =
     (case ask k cursor of
        Refused e \<Rightarrow> (Inl e, g)
      | Lost \<Rightarrow> (Inl GInternal, g)
      | Answered (rs, next) \<Rightarrow>
          (case each (take_record li k) rs g of
             (Some e, g') \<Rightarrow> (Inl e, g')
           | (None, g') \<Rightarrow>
               let after = (case next of Some c \<Rightarrow> Some (page_state li key sources j (Some c) g')
                     | None \<Rightarrow> if Suc j < length sources then Some (page_state li key sources (Suc j) None g') else None);
                   g'' = (case after of None \<Rightarrow> g' | Some st \<Rightarrow> newPageCursor (ids j) st g')
               in if rs \<noteq> [] \<or> next \<noteq> None then (Inr (rs, map_option (\<lambda>_. ids j) after), g'')
                  else page_loop li ask ids key sources (Suc j) None rest g''))"

definition gateway_list ::
  "'r lister \<Rightarrow> (string \<Rightarrow> string option \<Rightarrow> 'r page reply) \<Rightarrow> (nat \<Rightarrow> string) \<Rightarrow> string \<Rightarrow> string list \<Rightarrow> string option \<Rightarrow>
   gateway \<Rightarrow> (gw_error + 'r page) \<times> gateway" where
  "gateway_list li ask ids key sources cursor g =
     (case readPageCursor (li_kind li) cursor sources key g of
        Inl e \<Rightarrow> (Inl e, g)
      | Inr (st, g') \<Rightarrow> page_loop li ask ids key sources (pc_sourceIndex st) (pc_sourceCursor st)
          (drop (pc_sourceIndex st) sources) g')"

subsection \<open>The two listings\<close>

definition paginationFilterKey :: "collation \<Rightarrow> json \<Rightarrow> string" where
  "paginationFilterKey lc q = canonicalJson lc (case q of JObj ms \<Rightarrow> JObj (del ''limit'' ms) | _ \<Rightarrow> q)"

definition launch_lister :: "launch_record lister" where
  "launch_lister = \<lparr>li_kind = LaunchPages, li_check = (\<lambda>k l g. assertLaunchSource k l g),
     li_remember = (\<lambda>k l g. g\<lparr>gw_launchOwners := remember_owner maximumOperationOwnerHints (lq_launchId l) k (gw_launchOwners g)\<rparr>)\<rparr>"

definition session_lister :: "session lister" where
  "session_lister = \<lparr>li_kind = SessionPages, li_check = (\<lambda>k s g. assertSessionSearchOwner k s g),
     li_remember = (\<lambda>k s g. g\<lparr>gw_lookupHints := remember_owner maximumOperationOwnerHints (se_sessionId s) k (gw_lookupHints g)\<rparr>)\<rparr>"

definition gw_listLaunches ::
  "collation \<Rightarrow> (launch_list \<Rightarrow> string \<Rightarrow> launch_record page reply) \<Rightarrow> (nat \<Rightarrow> string) \<Rightarrow> launch_list \<Rightarrow> gateway \<Rightarrow>
   (gw_error + launch_record page) \<times> gateway" where
  "gw_listLaunches lc ask ids q g =
     (case (case ll_runtimeNodeId q of None \<Rightarrow> Inr (selectedSourceIds lc g)
            | Some r \<Rightarrow> map_sum id (\<lambda>(k, n). [k]) (ownerForRuntime r g)) of
        Inl e \<Rightarrow> (Inl e, g)
      | Inr sources \<Rightarrow>
          gateway_list launch_lister (\<lambda>k c. ask (q\<lparr>ll_cursor := c\<rparr>) k) ids (paginationFilterKey lc (launch_list_json q))
            sources (ll_cursor q) g)"

definition sessionSearchSourceIds :: "collation \<Rightarrow> session_search \<Rightarrow> gateway \<Rightarrow> gw_error + string list" where
  "sessionSearchSourceIds lc q g =
     (case sq_runtimeNodeIds q of
        None \<Rightarrow> Inr (selectedSourceIds lc g)
      | Some rs \<Rightarrow> map_sum id (\<lambda>ks. filter (\<lambda>k. k \<in> set ks) (selectedSourceIds lc g))
          (map_err (\<lambda>r. map_sum id fst (ownerForRuntime r g)) rs))"

definition scoped :: "gateway \<Rightarrow> session_search \<Rightarrow> string \<Rightarrow> string option \<Rightarrow> session_search" where
  "scoped g q k c = q\<lparr>sq_cursor := c, sq_runtimeNodeIds :=
     map_option (filter (\<lambda>r. map_of (gw_runtimeNodeOwners g) r = Some k)) (sq_runtimeNodeIds q)\<rparr>"

definition gw_searchSessions ::
  "collation \<Rightarrow> (session_search \<Rightarrow> string \<Rightarrow> session page reply) \<Rightarrow> (nat \<Rightarrow> string) \<Rightarrow> session_search \<Rightarrow> gateway \<Rightarrow>
   (gw_error + session page) \<times> gateway" where
  "gw_searchSessions lc ask ids q g =
     (case sessionSearchSourceIds lc q g of
        Inl e \<Rightarrow> (Inl e, g)
      | Inr sources \<Rightarrow>
          gateway_list session_lister (\<lambda>k c. ask (scoped g q k c) k) ids (paginationFilterKey lc (search_json q))
            sources (sq_cursor q) g)"

subsection \<open>Following the cursors\<close>

text \<open>A listing by the cursors of one source, and by the cursors of the gateway.\<close>

inductive source_lists :: "(string option \<Rightarrow> 'r page reply) \<Rightarrow> string option \<Rightarrow> 'r list \<Rightarrow> bool" for ask where
  last_page: "ask c = Answered (rs, None) \<Longrightarrow> source_lists ask c rs"
| more_pages: "ask c = Answered (rs, Some c') \<Longrightarrow> source_lists ask (Some c') rs' \<Longrightarrow> source_lists ask c (rs @ rs')"

inductive gateway_lists ::
  "(string option \<Rightarrow> gateway \<Rightarrow> (gw_error + 'r page) \<times> gateway) \<Rightarrow> string option \<Rightarrow> gateway \<Rightarrow> 'r list \<Rightarrow> bool" for call where
  last_call: "call c g = (Inr (rs, None), g') \<Longrightarrow> gateway_lists call c g rs"
| more_calls: "call c g = (Inr (rs, Some c'), g') \<Longrightarrow> gateway_lists call (Some c') g' rs' \<Longrightarrow> gateway_lists call c g (rs @ rs')"

text \<open>What a listing may change of the gateway: it remembers sources and draws page cursors.\<close>

definition same_projection :: "gateway \<Rightarrow> gateway \<Rightarrow> bool" where
  "same_projection g g' \<longleftrightarrow> gw_sources g' = gw_sources g \<and> gw_selected g' = gw_selected g \<and> gw_feedId g' = gw_feedId g \<and>
     gw_runtimeNodeOwners g' = gw_runtimeNodeOwners g"

definition lister_ok :: "'r lister \<Rightarrow> bool" where
  "lister_ok li \<longleftrightarrow>
     (\<forall>k r g. same_projection g (li_remember li k r g) \<and> gw_pageCursors (li_remember li k r g) = gw_pageCursors g) \<and>
     (\<forall>k r g g'. same_projection g g' \<longrightarrow> li_check li k r g' = li_check li k r g)"

lemma listers_ok: "lister_ok launch_lister" "lister_ok session_lister"
  by (auto simp: lister_ok_def launch_lister_def session_lister_def same_projection_def assertLaunchSource_def
      assertSessionSearchOwner_def gw_snapshot_def gw_source_def split: option.splits)

lemma same_projection_refl [simp]: "same_projection g g"
  by (simp add: same_projection_def)

lemma same_projection_trans: "same_projection g g' \<Longrightarrow> same_projection g' g'' \<Longrightarrow> same_projection g g''"
  by (simp add: same_projection_def)

definition pages_ok :: "gateway \<Rightarrow> gateway \<Rightarrow> bool" where
  "pages_ok g g' \<longleftrightarrow> same_projection g g' \<and> length (gw_pageCursors g') \<le> maximumPageCursors"

lemma take_records:
  assumes li: "lister_ok li" and "pages_ok g0 g" and "\<And>r. r \<in> set rs \<Longrightarrow> li_check li k r g0 = None"
  shows "\<exists>g'. each (take_record li k) rs g = (None, g') \<and> pages_ok g0 g'"
  using assms(2,3)
proof (induction rs arbitrary: g)
  case Nil
  then show ?case by simp
next
  case (Cons r rs)
  have "same_projection g0 g" using Cons.prems(1) by (simp add: pages_ok_def)
  then have "li_check li k r g = li_check li k r g0" using li unfolding lister_ok_def by blast
  then have "li_check li k r g = None" using Cons.prems(2) by simp
  moreover have "pages_ok g0 (li_remember li k r g)"
    using li Cons.prems(1) same_projection_trans by (auto simp: lister_ok_def pages_ok_def)
  ultimately show ?case using Cons.IH Cons.prems(2) by (simp add: and_then_def take_record_def)
qed

lemma length_put: "has c t \<Longrightarrow> length (put c v t) = length t"
  by (induction t) (auto simp: has_def)

lemma length_del: "map_of t c = Some v \<Longrightarrow> length (del c t) < length t"
proof -
  assume "map_of t c = Some v"
  then have "(c, v) \<in> set t" by (rule map_of_SomeD)
  then have "length (filter (\<lambda>p. fst p \<noteq> c) t) < length t" by (intro length_filter_less) auto
  then show ?thesis by (simp add: AList.delete_eq case_prod_unfold eq_commute)
qed

lemma newPageCursor_ok:
  assumes "pages_ok g0 g"
  shows "pages_ok g0 (newPageCursor c st g) \<and> map_of (gw_pageCursors (newPageCursor c st g)) c = Some st"
proof (cases "has c (gw_pageCursors g)")
  case True
  then have "length (put c st (gw_pageCursors g)) = length (gw_pageCursors g)" by (rule length_put)
  with assms show ?thesis by (simp add: newPageCursor_def pages_ok_def same_projection_def Let_def)
next
  case False
  have "map_of (drop n (gw_pageCursors g)) c = None" for n
    using False by (auto simp: has_iff_key map_of_eq_None_iff dest: in_set_dropD)
  with False assms show ?thesis
    by (auto simp: newPageCursor_def put_append pages_ok_def same_projection_def maximumPageCursors_def map_add_def)
qed

lemma readPageCursor_new:
  assumes "pages_ok g0 g" "map_of (gw_pageCursors g) c = Some (page_state li key sources j cursor g0)"
  shows "\<exists>g'. readPageCursor (li_kind li) (Some c) sources key g = Inr (page_state li key sources j cursor g0, g') \<and> pages_ok g0 g'"
proof -
  have "length (del c (gw_pageCursors g)) < length (gw_pageCursors g)" by (rule length_del [OF assms(2)])
  with assms show ?thesis
    by (simp add: readPageCursor_def page_state_def pages_ok_def same_projection_def)
qed

definition goes_on ::
  "(string option \<Rightarrow> gateway \<Rightarrow> (gw_error + 'r page) \<times> gateway) \<Rightarrow> (gw_error + 'r page) \<times> gateway \<Rightarrow> 'r list \<Rightarrow> bool" where
  "goes_on call r out \<longleftrightarrow>
     (case r of
        (Inl e, g) \<Rightarrow> False
      | (Inr (rs, None), g) \<Rightarrow> out = rs
      | (Inr (rs, Some c), g) \<Rightarrow> \<exists>out'. out = rs @ out' \<and> gateway_lists call (Some c) g out')"

lemma goes_on_lists: "goes_on call (call c g) out \<Longrightarrow> gateway_lists call c g out"
  by (cases "call c g") (auto simp: goes_on_def split: sum.splits option.splits intro: gateway_lists.intros)

lemma enter_page:
  assumes "pages_ok g0 g" and call: "\<And>c g. same_projection g0 g \<Longrightarrow> call c g = gateway_list li ask (ids g) key sources c g"
    and loop: "\<And>g i. pages_ok g0 g \<Longrightarrow> goes_on call (page_loop li ask i key sources j cursor (drop j sources) g) out"
  shows "gateway_lists call (Some c) (newPageCursor c (page_state li key sources j cursor g) g) out"
proof (rule goes_on_lists)
  let ?h = "newPageCursor c (page_state li key sources j cursor g) g"
  have st: "page_state li key sources j cursor g = page_state li key sources j cursor g0"
    using assms(1) by (simp add: page_state_def pages_ok_def same_projection_def)
  have h: "pages_ok g0 ?h" "map_of (gw_pageCursors ?h) c = Some (page_state li key sources j cursor g0)"
    using newPageCursor_ok [OF assms(1)] st by auto
  from readPageCursor_new [where key = key, OF h]
  obtain g' where g': "readPageCursor (li_kind li) (Some c) sources key ?h = Inr (page_state li key sources j cursor g0, g')"
    "pages_ok g0 g'" by blast
  have "call (Some c) ?h = page_loop li ask (ids ?h) key sources j cursor (drop j sources) g'"
    using h(1) by (simp add: call pages_ok_def gateway_list_def g'(1)) (simp add: page_state_def)
  with loop [OF g'(2)] show "goes_on call (call (Some c) ?h) out" by simp
qed

lemma page_loop_goes_on:
  assumes li: "lister_ok li" and j: "j < length sources"
    and call: "\<And>c g. same_projection g0 g \<Longrightarrow> call c g = gateway_list li ask (ids g) key sources c g"
    and rest: "\<And>g i. pages_ok g0 g \<Longrightarrow> goes_on call (page_loop li ask i key sources (Suc j) None (drop (Suc j) sources) g) out"
    and ends: "Suc j = length sources \<Longrightarrow> out = []"
    and lists: "source_lists (ask (sources ! j)) c rs" "\<And>r. r \<in> set rs \<Longrightarrow> li_check li (sources ! j) r g0 = None"
  shows "pages_ok g0 g \<Longrightarrow> goes_on call (page_loop li ask i key sources j c (drop j sources) g) (rs @ out)"
  using lists
proof (induction arbitrary: g i)
  case (last_page c rs)
  obtain g' where g': "each (take_record li (sources ! j)) rs g = (None, g')" "pages_ok g0 g'"
    using take_records [OF li last_page.prems(1)] last_page.prems(2) by blast
  have d: "drop j sources = sources ! j # drop (Suc j) sources" using j by (rule Cons_nth_drop_Suc [symmetric])
  let ?n = "newPageCursor (i j) (page_state li key sources (Suc j) None g') g'"
  show ?case
  proof (cases "Suc j < length sources")
    case True
    have "goes_on call (page_loop li ask i key sources (Suc j) None (drop (Suc j) sources) ?n) out"
      using newPageCursor_ok [OF g'(2)] by (intro rest) blast
    moreover have "gateway_lists call (Some (i j)) ?n out" by (rule enter_page [OF g'(2) call rest])
    ultimately show ?thesis
    proof (cases "rs = []")
      case nil: True
      then have "g' = g" using g'(1) by simp
      with nil True last_page.hyps show ?thesis
        using \<open>goes_on call (page_loop li ask i key sources (Suc j) None (drop (Suc j) sources) ?n) out\<close>
        by (simp add: d Let_def)
    next
      case ne: False
      with True last_page.hyps show ?thesis
        using \<open>gateway_lists call (Some (i j)) ?n out\<close> by (simp add: d g'(1) Let_def goes_on_def)
    qed
  next
    case False
    with j ends have last: "Suc j = length sources" "out = []" by auto
    with last_page.hyps show ?thesis by (auto simp: d g'(1) Let_def goes_on_def)
  qed
next
  case (more_pages c rs c' rs')
  have ok: "li_check li (sources ! j) r g0 = None" if "r \<in> set rs \<union> set rs'" for r using more_pages.prems(2) that by auto
  obtain g' where g': "each (take_record li (sources ! j)) rs g = (None, g')" "pages_ok g0 g'"
    using take_records [OF li more_pages.prems(1)] ok by (metis UnCI)
  have d: "drop j sources = sources ! j # drop (Suc j) sources" using j by (rule Cons_nth_drop_Suc [symmetric])
  have "gateway_lists call (Some (i j)) (newPageCursor (i j) (page_state li key sources j (Some c') g') g') (rs' @ out)"
  proof (rule enter_page [OF g'(2) call])
    show "goes_on call (page_loop li ask i key sources j (Some c') (drop j sources) h) (rs' @ out)" if "pages_ok g0 h" for h i
      by (rule more_pages.IH [OF that]) (simp add: ok)
  qed
  then show ?case using more_pages.hyps(1) by (simp add: d g'(1) Let_def goes_on_def)
qed

lemma page_loop_all:
  assumes li: "lister_ok li" and call: "\<And>c g. same_projection g0 g \<Longrightarrow> call c g = gateway_list li ask (ids g) key sources c g"
    and lists: "\<And>k. k \<in> set sources \<Longrightarrow> source_lists (ask k) None (L k)"
    and checks: "\<And>k r. k \<in> set sources \<Longrightarrow> r \<in> set (L k) \<Longrightarrow> li_check li k r g0 = None"
  shows "length sources - j = n \<Longrightarrow> pages_ok g0 g \<Longrightarrow>
    goes_on call (page_loop li ask i key sources j None (drop j sources) g) (concat (map L (drop j sources)))"
proof (induction n arbitrary: j g i)
  case 0
  then show ?case by (simp add: goes_on_def)
next
  case (Suc n)
  then have j: "j < length sources" by simp
  then have k: "sources ! j \<in> set sources" by simp
  have d: "concat (map L (drop j sources)) = L (sources ! j) @ concat (map L (drop (Suc j) sources))"
    using Cons_nth_drop_Suc [OF j] by (metis concat.simps(2) list.simps(9))
  show ?case
    unfolding d
    by (rule page_loop_goes_on [OF li j call _ _ lists [OF k] checks [OF k] Suc.prems(2)])
      (use Suc.IH Suc.prems(1) in auto)
qed

lemma gateway_lists_all:
  assumes li: "lister_ok li" and size: "length (gw_pageCursors g) \<le> maximumPageCursors"
    and call: "\<And>c g'. same_projection g g' \<Longrightarrow> call c g' = gateway_list li ask (ids g') key sources c g'"
    and lists: "\<And>k. k \<in> set sources \<Longrightarrow> source_lists (ask k) None (L k)"
    and checks: "\<And>k r. k \<in> set sources \<Longrightarrow> r \<in> set (L k) \<Longrightarrow> li_check li k r g = None"
  shows "gateway_lists call None g (concat (map L sources))"
proof (rule goes_on_lists)
  have "pages_ok g g" using size by (simp add: pages_ok_def)
  from page_loop_all [where ids = ids and key = key and j = 0 and i = "ids g", OF li call lists checks refl this]
  show "goes_on call (call None g) (concat (map L sources))"
    by (simp add: call gateway_list_def readPageCursor_def)
qed

lemma launches_listed:
  assumes size: "length (gw_pageCursors g) \<le> maximumPageCursors" and any: "ll_runtimeNodeId q = None"
    and lists: "\<And>k. k \<in> set (gw_selected g) \<Longrightarrow> source_lists (\<lambda>c. ask (q\<lparr>ll_cursor := c\<rparr>) k) None (L k)"
    and own: "\<And>k l. k \<in> set (gw_selected g) \<Longrightarrow> l \<in> set (L k) \<Longrightarrow> map_of (gw_runtimeNodeOwners g) (lq_runtimeNodeId l) = Some k"
  shows "gateway_lists (\<lambda>c g. gw_listLaunches lc ask (ids g) (q\<lparr>ll_cursor := c\<rparr>) g) None g
    (concat (map L (selectedSourceIds lc g)))"
proof (rule gateway_lists_all [where li = launch_lister and ids = ids and ask = "\<lambda>k c. ask (q\<lparr>ll_cursor := c\<rparr>) k"
      and key = "paginationFilterKey lc (launch_list_json q)"])
  show "gw_listLaunches lc ask (ids g') (q\<lparr>ll_cursor := c\<rparr>) g' =
      gateway_list launch_lister (\<lambda>k c. ask (q\<lparr>ll_cursor := c\<rparr>) k) (ids g') (paginationFilterKey lc (launch_list_json q))
        (selectedSourceIds lc g) c g'" if "same_projection g g'" for c g'
    using that any by (simp add: gw_listLaunches_def launch_list_json_def selectedSourceIds_def same_projection_def)
qed (use assms listers_ok in \<open>auto simp: selectedSourceIds_def launch_lister_def assertLaunchSource_def\<close>)

end
