(* ===== verification/Gateway_Props.thy ===== *)
theory Gateway_Props
  imports Gateway_Delivery Gateway_Pages Control_Metadata_Props Lifecycle_Merge "HOL-Library.Code_Target_Nat" "HOL-Library.Code_Target_Int"
begin

text \<open>
  The properties of the gateway, and a run of it with two sources: a control node and the branch below it,
  which both show the branch's session.
\<close>

subsection \<open>A run\<close>

definition up_node :: control_node where
  "up_node = \<lparr>cn_controlNodeId = ''c1'', cn_bootId = ''b1'', cn_feedId = ''f1'', cn_name = ''up'', cn_endpointId = None,
     cn_presence = Online, cn_dataRole = Authority demo_authority, cn_connectedAt = None, cn_lastHeartbeatAt = None, cn_capabilities = []\<rparr>"

definition down_node :: control_node where
  "down_node = \<lparr>cn_controlNodeId = ''c2'', cn_bootId = ''b2'', cn_feedId = ''f2'', cn_name = ''down'', cn_endpointId = None,
     cn_presence = Online, cn_dataRole = Branch demo_authority (Attached ''c1'' ''a1'' ''l1'' ''t''), cn_connectedAt = None,
     cn_lastHeartbeatAt = None, cn_capabilities = []\<rparr>"

definition branch_runtime :: runtime_node where
  "branch_runtime = \<lparr>rn_runtimeNodeId = ''rn1'', rn_bootId = ''rb1'', rn_owner = ''c2'', rn_name = ''rn'', rn_endpointId = None,
     rn_presence = Online, rn_reachability = Reachable, rn_connectedAt = None, rn_lastHeartbeatAt = None, rn_allowedRoots = [],
     rn_harnesses = [], rn_launchProfiles = []\<rparr>"

definition source_view :: "control_node list \<Rightarrow> session \<Rightarrow> access_snapshot" where
  "source_view ns s =
     (let root = hd ns; ks = map cn_controlNodeId ns in
      \<lparr>as_manifest = \<lparr>sm_sourceControlNodeId = cn_controlNodeId root, sm_sourceBootId = cn_bootId root,
         sm_authority = demo_authority, sm_projectionRoot = cn_controlNodeId root, sm_covered = ks, sm_feedId = cn_feedId root,
         sm_controlCursor = 0, sm_generatedAt = ''t'', sm_capabilities = []\<rparr>,
       as_parents = map (\<lambda>k. (k, if k = hd ks then None else Some (hd ks))) ks, as_capturedAt = ''t'',
       as_controlNodes = ns, as_runtimeNodes = [branch_runtime], as_sessions = [s], as_interactions = [], as_metadataOperations = []\<rparr>)"

definition up_view :: "session \<Rightarrow> access_snapshot" where
  "up_view = source_view [up_node, down_node]"

definition down_view :: "session \<Rightarrow> access_snapshot" where
  "down_view = source_view [down_node]"

definition demo_source :: "string \<Rightarrow> source_definition" where
  "demo_source k = \<lparr>sd_sourceId = k, sd_displayName = k, sd_endpointId = ''e'', sd_priority = None, sd_enabled = None\<rparr>"

definition demo_gateway :: gateway where
  "demo_gateway = projr (newGateway [demo_source ''up'', demo_source ''down''] ''g0'' ''t'' 4)"

definition loads :: "string \<Rightarrow> string \<Rightarrow> access_snapshot \<Rightarrow> gateway \<Rightarrow> gateway" where
  "loads fresh k n g = (let (at_call, g') = refresh_begin ''t'' k g
     in snd (refresh_end units_compare ''t'' fresh (fresh @ ''x'') k at_call (Inr n) g'))"

definition other_session :: session where
  "other_session = demo_session\<lparr>se_metadata := (se_metadata demo_session)\<lparr>ms_values := [(''agent.title'', JStr ''other'')]\<rparr>\<rparr>"

definition joined_gateway :: gateway where
  "joined_gateway = loads ''g2'' ''down'' (down_view demo_session) (loads ''g1'' ''up'' (up_view demo_session) demo_gateway)"


subsection \<open>Selection\<close>

definition lost_gateway :: gateway where
  "lost_gateway = snd (markUnavailable units_compare ''t'' ''g9'' ''up'' None joined_gateway)"

text \<open>While \<open>up\<close> is being refreshed, \<open>down\<close> loads a view that contradicts it; then \<open>up\<close> loads one that agrees.\<close>

definition refreshing_gateway :: "(string \<times> access_snapshot option) \<times> gateway" where
  "refreshing_gateway = refresh_begin ''t'' ''up'' (gateway_subscribe units_compare None None False False joined_gateway)"

definition hidden_gateway :: gateway where
  "hidden_gateway = loads ''g3'' ''down'' (down_view other_session) (snd refreshing_gateway)"

definition shown_gateway :: gateway where
  "shown_gateway = snd (refresh_end units_compare ''t'' ''g4'' ''g5'' ''up'' (fst refreshing_gateway)
     (Inr (up_view other_session)) hidden_gateway)"

text \<open>What the properties use of the run, each state evaluated once.\<close>

definition lost_ok :: "gateway \<Rightarrow> bool" where
  "lost_ok g \<longleftrightarrow> ''down'' \<in> set (gw_selected g) \<and> gw_snapshot ''down'' g = Some (down_view demo_session)"

definition shown_ok :: "string \<times> access_snapshot option \<Rightarrow> gw_error option \<times> gateway \<Rightarrow> bool" where
  "shown_ok at_call r \<longleftrightarrow> fst r = None \<and> selectionSignature (snd r) = fst at_call \<and>
     map se_sessionId (gw_listSessions units_compare (snd r)) = [''s1'']"

definition hidden_ok :: "string \<times> access_snapshot option \<Rightarrow> gateway \<Rightarrow> bool" where
  "hidden_ok at_call g \<longleftrightarrow> gw_listSessions units_compare g = [] \<and>
     shown_ok at_call (refresh_end units_compare ''t'' ''g4'' ''g5'' ''up'' at_call (Inr (up_view other_session)) g)"

definition refreshing_ok :: "(string \<times> access_snapshot option) \<times> gateway \<Rightarrow> bool" where
  "refreshing_ok r \<longleftrightarrow> hidden_ok (fst r) (loads ''g3'' ''down'' (down_view other_session) (snd r))"

definition joined_ok :: "gateway \<Rightarrow> bool" where
  "joined_ok g \<longleftrightarrow> sources_ok g \<and> ''up'' \<in> set (gw_selected g) \<and> gw_snapshot ''up'' g = Some (up_view demo_session) \<and>
     map_option ss_state (gw_source ''up'' g) = Some SelectedSource \<and>
     map_option available (gw_source ''down'' g) = Some True \<and> gw_snapshot ''down'' g \<noteq> None \<and>
     lost_ok (snd (markUnavailable units_compare ''t'' ''g9'' ''up'' None g)) \<and>
     refreshing_ok (refresh_begin ''t'' ''up'' (gateway_subscribe units_compare None None False False g))"

lemma joined_run: "joined_ok joined_gateway"
  by code_simp

lemma joined_sources_ok: "sources_ok joined_gateway"
  using joined_run by (simp add: joined_ok_def)

lemma joined_keys_ok: "keys_ok (gw_sources joined_gateway)"
  using joined_sources_ok by (simp add: sources_ok_def)

lemma failover_run:
  "''up'' \<in> set (gw_selected joined_gateway)" "gw_snapshot ''up'' joined_gateway = Some (up_view demo_session)"
  "''down'' \<in> set (gw_selected lost_gateway)" "gw_snapshot ''down'' lost_gateway = Some (down_view demo_session)"
  "map_option ss_state (gw_source ''up'' joined_gateway) = Some SelectedSource"
  "map_option available (gw_source ''down'' joined_gateway) = Some True" "gw_snapshot ''down'' joined_gateway \<noteq> None"
  using joined_run by (simp_all add: joined_ok_def lost_ok_def lost_gateway_def)

lemma hidden_run:
  "fst (refresh_end units_compare ''t'' ''g4'' ''g5'' ''up'' (fst refreshing_gateway) (Inr (up_view other_session)) hidden_gateway) = None"
  "selectionSignature shown_gateway = fst (fst refreshing_gateway)"
  "map se_sessionId (gw_listSessions units_compare hidden_gateway) = []"
  "map se_sessionId (gw_listSessions units_compare shown_gateway) = [''s1'']"
  using joined_run
  by (simp_all add: joined_ok_def refreshing_ok_def hidden_ok_def shown_ok_def hidden_gateway_def shown_gateway_def refreshing_gateway_def)

lemma other_view_ok: "gateway_snapshot_ok (up_view other_session)"
  by code_simp

text \<open>C8: while the available sources are each consistent, selecting among them never fails on a record that
  two selected sources claim, and afterwards every owner table names exactly the selected source that has
  the record.\<close>

theorem selection_owns_exactly:
  assumes "sources_ok g"
  shows "\<exists>g'. reselect lc t fresh previous lost g = (None, g') \<and> owners_exact (gw_selected g') g'"
  by (rule reselect_succeeds [OF assms])

theorem selection_owns_exactly_witness:
  "\<exists>g'. reselect units_compare ''t'' ''g9'' [] None joined_gateway = (None, g') \<and> owners_exact (gw_selected g') g'"
  by (rule selection_owns_exactly [OF joined_sources_ok])

lemma reselect_frame:
  "gw_sources (snd (reselect lc t fresh previous lost g)) = gw_sources (choose_sources lc t lost g)"
  "gw_selected (snd (reselect lc t fresh previous lost g)) = gw_selected (choose_sources lc t lost g)"
  using rebuildOwners_only_owners [of "choose_sources lc t lost g"]
  by (auto simp: reselect_def and_then_def change_def only_owners_def split: prod.splits option.splits)

lemma accounted_cong:
  "gw_sources g' = gw_sources g \<Longrightarrow> gw_selected g' = gw_selected g \<Longrightarrow> accounted g' k s = accounted g k s"
  by (cases "ss_state s") (simp_all add: accounted_def gw_snapshot_def gw_source_def)

lemma available_offered:
  assumes keys: "keys_ok (gw_sources g)" and "gw_source k g = Some s" "available s" "ss_snapshot s = Some n"
  shows "\<exists>c \<in> set (offers g). fst c = k"
proof -
  have "(k, refreshed_state s) \<in> set (gw_sources (reset_selection g))"
    using map_of_SomeD [OF assms(2) [unfolded gw_source_def]] by (force simp: reset_selection_def)
  moreover have "ss_state (refreshed_state s) \<noteq> UnavailableSource" "ss_state (refreshed_state s) \<noteq> Disabled"
    using assms(3,4) by (auto simp: refreshed_state_def available_def Let_def)
  moreover have "(k, s') \<in> set ss \<Longrightarrow> ss_snapshot s' = Some n \<Longrightarrow> ss_state s' \<noteq> UnavailableSource \<Longrightarrow> ss_state s' \<noteq> Disabled \<Longrightarrow>
      (k, s', n) \<in> set (candidates ss)" for ss s'
    by (induction ss) (auto split: option.splits)
  ultimately have "(k, refreshed_state s, n) \<in> set (offers g)" using assms(4) by (simp add: offers_def)
  then show ?thesis by force
qed

text \<open>C16: no available source disappears: after a selection it is selected, or a selected source of the same
  authority covers all of its control nodes, or it is in conflict and says why.\<close>

theorem offered_sources_accounted:
  assumes "keys_ok (gw_sources g)" "gw_source k g = Some s" "available s" "ss_snapshot s \<noteq> None"
    and "g' = snd (reselect lc t fresh previous lost g)"
  shows "\<exists>s'. gw_source k g' = Some s' \<and> accounted g' k s'"
proof -
  obtain n where "ss_snapshot s = Some n" using assms(4) by auto
  from available_offered [OF assms(1-3) this] obtain c where c: "c \<in> set (offers g)" "fst c = k" by blast
  from choose_accounts [OF assms(1) c(1), of lc t lost] c(2) reselect_frame [of lc t fresh previous lost g]
  show ?thesis
    unfolding assms(5) using accounted_cong [of "snd (reselect lc t fresh previous lost g)" "choose_sources lc t lost g"]
    by (simp add: gw_source_def)
qed

theorem offered_sources_accounted_witness:
  "\<exists>s'. gw_source ''down'' (snd (reselect units_compare ''t'' ''g9'' [] None joined_gateway)) = Some s' \<and>
     accounted (snd (reselect units_compare ''t'' ''g9'' [] None joined_gateway)) ''down'' s'"
proof -
  obtain s where s: "gw_source ''down'' joined_gateway = Some s" using failover_run(6) by auto
  have "available s" "ss_snapshot s \<noteq> None" using failover_run(6,7) by (simp_all add: s gw_snapshot_def)
  from offered_sources_accounted [OF joined_keys_ok s this refl] show ?thesis .
qed

text \<open>C19: when a selected source is lost, a source that is selected in its place under the same authority and
  shows some of the same nodes tells nothing that contradicts what the lost source had shown.\<close>

theorem failover_agrees:
  assumes "keys_ok (gw_sources g)" "gw_source k g = Some s" "ss_state s \<noteq> UnavailableSource"
    and "k \<in> set (gw_selected g)" "gw_snapshot k g = Some n"
    and "g' = snd (markUnavailable lc t fresh k cause g)" "j \<in> set (gw_selected g')" "gw_snapshot j g' = Some m"
    and "sm_authority (as_manifest m) = sm_authority (as_manifest n)" "set (node_ids n) \<inter> set (node_ids m) \<noteq> {}"
  shows "overlappingRecordConflict lc n m = None"
proof -
  let ?f = "\<lambda>s. s\<lparr>ss_state := UnavailableSource, ss_selectedBy := None,
      ss_lastError := Some (case cause of None \<Rightarrow> ''source disconnected'' | Some why \<Rightarrow> why), ss_updatedAt := t\<rparr>"
  let ?g = "put_source k ?f g"
  have g': "g' = snd (reselect lc t fresh (selectionSignature g) (Some n) ?g)"
    using assms(2-6) by (simp add: markUnavailable_def and_then_def change_def)
  have keys: "keys_ok (gw_sources ?g)" using assms(1,2) by (simp add: put_source_def)
  from assms(7) have sel: "j \<in> set (gw_selected (choose_sources lc t (Some n) ?g))" unfolding g' reselect_frame .
  then obtain c where c: "c \<in> set (eligible lc (Some n) (offers ?g))" "j = fst c"
    unfolding choose_selected [OF keys] using pick_subset by fastforce
  then have off: "c \<in> set (offers ?g)" and clear: "\<not> accused (all_verdicts lc (Some n) (offers ?g)) c"
    by (auto simp: eligible_members)
  have "gw_snapshot j ?g = Some m"
    using assms(8) choose_snapshot [of j lc t "Some n" ?g]
    unfolding g' gw_snapshot_def gw_source_def reselect_frame(1) by simp
  then have m: "snd (snd c) = m" using offers_facts(2) [OF keys off] c(2) by simp
  obtain vs where vs: "all_verdicts lc (Some n) (offers ?g) =
      vs @ concat (map (failover_verdict lc n) (filter (\<lambda>c. \<not> accused vs c) (offers ?g)))"
    unfolding all_verdicts_def Let_def accused_def option.case by blast
  have "\<not> accused (failover_verdict lc n c) c"
    using clear off unfolding vs by (simp only: accused_append accused_concat set_map set_filter) blast
  moreover have "coverageRelation (as_manifest n) (cand_manifest c) \<noteq> Disjoint"
    using assms(10) m by (simp add: coverageRelation_disjoint cand_manifest_def node_ids_def)
  ultimately show ?thesis
    using assms(9) m
    by (cases "coverageRelation (as_manifest n) (cand_manifest c) = Partial"; cases "overlappingRecordConflict lc n m")
      (simp_all add: failover_verdict_def accused_def Let_def cand_manifest_def)
qed


theorem failover_agrees_witness:
  "overlappingRecordConflict units_compare (up_view demo_session) (down_view demo_session) = None"
proof -
  obtain s where s: "gw_source ''up'' joined_gateway = Some s" "ss_state s \<noteq> UnavailableSource" using failover_run(5) by auto
  have "sm_authority (as_manifest (down_view demo_session)) = sm_authority (as_manifest (up_view demo_session))"
    and "set (node_ids (up_view demo_session)) \<inter> set (node_ids (down_view demo_session)) \<noteq> {}"
    by (simp_all add: up_view_def down_view_def source_view_def node_ids_def Let_def)
  from failover_agrees [OF joined_keys_ok s failover_run(1,2) lost_gateway_def failover_run(3,4) this]
  show ?thesis .
qed

subsection \<open>The stream\<close>

text \<open>C7: from its cursor on, a subscriber of the gateway is led event by event: control events come under
  consecutive cursors, a heartbeat names the position reached, a change of the selected sources is a reset
  that names the feed it leaves, and what it has read and still has waiting leads to where the gateway is.\<close>

theorem gateway_stream_follows:
  assumes "newGateway defs feedId t capacity = Inr g0" "(gateway_step lc)\<^sup>*\<^sup>* g0 g"
    and "(gateway_step lc)\<^sup>*\<^sup>* (gateway_subscribe lc cursor sessions includeNative False g) g'"
  shows "in_step g' (cursor_start cursor) (gw_subscribers g' ! length (gw_subscribers g))"
proof -
  let ?s = "gateway_subscribe lc cursor sessions includeNative False g"
  have ok: "journal_ok g"
    using gateway_run_keeps [OF assms(2)] newGateway_journal [OF assms(1)] by (simp add: keeps_step_def)
  have "length (gw_subscribers g) < length (gw_subscribers ?s)" by (simp add: gateway_subscribe_def Let_def)
  moreover have "journal_ok ?s" using ok by (simp add: gateway_subscribe_def journal_ok_def Let_def)
  ultimately show ?thesis
    using gateway_run_keeps [OF assms(3)] subscribed_in_step [OF ok refl] by (simp add: keeps_step_def)
qed

theorem gateway_stream_follows_witness:
  "in_step (gateway_next 0 (gateway_subscribe units_compare None None True False demo_gateway)) None
    (gw_subscribers (gateway_next 0 (gateway_subscribe units_compare None None True False demo_gateway)) ! 0)"
proof -
  have new: "newGateway [demo_source ''up'', demo_source ''down''] ''g0'' ''t'' 4 = Inr demo_gateway"
    by (simp add: demo_gateway_def newGateway_def demo_source_def max_safe_integer_def)
  have step: "(gateway_step units_compare)\<^sup>*\<^sup>* (gateway_subscribe units_compare None None True False demo_gateway)
      (gateway_next 0 (gateway_subscribe units_compare None None True False demo_gateway))"
    by (rule r_into_rtranclp) (rule gateway_step.pulled)
  have "length (gw_subscribers demo_gateway) = 0" by code_simp
  with gateway_stream_follows [OF new rtranclp.rtrancl_refl step] show ?thesis by (simp add: cursor_start_def)
qed

lemma reselect_silent:
  assumes "selectionSignature (snd (reselect lc t fresh previous lost g)) = previous"
  shows "quiet g (snd (reselect lc t fresh previous lost g))"
proof -
  obtain e h where o: "rebuildOwners (choose_sources lc t lost g) = (e, h)" by (cases "rebuildOwners (choose_sources lc t lost g)")
  have q: "quiet g h"
    using quiet_trans [OF quiet_choose only_owners_quiet [OF rebuildOwners_only_owners], of g lc t lost] by (simp add: o)
  have sig: "selectionSignature h' = selectionSignature h''"
    if "gw_sources h' = gw_sources h''" "gw_selected h' = gw_selected h''" for h' h''
    using that by (simp add: selectionSignature_def gw_snapshot_def gw_source_def)
  show ?thesis
  proof (cases e)
    case None
    let ?r = "if selectionSignature h \<noteq> previous then rotateFeed lc fresh h else h"
    have eq: "snd (reselect lc t fresh previous lost g) = broadcastDiagnostics lc ?r"
      by (simp add: reselect_def and_then_def change_def o None)
    have "selectionSignature h = previous"
      using assms sig [of "broadcastDiagnostics lc ?r" h] by (simp add: eq split: if_splits)
    then show ?thesis using eq quiet_trans [OF q quiet_broadcastDiagnostics] by simp
  next
    case (Some err)
    then have "snd (reselect lc t fresh previous lost g) = h"
      by (simp add: reselect_def and_then_def change_def o)
    with q show ?thesis by simp
  qed
qed

text \<open>A refresh that ends with the selection it began with sends nothing to anybody.\<close>

lemma refresh_silent:
  assumes "refresh_end lc t fresh fresh' k at_call (Inr n) g = (None, g')" "selectionSignature g' = fst at_call" "gateway_snapshot_ok n"
  shows "quiet g g'"
proof -
  let ?f = "\<lambda>s. s\<lparr>ss_snapshot := Some n, ss_generation := Suc (ss_generation s), ss_lastError := None, ss_reason := None\<rparr>"
  obtain e h where r: "reselect lc t fresh (fst at_call) None (put_source k ?f g) = (e, h)"
    by (cases "reselect lc t fresh (fst at_call) None (put_source k ?f g)")
  show ?thesis
  proof (cases e)
    case None
    then have "g' = h" using assms(1,3) r by (simp add: refresh_end_def)
    with assms(2) r have "quiet (put_source k ?f g) g'"
      using reselect_silent [of lc t fresh "fst at_call" None "put_source k ?f g"] by simp
    then show ?thesis by (rule quiet_trans [OF quiet_put_source])
  next
    case (Some err)
    then have "fst (refresh_failed lc t fresh' k at_call ''conflicting owners'' err h) = None"
      using assms(1,3) r by (simp add: refresh_end_def)
    then show ?thesis by (simp add: refresh_failed_def and_then_ok)
  qed
qed

definition unannounced :: "collation \<Rightarrow> gateway \<Rightarrow> gateway \<Rightarrow> bool" where
  "unannounced lc g g' \<longleftrightarrow> gateway_at g' = gateway_at g \<and> gw_subscribers g' = gw_subscribers g \<and>
     map se_sessionId (gw_listSessions lc g) \<noteq> map se_sessionId (gw_listSessions lc g')"


subsection \<open>Listings\<close>


definition listing_gateway :: gateway where
  "listing_gateway = demo_gateway\<lparr>gw_selected := [''up'', ''down''], gw_runtimeNodeOwners := [(''rn1'', ''up'')]\<rparr>"

definition first_launch :: launch_record where
  "first_launch = demo_launch LAccepted ''t''"

definition second_launch :: launch_record where
  "second_launch = first_launch\<lparr>lq_launchId := ''l2''\<rparr>"

text \<open>The first source has two pages, the second source nothing.\<close>

definition listing_answers :: "launch_list \<Rightarrow> string \<Rightarrow> launch_record page reply" where
  "listing_answers q k =
     (if k = ''down'' then Answered ([], None)
      else if ll_cursor q = None then Answered ([first_launch], Some ''more'') else Answered ([second_launch], None))"

definition listing_query :: launch_list where
  "listing_query = \<lparr>ll_runtimeNodeId = None, ll_sessionId = None, ll_providerId = None, ll_profileId = None, ll_states = None,
     ll_cursor = None, ll_limit = 1\<rparr>"


end
