(* ===== verification/Resilient_Subscription.thy ===== *)
theory Resilient_Subscription
  imports Complex_Main "HOL-Library.Sublist" Prelude
begin

text \<open>
  The client's resilient subscription (\<^verbatim>\<open>packages/client/src/resilient-subscription.ts\<close>): it consumes the
  values of a stream one after the other through a bounded queue, and subscribes again when the stream
  ends.  The state is the controller's; what happens around it (the callbacks of the transport, the
  handler's promise, the retry timer, the caller) is a sequence of events, each of them one turn of the
  event loop.  The promise chain \<open>processing\<close> is the list of the jobs attached to it that have not run.
  Numbers are rationals, so the rounding of floating point in a retry delay is not modelled; state-change
  callbacks do not call back.
\<close>

subsection \<open>Options\<close>

record sub_input =
  si_maxPendingItems :: "rat option"
  si_initialRetryDelayMs :: "rat option"
  si_maxRetryDelayMs :: "rat option"
  si_retryFactor :: "rat option"
  si_retryJitter :: "rat option"

record sub_options =
  so_maxPendingItems :: nat
  so_initialRetryDelayMs :: nat
  so_maxRetryDelayMs :: nat
  so_retryFactor :: rat
  so_retryJitter :: rat

definition isSafeInteger :: "rat \<Rightarrow> bool" where
  "isSafeInteger x \<longleftrightarrow> of_int (floor x) = x \<and> \<bar>x\<bar> \<le> 2 ^ 53 - 1"

definition positiveInteger :: "rat \<Rightarrow> nat option" where
  "positiveInteger x = (if \<not> isSafeInteger x \<or> x < 1 then None else Some (nat (floor x)))"

definition nonnegativeInteger :: "rat \<Rightarrow> nat option" where
  "nonnegativeInteger x = (if \<not> isSafeInteger x \<or> x < 0 then None else Some (nat (floor x)))"

definition finiteAtLeast :: "rat \<Rightarrow> rat \<Rightarrow> rat option" where
  "finiteAtLeast x minimum = (if x < minimum then None else Some x)"

definition finiteBetween :: "rat \<Rightarrow> rat \<Rightarrow> rat \<Rightarrow> rat option" where
  "finiteBetween x minimum maximum = (if x < minimum \<or> x > maximum then None else Some x)"

definition given :: "rat option \<Rightarrow> rat \<Rightarrow> rat" where
  "given x d = (case x of None \<Rightarrow> d | Some y \<Rightarrow> y)"

text \<open>None: the constructor throws a \<open>TypeError\<close>.\<close>

definition subscriptionOptions :: "sub_input \<Rightarrow> sub_options option" where
  "subscriptionOptions i =
     (case positiveInteger (given (si_maxPendingItems i) 1024) of None \<Rightarrow> None | Some pending \<Rightarrow>
      case nonnegativeInteger (given (si_initialRetryDelayMs i) 250) of None \<Rightarrow> None | Some first \<Rightarrow>
      case nonnegativeInteger (given (si_maxRetryDelayMs i) 30000) of None \<Rightarrow> None | Some longest \<Rightarrow>
      case finiteAtLeast (given (si_retryFactor i) 2) 1 of None \<Rightarrow> None | Some factor \<Rightarrow>
      case finiteBetween (given (si_retryJitter i) (1 / 5)) 0 1 of None \<Rightarrow> None | Some jitter \<Rightarrow>
        Some \<lparr>so_maxPendingItems = pending, so_initialRetryDelayMs = first, so_maxRetryDelayMs = longest,
          so_retryFactor = factor, so_retryJitter = jitter\<rparr>)"

definition math_round :: "rat \<Rightarrow> int" where
  "math_round x = floor (x + 1 / 2)"

definition retryDelay :: "sub_options \<Rightarrow> rat \<Rightarrow> nat \<Rightarrow> int" where
  "retryDelay o' random attempt =
     (let exponential = min (of_nat (so_maxRetryDelayMs o')) (of_nat (so_initialRetryDelayMs o') * so_retryFactor o' ^ attempt);
          jitter = exponential * so_retryJitter o'
      in max 0 (math_round (exponential - jitter + random * jitter * 2)))"

subsection \<open>The controller\<close>

datatype sub_error = BufferOverflow nat | UnexpectedEnd | Disconnected | Raised string

datatype sub_state = Connecting nat | Live nat | Retrying nat int sub_error | StoppedSub | FailedSub sub_error

datatype conn_state = ConnIdle | ConnConnecting "sub_error option" | ConnPending

datatype 'v callback =
  OnData 'v | OnError sub_error | OnComplete | OnStarted | OnStopped | OnConnection conn_state

datatype 'v job = ItemJob 'v | EndJob sub_error | ResolveJob

text \<open>Where the first job of the chain is: waiting for its turn, its handler called, its handler done.\<close>

datatype job_phase = InLine | InHandler | Handled "sub_error option"

record 'v controller =
  rs_options :: sub_options
  rs_state :: sub_state
  rs_active :: bool
  rs_generation :: nat
  rs_newest :: nat
  rs_retryAttempt :: nat
  rs_pendingItems :: nat
  rs_chain :: "'v job list"
  rs_phase :: job_phase
  rs_established :: bool
  rs_subscription :: "nat option"
  rs_timer :: bool
  rs_done :: "(sub_error + unit) option"
  rs_open :: "nat list"
  rs_committed :: "'v list"

text \<open>\<open>rs_newest\<close> is the generation the callbacks of the newest subscription carry; \<open>rs_open\<close> are the subscriptions made and not unsubscribed, by their generation; \<open>rs_established\<close> is the
  variable \<open>established\<close> of the closure of the newest subscription.\<close>

definition transition_to :: "sub_state \<Rightarrow> 'v controller \<Rightarrow> 'v controller" where
  "transition_to s r = r\<lparr>rs_state := s\<rparr>"

definition unsubscribe :: "'v controller \<Rightarrow> 'v controller" where
  "unsubscribe r =
     (case rs_subscription r of None \<Rightarrow> r
      | Some n \<Rightarrow> r\<lparr>rs_open := filter (\<lambda>m. m \<noteq> n) (rs_open r), rs_subscription := None\<rparr>)"

definition settle_done :: "sub_error + unit \<Rightarrow> 'v controller \<Rightarrow> 'v controller" where
  "settle_done v r = (case rs_done r of None \<Rightarrow> r\<lparr>rs_done := Some v\<rparr> | Some _ \<Rightarrow> r)"

definition stop_sub :: "'v controller \<Rightarrow> 'v controller" where
  "stop_sub r =
     (if \<not> rs_active r then r
      else let r = unsubscribe (r\<lparr>rs_active := False, rs_generation := Suc (rs_generation r), rs_timer := False\<rparr>);
               r = transition_to StoppedSub r
           in r\<lparr>rs_chain := rs_chain r @ [ResolveJob]\<rparr>)"

definition fail_sub :: "sub_error \<Rightarrow> 'v controller \<Rightarrow> 'v controller" where
  "fail_sub e r =
     (if \<not> rs_active r then r
      else let r = unsubscribe (r\<lparr>rs_active := False, rs_generation := Suc (rs_generation r), rs_timer := False\<rparr>)
           in settle_done (Inl e) (transition_to (FailedSub e) r))"

definition enqueue :: "nat \<Rightarrow> 'v \<Rightarrow> 'v controller \<Rightarrow> 'v controller" where
  "enqueue n v r =
     (if \<not> rs_active r \<or> n \<noteq> rs_generation r then r
      else if rs_pendingItems r \<ge> so_maxPendingItems (rs_options r)
      then fail_sub (BufferOverflow (so_maxPendingItems (rs_options r))) r
      else r\<lparr>rs_pendingItems := Suc (rs_pendingItems r), rs_chain := rs_chain r @ [ItemJob v]\<rparr>)"

definition ended :: "nat \<Rightarrow> sub_error \<Rightarrow> 'v controller \<Rightarrow> 'v controller" where
  "ended n e r =
     (if \<not> rs_active r \<or> n \<noteq> rs_generation r then r
      else let r = unsubscribe (r\<lparr>rs_generation := Suc (rs_generation r)\<rparr>)
           in r\<lparr>rs_chain := rs_chain r @ [EndJob e]\<rparr>)"

definition markLive :: "nat \<Rightarrow> 'v controller \<Rightarrow> 'v controller" where
  "markLive n r =
     (if \<not> rs_active r \<or> n \<noteq> rs_generation r then r
      else if rs_established r then r
      else transition_to (Live 0) (r\<lparr>rs_established := True, rs_retryAttempt := 0\<rparr>))"

fun call_back :: "nat \<Rightarrow> 'v callback \<Rightarrow> 'v controller \<Rightarrow> 'v controller" where
  "call_back n (OnData v) r = enqueue n v (markLive n r)"
| "call_back n (OnError e) r = ended n e r"
| "call_back n OnComplete r = ended n UnexpectedEnd r"
| "call_back n OnStarted r = markLive n r"
| "call_back n OnStopped r = ended n UnexpectedEnd r"
| "call_back n (OnConnection ConnPending) r = markLive n r"
| "call_back n (OnConnection (ConnConnecting cause)) r =
     (if rs_established r then ended n (case cause of None \<Rightarrow> Disconnected | Some e \<Rightarrow> e) r else r)"
| "call_back n (OnConnection ConnIdle) r = r"

text \<open>The transport's answer to a subscription: the callbacks it makes before it returns, and whether it
  throws.\<close>

record 'v sub_answer =
  an_early :: "'v callback list"
  an_throws :: "sub_error option"

definition subscribe_to :: "'v sub_answer \<Rightarrow> 'v controller \<Rightarrow> 'v controller" where
  "subscribe_to a r =
     (if \<not> rs_active r then r
      else let n = Suc (rs_generation r);
               r = transition_to (Connecting (rs_retryAttempt r)) (r\<lparr>rs_generation := n, rs_newest := n, rs_established := False\<rparr>);
               r = fold (call_back n) (an_early a) r
           in case an_throws a of
                Some e \<Rightarrow> ended n e r
              | None \<Rightarrow> if \<not> rs_active r \<or> n \<noteq> rs_generation r then r
                  else r\<lparr>rs_open := rs_open r @ [n], rs_subscription := Some n\<rparr>)"

definition startResilientSubscription :: "sub_options \<Rightarrow> bool \<Rightarrow> 'v sub_answer \<Rightarrow> 'v controller" where
  "startResilientSubscription o' aborted a =
     (let r = \<lparr>rs_options = o', rs_state = Connecting 0, rs_active = True, rs_generation = 0, rs_newest = 0, rs_retryAttempt = 0,
        rs_pendingItems = 0, rs_chain = [], rs_phase = InLine, rs_established = False, rs_subscription = None,
        rs_timer = False, rs_done = None, rs_open = [], rs_committed = []\<rparr>
      in if aborted then stop_sub r else subscribe_to a r)"

subsection \<open>The event loop\<close>

text \<open>
  \<open>Arrive\<close>: a callback of a subscription, which carries the generation it was made with.
  \<open>Begin\<close>: the first job of the chain has its turn.  For an item its handler is called; for the end of a
  subscription (with what \<open>shouldRetry\<close> answers and the random number drawn) the retry is arranged.
  \<open>Finish\<close>: the handler's promise settles; \<open>Settle\<close>: the rest of the chain's item runs.
\<close>

datatype 'v sub_event =
  Arrive nat "'v callback" | Begin bool rat | Finish "sub_error option" | Settle | Timer "'v sub_answer" | Stop

definition drop_job :: "'v controller \<Rightarrow> 'v controller" where
  "drop_job r = r\<lparr>rs_chain := tl (rs_chain r), rs_phase := InLine\<rparr>"

definition arrange_retry :: "bool \<Rightarrow> rat \<Rightarrow> sub_error \<Rightarrow> 'v controller \<Rightarrow> 'v controller" where
  "arrange_retry again random e r =
     (if \<not> rs_active r then r
      else if \<not> again then fail_sub e r
      else let attempt = rs_retryAttempt r; delay = retryDelay (rs_options r) random attempt
           in transition_to (Retrying attempt delay e) (r\<lparr>rs_retryAttempt := Suc attempt\<rparr>)\<lparr>rs_timer := True\<rparr>)"

fun sub_step :: "'v sub_event \<Rightarrow> 'v controller \<Rightarrow> 'v controller" where
  "sub_step (Arrive n c) r = (if rs_newest r < n then r else call_back n c r)"
| "sub_step (Begin again random) r =
     (case (rs_phase r, rs_chain r) of
        (InLine, ItemJob v # js) \<Rightarrow> if rs_active r then r\<lparr>rs_phase := InHandler\<rparr> else r\<lparr>rs_phase := Handled None\<rparr>
      | (InLine, EndJob e # js) \<Rightarrow> drop_job (arrange_retry again random e r)
      | (InLine, ResolveJob # js) \<Rightarrow> drop_job (settle_done (Inr ()) r)
      | _ \<Rightarrow> r)"
| "sub_step (Finish result) r =
     (case (rs_phase r, rs_chain r) of
        (InHandler, ItemJob v # js) \<Rightarrow>
          (if result = None \<and> rs_active r
           then r\<lparr>rs_phase := Handled None, rs_committed := rs_committed r @ [v], rs_retryAttempt := 0\<rparr>
           else r\<lparr>rs_phase := Handled result\<rparr>)
      | _ \<Rightarrow> r)"
| "sub_step Settle r =
     (case rs_phase r of
        Handled result \<Rightarrow>
          (let r = (case result of None \<Rightarrow> r | Some e \<Rightarrow> fail_sub e r)
           in drop_job (r\<lparr>rs_pendingItems := rs_pendingItems r - 1\<rparr>))
      | _ \<Rightarrow> r)"
| "sub_step (Timer a) r = (if rs_timer r then subscribe_to a (r\<lparr>rs_timer := False\<rparr>) else r)"
| "sub_step Stop r = stop_sub r"

definition sub_run :: "'v sub_event list \<Rightarrow> 'v controller \<Rightarrow> 'v controller" where
  "sub_run = fold sub_step"

subsection \<open>What holds at all times\<close>

definition is_item :: "'v job \<Rightarrow> bool" where
  "is_item j = (case j of ItemJob v \<Rightarrow> True | _ \<Rightarrow> False)"

definition waiting_items :: "'v job list \<Rightarrow> 'v list" where
  "waiting_items = List.map_filter (\<lambda>j. case j of ItemJob v \<Rightarrow> Some v | _ \<Rightarrow> None)"

lemma waiting_items_simps [simp]:
  "waiting_items [] = []" "waiting_items (ItemJob v # js) = v # waiting_items js"
  "waiting_items (EndJob e # js) = waiting_items js" "waiting_items (ResolveJob # js) = waiting_items js"
  "waiting_items (js @ ks) = waiting_items js @ waiting_items ks"
  by (simp_all add: waiting_items_def map_filter_def)

definition streaming :: "'v controller \<Rightarrow> bool" where
  "streaming r \<longleftrightarrow> rs_active r \<and> rs_newest r = rs_generation r"

text \<open>
  The queue counts its items and keeps to its bound; only the newest subscription is open, and only while the
  controller is active; an active controller is either on a stream, or behind its last item the end of a
  stream waits, or the retry timer runs; an inactive one has said why.
\<close>

definition controller_ok :: "'v controller \<Rightarrow> bool" where
  "controller_ok r \<longleftrightarrow>
     rs_pendingItems r = length (waiting_items (rs_chain r)) \<and>
     rs_pendingItems r \<le> so_maxPendingItems (rs_options r) \<and>
     rs_newest r \<le> rs_generation r \<and>
     (rs_phase r \<noteq> InLine \<longrightarrow> (\<exists>v js. rs_chain r = ItemJob v # js)) \<and>
     rs_open r = (case rs_subscription r of None \<Rightarrow> [] | Some n \<Rightarrow> [n]) \<and>
     (rs_subscription r \<noteq> None \<longrightarrow> streaming r \<and> rs_subscription r = Some (rs_generation r)) \<and>
     (if rs_active r then
        rs_done r = None \<and>
        (case rs_state r of StoppedSub \<Rightarrow> False | FailedSub e \<Rightarrow> False | _ \<Rightarrow> True) \<and>
        (if streaming r then list_all is_item (rs_chain r) \<and> \<not> rs_timer r
         else if rs_timer r then rs_chain r = []
         else \<exists>js e. rs_chain r = js @ [EndJob e] \<and> list_all is_item js)
      else \<not> rs_timer r \<and>
        (case rs_state r of
           StoppedSub \<Rightarrow> (if rs_chain r = [] then rs_done r = Some (Inr ())
             else rs_done r = None \<and> last (rs_chain r) = ResolveJob \<and> ResolveJob \<notin> set (butlast (rs_chain r)))
         | FailedSub e \<Rightarrow> rs_done r = Some (Inl e) \<and> ResolveJob \<notin> set (rs_chain r)
         | _ \<Rightarrow> False))"

lemma items_not_resolving: "list_all is_item js \<Longrightarrow> ResolveJob \<notin> set js \<and> EndJob e \<notin> set js"
  by (auto simp: list_all_iff is_item_def split: job.split_asm)

lemma active_unresolved:
  assumes "controller_ok r" "rs_active r"
  shows "ResolveJob \<notin> set (rs_chain r)"
proof -
  have "rs_chain r = [] \<or> (\<exists>js. list_all is_item js \<and> (rs_chain r = js \<or> (\<exists>e. rs_chain r = js @ [EndJob e])))"
    using assms unfolding controller_ok_def by (auto split: if_splits)
  then show ?thesis using items_not_resolving by fastforce
qed

lemma ok_inactive:
  assumes "controller_ok r" "rs_active r"
  shows "controller_ok (stop_sub r)" "controller_ok (fail_sub e r)"
proof -
  note r = assms(1) [unfolded controller_ok_def streaming_def] assms(2) active_unresolved [OF assms]
  show "controller_ok (stop_sub r)"
    unfolding controller_ok_def stop_sub_def unsubscribe_def transition_to_def streaming_def Let_def
    using r by (cases "rs_subscription r") auto
  show "controller_ok (fail_sub e r)"
    unfolding controller_ok_def fail_sub_def unsubscribe_def transition_to_def settle_done_def streaming_def Let_def
    using r by (cases "rs_subscription r") auto
qed

lemma ok_stop: "controller_ok r \<Longrightarrow> controller_ok (stop_sub r)"
  by (cases "rs_active r") (simp_all add: ok_inactive, simp add: stop_sub_def)

lemma ok_fail: "controller_ok r \<Longrightarrow> controller_ok (fail_sub e r)"
  by (cases "rs_active r") (simp_all add: ok_inactive, simp add: fail_sub_def)

lemma ok_enqueue: "controller_ok r \<Longrightarrow> n \<noteq> rs_generation r \<or> n = rs_newest r \<Longrightarrow> controller_ok (enqueue n v r)"
proof -
  assume r: "controller_ok r" "n \<noteq> rs_generation r \<or> n = rs_newest r"
  show ?thesis
  proof (cases "rs_active r \<and> n = rs_generation r \<and> rs_pendingItems r < so_maxPendingItems (rs_options r)")
    case True
    then show ?thesis using r unfolding controller_ok_def enqueue_def streaming_def by (auto simp: is_item_def)
  next
    case False
    then show ?thesis using r ok_fail [of r] by (auto simp: enqueue_def)
  qed
qed

lemma ok_ended: "controller_ok r \<Longrightarrow> n \<noteq> rs_generation r \<or> n = rs_newest r \<Longrightarrow> controller_ok (ended n e r)"
  unfolding controller_ok_def ended_def unsubscribe_def streaming_def Let_def
  by (auto split: option.splits if_splits)

lemma ok_live: "controller_ok r \<Longrightarrow> controller_ok (markLive n r)"
  unfolding controller_ok_def markLive_def transition_to_def streaming_def
  by (auto split: option.splits if_splits sub_state.splits)

text \<open>What no operation of a subscription touches.\<close>

lemma sub_frame [simp]:
  "rs_newest (stop_sub r) = rs_newest r" "rs_newest (fail_sub e r) = rs_newest r" "rs_newest (enqueue n v r) = rs_newest r"
  "rs_newest (ended n e r) = rs_newest r" "rs_newest (markLive n r) = rs_newest r"
  "rs_options (stop_sub r) = rs_options r" "rs_options (fail_sub e r) = rs_options r" "rs_options (enqueue n v r) = rs_options r"
  "rs_options (ended n e r) = rs_options r" "rs_options (markLive n r) = rs_options r"
  by (auto simp: stop_sub_def fail_sub_def enqueue_def ended_def markLive_def unsubscribe_def transition_to_def settle_done_def
      Let_def split: option.splits)

lemma callback_frame [simp]:
  "rs_newest (call_back n c r) = rs_newest r" "rs_options (call_back n c r) = rs_options r"
  by (induction n c r rule: call_back.induct) simp_all

lemma callbacks_frame [simp]:
  "rs_newest (fold (call_back n) cs r) = rs_newest r" "rs_options (fold (call_back n) cs r) = rs_options r"
  by (induction cs arbitrary: r) simp_all

lemma live_generation [simp]: "rs_generation (markLive n r) = rs_generation r"
  by (simp add: markLive_def transition_to_def)

lemma ok_callback: "controller_ok r \<Longrightarrow> n \<le> rs_newest r \<Longrightarrow> controller_ok (call_back n c r)"
proof -
  assume r: "controller_ok r" "n \<le> rs_newest r"
  have "n \<noteq> rs_generation r \<or> n = rs_newest r" using r by (auto simp: controller_ok_def)
  with r show ?thesis
    by (induction n c r rule: call_back.induct) (simp_all add: ok_enqueue ok_ended ok_live)
qed

lemma ok_callbacks: "controller_ok r \<Longrightarrow> n \<le> rs_newest r \<Longrightarrow> controller_ok (fold (call_back n) cs r)"
  by (induction cs arbitrary: r) (simp_all add: ok_callback)

text \<open>A subscription is only made by an active controller without one and with nothing waiting.\<close>

lemma ok_subscribe:
  assumes "rs_active r" "rs_subscription r = None"
    and "controller_ok (transition_to (Connecting (rs_retryAttempt r))
      (r\<lparr>rs_generation := Suc (rs_generation r), rs_newest := Suc (rs_generation r), rs_established := False\<rparr>))"
  shows "controller_ok (subscribe_to a r)"
proof -
  let ?n = "Suc (rs_generation r)"
  let ?r = "transition_to (Connecting (rs_retryAttempt r)) (r\<lparr>rs_generation := ?n, rs_newest := ?n, rs_established := False\<rparr>)"
  from ok_callbacks [OF assms(3), of ?n "an_early a"]
  have ok: "controller_ok (fold (call_back ?n) (an_early a) ?r)" by (simp add: transition_to_def)
  have new: "rs_newest (fold (call_back ?n) (an_early a) ?r) = ?n" by (simp add: transition_to_def)
  have none: "rs_subscription (fold (call_back ?n) cs q) = None" if "rs_subscription q = None" for cs and q :: "'a controller"
    using that
  proof (induction cs arbitrary: q)
    case (Cons c cs)
    have "rs_subscription (call_back n c q) = None" if "rs_subscription q = None" for n
      using that by (induction n c q rule: call_back.induct)
        (auto simp: stop_sub_def fail_sub_def enqueue_def ended_def markLive_def unsubscribe_def transition_to_def settle_done_def
          Let_def split: option.splits)
    with Cons show ?case by simp
  qed simp
  have "rs_subscription (fold (call_back ?n) (an_early a) ?r) = None"
    by (rule none) (use assms in \<open>simp add: transition_to_def\<close>)
  with ok new assms(1) show ?thesis
    unfolding subscribe_to_def Let_def
    by (cases "an_throws a") (auto simp: ok_ended, auto simp: controller_ok_def streaming_def)
qed

lemma ok_phase:
  assumes "controller_ok r" "ph \<noteq> InLine \<Longrightarrow> \<exists>v js. rs_chain r = ItemJob v # js"
  shows "controller_ok (r\<lparr>rs_phase := ph\<rparr>)"
  using assms unfolding controller_ok_def streaming_def by (cases "rs_state r") auto

lemma ok_drop_ending:
  assumes "controller_ok r" "rs_phase r = InLine" "rs_chain r = EndJob e # js" "\<not> rs_active r"
  shows "controller_ok (drop_job r)"
  using assms unfolding controller_ok_def streaming_def drop_job_def by (cases "rs_state r") (auto split: if_splits)

lemma ok_count: "controller_ok r \<Longrightarrow> rs_active r \<Longrightarrow> controller_ok (r\<lparr>rs_committed := vs, rs_retryAttempt := k\<rparr>)"
  unfolding controller_ok_def streaming_def by (cases "rs_state r") auto

lemma ok_begin:
  assumes "controller_ok r"
  shows "controller_ok (sub_step (Begin again random) r)"
proof (cases "rs_phase r = InLine \<and> rs_chain r \<noteq> []")
  case True
  then obtain j js where c: "rs_phase r = InLine" "rs_chain r = j # js" by (cases "rs_chain r") auto
  show ?thesis
  proof (cases j)
    case (ItemJob v)
    with c ok_phase [OF assms] show ?thesis by simp
  next
    case (EndJob e)
    show ?thesis
    proof (cases "rs_active r")
      case active: True
      have js: "js = []" "\<not> streaming r"
        using assms c EndJob active unfolding controller_ok_def
        by (auto simp: is_item_def Cons_eq_append_conv split: if_splits)
      show ?thesis
      proof (cases again)
        case True
        with assms c EndJob js active show ?thesis
          by (auto simp: controller_ok_def streaming_def drop_job_def arrange_retry_def transition_to_def Let_def)
      next
        case False
        have "rs_phase (fail_sub e r) = InLine" "rs_chain (fail_sub e r) = EndJob e # js" "\<not> rs_active (fail_sub e r)"
          using c EndJob by (auto simp: fail_sub_def unsubscribe_def transition_to_def settle_done_def Let_def split: option.splits)
        with ok_drop_ending [OF ok_fail [OF assms]] c EndJob False active show ?thesis by (simp add: arrange_retry_def)
      qed
    next
      case False
      with ok_drop_ending [OF assms] c EndJob show ?thesis by (simp add: arrange_retry_def)
    qed
  next
    case ResolveJob
    then have "\<not> rs_active r" using active_unresolved [OF assms] c by auto
    with assms c ResolveJob show ?thesis
      by (auto simp: controller_ok_def streaming_def drop_job_def settle_done_def split: sub_state.splits if_splits)
  qed
next
  case False
  with assms show ?thesis by (auto split: job_phase.splits list.splits)
qed

lemma ok_settle:
  assumes "controller_ok r"
  shows "controller_ok (sub_step Settle r)"
proof (cases "rs_phase r")
  case (Handled result)
  let ?r = "case result of None \<Rightarrow> r | Some e \<Rightarrow> fail_sub e r"
  have ok: "controller_ok ?r" using assms ok_fail [of r] by (cases result) simp_all
  have "rs_phase ?r = rs_phase r" "rs_chain ?r = rs_chain r"
    by (cases result; simp add: fail_sub_def unsubscribe_def transition_to_def settle_done_def Let_def split: option.splits)+
  moreover obtain v js where "rs_chain r = ItemJob v # js" using assms Handled unfolding controller_ok_def by auto
  ultimately have c: "rs_chain ?r = ItemJob v # js" by simp
  have "controller_ok (drop_job (?r\<lparr>rs_pendingItems := rs_pendingItems ?r - 1\<rparr>))"
    using ok c unfolding controller_ok_def drop_job_def streaming_def
    by (auto simp: is_item_def Cons_eq_append_conv split: sub_state.splits if_splits)
  then show ?thesis using Handled by (simp add: Let_def)
qed (use assms in simp_all)

lemma ok_finish:
  assumes "controller_ok r"
  shows "controller_ok (sub_step (Finish result) r)"
proof (cases "rs_phase r")
  case InHandler
  then obtain v js where c: "rs_chain r = ItemJob v # js" using assms unfolding controller_ok_def by auto
  then show ?thesis using InHandler ok_phase [OF assms] ok_count [of "r\<lparr>rs_phase := Handled None\<rparr>"] by simp
qed (use assms in simp_all)

lemma ok_timer:
  assumes "controller_ok r"
  shows "controller_ok (sub_step (Timer a) r)"
proof (cases "rs_timer r")
  case True
  have idle: "rs_active r \<and> \<not> streaming r \<and> rs_chain r = [] \<and> rs_subscription r = None"
    using assms True unfolding controller_ok_def by (auto split: if_splits)
  have "controller_ok (subscribe_to a (r\<lparr>rs_timer := False\<rparr>))"
    by (rule ok_subscribe) (use idle assms in \<open>auto simp: controller_ok_def streaming_def transition_to_def\<close>)
  then show ?thesis using True by simp
qed (use assms in simp)

lemma controller_ok_step: "controller_ok r \<Longrightarrow> controller_ok (sub_step x r)"
  by (cases x) (simp_all only: ok_begin ok_finish ok_settle ok_timer, auto simp: ok_callback ok_stop)

lemma controller_ok_start:
  assumes "0 < so_maxPendingItems o'"
  shows "controller_ok (startResilientSubscription o' aborted a)"
proof -
  let ?r = "\<lparr>rs_options = o', rs_state = Connecting 0, rs_active = True, rs_generation = 0, rs_newest = 0, rs_retryAttempt = 0,
        rs_pendingItems = 0, rs_chain = [], rs_phase = InLine, rs_established = False, rs_subscription = None,
        rs_timer = False, rs_done = None, rs_open = [], rs_committed = []\<rparr>"
  have "controller_ok ?r" by (simp add: controller_ok_def streaming_def)
  moreover have "controller_ok (subscribe_to a ?r)"
    by (rule ok_subscribe) (simp_all add: controller_ok_def streaming_def transition_to_def)
  ultimately show ?thesis unfolding startResilientSubscription_def Let_def using ok_stop by (cases aborted) auto
qed

lemma controller_ok_run: "controller_ok r \<Longrightarrow> controller_ok (sub_run xs r)"
  unfolding sub_run_def by (induction xs arbitrary: r) (simp_all add: controller_ok_step)

subsection \<open>What callbacks do to the queue\<close>

definition values_of :: "'v callback list \<Rightarrow> 'v list" where
  "values_of = List.map_filter (\<lambda>c. case c of OnData v \<Rightarrow> Some v | _ \<Rightarrow> None)"

lemma values_of_simps [simp]:
  "values_of [] = []" "values_of (c # cs) = (case c of OnData v \<Rightarrow> v # values_of cs | _ \<Rightarrow> values_of cs)"
  by (simp_all add: values_of_def map_filter_def split: callback.split)

lemma live_frame [simp]:
  "rs_active (markLive n r) = rs_active r" "rs_chain (markLive n r) = rs_chain r" "rs_phase (markLive n r) = rs_phase r"
  "streaming (markLive n r) = streaming r" "rs_pendingItems (markLive n r) = rs_pendingItems r"
  "rs_timer (markLive n r) = rs_timer r" "rs_committed (markLive n r) = rs_committed r"
  by (simp_all add: markLive_def transition_to_def streaming_def)

lemma stopped_frame [simp]:
  "\<not> rs_active (stop_sub r)" "\<not> rs_active (fail_sub e r)" "\<not> streaming (stop_sub r)" "\<not> streaming (fail_sub e r)"
  "rs_phase (stop_sub r) = rs_phase r" "rs_phase (fail_sub e r) = rs_phase r" "rs_chain (fail_sub e r) = rs_chain r"
  by (auto simp: stop_sub_def fail_sub_def unsubscribe_def transition_to_def settle_done_def streaming_def Let_def split: option.splits)

text \<open>A callback puts its value behind the others or ends the controller; only one that ends the stream keeps
  a value out.\<close>

definition queues :: "'v list \<Rightarrow> 'v list \<Rightarrow> 'v controller \<Rightarrow> 'v controller \<Rightarrow> bool" where
  "queues vs ds r r' \<longleftrightarrow>
     rs_active r \<and> rs_phase r' = rs_phase r \<and> rs_timer r' = rs_timer r \<and> prefix ds vs \<and>
     waiting_items (rs_chain r') = waiting_items (rs_chain r) @ ds \<and>
     (rs_chain r \<noteq> [] \<longrightarrow> rs_chain r' \<noteq> [] \<and> hd (rs_chain r') = hd (rs_chain r)) \<and>
     (if streaming r then streaming r' \<longrightarrow> ds = vs else ds = [] \<and> \<not> streaming r')"

definition queued :: "'v list \<Rightarrow> 'v controller \<Rightarrow> 'v controller \<Rightarrow> bool" where
  "queued vs r r' \<longleftrightarrow> rs_active r' \<longrightarrow> (\<exists>ds. queues vs ds r r')"

lemma queues_trans:
  assumes "queues vs ds r q" "queues ws es q p"
  shows "queues (vs @ ws) (ds @ es) r p"
proof (cases "streaming r")
  case True
  show ?thesis
  proof (cases "streaming q")
    case True
    with assms \<open>streaming r\<close> show ?thesis unfolding queues_def by simp
  next
    case False
    with assms \<open>streaming r\<close> show ?thesis unfolding queues_def by simp
  qed
next
  case False
  with assms show ?thesis unfolding queues_def by simp
qed

lemma queued_trans: "queued vs r q \<Longrightarrow> queued ws q p \<Longrightarrow> queued (vs @ ws) r p"
  unfolding queued_def using queues_trans by (metis queues_def)

lemma queued_ended: "n = rs_newest r \<Longrightarrow> queued [] r (ended n e r)"
  by (auto simp: queued_def queues_def ended_def unsubscribe_def streaming_def Let_def split: option.splits)

lemma queued_callback:
  assumes "n = rs_newest r"
  shows "queued (values_of [c]) r (call_back n c r)"
  using assms
proof (induction n c r rule: call_back.induct)
  case (1 n v r)
  then show ?case by (auto simp: queued_def queues_def enqueue_def streaming_def)
qed (simp_all add: queued_ended, auto simp: queued_def queues_def)

lemma queued_callbacks:
  assumes "n = rs_newest r"
  shows "queued (values_of cs) r (fold (call_back n) cs r)"
  using assms
proof (induction cs arbitrary: r)
  case (Cons c cs)
  have "queued (values_of [c] @ values_of cs) r (fold (call_back n) cs (call_back n c r))"
    by (rule queued_trans [OF queued_callback [OF Cons.prems] Cons.IH]) (simp add: Cons.prems)
  then show ?case by (simp split: callback.splits)
qed (simp add: queued_def queues_def)

subsection \<open>A subscription accounts for itself\<close>

lemma subscribe_frame [simp]: "rs_options (subscribe_to a r) = rs_options r"
  by (simp add: subscribe_to_def transition_to_def Let_def split: option.split)

lemma step_options: "rs_options (sub_step x r) = rs_options r"
  by (cases x) (auto simp: drop_job_def arrange_retry_def transition_to_def settle_done_def Let_def
      split: job_phase.splits list.splits job.splits option.splits)

lemma run_options: "rs_options (sub_run xs r) = rs_options r"
  unfolding sub_run_def by (induction xs arbitrary: r) (simp_all add: step_options)

lemma start_options: "rs_options (startResilientSubscription o' aborted a) = o'"
  by (simp add: startResilientSubscription_def Let_def)

lemma options_positive: "subscriptionOptions i = Some o' \<Longrightarrow> 0 < so_maxPendingItems o'"
  by (auto simp: subscriptionOptions_def positiveInteger_def split: option.splits if_splits)

text \<open>Every job of the chain once: it begins, its handler returns, the rest of it runs.\<close>

definition job_turns :: "'v sub_event list" where
  "job_turns = [Begin True 0, Finish None, Settle]"

definition drain :: "nat \<Rightarrow> 'v sub_event list" where
  "drain n = concat (replicate n job_turns)"

lemma drain_simps: "drain 0 = []" "drain (Suc n) = job_turns @ drain n"
  by (simp_all add: drain_def)

lemma sub_run_append: "sub_run (xs @ ys) r = sub_run ys (sub_run xs r)"
  by (simp add: sub_run_def)

lemma drain_one:
  assumes "controller_ok r" "\<not> rs_active r" "rs_chain r = j # js"
  shows "\<not> rs_active (sub_run job_turns r) \<and> rs_chain (sub_run job_turns r) = js"
proof (cases "rs_phase r")
  case InLine
  with assms(2,3) show ?thesis
    by (cases j) (simp_all add: sub_run_def job_turns_def drop_job_def arrange_retry_def settle_done_def split: option.split)
next
  case InHandler
  with assms(1,3) have "\<exists>v. j = ItemJob v" by (auto simp: controller_ok_def)
  with InHandler assms(2,3) show ?thesis by (auto simp: sub_run_def job_turns_def drop_job_def)
next
  case (Handled result)
  with assms(2,3) show ?thesis by (cases result) (simp_all add: sub_run_def job_turns_def drop_job_def fail_sub_def)
qed

lemma drained:
  assumes "controller_ok r" "\<not> rs_active r"
  shows "rs_done (sub_run (drain (length (rs_chain r))) r) \<noteq> None"
  using assms
proof (induction "rs_chain r" arbitrary: r)
  case Nil
  then show ?case by (auto simp: drain_simps sub_run_def controller_ok_def split: sub_state.splits)
next
  case (Cons j js)
  note one = drain_one [OF Cons.prems Cons.hyps(2) [symmetric]]
  have "sub_run (drain (length (rs_chain r))) r = sub_run (drain (length js)) (sub_run job_turns r)"
    by (simp add: drain_simps sub_run_append Cons.hyps(2) [symmetric])
  then show ?case using Cons.hyps(1) [of "sub_run job_turns r"] one controller_ok_run [OF Cons.prems(1), of job_turns]
    by simp
qed

text \<open>C39: Whatever happens in whatever order, \<open>pendingItems\<close> counts the items of the chain and stays within the
  buffer, and no more than one subscription is open.  While the controller is active its promise is open and
  it has a stream, a retry timer, or a job that arranges a retry at the end of its chain: it never hangs.
  Once it is not, no subscription or timer is left and when its chain has run its promise has settled.\<close>

theorem subscription_accounted:
  assumes "subscriptionOptions i = Some o'"
    and "r = sub_run xs (startResilientSubscription o' aborted a)"
  shows "rs_pendingItems r = length (waiting_items (rs_chain r)) \<and> rs_pendingItems r \<le> so_maxPendingItems o' \<and>
    length (rs_open r) \<le> 1 \<and>
    (if rs_active r
     then rs_done r = None \<and> (streaming r \<or> rs_timer r \<or> (\<exists>js e. rs_chain r = js @ [EndJob e]))
     else rs_open r = [] \<and> \<not> rs_timer r \<and> rs_done (sub_run (drain (length (rs_chain r))) r) \<noteq> None)"
proof -
  have ok: "controller_ok r" unfolding assms(2) by (rule controller_ok_run [OF controller_ok_start [OF options_positive [OF assms(1)]]])
  have "rs_options r = o'" by (simp add: assms(2) run_options start_options)
  with ok drained [OF ok] show ?thesis
    unfolding controller_ok_def streaming_def by (auto split: option.splits if_splits)
qed

text \<open>A buffer of one item overflows while its handler is at work.\<close>

definition busy_input :: sub_input where
  "busy_input = \<lparr>si_maxPendingItems = Some 1, si_initialRetryDelayMs = Some 0, si_maxRetryDelayMs = Some 0, si_retryFactor = Some 1,
     si_retryJitter = Some 0\<rparr>"

definition busy_options :: sub_options where
  "busy_options = \<lparr>so_maxPendingItems = 1, so_initialRetryDelayMs = 0, so_maxRetryDelayMs = 0, so_retryFactor = 1, so_retryJitter = 0\<rparr>"

definition busy_run :: "nat controller" where
  "busy_run = sub_run [Arrive 1 (OnData 5), Begin True 0, Arrive 1 (OnData 6)]
     (startResilientSubscription busy_options False \<lparr>an_early = [OnStarted], an_throws = None\<rparr>)"

lemma busy_facts: "subscriptionOptions busy_input = Some busy_options" "\<not> rs_active busy_run" "rs_state busy_run = FailedSub (BufferOverflow 1)"
  by (simp add: subscriptionOptions_def positiveInteger_def nonnegativeInteger_def finiteAtLeast_def finiteBetween_def given_def
      isSafeInteger_def busy_input_def busy_options_def) code_simp+

theorem subscription_accounted_witness:
  "rs_open busy_run = [] \<and> rs_done (sub_run (drain (length (rs_chain busy_run))) busy_run) \<noteq> None"
proof -
  note all = subscription_accounted [OF busy_facts(1) busy_run_def]
  from all busy_facts(2) show ?thesis by (metis (full_types))
qed

end
