(* ===== verification/Client_Watch.thy ===== *)
theory Client_Watch
  imports Resilient_Subscription Client_Cursor
begin

text \<open>
  The access watch on its resilient subscription: \<open>watchAccess\<close> of
  \<^verbatim>\<open>packages/client/src/access-watch.ts\<close> hands its handler the items of one subscription after the other
  (\<^verbatim>\<open>packages/client/src/resilient-subscription.ts\<close>), each subscription made from the cursor that the items
  before left.  The lemmas show that whatever the transports, the timers and the caller do, as long as every
  subscription leads on from the cursor it was given, the handler gets the control events one by one.
\<close>

subsection \<open>The watch and its turns\<close>

record watch_world =
  ww_sub :: "access_item controller"
  ww_watch :: access_watch
  ww_handed :: "access_item list"
  ww_at :: nat

text \<open>\<open>ww_handed\<close> are the items \<open>onItem\<close> was called with; \<open>ww_at\<close> is where the newest subscription has come to.\<close>

datatype watch_event =
  WArrive nat "access_item callback" | WBegin bool rat | WFinish bool | WSettle | WTimer "access_item sub_answer" | WStop

definition running_item :: "'v controller \<Rightarrow> 'v option" where
  "running_item r = (case (rs_phase r, rs_chain r) of (InHandler, ItemJob v # js) \<Rightarrow> Some v | _ \<Rightarrow> None)"

definition reaches :: "access_watch \<Rightarrow> access_item \<Rightarrow> bool" where
  "reaches w item \<longleftrightarrow> accessStreamItemSchema item \<and> \<not> alreadyCommitted (aw_cursor w) (aw_seen w) item"

definition handler_result :: "item_outcome \<Rightarrow> sub_error option" where
  "handler_result outcome =
     (case outcome of Unparsable \<Rightarrow> Some (Raised ''invalid stream item'') | HandlerFailed \<Rightarrow> Some (Raised ''handler'')
      | Suppressed \<Rightarrow> None | Committed \<Rightarrow> None)"

definition resume_at :: "access_watch \<Rightarrow> nat" where
  "resume_at w = (case aw_cursor w of None \<Rightarrow> 0 | Some cur \<Rightarrow> sc_controlCursor cur)"

fun watch_step :: "watch_event \<Rightarrow> watch_world \<Rightarrow> watch_world" where
  "watch_step (WArrive n c) w =
     w\<lparr>ww_sub := sub_step (Arrive n c) (ww_sub w),
       ww_at := (if streaming (ww_sub w) \<and> n = rs_generation (ww_sub w) then ww_at w + length (controls (values_of [c]))
                 else ww_at w)\<rparr>"
| "watch_step (WBegin again random) w =
     (let r = sub_step (Begin again random) (ww_sub w)
      in w\<lparr>ww_sub := r, ww_handed := (case running_item (ww_sub w) of
            Some v \<Rightarrow> ww_handed w
          | None \<Rightarrow> (case running_item r of
              Some v \<Rightarrow> if reaches (ww_watch w) v then ww_handed w @ [v] else ww_handed w
            | None \<Rightarrow> ww_handed w))\<rparr>)"
| "watch_step (WFinish accepts) w =
     (case running_item (ww_sub w) of
        None \<Rightarrow> w
      | Some v \<Rightarrow>
          let (outcome, aw) = onData accepts v (ww_watch w)
          in w\<lparr>ww_sub := sub_step (Finish (handler_result outcome)) (ww_sub w), ww_watch := aw\<rparr>)"
| "watch_step WSettle w = w\<lparr>ww_sub := sub_step Settle (ww_sub w)\<rparr>"
| "watch_step (WTimer a) w =
     (if rs_timer (ww_sub w)
      then w\<lparr>ww_sub := sub_step (Timer a) (ww_sub w),
             ww_at := resume_at (ww_watch w) + length (controls (values_of (an_early a)))\<rparr>
      else w)"
| "watch_step WStop w = w\<lparr>ww_sub := sub_step Stop (ww_sub w)\<rparr>"

definition open_watch :: "sub_options \<Rightarrow> bool \<Rightarrow> stream_cursor option \<Rightarrow> access_item sub_answer \<Rightarrow> watch_world" where
  "open_watch o' aborted cursor a =
     \<lparr>ww_sub = startResilientSubscription o' aborted a, ww_watch = watchAccess cursor, ww_handed = [],
      ww_at = resume_at (watchAccess cursor) + length (controls (values_of (an_early a)))\<rparr>"

subsection \<open>Streams that lead on from the cursor\<close>

text \<open>\<open>ev n\<close> is the event with cursor \<open>n\<close> of the feed.\<close>

definition from_feed :: "(nat \<Rightarrow> feed_item) \<Rightarrow> nat \<Rightarrow> nat \<Rightarrow> feed_item list" where
  "from_feed ev k n = map ev [Suc k..<Suc k + n]"

definition leads_on :: "string \<Rightarrow> (nat \<Rightarrow> feed_item) \<Rightarrow> nat \<Rightarrow> access_item list \<Rightarrow> bool" where
  "leads_on f ev k xs \<longleftrightarrow> flows f k xs \<and> list_all accessStreamItemSchema xs \<and>
     controls xs = from_feed ev k (length (controls xs))"

fun genuine :: "string \<Rightarrow> (nat \<Rightarrow> feed_item) \<Rightarrow> watch_event \<Rightarrow> watch_world \<Rightarrow> bool" where
  "genuine f ev (WArrive n c) w \<longleftrightarrow>
     (streaming (ww_sub w) \<and> n = rs_generation (ww_sub w) \<longrightarrow> leads_on f ev (ww_at w) (values_of [c]))"
| "genuine f ev (WTimer a) w \<longleftrightarrow> (rs_timer (ww_sub w) \<longrightarrow> leads_on f ev (resume_at (ww_watch w)) (values_of (an_early a)))"
| "genuine f ev x w \<longleftrightarrow> True"

inductive watch_runs :: "string \<Rightarrow> (nat \<Rightarrow> feed_item) \<Rightarrow> watch_world \<Rightarrow> watch_world \<Rightarrow> bool" for f ev where
  watch_start: "watch_runs f ev w w"
| watch_turn: "watch_runs f ev w w' \<Longrightarrow> genuine f ev x w' \<Longrightarrow> watch_runs f ev w (watch_step x w')"

lemma from_feed_simps [simp]: "from_feed ev k 0 = []" "length (from_feed ev k n) = n"
  by (simp_all add: from_feed_def)

lemma from_feed_add: "from_feed ev k (m + n) = from_feed ev k m @ from_feed ev (k + m) n"
  using upt_add_eq_append [of "Suc k" "Suc k + m" n] by (simp add: from_feed_def add.assoc del: upt_Suc)

lemma leads_on_append:
  "leads_on f ev k (xs @ ys) \<longleftrightarrow> leads_on f ev k xs \<and> leads_on f ev (k + length (controls xs)) ys"
  by (auto simp: leads_on_def flows_append from_feed_add append_eq_append_conv)

lemma leads_on_prefix: "prefix ds xs \<Longrightarrow> leads_on f ev k xs \<Longrightarrow> leads_on f ev k ds"
  by (auto simp: prefix_def leads_on_append)

lemma leads_on_nil [simp]: "leads_on f ev k []" by (simp add: leads_on_def)

subsection \<open>What holds between turns\<close>

text \<open>The values that are waiting and have not been accepted: the first job's handler may be done with it.\<close>

definition unread :: "'v controller \<Rightarrow> 'v list" where
  "unread r = (case rs_phase r of Handled result \<Rightarrow> tl (waiting_items (rs_chain r)) | _ \<Rightarrow> waiting_items (rs_chain r))"

definition broken :: "'v controller \<Rightarrow> bool" where
  "broken r \<longleftrightarrow> (\<exists>e. rs_phase r = Handled (Some e))"

definition watch_ok :: "string \<Rightarrow> (nat \<Rightarrow> feed_item) \<Rightarrow> nat \<Rightarrow> watch_world \<Rightarrow> bool" where
  "watch_ok f ev k0 w \<longleftrightarrow>
     controller_ok (ww_sub w) \<and>
     controls (ww_handed w) = from_feed ev k0 (length (controls (ww_handed w))) \<and>
     (rs_active (ww_sub w) \<and> \<not> broken (ww_sub w) \<longrightarrow>
       (\<exists>k. position_of (aw_cursor (ww_watch w)) = Some (f, k) \<and>
          k0 + length (controls (ww_handed w)) =
            k + (case running_item (ww_sub w) of None \<Rightarrow> 0 | Some v \<Rightarrow> length (controls [v])) \<and>
          leads_on f ev k (unread (ww_sub w)) \<and>
          (streaming (ww_sub w) \<longrightarrow> ww_at w = k + length (controls (unread (ww_sub w))))))"

text \<open>Callbacks of the newest subscription, from the point of view of the watch.\<close>

lemma queued_unread:
  assumes "controller_ok r" "queues vs ds r r'"
  shows "unread r' = unread r @ ds" "running_item r' = running_item r" "broken r' = broken r"
proof -
  have head: "rs_phase r \<noteq> InLine \<Longrightarrow> \<exists>v js. rs_chain r = ItemJob v # js" using assms(1) by (simp add: controller_ok_def)
  have q: "rs_phase r' = rs_phase r" "waiting_items (rs_chain r') = waiting_items (rs_chain r) @ ds"
      "rs_chain r \<noteq> [] \<longrightarrow> rs_chain r' \<noteq> [] \<and> hd (rs_chain r') = hd (rs_chain r)"
    using assms(2) by (simp_all add: queues_def)
  show "unread r' = unread r @ ds" using q(1,2) head by (cases "rs_phase r") (auto simp: unread_def)
  show "running_item r' = running_item r"
    using q(1,3) head by (cases "rs_phase r"; cases "rs_chain r'") (auto simp: running_item_def)
  show "broken r' = broken r" using q(1) by (simp add: broken_def)
qed

lemma watch_ok_queued:
  assumes "watch_ok f ev k0 w" "controller_ok r'" "queued vs (ww_sub w) r'"
    and "streaming (ww_sub w) \<Longrightarrow> leads_on f ev (ww_at w) vs"
    and "streaming (ww_sub w) \<Longrightarrow> at' = ww_at w + length (controls vs)"
  shows "watch_ok f ev k0 (w\<lparr>ww_sub := r', ww_at := at'\<rparr>)"
proof (cases "rs_active r'")
  case True
  then obtain ds where d: "queues vs ds (ww_sub w) r'" using assms(3) by (auto simp: queued_def)
  have ok: "controller_ok (ww_sub w)" using assms(1) by (simp add: watch_ok_def)
  note u = queued_unread [OF ok d]
  have a: "rs_active (ww_sub w)" using d by (simp add: queues_def)
  show ?thesis
  proof (cases "broken (ww_sub w)")
    case True
    then show ?thesis using assms(1,2) u(3) by (simp add: watch_ok_def)
  next
    case False
    then obtain k where k: "position_of (aw_cursor (ww_watch w)) = Some (f, k)"
        "k0 + length (controls (ww_handed w)) = k + (case running_item (ww_sub w) of None \<Rightarrow> 0 | Some v \<Rightarrow> length (controls [v]))"
        "leads_on f ev k (unread (ww_sub w))"
        "streaming (ww_sub w) \<longrightarrow> ww_at w = k + length (controls (unread (ww_sub w)))"
      using assms(1) a by (auto simp: watch_ok_def)
    have "leads_on f ev k (unread (ww_sub w) @ ds)"
    proof (cases "streaming (ww_sub w)")
      case True
      then show ?thesis using d k(3,4) assms(4) leads_on_prefix [of ds vs] by (simp add: leads_on_append queues_def)
    next
      case False
      then show ?thesis using d k(3) by (simp add: queues_def)
    qed
    moreover have "streaming r' \<longrightarrow> at' = k + length (controls (unread (ww_sub w) @ ds))"
      using d k(4) assms(5) by (auto simp: queues_def split: if_splits)
    ultimately show ?thesis
      using assms(1,2) k(1,2) u by (auto simp: watch_ok_def)
  qed
next
  case False
  then show ?thesis using assms(1,2) by (simp add: watch_ok_def)
qed

lemma watch_ok_inactive:
  "watch_ok f ev k0 w \<Longrightarrow> controller_ok r' \<Longrightarrow> \<not> rs_active r' \<or> broken r' \<Longrightarrow> watch_ok f ev k0 (w\<lparr>ww_sub := r'\<rparr>)"
  by (auto simp: watch_ok_def)

lemma stale_callback: "\<not> (rs_active r \<and> n = rs_generation r) \<Longrightarrow> call_back n c r = r"
  by (induction n c r rule: call_back.induct) (auto simp: enqueue_def ended_def markLive_def)

lemma watch_ok_arrive:
  assumes "watch_ok f ev k0 w" "genuine f ev (WArrive n c) w"
  shows "watch_ok f ev k0 (watch_step (WArrive n c) w)"
proof (cases "streaming (ww_sub w) \<and> n = rs_generation (ww_sub w)")
  case True
  have ok: "controller_ok (ww_sub w)" using assms(1) by (simp add: watch_ok_def)
  have n: "n = rs_newest (ww_sub w)" using True by (simp add: streaming_def)
  from watch_ok_queued [OF assms(1) ok_callback [OF ok, of n c] queued_callback [OF n, of c], of "ww_at w + length (controls (values_of [c]))"]
  show ?thesis using assms(2) True n by simp
next
  case False
  have "sub_step (Arrive n c) (ww_sub w) = ww_sub w"
    using False stale_callback [of "ww_sub w" n c] assms(1) by (auto simp: watch_ok_def controller_ok_def streaming_def)
  with False assms(1) show ?thesis by (auto simp: watch_ok_def)
qed

lemma watch_ok_turn:
  assumes "watch_ok f ev k0 w" "rs_active (ww_sub w)" "\<not> broken (ww_sub w)"
  obtains k where "position_of (aw_cursor (ww_watch w)) = Some (f, k)"
    and "k0 + length (controls (ww_handed w)) = k + (case running_item (ww_sub w) of None \<Rightarrow> 0 | Some v \<Rightarrow> length (controls [v]))"
    and "leads_on f ev k (unread (ww_sub w))"
    and "streaming (ww_sub w) \<longrightarrow> ww_at w = k + length (controls (unread (ww_sub w)))"
  using assms unfolding watch_ok_def by blast

lemma resume_position: "position_of (aw_cursor w) = Some (f, k) \<Longrightarrow> resume_at w = k"
  by (auto simp: position_of_def resume_at_def split: option.splits)

lemma queued_open:
  assumes "queued vs r q"
  shows "queued vs r (q\<lparr>rs_open := os, rs_subscription := s\<rparr>)"
proof -
  have "queues vs ds r (q\<lparr>rs_open := os, rs_subscription := s\<rparr>) = queues vs ds r q" for ds
    by (simp add: queues_def streaming_def)
  with assms show ?thesis by (simp add: queued_def)
qed

text \<open>A new subscription: the transport answers from the cursor it was given.\<close>

lemma queued_subscribe:
  assumes "rs_active r" "rs_subscription r = None"
    and "r1 = transition_to (Connecting (rs_retryAttempt r))
      (r\<lparr>rs_generation := Suc (rs_generation r), rs_newest := Suc (rs_generation r), rs_established := False\<rparr>)"
  shows "queued (values_of (an_early a)) r1 (subscribe_to a r)"
proof -
  let ?n = "Suc (rs_generation r)" and ?q = "fold (call_back (Suc (rs_generation r))) (an_early a) r1"
  have n: "?n = rs_newest r1" by (simp add: assms(3) transition_to_def)
  have early: "queued (values_of (an_early a)) r1 ?q" by (rule queued_callbacks [OF n])
  have "queued [] ?q (ended ?n e ?q)" for e by (rule queued_ended) (use n in simp)
  from queued_trans [OF early this] have thrown: "queued (values_of (an_early a)) r1 (ended ?n e ?q)" for e by simp
  have opened: "queued (values_of (an_early a)) r1 (?q\<lparr>rs_open := os, rs_subscription := s\<rparr>)" for os s
    by (rule queued_open [OF early])
  show ?thesis
    using assms(1) early thrown opened unfolding subscribe_to_def assms(3) by (simp add: Let_def split: option.split)
qed

lemma watch_ok_timer:
  assumes "watch_ok f ev k0 w" "genuine f ev (WTimer a) w"
  shows "watch_ok f ev k0 (watch_step (WTimer a) w)"
proof (cases "rs_timer (ww_sub w)")
  case True
  let ?r = "ww_sub w\<lparr>rs_timer := False\<rparr>" and ?k = "resume_at (ww_watch w)"
  let ?q = "transition_to (Connecting (rs_retryAttempt ?r))
      (?r\<lparr>rs_generation := Suc (rs_generation ?r), rs_newest := Suc (rs_generation ?r), rs_established := False\<rparr>)"
  have ok: "controller_ok (ww_sub w)" using assms(1) by (simp add: watch_ok_def)
  have idle: "rs_active (ww_sub w)" "\<not> streaming (ww_sub w)" "rs_chain (ww_sub w) = []" "rs_subscription (ww_sub w) = None"
    using ok True unfolding controller_ok_def by (auto split: if_splits)
  have line: "rs_phase (ww_sub w) = InLine" using ok idle(3) unfolding controller_ok_def by auto
  have q: "controller_ok ?q" "streaming ?q" "unread ?q = []" "running_item ?q = None" "\<not> broken ?q"
    using ok idle line True by (auto simp: controller_ok_def streaming_def transition_to_def unread_def running_item_def broken_def)
  have "running_item (ww_sub w) = None" "\<not> broken (ww_sub w)" using idle line by (simp_all add: running_item_def broken_def)
  with watch_ok_turn [OF assms(1) idle(1)] obtain k where k: "position_of (aw_cursor (ww_watch w)) = Some (f, k)"
      "k0 + length (controls (ww_handed w)) = k"
    by auto
  then have here: "?k = k" by (simp add: resume_position)
  have start: "watch_ok f ev k0 (w\<lparr>ww_sub := ?q, ww_at := ?k\<rparr>)"
    using assms(1) q k here unfolding watch_ok_def by simp
  have "controller_ok (sub_step (Timer a) (ww_sub w))" by (rule ok_timer [OF ok])
  then have step: "controller_ok (subscribe_to a ?r)" using True by simp
  have "queued (values_of (an_early a)) ?q (subscribe_to a ?r)"
    by (rule queued_subscribe) (use idle in simp_all)
  from watch_ok_queued [OF start step, of "values_of (an_early a)" "?k + length (controls (values_of (an_early a)))"] this
  show ?thesis using assms(2) True by simp
qed (use assms in simp)

lemma begin_cases:
  assumes "controller_ok r"
  obtains (item) v js where "rs_phase r = InLine" "rs_chain r = ItemJob v # js" "rs_active r"
      "sub_step (Begin again random) r = r\<lparr>rs_phase := InHandler\<rparr>"
    | (over) e where "rs_phase r = InLine" "rs_chain r = [EndJob e]" "rs_active r" "\<not> streaming r"
      "sub_step (Begin again random) r = drop_job (arrange_retry True random e r)"
    | (out) "\<not> rs_active (sub_step (Begin again random) r)" "running_item (sub_step (Begin again random) r) = None"
    | (same) "sub_step (Begin again random) r = r"
proof (cases "rs_phase r = InLine \<and> rs_chain r \<noteq> []")
  case True
  then obtain j js where c: "rs_phase r = InLine" "rs_chain r = j # js" by (cases "rs_chain r") auto
  show ?thesis
  proof (cases "rs_active r")
    case active: True
    show ?thesis
    proof (cases j)
      case (ItemJob v)
      with c active item show ?thesis by simp
    next
      case (EndJob e)
      have js: "js = []" "\<not> streaming r"
        using assms c EndJob active unfolding controller_ok_def
        by (auto simp: is_item_def Cons_eq_append_conv split: if_splits)
      show ?thesis
      proof (cases again)
        case True
        with c EndJob js active over show ?thesis by simp
      next
        case False
        with c EndJob active have "sub_step (Begin again random) r = drop_job (fail_sub e r)" by (simp add: arrange_retry_def)
        with out show ?thesis by (simp add: drop_job_def running_item_def)
      qed
    next
      case ResolveJob
      with active_unresolved [OF assms active] c show ?thesis by simp
    qed
  next
    case False
    with c out show ?thesis
      by (cases j) (simp_all add: running_item_def drop_job_def arrange_retry_def settle_done_def split: option.splits)
  qed
next
  case False
  have "sub_step (Begin again random) r = r" using False by (auto split: job_phase.splits list.splits)
  then show ?thesis by (rule same)
qed

lemma watch_ok_item:
  assumes "watch_ok f ev k0 w" "controller_ok r'" "rs_phase (ww_sub w) = InLine" "rs_chain (ww_sub w) = ItemJob v # js"
    and "rs_active (ww_sub w)" "r' = ww_sub w\<lparr>rs_phase := InHandler\<rparr>"
  shows "watch_ok f ev k0 (w\<lparr>ww_sub := r', ww_handed := if reaches (ww_watch w) v then ww_handed w @ [v] else ww_handed w\<rparr>)"
proof -
  let ?r = "ww_sub w"
  have idle: "running_item ?r = None" "\<not> broken ?r" "unread ?r = v # waiting_items js"
    using assms by (simp_all add: running_item_def broken_def unread_def)
  obtain k where k: "position_of (aw_cursor (ww_watch w)) = Some (f, k)" "k0 + length (controls (ww_handed w)) = k"
      "leads_on f ev k (v # waiting_items js)" "streaming ?r \<longrightarrow> ww_at w = k + length (controls (v # waiting_items js))"
    using watch_ok_turn [OF assms(1,5) idle(2)] idle by (auto simp del: controls_simps)
  have v: "flows f k [v]" "accessStreamItemSchema v" "controls [v] = from_feed ev k (length (controls [v]))"
    using k(3) leads_on_append [of f ev k "[v]" "waiting_items js"] by (simp_all add: leads_on_def del: controls_simps(2))
  have reached: "reaches (ww_watch w) v" if "controls [v] \<noteq> []"
    using watch_item(2) [OF k(1) v(1) that v(2)] by (auto simp: reaches_def onData_def split: if_splits)
  let ?h = "if reaches (ww_watch w) v then ww_handed w @ [v] else ww_handed w"
  have handed: "controls ?h = controls (ww_handed w) @ controls [v]" using reached by (cases "controls [v] = []") auto
  have before: "controls (ww_handed w) = from_feed ev k0 (length (controls (ww_handed w)))" using assms(1) by (simp add: watch_ok_def)
  have "from_feed ev k0 (length (controls (ww_handed w) @ controls [v])) = controls (ww_handed w) @ controls [v]"
    unfolding length_append from_feed_add k(2) using before v(3) by simp
  then have feed: "controls ?h = from_feed ev k0 (length (controls ?h))" unfolding handed by simp
  have new: "running_item r' = Some v" "unread r' = v # waiting_items js" "streaming r' = streaming ?r"
    using assms by (simp_all add: running_item_def unread_def streaming_def)
  show ?thesis
    unfolding watch_ok_def using feed assms(2) k handed new by (auto simp del: controls_simps(2))
qed

lemma watch_ok_begin:
  assumes "watch_ok f ev k0 w"
  shows "watch_ok f ev k0 (watch_step (WBegin again random) w)"
proof -
  let ?r = "ww_sub w" and ?r' = "sub_step (Begin again random) (ww_sub w)"
  have ok: "controller_ok ?r" using assms by (simp add: watch_ok_def)
  have ok': "controller_ok ?r'" by (rule ok_begin [OF ok])
  from ok show ?thesis
  proof (cases rule: begin_cases [of _ again random])
    case (item v js)
    have "running_item ?r = None" "running_item ?r' = Some v" unfolding item(4) using item by (simp_all add: running_item_def)
    then have "watch_step (WBegin again random) w =
        w\<lparr>ww_sub := ?r', ww_handed := if reaches (ww_watch w) v then ww_handed w @ [v] else ww_handed w\<rparr>"
      by (simp only: watch_step.simps Let_def option.case)
    with watch_ok_item [OF assms ok' item] show ?thesis by simp
  next
    case (over e)
    have idle: "running_item ?r = None" "\<not> broken ?r" "unread ?r = []"
      using over by (simp_all add: running_item_def broken_def unread_def)
    obtain k where k: "position_of (aw_cursor (ww_watch w)) = Some (f, k)" "k0 + length (controls (ww_handed w)) = k"
      using watch_ok_turn [OF assms over(3) idle(2)] idle by auto
    have new: "running_item ?r' = None" "unread ?r' = []" "\<not> streaming ?r'"
      unfolding over(5) using over(2-4)
      by (simp_all add: drop_job_def arrange_retry_def transition_to_def running_item_def unread_def streaming_def Let_def)
    have "watch_step (WBegin again random) w = w\<lparr>ww_sub := ?r'\<rparr>"
      by (simp only: watch_step.simps Let_def option.case idle(1) new(1)) simp
    then show ?thesis using assms k ok' new by (simp add: watch_ok_def del: sub_step.simps)
  next
    case out
    have "watch_step (WBegin again random) w = w\<lparr>ww_sub := ?r'\<rparr>"
      by (cases "running_item ?r") (simp_all only: watch_step.simps Let_def option.case out(2), simp_all)
    with watch_ok_inactive [OF assms ok'] out(1) show ?thesis by simp
  next
    case same
    have "watch_step (WBegin again random) w = w"
      by (cases "running_item ?r") (simp_all only: watch_step.simps Let_def option.case same, simp_all)
    with assms show ?thesis by simp
  qed
qed

lemma running_itemD:
  assumes "running_item r = Some v"
  shows "rs_phase r = InHandler" "\<exists>js. rs_chain r = ItemJob v # js"
  using assms by (auto simp: running_item_def split: job_phase.splits list.splits job.splits)

lemma watch_ok_finish:
  assumes "watch_ok f ev k0 w"
  shows "watch_ok f ev k0 (watch_step (WFinish accepts) w)"
proof (cases "running_item (ww_sub w)")
  case None
  with assms show ?thesis by simp
next
  case (Some v)
  let ?r = "ww_sub w"
  obtain js where c: "rs_phase ?r = InHandler" "rs_chain ?r = ItemJob v # js" using running_itemD [OF Some] by auto
  obtain outcome aw where out: "onData accepts v (ww_watch w) = (outcome, aw)" by fastforce
  let ?r' = "sub_step (Finish (handler_result outcome)) ?r"
  have step: "watch_step (WFinish accepts) w = w\<lparr>ww_sub := ?r', ww_watch := aw\<rparr>" using Some out by simp
  have ok': "controller_ok ?r'" by (rule ok_finish) (use assms in \<open>simp add: watch_ok_def\<close>)
  show ?thesis
  proof (cases "rs_active ?r \<and> handler_result outcome = None")
    case True
    have "\<not> broken ?r" using c by (simp add: broken_def)
    with watch_ok_turn [OF assms] True c Some obtain k where k: "position_of (aw_cursor (ww_watch w)) = Some (f, k)"
        "k0 + length (controls (ww_handed w)) = k + length (controls [v])" "leads_on f ev k (v # waiting_items js)"
        "streaming ?r \<longrightarrow> ww_at w = k + length (controls (v # waiting_items js))"
      by (auto simp: unread_def simp del: controls_simps(2))
    have v: "flows f k [v]" "accessStreamItemSchema v" "leads_on f ev (k + length (controls [v])) (waiting_items js)"
      using k(3) leads_on_append [of f ev k "[v]" "waiting_items js"] by (simp_all add: leads_on_def del: controls_simps(2))
    have "controls [v] = []" if "outcome \<noteq> Committed"
      using watch_item(2) [OF k(1) v(1) _ v(2)] out that True
      by (auto simp: onData_def handler_result_def split: if_splits item_outcome.splits)
    with watch_item(1) [OF k(1) v(1), of accepts] out
    have here: "position_of (aw_cursor aw) = Some (f, k + length (controls [v]))" by auto
    have new: "running_item ?r' = None" "unread ?r' = waiting_items js" "streaming ?r' = streaming ?r"
      using c True by (simp_all add: running_item_def unread_def streaming_def)
    have "streaming ?r \<longrightarrow> ww_at w = k + length (controls [v]) + length (controls (waiting_items js))"
      using k(4) by (cases v) auto
    then show ?thesis
      unfolding step using assms ok' here new k(2) v(3) by (simp add: watch_ok_def del: sub_step.simps controls_simps(2))
  next
    case False
    then have "\<not> rs_active ?r' \<or> broken ?r'" using c by (auto simp: broken_def)
    then show ?thesis unfolding step using assms ok' by (auto simp: watch_ok_def simp del: sub_step.simps)
  qed
qed

lemma watch_ok_settle:
  assumes "watch_ok f ev k0 w"
  shows "watch_ok f ev k0 (watch_step WSettle w)"
proof (cases "rs_phase (ww_sub w)")
  case (Handled result)
  let ?r = "ww_sub w" and ?r' = "sub_step Settle (ww_sub w)"
  have "controller_ok ?r" using assms by (simp add: watch_ok_def)
  then have ok: "controller_ok ?r" "controller_ok ?r'" by (simp_all only: ok_settle)
  obtain v js where c: "rs_chain ?r = ItemJob v # js" using ok(1) Handled unfolding controller_ok_def by auto
  show ?thesis
  proof (cases result)
    case None
    have same: "broken ?r' = broken ?r" "running_item ?r' = running_item ?r" "unread ?r' = unread ?r" "streaming ?r' = streaming ?r"
        "rs_active ?r' = rs_active ?r"
      using Handled c None by (simp_all add: broken_def running_item_def unread_def streaming_def drop_job_def Let_def)
    show ?thesis using assms ok(2) unfolding watch_ok_def watch_step.simps by (simp add: same del: sub_step.simps)
  next
    case (Some e)
    have "\<not> rs_active ?r'" using Handled Some by (simp add: drop_job_def Let_def)
    with watch_ok_inactive [OF assms ok(2)] show ?thesis by simp
  qed
qed (use assms in simp_all)

lemma watch_ok_step: "watch_ok f ev k0 w \<Longrightarrow> genuine f ev x w \<Longrightarrow> watch_ok f ev k0 (watch_step x w)"
proof (cases x)
  case WStop
  assume w: "watch_ok f ev k0 w"
  then have "controller_ok (stop_sub (ww_sub w))" by (simp add: watch_ok_def ok_stop)
  with watch_ok_inactive [OF w] WStop show ?thesis by simp
qed (simp_all only: watch_ok_arrive watch_ok_begin watch_ok_finish watch_ok_settle watch_ok_timer)

lemma watch_ok_open:
  assumes "0 < so_maxPendingItems o'" "leads_on (sc_feedId cur) ev (sc_controlCursor cur) (values_of (an_early a))"
  shows "watch_ok (sc_feedId cur) ev (sc_controlCursor cur) (open_watch o' aborted (Some cur) a)"
proof -
  let ?f = "sc_feedId cur" and ?k = "sc_controlCursor cur"
  have k: "position_of (aw_cursor (watchAccess (Some cur))) = Some (?f, ?k)" "resume_at (watchAccess (Some cur)) = ?k"
    by (simp_all add: watchAccess_def position_of_def resume_at_def)
  have ok: "controller_ok (startResilientSubscription o' aborted a :: access_item controller)" by (rule controller_ok_start [OF assms(1)])
  show ?thesis
  proof (cases aborted)
    case True
    then have "\<not> rs_active (startResilientSubscription o' aborted a :: access_item controller)"
      by (simp add: startResilientSubscription_def)
    with ok show ?thesis by (simp add: watch_ok_def open_watch_def)
  next
    case False
    define r0 :: "access_item controller" where
      "r0 = \<lparr>rs_options = o', rs_state = Connecting 0, rs_active = True, rs_generation = 0, rs_newest = 0, rs_retryAttempt = 0,
        rs_pendingItems = 0, rs_chain = [], rs_phase = InLine, rs_established = False, rs_subscription = None,
        rs_timer = False, rs_done = None, rs_open = [], rs_committed = []\<rparr>"
    define r1 where "r1 = transition_to (Connecting (rs_retryAttempt r0))
      (r0\<lparr>rs_generation := Suc (rs_generation r0), rs_newest := Suc (rs_generation r0), rs_established := False\<rparr>)"
    have start: "startResilientSubscription o' aborted a = subscribe_to a r0"
      using False by (simp add: startResilientSubscription_def r0_def)
    have q: "queued (values_of (an_early a)) r1 (subscribe_to a r0)"
      by (rule queued_subscribe) (simp_all add: r1_def, simp_all add: r0_def)
    let ?w = "\<lparr>ww_sub = r1, ww_watch = watchAccess (Some cur), ww_handed = [], ww_at = ?k\<rparr>"
    have "watch_ok ?f ev ?k ?w"
      using k by (simp add: watch_ok_def r1_def r0_def transition_to_def controller_ok_def streaming_def running_item_def unread_def)
    from watch_ok_queued [OF this, of "subscribe_to a r0" "values_of (an_early a)" "?k + length (controls (values_of (an_early a)))"]
    show ?thesis using ok q assms(2) k(2) by (simp add: open_watch_def start)
  qed
qed

lemma watch_ok_run:
  assumes "watch_runs f ev w w'" "watch_ok f ev k0 w"
  shows "watch_ok f ev k0 w'"
  using assms by induction (simp_all only: watch_ok_step)

text \<open>C14: A client stays in step across reconnects.  Whatever callbacks, failures, timers and stops come in
  whatever order, as long as each subscription leads on from the cursor it was given: the control events
  handed to the handler are those after the first cursor, each once and in order; and when nothing is
  waiting, the client's cursor is after the last of them and its stream, if it has one, goes on from there.\<close>

theorem watch_survives_reconnects:
  assumes "subscriptionOptions i = Some o'"
    and "leads_on (sc_feedId cur) ev (sc_controlCursor cur) (values_of (an_early a))"
    and "watch_runs (sc_feedId cur) ev (open_watch o' aborted (Some cur) a) w"
  shows "let n = length (controls (ww_handed w)) in
    controls (ww_handed w) = from_feed ev (sc_controlCursor cur) n \<and>
    (rs_active (ww_sub w) \<and> rs_chain (ww_sub w) = [] \<longrightarrow>
      position_of (aw_cursor (ww_watch w)) = Some (sc_feedId cur, sc_controlCursor cur + n) \<and>
      (streaming (ww_sub w) \<longrightarrow> ww_at w = sc_controlCursor cur + n))"
proof -
  have ok: "watch_ok (sc_feedId cur) ev (sc_controlCursor cur) w"
    by (rule watch_ok_run [OF assms(3) watch_ok_open [OF options_positive [OF assms(1)] assms(2)]])
  have idle: "running_item (ww_sub w) = None \<and> \<not> broken (ww_sub w) \<and> unread (ww_sub w) = []"
    if "rs_chain (ww_sub w) = []"
    using ok that by (auto simp: watch_ok_def controller_ok_def running_item_def broken_def unread_def)
  have feed: "controls (ww_handed w) = from_feed ev (sc_controlCursor cur) (length (controls (ww_handed w)))"
    using ok by (simp add: watch_ok_def)
  have "position_of (aw_cursor (ww_watch w)) = Some (sc_feedId cur, sc_controlCursor cur + length (controls (ww_handed w))) \<and>
      (streaming (ww_sub w) \<longrightarrow> ww_at w = sc_controlCursor cur + length (controls (ww_handed w)))"
    if "rs_active (ww_sub w)" "rs_chain (ww_sub w) = []"
  proof -
    note i = idle [OF that(2)]
    from watch_ok_turn [OF ok that(1)] i obtain k where "position_of (aw_cursor (ww_watch w)) = Some (sc_feedId cur, k)"
        "sc_controlCursor cur + length (controls (ww_handed w)) = k" "streaming (ww_sub w) \<longrightarrow> ww_at w = k"
      by (metis add.right_neutral controls_simps(1) list.size(3) option.simps(4))
    then show ?thesis by simp
  qed
  with feed show ?thesis unfolding Let_def by blast
qed

text \<open>A run: the first stream ends after one event, the second one brings the next.\<close>

fun genuine_all :: "string \<Rightarrow> (nat \<Rightarrow> feed_item) \<Rightarrow> watch_event list \<Rightarrow> watch_world \<Rightarrow> bool" where
  "genuine_all f ev [] w = True"
| "genuine_all f ev (x # xs) w = (genuine f ev x w \<and> genuine_all f ev xs (watch_step x w))"

lemma watch_runs_trans: "watch_runs f ev v w \<Longrightarrow> watch_runs f ev u v \<Longrightarrow> watch_runs f ev u w"
  by (induction rule: watch_runs.induct) (auto intro: watch_turn)

lemma genuine_all_runs: "genuine_all f ev xs w \<Longrightarrow> watch_runs f ev w (fold watch_step xs w)"
proof (induction xs arbitrary: w)
  case (Cons x xs)
  then have "watch_runs f ev w (watch_step x w)" "watch_runs f ev (watch_step x w) (fold watch_step xs (watch_step x w))"
    using watch_turn [OF watch_start] by simp_all
  then show ?case using watch_runs_trans by simp
qed (simp add: watch_start)

definition demo_event :: "nat \<Rightarrow> feed_item" where
  "demo_event n = \<lparr>fi_eventId = ''e'', fi_feedId = ''f'', fi_cursor = n, fi_origin = ''c'',
     fi_authority = \<lparr>au_realmId = ''r'', au_controlNodeId = ''c'', au_epochId = ''e''\<rparr>, fi_change = SessionUnavailable ''s''\<rparr>"

definition demo_options :: sub_options where
  "demo_options = \<lparr>so_maxPendingItems = 2, so_initialRetryDelayMs = 0, so_maxRetryDelayMs = 0, so_retryFactor = 1,
     so_retryJitter = 0\<rparr>"

definition demo_cursor :: stream_cursor where
  "demo_cursor = \<lparr>sc_feedId = ''f'', sc_controlCursor = 0, sc_native = []\<rparr>"

definition demo_answer :: "nat list \<Rightarrow> access_item sub_answer" where
  "demo_answer ns = \<lparr>an_early = OnStarted # map (\<lambda>n. OnData (AControl (demo_event n))) ns, an_throws = None\<rparr>"

definition demo_events :: "watch_event list" where
  "demo_events = [WArrive 1 (OnData (AControl (demo_event 1))), WArrive 1 OnComplete,
     WBegin True 0, WFinish True, WSettle, WBegin True 0, WArrive 1 (OnData (AControl (demo_event 7))),
     WTimer (demo_answer [2]), WBegin True 0, WFinish True, WSettle]"

definition demo_watch :: watch_world where
  "demo_watch = fold watch_step demo_events (open_watch demo_options False (Some demo_cursor) (demo_answer []))"

lemma demo_watch_run:
  "genuine_all ''f'' demo_event demo_events (open_watch demo_options False (Some demo_cursor) (demo_answer []))"
  "rs_active (ww_sub demo_watch)" "rs_chain (ww_sub demo_watch) = []" "length (controls (ww_handed demo_watch)) = 2"
  by code_simp+

lemma demo_options: "subscriptionOptions \<lparr>si_maxPendingItems = Some 2, si_initialRetryDelayMs = Some 0, si_maxRetryDelayMs = Some 0,
    si_retryFactor = Some 1, si_retryJitter = Some 0\<rparr> = Some demo_options"
  by (simp add: subscriptionOptions_def positiveInteger_def nonnegativeInteger_def finiteAtLeast_def finiteBetween_def given_def
      isSafeInteger_def demo_options_def)

theorem watch_survives_reconnects_witness:
  "controls (ww_handed demo_watch) = [demo_event 1, demo_event 2] \<and>
   position_of (aw_cursor (ww_watch demo_watch)) = Some (''f'', 2)"
proof -
  have "sc_feedId demo_cursor = ''f''" "sc_controlCursor demo_cursor = 0" by (simp_all add: demo_cursor_def)
  moreover have "leads_on ''f'' demo_event 0 (values_of (an_early (demo_answer [])))" by (simp add: demo_answer_def)
  moreover have "from_feed demo_event 0 2 = [demo_event 1, demo_event 2]" by (simp add: from_feed_def upt_rec numeral_2_eq_2)
  ultimately show ?thesis
    using watch_survives_reconnects [OF demo_options, of demo_cursor demo_event "demo_answer []" False demo_watch]
      genuine_all_runs [OF demo_watch_run(1)] demo_watch_run(2-4)
    by (simp add: Let_def demo_watch_def [symmetric])
qed

end
