(* ===== verification/Terminal_State.thy ===== *)
theory Terminal_State
  imports Text_Codec Json Mailbox
begin

text \<open>
  The records of managed terminals: the wire types and rules of \<^verbatim>\<open>packages/protocol/src/terminal.ts\<close> and
  the state of \<^verbatim>\<open>packages/runtime-node-core/src/terminal.ts\<close>.  Time stamps that the code compares (the
  expiry of a lease) are milliseconds, those it only shows are texts.
\<close>

subsection \<open>Base64\<close>

definition standard_digit :: "nat \<Rightarrow> char" where
  "standard_digit n = (if n = 62 then CHR ''+'' else if n = 63 then CHR ''/'' else base64_digit n)"

definition to_base64 :: "string \<Rightarrow> string" where
  "to_base64 s = map standard_digit (sextets (map of_char s)) @ replicate ((3 - length s mod 3) mod 3) CHR ''=''"

lemma standard_digit_value: "n < 64 \<Longrightarrow> base64_value (standard_digit n) = Some n"
  by (simp add: standard_digit_def base64_value_digit) (simp add: base64_value_def)

lemma standard_values: "list_all (\<lambda>n. n < 64) ns \<Longrightarrow> List.map_filter base64_value (map standard_digit ns) = ns"
  by (induction ns) (simp_all add: map_filter_simps standard_digit_value)

lemma padding_skipped: "List.map_filter base64_value (replicate k CHR ''='') = []"
  by (induction k) (simp_all add: base64_value_def map_filter_simps)

lemma from_to_base64 [simp]: "from_base64url (to_base64 s) = s"
proof -
  have b: "list_all (\<lambda>n. n < 256) (map of_char s :: nat list)" by (simp add: list_all_iff)
  have "List.map_filter base64_value (to_base64 s) = sextets (map of_char s)"
    using standard_values [OF sextets_bound [OF b]] padding_skipped by (simp add: to_base64_def map_filter_def)
  then show ?thesis by (simp add: from_base64url_def octets_sextets [OF b] comp_def)
qed

text \<open>The canonical form: no characters outside the alphabet, the unused bits of the last digit zero.\<close>

definition is_digit64 :: "char \<Rightarrow> bool" where
  "is_digit64 c \<longleftrightarrow> base64_value c \<noteq> None \<and> c \<noteq> CHR ''-'' \<and> c \<noteq> CHR ''_''"

definition canonicalBase64DecodedBytes :: "string \<Rightarrow> nat option" where
  "canonicalBase64DecodedBytes v =
     (let padding = (if drop (length v - 2) v = ''=='' then 2 else if drop (length v - 1) v = ''='' then 1 else 0);
          body = take (length v - padding) v;
          tail = (if padding = 0 then 0 else case base64_value (last body) of None \<Rightarrow> 0 | Some n \<Rightarrow> n)
      in if length v mod 4 \<noteq> 0 \<or> \<not> list_all is_digit64 body then None
         else if padding = 2 \<and> tail mod 16 \<noteq> 0 \<or> padding = 1 \<and> tail mod 4 \<noteq> 0 then None
         else Some (if v = [] then 0 else length v div 4 * 3 - padding))"

definition base64Schema :: "nat \<Rightarrow> string \<Rightarrow> bool" where
  "base64Schema maximum v \<longleftrightarrow> length v \<le> (maximum + 2) div 3 * 4 \<and>
     (case canonicalBase64DecodedBytes v of None \<Rightarrow> False | Some n \<Rightarrow> n \<le> maximum)"

definition utf8Base64Schema :: "nat \<Rightarrow> string \<Rightarrow> bool" where
  "utf8Base64Schema maximum v \<longleftrightarrow> base64Schema maximum v \<and> utf8_valid (from_base64url v)"

subsection \<open>Wire types\<close>

definition maxFrameBytes :: nat where "maxFrameBytes = 16 * 1024"

definition maxScreenBytes :: nat where "maxScreenBytes = 1024 * 1024"

definition maxReplayItems :: nat where "maxReplayItems = 4096"

record terminal_target =
  tg_sessionId :: string
  tg_runtimeNodeId :: string
  tg_bindingRevision :: nat

record terminal_dimensions =
  di_columns :: nat
  di_rows :: nat

definition terminalDimensionsSchema :: "terminal_dimensions \<Rightarrow> bool" where
  "terminalDimensionsSchema d \<longleftrightarrow> 2 \<le> di_columns d \<and> di_columns d \<le> 1000 \<and> 1 \<le> di_rows d \<and> di_rows d \<le> 1000"

record terminal_cursor =
  tcu_terminalId :: string
  tcu_sequence :: nat

record lease_summary =
  ls_terminalLeaseId :: string
  ls_terminalClientId :: string
  ls_expiresAt :: int

record terminal_capabilities =
  tc_write :: bool
  tc_resize :: bool
  tc_terminate :: bool
  tc_restart :: bool
  tc_foregroundSwitch :: bool

datatype terminal_state = TStarting | TRunning | TExited | TErrored

datatype terminal_sharing = PerSession | AdapterScope

record terminal_exit =
  tx_exitCode :: "int option"
  tx_signal :: "int option"
  tx_message :: "string option"

record terminal_descriptor =
  td_target :: terminal_target
  td_runtimeNodeBootId :: string
  td_terminalId :: string
  td_backend :: string
  td_sharing :: terminal_sharing
  td_foregroundSessionId :: "string option"
  td_state :: terminal_state
  td_dimensions :: terminal_dimensions
  td_sequence :: nat
  td_lease :: "lease_summary option"
  td_capabilities :: terminal_capabilities
  td_openedAt :: string
  td_updatedAt :: string
  td_exit :: "terminal_exit option"

datatype reset_reason = InitialScreen | CursorExpired | CursorAhead

datatype terminal_item =
    ReplayStart terminal_cursor terminal_dimensions terminal_descriptor
  | ReplayEnd terminal_cursor terminal_descriptor
  | ScreenReset reset_reason terminal_cursor string terminal_descriptor
  | Output terminal_cursor string
  | Resized terminal_cursor terminal_dimensions
  | Changed terminal_cursor terminal_descriptor
  | TerminalBeat terminal_cursor

fun item_cursor :: "terminal_item \<Rightarrow> terminal_cursor" where
  "item_cursor (ReplayStart c d t) = c"
| "item_cursor (ReplayEnd c t) = c"
| "item_cursor (ScreenReset r c s t) = c"
| "item_cursor (Output c d) = c"
| "item_cursor (Resized c d) = c"
| "item_cursor (Changed c t) = c"
| "item_cursor (TerminalBeat c) = c"

definition described :: "terminal_cursor \<Rightarrow> terminal_descriptor \<Rightarrow> bool" where
  "described c t \<longleftrightarrow> td_terminalId t = tcu_terminalId c \<and> td_sequence t = tcu_sequence c"

fun terminalStreamItemSchema :: "terminal_item \<Rightarrow> bool" where
  "terminalStreamItemSchema (ReplayStart c d t) \<longleftrightarrow> tcu_sequence c = 0 \<and> terminalDimensionsSchema d \<and>
     td_terminalId t = tcu_terminalId c"
| "terminalStreamItemSchema (ReplayEnd c t) \<longleftrightarrow> described c t"
| "terminalStreamItemSchema (ScreenReset r c s t) \<longleftrightarrow> base64Schema maxScreenBytes s \<and> described c t"
| "terminalStreamItemSchema (Output c d) \<longleftrightarrow> base64Schema maxFrameBytes d \<and> d \<noteq> []"
| "terminalStreamItemSchema (Resized c d) \<longleftrightarrow> terminalDimensionsSchema d"
| "terminalStreamItemSchema (Changed c t) \<longleftrightarrow> described c t"
| "terminalStreamItemSchema (TerminalBeat c) \<longleftrightarrow> True"

subsection \<open>Requests\<close>

record lease_credential =
  lc_terminalLeaseId :: string
  lc_token :: string

record open_input =
  oi_terminalClientId :: string
  oi_expectedTerminalId :: "string option"
  oi_confirmForegroundSwitch :: bool
  oi_dimensions :: "terminal_dimensions option"

record acquire_input =
  ai_target :: terminal_target
  ai_terminalId :: string
  ai_terminalClientId :: string
  ai_requestId :: string
  ai_forceTerminalLeaseId :: "string option"

record acquire_result =
  ar_lease :: lease_summary
  ar_credential :: lease_credential
  ar_nextInputSequence :: nat

record renew_input =
  ri_target :: terminal_target
  ri_terminalId :: string
  ri_terminalClientId :: string
  ri_credential :: lease_credential

datatype input_payload = Write string | Resize terminal_dimensions

record terminal_input =
  in_target :: terminal_target
  in_terminalId :: string
  in_terminalClientId :: string
  in_credential :: lease_credential
  in_inputSequence :: nat
  in_payload :: input_payload

record input_result =
  ir_terminalId :: string
  ir_inputSequence :: nat
  ir_acceptedAt :: string

definition terminalInputSchema :: "terminal_input \<Rightarrow> bool" where
  "terminalInputSchema i \<longleftrightarrow> (case in_payload i of Write d \<Rightarrow> utf8Base64Schema maxFrameBytes d \<and> d \<noteq> []
     | Resize d \<Rightarrow> terminalDimensionsSchema d)"

end
