(* ===== verification/Terminal_Broker.thy ===== *)
theory Terminal_Broker
  imports Terminal_State Record_Json
begin

text \<open>
  The terminals a runtime node manages (\<^verbatim>\<open>packages/runtime-node-core/src/terminal.ts\<close>): native processes,
  the terminals on them with their replay, keyboard lease and subscribers, and the broker that opens, hands
  over and closes them.  Hashing, the key for lease tokens and the screen an emulator shows after what was
  written to it are parameters; identifiers and clock readings are arguments; every asynchronous call is a
  step up to its \<open>await\<close> and a step from there.
\<close>

subsection \<open>State\<close>

datatype terminal_error = TNotFound | TConflict | TFenced | TUnsupported | TExhausted | TTypeError | TNative

record moment =
  at_ms :: int
  at_text :: string

datatype emulator_op = EmWrite string | EmResize terminal_dimensions

record terminal_env =
  te_sha :: "string \<Rightarrow> string"
  te_mac :: "string \<Rightarrow> string"
  te_screen :: "terminal_dimensions \<Rightarrow> emulator_op list \<Rightarrow> string"

record terminal_provider =
  tp_harness :: string
  tp_adapterScopeId :: string
  tp_backend :: string
  tp_sharing :: terminal_sharing
  tp_capabilities :: terminal_capabilities

record terminal_binding =
  tb_target :: terminal_target
  tb_harness :: string
  tb_adapterScopeId :: string
  tb_vendorSessionId :: string
  tb_cwd :: string

record terminal_limits =
  tl_replayItems :: nat
  tl_replayBytes :: nat
  tl_subscriberItems :: nat
  tl_heartbeatMs :: nat
  tl_leaseTtlMs :: nat

record lease_state =
  le_summary :: lease_summary
  le_tokenHash :: string
  le_nextInputSequence :: nat
  le_receipts :: "(nat, string \<times> input_result) table"
  le_expiryTimer :: int

record acquire_receipt =
  acr_fingerprint :: string
  acr_lease :: lease_summary
  acr_terminalLeaseId :: string
  acr_nextInputSequence :: nat

text \<open>\<open>mt_published\<close> is every item the terminal ever published; the code keeps only the end of it, the replay.\<close>

record managed_terminal =
  mt_terminalId :: string
  mt_openedAt :: string
  mt_published :: "terminal_item list"
  mt_replay :: "(terminal_item \<times> nat) list"
  mt_initialDimensions :: terminal_dimensions
  mt_forceSynthesizedInitial :: bool
  mt_listening :: bool
  mt_state :: terminal_state
  mt_updatedAt :: string
  mt_dimensions :: terminal_dimensions
  mt_sequence :: nat
  mt_replayBytes :: nat
  mt_lastOutputSequence :: nat
  mt_emulator :: "emulator_op list"
  mt_emulatorSequence :: nat
  mt_disposed :: bool
  mt_lease :: "lease_state option"
  mt_exit :: "terminal_exit option"
  mt_binding :: terminal_binding
  mt_provider :: terminal_provider
  mt_process :: nat
  mt_limits :: terminal_limits
  mt_runtimeNodeBootId :: string

datatype pty_op = PtyWrite string | PtyResize terminal_dimensions

text \<open>A native process behind \<open>terminalProcessFromPty\<close>; listeners are known by the terminal they belong to.
  \<open>py_inputs\<close> is what was done to it, each with the lease and the sequence number of the input that did it.\<close>

record pty =
  py_dataListener :: "string option"
  py_exitListener :: "string option"
  py_startupData :: "string list"
  py_startupBytes :: nat
  py_startupOutputComplete :: bool
  py_startupExit :: "terminal_exit option"
  py_subscribed :: bool
  py_killed :: bool
  py_inputs :: "(string \<times> nat \<times> pty_op) list"

text \<open>
  A subscription: the prefix its iterator has not read yet, what it has read of it, the mailbox, the reset it
  waits to send, and whether it is among the terminal's subscribers.  It is closed when its mailbox is.
\<close>

record terminal_attachment =
  tu_terminalId :: string
  tu_prefix :: "terminal_item list"
  tu_read :: "terminal_item list"
  tu_queue :: "terminal_item mail_queue"
  tu_reset :: "(reset_reason \<times> nat) option"
  tu_live :: bool

record open_job =
  oj_binding :: terminal_binding
  oj_provider :: terminal_provider
  oj_dimensions :: terminal_dimensions
  oj_current :: "string option"
  oj_foreground :: "string option"
  oj_reserves :: bool

record broker =
  br_runtimeNodeBootId :: string
  br_providers :: "(string, terminal_provider) table"
  br_terminals :: "(string, managed_terminal) table"
  br_ptys :: "(nat, pty) table"
  br_bySession :: "(string, string) table"
  br_byScope :: "(string, string) table"
  br_opening :: "(string, open_job) table"
  br_acquireReceipts :: "(string, acquire_receipt) table"
  br_maxRunningTerminals :: nat
  br_limits :: terminal_limits
  br_pendingProcessOpens :: nat
  br_closed :: bool
  br_attachments :: "terminal_attachment list"

definition inputReceiptLimit :: nat where "inputReceiptLimit = 1024"

definition acquireReceiptLimit :: nat where "acquireReceiptLimit = 4096"

definition defaultDimensions :: terminal_dimensions where
  "defaultDimensions = \<lparr>di_columns = 100, di_rows = 30\<rparr>"

definition providerKey :: "string \<Rightarrow> string \<Rightarrow> string" where
  "providerKey harness scope = harness @ [CHR 0x00] @ scope"

definition edit_terminal :: "string \<Rightarrow> (managed_terminal \<Rightarrow> managed_terminal) \<Rightarrow> broker \<Rightarrow> broker" where
  "edit_terminal k f b =
     (case map_of (br_terminals b) k of None \<Rightarrow> b | Some m \<Rightarrow> b\<lparr>br_terminals := put k (f m) (br_terminals b)\<rparr>)"

definition edit_pty :: "nat \<Rightarrow> (pty \<Rightarrow> pty) \<Rightarrow> broker \<Rightarrow> broker" where
  "edit_pty p f b = (case map_of (br_ptys b) p of None \<Rightarrow> b | Some y \<Rightarrow> b\<lparr>br_ptys := put p (f y) (br_ptys b)\<rparr>)"

subsection \<open>Publishing\<close>

fun trim_replay :: "terminal_limits \<Rightarrow> (terminal_item \<times> nat) list \<Rightarrow> nat \<Rightarrow> (terminal_item \<times> nat) list \<times> nat" where
  "trim_replay l [] n = ([], n)"
| "trim_replay l (e # es) n =
     (if length (e # es) > tl_replayItems l \<or> n > tl_replayBytes l then trim_replay l es (n - snd e) else (e # es, n))"

definition broadcast_item :: "string \<Rightarrow> terminal_item \<Rightarrow> broker \<Rightarrow> broker" where
  "broadcast_item k item b = b\<lparr>br_attachments := map (\<lambda>u.
     if tu_terminalId u = k \<and> tu_live u then u\<lparr>tu_queue := async_push item (tu_queue u)\<rparr> else u) (br_attachments b)\<rparr>"

text \<open>The item goes to the replay, whose oldest items make room for it.\<close>

definition published :: "terminal_item \<Rightarrow> nat \<Rightarrow> managed_terminal \<Rightarrow> managed_terminal" where
  "published item bytes m =
     (let (replay, n) = trim_replay (mt_limits m) (mt_replay m @ [(item, bytes)]) (mt_replayBytes m + bytes)
      in m\<lparr>mt_published := mt_published m @ [item], mt_replay := replay, mt_replayBytes := n\<rparr>)"

definition publish_item :: "string \<Rightarrow> terminal_item \<Rightarrow> nat \<Rightarrow> broker \<Rightarrow> broker" where
  "publish_item k item bytes b = broadcast_item k item (edit_terminal k (published item bytes) b)"

definition descriptor :: "managed_terminal \<Rightarrow> terminal_descriptor" where
  "descriptor m = \<lparr>td_target = tb_target (mt_binding m), td_runtimeNodeBootId = mt_runtimeNodeBootId m,
     td_terminalId = mt_terminalId m, td_backend = tp_backend (mt_provider m), td_sharing = tp_sharing (mt_provider m),
     td_foregroundSessionId = (if tp_sharing (mt_provider m) = AdapterScope then Some (tg_sessionId (tb_target (mt_binding m))) else None),
     td_state = mt_state m, td_dimensions = mt_dimensions m, td_sequence = mt_sequence m,
     td_lease = map_option le_summary (mt_lease m), td_capabilities = tp_capabilities (mt_provider m),
     td_openedAt = mt_openedAt m, td_updatedAt = mt_updatedAt m, td_exit = mt_exit m\<rparr>"

definition here :: "managed_terminal \<Rightarrow> terminal_cursor" where
  "here m = \<lparr>tcu_terminalId = mt_terminalId m, tcu_sequence = mt_sequence m\<rparr>"

definition numbered :: "moment \<Rightarrow> managed_terminal \<Rightarrow> managed_terminal" where
  "numbered at m = m\<lparr>mt_updatedAt := at_text at, mt_sequence := Suc (mt_sequence m)\<rparr>"

text \<open>The terminal takes the next sequence number and publishes an item under it.\<close>

definition emit_item ::
  "moment \<Rightarrow> string \<Rightarrow> (managed_terminal \<Rightarrow> managed_terminal) \<Rightarrow> (managed_terminal \<Rightarrow> terminal_item) \<Rightarrow> nat \<Rightarrow> broker \<Rightarrow> broker" where
  "emit_item at k f item bytes b =
     (case map_of (br_terminals b) k of
        None \<Rightarrow> b
      | Some m \<Rightarrow> let m' = f (numbered at m) in publish_item k (item m') bytes (edit_terminal k (\<lambda>_. m') b))"

definition changed :: "moment \<Rightarrow> string \<Rightarrow> broker \<Rightarrow> broker" where
  "changed at k = emit_item at k (\<lambda>m. m) (\<lambda>m. Changed (here m) (descriptor m)) 256"

function frames :: "string \<Rightarrow> string list" where
  "frames [] = []"
| "frames (c # cs) = take maxFrameBytes (c # cs) # frames (drop maxFrameBytes (c # cs))"
  by pat_completeness auto
termination by (relation "measure length") (auto simp: maxFrameBytes_def)

lemma concat_frames: "concat (frames s) = s"
  by (induction s rule: frames.induct) simp_all

lemma frames_bounded: "list_all (\<lambda>x. x \<noteq> [] \<and> length x \<le> maxFrameBytes) (frames s)"
  by (induction s rule: frames.induct) (simp_all add: maxFrameBytes_def)

definition accept_frame :: "moment \<Rightarrow> string \<Rightarrow> string \<Rightarrow> broker \<Rightarrow> broker" where
  "accept_frame at k frame = emit_item at k
     (\<lambda>m. m\<lparr>mt_lastOutputSequence := mt_sequence m, mt_emulator := mt_emulator m @ [EmWrite frame]\<rparr>)
     (\<lambda>m. Output (here m) (to_base64 frame)) (length frame)"

definition acceptOutput :: "moment \<Rightarrow> string \<Rightarrow> string \<Rightarrow> broker \<Rightarrow> broker" where
  "acceptOutput at k data b =
     (case map_of (br_terminals b) k of
        None \<Rightarrow> b
      | Some m \<Rightarrow> if mt_state m \<noteq> TRunning \<or> data = [] then b else fold (accept_frame at k) (frames data) b)"

subsection \<open>Leases and the end of a terminal\<close>

definition clearLease :: "bool \<Rightarrow> moment \<Rightarrow> string \<Rightarrow> broker \<Rightarrow> broker" where
  "clearLease emit at k b =
     (case map_of (br_terminals b) k of
        None \<Rightarrow> b
      | Some m \<Rightarrow>
          if mt_lease m = None then b
          else let b = edit_terminal k (\<lambda>m. m\<lparr>mt_lease := None\<rparr>) b in if emit then changed at k b else b)"

definition expireLeaseIfNeeded :: "moment \<Rightarrow> string \<Rightarrow> broker \<Rightarrow> broker" where
  "expireLeaseIfNeeded at k b =
     (case map_of (br_terminals b) k of
        None \<Rightarrow> b
      | Some m \<Rightarrow>
          (case mt_lease m of
             None \<Rightarrow> b
           | Some l \<Rightarrow> if ls_expiresAt (le_summary l) \<le> at_ms at then clearLease True at k b else b))"

definition close_attachment :: "nat option \<Rightarrow> terminal_attachment \<Rightarrow> terminal_attachment" where
  "close_attachment failure u = u\<lparr>tu_queue := async_close failure (tu_queue u), tu_live := False\<rparr>"

definition close_subscribers :: "string \<Rightarrow> broker \<Rightarrow> broker" where
  "close_subscribers k b = b\<lparr>br_attachments := map (\<lambda>u.
     if tu_terminalId u = k \<and> tu_live u then close_attachment None u else u) (br_attachments b)\<rparr>"

definition release_listener :: "string \<Rightarrow> pty \<Rightarrow> pty" where
  "release_listener k y = y\<lparr>py_dataListener := (if py_dataListener y = Some k then None else py_dataListener y)\<rparr>"

definition release_exit :: "string \<Rightarrow> pty \<Rightarrow> pty" where
  "release_exit k y = y\<lparr>py_exitListener := (if py_exitListener y = Some k then None else py_exitListener y)\<rparr>"

definition pauseProcessOutput :: "string \<Rightarrow> broker \<Rightarrow> broker" where
  "pauseProcessOutput k b =
     (case map_of (br_terminals b) k of
        None \<Rightarrow> b
      | Some m \<Rightarrow>
          if mt_listening m
          then edit_terminal k (\<lambda>m. m\<lparr>mt_listening := False\<rparr>) (edit_pty (mt_process m) (release_listener k) b) else b)"

definition disposeExit :: "string \<Rightarrow> broker \<Rightarrow> broker" where
  "disposeExit k b =
     (case map_of (br_terminals b) k of None \<Rightarrow> b | Some m \<Rightarrow> edit_pty (mt_process m) (release_exit k) b)"

definition pty_kill :: "pty \<Rightarrow> pty" where
  "pty_kill y = y\<lparr>py_killed := True, py_subscribed := False\<rparr>"

definition retire :: "moment \<Rightarrow> terminal_exit \<Rightarrow> bool \<Rightarrow> string \<Rightarrow> broker \<Rightarrow> broker" where
  "retire at exit kill k b =
     (case map_of (br_terminals b) k of
        None \<Rightarrow> b
      | Some m \<Rightarrow>
          if mt_state m = TExited \<or> mt_state m = TErrored then b
          else let b = edit_terminal k (\<lambda>m. m\<lparr>mt_state := TExited, mt_exit := Some exit\<rparr>) b;
                   b = changed at k (clearLease False at k b);
                   b = close_subscribers k (disposeExit k (pauseProcessOutput k b))
               in if kill then edit_pty (mt_process m) pty_kill b else b)"

definition dispose :: "moment \<Rightarrow> string \<Rightarrow> broker \<Rightarrow> broker" where
  "dispose at k b =
     (case map_of (br_terminals b) k of
        None \<Rightarrow> b
      | Some m \<Rightarrow>
          if mt_disposed m then b
          else let b = edit_terminal k (\<lambda>m. m\<lparr>mt_disposed := True\<rparr>) b
               in close_subscribers k (disposeExit k (pauseProcessOutput k (clearLease False at k b))))"

text \<open>\<open>onData\<close> of the process: it takes one listener, and hands it what came before.  \<open>False\<close>: it throws.\<close>

definition resumeProcessOutput :: "moment \<Rightarrow> string \<Rightarrow> broker \<Rightarrow> bool \<times> broker" where
  "resumeProcessOutput at k b =
     (case map_of (br_terminals b) k of
        None \<Rightarrow> (True, b)
      | Some m \<Rightarrow>
          if mt_listening m \<or> mt_disposed m then (True, b)
          else (case map_of (br_ptys b) (mt_process m) of
             None \<Rightarrow> (False, b)
           | Some y \<Rightarrow>
               if py_dataListener y \<noteq> None then (False, b)
               else let b = edit_pty (mt_process m) (\<lambda>y. y\<lparr>py_dataListener := Some k, py_startupData := [], py_startupBytes := 0\<rparr>) b;
                        b = fold (acceptOutput at k) (py_startupData y) b
                    in (True, edit_terminal k (\<lambda>m. m\<lparr>mt_listening := True\<rparr>) b)))"

subsection \<open>The native process\<close>

definition fresh_pty :: pty where
  "fresh_pty = \<lparr>py_dataListener = None, py_exitListener = None, py_startupData = [], py_startupBytes = 0,
     py_startupOutputComplete = True, py_startupExit = None, py_subscribed = True, py_killed = False, py_inputs = []\<rparr>"

fun drop_startup :: "string list \<Rightarrow> nat \<Rightarrow> bool \<Rightarrow> string list \<times> nat \<times> bool" where
  "drop_startup (d # e # ds) n complete =
     (if n > maxScreenBytes then drop_startup (e # ds) (n - length d) False else (d # e # ds, n, complete))"
| "drop_startup ds n complete = (ds, n, complete)"

definition pty_data :: "moment \<Rightarrow> nat \<Rightarrow> string \<Rightarrow> broker \<Rightarrow> broker" where
  "pty_data at p data b =
     (case map_of (br_ptys b) p of
        None \<Rightarrow> b
      | Some y \<Rightarrow>
          if \<not> py_subscribed y then b
          else (case py_dataListener y of
             Some k \<Rightarrow> acceptOutput at k data b
           | None \<Rightarrow>
               let (ds, n, complete) = drop_startup (py_startupData y @ [data]) (py_startupBytes y + length data) (py_startupOutputComplete y)
               in edit_pty p (\<lambda>y. y\<lparr>py_startupData := ds, py_startupBytes := n, py_startupOutputComplete := complete\<rparr>) b))"

definition pty_exit :: "moment \<Rightarrow> nat \<Rightarrow> terminal_exit \<Rightarrow> broker \<Rightarrow> broker" where
  "pty_exit at p exit b =
     (case map_of (br_ptys b) p of
        None \<Rightarrow> b
      | Some y \<Rightarrow>
          if \<not> py_subscribed y then b
          else let b = edit_pty p (\<lambda>y. y\<lparr>py_startupExit := Some exit\<rparr>) b;
                   b = (case py_exitListener y of Some k \<Rightarrow> retire at exit False k b | None \<Rightarrow> b)
               in edit_pty p (\<lambda>y. y\<lparr>py_subscribed := False\<rparr>) b)"

text \<open>The microtask that tells a new listener of an exit that came before it.\<close>

definition pty_exit_late :: "moment \<Rightarrow> nat \<Rightarrow> string \<Rightarrow> broker \<Rightarrow> broker" where
  "pty_exit_late at p k b =
     (case map_of (br_ptys b) p of
        None \<Rightarrow> b
      | Some y \<Rightarrow> (case py_startupExit y of
          Some exit \<Rightarrow> if py_exitListener y = Some k then retire at exit False k b else b
        | None \<Rightarrow> b))"

definition didParse :: "nat \<Rightarrow> string \<Rightarrow> broker \<Rightarrow> broker" where
  "didParse n k = edit_terminal k (\<lambda>m. m\<lparr>mt_emulatorSequence := max (mt_emulatorSequence m) n\<rparr>)"

subsection \<open>Screens and subscriptions\<close>

definition continuation :: "char \<Rightarrow> bool" where
  "continuation c \<longleftrightarrow> 0x80 \<le> (of_char c :: nat) \<and> of_char c < (0xC0 :: nat)"

definition screen_reset :: string where
  "screen_reset = [CHR 0x1B, CHR ''c'']"

text \<open>The tail of a screen that is too long: from a line on, or else from a character on.\<close>

definition boundedScreenSnapshot :: "string \<Rightarrow> string" where
  "boundedScreenSnapshot screen =
     (if length screen \<le> maxScreenBytes then screen
      else let tail = dropWhile continuation (drop (length screen - (maxScreenBytes - length screen_reset)) screen);
               line = drop 1 (dropWhile (\<lambda>c. c \<noteq> CHR 0x0A) tail)
           in screen_reset @ (if line \<noteq> [] then line else tail))"

definition resetItem :: "terminal_env \<Rightarrow> reset_reason \<Rightarrow> managed_terminal \<Rightarrow> terminal_item" where
  "resetItem te reason m =
     ScreenReset reason (here m) (to_base64 (boundedScreenSnapshot (te_screen te (mt_initialDimensions m) (mt_emulator m)))) (descriptor m)"

fun exact_items :: "terminal_dimensions \<Rightarrow> (terminal_cursor \<times> string) option \<Rightarrow> terminal_item list \<Rightarrow> terminal_item list" where
  "exact_items d pending [] = (case pending of None \<Rightarrow> [] | Some (c, bytes) \<Rightarrow> [Output c (to_base64 bytes)])"
| "exact_items d pending (Output c data # items) =
     (let bytes = from_base64url data in
      case pending of
        None \<Rightarrow> exact_items d (Some (c, bytes)) items
      | Some (c', before) \<Rightarrow>
          if 0 < length before \<and> length before + length bytes > maxFrameBytes
          then Output c' (to_base64 before) # exact_items d (Some (c, bytes)) items
          else exact_items d (Some (c, before @ bytes)) items)"
| "exact_items d pending (Changed c t # items) =
     (if td_dimensions t \<noteq> d
      then exact_items d pending [] @ Resized c (td_dimensions t) # exact_items (td_dimensions t) None items
      else exact_items d pending items)"
| "exact_items d pending (item # items) = exact_items d pending items"

definition exactReplayItems :: "managed_terminal \<Rightarrow> terminal_item list" where
  "exactReplayItems m = exact_items (mt_initialDimensions m) None (map fst (mt_replay m))"

definition openingOutputComplete :: "managed_terminal \<Rightarrow> broker \<Rightarrow> bool" where
  "openingOutputComplete m b \<longleftrightarrow> \<not> mt_forceSynthesizedInitial m \<and>
     (case map_of (br_ptys b) (mt_process m) of None \<Rightarrow> False | Some y \<Rightarrow> py_startupOutputComplete y)"

definition assertTarget :: "managed_terminal \<Rightarrow> terminal_target \<Rightarrow> bool" where
  "assertTarget m t \<longleftrightarrow> tb_target (mt_binding m) = t"

definition lookup_terminal :: "terminal_target \<Rightarrow> string \<Rightarrow> broker \<Rightarrow> terminal_error + managed_terminal" where
  "lookup_terminal t k b =
     (case Option.bind (map_of (br_bySession b) (tg_sessionId t)) (map_of (br_terminals b)) of
        None \<Rightarrow> Inl TNotFound
      | Some m \<Rightarrow> if mt_terminalId m \<noteq> k then Inl TFenced else if \<not> assertTarget m t then Inl TFenced else Inr m)"

definition get_terminal :: "moment \<Rightarrow> terminal_target \<Rightarrow> broker \<Rightarrow> (terminal_error + terminal_descriptor option) \<times> broker" where
  "get_terminal at t b =
     (case Option.bind (map_of (br_bySession b) (tg_sessionId t)) (map_of (br_terminals b)) of
        None \<Rightarrow> (Inr None, b)
      | Some m \<Rightarrow>
          if \<not> assertTarget m t then (Inl TFenced, b)
          else let b = expireLeaseIfNeeded at (mt_terminalId m) b
               in (Inr (map_option descriptor (map_of (br_terminals b) (mt_terminalId m))), b))"

text \<open>\<open>subscribe\<close>: from here on the terminal pushes to the mailbox, unless either has been closed.\<close>

definition go_live :: "managed_terminal \<Rightarrow> terminal_attachment \<Rightarrow> terminal_attachment" where
  "go_live m u = (if mq_closed (tu_queue u) \<or> mt_disposed m then close_attachment None u else u\<lparr>tu_live := True\<rparr>)"

definition reset_reason_of :: "nat option \<Rightarrow> managed_terminal \<Rightarrow> reset_reason option" where
  "reset_reason_of wanted m =
     (case wanted of
        None \<Rightarrow> Some InitialScreen
      | Some n \<Rightarrow>
          if n > mt_sequence m then Some CursorAhead
          else if n < mt_sequence m \<and>
            (case mt_replay m of [] \<Rightarrow> True | e # es \<Rightarrow> Suc n < tcu_sequence (item_cursor (fst e))) then Some CursorExpired
          else None)"

definition complete_replay :: "nat option \<Rightarrow> managed_terminal \<Rightarrow> broker \<Rightarrow> bool" where
  "complete_replay wanted m b \<longleftrightarrow> wanted = None \<and> openingOutputComplete m b \<and>
     (mt_sequence m = 0 \<or> (case mt_replay m of [] \<Rightarrow> False | e # es \<Rightarrow> tcu_sequence (item_cursor (fst e)) = 1))"

definition new_attachment :: "managed_terminal \<Rightarrow> terminal_attachment" where
  "new_attachment m = \<lparr>tu_terminalId = mt_terminalId m, tu_prefix = [], tu_read = [],
     tu_queue = new_queue (tl_subscriberItems (mt_limits m)), tu_reset = None, tu_live = False\<rparr>"

definition start_attachment :: "nat option \<Rightarrow> managed_terminal \<Rightarrow> broker \<Rightarrow> terminal_attachment" where
  "start_attachment wanted m b =
     (let u = new_attachment m
      in if complete_replay wanted m b then
           go_live m (u\<lparr>tu_prefix := ReplayStart \<lparr>tcu_terminalId = mt_terminalId m, tcu_sequence = 0\<rparr> (mt_initialDimensions m) (descriptor m)
             # exactReplayItems m @ [ReplayEnd (here m) (descriptor m)]\<rparr>)
         else (case reset_reason_of wanted m of
           Some reason \<Rightarrow> u\<lparr>tu_reset := Some (reason, mt_lastOutputSequence m)\<rparr>
         | None \<Rightarrow> go_live m (u\<lparr>tu_prefix := filter (\<lambda>i. case wanted of None \<Rightarrow> False | Some n \<Rightarrow> n < tcu_sequence (item_cursor i))
             (map fst (mt_replay m))\<rparr>)))"

text \<open>The new subscription is the last of the list.\<close>

definition attach ::
  "moment \<Rightarrow> terminal_target \<Rightarrow> string \<Rightarrow> nat option \<Rightarrow> bool \<Rightarrow> broker \<Rightarrow> (terminal_error + unit) \<times> broker" where
  "attach at t k wanted aborted b =
     (case lookup_terminal t k b of
        Inl e \<Rightarrow> (Inl e, b)
      | Inr m0 \<Rightarrow>
          let b = expireLeaseIfNeeded at k b
          in case map_of (br_terminals b) k of
               None \<Rightarrow> (Inl TNotFound, b)
             | Some m \<Rightarrow>
                 let u = (if aborted then close_attachment None (new_attachment m) else start_attachment wanted m b)
                 in (Inr (), b\<lparr>br_attachments := br_attachments b @ [u]\<rparr>))"

definition edit_attachment :: "nat \<Rightarrow> (terminal_attachment \<Rightarrow> terminal_attachment) \<Rightarrow> broker \<Rightarrow> broker" where
  "edit_attachment i f b =
     (if i < length (br_attachments b) then b\<lparr>br_attachments := (br_attachments b)[i := f (br_attachments b ! i)]\<rparr> else b)"

text \<open>A subscription that waits for the emulator goes on: the terminal is gone, more output has come, or the
  screen is settled and the reset is sent.\<close>

definition attach_continue :: "terminal_env \<Rightarrow> moment \<Rightarrow> nat \<Rightarrow> broker \<Rightarrow> broker" where
  "attach_continue te at i b =
     (if i \<ge> length (br_attachments b) then b
      else let u = br_attachments b ! i; k = tu_terminalId u
      in case (tu_reset u, map_of (br_terminals b) k) of
           (Some (reason, n), Some m) \<Rightarrow>
             if mt_disposed m then edit_attachment i (\<lambda>u. close_attachment None (u\<lparr>tu_reset := None\<rparr>)) b
             else if mt_emulatorSequence m < n then b
             else if mt_lastOutputSequence m \<noteq> n then edit_attachment i (\<lambda>u. u\<lparr>tu_reset := Some (reason, mt_lastOutputSequence m)\<rparr>) b
             else let b = expireLeaseIfNeeded at k b
               in (case map_of (br_terminals b) k of
                     None \<Rightarrow> b
                   | Some m \<Rightarrow> edit_attachment i (\<lambda>u. go_live m (u\<lparr>tu_reset := None,
                       tu_queue := async_push (resetItem te reason m) (tu_queue u)\<rparr>)) b)
         | _ \<Rightarrow> b)"

definition terminal_heartbeat :: "moment \<Rightarrow> nat \<Rightarrow> broker \<Rightarrow> broker" where
  "terminal_heartbeat at i b =
     (if i \<ge> length (br_attachments b) then b
      else let u = br_attachments b ! i
        in if \<not> tu_live u \<or> mq_closed (tu_queue u) then b
           else let b = expireLeaseIfNeeded at (tu_terminalId u) b
                in (case map_of (br_terminals b) (tu_terminalId u) of
                      None \<Rightarrow> b
                    | Some m \<Rightarrow> edit_attachment i (\<lambda>u. u\<lparr>tu_queue := async_push (TerminalBeat (here m)) (tu_queue u)\<rparr>) b))"

definition attachment_next :: "terminal_attachment \<Rightarrow> terminal_attachment" where
  "attachment_next u =
     (case tu_prefix u of
        x # xs \<Rightarrow> u\<lparr>tu_prefix := xs, tu_read := tu_read u @ [x]\<rparr>
      | [] \<Rightarrow> u\<lparr>tu_queue := queue_next (tu_queue u)\<rparr>)"

subsection \<open>The keyboard\<close>

definition nullable :: "string option \<Rightarrow> json" where
  "nullable x = (case x of None \<Rightarrow> JNull | Some s \<Rightarrow> JStr s)"

definition acquisitionFingerprint :: "terminal_env \<Rightarrow> acquire_input \<Rightarrow> string" where
  "acquisitionFingerprint te i = te_sha te (json_text (JObj
     [(''sessionId'', JStr (tg_sessionId (ai_target i))), (''runtimeNodeId'', JStr (tg_runtimeNodeId (ai_target i))),
      (''bindingRevision'', JNum (nat_text (tg_bindingRevision (ai_target i)))), (''terminalId'', JStr (ai_terminalId i)),
      (''terminalClientId'', JStr (ai_terminalClientId i)), (''forceTerminalLeaseId'', nullable (ai_forceTerminalLeaseId i))]))"

definition inputHash :: "terminal_env \<Rightarrow> input_payload \<Rightarrow> string" where
  "inputHash te p = te_sha te (case p of
     Write data \<Rightarrow> ''write'' @ [CHR 0x00] @ data
   | Resize d \<Rightarrow> ''resize'' @ [CHR 0x00] @
       json_text (JObj [(''columns'', JNum (nat_text (di_columns d))), (''rows'', JNum (nat_text (di_rows d)))]))"

definition leaseToken :: "terminal_env \<Rightarrow> string \<Rightarrow> string" where
  "leaseToken te requestId = te_mac te (''agent-multiplex-terminal-lease'' @ [CHR 0x00] @ requestId)"

definition acquireResult :: "terminal_env \<Rightarrow> string \<Rightarrow> acquire_receipt \<Rightarrow> acquire_result" where
  "acquireResult te requestId r = \<lparr>ar_lease = acr_lease r,
     ar_credential = \<lparr>lc_terminalLeaseId = acr_terminalLeaseId r, lc_token = leaseToken te requestId\<rparr>,
     ar_nextInputSequence = acr_nextInputSequence r\<rparr>"

definition runningWritable :: "managed_terminal \<Rightarrow> terminal_error option" where
  "runningWritable m =
     (if mt_state m \<noteq> TRunning then Some TConflict
      else if \<not> tc_write (tp_capabilities (mt_provider m)) then Some TUnsupported else None)"

definition lease_ends :: "moment \<Rightarrow> managed_terminal \<Rightarrow> int" where
  "lease_ends at m = at_ms at + int (tl_leaseTtlMs (mt_limits m))"

definition new_lease :: "terminal_env \<Rightarrow> moment \<Rightarrow> string \<Rightarrow> acquire_input \<Rightarrow> managed_terminal \<Rightarrow> lease_state" where
  "new_lease te at leaseId i m =
     \<lparr>le_summary = \<lparr>ls_terminalLeaseId = leaseId, ls_terminalClientId = ai_terminalClientId i, ls_expiresAt = lease_ends at m\<rparr>,
      le_tokenHash = te_sha te (leaseToken te (ai_requestId i)), le_nextInputSequence = 0, le_receipts = [],
      le_expiryTimer = lease_ends at m + 1\<rparr>"

definition keep_receipt :: "string \<Rightarrow> acquire_receipt \<Rightarrow> broker \<Rightarrow> broker" where
  "keep_receipt requestId r b =
     (let t = put requestId r (br_acquireReceipts b) in b\<lparr>br_acquireReceipts := drop (length t - acquireReceiptLimit) t\<rparr>)"

definition takeover_refused :: "acquire_input \<Rightarrow> managed_terminal \<Rightarrow> terminal_error option" where
  "takeover_refused i m =
     (case mt_lease m of
        Some l \<Rightarrow> if ai_forceTerminalLeaseId i \<noteq> Some (ls_terminalLeaseId (le_summary l)) then Some TConflict else None
      | None \<Rightarrow> if ai_forceTerminalLeaseId i \<noteq> None then Some TFenced else None)"

definition grant_lease ::
  "terminal_env \<Rightarrow> moment \<Rightarrow> string \<Rightarrow> acquire_input \<Rightarrow> managed_terminal \<Rightarrow> broker \<Rightarrow> (terminal_error + acquire_result) \<times> broker" where
  "grant_lease te at leaseId i m b =
     (let lease = new_lease te at leaseId i m;
          receipt = \<lparr>acr_fingerprint = acquisitionFingerprint te i, acr_lease = le_summary lease,
            acr_terminalLeaseId = leaseId, acr_nextInputSequence = 0\<rparr>;
          b = edit_terminal (ai_terminalId i) (\<lambda>m. m\<lparr>mt_lease := Some lease\<rparr>) (clearLease False at (ai_terminalId i) b)
      in (Inr (acquireResult te (ai_requestId i) receipt),
          keep_receipt (ai_requestId i) receipt (changed at (ai_terminalId i) b)))"

definition acquire :: "terminal_env \<Rightarrow> moment \<Rightarrow> string \<Rightarrow> acquire_input \<Rightarrow> broker \<Rightarrow> (terminal_error + acquire_result) \<times> broker" where
  "acquire te at leaseId i b =
     (case map_of (br_acquireReceipts b) (ai_requestId i) of
        Some prior \<Rightarrow>
          if acr_fingerprint prior \<noteq> acquisitionFingerprint te i then (Inl TConflict, b)
          else (Inr (acquireResult te (ai_requestId i) prior), b)
      | None \<Rightarrow>
          (case lookup_terminal (ai_target i) (ai_terminalId i) b of
             Inl e \<Rightarrow> (Inl e, b)
           | Inr m0 \<Rightarrow>
               (case runningWritable m0 of
                  Some e \<Rightarrow> (Inl e, b)
                | None \<Rightarrow>
                    let b = expireLeaseIfNeeded at (ai_terminalId i) b
                    in case map_of (br_terminals b) (ai_terminalId i) of
                         None \<Rightarrow> (Inl TNotFound, b)
                       | Some m \<Rightarrow>
                           (case takeover_refused i m of
                              Some e \<Rightarrow> (Inl e, b)
                            | None \<Rightarrow> grant_lease te at leaseId i m b))))"

text \<open>\<open>#lease\<close>: the lease whose credential the caller holds.\<close>

definition held_lease ::
  "terminal_env \<Rightarrow> moment \<Rightarrow> string \<Rightarrow> lease_credential \<Rightarrow> string \<Rightarrow> broker \<Rightarrow> (terminal_error + managed_terminal \<times> lease_state) \<times> broker" where
  "held_lease te at client cred k b =
     (let b = expireLeaseIfNeeded at k b
      in case map_of (br_terminals b) k of
           None \<Rightarrow> (Inl TNotFound, b)
         | Some m \<Rightarrow>
             (case mt_lease m of
                None \<Rightarrow> (Inl TFenced, b)
              | Some l \<Rightarrow>
                  if ls_terminalLeaseId (le_summary l) \<noteq> lc_terminalLeaseId cred \<or> ls_terminalClientId (le_summary l) \<noteq> client \<or>
                     le_tokenHash l \<noteq> te_sha te (lc_token cred)
                  then (Inl TFenced, b) else (Inr (m, l), b)))"

definition renew :: "terminal_env \<Rightarrow> moment \<Rightarrow> renew_input \<Rightarrow> broker \<Rightarrow> (terminal_error + lease_summary \<times> nat) \<times> broker" where
  "renew te at i b =
     (case lookup_terminal (ri_target i) (ri_terminalId i) b of
        Inl e \<Rightarrow> (Inl e, b)
      | Inr m0 \<Rightarrow>
          (case held_lease te at (ri_terminalClientId i) (ri_credential i) (ri_terminalId i) b of
             (Inl e, b) \<Rightarrow> (Inl e, b)
           | (Inr (m, l), b) \<Rightarrow>
               let summary = (le_summary l)\<lparr>ls_expiresAt := lease_ends at m\<rparr>;
                   l' = l\<lparr>le_summary := summary, le_expiryTimer := lease_ends at m + 1\<rparr>
               in (Inr (summary, le_nextInputSequence l'),
                   changed at (ri_terminalId i) (edit_terminal (ri_terminalId i) (\<lambda>m. m\<lparr>mt_lease := Some l'\<rparr>) b))))"

definition release :: "terminal_env \<Rightarrow> moment \<Rightarrow> renew_input \<Rightarrow> broker \<Rightarrow> (terminal_error + unit) \<times> broker" where
  "release te at i b =
     (case lookup_terminal (ri_target i) (ri_terminalId i) b of
        Inl e \<Rightarrow> (Inl e, b)
      | Inr m0 \<Rightarrow>
          (case held_lease te at (ri_terminalClientId i) (ri_credential i) (ri_terminalId i) b of
             (Inl e, b) \<Rightarrow> (Inl e, b)
           | (Inr (m, l), b) \<Rightarrow> (Inr (), clearLease True at (ri_terminalId i) b)))"

text \<open>The timer of the current lease runs out.\<close>

definition lease_timer :: "moment \<Rightarrow> string \<Rightarrow> broker \<Rightarrow> broker" where
  "lease_timer at k b =
     (case Option.bind (map_of (br_terminals b) k) mt_lease of
        None \<Rightarrow> b | Some l \<Rightarrow> if le_expiryTimer l \<le> at_ms at then clearLease True at k b else b)"

definition log_input :: "lease_state \<Rightarrow> pty_op \<Rightarrow> pty \<Rightarrow> pty" where
  "log_input l op y = y\<lparr>py_inputs := py_inputs y @ [(ls_terminalLeaseId (le_summary l), le_nextInputSequence l, op)]\<rparr>"

definition resized_to :: "terminal_dimensions \<Rightarrow> managed_terminal \<Rightarrow> managed_terminal" where
  "resized_to d m = m\<lparr>mt_emulator := mt_emulator m @ [EmResize d], mt_dimensions := d\<rparr>"

definition perform_input :: "moment \<Rightarrow> string \<Rightarrow> lease_state \<Rightarrow> input_payload \<Rightarrow> managed_terminal \<Rightarrow> broker \<Rightarrow> terminal_error option \<times> broker" where
  "perform_input at k l p m b =
     (case p of
        Write data \<Rightarrow>
          (let text = from_base64url data
           in if \<not> utf8_valid text then (Some TTypeError, b)
              else (None, edit_pty (mt_process m) (log_input l (PtyWrite text)) b))
      | Resize d \<Rightarrow>
          if \<not> tc_resize (tp_capabilities (mt_provider m)) then (Some TUnsupported, b)
          else (None, changed at k (edit_terminal k (resized_to d) (edit_pty (mt_process m) (log_input l (PtyResize d)) b))))"

definition keep_input :: "nat \<Rightarrow> string \<times> input_result \<Rightarrow> lease_state \<Rightarrow> lease_state" where
  "keep_input n r l =
     (let t = put n r (le_receipts l)
      in l\<lparr>le_receipts := drop (length t - inputReceiptLimit) t, le_nextInputSequence := Suc (le_nextInputSequence l)\<rparr>)"

definition terminal_input_op :: "terminal_env \<Rightarrow> moment \<Rightarrow> terminal_input \<Rightarrow> broker \<Rightarrow> (terminal_error + input_result) \<times> broker" where
  "terminal_input_op te at i b =
     (case lookup_terminal (in_target i) (in_terminalId i) b of
        Inl e \<Rightarrow> (Inl e, b)
      | Inr m0 \<Rightarrow>
          (case runningWritable m0 of
             Some e \<Rightarrow> (Inl e, b)
           | None \<Rightarrow>
               (case held_lease te at (in_terminalClientId i) (in_credential i) (in_terminalId i) b of
                  (Inl e, b) \<Rightarrow> (Inl e, b)
                | (Inr (m, l), b) \<Rightarrow>
                    let hash = inputHash te (in_payload i)
                    in if in_inputSequence i < le_nextInputSequence l then
                         (case map_of (le_receipts l) (in_inputSequence i) of
                            None \<Rightarrow> (Inl TConflict, b)
                          | Some (h, r) \<Rightarrow> if h \<noteq> hash then (Inl TConflict, b) else (Inr r, b))
                       else if in_inputSequence i > le_nextInputSequence l then (Inl TConflict, b)
                       else (case perform_input at (in_terminalId i) l (in_payload i) m b of
                         (Some e, b) \<Rightarrow> (Inl e, b)
                       | (None, b) \<Rightarrow>
                           let r = \<lparr>ir_terminalId = mt_terminalId m, ir_inputSequence = in_inputSequence i, ir_acceptedAt = at_text at\<rparr>
                           in (Inr r, edit_terminal (in_terminalId i) (\<lambda>m. m\<lparr>mt_lease :=
                                map_option (keep_input (in_inputSequence i) (hash, r)) (mt_lease m)\<rparr>) b)))))"

subsection \<open>Opening\<close>

datatype confirm_reason = ConfirmRestart | ConfirmForegroundSwitch

datatype open_result = Opened terminal_descriptor | ConfirmationRequired confirm_reason terminal_descriptor

definition lock_key :: "terminal_provider \<Rightarrow> terminal_binding \<Rightarrow> string" where
  "lock_key p bi = (if tp_sharing p = AdapterScope then ''scope:'' @ providerKey (tp_harness p) (tp_adapterScopeId p)
     else ''session:'' @ tg_sessionId (tb_target bi))"

definition runningCount :: "broker \<Rightarrow> nat" where
  "runningCount b = length (remdups (map mt_process (filter (\<lambda>m. mt_state m = TRunning)
     (List.map_filter (\<lambda>(s, k). map_of (br_terminals b) k) (br_bySession b)))))"

definition lookup_in :: "(string, string) table \<Rightarrow> string \<Rightarrow> broker \<Rightarrow> managed_terminal option" where
  "lookup_in t s b = Option.bind (map_of t s) (map_of (br_terminals b))"

definition expired_of :: "moment \<Rightarrow> managed_terminal option \<Rightarrow> broker \<Rightarrow> broker" where
  "expired_of at m b = (case m of None \<Rightarrow> b | Some m \<Rightarrow> expireLeaseIfNeeded at (mt_terminalId m) b)"

text \<open>What \<open>open\<close> asks of a terminal the session has already.\<close>

definition restart_refused :: "terminal_provider \<Rightarrow> open_input \<Rightarrow> managed_terminal \<Rightarrow> (terminal_error + open_result) option" where
  "restart_refused p i m =
     (case oi_expectedTerminalId i of
        None \<Rightarrow> Some (Inr (ConfirmationRequired ConfirmRestart (descriptor m)))
      | Some k \<Rightarrow> if k \<noteq> mt_terminalId m then Some (Inl TFenced)
          else if \<not> tc_restart (tp_capabilities p) then Some (Inl TUnsupported) else None)"

definition switch_refused ::
  "terminal_binding \<Rightarrow> open_input \<Rightarrow> managed_terminal option \<Rightarrow> managed_terminal option \<Rightarrow> (terminal_error + open_result) option" where
  "switch_refused bi i current foreground =
     (case foreground of
        Some f \<Rightarrow>
          if tg_sessionId (tb_target (mt_binding f)) \<noteq> tg_sessionId (tb_target bi) then
            (if \<not> oi_confirmForegroundSwitch i then Some (Inr (ConfirmationRequired ConfirmForegroundSwitch (descriptor f)))
             else if oi_expectedTerminalId i \<noteq> Some (mt_terminalId f) then Some (Inl TFenced) else None)
          else if current = None \<and> oi_expectedTerminalId i \<noteq> None then Some (Inl TFenced) else None
      | None \<Rightarrow> if current = None \<and> oi_expectedTerminalId i \<noteq> None then Some (Inl TFenced) else None)"

definition first_given :: "'a option list \<Rightarrow> 'a \<Rightarrow> 'a" where
  "first_given xs d = (case List.map_filter id xs of [] \<Rightarrow> d | x # _ \<Rightarrow> x)"

text \<open>The answer, or \<open>None\<close> when the provider has been asked for the process.\<close>

definition open_reserve ::
  "terminal_provider \<Rightarrow> terminal_binding \<Rightarrow> open_input \<Rightarrow> managed_terminal option \<Rightarrow> managed_terminal option \<Rightarrow> broker \<Rightarrow>
   (terminal_error + open_result option) \<times> broker" where
  "open_reserve p bi i current foreground b =
     (let reserves = foreground = None
      in if reserves \<and> runningCount b + br_pendingProcessOpens b \<ge> br_maxRunningTerminals b then (Inl TExhausted, b)
         else let job = \<lparr>oj_binding = bi, oj_provider = p,
                  oj_dimensions = first_given [oi_dimensions i, map_option mt_dimensions current, map_option mt_dimensions foreground] defaultDimensions,
                  oj_current = map_option mt_terminalId current, oj_foreground = map_option mt_terminalId foreground,
                  oj_reserves = reserves\<rparr>;
                  b = b\<lparr>br_pendingProcessOpens := br_pendingProcessOpens b + (if reserves then 1 else 0)\<rparr>;
                  b = (case foreground of None \<Rightarrow> b | Some f \<Rightarrow> pauseProcessOutput (mt_terminalId f) b)
              in (Inr None, b\<lparr>br_opening := put (lock_key p bi) job (br_opening b)\<rparr>))"

definition open_more ::
  "moment \<Rightarrow> terminal_provider \<Rightarrow> terminal_binding \<Rightarrow> open_input \<Rightarrow> broker \<Rightarrow> (terminal_error + open_result option) \<times> broker" where
  "open_more at p bi i b =
     (let fg = (\<lambda>b. if tp_sharing p = AdapterScope
            then lookup_in (br_byScope b) (providerKey (tp_harness p) (tp_adapterScopeId p)) b else None);
          b = expired_of at (fg b) b;
          current = lookup_in (br_bySession b) (tg_sessionId (tb_target bi)) b; foreground = fg b
      in case switch_refused bi i current foreground of
           Some (Inl e) \<Rightarrow> (Inl e, b)
         | Some (Inr r) \<Rightarrow> (Inr (Some r), b)
         | None \<Rightarrow> open_reserve p bi i current foreground b)"

definition open_begin :: "moment \<Rightarrow> terminal_binding \<Rightarrow> open_input \<Rightarrow> broker \<Rightarrow> (terminal_error + open_result option) \<times> broker" where
  "open_begin at bi i b =
     (if br_closed b then (Inl TConflict, b)
      else case map_of (br_providers b) (providerKey (tb_harness bi) (tb_adapterScopeId bi)) of
        None \<Rightarrow> (Inl TUnsupported, b)
      | Some p \<Rightarrow>
          let session = tg_sessionId (tb_target bi);
              b = expired_of at (lookup_in (br_bySession b) session b) b;
              current = lookup_in (br_bySession b) session b
          in case current of
               Some m \<Rightarrow>
                 if mt_state m = TRunning then (Inr (Some (Opened (descriptor m))), b)
                 else (case restart_refused p i m of
                         Some (Inl e) \<Rightarrow> (Inl e, b)
                       | Some (Inr r) \<Rightarrow> (Inr (Some r), b)
                       | None \<Rightarrow> open_more at p bi i b)
             | None \<Rightarrow> open_more at p bi i b)"

definition new_terminal :: "moment \<Rightarrow> string \<Rightarrow> open_job \<Rightarrow> nat \<Rightarrow> broker \<Rightarrow> managed_terminal" where
  "new_terminal at k job p b =
     \<lparr>mt_terminalId = k, mt_openedAt = at_text at, mt_published = [], mt_replay = [], mt_initialDimensions = oj_dimensions job,
      mt_forceSynthesizedInitial = oj_foreground job \<noteq> None, mt_listening = False, mt_state = TRunning, mt_updatedAt = at_text at,
      mt_dimensions = oj_dimensions job, mt_sequence = 0, mt_replayBytes = 0, mt_lastOutputSequence = 0, mt_emulator = [],
      mt_emulatorSequence = 0, mt_disposed = False, mt_lease = None, mt_exit = None, mt_binding = oj_binding job,
      mt_provider = oj_provider job, mt_process = p, mt_limits = br_limits b, mt_runtimeNodeBootId = br_runtimeNodeBootId b\<rparr>"

text \<open>The constructor: it listens to the process's output and its exit, each of which throws when taken.\<close>

definition construct_terminal :: "moment \<Rightarrow> string \<Rightarrow> open_job \<Rightarrow> nat \<Rightarrow> broker \<Rightarrow> bool \<times> broker" where
  "construct_terminal at k job p b =
     (let b = b\<lparr>br_terminals := put k (new_terminal at k job p b) (br_terminals b)\<rparr>
      in case resumeProcessOutput at k b of
           (False, b) \<Rightarrow> (False, b)
         | (True, b) \<Rightarrow>
             (case map_of (br_ptys b) p of
                None \<Rightarrow> (False, b)
              | Some y \<Rightarrow> if py_exitListener y \<noteq> None then (False, b)
                  else (True, edit_pty p (\<lambda>y. y\<lparr>py_exitListener := Some k\<rparr>) b)))"

definition moved_exit :: terminal_exit where
  "moved_exit = \<lparr>tx_exitCode = None, tx_signal = None, tx_message = Some ''terminal foreground moved to another session''\<rparr>"

definition kill_if :: "bool \<Rightarrow> nat \<Rightarrow> broker \<Rightarrow> broker" where
  "kill_if c p b = (if c then edit_pty p pty_kill b else b)"

definition leave_foreground :: "moment \<Rightarrow> string \<Rightarrow> broker \<Rightarrow> broker" where
  "leave_foreground at f b =
     (let b = retire at moved_exit False f b;
          b = (case map_of (br_terminals b) f of None \<Rightarrow> b
            | Some m \<Rightarrow> b\<lparr>br_bySession := del (tg_sessionId (tb_target (mt_binding m))) (br_bySession b)\<rparr>)
      in dispose at f b)"

definition register_terminal :: "string \<Rightarrow> open_job \<Rightarrow> broker \<Rightarrow> broker" where
  "register_terminal k job b =
     b\<lparr>br_bySession := put (tg_sessionId (tb_target (oj_binding job))) k (br_bySession b),
       br_byScope := (if tp_sharing (oj_provider job) = AdapterScope
         then put (providerKey (tp_harness (oj_provider job)) (tp_adapterScopeId (oj_provider job))) k (br_byScope b)
         else br_byScope b)\<rparr>"

definition install_terminal :: "moment \<Rightarrow> string \<Rightarrow> open_job \<Rightarrow> nat \<Rightarrow> broker \<Rightarrow> (terminal_error + open_result) \<times> broker" where
  "install_terminal at k job p b =
     (let b = (case oj_foreground job of None \<Rightarrow> b | Some f \<Rightarrow> leave_foreground at f b);
          b = (case oj_current job of None \<Rightarrow> b | Some c \<Rightarrow> dispose at c b)
      in case construct_terminal at k job p b of
           (False, b) \<Rightarrow> (Inl TNative, b)
         | (True, b) \<Rightarrow>
             let b = register_terminal k job b
             in (case map_of (br_terminals b) k of None \<Rightarrow> (Inl TNative, b) | Some m \<Rightarrow> (Inr (Opened (descriptor m)), b)))"

text \<open>The provider has answered with a process, or failed.\<close>

definition open_end :: "moment \<Rightarrow> string \<Rightarrow> string \<Rightarrow> nat option \<Rightarrow> broker \<Rightarrow> (terminal_error + open_result) \<times> broker" where
  "open_end at k lock answer b =
     (case map_of (br_opening b) lock of
        None \<Rightarrow> (Inl TNative, b)
      | Some job \<Rightarrow>
          let b = b\<lparr>br_opening := del lock (br_opening b),
                br_pendingProcessOpens := br_pendingProcessOpens b - (if oj_reserves job then 1 else 0)\<rparr>;
              resumed = (\<lambda>b. case oj_foreground job of None \<Rightarrow> (True, b) | Some f \<Rightarrow> resumeProcessOutput at f b);
              terminates = tc_terminate (tp_capabilities (oj_provider job))
          in case answer of
               None \<Rightarrow> (Inl TNative, snd (resumed b))
             | Some p \<Rightarrow>
                 if br_closed b then (Inl TConflict, kill_if terminates p b)
                 else if (case Option.bind (oj_foreground job) (map_of (br_terminals b)) of None \<Rightarrow> False | Some m \<Rightarrow> mt_process m \<noteq> p)
                 then (case resumed b of (False, b) \<Rightarrow> (Inl TNative, b) | (True, b) \<Rightarrow> (Inl TConflict, kill_if terminates p b))
                 else install_terminal at k job p b)"

subsection \<open>The end\<close>

definition no_exit :: "string option \<Rightarrow> terminal_exit" where
  "no_exit why = \<lparr>tx_exitCode = None, tx_signal = None, tx_message = why\<rparr>"

definition terminate ::
  "moment \<Rightarrow> terminal_target \<Rightarrow> string \<Rightarrow> string \<Rightarrow> broker \<Rightarrow> (terminal_error + terminal_descriptor) \<times> broker" where
  "terminate at t k expected b =
     (case lookup_terminal t k b of
        Inl e \<Rightarrow> (Inl e, b)
      | Inr m \<Rightarrow>
          if expected \<noteq> mt_terminalId m then (Inl TFenced, b)
          else if \<not> tc_terminate (tp_capabilities (mt_provider m)) then (Inl TUnsupported, b)
          else let b = retire at (no_exit None) True k b
               in (case map_of (br_terminals b) k of None \<Rightarrow> (Inl TNotFound, b) | Some m \<Rightarrow> (Inr (descriptor m), b)))"

definition invalidateSession :: "moment \<Rightarrow> string \<Rightarrow> string \<Rightarrow> broker \<Rightarrow> broker" where
  "invalidateSession at session reason b =
     (case lookup_in (br_bySession b) session b of
        None \<Rightarrow> b
      | Some m \<Rightarrow>
          let k = mt_terminalId m; key = providerKey (tp_harness (mt_provider m)) (tp_adapterScopeId (mt_provider m));
              b = retire at (no_exit (Some reason)) (tc_terminate (tp_capabilities (mt_provider m))) k b;
              b = b\<lparr>br_bySession := del session (br_bySession b),
                br_byScope := (if map_of (br_byScope b) key = Some k then del key (br_byScope b) else br_byScope b)\<rparr>
          in dispose at k b)"

definition close_begin :: "broker \<Rightarrow> broker" where
  "close_begin b = b\<lparr>br_closed := True\<rparr>"

definition close_processes :: "broker \<Rightarrow> nat list" where
  "close_processes b = remdups (map mt_process (filter (\<lambda>m. tc_terminate (tp_capabilities (mt_provider m)))
     (List.map_filter (\<lambda>(s, k). map_of (br_terminals b) k) (br_bySession b))))"

text \<open>Once the openings under way have settled.\<close>

definition close_end :: "moment \<Rightarrow> broker \<Rightarrow> broker" where
  "close_end at b =
     (let ps = close_processes b;
          b = fold (\<lambda>(s, k). dispose at k) (br_bySession b) b;
          b = fold (\<lambda>p. edit_pty p pty_kill) ps b
      in b\<lparr>br_bySession := [], br_byScope := [], br_acquireReceipts := []\<rparr>)"

end
