(* ===== verification/Terminal_Runs.thy ===== *)
theory Terminal_Runs
  imports Terminal_Broker
begin

text \<open>
  The runs of a terminal broker: its steps, in any order, and what it takes for a predicate to hold at all
  times.  The locale \<open>broker_upkeep\<close> names the few kinds of change the broker's operations are made of; a
  predicate that each of them keeps is kept by the operations.
\<close>

subsection \<open>The start\<close>

definition positive :: "nat \<Rightarrow> bool" where
  "positive n \<longleftrightarrow> 1 \<le> n \<and> n \<le> 2 ^ 53 - 1"

definition newBroker :: "string \<Rightarrow> terminal_provider list \<Rightarrow> nat \<Rightarrow> terminal_limits \<Rightarrow> terminal_error + broker" where
  "newBroker boot ps maxRunning l =
     (if \<not> positive maxRunning \<or> \<not> positive (tl_replayItems l) \<or> maxReplayItems < tl_replayItems l \<or> \<not> positive (tl_replayBytes l) \<or>
         \<not> positive (tl_subscriberItems l) \<or> \<not> positive (tl_heartbeatMs l) \<or> \<not> positive (tl_leaseTtlMs l) then Inl TTypeError
      else if \<not> distinct (map (\<lambda>p. providerKey (tp_harness p) (tp_adapterScopeId p)) ps) then Inl TConflict
      else Inr \<lparr>br_runtimeNodeBootId = boot,
        br_providers = map (\<lambda>p. (providerKey (tp_harness p) (tp_adapterScopeId p), p)) ps, br_terminals = [], br_ptys = [],
        br_bySession = [], br_byScope = [], br_opening = [], br_acquireReceipts = [], br_maxRunningTerminals = maxRunning,
        br_limits = l, br_pendingProcessOpens = 0, br_closed = False, br_attachments = []\<rparr>)"

subsection \<open>Steps\<close>

definition fresh_lease :: "string \<Rightarrow> broker \<Rightarrow> bool" where
  "fresh_lease l b \<longleftrightarrow> (\<forall>p y. map_of (br_ptys b) p = Some y \<longrightarrow> l \<notin> fst ` set (py_inputs y)) \<and>
     (\<forall>k m. map_of (br_terminals b) k = Some m \<longrightarrow> map_option (\<lambda>x. ls_terminalLeaseId (le_summary x)) (mt_lease m) \<noteq> Some l)"

definition lock_free :: "terminal_binding \<Rightarrow> broker \<Rightarrow> bool" where
  "lock_free bi b \<longleftrightarrow> (case map_of (br_providers b) (providerKey (tb_harness bi) (tb_adapterScopeId bi)) of
     None \<Rightarrow> True | Some p \<Rightarrow> \<not> has (lock_key p bi) (br_opening b))"

inductive terminal_step :: "terminal_env \<Rightarrow> broker \<Rightarrow> broker \<Rightarrow> bool" for te where
  gets: "terminal_step te b (snd (get_terminal at t b))"
| opens: "lock_free bi b \<Longrightarrow> terminal_step te b (snd (open_begin at bi i b))"
| opened: "\<not> has k (br_terminals b) \<Longrightarrow> terminal_step te b (snd (open_end at k lock answer b))"
| attaches: "terminal_step te b (snd (attach at t k wanted aborted b))"
| continues: "terminal_step te b (attach_continue te at i b)"
| beats: "terminal_step te b (terminal_heartbeat at i b)"
| reads: "terminal_step te b (edit_attachment i attachment_next b)"
| leaves: "terminal_step te b (edit_attachment i (close_attachment None) b)"
| acquires: "fresh_lease l b \<Longrightarrow> terminal_step te b (snd (acquire te at l ai b))"
| renews: "terminal_step te b (snd (renew te at ri b))"
| releases: "terminal_step te b (snd (release te at ri b))"
| expires: "terminal_step te b (lease_timer at k b)"
| inputs: "terminal_step te b (snd (terminal_input_op te at ti b))"
| terminates: "terminal_step te b (snd (terminate at t k expected b))"
| invalidates: "terminal_step te b (invalidateSession at session reason b)"
| closes: "terminal_step te b (close_begin b)"
| closed: "br_closed b \<Longrightarrow> br_opening b = [] \<Longrightarrow> terminal_step te b (close_end at b)"
| spawns: "\<not> has p (br_ptys b) \<Longrightarrow> terminal_step te b (b\<lparr>br_ptys := put p fresh_pty (br_ptys b)\<rparr>)"
| writes: "terminal_step te b (pty_data at p data b)"
| exits: "terminal_step te b (pty_exit at p exit b)"
| exits_late: "terminal_step te b (pty_exit_late at p k b)"
| parses: "terminal_step te b (didParse n k b)"

subsection \<open>What keeps a predicate\<close>

text \<open>Changes of a terminal other than its stream, its screen, its lease and its state; changes of a process other
  than its exit listener and its inputs.\<close>

definition side_edit :: "(managed_terminal \<Rightarrow> managed_terminal) \<Rightarrow> bool" where
  "side_edit f \<longleftrightarrow> (\<forall>m. mt_terminalId (f m) = mt_terminalId m \<and> mt_published (f m) = mt_published m \<and> mt_replay (f m) = mt_replay m \<and>
     mt_emulator (f m) = mt_emulator m \<and> mt_dimensions (f m) = mt_dimensions m \<and>
     mt_replayBytes (f m) = mt_replayBytes m \<and> mt_sequence (f m) = mt_sequence m \<and> mt_limits (f m) = mt_limits m \<and>
     mt_initialDimensions (f m) = mt_initialDimensions m \<and>
     mt_lease (f m) = mt_lease m \<and> mt_state (f m) = mt_state m \<and> mt_process (f m) = mt_process m \<and>
     mt_binding (f m) = mt_binding m \<and> mt_provider (f m) = mt_provider m \<and> mt_disposed (f m) = mt_disposed m)"

definition side_pty :: "(pty \<Rightarrow> pty) \<Rightarrow> bool" where
  "side_pty g \<longleftrightarrow> (\<forall>y. py_exitListener (g y) = py_exitListener y \<and> py_inputs (g y) = py_inputs y)"

definition idle_terminal :: "string \<Rightarrow> broker \<Rightarrow> bool" where
  "idle_terminal k b \<longleftrightarrow> (\<forall>m. map_of (br_terminals b) k = Some m \<longrightarrow> mt_state m \<noteq> TRunning)"

text \<open>What of a terminal few operations change.\<close>

definition core_of :: "broker \<Rightarrow> string \<Rightarrow> (terminal_state \<times> nat \<times> bool \<times> terminal_binding \<times> terminal_provider \<times> string) option" where
  "core_of b k = map_option (\<lambda>m. (mt_state m, mt_process m, mt_disposed m, mt_binding m, mt_provider m, mt_terminalId m))
     (map_of (br_terminals b) k)"

definition state_of :: "broker \<Rightarrow> string \<Rightarrow> terminal_state option" where
  "state_of b k = map_option fst (core_of b k)"

text \<open>A terminal that is there and does not run any more.\<close>

definition stopped :: "string \<Rightarrow> broker \<Rightarrow> bool" where
  "stopped k b \<longleftrightarrow> (\<exists>s. state_of b k = Some s \<and> s \<noteq> TRunning)"

lemma state_alt: "state_of b k = map_option mt_state (map_of (br_terminals b) k)"
  by (cases "map_of (br_terminals b) k") (simp_all add: state_of_def core_of_def)

lemma idle_state: "idle_terminal k b \<longleftrightarrow> state_of b k \<noteq> Some TRunning"
  by (auto simp: idle_terminal_def state_alt)

lemma published_frame [simp]:
  "mt_terminalId (published x n m) = mt_terminalId m" "mt_sequence (published x n m) = mt_sequence m"
  "mt_limits (published x n m) = mt_limits m" "mt_state (published x n m) = mt_state m" "mt_lease (published x n m) = mt_lease m"
  "mt_process (published x n m) = mt_process m" "mt_disposed (published x n m) = mt_disposed m"
  "mt_binding (published x n m) = mt_binding m" "mt_provider (published x n m) = mt_provider m"
  "mt_published (published x n m) = mt_published m @ [x]" "mt_emulator (published x n m) = mt_emulator m"
  "mt_dimensions (published x n m) = mt_dimensions m" "mt_initialDimensions (published x n m) = mt_initialDimensions m"
  by (simp_all add: published_def Let_def split_beta)

lemma core_edit:
  "(\<And>m. mt_state (f m) = mt_state m \<and> mt_process (f m) = mt_process m \<and> mt_disposed (f m) = mt_disposed m \<and>
     mt_binding (f m) = mt_binding m \<and> mt_provider (f m) = mt_provider m \<and> mt_terminalId (f m) = mt_terminalId m) \<Longrightarrow>
   core_of (edit_terminal k f b) = core_of b"
  by (auto simp: core_of_def edit_terminal_def fun_eq_iff split: option.splits)

lemma core_simps [simp]:
  "core_of (edit_pty p g b) = core_of b" "core_of (broadcast_item k item b) = core_of b"
  "core_of (close_subscribers k b) = core_of b" "core_of (b\<lparr>br_bySession := s\<rparr>) = core_of b"
  "core_of (b\<lparr>br_byScope := s\<rparr>) = core_of b" "core_of (edit_attachment i ga b) = core_of b"
  "core_of (b\<lparr>br_opening := js\<rparr>) = core_of b" "core_of (b\<lparr>br_pendingProcessOpens := n\<rparr>) = core_of b"
  "core_of (b\<lparr>br_acquireReceipts := t\<rparr>) = core_of b" "core_of (register_terminal k job b) = core_of b"
  by (auto simp: core_of_def edit_pty_def broadcast_item_def close_subscribers_def edit_attachment_def register_terminal_def
      split: option.split)

lemma core_emit:
  "(\<And>m. mt_state (f m) = mt_state m \<and> mt_process (f m) = mt_process m \<and> mt_disposed (f m) = mt_disposed m \<and>
     mt_binding (f m) = mt_binding m \<and> mt_provider (f m) = mt_provider m \<and> mt_terminalId (f m) = mt_terminalId m) \<Longrightarrow>
   core_of (emit_item at k f item bytes b) = core_of b"
proof -
  assume f: "\<And>m. mt_state (f m) = mt_state m \<and> mt_process (f m) = mt_process m \<and> mt_disposed (f m) = mt_disposed m \<and>
     mt_binding (f m) = mt_binding m \<and> mt_provider (f m) = mt_provider m \<and> mt_terminalId (f m) = mt_terminalId m"
  have "core_of (publish_item k x n b) = core_of b" for x n b
    unfolding publish_item_def by (simp add: core_edit)
  then have "core_of (emit_item at k f item bytes b) = core_of (edit_terminal k (\<lambda>m. f (numbered at m)) b)"
    by (auto simp: emit_item_def edit_terminal_def core_of_def fun_eq_iff Let_def split: option.split)
  also have "\<dots> = core_of b" by (rule core_edit) (simp add: f numbered_def)
  finally show ?thesis .
qed

lemma core_ops [simp]:
  "core_of (changed at k b) = core_of b" "core_of (accept_frame at k x b) = core_of b" "core_of (clearLease emit at k b) = core_of b"
  by (auto simp: changed_def accept_frame_def core_emit clearLease_def core_edit Let_def split: option.split)

lemma core_expire [simp]: "core_of (expireLeaseIfNeeded at k b) = core_of b"
  by (auto simp: expireLeaseIfNeeded_def split: option.split)

lemma core_listening [simp]:
  "core_of (pauseProcessOutput k b) = core_of b" "core_of (disposeExit k b) = core_of b"
  by (auto simp: pauseProcessOutput_def disposeExit_def core_edit split: option.split)

lemma core_output [simp]: "core_of (acceptOutput at k data b) = core_of b"
proof -
  have "core_of (fold (accept_frame at k) xs b) = core_of b" for xs b by (induction xs arbitrary: b) simp_all
  then show ?thesis by (simp add: acceptOutput_def split: option.split)
qed

lemma core_resume [simp]: "core_of (snd (resumeProcessOutput at k b)) = core_of b"
proof -
  have "core_of (fold (acceptOutput at k) xs b) = core_of b" for xs b by (induction xs arbitrary: b) simp_all
  then show ?thesis by (simp add: resumeProcessOutput_def core_edit Let_def split: option.split)
qed

lemma state_edit: "(\<And>m. mt_state (f m) = mt_state m) \<Longrightarrow> state_of (edit_terminal k f b) = state_of b"
  by (auto simp: state_alt edit_terminal_def fun_eq_iff split: option.splits)

lemma state_core: "core_of b = core_of c \<Longrightarrow> state_of b = state_of c"
  by (simp add: state_of_def fun_eq_iff)

lemma state_exited:
  "state_of (edit_terminal k (\<lambda>m. m\<lparr>mt_state := TExited, mt_exit := x\<rparr>) b) j =
    (if j = k then map_option (\<lambda>_. TExited) (state_of b k) else state_of b j)"
  by (auto simp: state_alt edit_terminal_def split: option.split)

text \<open>A retired terminal does not run, and nothing else starts to.\<close>

lemma state_retire: "state_of (retire at x kill k b) k \<noteq> Some TRunning"
  "state_of b j \<noteq> Some TRunning \<Longrightarrow> state_of (retire at x kill k b) j \<noteq> Some TRunning"
  "state_of b j = None \<Longrightarrow> state_of (retire at x kill k b) j = None"
proof -
  let ?b = "edit_terminal k (\<lambda>m. m\<lparr>mt_state := TExited, mt_exit := Some x\<rparr>) b"
  let ?c = "close_subscribers k (disposeExit k (pauseProcessOutput k (changed at k (clearLease False at k ?b))))"
  have c: "state_of (edit_pty p g ?c) = state_of ?b" "state_of ?c = state_of ?b" for p g by (rule state_core; simp)+
  show "state_of (retire at x kill k b) k \<noteq> Some TRunning"
    by (auto simp: retire_def Let_def c state_exited split: option.split) (auto simp: state_alt)
  show "state_of b j \<noteq> Some TRunning \<Longrightarrow> state_of (retire at x kill k b) j \<noteq> Some TRunning"
    "state_of b j = None \<Longrightarrow> state_of (retire at x kill k b) j = None"
    by (auto simp: retire_def Let_def c state_exited split: option.split)
qed

lemma state_dispose [simp]: "state_of (dispose at k b) = state_of b"
proof -
  let ?b = "edit_terminal k (\<lambda>m. m\<lparr>mt_disposed := True\<rparr>) b"
  have "state_of (close_subscribers k (disposeExit k (pauseProcessOutput k (clearLease False at k ?b)))) = state_of ?b"
    by (rule state_core) simp
  then show ?thesis by (simp add: dispose_def Let_def state_edit split: option.split)
qed

lemma state_leave: "state_of b j \<noteq> Some TRunning \<Longrightarrow> state_of (leave_foreground at f b) j \<noteq> Some TRunning"
  "state_of b j = None \<Longrightarrow> state_of (leave_foreground at f b) j = None"
  using state_retire(2,3) [of b j at moved_exit False f]
  by (auto simp: leave_foreground_def Let_def state_core [OF core_simps(4)] split: option.split)

locale broker_upkeep =
  fixes P :: "broker \<Rightarrow> bool"
  assumes announced: "P b \<Longrightarrow> P (changed at k b)"
    and written: "P b \<Longrightarrow> frame \<noteq> [] \<Longrightarrow> length frame \<le> maxFrameBytes \<Longrightarrow> P (accept_frame at k frame b)"
    and resized: "P b \<Longrightarrow> P (changed at k (edit_terminal k (resized_to d) b))"
    and edited: "P b \<Longrightarrow> side_edit f \<Longrightarrow> P (edit_terminal k f b)"
    and unleased: "P b \<Longrightarrow> P (edit_terminal k (\<lambda>m. m\<lparr>mt_lease := None\<rparr>) b)"
    and exited: "P b \<Longrightarrow> P (edit_terminal k (\<lambda>m. m\<lparr>mt_state := TExited, mt_exit := x\<rparr>) b)"
    and disposed: "P b \<Longrightarrow> idle_terminal k b \<Longrightarrow> P (edit_terminal k (\<lambda>m. m\<lparr>mt_disposed := True\<rparr>) b)"
    and pty_edited: "P b \<Longrightarrow> side_pty g \<Longrightarrow> P (edit_pty p g b)"
    and exit_released: "P b \<Longrightarrow> idle_terminal k b \<Longrightarrow> P (edit_pty p (release_exit k) b)"
    and subscribers_closed: "P b \<Longrightarrow> P (close_subscribers k b)"
    and unregistered: "P b \<Longrightarrow> P (b\<lparr>br_bySession := del s (br_bySession b)\<rparr>)"
    and rescoped: "P b \<Longrightarrow> P (b\<lparr>br_byScope := sc\<rparr>)"
begin

lemma P_accept: "P b \<Longrightarrow> P (acceptOutput at k data b)"
proof -
  have "list_all (\<lambda>x. x \<noteq> [] \<and> length x \<le> maxFrameBytes) xs \<Longrightarrow> P b \<Longrightarrow> P (fold (accept_frame at k) xs b)" for xs b
    by (induction xs arbitrary: b) (simp_all add: written)
  from this [OF frames_bounded] show "P b \<Longrightarrow> P (acceptOutput at k data b)" by (simp add: acceptOutput_def split: option.split)
qed

lemma P_clear: "P b \<Longrightarrow> P (clearLease emit at k b)"
  by (simp add: clearLease_def unleased announced Let_def split: option.split)

lemma P_expire: "P b \<Longrightarrow> P (expireLeaseIfNeeded at k b)"
  by (simp add: expireLeaseIfNeeded_def P_clear split: option.split)

lemma P_expired_of: "P b \<Longrightarrow> P (expired_of at m b)"
  by (simp add: expired_of_def P_expire split: option.split)

lemma P_pause: "P b \<Longrightarrow> P (pauseProcessOutput k b)"
  by (simp add: pauseProcessOutput_def edited pty_edited side_edit_def side_pty_def release_listener_def split: option.split)

lemma P_resume: "P b \<Longrightarrow> P (snd (resumeProcessOutput at k b))"
proof -
  have "P b \<Longrightarrow> P (fold (acceptOutput at k) xs b)" for xs b
    by (induction xs arbitrary: b) (simp_all add: P_accept)
  then show "P b \<Longrightarrow> P (snd (resumeProcessOutput at k b))"
    by (simp add: resumeProcessOutput_def edited pty_edited side_edit_def side_pty_def Let_def split: option.split)
qed

lemma P_exit_gone: "P b \<Longrightarrow> idle_terminal k b \<Longrightarrow> P (disposeExit k b)"
  by (simp add: disposeExit_def exit_released split: option.split)

lemma P_kill: "P b \<Longrightarrow> P (edit_pty p pty_kill b)"
  by (rule pty_edited) (simp_all add: side_pty_def pty_kill_def)

lemma P_retire: "P b \<Longrightarrow> P (retire at x kill k b)"
proof -
  assume P: "P b"
  let ?b = "edit_terminal k (\<lambda>m. m\<lparr>mt_state := TExited, mt_exit := Some x\<rparr>) b"
  have "P (pauseProcessOutput k (changed at k (clearLease False at k ?b)))"
    by (intro P_pause announced P_clear exited P)
  moreover have "idle_terminal k (pauseProcessOutput k (changed at k (clearLease False at k ?b)))"
    using state_exited [of k "Some x" b k] state_core [of "pauseProcessOutput k (changed at k (clearLease False at k ?b))" ?b]
    by (simp add: idle_state)
  ultimately have "P (close_subscribers k (disposeExit k (pauseProcessOutput k (changed at k (clearLease False at k ?b)))))"
    by (intro subscribers_closed P_exit_gone)
  then show ?thesis using P by (simp add: retire_def Let_def P_kill split: option.split)
qed

lemma P_dispose: "P b \<Longrightarrow> idle_terminal k b \<Longrightarrow> P (dispose at k b)"
proof -
  assume P: "P b" "idle_terminal k b"
  let ?b = "edit_terminal k (\<lambda>m. m\<lparr>mt_disposed := True\<rparr>) b"
  have "P (pauseProcessOutput k (clearLease False at k ?b))" by (intro P_pause P_clear disposed P)
  moreover have "idle_terminal k (pauseProcessOutput k (clearLease False at k ?b))"
    using P(2) state_core [of "pauseProcessOutput k (clearLease False at k ?b)" ?b] by (simp add: idle_state state_edit)
  ultimately have "P (close_subscribers k (disposeExit k (pauseProcessOutput k (clearLease False at k ?b))))"
    by (intro subscribers_closed P_exit_gone)
  then show ?thesis using P by (simp add: dispose_def Let_def split: option.split)
qed

lemma P_leave: "P b \<Longrightarrow> P (leave_foreground at f b)"
proof -
  assume P: "P b"
  have "P (retire at moved_exit False f b)" "idle_terminal f (retire at moved_exit False f b)"
    using P_retire [OF P] state_retire by (simp_all add: idle_state)
  then show ?thesis
    by (auto simp: leave_foreground_def Let_def idle_state state_core [OF core_simps(4)] intro!: P_dispose unregistered split: option.split)
qed

lemma P_invalidate: "P b \<Longrightarrow> P (invalidateSession at s why b)"
proof -
  assume P: "P b"
  have "P (retire at x c k b)" "idle_terminal k (retire at x c k b)" for x c k
    using P_retire [OF P] state_retire by (simp_all add: idle_state)
  then have "P (dispose at k (retire at x c k b\<lparr>br_bySession := del s (br_bySession (retire at x c k b)), br_byScope := sc\<rparr>))" for x c k sc
    by (intro P_dispose rescoped unregistered) (simp_all add: idle_state state_of_def core_of_def)
  then show ?thesis using P by (simp add: invalidateSession_def Let_def split: option.split)
qed

lemma P_get: "P b \<Longrightarrow> P (snd (get_terminal at t b))"
  by (simp add: get_terminal_def P_expire Let_def split: option.split)

lemma P_terminate: "P b \<Longrightarrow> P (snd (terminate at t k ex b))"
  by (simp add: terminate_def P_retire Let_def split: option.split sum.split)

lemma P_timer: "P b \<Longrightarrow> P (lease_timer at k b)"
  by (simp add: lease_timer_def P_clear split: option.split)

lemma P_held: "P b \<Longrightarrow> P (snd (held_lease te at client cred k b))"
  by (simp add: held_lease_def P_expire Let_def split: option.split)

lemma P_release: "P b \<Longrightarrow> P (snd (release te at i b))"
  using P_held [of b te at "ri_terminalClientId i" "ri_credential i" "ri_terminalId i"]
  by (auto simp: release_def P_clear split: option.split sum.split prod.split)

lemma P_pty_data: "P b \<Longrightarrow> P (pty_data at p data b)"
  by (simp add: pty_data_def P_accept pty_edited side_pty_def split_beta Let_def split: option.split)

lemma P_pty_exit: "P b \<Longrightarrow> P (pty_exit at p x b)"
  by (simp add: pty_exit_def pty_edited side_pty_def P_retire Let_def split: option.split)

lemma P_pty_late: "P b \<Longrightarrow> P (pty_exit_late at p k b)"
  by (simp add: pty_exit_late_def P_retire split: option.split)

lemma P_parse: "P b \<Longrightarrow> P (didParse n k b)"
  unfolding didParse_def by (rule edited) (simp_all add: side_edit_def)

end

text \<open>A predicate that does not mind terminals and processes to be given up.\<close>

locale broker_calm = broker_upkeep +
  assumes any_disposed: "P b \<Longrightarrow> P (edit_terminal k (\<lambda>m. m\<lparr>mt_disposed := True\<rparr>) b)"
    and any_pty: "P b \<Longrightarrow> P (edit_pty p g b)"
    and emptied: "P b \<Longrightarrow> P (b\<lparr>br_bySession := [], br_byScope := [], br_acquireReceipts := []\<rparr>)"
begin

lemma P_any_dispose: "P b \<Longrightarrow> P (dispose at k b)"
proof -
  assume b: "P b"
  have exit: "P c \<Longrightarrow> P (disposeExit k c)" for c by (simp add: disposeExit_def any_pty split: option.split)
  have "P (close_subscribers k (disposeExit k (pauseProcessOutput k (clearLease False at k (edit_terminal k (\<lambda>m. m\<lparr>mt_disposed := True\<rparr>) b)))))"
    by (intro subscribers_closed exit P_pause P_clear any_disposed b)
  with b show ?thesis by (simp add: dispose_def Let_def split: option.split)
qed

lemma P_close_end: "P b \<Longrightarrow> P (close_end at b)"
proof -
  assume b: "P b"
  have fold_d: "P b \<Longrightarrow> P (fold (\<lambda>(s, k). dispose at k) xs b)" for xs b
    by (induction xs arbitrary: b) (simp_all add: P_any_dispose split_beta)
  have fold_p: "P b \<Longrightarrow> P (fold (\<lambda>p. edit_pty p pty_kill) ps b)" for ps b
    by (induction ps arbitrary: b) (simp_all add: any_pty)
  show ?thesis unfolding close_end_def Let_def by (rule emptied [OF fold_p [OF fold_d [OF b]]])
qed

end

subsection \<open>What keeps a predicate through every step\<close>

definition same_attachments :: "broker \<Rightarrow> broker \<Rightarrow> bool" where
  "same_attachments b c \<longleftrightarrow> map (\<lambda>u. (tu_terminalId u, tu_reset u, tu_live u)) (br_attachments c) =
     map (\<lambda>u. (tu_terminalId u, tu_reset u, tu_live u)) (br_attachments b)"

lemma same_attachments_nth:
  assumes "same_attachments b c" "i < length (br_attachments b)"
  shows "i < length (br_attachments c)" "tu_terminalId (br_attachments c ! i) = tu_terminalId (br_attachments b ! i)"
    "tu_reset (br_attachments c ! i) = tu_reset (br_attachments b ! i)" "tu_live (br_attachments c ! i) = tu_live (br_attachments b ! i)"
proof -
  have len: "length (br_attachments c) = length (br_attachments b)"
    using arg_cong [OF assms(1) [unfolded same_attachments_def], of length] by simp
  then show "i < length (br_attachments c)" using assms(2) by simp
  have "map (\<lambda>u. (tu_terminalId u, tu_reset u, tu_live u)) (br_attachments c) ! i =
      map (\<lambda>u. (tu_terminalId u, tu_reset u, tu_live u)) (br_attachments b) ! i"
    using assms(1) by (simp add: same_attachments_def)
  then show "tu_terminalId (br_attachments c ! i) = tu_terminalId (br_attachments b ! i)"
    "tu_reset (br_attachments c ! i) = tu_reset (br_attachments b ! i)" "tu_live (br_attachments c ! i) = tu_live (br_attachments b ! i)"
    using assms(2) len by simp_all
qed

lemma same_attachments_refl [simp]: "same_attachments b b"
  by (simp add: same_attachments_def)

lemma same_attachments_emit: "same_attachments b (emit_item at k f item bytes b)"
  by (auto simp: same_attachments_def emit_item_def publish_item_def broadcast_item_def edit_terminal_def Let_def split_beta
      split: option.split)

lemma same_attachments_expire: "same_attachments b (expireLeaseIfNeeded at k b)"
proof -
  have "same_attachments b (changed at k (edit_terminal k f b))" for f
    using same_attachments_emit [of "edit_terminal k f b"]
    by (auto simp: changed_def same_attachments_def edit_terminal_def split: option.splits)
  then show ?thesis by (simp add: expireLeaseIfNeeded_def clearLease_def Let_def split: option.split)
qed

text \<open>A lease that is new stays new when leases are only taken away.\<close>

lemma fresh_edit:
  assumes "fresh_lease l b" "\<And>m. mt_lease (f m) = mt_lease m \<or> mt_lease (f m) = None"
  shows "fresh_lease l (edit_terminal k f b)"
proof (cases "map_of (br_terminals b) k")
  case (Some m)
  with assms(1) have "map_option (\<lambda>x. ls_terminalLeaseId (le_summary x)) (mt_lease m) \<noteq> Some l" by (simp add: fresh_lease_def)
  with assms(2) [of m] have "map_option (\<lambda>x. ls_terminalLeaseId (le_summary x)) (mt_lease (f m)) \<noteq> Some l" by auto
  with assms(1) Some show ?thesis unfolding fresh_lease_def edit_terminal_def by simp
qed (use assms in \<open>simp add: edit_terminal_def\<close>)

lemma fresh_frame: "br_ptys c = br_ptys b \<Longrightarrow> br_terminals c = br_terminals b \<Longrightarrow> fresh_lease l c = fresh_lease l b"
  by (simp add: fresh_lease_def)

lemma fresh_emit:
  assumes "fresh_lease l b" "\<And>m. mt_lease (f m) = mt_lease m"
  shows "fresh_lease l (emit_item at k f item bytes b)"
proof (cases "map_of (br_terminals b) k")
  case (Some m)
  let ?b = "edit_terminal k (\<lambda>_. f (numbered at m)) b"
  have "?b = edit_terminal k (\<lambda>m. f (numbered at m)) b" using Some by (simp add: edit_terminal_def)
  then have "fresh_lease l ?b" using fresh_edit [OF assms(1), of "\<lambda>m. f (numbered at m)" k] assms(2) by (simp add: numbered_def)
  then have "fresh_lease l (edit_terminal k (published x bytes) ?b)" for x
    by (rule fresh_edit) simp
  then show ?thesis using Some by (simp add: emit_item_def publish_item_def broadcast_item_def fresh_lease_def Let_def)
qed (use assms in \<open>simp add: emit_item_def\<close>)

lemma fresh_clear: "fresh_lease l b \<Longrightarrow> fresh_lease l (clearLease e at k b)"
  by (simp add: clearLease_def changed_def Let_def fresh_edit fresh_emit split: option.split)

lemma fresh_expire: "fresh_lease l b \<Longrightarrow> fresh_lease l (expireLeaseIfNeeded at k b)"
  by (simp add: expireLeaseIfNeeded_def fresh_clear split: option.split)

text \<open>A number that is taken after the lease is noted may as well be taken before.\<close>

lemma emit_commutes:
  assumes "\<And>m. item (g (numbered at m)) = item (numbered at m)"
    and "\<And>m. g (numbered at m) = numbered at (g m)" "\<And>m x. g (published x bytes m) = published x bytes (g m)"
  shows "edit_terminal k g (emit_item at k (\<lambda>m. m) item bytes b) = emit_item at k (\<lambda>m. m) item bytes (edit_terminal k g b)"
proof (cases "map_of (br_terminals b) k")
  case (Some m)
  have a: "item (numbered at (g m)) = item (numbered at m)" using assms(1,2) by metis
  show ?thesis
    by (simp add: emit_item_def publish_item_def broadcast_item_def edit_terminal_def Some Let_def a assms(2,3))
qed (simp add: edit_terminal_def emit_item_def)

definition registered :: "string \<Rightarrow> broker \<Rightarrow> bool" where
  "registered k b \<longleftrightarrow> (\<exists>s. map_of (br_bySession b) s = Some k)"

text \<open>What a renewal changes of a lease: when it ends.\<close>

definition renewed :: "lease_state \<Rightarrow> lease_state \<Rightarrow> bool" where
  "renewed l l' \<longleftrightarrow> (\<exists>x t. l' = l\<lparr>le_summary := (le_summary l)\<lparr>ls_expiresAt := x\<rparr>, le_expiryTimer := t\<rparr>)"

locale broker_run = broker_upkeep P for P :: "broker \<Rightarrow> bool" +
  fixes te :: terminal_env
  assumes named: "P b \<Longrightarrow> map_of (br_terminals b) k = Some m \<Longrightarrow> mt_terminalId m = k"
    and queued_idle: "P b \<Longrightarrow> map_of (br_opening b) lock = Some job \<Longrightarrow> oj_current job = Some c \<Longrightarrow> idle_terminal c b"
    and counted: "P b \<Longrightarrow> P (b\<lparr>br_pendingProcessOpens := n\<rparr>)"
    and queued: "P b \<Longrightarrow> (\<And>c. oj_current job = Some c \<Longrightarrow> stopped c b) \<Longrightarrow> P (b\<lparr>br_opening := put lock job (br_opening b)\<rparr>)"
    and unqueued: "P b \<Longrightarrow> P (b\<lparr>br_opening := del lock (br_opening b)\<rparr>)"
    and added: "P b \<Longrightarrow> \<not> has k (br_terminals b) \<Longrightarrow> P (b\<lparr>br_terminals := put k (new_terminal at k job p b) (br_terminals b)\<rparr>)"
    and hired: "P b \<Longrightarrow> map_of (br_terminals b) k = Some m \<Longrightarrow> mt_process m = p \<Longrightarrow> \<not> mt_disposed m \<Longrightarrow>
      map_of (br_ptys b) p = Some y \<Longrightarrow> py_exitListener y = None \<Longrightarrow>
      P (register_terminal k job (edit_pty p (\<lambda>y. y\<lparr>py_exitListener := Some k\<rparr>) b))"
    and attached: "P b \<Longrightarrow> map_of (br_terminals b) k = Some m \<Longrightarrow>
      u = start_attachment wanted m b \<or> u = close_attachment None (new_attachment m) \<Longrightarrow>
      P (b\<lparr>br_attachments := br_attachments b @ [u]\<rparr>)"
    and reset_sent: "P b \<Longrightarrow> i < length (br_attachments b) \<Longrightarrow> tu_reset (br_attachments b ! i) = Some (reason, n) \<Longrightarrow>
      map_of (br_terminals b) (tu_terminalId (br_attachments b ! i)) = Some m \<Longrightarrow>
      P (edit_attachment i (\<lambda>u. go_live m (u\<lparr>tu_reset := None, tu_queue := async_push (resetItem te reason m) (tu_queue u)\<rparr>)) b)"
    and reset_waits: "P b \<Longrightarrow> i < length (br_attachments b) \<Longrightarrow> tu_reset (br_attachments b ! i) = Some (reason, n) \<Longrightarrow>
      P (edit_attachment i (\<lambda>u. u\<lparr>tu_reset := Some (reason, n')\<rparr>) b)"
    and attachment_closed: "P b \<Longrightarrow> P (edit_attachment i (close_attachment None) b)"
    and reset_dropped: "P b \<Longrightarrow> i < length (br_attachments b) \<Longrightarrow> tu_reset (br_attachments b ! i) = Some (reason, n) \<Longrightarrow>
      P (edit_attachment i (\<lambda>u. close_attachment None (u\<lparr>tu_reset := None\<rparr>)) b)"
    and beaten: "P b \<Longrightarrow> i < length (br_attachments b) \<Longrightarrow> tu_live (br_attachments b ! i) \<Longrightarrow>
      map_of (br_terminals b) (tu_terminalId (br_attachments b ! i)) = Some m \<Longrightarrow>
      P (edit_attachment i (\<lambda>u. u\<lparr>tu_queue := async_push (TerminalBeat (here m)) (tu_queue u)\<rparr>) b)"
    and read: "P b \<Longrightarrow> P (edit_attachment i attachment_next b)"
    and granted: "P b \<Longrightarrow> map_of (br_terminals b) k = Some m \<Longrightarrow> mt_state m = TRunning \<Longrightarrow> registered k b \<Longrightarrow> mt_lease m = None \<Longrightarrow>
      fresh_lease (ls_terminalLeaseId (le_summary l)) b \<Longrightarrow> le_nextInputSequence l = 0 \<Longrightarrow> le_receipts l = [] \<Longrightarrow>
      P (edit_terminal k (\<lambda>m. m\<lparr>mt_lease := Some l\<rparr>) b)"
    and receipt_kept: "P b \<Longrightarrow> P (b\<lparr>br_acquireReceipts := t\<rparr>)"
    and prolonged: "P b \<Longrightarrow> map_of (br_terminals b) k = Some m \<Longrightarrow> mt_lease m = Some l \<Longrightarrow> renewed l l' \<Longrightarrow>
      P (edit_terminal k (\<lambda>m. m\<lparr>mt_lease := Some l'\<rparr>) b)"
    and inputted: "P b \<Longrightarrow> map_of (br_terminals b) k = Some m \<Longrightarrow> mt_lease m = Some l \<Longrightarrow> mt_state m = TRunning \<Longrightarrow>
      P (edit_terminal k (\<lambda>m. m\<lparr>mt_lease := map_option (keep_input (le_nextInputSequence l) (inputHash te payload, r)) (mt_lease m)\<rparr>)
        (edit_pty (mt_process m) (log_input l op) b))"
    and closing: "P b \<Longrightarrow> P (b\<lparr>br_closed := True\<rparr>)"
    and closed: "P b \<Longrightarrow> br_closed b \<Longrightarrow> P (close_end at b)"
    and spawned: "P b \<Longrightarrow> \<not> has p (br_ptys b) \<Longrightarrow> P (b\<lparr>br_ptys := put p fresh_pty (br_ptys b)\<rparr>)"
begin

lemma P_reserve:
  assumes "P b" "\<And>m. current = Some m \<Longrightarrow> stopped (mt_terminalId m) b"
  shows "P (snd (open_reserve p bi i current foreground b))"
proof -
  let ?b = "\<lambda>n. case foreground of None \<Rightarrow> b\<lparr>br_pendingProcessOpens := n\<rparr>
      | Some f \<Rightarrow> pauseProcessOutput (mt_terminalId f) (b\<lparr>br_pendingProcessOpens := n\<rparr>)"
  have Pb: "P (?b n)" for n using counted [OF assms(1)] P_pause by (simp split: option.split)
  have st: "state_of (?b n) = state_of b" for n by (rule state_core) (simp split: option.split)
  have "P (?b n\<lparr>br_opening := put lock job (br_opening (?b n))\<rparr>)" if "oj_current job = map_option mt_terminalId current" for n lock job
    by (rule queued [OF Pb]) (use assms(2) that in \<open>auto simp: stopped_def st\<close>)
  then show ?thesis using assms(1) unfolding open_reserve_def by (simp add: Let_def)
qed

lemma P_open_more:
  assumes "P b" "\<And>c. idle_terminal c b \<or> map_of (br_bySession b) (tg_sessionId (tb_target bi)) \<noteq> Some c"
  shows "P (snd (open_more at p bi i b))"
proof -
  have sess: "br_bySession (expireLeaseIfNeeded at k c) = br_bySession c" for k c
    by (auto simp: expireLeaseIfNeeded_def clearLease_def changed_def emit_item_def publish_item_def broadcast_item_def
        edit_terminal_def Let_def split_beta split: option.split)
  let ?b = "\<lambda>f. expired_of at f b"
  have Pb: "P (?b f)" for f by (rule P_expired_of [OF assms(1)])
  have st: "state_of (?b f) = state_of b" "br_bySession (?b f) = br_bySession b" for f
    by (rule state_core, simp add: expired_of_def split: option.split) (simp add: expired_of_def sess split: option.split)
  have idle: "stopped (mt_terminalId m) (?b f)"
    if found: "lookup_in (br_bySession (?b f)) (tg_sessionId (tb_target bi)) (?b f) = Some m" for m f
  proof -
    obtain k where k: "map_of (br_bySession b) (tg_sessionId (tb_target bi)) = Some k" "map_of (br_terminals (?b f)) k = Some m"
      using found by (auto simp: lookup_in_def st split: Option.bind_splits)
    have "state_of (?b f) k = Some (mt_state m)" using k(2) by (simp add: state_alt)
    then show ?thesis using assms(2) [of k] k named [OF Pb k(2)] by (auto simp: stopped_def idle_state st)
  qed
  show ?thesis
    unfolding open_more_def Let_def using P_reserve [OF Pb idle] Pb by (simp split: option.split sum.split)
qed

lemma P_open_begin:
  assumes P: "P b"
  shows "P (snd (open_begin at bi i b))"
proof -
  let ?s = "tg_sessionId (tb_target bi)" and ?b = "expired_of at (lookup_in (br_bySession b) (tg_sessionId (tb_target bi)) b) b"
  have Pb: "P ?b" by (rule P_expired_of [OF P])
  have "P (snd (open_more at p bi i ?b))"
    if "lookup_in (br_bySession ?b) ?s ?b = None \<or> (\<exists>m. lookup_in (br_bySession ?b) ?s ?b = Some m \<and> mt_state m \<noteq> TRunning)" for p
    by (rule P_open_more [OF Pb]) (use that in \<open>auto simp: lookup_in_def idle_terminal_def split: Option.bind_splits\<close>)
  then show ?thesis unfolding open_begin_def Let_def using P Pb by (simp split: option.split sum.split)
qed

lemma P_construct:
  assumes "P b" "\<not> has k (br_terminals b)" "construct_terminal at k job p b = (ok, d)"
  shows "P (if ok then register_terminal k job' d else d)"
proof -
  let ?b = "b\<lparr>br_terminals := put k (new_terminal at k job p b) (br_terminals b)\<rparr>"
  obtain r c where r: "resumeProcessOutput at k ?b = (r, c)" by fastforce
  have Pc: "P c" using P_resume [OF added [OF assms(1,2)], of at k] r by (metis snd_conv)
  have "core_of c = core_of ?b" using core_resume [of at k ?b] r by (metis snd_conv)
  then have "core_of c k = core_of ?b k" by simp
  then obtain m where m: "map_of (br_terminals c) k = Some m" "mt_process m = p" "\<not> mt_disposed m"
    by (auto simp: core_of_def new_terminal_def split: option.splits)
  show ?thesis
    using assms(3) r hired [OF Pc m, of _ job'] Pc
    by (auto simp: construct_terminal_def split: bool.splits option.splits if_splits)
qed

lemma P_install:
  assumes "P b" "\<not> has k (br_terminals b)" "\<And>c. oj_current job = Some c \<Longrightarrow> idle_terminal c b"
  shows "P (snd (install_terminal at k job p b))"
proof -
  let ?c = "case oj_foreground job of None \<Rightarrow> b | Some f \<Rightarrow> leave_foreground at f b"
  let ?d = "case oj_current job of None \<Rightarrow> ?c | Some c \<Rightarrow> dispose at c ?c"
  have Pc: "P ?c" using P_leave [OF assms(1)] assms(1) by (simp split: option.split)
  have idle: "idle_terminal c ?c" if "oj_current job = Some c" for c
    using state_leave(1) assms(3) [OF that] by (simp add: idle_state split: option.split)
  have Pd: "P ?d" using P_dispose [OF Pc idle] Pc by (simp split: option.split)
  have "state_of b k = None" using assms(2) by (simp add: state_alt has_def)
  then have "state_of ?d k = None" using state_leave(2) by (simp split: option.split)
  then have "\<not> has k (br_terminals ?d)" by (simp add: state_alt has_def)
  from P_construct [OF Pd this]
  have built: "construct_terminal at k job p ?d = (ok, e) \<Longrightarrow> P (if ok then register_terminal k job e else e)" for ok e .
  show ?thesis
    unfolding install_terminal_def Let_def
    by (cases "construct_terminal at k job p ?d"; cases "fst (construct_terminal at k job p ?d)")
      (use built in \<open>auto split: option.split\<close>)
qed

lemma P_open_end:
  assumes "P b" "\<not> has k (br_terminals b)"
  shows "P (snd (open_end at k lock answer b))"
proof (cases "map_of (br_opening b) lock")
  case None
  with assms(1) show ?thesis by (simp add: open_end_def)
next
  case (Some job)
  define b' where "b' = b\<lparr>br_opening := del lock (br_opening b),
      br_pendingProcessOpens := br_pendingProcessOpens b - (if oj_reserves job then 1 else 0)\<rparr>"
  define undone where "undone = (case oj_foreground job of None \<Rightarrow> (True, b') | Some f \<Rightarrow> resumeProcessOutput at f b')"
  have P': "P b'" using counted [OF unqueued [OF assms(1), of lock]] by (simp add: b'_def)
  have undone: "P (snd undone)" using P' P_resume by (simp add: undone_def split: option.split)
  have "state_of b' = state_of b" unfolding b'_def by (rule state_core) simp
  then have idle: "idle_terminal c b'" if "oj_current job = Some c" for c
    using queued_idle [OF assms(1) Some that] by (simp add: idle_state)
  have "\<not> has k (br_terminals b')" using assms(2) by (simp add: b'_def)
  note built = P_install [OF P' this idle]
  have kill: "P c \<Longrightarrow> P (kill_if x p c)" for c x p by (simp add: kill_if_def P_kill)
  have split: "snd (open_end at k lock answer b) =
      (case answer of None \<Rightarrow> snd undone
       | Some p \<Rightarrow> if br_closed b' then kill_if (tc_terminate (tp_capabilities (oj_provider job))) p b'
           else if (case Option.bind (oj_foreground job) (map_of (br_terminals b')) of None \<Rightarrow> False | Some m \<Rightarrow> mt_process m \<noteq> p)
           then if fst undone then kill_if (tc_terminate (tp_capabilities (oj_provider job))) p (snd undone) else snd undone
           else snd (install_terminal at k job p b'))"
    using Some unfolding open_end_def by (simp add: b'_def [symmetric] undone_def [symmetric] Let_def split: option.split prod.split bool.split)
  show ?thesis unfolding split using undone kill P' built by (simp split: option.split)
qed

lemma P_attach: "P b \<Longrightarrow> P (snd (attach at t k wanted aborted b))"
  using P_expire [of b at k] attached [of "expireLeaseIfNeeded at k b" k]
  by (auto simp: attach_def Let_def split: option.split sum.split)

lemma P_continue:
  assumes "P b"
  shows "P (attach_continue te at i b)"
proof (cases "i < length (br_attachments b)")
  case True
  let ?u = "br_attachments b ! i" and ?c = "expireLeaseIfNeeded at (tu_terminalId (br_attachments b ! i)) b"
  have Pc: "P ?c" by (rule P_expire [OF assms])
  note same = same_attachments_nth [OF same_attachments_expire True, of at "tu_terminalId ?u"]
  show ?thesis
  proof (cases "tu_reset ?u")
    case (Some w)
    obtain reason n where w: "tu_reset ?u = Some (reason, n)" using Some by (cases w) simp
    have sent: "P (edit_attachment i (\<lambda>u. go_live m (u\<lparr>tu_reset := None, tu_queue := async_push (resetItem te reason m) (tu_queue u)\<rparr>)) ?c)"
      if "map_of (br_terminals ?c) (tu_terminalId ?u) = Some m" for m
      by (rule reset_sent [OF Pc]) (use same w that in simp_all)
    show ?thesis
      using True w assms Pc sent reset_waits [OF assms True w] reset_dropped [OF assms True w]
      by (simp add: attach_continue_def Let_def split: option.split)
  qed (use assms True in \<open>simp add: attach_continue_def Let_def\<close>)
qed (use assms in \<open>simp add: attach_continue_def\<close>)

lemma P_beat:
  assumes "P b"
  shows "P (terminal_heartbeat at i b)"
proof (cases "i < length (br_attachments b) \<and> tu_live (br_attachments b ! i)")
  case True
  then have i: "i < length (br_attachments b)" "tu_live (br_attachments b ! i)" by auto
  let ?k = "tu_terminalId (br_attachments b ! i)"
  have Pc: "P (expireLeaseIfNeeded at ?k b)" by (rule P_expire [OF assms])
  note same = same_attachments_nth [OF same_attachments_expire i(1), of at ?k]
  have "P (edit_attachment i (\<lambda>u. u\<lparr>tu_queue := async_push (TerminalBeat (here m)) (tu_queue u)\<rparr>) (expireLeaseIfNeeded at ?k b))"
    if "map_of (br_terminals (expireLeaseIfNeeded at ?k b)) ?k = Some m" for m
    by (rule beaten [OF Pc]) (use same that i in simp_all)
  then show ?thesis using assms Pc by (simp add: terminal_heartbeat_def Let_def split: option.split)
qed (use assms in \<open>auto simp: terminal_heartbeat_def Let_def\<close>)

lemma lookup_found:
  assumes "lookup_terminal t k b = Inr m" "P b"
  shows "map_of (br_terminals b) k = Some m" "registered k b"
  using assms named [OF assms(2)]
  by (auto simp: lookup_terminal_def registered_def split: option.splits if_splits Option.bind_splits)

lemma registered_expire: "registered k (expireLeaseIfNeeded at j b) = registered k b" "registered k (clearLease e at j b) = registered k b"
  by (auto simp: registered_def expireLeaseIfNeeded_def clearLease_def changed_def emit_item_def publish_item_def broadcast_item_def
      edit_terminal_def Let_def split_beta split: option.split)

lemma lease_cleared: "map_of (br_terminals (clearLease False at k b)) k = Some m \<Longrightarrow> mt_lease m = None"
  by (auto simp: clearLease_def edit_terminal_def Let_def split: option.splits if_splits)

lemma core_running:
  assumes "core_of c = core_of b" "map_of (br_terminals b) k = Some m" "mt_state m = TRunning"
  obtains m' where "map_of (br_terminals c) k = Some m'" "mt_state m' = TRunning"
  using assms by (auto simp: core_of_def fun_eq_iff dest!: spec [of _ k])

lemma P_grant:
  assumes "P b" "map_of (br_terminals b) (ai_terminalId i) = Some m" "mt_state m = TRunning" "registered (ai_terminalId i) b"
    and "fresh_lease l b"
  shows "P (snd (grant_lease te at l i m b))"
proof -
  let ?k = "ai_terminalId i" and ?c = "clearLease False at (ai_terminalId i) b"
  have Pc: "P ?c" by (rule P_clear [OF assms(1)])
  obtain m' where m': "map_of (br_terminals ?c) ?k = Some m'" "mt_state m' = TRunning"
    by (rule core_running [OF core_ops(3) assms(2,3)])
  have "P (edit_terminal ?k (\<lambda>m. m\<lparr>mt_lease := Some (new_lease te at l i m0)\<rparr>) ?c)" for m0
    by (rule granted [OF Pc m' _ lease_cleared [OF m'(1)]])
      (use assms(4,5) registered_expire fresh_clear in \<open>auto simp: new_lease_def\<close>)
  then show ?thesis
    unfolding grant_lease_def Let_def keep_receipt_def snd_conv by (intro receipt_kept announced)
qed

lemma P_acquire:
  assumes "P b" "fresh_lease l b"
  shows "P (snd (acquire te at l i b))"
proof -
  have "P (snd (grant_lease te at l i m (expireLeaseIfNeeded at (ai_terminalId i) b)))"
    if found: "lookup_terminal (ai_target i) (ai_terminalId i) b = Inr m0" and ok: "runningWritable m0 = None"
      and m: "map_of (br_terminals (expireLeaseIfNeeded at (ai_terminalId i) b)) (ai_terminalId i) = Some m" for m0 m
  proof (rule P_grant [OF P_expire [OF assms(1)] m])
    have "mt_state m0 = TRunning" using ok by (auto simp: runningWritable_def split: if_splits)
    then obtain m' where "map_of (br_terminals (expireLeaseIfNeeded at (ai_terminalId i) b)) (ai_terminalId i) = Some m'" "mt_state m' = TRunning"
      by (rule core_running [OF core_expire lookup_found(1) [OF found assms(1)]])
    then show "mt_state m = TRunning" using m by simp
    show "registered (ai_terminalId i) (expireLeaseIfNeeded at (ai_terminalId i) b)"
      using lookup_found [OF found assms(1)] by (simp add: registered_expire)
  qed (rule fresh_expire [OF assms(2)])
  then show ?thesis
    using assms(1) P_expire unfolding acquire_def by (simp add: Let_def split: option.split sum.split)
qed

lemma held_found:
  assumes "held_lease te at client cred k b = (Inr (m, l), c)" "P b"
  shows "P c" "map_of (br_terminals c) k = Some m" "mt_lease m = Some l" "core_of c = core_of b"
  using assms P_expire [OF assms(2), of at k] by (auto simp: held_lease_def Let_def split: option.splits if_splits)

lemma held_refused: "held_lease te at client cred k b = (Inl e, c) \<Longrightarrow> P b \<Longrightarrow> P c"
  using P_expire [of b at k] by (auto simp: held_lease_def Let_def split: option.splits if_splits)

lemma P_renew:
  assumes "P b"
  shows "P (snd (renew te at i b))"
proof -
  have "P (changed at k (edit_terminal k (\<lambda>m. m\<lparr>mt_lease := Some (l\<lparr>le_summary := (le_summary l)\<lparr>ls_expiresAt := x\<rparr>, le_expiryTimer := t\<rparr>)\<rparr>) c))"
    if "held_lease te at client cred k b = (Inr (m, l), c)" for client cred k m l c x t
    by (rule announced, rule prolonged [OF held_found(1-3) [OF that assms]]) (auto simp: renewed_def)
  then show ?thesis
    using assms held_refused by (auto simp: renew_def Let_def split: sum.split prod.split)
qed

text \<open>The receipt of an input may be thought of as noted before a resize is announced.\<close>

lemma keep_then_announce:
  "edit_terminal k (\<lambda>m. m\<lparr>mt_lease := map_option (keep_input n r) (mt_lease m)\<rparr>) (changed at k b) =
   changed at k (edit_terminal k (\<lambda>m. m\<lparr>mt_lease := map_option (keep_input n r) (mt_lease m)\<rparr>) b)"
  unfolding changed_def
proof (rule emit_commutes)
  have "le_summary (keep_input n r l) = le_summary l" for l by (simp add: keep_input_def Let_def)
  then show "Changed (here (numbered at m\<lparr>mt_lease := map_option (keep_input n r) (mt_lease (numbered at m))\<rparr>))
      (descriptor (numbered at m\<lparr>mt_lease := map_option (keep_input n r) (mt_lease (numbered at m))\<rparr>)) =
    Changed (here (numbered at m)) (descriptor (numbered at m))" for m
    by (simp add: here_def descriptor_def option.map_comp comp_def)
qed (simp_all add: numbered_def published_def Let_def split_beta)

lemma edits_commute:
  assumes "\<And>m. g (f m) = f (g m)"
  shows "edit_terminal k g (edit_terminal k f b) = edit_terminal k f (edit_terminal k g b)"
  by (simp add: edit_terminal_def assms split: option.split)

lemma P_input:
  assumes "P b"
  shows "P (snd (terminal_input_op te at i b))"
proof -
  let ?k = "in_terminalId i"
  have done_: "P (edit_terminal ?k (\<lambda>m. m\<lparr>mt_lease := map_option (keep_input (in_inputSequence i) (inputHash te (in_payload i), r)) (mt_lease m)\<rparr>) d)"
    if found: "lookup_terminal (in_target i) ?k b = Inr m0" and ok: "runningWritable m0 = None"
      and held: "held_lease te at client cred ?k b = (Inr (m, l), c)" and n: "in_inputSequence i = le_nextInputSequence l"
      and did: "perform_input at ?k l (in_payload i) m c = (None, d)" for m0 client cred m l c d r
  proof -
    note h = held_found [OF held assms]
    have "mt_state m0 = TRunning" using ok by (auto simp: runningWritable_def split: if_splits)
    then obtain m' where "map_of (br_terminals c) ?k = Some m'" "mt_state m' = TRunning"
      by (rule core_running [OF h(4) lookup_found(1) [OF found assms]])
    then have run: "mt_state m = TRunning" using h(2) by simp
    note put = inputted [OF h(1-3) run, of "in_payload i" r]
    show ?thesis
    proof (cases "in_payload i")
      case (Write data)
      with did put show ?thesis by (auto simp: perform_input_def n Let_def split: if_splits)
    next
      case (Resize dims)
      let ?keep = "\<lambda>m. m\<lparr>mt_lease := map_option (keep_input (le_nextInputSequence l) (inputHash te (in_payload i), r)) (mt_lease m)\<rparr>"
      have "P (changed at ?k (edit_terminal ?k (resized_to dims) (edit_terminal ?k ?keep (edit_pty (mt_process m) (log_input l (PtyResize dims)) c))))"
        by (rule resized [OF put])
      then have "P (edit_terminal ?k ?keep (changed at ?k (edit_terminal ?k (resized_to dims) (edit_pty (mt_process m) (log_input l (PtyResize dims)) c))))"
        by (simp add: keep_then_announce edits_commute [of ?keep "resized_to dims"] resized_to_def)
      with did Resize show ?thesis by (auto simp: perform_input_def n split: if_splits)
    qed
  qed
  have refused: "P d" if "held_lease te at client cred ?k b = (Inr (m, l), c)" "perform_input at ?k l (in_payload i) m c = (Some e, d)" for client cred m l c d e
    using that(2) held_found(1) [OF that(1) assms] by (auto simp: perform_input_def Let_def split: input_payload.splits if_splits)
  show ?thesis
  proof (cases "lookup_terminal (in_target i) ?k b")
    case (Inr m0)
    show ?thesis
    proof (cases "runningWritable m0")
      case None
      obtain res c where held: "held_lease te at (in_terminalClientId i) (in_credential i) ?k b = (res, c)" by fastforce
      show ?thesis
      proof (cases res)
        case (Inl e)
        with held held_refused [OF _ assms] Inr None show ?thesis by (auto simp: terminal_input_op_def)
      next
        case ml: (Inr ml)
        obtain m l where ml': "ml = (m, l)" by (cases ml)
        obtain err d where did: "perform_input at ?k l (in_payload i) m c = (err, d)" by fastforce
        note h = held [unfolded ml ml']
        show ?thesis
          using Inr None h did held_found(1) [OF h assms] refused [OF h] done_ [OF Inr None h]
          by (auto simp: terminal_input_op_def Let_def split: option.split prod.split)
      qed
    qed (use Inr assms in \<open>simp add: terminal_input_op_def\<close>)
  qed (use assms in \<open>simp add: terminal_input_op_def\<close>)
qed

theorem P_step: "terminal_step te b b' \<Longrightarrow> P b \<Longrightarrow> P b'"
  by (induction rule: terminal_step.induct)
    (simp_all only: P_get P_open_begin P_open_end P_attach P_continue P_beat read attachment_closed P_acquire P_renew P_release
      P_timer P_input P_terminate P_invalidate closing closed spawned P_pty_data P_pty_exit P_pty_late P_parse
      close_begin_def not_False_eq_True)

theorem P_steps: "(terminal_step te)\<^sup>*\<^sup>* b b' \<Longrightarrow> P b \<Longrightarrow> P b'"
  by (induction rule: rtranclp_induct) (simp_all only: P_step)

end

end
