(* ===== verification/Terminal_Stream.thy ===== *)
theory Terminal_Stream
  imports Terminal_Runs
begin

text \<open>
  What a subscriber of a terminal gets: the retained replay is a gapless end of the terminal's numbered items
  within its bounds, and every subscription leads on from its cursor, from a reset or from the start without a
  gap, as long as it lasts.
\<close>

subsection \<open>The replay\<close>

definition item_number :: "terminal_item \<Rightarrow> nat" where
  "item_number x = tcu_sequence (item_cursor x)"

fun plain_item :: "terminal_item \<Rightarrow> bool" where
  "plain_item (Output c d) = True"
| "plain_item (Changed c t) = True"
| "plain_item x = False"

text \<open>What a terminal emulator is shown: bytes, and changes of its size.  \<open>shown\<close> reads it off the items of a
  stream, \<open>fed\<close> off the calls to an emulator.\<close>

fun shown :: "terminal_dimensions \<Rightarrow> terminal_item list \<Rightarrow> (char + terminal_dimensions) list" where
  "shown d [] = []"
| "shown d (Output c data # xs) = map Inl (from_base64url data) @ shown d xs"
| "shown d (Changed c t # xs) = (if td_dimensions t \<noteq> d then Inr (td_dimensions t) # shown (td_dimensions t) xs else shown d xs)"
| "shown d (Resized c e # xs) = (if e \<noteq> d then Inr e # shown e xs else shown d xs)"
| "shown d (x # xs) = shown d xs"

fun fed :: "terminal_dimensions \<Rightarrow> emulator_op list \<Rightarrow> (char + terminal_dimensions) list" where
  "fed d [] = []"
| "fed d (EmWrite x # xs) = map Inl x @ fed d xs"
| "fed d (EmResize e # xs) = (if e \<noteq> d then Inr e # fed e xs else fed d xs)"

fun size_after :: "terminal_dimensions \<Rightarrow> (char + terminal_dimensions) list \<Rightarrow> terminal_dimensions" where
  "size_after d [] = d"
| "size_after d (Inl c # xs) = size_after d xs"
| "size_after d (Inr e # xs) = size_after e xs"

lemma size_after_append [simp]: "size_after d (xs @ ys) = size_after (size_after d xs) ys"
  by (induction d xs rule: size_after.induct) simp_all

lemma size_after_bytes [simp]: "size_after d (map Inl x) = d"
  by (induction x) simp_all

lemma shown_append: "shown d (xs @ ys) = shown d xs @ shown (size_after d (shown d xs)) ys"
  by (induction d xs rule: shown.induct) simp_all

lemma fed_append: "fed d (xs @ ys) = fed d xs @ fed (size_after d (fed d xs)) ys"
  by (induction d xs rule: fed.induct) simp_all

text \<open>The items of a terminal are numbered from one; the replay is the end of them, within its bounds; they show
  what the terminal's emulator was given.\<close>

definition small_output :: "terminal_item \<Rightarrow> bool" where
  "small_output x = (case x of
     Output c data \<Rightarrow> (let bytes = from_base64url data in data = to_base64 bytes \<and> bytes \<noteq> [] \<and> length bytes \<le> maxFrameBytes)
   | _ \<Rightarrow> True)"

definition log_ok :: "managed_terminal \<Rightarrow> bool" where
  "log_ok m \<longleftrightarrow> map item_number (mt_published m) = [1..<Suc (mt_sequence m)] \<and>
     (\<forall>x \<in> set (mt_published m). plain_item x \<and> small_output x \<and> tcu_terminalId (item_cursor x) = mt_terminalId m)"

definition replay_ok :: "managed_terminal \<Rightarrow> bool" where
  "replay_ok m \<longleftrightarrow> (\<exists>j \<le> length (mt_published m). map fst (mt_replay m) = drop j (mt_published m)) \<and>
     mt_replayBytes m = sum_list (map snd (mt_replay m)) \<and> length (mt_replay m) \<le> tl_replayItems (mt_limits m) \<and>
     mt_replayBytes m \<le> tl_replayBytes (mt_limits m)"

definition screen_ok :: "managed_terminal \<Rightarrow> bool" where
  "screen_ok m \<longleftrightarrow> shown (mt_initialDimensions m) (mt_published m) = fed (mt_initialDimensions m) (mt_emulator m) \<and>
     mt_dimensions m = size_after (mt_initialDimensions m) (shown (mt_initialDimensions m) (mt_published m))"

definition terminal_ok :: "managed_terminal \<Rightarrow> bool" where
  "terminal_ok m \<longleftrightarrow> log_ok m \<and> replay_ok m \<and> screen_ok m"

lemmas terminal_defs = terminal_ok_def log_ok_def replay_ok_def screen_ok_def

lemma trim_spec:
  assumes "n = sum_list (map snd es)" "trim_replay l es n = (r, n')"
  shows "\<exists>j \<le> length es. r = drop j es \<and> n' = sum_list (map snd r) \<and> length r \<le> tl_replayItems l \<and> n' \<le> tl_replayBytes l"
  using assms
proof (induction l es n arbitrary: r n' rule: trim_replay.induct)
  case (1 l n)
  then show ?case by simp
next
  case (2 l e es n)
  show ?case
  proof (cases "length (e # es) > tl_replayItems l \<or> n > tl_replayBytes l")
    case True
    then have "\<exists>j \<le> length es. r = drop j es \<and> n' = sum_list (map snd r) \<and> length r \<le> tl_replayItems l \<and> n' \<le> tl_replayBytes l"
      using 2 by simp
    then obtain j where "j \<le> length es" "r = drop j es" "n' = sum_list (map snd r) \<and> length r \<le> tl_replayItems l \<and> n' \<le> tl_replayBytes l"
      by blast
    then show ?thesis by (intro exI [of _ "Suc j"]) simp
  next
    case False
    with 2 show ?thesis by (intro exI [of _ 0]) auto
  qed
qed

lemma log_length: "log_ok m \<Longrightarrow> length (mt_published m) = mt_sequence m"
  unfolding log_ok_def by (metis diff_Suc_1 length_map length_upt)

lemma log_number:
  assumes "log_ok m" "i < length (mt_published m)"
  shows "item_number (mt_published m ! i) = Suc i"
proof -
  have "map item_number (mt_published m) ! i = [1..<Suc (mt_sequence m)] ! i" using assms(1) by (simp add: log_ok_def)
  then show ?thesis using assms log_length [OF assms(1)] by (simp del: upt_Suc)
qed

lemma log_published:
  assumes "log_ok m" "mt_sequence m' = Suc (mt_sequence m)" "mt_published m' = mt_published m" "mt_terminalId m' = mt_terminalId m"
    and "item_cursor x = here m'" "plain_item x" "small_output x"
  shows "log_ok (published x bytes m')"
  using assms by (simp add: log_ok_def item_number_def here_def)

lemma replay_published:
  assumes "replay_ok m" "mt_replay m' = mt_replay m" "mt_replayBytes m' = mt_replayBytes m" "mt_limits m' = mt_limits m"
    and "mt_published m' = mt_published m"
  shows "replay_ok (published x bytes m')"
proof -
  let ?es = "mt_replay m @ [(x, bytes)]"
  obtain r n where t: "trim_replay (mt_limits m) ?es (mt_replayBytes m + bytes) = (r, n)" by fastforce
  have "mt_replayBytes m + bytes = sum_list (map snd ?es)" using assms(1) by (simp add: replay_ok_def)
  from trim_spec [OF this t] obtain j where j: "j \<le> length ?es" "r = drop j ?es" "n = sum_list (map snd r)"
      "length r \<le> tl_replayItems (mt_limits m)" "n \<le> tl_replayBytes (mt_limits m)" by blast
  obtain i where i: "i \<le> length (mt_published m)" "map fst (mt_replay m) = drop i (mt_published m)"
    using assms(1) by (auto simp: replay_ok_def)
  have all: "map fst ?es = drop i (mt_published m @ [x])" using i by simp
  have "map fst r = drop (j + i) (mt_published m @ [x])" using all j(2) by (metis drop_drop drop_map)
  moreover have "j + i \<le> length (mt_published m @ [x])" using j(1) arg_cong [OF all, of length] i(1) by simp
  ultimately show ?thesis using t j(3-5) assms(2-5) by (auto simp: replay_ok_def published_def)
qed

lemma emit_terminal:
  "map_of (br_terminals (emit_item at k f item bytes b)) j =
    (if j = k then map_option (\<lambda>m. published (item (f (numbered at m))) bytes (f (numbered at m))) (map_of (br_terminals b) k)
     else map_of (br_terminals b) j)"
  by (simp add: emit_item_def publish_item_def broadcast_item_def edit_terminal_def published_def Let_def split: option.split)

lemma emit_attachments:
  "br_attachments (emit_item at k f item bytes b) =
    (case map_of (br_terminals b) k of None \<Rightarrow> br_attachments b
     | Some m \<Rightarrow> map (\<lambda>u. if tu_terminalId u = k \<and> tu_live u
         then u\<lparr>tu_queue := async_push (item (f (numbered at m))) (tu_queue u)\<rparr> else u) (br_attachments b))"
  by (simp add: emit_item_def publish_item_def broadcast_item_def edit_terminal_def Let_def split: option.split)

lemma emit_fields [simp]:
  "br_opening (emit_item at k f item bytes b) = br_opening b" "br_bySession (emit_item at k f item bytes b) = br_bySession b"
  "br_ptys (emit_item at k f item bytes b) = br_ptys b"
  by (simp_all add: emit_item_def publish_item_def broadcast_item_def edit_terminal_def Let_def split: option.split)

lemma edit_terminal_of:
  "map_of (br_terminals (edit_terminal k f b)) j = (if j = k then map_option f (map_of (br_terminals b) k) else map_of (br_terminals b) j)"
  by (simp add: edit_terminal_def split: option.split)

lemma edit_fields [simp]:
  "br_attachments (edit_terminal k f b) = br_attachments b" "br_opening (edit_terminal k f b) = br_opening b"
  "br_bySession (edit_terminal k f b) = br_bySession b" "br_ptys (edit_terminal k f b) = br_ptys b"
  "br_terminals (edit_pty p g b) = br_terminals b" "br_attachments (edit_pty p g b) = br_attachments b"
  "br_opening (edit_pty p g b) = br_opening b" "br_bySession (edit_pty p g b) = br_bySession b"
  "br_terminals (edit_attachment i h b) = br_terminals b" "br_opening (edit_attachment i h b) = br_opening b"
  "br_bySession (edit_attachment i h b) = br_bySession b" "br_ptys (edit_attachment i h b) = br_ptys b"
  "br_terminals (close_subscribers k b) = br_terminals b" "br_opening (close_subscribers k b) = br_opening b"
  "br_bySession (close_subscribers k b) = br_bySession b" "br_ptys (close_subscribers k b) = br_ptys b"
  by (simp_all add: edit_terminal_def edit_pty_def edit_attachment_def close_subscribers_def split: option.split)

subsection \<open>Terminals, openings and subscriptions\<close>

definition terminals_ok :: "broker \<Rightarrow> bool" where
  "terminals_ok b \<longleftrightarrow> (\<forall>k m. map_of (br_terminals b) k = Some m \<longrightarrow> mt_terminalId m = k \<and> terminal_ok m)"

definition openings_ok :: "broker \<Rightarrow> bool" where
  "openings_ok b \<longleftrightarrow> (\<forall>lock job c. map_of (br_opening b) lock = Some job \<longrightarrow> oj_current job = Some c \<longrightarrow> stopped c b)"

definition attachment_ok :: "broker \<Rightarrow> terminal_attachment \<Rightarrow> bool" where
  "attachment_ok b u \<longleftrightarrow> (tu_live u \<longrightarrow> tu_reset u = None) \<and> has (tu_terminalId u) (br_terminals b)"

definition base_ok :: "broker \<Rightarrow> bool" where
  "base_ok b \<longleftrightarrow> terminals_ok b \<and> openings_ok b \<and> (\<forall>u \<in> set (br_attachments b). attachment_ok b u)"

lemma terminal_side:
  assumes "side_edit f" "terminal_ok m"
  shows "terminal_ok (f m)"
  using assms by (simp add: terminal_ok_def log_ok_def replay_ok_def screen_ok_def side_edit_def)

text \<open>The three ways a terminal publishes.\<close>

definition publishes :: "(managed_terminal \<Rightarrow> managed_terminal) \<Rightarrow> (managed_terminal \<Rightarrow> terminal_item) \<Rightarrow> bool" where
  "publishes f item \<longleftrightarrow> f = (\<lambda>m. m) \<and> item = (\<lambda>m. Changed (here m) (descriptor m)) \<or>
     (\<exists>d. f = resized_to d \<and> item = (\<lambda>m. Changed (here m) (descriptor m))) \<or>
     (\<exists>x. x \<noteq> [] \<and> length x \<le> maxFrameBytes \<and> item = (\<lambda>m. Output (here m) (to_base64 x)) \<and>
       f = (\<lambda>m. m\<lparr>mt_lastOutputSequence := mt_sequence m, mt_emulator := mt_emulator m @ [EmWrite x]\<rparr>))"

lemma publishes_frame:
  assumes "publishes f item"
  shows "mt_sequence (f m) = mt_sequence m" "mt_published (f m) = mt_published m" "mt_replay (f m) = mt_replay m"
    "mt_replayBytes (f m) = mt_replayBytes m" "mt_limits (f m) = mt_limits m" "mt_terminalId (f m) = mt_terminalId m"
    "mt_state (f m) = mt_state m" "mt_initialDimensions (f m) = mt_initialDimensions m"
    "item_cursor (item m) = here m" "plain_item (item m)" "small_output (item m)"
proof -
  have "mt_sequence (f m) = mt_sequence m \<and> mt_published (f m) = mt_published m \<and> mt_replay (f m) = mt_replay m \<and>
    mt_replayBytes (f m) = mt_replayBytes m \<and> mt_limits (f m) = mt_limits m \<and> mt_terminalId (f m) = mt_terminalId m \<and>
    mt_state (f m) = mt_state m \<and> mt_initialDimensions (f m) = mt_initialDimensions m \<and>
    item_cursor (item m) = here m \<and> plain_item (item m) \<and> small_output (item m)"
    using assms unfolding publishes_def by (elim disjE exE conjE) (simp_all add: resized_to_def small_output_def)
  then show "mt_sequence (f m) = mt_sequence m" "mt_published (f m) = mt_published m" "mt_replay (f m) = mt_replay m"
    "mt_replayBytes (f m) = mt_replayBytes m" "mt_limits (f m) = mt_limits m" "mt_terminalId (f m) = mt_terminalId m"
    "mt_state (f m) = mt_state m" "mt_initialDimensions (f m) = mt_initialDimensions m"
    "item_cursor (item m) = here m" "plain_item (item m)" "small_output (item m)" by simp_all
qed

lemma publishes_ops: "publishes (\<lambda>m. m) (\<lambda>m. Changed (here m) (descriptor m))"
  "publishes (resized_to d) (\<lambda>m. Changed (here m) (descriptor m))"
  "x \<noteq> [] \<Longrightarrow> length x \<le> maxFrameBytes \<Longrightarrow>
    publishes (\<lambda>m. m\<lparr>mt_lastOutputSequence := mt_sequence m, mt_emulator := mt_emulator m @ [EmWrite x]\<rparr>) (\<lambda>m. Output (here m) (to_base64 x))"
  unfolding publishes_def by blast+

lemma resize_publishes:
  "changed at k (edit_terminal k (resized_to d) b) = emit_item at k (resized_to d) (\<lambda>m. Changed (here m) (descriptor m)) 256 b"
proof -
  have "numbered at (resized_to d m) = resized_to d (numbered at m)" for m by (cases m) (simp add: resized_to_def numbered_def)
  then show ?thesis
    by (cases "map_of (br_terminals b) k")
      (simp_all add: changed_def emit_item_def publish_item_def broadcast_item_def edit_terminal_def Let_def)
qed

lemma screen_published:
  assumes "screen_ok m" "publishes f item" "m' = f (numbered at m)"
  shows "screen_ok (published (item m') bytes m')"
  using assms unfolding publishes_def
  by (elim disjE exE conjE) (simp_all add: screen_ok_def numbered_def shown_append fed_append resized_to_def descriptor_def)

lemma terminal_published:
  assumes "terminal_ok m" "publishes f item"
  shows "terminal_ok (published (item (f (numbered at m))) bytes (f (numbered at m)))"
proof -
  let ?m = "f (numbered at m)"
  have f: "mt_sequence ?m = Suc (mt_sequence m)" "mt_published ?m = mt_published m" "mt_replay ?m = mt_replay m"
      "mt_replayBytes ?m = mt_replayBytes m" "mt_limits ?m = mt_limits m" "mt_terminalId ?m = mt_terminalId m"
    using publishes_frame [OF assms(2)] by (simp_all add: numbered_def)
  have ok: "log_ok m" "replay_ok m" "screen_ok m" using assms(1) by (simp_all add: terminal_ok_def)
  have "log_ok (published (item ?m) bytes ?m)"
    by (rule log_published [OF ok(1) f(1,2,6)]) (use publishes_frame [OF assms(2)] in simp_all)
  moreover have "replay_ok (published (item ?m) bytes ?m)" by (rule replay_published [OF ok(2) f(3-5) f(2)])
  moreover have "screen_ok (published (item ?m) bytes ?m)" by (rule screen_published [OF ok(3) assms(2) refl])
  ultimately show ?thesis by (simp add: terminal_ok_def)
qed

lemma terminals_edit:
  assumes "terminals_ok b" "\<And>m. terminal_ok m \<Longrightarrow> terminal_ok (f m)" "\<And>m. mt_terminalId (f m) = mt_terminalId m"
  shows "terminals_ok (edit_terminal k f b)"
  using assms by (auto simp: terminals_ok_def edit_terminal_of)

lemma openings_state:
  assumes "openings_ok b" "br_opening c = br_opening b" "\<And>j. stopped j b \<Longrightarrow> stopped j c"
  shows "openings_ok c"
  using assms unfolding openings_ok_def by simp

lemma attachment_has:
  "attachment_ok b u \<Longrightarrow> (\<And>j. has j (br_terminals b) \<Longrightarrow> has j (br_terminals c)) \<Longrightarrow> attachment_ok c u"
  by (simp add: attachment_ok_def)

lemma has_edit: "has j (br_terminals (edit_terminal k f b)) = has j (br_terminals b)"
  by (simp add: has_def edit_terminal_of)

lemma has_emit: "has j (br_terminals (emit_item at k f item bytes b)) = has j (br_terminals b)"
  by (simp add: has_def emit_terminal)

lemma base_edit:
  assumes "base_ok b" "\<And>m. terminal_ok m \<Longrightarrow> terminal_ok (f m)" "\<And>m. mt_terminalId (f m) = mt_terminalId m"
    and "\<And>m. mt_state m \<noteq> TRunning \<Longrightarrow> mt_state (f m) \<noteq> TRunning"
  shows "base_ok (edit_terminal k f b)"
proof -
  have "openings_ok (edit_terminal k f b)"
  proof (rule openings_state)
    show "openings_ok b" using assms(1) by (simp add: base_ok_def)
    show "stopped j (edit_terminal k f b)" if "stopped j b" for j
      using that assms(4) by (auto simp: stopped_def state_alt edit_terminal_of)
  qed simp
  moreover have "attachment_ok (edit_terminal k f b) u" if "u \<in> set (br_attachments b)" for u
    by (rule attachment_has [of b]) (use assms(1) that in \<open>simp_all add: base_ok_def has_edit\<close>)
  ultimately show ?thesis using assms(1-3) by (simp add: base_ok_def terminals_edit)
qed

lemma base_same:
  assumes "base_ok b" "br_terminals c = br_terminals b" "br_opening c = br_opening b"
    and "\<And>u. u \<in> set (br_attachments c) \<Longrightarrow> attachment_ok b u"
  shows "base_ok c"
proof -
  have "state_of c = state_of b" by (simp add: state_alt fun_eq_iff assms(2))
  moreover have "attachment_ok c = attachment_ok b" by (simp add: attachment_ok_def fun_eq_iff assms(2))
  ultimately show ?thesis using assms by (simp add: base_ok_def terminals_ok_def openings_ok_def stopped_def)
qed

lemma base_emit:
  assumes "base_ok b" "publishes f item"
  shows "base_ok (emit_item at k f item bytes b)"
proof -
  let ?c = "edit_terminal k (\<lambda>m. published (item (f (numbered at m))) bytes (f (numbered at m))) b"
  have c: "base_ok ?c"
    by (rule base_edit [OF assms(1) terminal_published [OF _ assms(2)]])
      (simp_all add: publishes_frame [OF assms(2)], simp_all add: numbered_def)
  have same: "map_of (br_terminals (emit_item at k f item bytes b)) = map_of (br_terminals ?c)"
    by (simp add: fun_eq_iff emit_terminal edit_terminal_of)
  have "attachment_ok (emit_item at k f item bytes b) u" if "u \<in> set (br_attachments (emit_item at k f item bytes b))" for u
  proof -
    have "\<exists>u' \<in> set (br_attachments b). tu_live u = tu_live u' \<and> tu_reset u = tu_reset u' \<and> tu_terminalId u = tu_terminalId u'"
      using that by (auto simp: emit_attachments split: option.splits if_splits)
    then show ?thesis using assms(1) by (auto simp: base_ok_def attachment_ok_def has_emit)
  qed
  moreover have "state_of (emit_item at k f item bytes b) = state_of ?c" by (simp add: state_alt fun_eq_iff same)
  ultimately show ?thesis using c by (simp add: base_ok_def terminals_ok_def openings_ok_def stopped_def same)
qed

lemma base_attachment:
  assumes "base_ok b" "i < length (br_attachments b) \<Longrightarrow> attachment_ok b (f (br_attachments b ! i))"
  shows "base_ok (edit_attachment i f b)"
proof (rule base_same [OF assms(1)])
  fix u assume "u \<in> set (br_attachments (edit_attachment i f b))"
  then have "u \<in> set (br_attachments b) \<or> (i < length (br_attachments b) \<and> u = f (br_attachments b ! i))"
    by (auto simp: edit_attachment_def split: if_splits dest: set_update_subset_insert [THEN subsetD])
  then show "attachment_ok b u" using assms by (auto simp: base_ok_def)
qed simp_all

lemma base_nth: "base_ok b \<Longrightarrow> i < length (br_attachments b) \<Longrightarrow> attachment_ok b (br_attachments b ! i)"
  by (simp add: base_ok_def)

lemma go_live_frame: "tu_terminalId (go_live m u) = tu_terminalId u" "tu_reset (go_live m u) = tu_reset u"
  by (simp_all add: go_live_def close_attachment_def)

lemma attachment_closed_ok: "attachment_ok b u \<Longrightarrow> attachment_ok b (close_attachment r u)"
  by (simp add: attachment_ok_def close_attachment_def)

lemma close_subs_base: "base_ok b \<Longrightarrow> base_ok (close_subscribers k b)"
  by (rule base_same) (auto simp: close_subscribers_def base_ok_def attachment_closed_ok)

lemma base_attachments: "base_ok b \<Longrightarrow> u \<in> set (br_attachments b) \<Longrightarrow> attachment_ok b u"
  by (simp add: base_ok_def)

lemma base_pty: "base_ok b \<Longrightarrow> base_ok (edit_pty p g b)"
  by (rule base_same [of b]) (simp_all add: base_attachments)

interpretation base0: broker_calm base_ok
proof
  show "base_ok b \<Longrightarrow> base_ok (changed at k b)" for b at k unfolding changed_def by (rule base_emit [OF _ publishes_ops(1)])
  show "base_ok b \<Longrightarrow> frame \<noteq> [] \<Longrightarrow> length frame \<le> maxFrameBytes \<Longrightarrow> base_ok (accept_frame at k frame b)" for b at k frame
    unfolding accept_frame_def by (rule base_emit [OF _ publishes_ops(3)])
  show "base_ok b \<Longrightarrow> base_ok (changed at k (edit_terminal k (resized_to d) b))" for b at k d
    unfolding resize_publishes by (rule base_emit [OF _ publishes_ops(2)])
  show "base_ok b \<Longrightarrow> side_edit f \<Longrightarrow> base_ok (edit_terminal k f b)" for b f k
    by (rule base_edit) (simp_all add: terminal_side, simp_all add: side_edit_def)
  show "base_ok b \<Longrightarrow> base_ok (edit_terminal k (\<lambda>m. m\<lparr>mt_lease := None\<rparr>) b)" for b k
    by (rule base_edit) (simp_all add: terminal_defs)
  show "base_ok b \<Longrightarrow> base_ok (edit_terminal k (\<lambda>m. m\<lparr>mt_state := TExited, mt_exit := x\<rparr>) b)" for b k x
    by (rule base_edit) (simp_all add: terminal_defs)
  show "base_ok b \<Longrightarrow> base_ok (edit_terminal k (\<lambda>m. m\<lparr>mt_disposed := True\<rparr>) b)" for b k
    by (rule base_edit) (simp_all add: terminal_defs)
  then show "base_ok b \<Longrightarrow> base_ok (edit_terminal k (\<lambda>m. m\<lparr>mt_disposed := True\<rparr>) b)" for b k .
  show "base_ok b \<Longrightarrow> base_ok (b\<lparr>br_bySession := [], br_byScope := [], br_acquireReceipts := []\<rparr>)" for b
    by (rule base_same [of b]; simp add: base_attachments)
  show "base_ok b \<Longrightarrow> base_ok (close_subscribers k b)" for b k by (rule close_subs_base)
  show "base_ok b \<Longrightarrow> base_ok (edit_pty p (release_exit k) b)" for b p k by (rule base_pty)
  show "base_ok b \<Longrightarrow> base_ok (edit_pty p g b)" "base_ok b \<Longrightarrow> base_ok (edit_pty p g b)" for b p g
    by (simp_all only: base_pty)
  show "base_ok b \<Longrightarrow> base_ok (b\<lparr>br_bySession := del s (br_bySession b)\<rparr>)"
    "base_ok b \<Longrightarrow> base_ok (b\<lparr>br_byScope := sc\<rparr>)" for b s sc
    by (rule base_same [of b]; simp add: base_attachments)+
qed

lemma base_named: "base_ok b \<Longrightarrow> map_of (br_terminals b) k = Some m \<Longrightarrow> mt_terminalId m = k \<and> terminal_ok m"
  by (simp add: base_ok_def terminals_ok_def)

lemma base_more: "base_ok b \<Longrightarrow> br_terminals c = br_terminals b \<Longrightarrow> br_opening c = br_opening b \<Longrightarrow>
    br_attachments c = br_attachments b \<Longrightarrow> base_ok c"
  by (rule base_same [of b]) (simp_all add: base_attachments)

lemma base_queue:
  assumes "base_ok b" "\<And>lock job c. map_of js lock = Some job \<Longrightarrow> oj_current job = Some c \<Longrightarrow> stopped c b"
  shows "base_ok (b\<lparr>br_opening := js\<rparr>)"
proof -
  let ?c = "b\<lparr>br_opening := js\<rparr>"
  have "state_of ?c = state_of b" by (simp add: state_alt fun_eq_iff)
  then have "openings_ok ?c" using assms(2) by (simp add: openings_ok_def stopped_def)
  moreover have "attachment_ok ?c = attachment_ok b" by (simp add: attachment_ok_def fun_eq_iff)
  ultimately show ?thesis using assms(1) by (simp add: base_ok_def terminals_ok_def)
qed

lemma base_queued: "base_ok b \<Longrightarrow> map_of (br_opening b) lock = Some job \<Longrightarrow> oj_current job = Some c \<Longrightarrow> stopped c b"
  unfolding base_ok_def openings_ok_def by blast

lemma base_added:
  assumes "base_ok b" "\<not> has k (br_terminals b)"
  shows "base_ok (b\<lparr>br_terminals := put k (new_terminal at k job p b) (br_terminals b)\<rparr>)"
proof -
  let ?m = "new_terminal at k job p b" and ?c = "b\<lparr>br_terminals := put k (new_terminal at k job p b) (br_terminals b)\<rparr>"
  have "terminal_ok ?m" by (simp add: terminal_defs new_terminal_def)
  then have "terminals_ok ?c" using assms(1) by (auto simp: base_ok_def terminals_ok_def new_terminal_def)
  moreover have "stopped j ?c" if "stopped j b" for j
    using that assms(2) by (auto simp: stopped_def state_alt has_def)
  then have "openings_ok ?c" using assms(1) openings_state [of b ?c] by (simp add: base_ok_def)
  moreover have "attachment_ok ?c u" if "u \<in> set (br_attachments b)" for u
    by (rule attachment_has [of b]) (use assms(1) that in \<open>auto simp: base_ok_def has_def\<close>)
  ultimately show ?thesis by (simp add: base_ok_def)
qed

lemma start_attachment_frame:
  "tu_terminalId (start_attachment wanted m b) = mt_terminalId m" "tu_live (start_attachment wanted m b) \<Longrightarrow> tu_reset (start_attachment wanted m b) = None"
  by (auto simp: start_attachment_def go_live_frame new_attachment_def Let_def split: option.splits if_splits)

lemma base_attached:
  assumes "base_ok b" "attachment_ok b u"
  shows "base_ok (b\<lparr>br_attachments := br_attachments b @ [u]\<rparr>)"
  by (rule base_same [OF assms(1)]) (use assms base_attachments in auto)

interpretation base: broker_run base_ok te for te
proof
  fix b assume b: "base_ok b"
  show "map_of (br_terminals b) k = Some m \<Longrightarrow> mt_terminalId m = k" for k m using base_named [OF b] by blast
  show "map_of (br_opening b) lock = Some job \<Longrightarrow> oj_current job = Some c \<Longrightarrow> idle_terminal c b" for lock job c
    using base_queued [OF b] by (force simp: idle_state stopped_def)
  show "base_ok (b\<lparr>br_pendingProcessOpens := n\<rparr>)" "base_ok (b\<lparr>br_acquireReceipts := t\<rparr>)" "base_ok (b\<lparr>br_closed := True\<rparr>)" for n t
    by (rule base_more [OF b]; simp)+
  show "base_ok (b\<lparr>br_ptys := put p fresh_pty (br_ptys b)\<rparr>)" for p by (rule base_more [OF b]; simp)
  show "(\<And>c. oj_current job = Some c \<Longrightarrow> stopped c b) \<Longrightarrow> base_ok (b\<lparr>br_opening := put lock job (br_opening b)\<rparr>)" for job lock
    by (rule base_queue [OF b]) (use base_queued [OF b] in \<open>auto split: if_splits\<close>)
  show "base_ok (b\<lparr>br_opening := del lock (br_opening b)\<rparr>)" for lock
    by (rule base_queue [OF b]) (use base_queued [OF b] in \<open>auto split: if_splits\<close>)
  show "\<not> has k (br_terminals b) \<Longrightarrow> base_ok (b\<lparr>br_terminals := put k (new_terminal at k job p b) (br_terminals b)\<rparr>)" for k at job p
    by (rule base_added [OF b])
  show "base_ok (register_terminal k job (edit_pty p g b))" for k job p g
    by (rule base_more [OF b]) (simp_all add: register_terminal_def)
  show "map_of (br_terminals b) k = Some m \<Longrightarrow> u = start_attachment wanted m b \<or> u = close_attachment None (new_attachment m) \<Longrightarrow>
      base_ok (b\<lparr>br_attachments := br_attachments b @ [u]\<rparr>)" for k m u wanted
    by (rule base_attached [OF b]) (use base_named [OF b] start_attachment_frame in
      \<open>auto simp: attachment_ok_def has_def new_attachment_def close_attachment_def\<close>)
  show "base_ok (edit_attachment i (\<lambda>u. go_live m (u\<lparr>tu_reset := None, tu_queue := async_push (resetItem te reason m) (tu_queue u)\<rparr>)) b)"
    "base_ok (edit_attachment i (\<lambda>u. close_attachment None (u\<lparr>tu_reset := None\<rparr>)) b)"
    "base_ok (edit_attachment i (close_attachment None) b)" for i m te reason
    by (rule base_attachment [OF b]; use base_nth [OF b] in \<open>auto simp: attachment_ok_def go_live_frame close_attachment_def\<close>)+
  show "i < length (br_attachments b) \<Longrightarrow> tu_reset (br_attachments b ! i) = Some (reason, n) \<Longrightarrow>
      base_ok (edit_attachment i (\<lambda>u. u\<lparr>tu_reset := Some (reason, n')\<rparr>) b)" for i reason n n'
    by (rule base_attachment [OF b]) (use base_nth [OF b] in \<open>auto simp: attachment_ok_def\<close>)
  show "base_ok (edit_attachment i (\<lambda>u. u\<lparr>tu_queue := q u\<rparr>) b)" for i q
    by (rule base_attachment [OF b]) (use base_nth [OF b] in \<open>auto simp: attachment_ok_def\<close>)
  show "base_ok (edit_attachment i attachment_next b)" for i
    by (rule base_attachment [OF b]) (use base_nth [OF b] in \<open>auto simp: attachment_ok_def attachment_next_def split: list.splits\<close>)
  show "base_ok (edit_terminal k (\<lambda>m. m\<lparr>mt_lease := l m\<rparr>) b)" for k l
    by (rule base_edit [OF b]) (simp_all add: terminal_defs)
  then show "base_ok (edit_terminal k (\<lambda>m. m\<lparr>mt_lease := l m\<rparr>) (edit_pty p g b))" for k l p g
    using base_edit [OF base_pty [OF b], of "\<lambda>m. m\<lparr>mt_lease := l m\<rparr>"] by (simp add: terminal_defs)
  show "base_ok (edit_terminal k (\<lambda>m. m\<lparr>mt_lease := Some l\<rparr>) b)" for k l
    by (rule base_edit [OF b]) (simp_all add: terminal_defs)
  show "base_ok (close_end at b)" for at by (rule base0.P_close_end [OF b])
qed

lemma base_new: "newBroker boot ps n l = Inr b \<Longrightarrow> base_ok b"
  by (auto simp: newBroker_def base_ok_def terminals_ok_def openings_ok_def split: if_splits)

end
