(* ===== verification/Terminal_Demo.thy ===== *)
theory Terminal_Demo
  imports Terminal_Runs
begin

text \<open>A small run of a broker: a terminal is opened, leased, resized by its lease holder and watched.\<close>

definition demo_env :: terminal_env where
  "demo_env = \<lparr>te_sha = (\<lambda>s. s), te_mac = (\<lambda>s. s), te_screen = (\<lambda>d xs. [])\<rparr>"

definition demo_capabilities :: terminal_capabilities where
  "demo_capabilities = \<lparr>tc_write = True, tc_resize = True, tc_terminate = True, tc_restart = True, tc_foregroundSwitch = False\<rparr>"

definition demo_provider :: terminal_provider where
  "demo_provider = \<lparr>tp_harness = ''h'', tp_adapterScopeId = ''a'', tp_backend = ''pty'', tp_sharing = PerSession,
     tp_capabilities = demo_capabilities\<rparr>"

definition demo_limits :: terminal_limits where
  "demo_limits = \<lparr>tl_replayItems = 4, tl_replayBytes = 999, tl_subscriberItems = 4, tl_heartbeatMs = 9, tl_leaseTtlMs = 9\<rparr>"

definition demo_target :: terminal_target where
  "demo_target = \<lparr>tg_sessionId = ''s'', tg_runtimeNodeId = ''n'', tg_bindingRevision = 1\<rparr>"

definition demo_binding :: terminal_binding where
  "demo_binding = \<lparr>tb_target = demo_target, tb_harness = ''h'', tb_adapterScopeId = ''a'', tb_vendorSessionId = ''v'', tb_cwd = ''/''\<rparr>"

definition demo_open :: open_input where
  "demo_open = \<lparr>oi_terminalClientId = ''c'', oi_expectedTerminalId = None, oi_confirmForegroundSwitch = False,
     oi_dimensions = Some \<lparr>di_columns = 8, di_rows = 2\<rparr>\<rparr>"

definition demo_at :: "int \<Rightarrow> moment" where
  "demo_at t = \<lparr>at_ms = t, at_text = ''now''\<rparr>"

definition demo_broker :: broker where
  "demo_broker = \<lparr>br_runtimeNodeBootId = ''b'', br_providers = [(providerKey ''h'' ''a'', demo_provider)], br_terminals = [], br_ptys = [],
        br_bySession = [], br_byScope = [], br_opening = [], br_acquireReceipts = [], br_maxRunningTerminals = 2,
        br_limits = demo_limits, br_pendingProcessOpens = 0, br_closed = False, br_attachments = []\<rparr>"

lemma demo_start: "newBroker ''b'' [demo_provider] 2 demo_limits = Inr demo_broker"
  by (simp add: newBroker_def positive_def demo_limits_def maxReplayItems_def demo_broker_def demo_provider_def)

definition demo_queued :: broker where
  "demo_queued = snd (open_begin (demo_at 0) demo_binding demo_open demo_broker)"

definition demo_hired :: broker where
  "demo_hired = demo_queued\<lparr>br_ptys := put 0 fresh_pty (br_ptys demo_queued)\<rparr>"

definition demo_opened :: broker where
  "demo_opened = snd (open_end (demo_at 1) ''t'' ''session:s'' (Some 0) demo_hired)"

definition demo_acquire :: acquire_input where
  "demo_acquire = \<lparr>ai_target = demo_target, ai_terminalId = ''t'', ai_terminalClientId = ''c'', ai_requestId = ''r'', ai_forceTerminalLeaseId = None\<rparr>"

definition demo_leased :: broker where
  "demo_leased = snd (acquire demo_env (demo_at 5) ''l'' demo_acquire demo_opened)"

definition demo_input :: terminal_input where
  "demo_input = \<lparr>in_target = demo_target, in_terminalId = ''t'', in_terminalClientId = ''c'',
     in_credential = \<lparr>lc_terminalLeaseId = ''l'', lc_token = leaseToken demo_env ''r''\<rparr>, in_inputSequence = 0,
     in_payload = Resize \<lparr>di_columns = 9, di_rows = 3\<rparr>\<rparr>"

definition demo_typed :: broker where
  "demo_typed = snd (terminal_input_op demo_env (demo_at 6) demo_input demo_leased)"

definition demo_watched :: broker where
  "demo_watched = snd (attach (demo_at 7) demo_target ''t'' None False demo_typed)"

definition demo_seen :: broker where
  "demo_seen = edit_attachment 0 attachment_next (lease_timer (demo_at 20) ''t'' demo_watched)"

lemma demo_guards: "lock_free demo_binding demo_broker" "\<not> has 0 (br_ptys demo_queued)" "\<not> has ''t'' (br_terminals demo_hired)"
  "fresh_lease ''l'' demo_opened"
proof -
  show "lock_free demo_binding demo_broker" "\<not> has 0 (br_ptys demo_queued)" "\<not> has ''t'' (br_terminals demo_hired)" by code_simp+
  have "list_all (\<lambda>(p, y). ''l'' \<notin> fst ` set (py_inputs y)) (br_ptys demo_opened)"
    "list_all (\<lambda>(k, m). mt_lease m = None) (br_terminals demo_opened)" by code_simp+
  then show "fresh_lease ''l'' demo_opened"
    by (auto simp: fresh_lease_def list_all_iff dest!: map_of_SomeD)
qed

lemma demo_runs: "(terminal_step demo_env)\<^sup>*\<^sup>* demo_broker demo_leased" "(terminal_step demo_env)\<^sup>*\<^sup>* demo_broker demo_typed"
  "(terminal_step demo_env)\<^sup>*\<^sup>* demo_watched demo_seen"
proof -
  have "terminal_step demo_env demo_broker demo_queued" "terminal_step demo_env demo_queued demo_hired"
    "terminal_step demo_env demo_hired demo_opened" "terminal_step demo_env demo_opened demo_leased" "terminal_step demo_env demo_leased demo_typed"
    using demo_guards by (simp_all add: demo_queued_def demo_hired_def demo_opened_def demo_leased_def demo_typed_def opens spawns opened acquires inputs)
  then show "(terminal_step demo_env)\<^sup>*\<^sup>* demo_broker demo_leased" "(terminal_step demo_env)\<^sup>*\<^sup>* demo_broker demo_typed"
    by (meson converse_rtranclp_into_rtranclp rtranclp.rtrancl_refl)+
  have "terminal_step demo_env demo_watched (lease_timer (demo_at 20) ''t'' demo_watched)"
    "terminal_step demo_env (lease_timer (demo_at 20) ''t'' demo_watched) demo_seen" by (simp_all add: demo_seen_def expires reads)
  then show "(terminal_step demo_env)\<^sup>*\<^sup>* demo_watched demo_seen" by (meson converse_rtranclp_into_rtranclp rtranclp.rtrancl_refl)
qed

lemma demo_attach: "attach (demo_at 7) demo_target ''t'' None False demo_typed = (Inr (), demo_watched)"
proof -
  have "fst (attach (demo_at 7) demo_target ''t'' None False demo_typed) = Inr ()" by code_simp
  then show ?thesis by (simp add: demo_watched_def prod_eq_iff)
qed

lemma demo_watch:
  "let b = demo_seen; u = br_attachments b ! 0 in br_attachments demo_typed = [] \<and> map_of (br_terminals b) ''t'' \<noteq> None \<and>
     tu_live u \<and> \<not> mq_closed (tu_queue u) \<and> mt_sequence (the (map_of (br_terminals b) ''t'')) = 3"
  by code_simp

end
