(* ===== verification/Terminal_Subscriber.thy ===== *)
theory Terminal_Subscriber
  imports Terminal_Stream Terminal_Demo
begin

text \<open>
  A subscriber of a terminal is given what the terminal publishes from a cursor on, from a screen on or from its
  first item on, in order and without a gap, whatever else the broker does.
\<close>

subsection \<open>Streams against the log of the terminal\<close>

text \<open>Items that lead through the log \<open>L\<close> from position \<open>n\<close> to \<open>e\<close>, with heartbeats in between.\<close>

fun trails :: "terminal_item list \<Rightarrow> nat \<Rightarrow> terminal_item list \<Rightarrow> nat \<Rightarrow> bool" where
  "trails L n [] e \<longleftrightarrow> e = n"
| "trails L n (x # xs) e \<longleftrightarrow>
     (case x of TerminalBeat c \<Rightarrow> tcu_sequence c = n \<and> trails L n xs e
      | _ \<Rightarrow> n < length L \<and> L ! n = x \<and> trails L (Suc n) xs e)"

lemma trails_beat [simp]: "trails L n (TerminalBeat c # xs) e \<longleftrightarrow> tcu_sequence c = n \<and> trails L n xs e"
  by simp

lemma trails_plain: "plain_item x \<Longrightarrow> trails L n (x # xs) e \<longleftrightarrow> n < length L \<and> L ! n = x \<and> trails L (Suc n) xs e"
  by (cases x) simp_all

lemma trails_nil [simp]: "trails L n [] e \<longleftrightarrow> e = n"
  by simp

lemma trails_append: "trails L n xs i \<Longrightarrow> trails L i ys e \<Longrightarrow> trails L n (xs @ ys) e"
  by (induction xs arbitrary: n) (auto split: terminal_item.splits)

lemma trails_grow: "trails L n xs e \<Longrightarrow> trails (L @ [x]) n xs e"
  by (induction xs arbitrary: n) (auto simp: nth_append split: terminal_item.splits)

declare trails.simps(2) [simp del]

lemma trails_step: "plain_item x \<Longrightarrow> trails L n xs (length L) \<Longrightarrow> trails (L @ [x]) n (xs @ [x]) (Suc (length L))"
  by (rule trails_append [OF trails_grow, of _ _ _ "length L"]) (simp_all add: trails_plain)

lemma trails_drop: "\<forall>x \<in> set L. plain_item x \<Longrightarrow> n \<le> length L \<Longrightarrow> trails L n (drop n L) (length L)"
proof (induction "length L - n" arbitrary: n)
  case (Suc k)
  then have "n < length L" by simp
  then have "drop n L = L ! n # drop (Suc n) L" "plain_item (L ! n)" using Suc.prems by (simp_all add: Cons_nth_drop_Suc)
  moreover have "trails L (Suc n) (drop (Suc n) L) (length L)" by (rule Suc.hyps(1)) (use Suc.hyps(2) Suc.prems \<open>n < length L\<close> in simp_all)
  ultimately show ?case using \<open>n < length L\<close> by (simp add: trails_plain)
qed simp

text \<open>How a stream may open: with a screen, with the whole log in larger pieces, or at the cursor asked for.\<close>

fun is_reset :: "terminal_item list \<Rightarrow> nat \<Rightarrow> bool" where
  "is_reset [ScreenReset r c s t] n \<longleftrightarrow> tcu_sequence c = n"
| "is_reset xs n \<longleftrightarrow> False"

fun is_replay :: "terminal_dimensions \<Rightarrow> terminal_item list \<Rightarrow> terminal_item list \<Rightarrow> nat \<Rightarrow> bool" where
  "is_replay d L (ReplayStart c d' t # xs) n \<longleftrightarrow> d' = d \<and> tcu_sequence c = 0 \<and> xs \<noteq> [] \<and>
     butlast xs = exact_items d None (take n L) \<and> (case last xs of ReplayEnd c' t' \<Rightarrow> tcu_sequence c' = n | _ \<Rightarrow> False)"
| "is_replay d L xs n \<longleftrightarrow> False"

definition opens :: "terminal_dimensions \<Rightarrow> terminal_item list \<Rightarrow> nat option \<Rightarrow> terminal_item list \<Rightarrow> nat \<Rightarrow> bool" where
  "opens d L wanted xs n \<longleftrightarrow> n \<le> length L \<and>
     (is_reset xs n \<or> (case wanted of None \<Rightarrow> is_replay d L xs n | Some s \<Rightarrow> xs = [] \<and> n = s))"

lemma replay_grow: "is_replay d L xs n \<Longrightarrow> n \<le> length L \<Longrightarrow> is_replay d (L @ [x]) xs n"
  by (cases "(d, L, xs, n)" rule: is_replay.cases) simp_all

lemma opens_grow: "opens d L w xs n \<Longrightarrow> opens d (L @ [x]) w xs n"
  using replay_grow by (auto simp: opens_def split: option.splits)

subsection \<open>Where a subscription stands\<close>

definition led :: "terminal_dimensions \<Rightarrow> terminal_item list \<Rightarrow> nat option \<Rightarrow> terminal_attachment \<Rightarrow> bool" where
  "led d L w u \<longleftrightarrow> (\<exists>vs. async.faithful vs (tu_queue u) \<and>
     (tu_prefix u \<noteq> [] \<longrightarrow> taken (tu_queue u) = [] \<and> mq_waiters (tu_queue u) = 0) \<and>
     (tu_read u @ tu_prefix u @ vs = [] \<and> \<not> tu_live u \<or>
      tu_reset u = None \<and> (\<exists>xs n rest e. tu_read u @ tu_prefix u @ vs = xs @ rest \<and> opens d L w xs n \<and> trails L n rest e \<and>
        (tu_live u \<longrightarrow> e = length L))))"

lemma led_begun:
  assumes "async.faithful vs (tu_queue u)" "tu_prefix u \<noteq> [] \<Longrightarrow> taken (tu_queue u) = [] \<and> mq_waiters (tu_queue u) = 0"
    and "tu_reset u = None" "tu_read u @ tu_prefix u @ vs = xs @ rest" "opens d L w xs n" "trails L n rest e"
    and "tu_live u \<Longrightarrow> e = length L"
  shows "led d L w u"
  unfolding led_def by (intro exI [of _ vs] conjI disjI2 exI [of _ xs] exI [of _ n] exI [of _ rest] exI [of _ e]) (use assms in simp_all)

lemma led_cases:
  assumes "led d L w u"
  obtains (waits) "async.faithful [] (tu_queue u)" "tu_prefix u = []" "tu_read u = []" "\<not> tu_live u"
  | (begun) vs xs n rest e where "async.faithful vs (tu_queue u)"
      "tu_prefix u \<noteq> [] \<Longrightarrow> taken (tu_queue u) = [] \<and> mq_waiters (tu_queue u) = 0" "tu_reset u = None"
      "tu_read u @ tu_prefix u @ vs = xs @ rest" "opens d L w xs n" "trails L n rest e" "tu_live u \<Longrightarrow> e = length L"
proof -
  obtain vs where vs: "async.faithful vs (tu_queue u)" "tu_prefix u \<noteq> [] \<longrightarrow> taken (tu_queue u) = [] \<and> mq_waiters (tu_queue u) = 0"
     "tu_read u @ tu_prefix u @ vs = [] \<and> \<not> tu_live u \<or>
      tu_reset u = None \<and> (\<exists>xs n rest e. tu_read u @ tu_prefix u @ vs = xs @ rest \<and> opens d L w xs n \<and> trails L n rest e \<and>
        (tu_live u \<longrightarrow> e = length L))" using assms unfolding led_def by blast
  from vs(3) show thesis
  proof (elim disjE conjE exE)
    assume "tu_read u @ tu_prefix u @ vs = []" "\<not> tu_live u"
    with vs(1) show thesis by (intro waits) simp_all
  next
    fix xs n rest e
    assume "tu_reset u = None" "tu_read u @ tu_prefix u @ vs = xs @ rest" "opens d L w xs n" "trails L n rest e"
      "tu_live u \<longrightarrow> e = length L"
    with vs(1,2) show thesis by (intro begun [of vs xs rest n e]) simp_all
  qed
qed

lemma led_waiting:
  "async.faithful [] (tu_queue u) \<Longrightarrow> tu_prefix u = [] \<Longrightarrow> tu_read u = [] \<Longrightarrow> \<not> tu_live u \<Longrightarrow> led d L w u"
  unfolding led_def by (intro exI [of _ "[]"]) simp

lemma led_grow:
  assumes "led d L w u" "\<not> tu_live u"
  shows "led d (L @ [x]) w u"
  using assms(1)
proof (cases rule: led_cases)
  case (begun vs xs n rest e)
  show ?thesis by (rule led_begun [OF begun(1-4) opens_grow [OF begun(5)] trails_grow [OF begun(6)]]) (use assms(2) in simp_all)
qed (rule led_waiting)

lemma push_unread:
  assumes "mq_waiters q = 0"
  shows "taken (async_push x q) = taken q" "mq_waiters (async_push x q) = 0"
  using assms by (simp_all add: async_push_def queue_push_def async_close_def taken_def)

lemma led_push:
  assumes "led d L w u" "tu_live u" "plain_item x"
  shows "led d (L @ [x]) w (u\<lparr>tu_queue := async_push x (tu_queue u)\<rparr>)"
  using assms(1)
proof (cases rule: led_cases)
  case (begun vs xs n rest e)
  show ?thesis
  proof (rule led_begun [where vs = "vs @ [x]" and xs = xs and n = n and rest = "rest @ [x]" and e = "Suc (length L)"])
    show "trails (L @ [x]) n (rest @ [x]) (Suc (length L))" by (rule trails_step [OF assms(3)]) (use begun(6,7) assms(2) in simp)
    have "(tu_read u @ tu_prefix u @ vs) @ [x] = xs @ rest @ [x]" using begun(4) by simp
    then show "tu_read (u\<lparr>tu_queue := async_push x (tu_queue u)\<rparr>) @ tu_prefix (u\<lparr>tu_queue := async_push x (tu_queue u)\<rparr>) @ vs @ [x] = xs @ rest @ [x]"
      by simp
  qed (use begun in \<open>simp_all add: push_unread async.faithful_push opens_grow\<close>)
qed (use assms(2) in simp)

lemma led_beat:
  assumes "led d L w u" "tu_live u" "tcu_sequence c = length L"
  shows "led d L w (u\<lparr>tu_queue := async_push (TerminalBeat c) (tu_queue u)\<rparr>)"
  using assms(1)
proof (cases rule: led_cases)
  case (begun vs xs n rest e)
  let ?x = "TerminalBeat c"
  show ?thesis
  proof (rule led_begun [where vs = "vs @ [?x]" and xs = xs and n = n and rest = "rest @ [?x]" and e = "length L"])
    show "trails L n (rest @ [?x]) (length L)" by (rule trails_append [of L n rest "length L"]) (use begun(6,7) assms(2,3) in simp_all)
    have "(tu_read u @ tu_prefix u @ vs) @ [?x] = xs @ rest @ [?x]" using begun(4) by simp
    then show "tu_read (u\<lparr>tu_queue := async_push ?x (tu_queue u)\<rparr>) @ tu_prefix (u\<lparr>tu_queue := async_push ?x (tu_queue u)\<rparr>) @ vs @ [?x] = xs @ rest @ [?x]"
      by simp
  qed (use begun in \<open>simp_all add: push_unread async.faithful_push\<close>)
qed (use assms(2) in simp)

lemma led_close:
  assumes "led d L w u"
  shows "led d L w (close_attachment r u)"
proof -
  have closed: "taken (async_close r q) = taken q" "mq_waiters q = 0 \<Longrightarrow> mq_waiters (async_close r q) = 0" for q :: "terminal_item mail_queue"
    by (auto simp: async_close_def taken_def)
  from assms show ?thesis
  proof (cases rule: led_cases)
    case waits
    then show ?thesis by (intro led_waiting) (simp_all add: close_attachment_def async.faithful_close)
  next
    case (begun vs xs n rest e)
    show ?thesis
      by (rule led_begun [where vs = vs and xs = xs and n = n and rest = rest and e = e])
        (use begun closed in \<open>simp_all add: close_attachment_def async.faithful_close\<close>)
  qed
qed

lemma led_next:
  assumes "led d L w u"
  shows "led d L w (attachment_next u)"
  using assms
proof (cases rule: led_cases)
  case waits
  then show ?thesis by (intro led_waiting) (simp_all add: attachment_next_def async.faithful_pull)
next
  case (begun vs xs n rest e)
  show ?thesis
    by (rule led_begun [where vs = vs and xs = xs and n = n and rest = rest and e = e])
      (use begun in \<open>auto simp: attachment_next_def async.faithful_pull split: list.splits\<close>)
qed

lemma led_live: "led d L w (u\<lparr>tu_live := True\<rparr>) \<Longrightarrow> led d L w (go_live m u)"
proof -
  assume "led d L w (u\<lparr>tu_live := True\<rparr>)"
  then have "led d L w (close_attachment None (u\<lparr>tu_live := True\<rparr>))" by (rule led_close)
  then have "led d L w (close_attachment None u)" by (simp add: close_attachment_def)
  with \<open>led d L w (u\<lparr>tu_live := True\<rparr>)\<close> show ?thesis by (simp add: go_live_def)
qed

lemma led_rewait: "led d L w u \<Longrightarrow> tu_reset u \<noteq> None \<Longrightarrow> led d L w (u\<lparr>tu_reset := r\<rparr>)"
  by (cases rule: led_cases [of d L w u]) (simp_all add: led_waiting)

text \<open>A reset at the terminal's present position opens the stream.\<close>

lemma led_reset:
  assumes "led d L w u" "tu_reset u \<noteq> None" "x = ScreenReset r c s t" "tcu_sequence c = length L"
  shows "led d L w (go_live m (u\<lparr>tu_reset := None, tu_queue := async_push x (tu_queue u)\<rparr>))"
proof (rule led_live)
  have u: "async.faithful [] (tu_queue u)" "tu_prefix u = []" "tu_read u = []" using assms(1,2) by (auto simp: led_def)
  have "async.faithful [x] (async_push x (tu_queue u))" using async.faithful_push [OF u(1), of x] by simp
  moreover have "opens d L w [x] (length L)" by (simp add: opens_def assms(3,4))
  ultimately show "led d L w (u\<lparr>tu_reset := None, tu_queue := async_push x (tu_queue u)\<rparr>\<lparr>tu_live := True\<rparr>)"
    by (intro led_begun [where vs = "[x]" and xs = "[x]" and n = "length L" and rest = "[]" and e = "length L"]) (simp_all add: u(2,3))
qed

subsection \<open>How a subscription begins\<close>

lemma later_items:
  assumes "log_ok m" "j \<le> s" "s \<le> length (mt_published m)"
  shows "filter (\<lambda>i. s < item_number i) (drop j (mt_published m)) = drop s (mt_published m)"
proof -
  let ?L = "mt_published m"
  have "drop j ?L = take (s - j) (drop j ?L) @ drop s ?L"
    using assms(2) append_take_drop_id [of "s - j" "drop j ?L"] by simp
  moreover have "item_number x \<le> s" if "x \<in> set (take (s - j) (drop j ?L))" for x
    using that log_number [OF assms(1)] assms(2,3) by (auto simp: in_set_conv_nth)
  moreover have "s < item_number x" if "x \<in> set (drop s ?L)" for x
    using that log_number [OF assms(1)] by (auto simp: in_set_conv_nth)
  ultimately show ?thesis
    by (metis (no_types, lifting) append_Nil filter_False filter_True filter_append linorder_not_less)
qed

lemma replay_whole:
  assumes "terminal_ok m" "complete_replay wanted m b"
  shows "map fst (mt_replay m) = mt_published m" "wanted = None"
proof -
  obtain j where j: "j \<le> length (mt_published m)" "map fst (mt_replay m) = drop j (mt_published m)"
    using assms(1) by (auto simp: terminal_ok_def replay_ok_def)
  have log: "log_ok m" using assms(1) by (simp add: terminal_ok_def)
  have "j = 0" if some: "mt_sequence m \<noteq> 0"
  proof -
    obtain e es where e: "mt_replay m = e # es" "item_number (fst e) = 1"
      using assms(2) some by (auto simp: complete_replay_def item_number_def split: list.splits)
    then have "drop j (mt_published m) = fst e # map fst es" using j(2) by simp
    then have "j < length (mt_published m)" "mt_published m ! j = fst e" by (cases "j < length (mt_published m)"; simp add: nth_via_drop)+
    then show ?thesis using log_number [OF log] e(2) by force
  qed
  then show "map fst (mt_replay m) = mt_published m" using j log_length [OF log] by (cases "mt_sequence m") auto
  show "wanted = None" using assms(2) by (simp add: complete_replay_def)
qed

lemma replay_due:
  assumes "terminal_ok m" "reset_reason_of (Some s) m = None"
  shows "filter (\<lambda>i. s < item_number i) (map fst (mt_replay m)) = drop s (mt_published m)" "s \<le> length (mt_published m)"
proof -
  have log: "log_ok m" using assms(1) by (simp add: terminal_ok_def)
  obtain j where j: "j \<le> length (mt_published m)" "map fst (mt_replay m) = drop j (mt_published m)"
    using assms(1) by (auto simp: terminal_ok_def replay_ok_def)
  have s: "s \<le> length (mt_published m)" using assms(2) log_length [OF log] by (simp add: reset_reason_of_def split: if_splits)
  then show "s \<le> length (mt_published m)" .
  have "j \<le> s"
  proof (cases "s < length (mt_published m)")
    case True
    then obtain e es where e: "mt_replay m = e # es" "item_number (fst e) \<le> Suc s"
      using assms(2) log_length [OF log]
      by (auto simp: reset_reason_of_def item_number_def split: list.splits if_splits)
    then have "drop j (mt_published m) = fst e # map fst es" using j(2) by simp
    then have "j < length (mt_published m)" "mt_published m ! j = fst e" by (cases "j < length (mt_published m)"; simp add: nth_via_drop)+
    then show ?thesis using log_number [OF log] e(2) by force
  qed (use s j in simp)
  then show "filter (\<lambda>i. s < item_number i) (map fst (mt_replay m)) = drop s (mt_published m)"
    using later_items [OF log _ s] j(2) by simp
qed

lemma led_start:
  assumes "terminal_ok m"
  shows "led (mt_initialDimensions m) (mt_published m) wanted (start_attachment wanted m b)"
proof -
  let ?u = "new_attachment m" and ?L = "mt_published m" and ?d = "mt_initialDimensions m"
  have new: "async.faithful [] (tu_queue ?u)" "tu_read ?u = []" "taken (tu_queue ?u) = []" "tu_reset ?u = None" "tu_prefix ?u = []"
      "\<not> tu_live ?u"
    by (simp_all add: new_attachment_def new_async_faithful)
  have idle: "mq_waiters (tu_queue ?u) = 0" by (simp add: new_attachment_def new_queue_def)
  have log: "log_ok m" using assms by (simp add: terminal_ok_def)
  have plain: "\<forall>x \<in> set ?L. plain_item x" using log by (simp add: log_ok_def)
  show ?thesis
  proof (cases "complete_replay wanted m b")
    case True
    let ?xs = "ReplayStart \<lparr>tcu_terminalId = mt_terminalId m, tcu_sequence = 0\<rparr> ?d (descriptor m) # exactReplayItems m @ [ReplayEnd (here m) (descriptor m)]"
    have "opens ?d ?L wanted ?xs (length ?L)"
      using replay_whole [OF assms True] log_length [OF log] by (simp add: opens_def exactReplayItems_def here_def)
    then have "led ?d ?L wanted (?u\<lparr>tu_prefix := ?xs\<rparr>\<lparr>tu_live := True\<rparr>)"
      by (intro led_begun [where vs = "[]" and xs = ?xs and n = "length ?L" and rest = "[]" and e = "length ?L"]) (simp_all add: new idle)
    then show ?thesis using True by (simp add: start_attachment_def Let_def led_live)
  next
    case False
    show ?thesis
    proof (cases "reset_reason_of wanted m")
      case None
      then obtain s where s: "wanted = Some s" by (cases wanted) (simp_all add: reset_reason_of_def)
      note due = replay_due [OF assms None [unfolded s]]
      have "opens ?d ?L wanted [] s" "trails ?L s (drop s ?L) (length ?L)" using due(2) s trails_drop [OF plain due(2)] by (simp_all add: opens_def)
      then have "led ?d ?L wanted (?u\<lparr>tu_prefix := drop s ?L\<rparr>\<lparr>tu_live := True\<rparr>)"
        by (intro led_begun [where vs = "[]" and xs = "[]" and n = s and rest = "drop s ?L" and e = "length ?L"]) (simp_all add: new idle)
      then show ?thesis using False None due(1) s by (simp add: start_attachment_def Let_def led_live item_number_def)
    next
      case (Some reason)
      have "led ?d ?L wanted (?u\<lparr>tu_reset := Some (reason, mt_lastOutputSequence m)\<rparr>)" by (rule led_waiting) (simp_all add: new idle)
      then show ?thesis using False Some by (simp add: start_attachment_def Let_def)
    qed
  qed
qed

subsection \<open>At all times\<close>

definition log_of :: "broker \<Rightarrow> string \<Rightarrow> (terminal_dimensions \<times> terminal_item list) option" where
  "log_of b k = map_option (\<lambda>m. (mt_initialDimensions m, mt_published m)) (map_of (br_terminals b) k)"

definition stream_inv :: "string \<Rightarrow> nat option \<Rightarrow> nat \<Rightarrow> broker \<Rightarrow> bool" where
  "stream_inv k w i b \<longleftrightarrow> base_ok b \<and> i < length (br_attachments b) \<and> tu_terminalId (br_attachments b ! i) = k \<and>
     (\<exists>d L. log_of b k = Some (d, L) \<and> led d L w (br_attachments b ! i))"

lemma inv_same:
  assumes "stream_inv k w i b" "base_ok c" "log_of c k = log_of b k" "i < length (br_attachments c)"
    and "br_attachments c ! i = br_attachments b ! i"
  shows "stream_inv k w i c"
  using assms by (simp add: stream_inv_def)

lemma inv_frame:
  assumes "stream_inv k w i b" "base_ok c" "br_terminals c = br_terminals b" "br_attachments c = br_attachments b"
  shows "stream_inv k w i c"
  by (rule inv_same [OF assms(1,2)]) (use assms in \<open>simp_all add: log_of_def stream_inv_def\<close>)

lemma inv_edit:
  assumes "stream_inv k w i b" "base_ok (edit_terminal j f b)"
    and "\<And>m. mt_initialDimensions (f m) = mt_initialDimensions m \<and> mt_published (f m) = mt_published m"
  shows "stream_inv k w i (edit_terminal j f b)"
  by (rule inv_same [OF assms(1,2)])
    (use assms(1,3) in \<open>auto simp: log_of_def edit_terminal_of option.map_comp comp_def stream_inv_def\<close>)

lemma inv_attachment:
  assumes "stream_inv k w i b" "base_ok (edit_attachment j f b)"
    and "\<And>d L. j = i \<Longrightarrow> log_of b k = Some (d, L) \<Longrightarrow> led d L w (br_attachments b ! i) \<Longrightarrow>
      led d L w (f (br_attachments b ! i)) \<and> tu_terminalId (f (br_attachments b ! i)) = k"
  shows "stream_inv k w i (edit_attachment j f b)"
proof -
  have log: "log_of (edit_attachment j f b) k = log_of b k" by (simp add: log_of_def)
  have len: "length (br_attachments (edit_attachment j f b)) = length (br_attachments b)" by (simp add: edit_attachment_def)
  show ?thesis
  proof (cases "j = i")
    case True
    then have "br_attachments (edit_attachment j f b) ! i = f (br_attachments b ! i)"
      using assms(1) by (simp add: edit_attachment_def stream_inv_def)
    then show ?thesis using assms True log len unfolding stream_inv_def by auto
  next
    case False
    then have "br_attachments (edit_attachment j f b) ! i = br_attachments b ! i" by (simp add: edit_attachment_def)
    then show ?thesis by (intro inv_same [OF assms(1,2) log]) (use assms(1) len in \<open>simp_all add: stream_inv_def\<close>)
  qed
qed

lemma inv_emit:
  assumes "stream_inv k w i b" "publishes f item"
  shows "stream_inv k w i (emit_item at j f item bytes b)"
proof -
  let ?c = "emit_item at j f item bytes b"
  have c: "base_ok ?c" using assms base_emit by (simp add: stream_inv_def)
  obtain m where m: "map_of (br_terminals b) k = Some m" "i < length (br_attachments b)" "tu_terminalId (br_attachments b ! i) = k"
      "led (mt_initialDimensions m) (mt_published m) w (br_attachments b ! i)"
    using assms(1) by (auto simp: stream_inv_def log_of_def)
  show ?thesis
  proof (cases "j = k")
    case True
    let ?x = "item (f (numbered at m))" and ?u = "br_attachments b ! i"
    have log: "log_of ?c k = Some (mt_initialDimensions m, mt_published m @ [?x])"
      using True m(1) publishes_frame [OF assms(2), of "numbered at m"] by (simp add: log_of_def emit_terminal numbered_def)
    have u: "br_attachments ?c ! i = (if tu_live ?u then ?u\<lparr>tu_queue := async_push ?x (tu_queue ?u)\<rparr> else ?u)"
      using True m(1-3) by (simp add: emit_attachments)
    have "led (mt_initialDimensions m) (mt_published m @ [?x]) w (br_attachments ?c ! i)"
      using led_push [OF m(4) _ publishes_frame(10) [OF assms(2)]] led_grow [OF m(4)] by (simp add: u)
    moreover have "tu_terminalId (br_attachments ?c ! i) = k" using m(3) by (simp add: u)
    moreover have "i < length (br_attachments ?c)" using True m(1,2) by (simp add: emit_attachments)
    ultimately show ?thesis using c log by (simp add: stream_inv_def)
  next
    case False
    show ?thesis
      by (rule inv_same [OF assms(1) c])
        (use False m in \<open>auto simp: log_of_def emit_terminal emit_attachments split: option.split\<close>)
  qed
qed

lemma inv_close: "stream_inv k w i b \<Longrightarrow> base_ok (close_subscribers j b) \<Longrightarrow> stream_inv k w i (close_subscribers j b)"
  by (auto simp: stream_inv_def log_of_def close_subscribers_def led_close) (simp_all add: close_attachment_def)

lemma inv_found: "stream_inv k w i b \<Longrightarrow> map_of (br_terminals b) k = Some m \<Longrightarrow>
    led (mt_initialDimensions m) (mt_published m) w (br_attachments b ! i) \<and> length (mt_published m) = mt_sequence m"
  using base_named log_length by (auto simp: stream_inv_def log_of_def terminal_ok_def)

lemma attachment_frames [simp]:
  "tu_terminalId (close_attachment r u) = tu_terminalId u" "tu_terminalId (attachment_next u) = tu_terminalId u"
  by (simp_all add: close_attachment_def attachment_next_def split: list.split)

interpretation stream0: broker_calm "stream_inv k w i" for k w i
proof
  fix b assume inv: "stream_inv k w i b"
  then have b: "base_ok b" by (simp add: stream_inv_def)
  show "stream_inv k w i (changed at j b)" for at j
    unfolding changed_def by (rule inv_emit [OF inv publishes_ops(1)])
  show "frame \<noteq> [] \<Longrightarrow> length frame \<le> maxFrameBytes \<Longrightarrow> stream_inv k w i (accept_frame at j frame b)" for at j frame
    unfolding accept_frame_def by (rule inv_emit [OF inv publishes_ops(3)])
  show "stream_inv k w i (changed at j (edit_terminal j (resized_to d) b))" for at j d
    unfolding resize_publishes by (rule inv_emit [OF inv publishes_ops(2)])
  show "side_edit f \<Longrightarrow> stream_inv k w i (edit_terminal j f b)" for j f
    by (rule inv_edit [OF inv base0.edited [OF b]]) (simp_all add: side_edit_def)
  show "stream_inv k w i (edit_terminal j (\<lambda>m. m\<lparr>mt_lease := None\<rparr>) b)" for j
    by (rule inv_edit [OF inv base0.unleased [OF b]]) simp
  show "stream_inv k w i (edit_terminal j (\<lambda>m. m\<lparr>mt_state := TExited, mt_exit := x\<rparr>) b)" for j x
    by (rule inv_edit [OF inv base0.exited [OF b]]) simp
  show "stream_inv k w i (edit_terminal j (\<lambda>m. m\<lparr>mt_disposed := True\<rparr>) b)" for j
    by (rule inv_edit [OF inv base0.any_disposed [OF b]]) simp
  then show "stream_inv k w i (edit_terminal j (\<lambda>m. m\<lparr>mt_disposed := True\<rparr>) b)" for j .
  show "stream_inv k w i (close_subscribers j b)" for j by (rule inv_close [OF inv base0.subscribers_closed [OF b]])
  show "stream_inv k w i (edit_pty p (release_exit j) b)" for p j by (rule inv_frame [OF inv base_pty [OF b]]) simp_all
  show "stream_inv k w i (edit_pty p g b)" "stream_inv k w i (edit_pty p g b)" for p g
    by (rule inv_frame [OF inv base_pty [OF b]]; simp)+
  show "stream_inv k w i (b\<lparr>br_bySession := del s (br_bySession b)\<rparr>)" for s
    by (rule inv_frame [OF inv base0.unregistered [OF b]]) simp_all
  show "stream_inv k w i (b\<lparr>br_byScope := sc\<rparr>)" for sc by (rule inv_frame [OF inv base0.rescoped [OF b]]) simp_all
  show "stream_inv k w i (b\<lparr>br_bySession := [], br_byScope := [], br_acquireReceipts := []\<rparr>)"
    by (rule inv_frame [OF inv base0.emptied [OF b]]) simp_all
qed

interpretation stream: broker_run "stream_inv k w i" te for k w i te
proof
  fix b assume inv: "stream_inv k w i b"
  then have b: "base_ok b" by (simp add: stream_inv_def)
  have k: "has k (br_terminals b)" using inv by (auto simp: stream_inv_def log_of_def has_def)
  show "map_of (br_terminals b) j = Some m \<Longrightarrow> mt_terminalId m = j" for j m by (rule base.named [OF b])
  show "map_of (br_opening b) lock = Some job \<Longrightarrow> oj_current job = Some c \<Longrightarrow> idle_terminal c b" for lock job c
    by (rule base.queued_idle [OF b])
  show "stream_inv k w i (b\<lparr>br_pendingProcessOpens := n\<rparr>)" for n by (rule inv_frame [OF inv base.counted [OF b]]) simp_all
  show "stream_inv k w i (b\<lparr>br_acquireReceipts := t\<rparr>)" for t by (rule inv_frame [OF inv base.receipt_kept [OF b]]) simp_all
  show "stream_inv k w i (b\<lparr>br_closed := True\<rparr>)" by (rule inv_frame [OF inv base.closing [OF b]]) simp_all
  show "\<not> has p (br_ptys b) \<Longrightarrow> stream_inv k w i (b\<lparr>br_ptys := put p fresh_pty (br_ptys b)\<rparr>)" for p
    by (rule inv_frame [OF inv base.spawned [OF b]]) simp_all
  show "(\<And>c. oj_current job = Some c \<Longrightarrow> stopped c b) \<Longrightarrow> stream_inv k w i (b\<lparr>br_opening := put lock job (br_opening b)\<rparr>)" for job lock
    by (rule inv_frame [OF inv base.queued [OF b]]) simp_all
  show "stream_inv k w i (b\<lparr>br_opening := del lock (br_opening b)\<rparr>)" for lock
    by (rule inv_frame [OF inv base.unqueued [OF b]]) simp_all
  show "\<not> has j (br_terminals b) \<Longrightarrow> stream_inv k w i (b\<lparr>br_terminals := put j (new_terminal at j job p b) (br_terminals b)\<rparr>)" for j at job p
    by (rule inv_same [OF inv base.added [OF b]]) (use inv k in \<open>auto simp: log_of_def stream_inv_def\<close>)
  show "map_of (br_terminals b) j = Some m \<Longrightarrow> mt_process m = p \<Longrightarrow> \<not> mt_disposed m \<Longrightarrow> map_of (br_ptys b) p = Some y \<Longrightarrow>
      py_exitListener y = None \<Longrightarrow> stream_inv k w i (register_terminal j job (edit_pty p (\<lambda>y. y\<lparr>py_exitListener := Some j\<rparr>) b))" for j m p y job
    by (rule inv_frame [OF inv base.hired [OF b]]) (simp_all add: register_terminal_def)
  show "map_of (br_terminals b) j = Some m \<Longrightarrow> u = start_attachment wanted m b \<or> u = close_attachment None (new_attachment m) \<Longrightarrow>
      stream_inv k w i (b\<lparr>br_attachments := br_attachments b @ [u]\<rparr>)" for j m u wanted
    by (rule inv_same [OF inv base.attached [OF b]]) (use inv in \<open>simp_all add: log_of_def stream_inv_def nth_append\<close>)
  show "stream_inv k w i (edit_attachment j (close_attachment None) b)" for j
    by (rule inv_attachment [OF inv base.attachment_closed [OF b]]) (use inv in \<open>simp add: led_close stream_inv_def\<close>)
  show "stream_inv k w i (edit_attachment j attachment_next b)" for j
    by (rule inv_attachment [OF inv base.read [OF b]]) (use inv in \<open>simp add: led_next stream_inv_def\<close>)
  show "stream_inv k w i (edit_attachment j (\<lambda>u. go_live m (u\<lparr>tu_reset := None, tu_queue := async_push (resetItem te reason m) (tu_queue u)\<rparr>)) b)"
    if "j < length (br_attachments b)" and r: "tu_reset (br_attachments b ! j) = Some (reason, n)"
      and m: "map_of (br_terminals b) (tu_terminalId (br_attachments b ! j)) = Some m" for j m reason n te
  proof (rule inv_attachment [OF inv base.reset_sent [OF b that]])
    fix d L assume j: "j = i" and log: "log_of b k = Some (d, L)" and led: "led d L w (br_attachments b ! i)"
    have "map_of (br_terminals b) k = Some m" using m j inv by (simp add: stream_inv_def)
    then have "mt_sequence m = length L" using inv_found [OF inv] log by (simp add: log_of_def)
    then have "led d L w (go_live m ((br_attachments b ! i)\<lparr>tu_reset := None, tu_queue := async_push (resetItem te reason m) (tu_queue (br_attachments b ! i))\<rparr>))"
      by (intro led_reset [OF led _ resetItem_def]) (use r j in \<open>simp_all add: here_def\<close>)
    then show "led d L w (go_live m ((br_attachments b ! i)\<lparr>tu_reset := None, tu_queue := async_push (resetItem te reason m) (tu_queue (br_attachments b ! i))\<rparr>)) \<and>
        tu_terminalId (go_live m ((br_attachments b ! i)\<lparr>tu_reset := None, tu_queue := async_push (resetItem te reason m) (tu_queue (br_attachments b ! i))\<rparr>)) = k"
      using inv by (simp add: go_live_frame stream_inv_def)
  qed
  show "stream_inv k w i (edit_attachment j (\<lambda>u. u\<lparr>tu_reset := Some (reason, n')\<rparr>) b)"
    if "j < length (br_attachments b)" and r: "tu_reset (br_attachments b ! j) = Some (reason, n)" for j reason n n'
    by (rule inv_attachment [OF inv base.reset_waits [OF b that]]) (use inv r in \<open>simp add: led_rewait stream_inv_def\<close>)
  show "stream_inv k w i (edit_attachment j (\<lambda>u. close_attachment None (u\<lparr>tu_reset := None\<rparr>)) b)"
    if "j < length (br_attachments b)" and r: "tu_reset (br_attachments b ! j) = Some (reason, n)" for j reason n
    by (rule inv_attachment [OF inv base.reset_dropped [OF b that]])
      (use inv r in \<open>simp add: led_close led_rewait stream_inv_def\<close>)
  show "stream_inv k w i (edit_attachment j (\<lambda>u. u\<lparr>tu_queue := async_push (TerminalBeat (here m)) (tu_queue u)\<rparr>) b)"
    if "j < length (br_attachments b)" and live: "tu_live (br_attachments b ! j)"
      and m: "map_of (br_terminals b) (tu_terminalId (br_attachments b ! j)) = Some m" for j m
  proof (rule inv_attachment [OF inv base.beaten [OF b that]])
    fix d L assume j: "j = i" and log: "log_of b k = Some (d, L)" and led: "led d L w (br_attachments b ! i)"
    have "map_of (br_terminals b) k = Some m" using m j inv by (simp add: stream_inv_def)
    then have "mt_sequence m = length L" using inv_found [OF inv] log by (simp add: log_of_def)
    then show "led d L w ((br_attachments b ! i)\<lparr>tu_queue := async_push (TerminalBeat (here m)) (tu_queue (br_attachments b ! i))\<rparr>) \<and>
        tu_terminalId ((br_attachments b ! i)\<lparr>tu_queue := async_push (TerminalBeat (here m)) (tu_queue (br_attachments b ! i))\<rparr>) = k"
      using led_beat [OF led] live j inv by (simp add: here_def stream_inv_def)
  qed
  show "stream_inv k w i (edit_terminal j (\<lambda>m. m\<lparr>mt_lease := Some l\<rparr>) b)" for j l
    by (rule inv_edit [OF inv base_edit [OF b]]) (simp_all add: terminal_defs)
  then show "stream_inv k w i (edit_terminal j (\<lambda>m. m\<lparr>mt_lease := Some l\<rparr>) b)" for j l .
  show "stream_inv k w i (edit_terminal j (\<lambda>m. m\<lparr>mt_lease := l m\<rparr>) (edit_pty p g b))" for j l p g
    by (rule inv_edit [OF inv_frame [OF inv base_pty [OF b]] base_edit [OF base_pty [OF b]]]) (simp_all add: terminal_defs)
  show "stream_inv k w i (close_end at b)" for at by (rule stream0.P_close_end [OF inv])
qed

subsection \<open>What is read\<close>

text \<open>Everything given to a subscription so far, and what it can still read at once.\<close>

definition given_items :: "terminal_attachment \<Rightarrow> terminal_item list" where
  "given_items u = tu_read u @ taken (tu_queue u)"

definition waiting :: "terminal_attachment \<Rightarrow> terminal_item list" where
  "waiting u = tu_prefix u @ mq_values (tu_queue u)"

lemma led_given:
  assumes "led d L w u"
  shows "given_items u = [] \<and> \<not> tu_live u \<or>
    (\<exists>xs n rest e. prefix (given_items u) (xs @ rest) \<and> opens d L w xs n \<and> trails L n rest e \<and>
      (tu_live u \<and> \<not> mq_closed (tu_queue u) \<longrightarrow> given_items u @ waiting u = xs @ rest \<and> e = length L))"
  using assms
proof (cases rule: led_cases)
  case waits
  then show ?thesis by (auto simp: given_items_def async.faithful_def)
next
  case (begun vs xs n rest e)
  have vs: "prefix (taken (tu_queue u) @ mq_values (tu_queue u)) vs" "\<not> mq_closed (tu_queue u) \<Longrightarrow> taken (tu_queue u) @ mq_values (tu_queue u) = vs"
    using begun(1) by (simp_all add: async.faithful_def)
  have whole: "given_items u @ waiting u = tu_read u @ tu_prefix u @ taken (tu_queue u) @ mq_values (tu_queue u)"
    using begun(2) by (cases "tu_prefix u = []") (auto simp: given_items_def waiting_def)
  have "prefix (given_items u) (given_items u @ waiting u)" by simp
  also have "prefix (given_items u @ waiting u) (tu_read u @ tu_prefix u @ vs)" using vs(1) unfolding whole by simp
  finally have "prefix (given_items u) (xs @ rest)" using begun(4) by simp
  moreover have "given_items u @ waiting u = xs @ rest" if "\<not> mq_closed (tu_queue u)" using whole vs(2) [OF that] begun(4) by simp
  ultimately show ?thesis using begun(5-7) by blast
qed

lemma attach_new:
  assumes "attach at t k wanted aborted b1 = (Inr (), b2)" "base_ok b1"
  shows "stream_inv k wanted (length (br_attachments b1)) b2"
proof -
  let ?b = "expireLeaseIfNeeded at k b1"
  obtain m where m: "map_of (br_terminals ?b) k = Some m"
      and b2: "b2 = ?b\<lparr>br_attachments := br_attachments ?b @
        [if aborted then close_attachment None (new_attachment m) else start_attachment wanted m ?b]\<rparr>"
    using assms(1) by (auto simp: attach_def Let_def split: sum.splits option.splits)
  define u where "u = (if aborted then close_attachment None (new_attachment m) else start_attachment wanted m ?b)"
  have u: "u = start_attachment wanted m ?b \<or> u = close_attachment None (new_attachment m)" by (simp add: u_def)
  note b2 = b2 [folded u_def]
  have b: "base_ok ?b" by (rule base0.P_expire [OF assms(2)])
  have len: "length (br_attachments ?b) = length (br_attachments b1)"
    using arg_cong [OF same_attachments_expire [of b1 at k, unfolded same_attachments_def], of length] by simp
  have ok: "terminal_ok m" "mt_terminalId m = k" using base_named [OF b m] by simp_all
  have "led (mt_initialDimensions m) (mt_published m) wanted (close_attachment None (new_attachment m))"
    by (rule led_close, rule led_waiting) (simp_all add: new_attachment_def new_async_faithful)
  then have "led (mt_initialDimensions m) (mt_published m) wanted u" using u led_start [OF ok(1)] by blast
  moreover have "tu_terminalId u = k" using u ok(2) start_attachment_frame(1) [of wanted m ?b] by (auto simp: new_attachment_def)
  moreover have "base_ok b2" unfolding b2 by (rule base.attached [OF b m u])
  ultimately show ?thesis using m by (simp add: stream_inv_def b2 len [symmetric] log_of_def)
qed

lemma attached_follows:
  assumes "newBroker boot ps running l = Inr b0" "(terminal_step te)\<^sup>*\<^sup>* b0 b1"
    and "attach at t k wanted aborted b1 = (Inr (), b2)" "(terminal_step te)\<^sup>*\<^sup>* b2 b"
  shows "stream_inv k wanted (length (br_attachments b1)) b"
  by (rule stream.P_steps [OF assms(4) attach_new [OF assms(3) base.P_steps [OF assms(2) base_new [OF assms(1)]]]])

text \<open>C4: Whatever a broker does before and after, a subscription of a terminal that was accepted is given, in order
  and without a gap, the items the terminal published: from the cursor it asked for; or from a screen reset on
  that names the position it stands for; or, if it named no cursor, from a full replay of the log on.  As long as
  it lasts, what it was given and what lies ready for it reach to the terminal's newest item.\<close>

theorem terminal_subscriber_follows:
  assumes "newBroker boot ps running l = Inr b0" "(terminal_step te)\<^sup>*\<^sup>* b0 b1"
    and "attach at t k wanted aborted b1 = (Inr (), b2)" "(terminal_step te)\<^sup>*\<^sup>* b2 b"
    and "u = br_attachments b ! length (br_attachments b1)" "map_of (br_terminals b) k = Some m"
  shows "map item_number (mt_published m) = [1..<Suc (mt_sequence m)] \<and>
    (given_items u = [] \<and> \<not> tu_live u \<or>
     (\<exists>xs n rest e. prefix (given_items u) (xs @ rest) \<and> opens (mt_initialDimensions m) (mt_published m) wanted xs n \<and>
       trails (mt_published m) n rest e \<and>
       (tu_live u \<and> \<not> mq_closed (tu_queue u) \<longrightarrow> given_items u @ waiting u = xs @ rest \<and> e = mt_sequence m)))"
proof -
  have inv: "stream_inv k wanted (length (br_attachments b1)) b" by (rule attached_follows [OF assms(1-4)])
  have "log_ok m" using inv base_named [OF _ assms(6)] by (auto simp: stream_inv_def terminal_ok_def)
  then show ?thesis using led_given inv_found [OF inv assms(6)] assms(5) unfolding log_ok_def by metis
qed

lemma demo_subscription:
  obtains m where "map_of (br_terminals demo_seen) ''t'' = Some m" "mt_sequence m = 3" "tu_live (br_attachments demo_seen ! 0)"
    "\<not> mq_closed (tu_queue (br_attachments demo_seen ! 0))" "length (br_attachments demo_typed) = 0"
  using demo_watch by (auto simp: Let_def)

theorem terminal_subscriber_follows_witness:
  "\<exists>m xs n rest. map_of (br_terminals demo_seen) ''t'' = Some m \<and>
     given_items (br_attachments demo_seen ! 0) @ waiting (br_attachments demo_seen ! 0) = xs @ rest \<and>
     opens (mt_initialDimensions m) (mt_published m) None xs n \<and> trails (mt_published m) n rest 3"
proof (rule demo_subscription)
  fix m assume m: "map_of (br_terminals demo_seen) ''t'' = Some m" "mt_sequence m = 3" "tu_live (br_attachments demo_seen ! 0)"
    "\<not> mq_closed (tu_queue (br_attachments demo_seen ! 0))" "length (br_attachments demo_typed) = 0"
  note follows = terminal_subscriber_follows [OF demo_start demo_runs(2) demo_attach demo_runs(3) refl m(1), unfolded m(5)]
  from follows m show ?thesis by auto
qed

subsection \<open>The screen of a full replay\<close>

lemma shown_exact:
  "list_all plain_item items \<Longrightarrow> shown d (exact_items d pending items) =
    (case pending of None \<Rightarrow> [] | Some (c, bytes) \<Rightarrow> map Inl bytes) @ shown d items"
proof (induction d pending items rule: exact_items.induct)
  case (3 d pending c t items)
  then show ?case by (cases pending) (auto simp: shown_append Let_def split: prod.splits)
qed (auto simp: Let_def split: option.splits)

lemma exact_small:
  "list_all small_output items \<Longrightarrow> (case pending of None \<Rightarrow> True | Some (c, bytes) \<Rightarrow> bytes \<noteq> [] \<and> length bytes \<le> maxFrameBytes) \<Longrightarrow>
   list_all small_output (exact_items d pending items)"
proof (induction d pending items rule: exact_items.induct)
  case (3 d pending c t items)
  then show ?case by (cases pending) (auto simp: small_output_def Let_def split: prod.splits)
qed (auto simp: small_output_def Let_def split: option.splits if_splits)

lemma trails_shown:
  "trails L n rest (length L) \<Longrightarrow> n \<le> length L \<Longrightarrow> list_all plain_item L \<Longrightarrow> shown d rest = shown d (drop n L)"
proof (induction rest arbitrary: n d)
  case (Cons x rest)
  show ?case
  proof (cases "plain_item x")
    case True
    then have x: "n < length L" "L ! n = x" "trails L (Suc n) rest (length L)" using Cons.prems(1) by (simp_all add: trails_plain)
    then have "drop n L = x # drop (Suc n) L" by (metis Cons_nth_drop_Suc)
    moreover have "shown d' rest = shown d' (drop (Suc n) L)" for d' by (rule Cons.IH [OF x(3)]) (use x(1) Cons.prems in simp_all)
    ultimately show ?thesis using True by (cases x) simp_all
  next
    case False
    then obtain c where "x = TerminalBeat c \<or> (n < length L \<and> L ! n = x)"
      using Cons.prems(1) by (cases x) (auto simp: trails.simps(2))
    then have "x = TerminalBeat c" using False Cons.prems(3) by (auto simp: list_all_iff)
    then show ?thesis using Cons by simp
  qed
qed simp

lemma trails_small:
  "trails L n rest e \<Longrightarrow> list_all small_output L \<Longrightarrow> list_all small_output rest"
proof (induction rest arbitrary: n)
  case (Cons x rest)
  show ?case
  proof (cases "\<exists>c. x = TerminalBeat c")
    case False
    then have x: "n < length L" "L ! n = x" "trails L (Suc n) rest e" using Cons.prems(1) by (cases x; simp add: trails.simps(2))+
    then have "small_output x" using Cons.prems(2) by (metis list_all_length)
    then show ?thesis using Cons.IH [OF x(3) Cons.prems(2)] by simp
  qed (use Cons in \<open>auto simp: small_output_def\<close>)
qed simp

text \<open>C13: A subscriber that is given a full replay can rebuild the node's screen: once it has read what lies ready, the
  bytes and sizes it was sent are exactly those the node's own emulator was given since the terminal was
  opened, although the replay puts small outputs together and leaves out other changes; and each piece of
  output fits a frame.\<close>

theorem terminal_replay_rebuilds_screen:
  assumes "newBroker boot ps running l = Inr b0" "(terminal_step te)\<^sup>*\<^sup>* b0 b1"
    and "attach at t k wanted aborted b1 = (Inr (), b2)" "(terminal_step te)\<^sup>*\<^sup>* b2 b"
    and "u = br_attachments b ! length (br_attachments b1)" "map_of (br_terminals b) k = Some m"
    and "tu_live u" "\<not> mq_closed (tu_queue u)" "given_items u @ waiting u = ReplayStart c d t' # items"
  shows "d = mt_initialDimensions m \<and> shown d items = fed d (mt_emulator m) \<and> list_all small_output items"
proof -
  let ?L = "mt_published m" and ?d = "mt_initialDimensions m"
  have inv: "stream_inv k wanted (length (br_attachments b1)) b" by (rule attached_follows [OF assms(1-4)])
  have "terminal_ok m" using inv base_named [OF _ assms(6)] by (simp add: stream_inv_def)
  then have L: "list_all plain_item ?L" "list_all small_output ?L" "shown ?d ?L = fed ?d (mt_emulator m)"
    by (auto simp: terminal_defs list_all_iff)
  obtain xs n rest where split: "ReplayStart c d t' # items = xs @ rest" "opens ?d ?L wanted xs n" "trails ?L n rest (length ?L)"
    using led_given [of ?d ?L wanted u] inv_found [OF inv assms(6)] assms(5,7-9) by auto
  have "xs \<noteq> []"
  proof
    assume "xs = []"
    then have "n < length ?L \<and> ?L ! n = ReplayStart c d t'" using split(1,3) by (auto simp: trails.simps(2))
    then show False using L(1) by (auto simp: list_all_iff dest!: nth_mem)
  qed
  then obtain ys where xs: "xs = ReplayStart c d t' # ys" "items = ys @ rest" using split(1) by (cases xs) auto
  then have replay: "is_replay ?d ?L xs n" "n \<le> length ?L" using split(2) by (auto simp: opens_def split: option.splits elim: is_reset.elims)
  then obtain c' t'' where ys: "d = ?d" "ys = exact_items ?d None (take n ?L) @ [ReplayEnd c' t'']"
    unfolding xs(1) by (auto split: terminal_item.splits) (metis append_butlast_last_id)
  have part: "list_all plain_item (take n ?L)" "list_all small_output (take n ?L)"
    using L(1,2) by (auto simp: list_all_iff dest: in_set_takeD)
  have "shown d items = shown ?d (take n ?L @ drop n ?L)"
    unfolding xs(2) ys by (simp add: shown_append shown_exact [OF part(1)] trails_shown [OF split(3) replay(2) L(1)] del: append_take_drop_id)
  then show ?thesis
    using L(3) exact_small [OF part(2), of None ?d] trails_small [OF split(3) L(2)] unfolding xs(2) ys by (simp add: small_output_def)
qed

lemma demo_replay:
  "let items = given_items (br_attachments demo_seen ! 0) @ waiting (br_attachments demo_seen ! 0); d = \<lparr>di_columns = 8, di_rows = 2\<rparr>
   in (case items of ReplayStart c d' t # _ \<Rightarrow> d' = d | _ \<Rightarrow> False) \<and> shown d items = [Inr \<lparr>di_columns = 9, di_rows = 3\<rparr>]"
  by code_simp

theorem terminal_replay_rebuilds_screen_witness:
  "\<exists>m c d t items. map_of (br_terminals demo_seen) ''t'' = Some m \<and>
     given_items (br_attachments demo_seen ! 0) @ waiting (br_attachments demo_seen ! 0) = ReplayStart c d t # items \<and>
     fed d (mt_emulator m) = [Inr \<lparr>di_columns = 9, di_rows = 3\<rparr>]"
proof (rule demo_subscription)
  fix m assume m: "map_of (br_terminals demo_seen) ''t'' = Some m" "mt_sequence m = 3" "tu_live (br_attachments demo_seen ! 0)"
    "\<not> mq_closed (tu_queue (br_attachments demo_seen ! 0))" "length (br_attachments demo_typed) = 0"
  obtain c d t items where items: "given_items (br_attachments demo_seen ! 0) @ waiting (br_attachments demo_seen ! 0) = ReplayStart c d t # items"
      "shown d items = [Inr \<lparr>di_columns = 9, di_rows = 3\<rparr>]"
    using demo_replay by (auto simp: Let_def split: list.splits terminal_item.splits)
  have u: "br_attachments demo_seen ! 0 = br_attachments demo_seen ! length (br_attachments demo_typed)" by (simp add: m(5))
  note screen = terminal_replay_rebuilds_screen [OF demo_start demo_runs(2) demo_attach demo_runs(3) u m(1,3,4) items(1)]
  with items m(1) show ?thesis by (intro exI [of _ m] exI [of _ c] exI [of _ d] exI [of _ t] exI [of _ items]) auto
qed

end
