(* ===== verification/Terminal_Keyboard.thy ===== *)
theory Terminal_Keyboard
  imports Terminal_Stream Terminal_Demo
begin

text \<open>
  The keyboard of a terminal: what is typed into a native process comes from one lease after the other, each
  input of a lease once and in the order of its numbers, and a request that is sent again gets its first answer.
\<close>

subsection \<open>The log of a process\<close>

type_synonym input_log = "(string \<times> nat \<times> pty_op) list"

definition of_lease :: "string \<Rightarrow> input_log \<Rightarrow> input_log" where
  "of_lease l log = filter (\<lambda>e. fst e = l) log"

text \<open>Whoever types next may be the one who typed last, or somebody new.\<close>

definition may_type :: "string \<Rightarrow> input_log \<Rightarrow> bool" where
  "may_type l log \<longleftrightarrow> log = [] \<or> l = fst (last log) \<or> l \<notin> fst ` set log"

text \<open>Every input has the number of the inputs of its lease before it, and no lease returns once another has typed.\<close>

definition inputs_ok :: "input_log \<Rightarrow> bool" where
  "inputs_ok log \<longleftrightarrow> (\<forall>i < length log. fst (snd (log ! i)) = length (of_lease (fst (log ! i)) (take i log)) \<and>
     may_type (fst (log ! i)) (take i log))"

lemma inputs_ok_nil [simp]: "inputs_ok []"
  by (simp add: inputs_ok_def)

lemma inputs_ok_snoc:
  "inputs_ok (log @ [(l, n, op)]) \<longleftrightarrow> inputs_ok log \<and> n = length (of_lease l log) \<and> may_type l log"
proof -
  have "(\<forall>i < length (log @ [(l, n, op)]). Q i) \<longleftrightarrow> (\<forall>i < length log. Q i) \<and> Q (length log)" for Q
    by (auto simp: less_Suc_eq)
  then show ?thesis unfolding inputs_ok_def by (simp add: nth_append)
qed

lemma typed_next: "may_type l (log @ [(l, n, op)])" "length (of_lease l (log @ [(l, n, op)])) = Suc (length (of_lease l log))"
  by (simp_all add: may_type_def of_lease_def)

subsection \<open>Receipts\<close>

definition receipts_ok :: "lease_state \<Rightarrow> bool" where
  "receipts_ok l \<longleftrightarrow> map fst (le_receipts l) = [le_nextInputSequence l - min (le_nextInputSequence l) inputReceiptLimit..<le_nextInputSequence l]"

lemma put_new: "\<not> has k t \<Longrightarrow> put k v t = t @ [(k, v)]"
  by (induction t) (auto simp: has_def split: if_splits)

lemma receipts_kept:
  assumes "receipts_ok l"
  shows "receipts_ok (keep_input (le_nextInputSequence l) r l)"
    "map_of (le_receipts (keep_input (le_nextInputSequence l) r l)) (le_nextInputSequence l) = Some r"
proof -
  let ?n = "le_nextInputSequence l" and ?t = "le_receipts l"
  have keys: "map fst ?t = [?n - min ?n inputReceiptLimit..<?n]" using assms by (simp add: receipts_ok_def)
  then have "?n \<notin> fst ` set ?t" by (metis atLeastLessThan_iff less_irrefl list.set_map set_upt)
  then have put: "put ?n r ?t = ?t @ [(?n, r)]" by (intro put_new) (auto simp: has_iff_key)
  have len: "length ?t = min ?n inputReceiptLimit" using arg_cong [OF keys, of length] by simp
  have all: "map fst (put ?n r ?t) = [?n - min ?n inputReceiptLimit..<Suc ?n]" using keys by (simp add: put)
  have receipts: "le_receipts (keep_input ?n r l) = drop (length (put ?n r ?t) - inputReceiptLimit) (put ?n r ?t)"
    by (simp add: keep_input_def Let_def)
  have "map fst (le_receipts (keep_input ?n r l)) = drop (Suc (min ?n inputReceiptLimit) - inputReceiptLimit) [?n - min ?n inputReceiptLimit..<Suc ?n]"
    unfolding receipts by (simp only: all drop_map [symmetric]) (simp add: put len)
  also have "\<dots> = [Suc ?n - min (Suc ?n) inputReceiptLimit..<Suc ?n]"
    by (simp add: drop_upt min_def inputReceiptLimit_def del: upt_Suc)
  finally have map: "map fst (le_receipts (keep_input ?n r l)) = [Suc ?n - min (Suc ?n) inputReceiptLimit..<Suc ?n]" .
  then show "receipts_ok (keep_input ?n r l)" unfolding receipts_ok_def by (simp add: keep_input_def Let_def)
  have "distinct (map fst (le_receipts (keep_input ?n r l)))" unfolding map by simp
  moreover have "(?n, r) \<in> set (le_receipts (keep_input ?n r l))"
    unfolding receipts by (simp add: put len inputReceiptLimit_def)
  ultimately show "map_of (le_receipts (keep_input ?n r l)) ?n = Some r" by simp
qed

subsection \<open>Who holds a keyboard\<close>

text \<open>What matters of a terminal and of a process.\<close>

definition grip :: "broker \<Rightarrow> string \<Rightarrow> (terminal_state \<times> nat \<times> lease_state option) option" where
  "grip b k = map_option (\<lambda>m. (mt_state m, mt_process m, mt_lease m)) (map_of (br_terminals b) k)"

definition keyed :: "broker \<Rightarrow> nat \<Rightarrow> (string option \<times> input_log) option" where
  "keyed b p = map_option (\<lambda>y. (py_exitListener y, py_inputs y)) (map_of (br_ptys b) p)"

text \<open>The holder of a lease of a running terminal is ready to type its next input.\<close>

definition ready :: "lease_state \<Rightarrow> input_log \<Rightarrow> bool" where
  "ready l log \<longleftrightarrow> (let holder = ls_terminalLeaseId (le_summary l) in le_nextInputSequence l = length (of_lease holder log) \<and> may_type holder log)"

definition key_ok ::
  "(string \<Rightarrow> (terminal_state \<times> nat \<times> lease_state option) option) \<Rightarrow> (nat \<Rightarrow> (string option \<times> input_log) option) \<Rightarrow> (string \<Rightarrow> bool) \<Rightarrow> bool" where
  "key_ok g q R \<longleftrightarrow>
     (\<forall>k. R k \<longrightarrow> g k \<noteq> None) \<and>
     (\<forall>k p l. g k = Some (TRunning, p, l) \<longrightarrow> R k \<longrightarrow> (\<exists>log. q p = Some (Some k, log))) \<and>
     (\<forall>k p l. g k = Some (TRunning, p, Some l) \<longrightarrow> (\<exists>log. q p = Some (Some k, log) \<and> ready l log)) \<and>
     (\<forall>p x log. q p = Some (x, log) \<longrightarrow> inputs_ok log) \<and>
     (\<forall>k s p l. g k = Some (s, p, Some l) \<longrightarrow> receipts_ok l)"

definition key_inv :: "bool \<Rightarrow> broker \<Rightarrow> bool" where
  "key_inv c b \<longleftrightarrow> base_ok b \<and> key_ok (grip b) (keyed b) (\<lambda>k. c \<and> registered k b)"

lemma key_less:
  assumes "key_ok g q R" "\<And>k. R' k \<Longrightarrow> R k"
  shows "key_ok g q R'"
  using assms unfolding key_ok_def by blast

lemma key_regrip:
  assumes "key_ok g q R" "g k = Some (s, p, l)"
    and "s' = TRunning \<Longrightarrow> s = TRunning" "l' = None \<or> l' = l"
  shows "key_ok (g(k \<mapsto> (s', p, l'))) q R"
  unfolding key_ok_def
proof (intro conjI allI impI)
  fix j p' l'' assume "(g(k \<mapsto> (s', p, l'))) j = Some (TRunning, p', l'')" "R j"
  then have "\<exists>x. g j = Some (TRunning, p', x)" using assms(2,3) by (cases "j = k") auto
  then show "\<exists>log. q p' = Some (Some j, log)" using \<open>R j\<close> assms(1) unfolding key_ok_def by blast
next
  fix j p' l'' assume "(g(k \<mapsto> (s', p, l'))) j = Some (TRunning, p', Some l'')"
  then have "g j = Some (TRunning, p', Some l'')" using assms(2-4) by (cases "j = k") auto
  then show "\<exists>log. q p' = Some (Some j, log) \<and> ready l'' log" using assms(1) unfolding key_ok_def by blast
next
  fix j s'' p' l'' assume "(g(k \<mapsto> (s', p, l'))) j = Some (s'', p', Some l'')"
  then have "\<exists>s. g j = Some (s, p', Some l'')" using assms(2-4) by (cases "j = k") auto
  then show "receipts_ok l''" using assms(1) unfolding key_ok_def by blast
qed (use assms(1) in \<open>auto simp: key_ok_def\<close>)

text \<open>A listener that goes takes no keyboard with it.\<close>

lemma key_released:
  assumes "key_ok g q R" "\<And>p l. g k = Some (TRunning, p, l) \<Longrightarrow> \<not> R k \<and> l = None"
    and "q p = Some (x, log)" "x' = x \<or> (x = Some k \<and> x' = None)"
  shows "key_ok g (q(p \<mapsto> (x', log))) R"
  unfolding key_ok_def
proof (intro conjI allI impI)
  fix j p' l assume j: "g j = Some (TRunning, p', l)" "R j"
  then obtain log' where "q p' = Some (Some j, log')" using assms(1) unfolding key_ok_def by blast
  then show "\<exists>log'. (q(p \<mapsto> (x', log))) p' = Some (Some j, log')" using assms(2-4) j by (cases "p' = p") auto
next
  fix j p' l assume j: "g j = Some (TRunning, p', Some l)"
  then obtain log' where "q p' = Some (Some j, log') \<and> ready l log'" using assms(1) unfolding key_ok_def by blast
  then show "\<exists>log'. (q(p \<mapsto> (x', log))) p' = Some (Some j, log') \<and> ready l log'" using assms(2-4) j by (cases "p' = p") auto
next
  fix p' y log' assume "(q(p \<mapsto> (x', log))) p' = Some (y, log')"
  then have "\<exists>y. q p' = Some (y, log')" using assms(3) by (cases "p' = p") auto
  then show "inputs_ok log'" using assms(1) unfolding key_ok_def by blast
qed (use assms(1) in \<open>auto simp: key_ok_def\<close>)

lemma key_leased:
  assumes "key_ok g q R" "g k = Some (s, p, l)" "receipts_ok l'"
    and "s = TRunning \<Longrightarrow> (\<exists>log. q p = Some (Some k, log) \<and> ready l' log)"
  shows "key_ok (g(k \<mapsto> (s, p, Some l'))) q R"
  unfolding key_ok_def
proof (intro conjI allI impI)
  fix j p' l'' assume "(g(k \<mapsto> (s, p, Some l'))) j = Some (TRunning, p', l'')" "R j"
  then have "\<exists>x. g j = Some (TRunning, p', x)" using assms(2) by (cases "j = k") auto
  then show "\<exists>log. q p' = Some (Some j, log)" using \<open>R j\<close> assms(1) unfolding key_ok_def by blast
next
  fix j p' l'' assume j: "(g(k \<mapsto> (s, p, Some l'))) j = Some (TRunning, p', Some l'')"
  show "\<exists>log. q p' = Some (Some j, log) \<and> ready l'' log"
  proof (cases "j = k")
    case False
    then have "g j = Some (TRunning, p', Some l'')" using j by simp
    then show ?thesis using assms(1) unfolding key_ok_def by blast
  qed (use j assms(4) in simp)
next
  fix j s'' p' l'' assume j: "(g(k \<mapsto> (s, p, Some l'))) j = Some (s'', p', Some l'')"
  show "receipts_ok l''"
  proof (cases "j = k")
    case False
    then have "g j = Some (s'', p', Some l'')" using j by simp
    then show ?thesis using assms(1) unfolding key_ok_def by blast
  qed (use j assms(3) in simp)
qed (use assms(1) in \<open>auto simp: key_ok_def\<close>)

lemma key_granted:
  assumes "key_ok g q R" "g k = Some (TRunning, p, None)" "R k" "\<And>p x log. q p = Some (x, log) \<Longrightarrow> new \<notin> fst ` set log"
    and "new = ls_terminalLeaseId (le_summary l)" "le_nextInputSequence l = 0" "le_receipts l = []"
  shows "key_ok (g(k \<mapsto> (TRunning, p, Some l))) q R"
proof (rule key_leased [OF assms(1,2)])
  obtain log where log: "q p = Some (Some k, log)" using assms(1-3) unfolding key_ok_def by blast
  then have new: "new \<notin> fst ` set log" using assms(4) by blast
  then have "of_lease new log = []" unfolding of_lease_def by (auto simp: filter_empty_conv image_iff)
  then have "ready l log" using assms(5,6) new by (simp add: ready_def may_type_def)
  then show "\<exists>log. q p = Some (Some k, log) \<and> ready l log" using log by blast
  show "receipts_ok l" using assms(6,7) by (simp add: receipts_ok_def)
qed

lemma key_renewed:
  assumes "key_ok g q R" "g k = Some (s, p, Some l)" "renewed l l'"
  shows "key_ok (g(k \<mapsto> (s, p, Some l'))) q R"
proof (rule key_leased [OF assms(1,2)])
  have same: "ready l' = ready l" "receipts_ok l' = receipts_ok l"
    using assms(3) by (auto simp: renewed_def ready_def receipts_ok_def fun_eq_iff)
  show "receipts_ok l'" using assms(1,2) unfolding same key_ok_def by blast
  show "s = TRunning \<Longrightarrow> \<exists>log. q p = Some (Some k, log) \<and> ready l' log" using assms(1,2) unfolding same key_ok_def by blast
qed

lemma key_typed:
  assumes "key_ok g q R" "g k = Some (TRunning, p, Some l)"
  shows "key_ok (g(k \<mapsto> (TRunning, p, Some (keep_input (le_nextInputSequence l) r l))))
    (q(p := map_option (\<lambda>(x, log). (x, log @ [(ls_terminalLeaseId (le_summary l), le_nextInputSequence l, op)])) (q p))) R"
proof -
  let ?l = "keep_input (le_nextInputSequence l) r l" and ?add = "\<lambda>log. log @ [(ls_terminalLeaseId (le_summary l), le_nextInputSequence l, op)]"
  obtain log where log: "q p = Some (Some k, log)" "ready l log" using assms unfolding key_ok_def by blast
  have "inputs_ok log" "receipts_ok l" using assms log(1) unfolding key_ok_def by blast+
  have new: "inputs_ok (?add log)" using log(2) \<open>inputs_ok log\<close> by (simp add: inputs_ok_snoc ready_def Let_def)
  have kept: "receipts_ok ?l" by (rule receipts_kept [OF \<open>receipts_ok l\<close>])
  have typed: "ready ?l (?add log)" using log(2) typed_next by (simp add: ready_def keep_input_def Let_def)
  have alone: "j = k" if "g j = Some (TRunning, p, Some l')" for j l'
    using that assms(1) log(1) unfolding key_ok_def by force
  let ?q = "q(p \<mapsto> (Some k, ?add log))"
  have "key_ok (g(k \<mapsto> (TRunning, p, Some ?l))) ?q R"
    unfolding key_ok_def
  proof (intro conjI allI impI)
    fix j p' l' assume "(g(k \<mapsto> (TRunning, p, Some ?l))) j = Some (TRunning, p', l')" "R j"
    then have "\<exists>x. g j = Some (TRunning, p', x)" using assms(2) by (cases "j = k") auto
    then have "\<exists>log. q p' = Some (Some j, log)" using \<open>R j\<close> assms(1) unfolding key_ok_def by blast
    then show "\<exists>log. ?q p' = Some (Some j, log)" using log(1) by (cases "p' = p") auto
  next
    fix j p' l' assume j: "(g(k \<mapsto> (TRunning, p, Some ?l))) j = Some (TRunning, p', Some l')"
    show "\<exists>log. ?q p' = Some (Some j, log) \<and> ready l' log"
    proof (cases "j = k")
      case False
      then have g: "g j = Some (TRunning, p', Some l')" using j by simp
      then have "p' \<noteq> p" using alone False by blast
      then show ?thesis using g assms(1) unfolding key_ok_def by simp
    qed (use j typed in simp)
  next
    fix p' x log' assume "?q p' = Some (x, log')"
    then show "inputs_ok log'" using new assms(1) unfolding key_ok_def by (cases "p' = p") auto
  next
    fix j s p' l' assume j: "(g(k \<mapsto> (TRunning, p, Some ?l))) j = Some (s, p', Some l')"
    show "receipts_ok l'"
    proof (cases "j = k")
      case False
      then have "g j = Some (s, p', Some l')" using j by simp
      then show ?thesis using assms(1) unfolding key_ok_def by blast
    qed (use j kept in simp)
  qed (use assms(1) in \<open>auto simp: key_ok_def\<close>)
  then show ?thesis using log(1) by simp
qed

lemma key_hired:
  assumes "key_ok g q R" "g k \<noteq> None" "q p = Some (None, log)" "\<And>s p' l. g k = Some (s, p', l) \<Longrightarrow> p' = p"
    and "\<And>j. R' j \<Longrightarrow> j = k \<or> R j"
  shows "key_ok g (q(p \<mapsto> (Some k, log))) R'"
  unfolding key_ok_def
proof (intro conjI allI impI)
  fix j assume "R' j" then show "g j \<noteq> None" using assms(1,2,5) unfolding key_ok_def by blast
next
  fix j p' l assume j: "g j = Some (TRunning, p', l)" "R' j"
  show "\<exists>log'. (q(p \<mapsto> (Some k, log))) p' = Some (Some j, log')"
  proof (cases "j = k")
    case False
    then obtain log' where "q p' = Some (Some j, log')" using j assms(1,5) unfolding key_ok_def by blast
    then show ?thesis using assms(3) by (cases "p' = p") auto
  qed (use j assms(4) in auto)
next
  fix j p' l assume j: "g j = Some (TRunning, p', Some l)"
  then obtain log' where "q p' = Some (Some j, log') \<and> ready l log'" using assms(1) unfolding key_ok_def by blast
  then show "\<exists>log'. (q(p \<mapsto> (Some k, log))) p' = Some (Some j, log') \<and> ready l log'" using assms(3) by (cases "p' = p") auto
next
  fix p' x log' assume "(q(p \<mapsto> (Some k, log))) p' = Some (x, log')"
  then have "\<exists>x. q p' = Some (x, log')" using assms(3) by (cases "p' = p") auto
  then show "inputs_ok log'" using assms(1) unfolding key_ok_def by blast
next
  fix j s p' l assume "g j = Some (s, p', Some l)"
  then show "receipts_ok l" using assms(1) unfolding key_ok_def by blast
qed

subsection \<open>At all times\<close>

lemma grip_edit:
  "grip (edit_terminal k f b) = (grip b)(k := map_option (\<lambda>m. (mt_state (f m), mt_process (f m), mt_lease (f m))) (map_of (br_terminals b) k))"
  by (auto simp: grip_def fun_eq_iff edit_terminal_of option.map_comp comp_def)

lemma grip_emit:
  assumes "\<And>m. mt_state (f m) = mt_state m \<and> mt_process (f m) = mt_process m \<and> mt_lease (f m) = mt_lease m"
  shows "grip (emit_item at k f item bytes b) = grip b"
  by (auto simp: grip_def fun_eq_iff emit_terminal option.map_comp comp_def assms numbered_def)

lemma keyed_edit:
  "keyed (edit_pty p h b) = (keyed b)(p := map_option (\<lambda>y. (py_exitListener (h y), py_inputs (h y))) (map_of (br_ptys b) p))"
  by (auto simp: keyed_def fun_eq_iff edit_pty_def split: option.split)

lemma grip_simps [simp]:
  "grip (edit_pty p h b) = grip b" "grip (edit_attachment i a b) = grip b" "grip (close_subscribers k b) = grip b"
  "keyed (edit_terminal k f b) = keyed b" "keyed (edit_attachment i a b) = keyed b" "keyed (close_subscribers k b) = keyed b"
  "keyed (emit_item at k f item bytes b) = keyed b"
  by (simp_all add: grip_def keyed_def fun_eq_iff)

lemma registered_simps [simp]:
  "registered j (edit_terminal k f b) = registered j b" "registered j (edit_pty p h b) = registered j b"
  "registered j (edit_attachment i a b) = registered j b" "registered j (close_subscribers k b) = registered j b"
  "registered j (emit_item at k f item bytes b) = registered j b"
  by (simp_all add: registered_def)

lemma grip_found: "map_of (br_terminals b) k = Some m \<Longrightarrow> grip b k = Some (mt_state m, mt_process m, mt_lease m)"
  by (simp add: grip_def)

lemma key_same:
  assumes "key_inv c b" "base_ok b'" "grip b' = grip b" "keyed b' = keyed b" "\<And>k. registered k b' \<Longrightarrow> registered k b"
  shows "key_inv c b'"
proof -
  have "key_ok (grip b) (keyed b) (\<lambda>k. c \<and> registered k b')"
    by (rule key_less [of _ _ "\<lambda>k. c \<and> registered k b"]) (use assms(1,5) in \<open>auto simp: key_inv_def\<close>)
  then show ?thesis using assms(2-4) by (simp add: key_inv_def)
qed

lemma key_regripped:
  assumes "key_inv c b" "base_ok (edit_terminal k f b)"
    and "\<And>m. mt_process (f m) = mt_process m \<and> (mt_state (f m) = TRunning \<longrightarrow> mt_state m = TRunning) \<and> (mt_lease (f m) = None \<or> mt_lease (f m) = mt_lease m)"
  shows "key_inv c (edit_terminal k f b)"
proof (cases "map_of (br_terminals b) k")
  case (Some m)
  have "key_ok ((grip b)(k \<mapsto> (mt_state (f m), mt_process m, mt_lease (f m)))) (keyed b) (\<lambda>j. c \<and> registered j b)"
    by (rule key_regrip [where g = "grip b" and k = k, OF _ grip_found [OF Some]]) (use assms(1,3) in \<open>auto simp: key_inv_def\<close>)
  then show ?thesis using assms(2,3) Some by (simp add: key_inv_def grip_edit)
qed (use assms(1) in \<open>simp add: edit_terminal_def\<close>)

lemma key_published:
  assumes "key_inv c b" "publishes f item"
  shows "key_inv c (emit_item at k f item bytes b)"
proof (rule key_same [OF assms(1)])
  show "base_ok (emit_item at k f item bytes b)" using assms base_emit by (simp add: key_inv_def)
  have "mt_state (f m) = mt_state m \<and> mt_process (f m) = mt_process m \<and> mt_lease (f m) = mt_lease m" for m
    using assms(2) unfolding publishes_def by (elim disjE exE conjE) (simp_all add: resized_to_def)
  then show "grip (emit_item at k f item bytes b) = grip b" by (rule grip_emit)
qed simp_all

lemma key_unlistened:
  assumes "key_inv c b" "\<And>p l. grip b k = Some (TRunning, p, l) \<Longrightarrow> \<not> (c \<and> registered k b) \<and> l = None"
  shows "key_inv c (edit_pty p (release_exit k) b)"
proof (cases "map_of (br_ptys b) p")
  case (Some y)
  let ?x = "if py_exitListener y = Some k then None else py_exitListener y"
  have "key_ok (grip b) ((keyed b)(p \<mapsto> (?x, py_inputs y))) (\<lambda>j. c \<and> registered j b)"
    by (rule key_released [of _ _ _ k _ "py_exitListener y"]) (use assms Some in \<open>auto simp: key_inv_def keyed_def\<close>)
  then show ?thesis
    using assms(1) Some base_pty by (simp add: key_inv_def keyed_edit release_exit_def)
qed (use assms(1) in \<open>simp add: edit_pty_def\<close>)

interpretation keys0: broker_upkeep "key_inv c" for c
proof
  fix b assume inv: "key_inv c b"
  then have b: "base_ok b" by (simp add: key_inv_def)
  show "key_inv c (changed at j b)" for at j
    unfolding changed_def by (rule key_published [OF inv publishes_ops(1)])
  show "frame \<noteq> [] \<Longrightarrow> length frame \<le> maxFrameBytes \<Longrightarrow> key_inv c (accept_frame at j frame b)" for at j frame
    unfolding accept_frame_def by (rule key_published [OF inv publishes_ops(3)])
  show "key_inv c (changed at j (edit_terminal j (resized_to d) b))" for at j d
    unfolding resize_publishes by (rule key_published [OF inv publishes_ops(2)])
  show "side_edit f \<Longrightarrow> key_inv c (edit_terminal j f b)" for j f
    by (rule key_regripped [OF inv base0.edited [OF b]]) (simp_all add: side_edit_def)
  show "key_inv c (edit_terminal j (\<lambda>m. m\<lparr>mt_lease := None\<rparr>) b)" for j
    by (rule key_regripped [OF inv base0.unleased [OF b]]) simp
  show "key_inv c (edit_terminal j (\<lambda>m. m\<lparr>mt_state := TExited, mt_exit := x\<rparr>) b)" for j x
    by (rule key_regripped [OF inv base0.exited [OF b]]) simp
  show "key_inv c (edit_terminal j (\<lambda>m. m\<lparr>mt_disposed := True\<rparr>) b)" for j
    by (rule key_regripped [OF inv base0.any_disposed [OF b]]) simp
  show "key_inv c (close_subscribers j b)" for j by (rule key_same [OF inv base0.subscribers_closed [OF b]]) simp_all
  show "side_pty h \<Longrightarrow> key_inv c (edit_pty p h b)" for p h
    by (rule key_same [OF inv base_pty [OF b]]) (auto simp: side_pty_def keyed_edit fun_eq_iff, auto simp: keyed_def)
  show "idle_terminal j b \<Longrightarrow> key_inv c (edit_pty p (release_exit j) b)" for p j
    by (rule key_unlistened [OF inv]) (auto simp: idle_terminal_def grip_def)
  show "key_inv c (b\<lparr>br_bySession := del s (br_bySession b)\<rparr>)" for s
    by (rule key_same [OF inv base0.unregistered [OF b]]) (auto simp: grip_def keyed_def fun_eq_iff registered_def split: if_splits)
  show "key_inv c (b\<lparr>br_byScope := sc\<rparr>)" for sc
    by (rule key_same [OF inv base0.rescoped [OF b]]) (auto simp: grip_def keyed_def fun_eq_iff registered_def)
qed

text \<open>Closing gives up every keyboard.\<close>

lemma key_disposed:
  assumes inv: "key_inv False b"
  shows "key_inv False (dispose at k b)"
proof -
  let ?b = "edit_terminal k (\<lambda>m. m\<lparr>mt_disposed := True\<rparr>) b"
  let ?c = "pauseProcessOutput k (clearLease False at k ?b)"
  have b: "base_ok b" using inv by (simp add: key_inv_def)
  have "key_inv False ?b" by (rule key_regripped [OF inv base0.any_disposed [OF b]]) simp
  then have c: "key_inv False ?c" by (intro keys0.P_pause keys0.P_clear)
  have "mt_lease m = None" if "map_of (br_terminals ?c) k = Some m" for m
    using that base.lease_cleared [of at k ?b]
    by (auto simp: pauseProcessOutput_def edit_terminal_of split: option.splits if_splits)
  then have "key_inv False (edit_pty p (release_exit k) ?c)" for p
    by (intro key_unlistened [OF c]) (auto simp: grip_def)
  then have "key_inv False (close_subscribers k (disposeExit k ?c))"
    using c by (intro keys0.subscribers_closed) (simp add: disposeExit_def split: option.split)
  with inv show ?thesis by (simp add: dispose_def Let_def split: option.split)
qed

lemma key_closed:
  assumes inv: "key_inv c b"
  shows "key_inv True (close_end at b)"
proof -
  have b: "base_ok b" using inv by (simp add: key_inv_def)
  have "key_ok (grip b) (keyed b) (\<lambda>k. False \<and> registered k b)"
    by (rule key_less [of _ _ "\<lambda>k. c \<and> registered k b"]) (use inv in \<open>auto simp: key_inv_def\<close>)
  then have start: "key_inv False b" using b by (simp add: key_inv_def)
  have fold_d: "key_inv False b \<Longrightarrow> key_inv False (fold (\<lambda>(s, k). dispose at k) xs b)" for xs b
    by (induction xs arbitrary: b) (simp_all add: key_disposed split_beta)
  have fold_p: "key_inv False b \<Longrightarrow> key_inv False (fold (\<lambda>p. edit_pty p pty_kill) ps b)" for ps b
    by (induction ps arbitrary: b) (simp_all add: keys0.P_kill)
  define d where "d = fold (\<lambda>p. edit_pty p pty_kill) (close_processes b) (fold (\<lambda>(s, k). dispose at k) (br_bySession b) b)"
  have d: "key_inv False d" unfolding d_def by (rule fold_p [OF fold_d [OF start]])
  have gone: "close_end at b = d\<lparr>br_bySession := [], br_byScope := [], br_acquireReceipts := []\<rparr>"
    by (simp add: close_end_def d_def Let_def)
  have "base_ok (close_end at b)" by (rule base0.P_close_end [OF b])
  moreover have "grip (close_end at b) = grip d" "keyed (close_end at b) = keyed d" "\<not> registered k (close_end at b)" for k
    by (simp_all add: gone grip_def keyed_def registered_def fun_eq_iff)
  ultimately show ?thesis using d by (simp add: key_inv_def)
qed

lemma fresh_unused:
  assumes "fresh_lease l b" "keyed b p = Some (x, log)"
  shows "l \<notin> fst ` set log"
  using assms by (auto simp: fresh_lease_def keyed_def)

interpretation keys: broker_run "key_inv True" te for te
proof
  fix b assume inv: "key_inv True b"
  then have b: "base_ok b" and ok: "key_ok (grip b) (keyed b) (\<lambda>k. registered k b)" by (simp_all add: key_inv_def)
  show "map_of (br_terminals b) j = Some m \<Longrightarrow> mt_terminalId m = j" for j m by (rule base.named [OF b])
  show "map_of (br_opening b) lock = Some job \<Longrightarrow> oj_current job = Some c \<Longrightarrow> idle_terminal c b" for lock job c
    by (rule base.queued_idle [OF b])
  show "key_inv True (b\<lparr>br_pendingProcessOpens := n\<rparr>)" for n
    by (rule key_same [OF inv base.counted [OF b]]) (simp_all add: grip_def keyed_def registered_def fun_eq_iff)
  show "key_inv True (b\<lparr>br_acquireReceipts := t\<rparr>)" for t
    by (rule key_same [OF inv base.receipt_kept [OF b]]) (simp_all add: grip_def keyed_def registered_def fun_eq_iff)
  show "key_inv True (b\<lparr>br_closed := True\<rparr>)"
    by (rule key_same [OF inv base.closing [OF b]]) (simp_all add: grip_def keyed_def registered_def fun_eq_iff)
  show "(\<And>c. oj_current job = Some c \<Longrightarrow> stopped c b) \<Longrightarrow> key_inv True (b\<lparr>br_opening := put lock job (br_opening b)\<rparr>)" for job lock
    by (rule key_same [OF inv base.queued [OF b]]) (simp_all add: grip_def keyed_def registered_def fun_eq_iff)
  show "key_inv True (b\<lparr>br_opening := del lock (br_opening b)\<rparr>)" for lock
    by (rule key_same [OF inv base.unqueued [OF b]]) (simp_all add: grip_def keyed_def registered_def fun_eq_iff)
  show "map_of (br_terminals b) j = Some m \<Longrightarrow> u = start_attachment wanted m b \<or> u = close_attachment None (new_attachment m) \<Longrightarrow>
      key_inv True (b\<lparr>br_attachments := br_attachments b @ [u]\<rparr>)" for j m u wanted
    by (rule key_same [OF inv base.attached [OF b]]) (simp_all add: grip_def keyed_def registered_def fun_eq_iff)
  show "j < length (br_attachments b) \<Longrightarrow> tu_reset (br_attachments b ! j) = Some (reason, n) \<Longrightarrow>
      map_of (br_terminals b) (tu_terminalId (br_attachments b ! j)) = Some m \<Longrightarrow>
      key_inv True (edit_attachment j (\<lambda>u. go_live m (u\<lparr>tu_reset := None, tu_queue := async_push (resetItem te reason m) (tu_queue u)\<rparr>)) b)"
    for j m reason n te by (rule key_same [OF inv base.reset_sent [OF b]]) simp_all
  show "j < length (br_attachments b) \<Longrightarrow> tu_reset (br_attachments b ! j) = Some (reason, n) \<Longrightarrow>
      key_inv True (edit_attachment j (\<lambda>u. u\<lparr>tu_reset := Some (reason, n')\<rparr>) b)" for j reason n n'
    by (rule key_same [OF inv base.reset_waits [OF b]]) simp_all
  show "key_inv True (edit_attachment j (close_attachment None) b)" for j
    by (rule key_same [OF inv base.attachment_closed [OF b]]) simp_all
  show "j < length (br_attachments b) \<Longrightarrow> tu_reset (br_attachments b ! j) = Some (reason, n) \<Longrightarrow>
      key_inv True (edit_attachment j (\<lambda>u. close_attachment None (u\<lparr>tu_reset := None\<rparr>)) b)" for j reason n
    by (rule key_same [OF inv base.reset_dropped [OF b]]) simp_all
  show "j < length (br_attachments b) \<Longrightarrow> tu_live (br_attachments b ! j) \<Longrightarrow>
      map_of (br_terminals b) (tu_terminalId (br_attachments b ! j)) = Some m \<Longrightarrow>
      key_inv True (edit_attachment j (\<lambda>u. u\<lparr>tu_queue := async_push (TerminalBeat (here m)) (tu_queue u)\<rparr>) b)" for j m
    by (rule key_same [OF inv base.beaten [OF b]]) simp_all
  show "key_inv True (edit_attachment j attachment_next b)" for j by (rule key_same [OF inv base.read [OF b]]) simp_all
  show "key_inv True (b\<lparr>br_terminals := put k (new_terminal at k job p b) (br_terminals b)\<rparr>)" if new: "\<not> has k (br_terminals b)" for k at job p
  proof -
    let ?b = "b\<lparr>br_terminals := put k (new_terminal at k job p b) (br_terminals b)\<rparr>"
    have g: "grip ?b = (grip b)(k \<mapsto> (TRunning, p, None))" by (auto simp: grip_def fun_eq_iff new_terminal_def)
    have "grip b k = None" using new by (simp add: grip_def has_def)
    then have "key_ok ((grip b)(k \<mapsto> (TRunning, p, None))) (keyed b) (\<lambda>k. registered k b)"
      using ok unfolding key_ok_def by (auto split: if_splits)
    moreover have "keyed ?b = keyed b" "registered j ?b = registered j b" for j by (simp_all add: keyed_def registered_def fun_eq_iff)
    ultimately show ?thesis using base.added [OF b new] by (simp add: key_inv_def g)
  qed
  show "key_inv True (b\<lparr>br_ptys := put p fresh_pty (br_ptys b)\<rparr>)" if new: "\<not> has p (br_ptys b)" for p
  proof -
    let ?b = "b\<lparr>br_ptys := put p fresh_pty (br_ptys b)\<rparr>"
    have q: "keyed ?b = (keyed b)(p \<mapsto> (None, []))" by (auto simp: keyed_def fun_eq_iff fresh_pty_def)
    have "keyed b p = None" using new by (simp add: keyed_def has_def)
    then have "key_ok (grip b) ((keyed b)(p \<mapsto> (None, []))) (\<lambda>k. registered k b)"
      using ok unfolding key_ok_def by (auto split: if_splits) (metis option.distinct(1))+
    moreover have "grip ?b = grip b" "registered j ?b = registered j b" for j by (simp_all add: grip_def registered_def fun_eq_iff)
    ultimately show ?thesis using base.spawned [OF b new] by (simp add: key_inv_def q)
  qed
  show "key_inv True (register_terminal k job (edit_pty p (\<lambda>y. y\<lparr>py_exitListener := Some k\<rparr>) b))"
    if m: "map_of (br_terminals b) k = Some m" "mt_process m = p" "\<not> mt_disposed m"
      and y: "map_of (br_ptys b) p = Some y" "py_exitListener y = None" for k m p y job
  proof -
    let ?b = "register_terminal k job (edit_pty p (\<lambda>y. y\<lparr>py_exitListener := Some k\<rparr>) b)"
    have gq: "grip ?b = grip b" "keyed ?b = (keyed b)(p \<mapsto> (Some k, py_inputs y))"
      using y(1) by (auto simp: grip_def keyed_def fun_eq_iff register_terminal_def edit_pty_def)
    have "key_ok (grip b) ((keyed b)(p \<mapsto> (Some k, py_inputs y))) (\<lambda>j. registered j ?b)"
      by (rule key_hired [OF ok]) (use m y in \<open>auto simp: grip_def keyed_def registered_def register_terminal_def edit_pty_def split: if_splits\<close>)
    then show ?thesis using base.hired [OF b m y] by (simp add: key_inv_def gq)
  qed
  show "key_inv True (edit_terminal k (\<lambda>m. m\<lparr>mt_lease := Some l\<rparr>) b)"
    if m: "map_of (br_terminals b) k = Some m" "mt_state m = TRunning" "registered k b" "mt_lease m = None"
      and l: "fresh_lease (ls_terminalLeaseId (le_summary l)) b" "le_nextInputSequence l = 0" "le_receipts l = []" for k m l
  proof -
    have "key_ok ((grip b)(k \<mapsto> (TRunning, mt_process m, Some l))) (keyed b) (\<lambda>j. registered j b)"
      by (rule key_granted [OF ok _ m(3) fresh_unused [OF l(1)]]) (use m l in \<open>simp_all add: grip_def\<close>)
    then show ?thesis using base.granted [OF b m l] m(1,2) by (simp add: key_inv_def grip_edit)
  qed
  show "key_inv True (edit_terminal k (\<lambda>m. m\<lparr>mt_lease := Some l'\<rparr>) b)"
    if m: "map_of (br_terminals b) k = Some m" "mt_lease m = Some l" "renewed l l'" for k m l l'
  proof -
    have "key_ok ((grip b)(k \<mapsto> (mt_state m, mt_process m, Some l'))) (keyed b) (\<lambda>j. registered j b)"
      by (rule key_renewed [OF ok _ m(3)]) (use m in \<open>simp add: grip_def\<close>)
    then show ?thesis using base.prolonged [OF b m] m(1) by (simp add: key_inv_def grip_edit)
  qed
  show "key_inv True (edit_terminal k (\<lambda>m. m\<lparr>mt_lease := map_option (keep_input (le_nextInputSequence l) (inputHash te payload, r)) (mt_lease m)\<rparr>)
        (edit_pty (mt_process m) (log_input l op) b))"
    if m: "map_of (br_terminals b) k = Some m" "mt_lease m = Some l" "mt_state m = TRunning" for k m l te payload r op
  proof -
    let ?b = "edit_terminal k (\<lambda>m. m\<lparr>mt_lease := map_option (keep_input (le_nextInputSequence l) (inputHash te payload, r)) (mt_lease m)\<rparr>)
        (edit_pty (mt_process m) (log_input l op) b)"
    have gq: "grip ?b = (grip b)(k \<mapsto> (TRunning, mt_process m, Some (keep_input (le_nextInputSequence l) (inputHash te payload, r) l)))"
      "keyed ?b = (keyed b)(mt_process m := map_option (\<lambda>(x, log). (x, log @ [(ls_terminalLeaseId (le_summary l), le_nextInputSequence l, op)])) (keyed b (mt_process m)))"
      using m by (simp_all add: grip_edit keyed_edit keyed_def option.map_comp comp_def log_input_def)
    have "key_ok (grip ?b) (keyed ?b) (\<lambda>j. registered j b)"
      unfolding gq by (rule key_typed [OF ok]) (use m in \<open>simp add: grip_def\<close>)
    then show ?thesis using base.inputted [OF b m] by (simp add: key_inv_def)
  qed
  show "key_inv True (close_end at b)" for at by (rule key_closed [OF inv])
qed

lemma key_new: "newBroker boot ps n l = Inr b \<Longrightarrow> key_inv True b"
  using base_new [of boot ps n l b]
  by (auto simp: newBroker_def key_inv_def key_ok_def grip_def keyed_def registered_def split: if_splits)

lemma key_reached: "newBroker boot ps n l = Inr b0 \<Longrightarrow> (terminal_step te)\<^sup>*\<^sup>* b0 b \<Longrightarrow> key_inv True b"
  by (rule keys.P_steps [OF _ key_new])



subsection \<open>Requests that are sent again\<close>

fun typed :: "input_payload \<Rightarrow> pty_op" where
  "typed (Write data) = PtyWrite (from_base64url data)"
| "typed (Resize d) = PtyResize d"

lemma expire_fields:
  "br_bySession (expireLeaseIfNeeded at k b) = br_bySession b" "br_ptys (expireLeaseIfNeeded at k b) = br_ptys b"
  by (simp_all add: expireLeaseIfNeeded_def clearLease_def changed_def Let_def split: option.split)

lemma perform_done:
  assumes "perform_input at k l p m b = (None, d)" "map_of (br_terminals b) k = Some m"
  obtains m' where "map_of (br_terminals d) k = Some m'" "mt_lease m' = mt_lease m" "core_of d = core_of b"
    "br_bySession d = br_bySession b" "br_ptys d = br_ptys (edit_pty (mt_process m) (log_input l (typed p)) b)"
proof (cases p)
  case (Write data)
  with assms that [of m] show thesis by (auto simp: perform_input_def Let_def split: if_splits)
next
  case (Resize z)
  then have d: "d = changed at k (edit_terminal k (resized_to z) (edit_pty (mt_process m) (log_input l (PtyResize z)) b))"
    using assms(1) by (auto simp: perform_input_def split: if_splits)
  have "core_of (edit_terminal k (resized_to z) c) = core_of c" for c by (rule core_edit) (simp add: resized_to_def)
  then have "core_of d = core_of b" unfolding d by simp
  moreover obtain m' where "map_of (br_terminals d) k = Some m'" "mt_lease m' = mt_lease m"
    using assms(2) unfolding d by (simp add: changed_def emit_terminal edit_terminal_of numbered_def resized_to_def)
  ultimately show thesis using that [of m'] Resize by (simp add: d changed_def)
qed

text \<open>An input that was accepted: it was typed now, or it has its receipt from before.\<close>

lemma input_accepted:
  assumes "terminal_input_op te at i b = (Inr r, c)"
  obtains m0 m l b1 where "lookup_terminal (in_target i) (in_terminalId i) b = Inr m0" "runningWritable m0 = None"
      "held_lease te at (in_terminalClientId i) (in_credential i) (in_terminalId i) b = (Inr (m, l), b1)"
      "in_inputSequence i < le_nextInputSequence l" "map_of (le_receipts l) (in_inputSequence i) = Some (inputHash te (in_payload i), r)" "c = b1"
  | m0 m l b1 d where "lookup_terminal (in_target i) (in_terminalId i) b = Inr m0" "runningWritable m0 = None"
      "held_lease te at (in_terminalClientId i) (in_credential i) (in_terminalId i) b = (Inr (m, l), b1)"
      "in_inputSequence i = le_nextInputSequence l" "perform_input at (in_terminalId i) l (in_payload i) m b1 = (None, d)"
      "ir_inputSequence r = in_inputSequence i"
      "c = edit_terminal (in_terminalId i) (\<lambda>m. m\<lparr>mt_lease := map_option (keep_input (in_inputSequence i) (inputHash te (in_payload i), r)) (mt_lease m)\<rparr>) d"
  using assms that
  by (fastforce simp: terminal_input_op_def Let_def split: sum.splits option.splits prod.splits if_splits)

lemma lookup_again:
  assumes "lookup_terminal t k b = Inr m0" "core_of c = core_of b" "br_bySession c = br_bySession b" "map_of (br_terminals c) k = Some m"
    and "base_ok b"
  shows "lookup_terminal t k c = Inr m" "runningWritable m = runningWritable m0"
proof -
  have m0: "map_of (br_bySession b) (tg_sessionId t) = Some k" "map_of (br_terminals b) k = Some m0" "assertTarget m0 t" "mt_terminalId m0 = k"
    using assms(1) base.named [OF assms(5)]
    by (auto simp: lookup_terminal_def split: option.splits if_splits Option.bind_splits)
  then have "mt_state m = mt_state m0" "mt_binding m = mt_binding m0" "mt_provider m = mt_provider m0" "mt_terminalId m = mt_terminalId m0"
    using fun_cong [OF assms(2), of k] assms(4) by (simp_all add: core_of_def)
  then show "lookup_terminal t k c = Inr m" "runningWritable m = runningWritable m0"
    using m0 assms(3,4) by (simp_all add: lookup_terminal_def assertTarget_def runningWritable_def)
qed

lemma held_again:
  assumes "held_lease te at client cred k b = (Inr (m, l), b1)" "map_of (br_terminals c) k = Some m'" "mt_lease m' = Some l'"
    and "le_summary l' = le_summary l" "le_tokenHash l' = le_tokenHash l" "at_ms at' < ls_expiresAt (le_summary l')"
  shows "held_lease te at' client cred k c = (Inr (m', l'), c)"
proof -
  have "expireLeaseIfNeeded at' k c = c" using assms(2,3,6) by (simp add: expireLeaseIfNeeded_def)
  then show ?thesis
    using assms by (auto simp: held_lease_def Let_def split: option.splits if_splits)
qed

lemma held_state:
  assumes "held_lease te at client cred k b = (Inr (m, l), b1)" "key_inv True b"
  shows "map_of (br_terminals b1) k = Some m" "mt_lease m = Some l" "core_of b1 = core_of b" "br_bySession b1 = br_bySession b"
    "br_ptys b1 = br_ptys b" "key_inv True b1"
  using keys.held_found [OF assms] assms(1) expire_fields [of at k b]
  by (auto simp: held_lease_def Let_def split: option.splits if_splits)

text \<open>C9: An input a broker accepts is typed exactly when it is the next one of its lease, and then exactly as it was
  sent; an earlier one changes nothing.  Either way, the same request sent again while the lease lasts
  gets the same answer and changes nothing at all.\<close>

theorem input_typed_once:
  assumes "newBroker boot ps n lim = Inr b0" "(terminal_step te)\<^sup>*\<^sup>* b0 b" "terminal_input_op te at i b = (Inr r, c)"
  shows "\<exists>m l y. map_of (br_terminals c) (in_terminalId i) = Some m \<and> mt_lease m = Some l \<and> map_of (br_ptys b) (mt_process m) = Some y \<and>
    br_ptys c =
      (if in_inputSequence i < length (of_lease (ls_terminalLeaseId (le_summary l)) (py_inputs y)) then br_ptys b
       else put (mt_process m) (y\<lparr>py_inputs := py_inputs y @
         [(ls_terminalLeaseId (le_summary l), in_inputSequence i, typed (in_payload i))]\<rparr>) (br_ptys b)) \<and>
    (\<forall>at'. at_ms at' < ls_expiresAt (le_summary l) \<longrightarrow> terminal_input_op te at' i c = (Inr r, c))"
proof -
  let ?k = "in_terminalId i"
  have inv: "key_inv True b" by (rule key_reached [OF assms(1,2)])
  then have b: "base_ok b" by (simp add: key_inv_def)
  have process: "\<exists>y. map_of (br_ptys b) (mt_process m) = Some y \<and> ready l (py_inputs y)"
    if h: "held_lease te at client cred ?k b = (Inr (m, l), b1)" and run: "lookup_terminal (in_target i) ?k b = Inr m0" "runningWritable m0 = None"
    for client cred m l b1 m0
  proof -
    note held = held_state [OF h inv]
    have "runningWritable m = None" using lookup_again(2) [OF run(1) held(3,4,1) b] run(2) by simp
    then have "grip b1 ?k = Some (TRunning, mt_process m, Some l)"
      using held(1,2) by (auto simp: grip_def runningWritable_def split: if_splits)
    then obtain log where "keyed b1 (mt_process m) = Some (Some ?k, log)" "ready l log"
      using held(6) unfolding key_inv_def key_ok_def by blast
    then show ?thesis using held(5) by (auto simp: keyed_def)
  qed
  from assms(3) show ?thesis
  proof (cases rule: input_accepted)
    case (1 m0 m l b1)
    note held = held_state [OF 1(3) inv]
    obtain y where y: "map_of (br_ptys b) (mt_process m) = Some y" "ready l (py_inputs y)" using process [OF 1(3,1,2)] by blast
    have "terminal_input_op te at' i c = (Inr r, c)" if "at_ms at' < ls_expiresAt (le_summary l)" for at'
      using lookup_again [OF 1(1) held(3,4,1) b] 1(2) held_again [OF 1(3) held(1,2) refl refl that] 1(4-6)
      by (simp add: terminal_input_op_def Let_def)
    then show ?thesis using held y 1(4,6) by (auto simp: ready_def Let_def)
  next
    case (2 m0 m l b1 d)
    note held = held_state [OF 2(3) inv]
    let ?r = "(inputHash te (in_payload i), r)"
    obtain y where y: "map_of (br_ptys b) (mt_process m) = Some y" "ready l (py_inputs y)" using process [OF 2(3,1,2)] by blast
    obtain m' where m': "map_of (br_terminals d) ?k = Some m'" "mt_lease m' = mt_lease m" "core_of d = core_of b1"
        "br_bySession d = br_bySession b1" "br_ptys d = br_ptys (edit_pty (mt_process m) (log_input l (typed (in_payload i))) b1)"
      by (rule perform_done [OF 2(5) held(1)])
    define l' where "l' = keep_input (in_inputSequence i) ?r l"
    define mc where "mc = m'\<lparr>mt_lease := Some l'\<rparr>"
    have mc: "map_of (br_terminals c) ?k = Some mc" "mt_lease mc = Some l'"
      using m'(1,2) held(2) by (simp_all add: 2(7) edit_terminal_of mc_def l'_def)
    have "core_of c = core_of d" unfolding 2(7) by (rule core_edit) simp
    then have core: "core_of c = core_of b" using m'(3) held(3) by simp
    have "core_of c ?k = core_of b1 ?k" using core held(3) by simp
    then have p: "mt_process mc = mt_process m" using mc(1) held(1) by (simp add: core_of_def)
    have l': "le_summary l' = le_summary l" "le_tokenHash l' = le_tokenHash l" "le_nextInputSequence l' = Suc (in_inputSequence i)"
      using 2(4) by (simp_all add: l'_def keep_input_def Let_def)
    have "receipts_ok l" using held(6) grip_found [OF held(1)] held(2) unfolding key_inv_def key_ok_def by auto
    then have receipt: "map_of (le_receipts l') (in_inputSequence i) = Some ?r" using receipts_kept(2) 2(4) by (simp add: l'_def)
    have sess: "br_bySession c = br_bySession b" using m'(4) held(4) by (simp add: 2(7))
    have "terminal_input_op te at' i c = (Inr r, c)" if "at_ms at' < ls_expiresAt (le_summary l')" for at'
      using lookup_again [OF 2(1) core sess mc(1) b] 2(2) held_again [OF 2(3) mc l'(1,2) that] l'(3) receipt
      by (simp add: terminal_input_op_def Let_def)
    moreover have "in_inputSequence i = length (of_lease (ls_terminalLeaseId (le_summary l')) (py_inputs y))"
      using y(2) 2(4) by (simp add: ready_def Let_def l'(1))
    moreover have "br_ptys c = put (mt_process m) (y\<lparr>py_inputs := py_inputs y @ [(ls_terminalLeaseId (le_summary l), in_inputSequence i, typed (in_payload i))]\<rparr>) (br_ptys b)"
      using y(1) m'(5) held(5) 2(4) by (simp add: 2(7) edit_pty_def log_input_def)
    ultimately show ?thesis using mc y(1) p l'(1) by (intro exI [of _ mc] exI [of _ l'] exI [of _ y]) simp
  qed
qed

theorem input_typed_once_witness:
  "\<exists>r. terminal_input_op demo_env (demo_at 6) demo_input demo_leased = (Inr r, demo_typed) \<and>
     terminal_input_op demo_env (demo_at 8) demo_input demo_typed = (Inr r, demo_typed)"
proof -
  have "case fst (terminal_input_op demo_env (demo_at 6) demo_input demo_leased) of Inl e \<Rightarrow> False | Inr r \<Rightarrow> True" by code_simp
  then obtain r where "fst (terminal_input_op demo_env (demo_at 6) demo_input demo_leased) = Inr r" by (auto split: sum.splits)
  then have r: "terminal_input_op demo_env (demo_at 6) demo_input demo_leased = (Inr r, demo_typed)"
    by (simp add: demo_typed_def prod_eq_iff)
  have i: "in_terminalId demo_input = ''t''" by (simp add: demo_input_def)
  obtain m l where ml: "map_of (br_terminals demo_typed) ''t'' = Some m" "mt_lease m = Some l"
      "\<forall>at'. at_ms at' < ls_expiresAt (le_summary l) \<longrightarrow> terminal_input_op demo_env at' demo_input demo_typed = (Inr r, demo_typed)"
    using input_typed_once [OF demo_start demo_runs(1) r] unfolding i by blast
  have "map_option (\<lambda>m. map_option (\<lambda>l. ls_expiresAt (le_summary l)) (mt_lease m)) (map_of (br_terminals demo_typed) ''t'') = Some (Some 14)"
    by code_simp
  then have "ls_expiresAt (le_summary l) = 14" using ml by simp
  then have "terminal_input_op demo_env (demo_at 8) demo_input demo_typed = (Inr r, demo_typed)"
    using ml(3) [rule_format, of "demo_at 8"] by (simp add: demo_at_def)
  with r show ?thesis by blast
qed

end
