(* ===== verification/Terminal_Opening.thy ===== *)
theory Terminal_Opening
  imports Terminal_Demo Terminal_Stream
begin

text \<open>
  An opening that a session does not survive.  \<open>open\<close> waits for its provider between two steps; when the session
  is stopped, replaced or archived in between, \<open>invalidateSession\<close> finds no terminal and does nothing.
\<close>

lemma resume_fresh:
  assumes "map_of (br_terminals b) k = Some m" "\<not> mt_listening m" "\<not> mt_disposed m"
    and "map_of (br_ptys b) (mt_process m) = Some y" "py_dataListener y = None" "py_startupData y = []"
  shows "resumeProcessOutput at k b =
    (True, edit_terminal k (\<lambda>m. m\<lparr>mt_listening := True\<rparr>)
      (edit_pty (mt_process m) (\<lambda>y. y\<lparr>py_dataListener := Some k, py_startupData := [], py_startupBytes := 0\<rparr>) b))"
  using assms by (simp add: resumeProcessOutput_def)

text \<open>An opening with nothing to restart or to take over, answered by a process that nobody listens to.\<close>

lemma opened_alone:
  assumes "map_of (br_opening b) lock = Some job" "oj_current job = None" "oj_foreground job = None" "\<not> br_closed b"
    and "map_of (br_ptys b) p = Some y" "py_dataListener y = None" "py_exitListener y = None" "py_startupData y = []"
  shows "\<exists>c m. open_end at k lock (Some p) b = (Inr (Opened (descriptor m)), c) \<and> map_of (br_terminals c) k = Some m \<and>
    map_of (br_bySession c) (tg_sessionId (tb_target (oj_binding job))) = Some k \<and>
    mt_terminalId m = k \<and> mt_state m = TRunning \<and> mt_lease m = None \<and> mt_binding m = oj_binding job \<and> mt_provider m = oj_provider job \<and>
    br_closed c = False \<and> br_providers c = br_providers b"
proof -
  define b1 where "b1 = b\<lparr>br_opening := del lock (br_opening b), br_pendingProcessOpens := br_pendingProcessOpens b - (if oj_reserves job then 1 else 0)\<rparr>"
  define m1 where "m1 = new_terminal at k job p b1"
  define b2 where "b2 = b1\<lparr>br_terminals := put k m1 (br_terminals b1)\<rparr>"
  define b3 where "b3 = edit_pty p (\<lambda>y. y\<lparr>py_dataListener := Some k, py_startupData := [], py_startupBytes := 0\<rparr>) b2"
  define b4 where "b4 = edit_terminal k (\<lambda>m. m\<lparr>mt_listening := True\<rparr>) b3"
  define b5 where "b5 = edit_pty p (\<lambda>y. y\<lparr>py_exitListener := Some k\<rparr>) b4"
  define c where "c = register_terminal k job b5"
  let ?n = "m1\<lparr>mt_listening := True\<rparr>"
  have m1: "mt_terminalId m1 = k" "mt_state m1 = TRunning" "mt_lease m1 = None" "mt_binding m1 = oj_binding job" "mt_provider m1 = oj_provider job"
      "\<not> mt_listening m1" "\<not> mt_disposed m1" "mt_process m1 = p" by (simp_all add: m1_def new_terminal_def)
  have "map_of (br_ptys b2) p = Some y" using assms(5) by (simp add: b2_def b1_def)
  then have "resumeProcessOutput at k b2 = (True, b4)"
    using resume_fresh [of b2 k m1 y at] assms(6,8) m1 by (simp add: b3_def b4_def) (simp add: b2_def)
  moreover have "\<exists>y'. map_of (br_ptys b4) p = Some y' \<and> py_exitListener y' = None"
    using \<open>map_of (br_ptys b2) p = Some y\<close> assms(7) by (simp add: b4_def b3_def edit_pty_def)
  ultimately have "construct_terminal at k job p b1 = (True, b5)"
    by (auto simp: construct_terminal_def Let_def b2_def [symmetric] m1_def [symmetric] b5_def)
  moreover have terminals: "map_of (br_terminals b5) k = Some ?n" by (simp add: b5_def b4_def edit_terminal_of b3_def b2_def)
  then have c: "map_of (br_terminals c) k = Some ?n" by (simp add: c_def register_terminal_def)
  ultimately have "install_terminal at k job p b1 = (Inr (Opened (descriptor ?n)), c)"
    using assms(2,3) by (simp add: install_terminal_def Let_def c_def)
  then have "open_end at k lock (Some p) b = (Inr (Opened (descriptor ?n)), c)"
    using assms(1,3,4) by (simp add: open_end_def Let_def b1_def [symmetric]) (simp add: b1_def)
  moreover have "br_closed c = br_closed b" "br_providers c = br_providers b"
    by (simp_all add: c_def register_terminal_def b5_def b4_def b3_def b2_def b1_def edit_pty_def edit_terminal_def split: option.split)
  moreover have "map_of (br_bySession c) (tg_sessionId (tb_target (oj_binding job))) = Some k" by (simp add: c_def register_terminal_def)
  ultimately show ?thesis
    using c m1(1-5) assms(4) by (intro exI [of _ c] exI [of _ ?n] conjI) simp_all
qed

text \<open>C40: When a session is invalidated while its terminal is being opened, nothing happens: the opening ends
  with a terminal that runs under the binding of before.  Whoever names the session by a later binding
  is told by \<open>open\<close> that this terminal is open, yet cannot see it nor terminate it.\<close>

theorem invalidation_misses_opening:
  assumes "map_of (br_opening b) lock = Some job" "oj_current job = None" "oj_foreground job = None" "\<not> br_closed b"
    and "map_of (br_ptys b) p = Some y" "py_dataListener y = None" "py_exitListener y = None" "py_startupData y = []"
    and "tg_sessionId (tb_target (oj_binding job)) = s" "map_of (br_bySession b) s = None"
    and "tg_sessionId t = s" "t \<noteq> tb_target (oj_binding job)"
    and "tb_target bi = t" "map_of (br_providers b) (providerKey (tb_harness bi) (tb_adapterScopeId bi)) = Some q"
    and "c = snd (open_end at k lock (Some p) (invalidateSession at s why b))"
  shows "invalidateSession at s why b = b \<and>
    (\<exists>d. fst (open_end at k lock (Some p) b) = Inr (Opened d) \<and> td_state d = TRunning \<and> td_target d = tb_target (oj_binding job) \<and>
       fst (open_begin at' bi i c) = Inr (Some (Opened d)) \<and>
       fst (get_terminal at' t c) = Inl TFenced \<and> fst (terminate at' t k k c) = Inl TFenced)"
proof -
  have same: "invalidateSession at s why b = b" using assms(10) by (simp add: invalidateSession_def lookup_in_def)
  obtain c' m where m': "open_end at k lock (Some p) b = (Inr (Opened (descriptor m)), c')" "map_of (br_terminals c') k = Some m"
      "map_of (br_bySession c') (tg_sessionId (tb_target (oj_binding job))) = Some k" "mt_terminalId m = k" "mt_state m = TRunning"
      "mt_lease m = None" "mt_binding m = oj_binding job" "br_closed c' = False" "br_providers c' = br_providers b"
    using opened_alone [OF assms(1-8), of at k] by blast
  have "c' = c" using assms(15) m'(1) by (simp only: same snd_conv)
  note m = m' [unfolded this assms(9)]
  have idle: "expireLeaseIfNeeded at' k c = c" using m(2,6) by (simp add: expireLeaseIfNeeded_def)
  have found: "lookup_in (br_bySession c) s c = Some m" using m(2,3) by (simp add: lookup_in_def)
  have "fst (open_begin at' bi i c) = Inr (Some (Opened (descriptor m)))"
    using m found idle assms(11,13,14) by (simp add: open_begin_def expired_of_def Let_def)
  moreover have "fst (get_terminal at' t c) = Inl TFenced" "fst (terminate at' t k k c) = Inl TFenced"
    using m assms(11,12) by (auto simp: get_terminal_def terminate_def lookup_terminal_def assertTarget_def)
  ultimately show ?thesis using same m(1,5,7) by (simp add: descriptor_def)
qed

definition later_target :: terminal_target where
  "later_target = demo_target\<lparr>tg_bindingRevision := 2\<rparr>"

theorem invalidation_misses_opening_witness:
  "\<exists>d. fst (open_end (demo_at 1) ''t'' ''session:s'' (Some 0) (invalidateSession (demo_at 1) ''s'' ''archived'' demo_hired)) = Inr (Opened d) \<and>
    td_state d = TRunning \<and>
    fst (open_begin (demo_at 2) (demo_binding\<lparr>tb_target := later_target\<rparr>) demo_open
      (snd (open_end (demo_at 1) ''t'' ''session:s'' (Some 0) (invalidateSession (demo_at 1) ''s'' ''archived'' demo_hired)))) = Inr (Some (Opened d))"
proof -
  obtain job where job: "map_of (br_opening demo_hired) ''session:s'' = Some job" "oj_current job = None" "oj_foreground job = None"
      "tb_target (oj_binding job) = demo_target"
  proof -
    have "case map_of (br_opening demo_hired) ''session:s'' of None \<Rightarrow> False
      | Some job \<Rightarrow> oj_current job = None \<and> oj_foreground job = None \<and> tb_target (oj_binding job) = demo_target" by code_simp
    then show thesis using that by (auto split: option.splits)
  qed
  have at: "tg_sessionId (tb_target (oj_binding job)) = ''s''" "tg_sessionId later_target = ''s''" "later_target \<noteq> tb_target (oj_binding job)"
    by (simp_all add: job(4) later_target_def demo_target_def)
  have b: "\<not> br_closed demo_hired" "map_of (br_bySession demo_hired) ''s'' = None" by code_simp+
  have y: "map_of (br_ptys demo_hired) 0 = Some fresh_pty" by (simp add: demo_hired_def)
  have q: "map_of (br_providers demo_hired) (providerKey ''h'' ''a'') = Some demo_provider" by code_simp
  show ?thesis
    using invalidation_misses_opening [OF job(1-3) b(1) y _ _ _ at(1) b(2) at(2,3), of "demo_binding\<lparr>tb_target := later_target\<rparr>" demo_provider
        _ "demo_at 1" "''t''" "''archived''" "demo_at 2" demo_open] q
    by (auto simp: fresh_pty_def demo_binding_def)
qed

end
