(* ===== verification/Spec2Isabelle.thy ===== *)
theory Spec2Isabelle
  imports Canonical_Json Lifecycle_Merge Metadata Source_Coverage Control_Metadata_Props Catalog_Invariants
    Feed_Delivery Hub_Delivery Runtime_Hub Node_Settlement Search_Pages Gateway_Props
    Client_Watch Terminal_Subscriber Terminal_Keyboard Terminal_Opening
begin

text \<open>
  Agent Multiplex lets many clients use coding agents that run on many machines. A \<^emph>\<open>runtime node\<close> runs
  agents and owns their native sessions; a \<^emph>\<open>control node\<close> keeps a catalog of sessions, commands and
  metadata for a tree of nodes below it; a \<^emph>\<open>client\<close> follows a control node's stream of events. The tree
  has one metadata authority at its root; nodes below it are attached branches that propose changes.
  An \<^emph>\<open>access gateway\<close> follows several control nodes, shows their projections as one and routes requests.

  The program is TypeScript. This library models its core: the records and their schemas
  (\<^verbatim>\<open>packages/protocol\<close>), the catalog of the control node and its live streams
  (\<^verbatim>\<open>packages/control-node-core\<close>), the store, streams and terminals of the runtime node
  (\<^verbatim>\<open>packages/runtime-node-core\<close>), the streams of a client (\<^verbatim>\<open>packages/client\<close>) and the projection of the
  gateway (\<^verbatim>\<open>packages/gateway-core\<close>).

  \<^bold>\<open>Conventions.\<close> A text is a HOL string that holds its UTF-8 bytes. A SQL table is an association list in
  insertion order (\<^verbatim>\<open>table\<close>, with \<^verbatim>\<open>put\<close>, \<^verbatim>\<open>del\<close>, \<^verbatim>\<open>has\<close>); columns that repeat a field of the stored record
  are left out. An operation that throws returns \<^verbatim>\<open>Inl\<close> of its error and leaves no state, as its
  transaction rolls back. Clock readings, fresh identifiers and hash functions are arguments.
  \<^verbatim>\<open>String.prototype.localeCompare\<close> depends on the host and is the parameter \<^verbatim>\<open>lc :: collation\<close>; what a
  property needs of it is a hypothesis, and each such property has a witness with a concrete one.
  Counters that the code bounds by \<^verbatim>\<open>Number.MAX_SAFE_INTEGER\<close> carry that bound.

  \<^bold>\<open>The wire values.\<close> \<^verbatim>\<open>Json\<close> has JSON values and the functions of \<^verbatim>\<open>protocol/src/json.ts\<close>: canonical text, the
  omission of undefined members, the byte bound for a frame. \<^verbatim>\<open>Canonical_Json\<close> shows that canonical text
  decides equality up to the order of members if the collation separates keys (and how it fails if not),
  and that the byte bound covers the text and the binary encoding. \<^verbatim>\<open>Iso_Time\<close> parses time stamps.

  \<^bold>\<open>Metadata.\<close> \<^verbatim>\<open>Metadata\<close> models snapshots, patches and the compare-and-set rule (\<^verbatim>\<open>applyMetadataPatch\<close>,
  \<^verbatim>\<open>overlayMetadata\<close>) with its exact specification, the absence of lost updates, and the agreement of the
  optimistic overlay with the authority. \<^verbatim>\<open>Record_Json\<close> and \<^verbatim>\<open>Control_Json\<close> are the JSON forms of records
  that the code compares or hashes.

  \<^bold>\<open>Journals.\<close> \<^verbatim>\<open>Lifecycle\<close> has the records of commands, interactions, launches and archives and the merge
  rules of \<^verbatim>\<open>catalog.ts\<close>; \<^verbatim>\<open>Lifecycle_Merge\<close> shows that they are monotone, that settled outcomes stay, and that
  replicas that saw the same observations in different orders agree.

  \<^bold>\<open>The catalog.\<close> \<^verbatim>\<open>Control_State\<close> is the state of \<^verbatim>\<open>ControlNodeCatalog\<close>, one record of tables, with the row
  helpers. Its operations follow in the order of \<^verbatim>\<open>catalog.ts\<close>: the feed (\<^verbatim>\<open>Control_Feed\<close>), metadata
  operations (\<^verbatim>\<open>Control_Metadata\<close>), journals (\<^verbatim>\<open>Control_Operations\<close>), attachment, detachment and promotion
  (\<^verbatim>\<open>Control_Topology\<close>), runtime nodes and the boot of a node (\<^verbatim>\<open>Control_Runtime\<close>), imports from child nodes
  (\<^verbatim>\<open>Control_Import\<close>), and the reconciliation of inventories (\<^verbatim>\<open>Control_Inventory\<close>). \<^verbatim>\<open>Source_Coverage\<close> holds
  the schemas of projections and shows that the coverage check accepts exactly trees.

  \<^verbatim>\<open>Catalog_Laws\<close> and \<^verbatim>\<open>Catalog_Steps\<close> collect every operation into a step relation with the laws each
  step obeys. \<^verbatim>\<open>Catalog_Invariants\<close> derives the invariants of every reachable catalog: valid rows, the log of
  role transitions, promotion only after detachment. \<^verbatim>\<open>Control_Metadata_Facts\<close> and \<^verbatim>\<open>Control_Metadata_Props\<close>
  follow a metadata proposal from a branch to its authority and back, under any interleaving.
  \<^verbatim>\<open>Feed_Delivery\<close> shows that the durable feed replays exactly what was committed. \<^verbatim>\<open>Demo_Run\<close> is a small
  concrete run on which the witnesses evaluate.

  \<^bold>\<open>Searches.\<close> \<^verbatim>\<open>Catalog_Search\<close> models \<^verbatim>\<open>searchSessions\<close>, \<^verbatim>\<open>listLaunches\<close> and their page cursors, which are
  base64 texts of JSON (\<^verbatim>\<open>Text_Codec\<close>, \<^verbatim>\<open>Json_Parse\<close>; \<^verbatim>\<open>Json_Roundtrip\<close> shows that parsing inverts printing and
  that the parser's fuel, twice the length of the text, is enough). \<^verbatim>\<open>Keyset_Pages\<close> proves paging correct for
  any table with a time and a key, as a locale; \<^verbatim>\<open>Search_Pages\<close> interprets it for both searches.

  \<^bold>\<open>Streams.\<close> \<^verbatim>\<open>Mailbox\<close> models the two asynchronous queues (\<^verbatim>\<open>BoundedQueue\<close>, \<^verbatim>\<open>AsyncQueue\<close>) behind one
  interface, a locale with both as interpretations. \<^verbatim>\<open>Event_Hub\<close> is the hub of the control node and \<^verbatim>\<open>Runtime_Hub\<close> that
  of the runtime node. Concurrency is explicit: a step is one commit, publication, timer tick, abort or read.
  \<^verbatim>\<open>Client_Cursor\<close> models the cursors of a client. \<^verbatim>\<open>Hub_Delivery\<close> composes catalog, hub, subscription and
  client: under every interleaving a subscriber gets the whole feed in order, a client that resumes misses
  nothing, and the one exception (a subscriber more than a replay page behind) is stated and proved.

  \<^bold>\<open>Reconnection.\<close> \<^verbatim>\<open>Resilient_Subscription\<close> models \<^verbatim>\<open>client/src/resilient-subscription.ts\<close>, turn by turn of the
  event loop: callbacks that carry a generation, the chain of handler jobs, retries. It is bounded and never
  hangs. \<^verbatim>\<open>Client_Watch\<close> puts the cursors of \<^verbatim>\<open>Client_Cursor\<close> into it: a client that loses and regains its
  stream is handed every control event once and in order.

  \<^bold>\<open>The runtime node.\<close> \<^verbatim>\<open>Runtime_Store\<close> is the durable store, \<^verbatim>\<open>Runtime_Store_Props\<close> its step relation and
  lemmas, \<^verbatim>\<open>Node_Settlement\<close> the properties: a proposal settles with its authority in either order of
  messages, none is lost, receipts are final, fences hold, restarts settle what was in flight.

  \<^bold>\<open>Terminals.\<close> \<^verbatim>\<open>Terminal_State\<close> has the wire types of \<^verbatim>\<open>protocol/src/terminal.ts\<close>, \<^verbatim>\<open>Terminal_Broker\<close> the
  terminals of a runtime node (\<^verbatim>\<open>runtime-node-core/src/terminal.ts\<close>): the native processes behind
  \<^verbatim>\<open>terminalProcessFromPty\<close>, the terminals on them, subscriptions, keyboard leases, and the opening and handing
  over of terminals. Objects the code shares (processes, terminals, subscriptions) are rows of a store; \<^verbatim>\<open>open\<close>
  and \<^verbatim>\<open>close\<close> are a step up to their \<^verbatim>\<open>await\<close> and one from there; a callback of a process, a timer or the
  emulator is a step of its own. Hashes, the key for lease tokens and the screen an emulator shows are
  parameters. Two fields only record history: \<^verbatim>\<open>mt_published\<close> every item of a terminal, \<^verbatim>\<open>py_inputs\<close> what was
  typed into a process. \<^verbatim>\<open>Terminal_Runs\<close> is the step relation, with locales for what every step keeps.
  \<^verbatim>\<open>Terminal_Stream\<close> and \<^verbatim>\<open>Terminal_Subscriber\<close> show that a subscriber follows the terminal without a gap and
  can rebuild its screen; \<^verbatim>\<open>Terminal_Keyboard\<close> that every input is typed once, in order, by one holder at a time;
  \<^verbatim>\<open>Terminal_Opening\<close> that an invalidation during an opening is lost. \<^verbatim>\<open>Terminal_Demo\<close> is a concrete run.

  \<^bold>\<open>The gateway.\<close> \<^verbatim>\<open>Gateway_State\<close> has the sources of \<^verbatim>\<open>AccessGatewayProjection\<close> and their comparison,
  \<^verbatim>\<open>Gateway_Select\<close> conflicts, selection, owner tables, refresh and loss of a source, \<^verbatim>\<open>Gateway_Stream\<close> what is
  taken from a source and handed on. A call that throws in memory keeps what it has changed, so these
  operations return an error beside the state; a refresh is two steps, around its \<^verbatim>\<open>await\<close>. \<^verbatim>\<open>Gateway_Route\<close> routes
  requests and checks answers, which are arguments; \<^verbatim>\<open>Gateway_Pages\<close> lists across sources and shows that nothing
  is left out. \<^verbatim>\<open>Gateway_Owners\<close> (a locale for a claimed table, four interpretations) and \<^verbatim>\<open>Gateway_Choice\<close> show
  that selected sources are apart, that selection cannot fail and accounts for every source;
  \<^verbatim>\<open>Gateway_Delivery\<close> makes a subscription an instance of the mailbox of \<^verbatim>\<open>Mailbox\<close> and follows its position
  through every step; \<^verbatim>\<open>Gateway_Props\<close> states the properties on a run with two sources.

  \<^bold>\<open>Not modelled.\<close> Reading and writing of SQLite files and their migrations; the
  services that call these components over the network; images on disk and the adapters to the
  vendors' agents; the client's side of a terminal; of the gateway the catalogs of harnesses, models and profiles, images and terminals;
  the applications; \<^verbatim>\<open>host-core\<close>, the archived previous generation.
  Listener exceptions, and failpoints for tests, are left out.
\<close>

end
